(* ===== verification/Prelude.thy ===== *)
theory Prelude
  imports Main "HOL-Library.Word" "HOL-Library.Monad_Syntax"
begin

text \<open>
  Shared vocabulary of the development: the widths of the machine integers the
  C++ sources use, the result type of fallible operations, the named collections
  of simplification rules, and the generic lemmas on lists, options and words the
  component theories use.
\<close>

unbundle bit_operations_syntax

section \<open>Machine integers and bytes\<close>

type_synonym u8 = "8 word"
type_synonym u16 = "16 word"
type_synonym u32 = "32 word"
type_synonym u64 = "64 word"
type_synonym bytes = "u8 list"

section \<open>Results\<close>

text \<open>
  A C++ function that returns \<open>false\<close> gives \<open>Fails\<close>; one that returns \<open>true\<close> with an
  updated object gives \<open>Gives x\<close>. The type \<open>'a outcome option\<close> adds \<open>None\<close> for undefined
  behaviour: an access outside the bounds of the array. Memory safety of a function is
  that its result is never \<open>None\<close>.
\<close>

datatype 'a outcome = Fails | Gives (given: 'a)

named_theorems outcome_simps \<open>unfolding and inversion of fallible operations\<close>
named_theorems codec_simps \<open>reading back what a writer wrote\<close>
named_theorems length_simps \<open>sizes of encoded blocks\<close>

lemma bind_Some_eq [simp]: "(case Some x of None \<Rightarrow> a | Some y \<Rightarrow> f y) = f x"
  by simp

lemma bind_neq_None [outcome_simps]:
  "Option.bind m f \<noteq> None \<longleftrightarrow> (\<exists>x. m = Some x \<and> f x \<noteq> None)"
  by (cases m) auto

lemma bind_map_option [outcome_simps]: "Option.bind m (\<lambda>x. Some (f x)) = map_option f m"
  by (cases m) auto

section \<open>Lists\<close>

lemma take_append_length [simp]: "n = length xs \<Longrightarrow> take n (xs @ ys) = xs"
  by simp

lemma drop_append_length [simp]: "n = length xs \<Longrightarrow> drop n (xs @ ys) = ys"
  by simp

lemma drop_eq_Cons_nth: "n < length xs \<Longrightarrow> drop n xs = xs ! n # drop (Suc n) xs"
  by (simp add: Cons_nth_drop_Suc)

lemma length_concat_const:
  "(\<And>x. x \<in> set xs \<Longrightarrow> length (f x) = n) \<Longrightarrow> length (concat (map f xs)) = n * length xs"
  by (induction xs) auto

end
