(* ===== verification/Binary64.thy ===== *)
theory Binary64
  imports Complex_Main Prelude "HOL-Library.Log_Nat"
begin

text \<open>
  The \<open>double\<close> of the C++ sources: IEEE 754 binary64 with round to nearest even.
  A finite value is a rational number; each operation computes the exact result and rounds
  it once, as the standard asks of a correctly rounded operation. Infinities and NaN are
  values of their own; the two zeros are one value, since no definition of the development
  divides by a negative zero. The locale \<open>rounding\<close> states what the clients need of the
  rounding function (monotone, idempotent, exact on small integers); it is interpreted on
  \<open>rnd\<close>, the rounding to 53 significant bits.
\<close>

section \<open>Rounding to nearest, ties to even\<close>

definition rne :: "rat \<Rightarrow> int" where
  "rne x =
     (let f = \<lfloor>x\<rfloor>; d = x - of_int f
      in if d < 1 / 2 then f else if 1 / 2 < d then f + 1 else if even f then f else f + 1)"

definition flog2 :: "rat \<Rightarrow> int" where
  "flog2 x =
     (let (p, q) = quotient_of x; e = bitlen p - bitlen q
      in if 2 powi e \<le> x then e else e - 1)"

definition ulp_exp :: "rat \<Rightarrow> int" where
  "ulp_exp x = max (flog2 \<bar>x\<bar> - 52) (- 1074)"

definition rnd :: "rat \<Rightarrow> rat" where
  "rnd x = (if x = 0 then 0 else of_int (rne (x / 2 powi ulp_exp x)) * 2 powi ulp_exp x)"

section \<open>Values and operations\<close>

datatype double = Fin rat | PInf | NInf | NaN

definition dround :: "rat \<Rightarrow> double" where
  "dround x =
     (let r = rnd x
      in if r = 0 then Fin 0
         else if 1024 \<le> flog2 \<bar>r\<bar> then (if 0 < r then PInf else NInf)
         else Fin r)"

definition d_of_int :: "int \<Rightarrow> double" where
  "d_of_int k = dround (of_int k)"

fun d_neg :: "double \<Rightarrow> double" where
  "d_neg (Fin x) = Fin (- x)"
| "d_neg PInf = NInf"
| "d_neg NInf = PInf"
| "d_neg NaN = NaN"

fun d_sgn :: "double \<Rightarrow> int" where
  "d_sgn (Fin x) = (if x = 0 then 0 else if 0 < x then 1 else - 1)"
| "d_sgn PInf = 1"
| "d_sgn NInf = - 1"
| "d_sgn NaN = 0"

definition d_inf :: "int \<Rightarrow> double" where
  "d_inf s = (if s = 0 then NaN else if 0 < s then PInf else NInf)"

fun d_add :: "double \<Rightarrow> double \<Rightarrow> double" where
  "d_add (Fin x) (Fin y) = dround (x + y)"
| "d_add NaN _ = NaN"
| "d_add _ NaN = NaN"
| "d_add PInf NInf = NaN"
| "d_add NInf PInf = NaN"
| "d_add PInf _ = PInf"
| "d_add _ PInf = PInf"
| "d_add NInf _ = NInf"
| "d_add _ NInf = NInf"

definition d_sub :: "double \<Rightarrow> double \<Rightarrow> double" where
  "d_sub a b = d_add a (d_neg b)"

fun d_mul :: "double \<Rightarrow> double \<Rightarrow> double" where
  "d_mul (Fin x) (Fin y) = dround (x * y)"
| "d_mul NaN _ = NaN"
| "d_mul _ NaN = NaN"
| "d_mul a b = d_inf (d_sgn a * d_sgn b)"

fun d_div :: "double \<Rightarrow> double \<Rightarrow> double" where
  "d_div (Fin x) (Fin y) = (if y = 0 then d_inf (d_sgn (Fin x)) else dround (x / y))"
| "d_div NaN _ = NaN"
| "d_div _ NaN = NaN"
| "d_div (Fin _) _ = Fin 0"
| "d_div a (Fin y) = d_inf (d_sgn a * (if y < 0 then - 1 else 1))"
| "d_div _ _ = NaN"

fun d_lt :: "double \<Rightarrow> double \<Rightarrow> bool" where
  "d_lt (Fin x) (Fin y) = (x < y)"
| "d_lt NaN _ = False"
| "d_lt _ NaN = False"
| "d_lt a PInf = (a \<noteq> PInf)"
| "d_lt NInf a = (a \<noteq> NInf)"
| "d_lt _ _ = False"

definition d_le :: "double \<Rightarrow> double \<Rightarrow> bool" where
  "d_le a b \<longleftrightarrow> a \<noteq> NaN \<and> b \<noteq> NaN \<and> (d_lt a b \<or> a = b)"

definition d_eq :: "double \<Rightarrow> double \<Rightarrow> bool" where
  "d_eq a b \<longleftrightarrow> a \<noteq> NaN \<and> a = b"

fun d_abs :: "double \<Rightarrow> double" where
  "d_abs (Fin x) = Fin \<bar>x\<bar>"
| "d_abs NInf = PInf"
| "d_abs a = a"

definition d_max :: "double \<Rightarrow> double \<Rightarrow> double" where
  "d_max a b = (if d_lt a b then b else a)"

text \<open>
  Conversion to a 32-bit \<open>int\<close> truncates towards zero; it is undefined (\<open>None\<close>) for a NaN,
  an infinity and a value out of range.
\<close>

definition trunc_rat :: "rat \<Rightarrow> int" where
  "trunc_rat x = (if 0 \<le> x then \<lfloor>x\<rfloor> else \<lceil>x\<rceil>)"

fun d_to_int :: "double \<Rightarrow> int option" where
  "d_to_int (Fin x) =
     (let t = trunc_rat x in if - (2 ^ 31) \<le> t \<and> t < 2 ^ 31 then Some t else None)"
| "d_to_int _ = None"

section \<open>Rounding is monotone\<close>

lemma rne_int [simp]: "rne (of_int k) = k"
  by (simp add: rne_def)

lemma rne_bounds: "\<lfloor>x\<rfloor> \<le> rne x" "rne x \<le> \<lfloor>x\<rfloor> + 1"
  by (auto simp: rne_def Let_def)

lemma rne_mono: "x \<le> y \<Longrightarrow> rne x \<le> rne y"
proof -
  assume xy: "x \<le> y"
  show ?thesis
  proof (cases "\<lfloor>x\<rfloor> = \<lfloor>y\<rfloor>")
    case True
    with xy show ?thesis by (auto simp: rne_def Let_def)
  next
    case False
    with floor_mono [OF xy] have "\<lfloor>x\<rfloor> + 1 \<le> \<lfloor>y\<rfloor>" by simp
    then show ?thesis using rne_bounds [of x] rne_bounds [of y] by linarith
  qed
qed

lemma rne_minus: "rne (- x) = - rne x"
proof (cases "x = of_int \<lfloor>x\<rfloor>")
  case True
  then have "rne (- x) = rne (of_int (- \<lfloor>x\<rfloor>))" by simp
  also have "\<dots> = - rne x" using True rne_int [of "\<lfloor>x\<rfloor>"] by (simp only: rne_int)
  finally show ?thesis .
next
  case False
  have f: "\<lfloor>- x\<rfloor> = - \<lfloor>x\<rfloor> - 1"
    using False ceiling_altdef [of x] unfolding ceiling_def by simp
  define d where "d = x - of_int \<lfloor>x\<rfloor>"
  have "- x - of_int (- \<lfloor>x\<rfloor> - 1) = 1 - d" by (simp add: d_def)
  then have "rne (- x) = (if 1 - d < 1 / 2 then - \<lfloor>x\<rfloor> - 1 else if 1 / 2 < 1 - d then - \<lfloor>x\<rfloor>
      else if even (- \<lfloor>x\<rfloor> - 1) then - \<lfloor>x\<rfloor> - 1 else - \<lfloor>x\<rfloor>)"
    by (simp only: rne_def Let_def f) simp
  moreover have "rne x = (if d < 1 / 2 then \<lfloor>x\<rfloor> else if 1 / 2 < d then \<lfloor>x\<rfloor> + 1
      else if even \<lfloor>x\<rfloor> then \<lfloor>x\<rfloor> else \<lfloor>x\<rfloor> + 1)"
    by (simp add: rne_def d_def)
  ultimately show ?thesis by simp
qed

lemma bitlen_powi:
  assumes "0 < p"
  shows "2 powi (bitlen p - 1) \<le> (of_int p :: rat)" "(of_int p :: rat) < 2 powi bitlen p"
proof -
  have b: "1 \<le> bitlen p"
    using assms bitlen_eq_zero_iff [of p] bitlen_nonneg [of p] by linarith
  from bitlen_bounds [OF assms] have "(of_int (2 ^ nat (bitlen p - 1)) :: rat) \<le> of_int p"
    and "(of_int p :: rat) < of_int (2 ^ nat (bitlen p))"
    by (simp_all only: of_int_le_iff of_int_less_iff)
  with b show "2 powi (bitlen p - 1) \<le> (of_int p :: rat)" "(of_int p :: rat) < 2 powi bitlen p"
    by (simp_all add: power_int_def)
qed

lemma flog2_bounds:
  assumes "0 < x"
  shows "2 powi flog2 x \<le> x" "x < 2 powi (flog2 x + 1)"
proof -
  obtain p q where pq: "quotient_of x = (p, q)" by fastforce
  then have q: "0 < q" and x: "x = of_int p / of_int q"
    by (simp_all add: quotient_of_denom_pos quotient_of_div)
  with assms have p: "0 < p" by (simp add: zero_less_divide_iff)
  let ?e = "bitlen p - bitlen q"
  have "x < 2 powi bitlen p / 2 powi (bitlen q - 1)"
    unfolding x using bitlen_powi [OF p] bitlen_powi [OF q]
    by (intro frac_less) (auto intro: order_less_imp_le p)
  also have "\<dots> = 2 powi (?e + 1)"
    by (simp add: algebra_simps flip: power_int_diff)
  finally have hi: "x < 2 powi (?e + 1)" .
  have "2 powi (?e - 1) = 2 powi (bitlen p - 1) / (2 powi bitlen q :: rat)"
    by (simp add: algebra_simps flip: power_int_diff)
  also have "\<dots> \<le> x"
    unfolding x using bitlen_powi [OF p] bitlen_powi [OF q] p q by (intro frac_le) auto
  finally have lo: "2 powi (?e - 1) \<le> x" .
  show "2 powi flog2 x \<le> x" "x < 2 powi (flog2 x + 1)"
    using lo hi by (auto simp: flog2_def pq Let_def)
qed

lemma powi_less_iff: "(2 powi a :: rat) < 2 powi b \<longleftrightarrow> a < b"
  by (meson linorder_not_le one_less_numeral_iff power_int_increasing power_int_strict_increasing
      one_le_numeral semiring_norm(76))

lemma flog2_mono: "0 < x \<Longrightarrow> x \<le> y \<Longrightarrow> flog2 x \<le> flog2 y"
proof -
  assume x: "0 < x" and xy: "x \<le> y"
  then have "(2 powi flog2 x :: rat) < 2 powi (flog2 y + 1)"
    using flog2_bounds [of x] flog2_bounds [of y] by linarith
  then show ?thesis by (simp add: powi_less_iff)
qed

text \<open>Rounding on a grid that holds \<open>t\<close> does not cross \<open>t\<close>.\<close>

lemma grid_round:
  assumes "e \<le> k"
  shows "x \<le> 2 powi k \<Longrightarrow> of_int (rne (x / 2 powi e)) * 2 powi e \<le> (2 powi k :: rat)"
    and "2 powi k \<le> x \<Longrightarrow> (2 powi k :: rat) \<le> of_int (rne (x / 2 powi e)) * 2 powi e"
proof -
  have k: "(2 powi k :: rat) / 2 powi e = of_int (2 ^ nat (k - e))"
    using assms power_int_diff [of "2 :: rat" k e] by (simp add: power_int_def [of _ "k - e"])
  { assume "x \<le> 2 powi k"
    then have "x / 2 powi e \<le> of_int (2 ^ nat (k - e))"
      unfolding k [symmetric] by (simp add: divide_right_mono)
    then have "rne (x / 2 powi e) \<le> 2 ^ nat (k - e)"
      using rne_mono rne_int by metis
    then have "(of_int (rne (x / 2 powi e)) :: rat) \<le> of_int (2 ^ nat (k - e))"
      by (simp only: of_int_le_iff)
    then show "of_int (rne (x / 2 powi e)) * 2 powi e \<le> (2 powi k :: rat)"
      unfolding k [symmetric] by (simp add: field_simps) }
  { assume "2 powi k \<le> x"
    then have "of_int (2 ^ nat (k - e)) \<le> x / 2 powi e"
      unfolding k [symmetric] by (simp add: divide_right_mono)
    then have "2 ^ nat (k - e) \<le> rne (x / 2 powi e)"
      using rne_mono rne_int by metis
    then have "of_int (2 ^ nat (k - e)) \<le> (of_int (rne (x / 2 powi e)) :: rat)"
      by (simp only: of_int_le_iff)
    then show "(2 powi k :: rat) \<le> of_int (rne (x / 2 powi e)) * 2 powi e"
      unfolding k [symmetric] by (simp add: field_simps) }
qed

lemma rnd_mono_pos:
  assumes x: "0 < x" and xy: "x \<le> y"
  shows "rnd x \<le> rnd y"
proof -
  let ?ex = "ulp_exp x" and ?ey = "ulp_exp y"
  from xy x have y: "0 < y" by simp
  have le: "?ex \<le> ?ey" using x xy y flog2_mono [OF x xy] by (auto simp: ulp_exp_def)
  show ?thesis
  proof (cases "?ex = ?ey")
    case True
    then have "rne (x / 2 powi ?ex) \<le> rne (y / 2 powi ?ey)"
      using xy by (intro rne_mono) (simp add: divide_right_mono)
    then show ?thesis using True x y by (simp add: rnd_def mult_right_mono)
  next
    case False
    with le have fl: "flog2 x + 1 \<le> flog2 y" "?ey = flog2 y - 52"
      using x y by (auto simp: ulp_exp_def max_def split: if_splits)
    have "x \<le> 2 powi flog2 y"
      using flog2_bounds(2) [OF x] fl(1)
      by (meson less_le_trans less_imp_le power_int_increasing one_le_numeral)
    then have "rnd x \<le> 2 powi flog2 y"
      using grid_round(1) [of ?ex "flog2 y" x] le fl x by (simp add: rnd_def)
    also have "\<dots> \<le> rnd y"
      using grid_round(2) [of ?ey "flog2 y" y] flog2_bounds(1) [OF y] fl y by (simp add: rnd_def)
    finally show ?thesis .
  qed
qed

lemma rnd_minus: "rnd (- x) = - rnd x"
  by (simp add: rnd_def ulp_exp_def rne_minus flip: minus_divide_left)

lemma rnd_nonneg: "0 \<le> x \<Longrightarrow> 0 \<le> rnd x"
proof -
  assume "0 \<le> x"
  then have "rne 0 \<le> rne (x / 2 powi ulp_exp x)" by (intro rne_mono) simp
  then show ?thesis using rne_int [of 0] by (simp add: rnd_def)
qed

lemma rnd_mono: "x \<le> y \<Longrightarrow> rnd x \<le> rnd y"
proof -
  assume xy: "x \<le> y"
  consider "0 < x" | "x \<le> 0" "0 \<le> y" | "y < 0" using xy by linarith
  then show ?thesis
  proof cases
    case 1
    from this xy show ?thesis by (rule rnd_mono_pos)
  next
    case 2
    then have "rnd x \<le> 0" using rnd_nonneg [of "- x"] by (simp add: rnd_minus)
    also have "0 \<le> rnd y" using 2 by (intro rnd_nonneg)
    finally show ?thesis .
  next
    case 3
    with xy rnd_mono_pos [of "- y" "- x"] show ?thesis by (simp add: rnd_minus)
  qed
qed


section \<open>Representable values\<close>

lemma rnd_fixed:
  assumes "x = of_int m * 2 powi e" "\<bar>m\<bar> < 2 ^ 53" "- 1074 \<le> e"
  shows "rnd x = x"
proof (cases "x = 0")
  case True
  then show ?thesis by (simp add: rnd_def)
next
  case False
  have "\<bar>x\<bar> < 2 powi (e + 53)"
  proof -
    have "\<bar>x\<bar> = of_int \<bar>m\<bar> * 2 powi e" using assms(1) by (simp add: abs_mult)
    also have "\<dots> < of_int (2 ^ 53) * 2 powi e"
      using assms(2) by (intro mult_strict_right_mono) (simp_all only: of_int_less_iff, simp)
    also have "\<dots> = 2 powi (e + 53)" by (simp add: power_int_add)
    finally show ?thesis .
  qed
  then have "(2 powi flog2 \<bar>x\<bar> :: rat) < 2 powi (e + 53)"
    using flog2_bounds(1) [of "\<bar>x\<bar>"] False by simp
  then have le: "ulp_exp x \<le> e"
    using assms(3) by (simp add: powi_less_iff ulp_exp_def)
  have "x / 2 powi ulp_exp x = of_int m * (2 powi e / 2 powi ulp_exp x)"
    using assms(1) by simp
  also have "(2 powi e :: rat) / 2 powi ulp_exp x = of_int (2 ^ nat (e - ulp_exp x))"
    using le power_int_diff [of "2 :: rat" e "ulp_exp x"] by (simp add: power_int_def [of _ "e - ulp_exp x"])
  finally have q: "x / 2 powi ulp_exp x = of_int (m * 2 ^ nat (e - ulp_exp x))" by simp
  have "rnd x = of_int (rne (x / 2 powi ulp_exp x)) * 2 powi ulp_exp x"
    using False by (simp add: rnd_def)
  also have "\<dots> = x / 2 powi ulp_exp x * 2 powi ulp_exp x"
    unfolding q rne_int ..
  finally show ?thesis by simp
qed

lemma rnd_of_int: "\<bar>k\<bar> < 2 ^ 53 \<Longrightarrow> rnd (of_int k) = of_int k"
  by (rule rnd_fixed [of _ k 0]) simp_all

lemma rnd_0 [simp]: "rnd 0 = 0"
  by (simp add: rnd_def)

lemma rnd_idem: "rnd (rnd x) = rnd x"
proof (cases "x = 0")
  case False
  let ?e = "ulp_exp x" and ?m = "rne (x / 2 powi ulp_exp x)"
  have r: "rnd x = of_int ?m * 2 powi ?e" using False by (simp add: rnd_def)
  have "\<bar>x\<bar> < 2 powi (flog2 \<bar>x\<bar> + 1)" using False flog2_bounds(2) [of "\<bar>x\<bar>"] by simp
  also have "\<dots> \<le> 2 powi (?e + 53)" by (intro power_int_increasing) (auto simp: ulp_exp_def)
  finally have "\<bar>x\<bar> < of_int (2 ^ 53) * 2 powi ?e" by (simp add: power_int_add mult.commute)
  then have "\<bar>x / 2 powi ?e\<bar> \<le> of_int (2 ^ 53)" by (simp add: abs_mult pos_divide_le_eq)
  then have "x / 2 powi ?e \<le> of_int (2 ^ 53)" "of_int (- (2 ^ 53)) \<le> x / 2 powi ?e"
    unfolding abs_le_iff by simp_all
  then have m: "?m \<le> 2 ^ 53" "- (2 ^ 53) \<le> ?m" using rne_mono rne_int by metis+
  have e: "- 1074 \<le> ?e" by (simp add: ulp_exp_def)
  show ?thesis
  proof (cases "\<bar>?m\<bar> < 2 ^ 53")
    case True
    with r e show ?thesis by (metis rnd_fixed)
  next
    case False
    with m have "?m = sgn ?m * 2 ^ 53" by (auto simp: sgn_if abs_if split: if_splits)
    then have "rnd x = of_int (sgn ?m) * 2 powi (?e + 53)"
      unfolding r by (subst \<open>?m = sgn ?m * 2 ^ 53\<close>) (simp add: power_int_add)
    then show ?thesis using e by (intro rnd_fixed [of _ "sgn ?m" "?e + 53"]) (auto simp: sgn_if)
  qed
qed simp

lemma flog2_less: "0 < x \<Longrightarrow> x < 2 powi k \<Longrightarrow> flog2 x < k"
proof -
  assume "0 < x" "x < 2 powi k"
  then have "(2 powi flog2 x :: rat) < 2 powi k" using flog2_bounds(1) [of x] by linarith
  then show ?thesis by (simp add: powi_less_iff)
qed

lemma dround_in_range: "\<bar>rnd x\<bar> < 2 powi 1024 \<Longrightarrow> dround x = Fin (rnd x)"
proof (cases "rnd x = 0")
  case False
  assume "\<bar>rnd x\<bar> < 2 powi 1024"
  with False have "flog2 \<bar>rnd x\<bar> < 1024" by (intro flog2_less) simp_all
  with False show ?thesis by (simp add: dround_def)
qed (simp add: dround_def)

lemma dround_small:
  assumes "\<bar>x\<bar> \<le> 2 ^ 52"
  shows "dround x = Fin (rnd x)"
proof -
  have "\<bar>rnd x\<bar> \<le> 2 ^ 52"
    using rnd_mono [of x "2 ^ 52"] rnd_mono [of "- (2 ^ 52)" x] assms
      rnd_of_int [of "2 ^ 52"] rnd_of_int [of "- (2 ^ 52)"] by (auto simp: abs_le_iff)
  also have "(2 ^ 52 :: rat) < 2 powi 1024"
    using powi_less_iff [of 52 1024] by simp
  finally show ?thesis by (rule dround_in_range)
qed

lemma d_of_int_small: "\<bar>k\<bar> \<le> 2 ^ 52 \<Longrightarrow> d_of_int k = Fin (of_int k)"
  using dround_small [of "of_int k"] rnd_of_int [of k] of_int_le_iff [of "\<bar>k\<bar>" "2 ^ 52", where 'a = rat]
  by (simp add: d_of_int_def)

section \<open>The contract of a rounding function\<close>

locale rounding =
  fixes rnd :: "rat \<Rightarrow> rat"
  assumes rnd_mono: "x \<le> y \<Longrightarrow> rnd x \<le> rnd y"
    and rnd_of_int: "\<bar>k\<bar> < 2 ^ 53 \<Longrightarrow> rnd (of_int k) = of_int k"
begin

lemma rnd_between: "\<bar>k\<bar> < 2 ^ 53 \<Longrightarrow> \<bar>l\<bar> < 2 ^ 53 \<Longrightarrow> of_int k \<le> x \<Longrightarrow> x \<le> of_int l \<Longrightarrow>
    of_int k \<le> rnd x \<and> rnd x \<le> of_int l"
  by (metis rnd_mono rnd_of_int)

text \<open>
  The share \<open>n * r / (1 + r)\<close> of \<open>n\<close> items, computed with three rounded operations, stays
  between 0 and \<open>n\<close> for every representable ratio \<open>r\<close>.
\<close>

lemma share_bounds:
  assumes r: "0 \<le> r" "rnd r = r" and n: "0 \<le> n" "n < 2 ^ 53"
  shows "0 \<le> rnd (rnd (r / rnd (1 + r)) * of_int n)"
    and "rnd (rnd (r / rnd (1 + r)) * of_int n) \<le> of_int n"
proof -
  have one: "1 \<le> rnd (1 + r)" using rnd_mono [of 1 "1 + r"] rnd_of_int [of 1] r by simp
  have "r \<le> rnd (1 + r)" using rnd_mono [of r "1 + r"] r by simp
  with one r have q: "0 \<le> r / rnd (1 + r)" "r / rnd (1 + r) \<le> 1" by simp_all
  from rnd_between [of 0 1 "r / rnd (1 + r)"] q
  have "0 \<le> rnd (r / rnd (1 + r))" "rnd (r / rnd (1 + r)) \<le> 1" by simp_all
  with n have "0 \<le> rnd (r / rnd (1 + r)) * of_int n" "rnd (r / rnd (1 + r)) * of_int n \<le> of_int n"
    by (simp_all add: mult_left_le_one_le)
  with rnd_between [of 0 n "rnd (r / rnd (1 + r)) * of_int n"] n
  show "0 \<le> rnd (rnd (r / rnd (1 + r)) * of_int n)"
    and "rnd (rnd (r / rnd (1 + r)) * of_int n) \<le> of_int n"
    by simp_all
qed

end

interpretation b64: rounding rnd
  by unfold_locales (rule rnd_mono, assumption, rule rnd_of_int, assumption)

end
