(* ===== verification/MpCollector.thy ===== *)
theory MpCollector
  imports Binary64 "HOL-Library.Signed_Division"
begin

text \<open>
  The shared multipath state \<open>MpCollector\<close> (\<open>api/mp_collector.h\<close>, \<open>api/mp_collector.cc\<close>): the
  candidates and connections of the two paths, the path properties other components
  publish, and the two congestion signals the receiver of the media sends back, \<open>half\<close>
  (halve the traffic of the worse path) and \<open>full\<close> (stop the worse path). The time
  \<open>rtc::TimeMillis()\<close> is an argument. The last section states the operations other
  components call as a step relation and proves an invariant of its reachable states.
\<close>

section \<open>State\<close>

record SandyCandidate =
  sc_addr :: string
  sc_port :: int
  sc_priority :: u32
  sc_transport_name :: string
  sc_network_id :: u16
  sc_network_cost :: u16
  sc_protocol :: string

record SandyConnection =
  sx_local_addr :: string
  sx_local_port :: int
  sx_remote_addr :: string
  sx_remote_port :: int
  sx_received :: int

record mp_collector =
  mc_primary_connection :: "nat option"
  mc_secondary_connection :: "nat option"
  mc_candidates :: "SandyCandidate list"
  mc_connections :: "SandyConnection list"
  mc_primary_wnd :: int
  mc_secondary_wnd :: int
  mc_fps :: u32
  mc_remote_fps :: u32
  mc_enabled :: int
  mc_second_path :: int
  mc_numcamerastreams :: int
  mc_spath_lock :: int
  mc_ppath_lock :: int
  mc_best_pathid :: int
  mc_half_pathid :: int
  mc_full_pathid :: int
  mc_ratio :: double
  mc_loss_pathid :: int
  mc_scheduler :: string
  mc_rtt1 :: int
  mc_rtt2 :: int
  mc_remote_rr1 :: int
  mc_remote_rr2 :: int
  mc_sendingrate1 :: double
  mc_sendingrate2 :: double
  mc_loss1 :: double
  mc_loss2 :: double
  mc_alpha :: double
  mc_beta :: double
  mc_halfsignaltime :: int
  mc_fullsignaltime :: int
  mc_half_rtt :: int
  mc_half_loss :: double
  mc_full_rtt :: int
  mc_quic :: int
  mc_quic_sent :: int
  mc_remote_assymetry :: int
  mc_assymetry :: int
  mc_rr1 :: int
  mc_rr2 :: int
  mc_payload_type :: int

text \<open>
  Members that no code reads (\<open>primary_seq\<close>, \<open>secondary_seq\<close>, \<open>total_packets_sent\<close>, \<open>pathid\<close>, and
  the last four of \<open>SandyConnection\<close>) are left out. A connection pointer is a handle, \<open>None\<close> for null. The initial values of the class: four
  numeric members have no initialiser in the source, and their first values are the
  arguments; the two connection pointers are not read before they are set.
\<close>

definition mp_init :: "double \<Rightarrow> double \<Rightarrow> int \<Rightarrow> int \<Rightarrow> mp_collector" where
  "mp_init rate1 rate2 rr1 rr2 =
     \<lparr> mc_primary_connection = None, mc_secondary_connection = None,
       mc_candidates = [], mc_connections = [], mc_primary_wnd = 0, mc_secondary_wnd = 0,
       mc_fps = 0, mc_remote_fps = 30, mc_enabled = 0, mc_second_path = 0,
       mc_numcamerastreams = 1, mc_spath_lock = 0, mc_ppath_lock = 0, mc_best_pathid = 0,
       mc_half_pathid = 0, mc_full_pathid = 0, mc_ratio = Fin 0, mc_loss_pathid = 0,
       mc_scheduler = ''rr'', mc_rtt1 = 0, mc_rtt2 = 0, mc_remote_rr1 = 0, mc_remote_rr2 = 0,
       mc_sendingrate1 = rate1, mc_sendingrate2 = rate2, mc_loss1 = Fin 0, mc_loss2 = Fin 0,
       mc_alpha = Fin 1, mc_beta = Fin 0, mc_halfsignaltime = 0, mc_fullsignaltime = 0,
       mc_half_rtt = 0, mc_half_loss = Fin 0, mc_full_rtt = 0, mc_quic = 0, mc_quic_sent = 0,
       mc_remote_assymetry = 0, mc_assymetry = 0, mc_rr1 = rr1, mc_rr2 = rr2,
       mc_payload_type = - 1 \<rparr>"

section \<open>Candidates and connections\<close>

definition MpStoreCandidate ::
  "string \<Rightarrow> int \<Rightarrow> u32 \<Rightarrow> string \<Rightarrow> u16 \<Rightarrow> u16 \<Rightarrow> string \<Rightarrow> mp_collector \<Rightarrow> mp_collector" where
  "MpStoreCandidate ip port priority transport_name network_id network_cost protocol m =
     m\<lparr>mc_candidates := mc_candidates m @
        [\<lparr>sc_addr = ip, sc_port = port, sc_priority = priority,
          sc_transport_name = transport_name, sc_network_id = network_id,
          sc_network_cost = network_cost, sc_protocol = protocol\<rparr>]\<rparr>"

definition MpStoreConnections ::
  "string \<Rightarrow> int \<Rightarrow> string \<Rightarrow> int \<Rightarrow> int \<Rightarrow> mp_collector \<Rightarrow> mp_collector" where
  "MpStoreConnections local_ip local_port remote_ip remote_port received m =
     m\<lparr>mc_connections := mc_connections m @
        [\<lparr>sx_local_addr = local_ip, sx_local_port = local_port, sx_remote_addr = remote_ip,
          sx_remote_port = remote_port, sx_received = received\<rparr>]\<rparr>"

fun find_conn :: "(SandyConnection \<Rightarrow> bool) \<Rightarrow> SandyConnection list \<Rightarrow> SandyConnection option" where
  "find_conn p [] = None"
| "find_conn p (c # cs) = (if p c then Some c else find_conn p cs)"

definition MpGetLocalConnection :: "mp_collector \<Rightarrow> SandyConnection option" where
  "MpGetLocalConnection m = find_conn (\<lambda>c. sx_received c = 0) (mc_connections m)"

definition MpGetReceivedConnection :: "mp_collector \<Rightarrow> SandyConnection option" where
  "MpGetReceivedConnection m = find_conn (\<lambda>c. sx_received c \<noteq> 0) (mc_connections m)"

definition MpCheckConnections :: "string \<Rightarrow> int \<Rightarrow> string \<Rightarrow> int \<Rightarrow> mp_collector \<Rightarrow> bool" where
  "MpCheckConnections local_ip local_port remote_ip remote_port m =
     (if local_port = 0 \<and> remote_port = 0 \<and> local_ip = ''0.0.0.0'' \<and> remote_ip = ''0.0.0.0''
      then True
      else find_conn (\<lambda>c. local_ip = sx_local_addr c \<and> local_port = sx_local_port c \<and>
             remote_ip = sx_remote_addr c \<and> remote_port = sx_remote_port c)
             (mc_connections m) \<noteq> None)"

section \<open>Published path properties\<close>

definition MpSetPriamryConnection :: "nat option \<Rightarrow> mp_collector \<Rightarrow> mp_collector" where
  "MpSetPriamryConnection x m = m\<lparr>mc_primary_connection := x\<rparr>"

definition MpSetSecondaryConnection :: "nat option \<Rightarrow> mp_collector \<Rightarrow> mp_collector" where
  "MpSetSecondaryConnection x m = m\<lparr>mc_secondary_connection := x\<rparr>"

definition MpSetMpWebRTCStatus :: "int \<Rightarrow> mp_collector \<Rightarrow> mp_collector" where
  "MpSetMpWebRTCStatus x m = m\<lparr>mc_enabled := x\<rparr>"

definition MpSetBestPathId :: "int \<Rightarrow> mp_collector \<Rightarrow> mp_collector" where
  "MpSetBestPathId x m = m\<lparr>mc_best_pathid := x\<rparr>"

definition MpSetLossBasedPathId :: "int \<Rightarrow> mp_collector \<Rightarrow> mp_collector" where
  "MpSetLossBasedPathId x m = m\<lparr>mc_loss_pathid := x\<rparr>"

definition MpSetRatio :: "double \<Rightarrow> mp_collector \<Rightarrow> mp_collector" where
  "MpSetRatio x m = m\<lparr>mc_ratio := x\<rparr>"

definition MpSetSecondPath :: "int \<Rightarrow> mp_collector \<Rightarrow> mp_collector" where
  "MpSetSecondPath x m = m\<lparr>mc_second_path := x\<rparr>"

definition MpSetScheduler :: "string \<Rightarrow> mp_collector \<Rightarrow> mp_collector" where
  "MpSetScheduler x m = m\<lparr>mc_scheduler := x\<rparr>"

definition MpSetPayloadType :: "int \<Rightarrow> mp_collector \<Rightarrow> mp_collector" where
  "MpSetPayloadType x m = m\<lparr>mc_payload_type := x\<rparr>"

definition MpSetNumberOfCameraStreams :: "int \<Rightarrow> mp_collector \<Rightarrow> mp_collector" where
  "MpSetNumberOfCameraStreams x m = m\<lparr>mc_numcamerastreams := x\<rparr>"

definition MpSetPrimaryWindow :: "int \<Rightarrow> mp_collector \<Rightarrow> mp_collector" where
  "MpSetPrimaryWindow x m = m\<lparr>mc_primary_wnd := x\<rparr>"

definition MpSetSecondaryWindow :: "int \<Rightarrow> mp_collector \<Rightarrow> mp_collector" where
  "MpSetSecondaryWindow x m = m\<lparr>mc_secondary_wnd := x\<rparr>"

definition MpSetFrameRate :: "u32 \<Rightarrow> mp_collector \<Rightarrow> mp_collector" where
  "MpSetFrameRate x m = m\<lparr>mc_fps := x\<rparr>"

definition MpSetRemoteFrameRate :: "u32 \<Rightarrow> mp_collector \<Rightarrow> mp_collector" where
  "MpSetRemoteFrameRate x m = m\<lparr>mc_remote_fps := x\<rparr>"

definition MpSetRemoteAsymmetryPackets :: "int \<Rightarrow> mp_collector \<Rightarrow> mp_collector" where
  "MpSetRemoteAsymmetryPackets x m = m\<lparr>mc_remote_assymetry := x\<rparr>"

definition MpSetAsymmetryPackets :: "int \<Rightarrow> mp_collector \<Rightarrow> mp_collector" where
  "MpSetAsymmetryPackets x m = m\<lparr>mc_assymetry := x\<rparr>"

definition MpSetAsymmetryRR1 :: "int \<Rightarrow> mp_collector \<Rightarrow> mp_collector" where
  "MpSetAsymmetryRR1 x m = m\<lparr>mc_rr1 := x\<rparr>"

definition MpSetAsymmetryRR2 :: "int \<Rightarrow> mp_collector \<Rightarrow> mp_collector" where
  "MpSetAsymmetryRR2 x m = m\<lparr>mc_rr2 := x\<rparr>"

definition MpSetRemoteAsymmetryRR1 :: "int \<Rightarrow> mp_collector \<Rightarrow> mp_collector" where
  "MpSetRemoteAsymmetryRR1 x m = m\<lparr>mc_remote_rr1 := x\<rparr>"

definition MpSetRemoteAsymmetryRR2 :: "int \<Rightarrow> mp_collector \<Rightarrow> mp_collector" where
  "MpSetRemoteAsymmetryRR2 x m = m\<lparr>mc_remote_rr2 := x\<rparr>"

definition MpSetRTT1 :: "int \<Rightarrow> mp_collector \<Rightarrow> mp_collector" where
  "MpSetRTT1 x m = m\<lparr>mc_rtt1 := x\<rparr>"

definition MpSetSendingRate1 :: "double \<Rightarrow> mp_collector \<Rightarrow> mp_collector" where
  "MpSetSendingRate1 x m = m\<lparr>mc_sendingrate1 := x\<rparr>"

definition MpSetSendingRate2 :: "double \<Rightarrow> mp_collector \<Rightarrow> mp_collector" where
  "MpSetSendingRate2 x m = m\<lparr>mc_sendingrate2 := x\<rparr>"

definition MpSetRTT2 :: "int \<Rightarrow> mp_collector \<Rightarrow> mp_collector" where
  "MpSetRTT2 x m = m\<lparr>mc_rtt2 := x\<rparr>"

definition MpSetLoss1 :: "double \<Rightarrow> mp_collector \<Rightarrow> mp_collector" where
  "MpSetLoss1 x m = m\<lparr>mc_loss1 := x\<rparr>"

definition MpSetLoss2 :: "double \<Rightarrow> mp_collector \<Rightarrow> mp_collector" where
  "MpSetLoss2 x m = m\<lparr>mc_loss2 := x\<rparr>"

definition MpSetQUICSignalSent :: "int \<Rightarrow> mp_collector \<Rightarrow> mp_collector" where
  "MpSetQUICSignalSent x m = m\<lparr>mc_quic_sent := x\<rparr>"

definition MpSetHalfSignaledRtt :: "int \<Rightarrow> mp_collector \<Rightarrow> mp_collector" where
  "MpSetHalfSignaledRtt x m = m\<lparr>mc_half_rtt := x\<rparr>"

definition MpSetFullSignaledRtt :: "int \<Rightarrow> mp_collector \<Rightarrow> mp_collector" where
  "MpSetFullSignaledRtt x m = m\<lparr>mc_full_rtt := x\<rparr>"

definition MpSetHalfSignaledPathId :: "int \<Rightarrow> mp_collector \<Rightarrow> mp_collector" where
  "MpSetHalfSignaledPathId x m = m\<lparr>mc_half_pathid := x\<rparr>"

definition MpSetFullSignaledPathId :: "int \<Rightarrow> mp_collector \<Rightarrow> mp_collector" where
  "MpSetFullSignaledPathId x m = m\<lparr>mc_full_pathid := x\<rparr>"

definition MpSetQUIC :: "mp_collector \<Rightarrow> mp_collector" where
  "MpSetQUIC m = m\<lparr>mc_quic := 1\<rparr>"

definition MpClearQUIC :: "mp_collector \<Rightarrow> mp_collector" where
  "MpClearQUIC m = m\<lparr>mc_quic := 0\<rparr>"

definition MpClearQUICSignalSent :: "mp_collector \<Rightarrow> mp_collector" where
  "MpClearQUICSignalSent m = m\<lparr>mc_quic_sent := 0\<rparr>"

definition MpSetWindowLock :: "int \<Rightarrow> mp_collector \<Rightarrow> mp_collector" where
  "MpSetWindowLock pathid m =
     (if pathid = 1 then m\<lparr>mc_ppath_lock := 1\<rparr> else m\<lparr>mc_spath_lock := 1\<rparr>)"

definition MpClearWindowLock :: "int \<Rightarrow> mp_collector \<Rightarrow> mp_collector" where
  "MpClearWindowLock pathid m =
     (if pathid = 1 then m\<lparr>mc_ppath_lock := 0\<rparr> else m\<lparr>mc_spath_lock := 0\<rparr>)"

lemmas mp_setter_defs =
  MpSetPriamryConnection_def MpSetSecondaryConnection_def MpSetMpWebRTCStatus_def
  MpSetBestPathId_def MpSetLossBasedPathId_def MpSetRatio_def
  MpSetSecondPath_def MpSetScheduler_def MpSetPayloadType_def
  MpSetNumberOfCameraStreams_def MpSetPrimaryWindow_def MpSetSecondaryWindow_def
  MpSetFrameRate_def MpSetRemoteFrameRate_def MpSetRemoteAsymmetryPackets_def
  MpSetAsymmetryPackets_def MpSetAsymmetryRR1_def MpSetAsymmetryRR2_def
  MpSetRemoteAsymmetryRR1_def MpSetRemoteAsymmetryRR2_def MpSetRTT1_def
  MpSetSendingRate1_def MpSetSendingRate2_def MpSetRTT2_def
  MpSetLoss1_def MpSetLoss2_def MpSetQUICSignalSent_def
  MpSetHalfSignaledRtt_def MpSetFullSignaledRtt_def MpSetHalfSignaledPathId_def
  MpSetFullSignaledPathId_def MpSetQUIC_def MpClearQUIC_def
  MpClearQUICSignalSent_def MpSetWindowLock_def MpClearWindowLock_def

definition MpISsecondPathOpen :: "mp_collector \<Rightarrow> bool" where
  "MpISsecondPathOpen m = (mc_second_path m \<noteq> 0)"

section \<open>The congestion signals\<close>

text \<open>A \<open>double\<close> as a condition: false exactly for zero.\<close>

definition d_true :: "double \<Rightarrow> bool" where
  "d_true d = (\<not> d_eq d (Fin 0))"

definition MpGetFullSignal :: "mp_collector \<Rightarrow> double" where
  "MpGetFullSignal m = mc_beta m"

definition MpGetHalfSignal :: "mp_collector \<Rightarrow> double" where
  "MpGetHalfSignal m = mc_alpha m"

definition MpClearHalfSignal :: "mp_collector \<Rightarrow> mp_collector" where
  "MpClearHalfSignal m = m\<lparr>mc_alpha := Fin 1, mc_half_rtt := 0, mc_half_loss := Fin 0\<rparr>"

definition MpClearFullSignal :: "mp_collector \<Rightarrow> mp_collector" where
  "MpClearFullSignal m = m\<lparr>mc_beta := Fin 0, mc_full_rtt := 0\<rparr>"

text \<open>
  The block the source repeats in \<open>MpSetHalfSignal\<close>: remember the RTT and, unless it is
  zero, the loss of the signalled path.
\<close>

definition half_signal_on :: "int \<Rightarrow> mp_collector \<Rightarrow> mp_collector" where
  "half_signal_on path m =
     (let rtt = (if path = 2 then mc_rtt2 m else mc_rtt1 m);
          loss = (if path = 2 then mc_loss2 m else mc_loss1 m);
          m = (if d_true loss then m\<lparr>mc_half_loss := loss\<rparr> else m)
      in m\<lparr>mc_half_rtt := rtt, mc_half_pathid := path\<rparr>)"

definition halve_alpha :: "mp_collector \<Rightarrow> mp_collector" where
  "halve_alpha m = m\<lparr>mc_alpha := d_div (mc_alpha m) (Fin 2)\<rparr>"

text \<open>
  In the source the two assignments \<open>alpha_=1/2\<close> divide two integers: the value stored is 0.
\<close>

definition one_half :: double where
  "one_half = d_of_int (1 sdiv 2)"

definition MpSetHalfSignal :: "int \<Rightarrow> mp_collector \<Rightarrow> mp_collector" where
  "MpSetHalfSignal now m =
     (if mc_rtt2 m \<le> 50 \<and> mc_rtt1 m \<le> 50 then m
      else if d_true (MpGetFullSignal m) then m
      else if mc_halfsignaltime m = 0
      then halve_alpha (half_signal_on (if mc_best_pathid m = 1 then 2 else 1)
             (m\<lparr>mc_halfsignaltime := now\<rparr>))
      else if now \<noteq> mc_halfsignaltime m
      then
        (if d_lt (mc_alpha m) (Fin 1)
         then if mc_half_pathid m = 1
              then if mc_best_pathid m = 1
                   then (half_signal_on 2 (MpClearHalfSignal m))\<lparr>mc_alpha := one_half\<rparr>
                   else halve_alpha m
              else if mc_half_pathid m = 2
              then if mc_best_pathid m = 2
                   then (half_signal_on 1 (MpClearHalfSignal m))\<lparr>mc_alpha := one_half\<rparr>
                   else halve_alpha m
              else m
         else halve_alpha (half_signal_on (if mc_best_pathid m = 1 then 2 else 1) m))
          \<lparr>mc_halfsignaltime := now\<rparr>
      else m)"

definition full_signal_on :: "int \<Rightarrow> mp_collector \<Rightarrow> mp_collector" where
  "full_signal_on path m =
     m\<lparr>mc_full_rtt := (if path = 1 then mc_rtt1 m else mc_rtt2 m), mc_full_pathid := path\<rparr>"

text \<open>
  The path a full signal stops: the one that is not the best, unless the delay of the best
  path is more than 500 times that of the other.
\<close>

definition full_signal_path :: "mp_collector \<Rightarrow> int" where
  "full_signal_path m =
     (if mc_best_pathid m = 1
      then if mc_rtt1 m sdiv 2 > (mc_rtt2 m sdiv 2) * 500 then 1 else 2
      else if mc_rtt2 m sdiv 2 > 500 * (mc_rtt1 m sdiv 2) then 2 else 1)"

definition MpSetFullSignal :: "int \<Rightarrow> mp_collector \<Rightarrow> mp_collector" where
  "MpSetFullSignal now m =
     (if mc_rtt2 m \<le> 10 \<or> mc_rtt1 m \<le> 10 then m
      else if d_true (MpGetFullSignal m) then m
      else
        let m = MpClearHalfSignal m;
            m = (if mc_fullsignaltime m = 0
                 then full_signal_on (full_signal_path m) (m\<lparr>mc_fullsignaltime := now, mc_beta := Fin 1\<rparr>)
                 else if now - mc_fullsignaltime m > 100
                 then full_signal_on (full_signal_path m) (m\<lparr>mc_beta := Fin 1\<rparr>)
                 else m)
        in m\<lparr>mc_fullsignaltime := now\<rparr>)"

section \<open>Connections: lookup after insertion\<close>

lemma find_conn_iff: "find_conn p cs \<noteq> None \<longleftrightarrow> (\<exists>c \<in> set cs. p c)"
  by (induction cs) auto

lemma find_conn_eq: "find_conn p cs = List.find p cs"
  by (induction cs) auto

lemma find_conn_append:
  "find_conn p (cs @ ds) = (case find_conn p cs of None \<Rightarrow> find_conn p ds | Some c \<Rightarrow> Some c)"
  by (induction cs) auto

section \<open>Arithmetic of the signals\<close>

lemma one_half_eq: "one_half = Fin 0"
  by (simp add: one_half_def d_of_int_def dround_def signed_divide_int_def)

lemma rnd_pow2: "k \<le> 1074 \<Longrightarrow> rnd (2 powi (- int k)) = 2 powi (- int k)"
  by (rule rnd_fixed [of _ 1 "- int k"]) simp_all

lemma pow2_half: "(2 powi (- int k) :: rat) / 2 = 2 powi (- int (Suc k))"
proof -
  have "(2 powi (- int k - 1) :: rat) = 2 powi (- int k) / 2 powi 1"
    by (rule power_int_diff) simp
  moreover have "- int (Suc k) = - int k - 1" by simp
  ultimately show ?thesis by (simp only: power_int_1_right)
qed

lemma halve_pow2:
  assumes "k < 1074"
  shows "d_div (Fin (2 powi (- int k))) (Fin 2) = Fin (2 powi (- int (Suc k)))"
proof -
  have "(2 powi (- int (Suc k)) :: rat) \<le> 2 powi 0"
    by (rule power_int_increasing) simp_all
  then have "\<bar>2 powi (- int (Suc k)) :: rat\<bar> \<le> 2 ^ 52" by simp
  from dround_small [OF this] rnd_pow2 [of "Suc k"] assms
  show ?thesis by (simp add: pow2_half)
qed

lemma halve_unit:
  assumes "0 \<le> a" "a \<le> 1"
  shows "\<exists>b. d_div (Fin a) (Fin 2) = Fin b \<and> 0 \<le> b \<and> b \<le> 1"
proof -
  have "\<bar>a / 2\<bar> \<le> 2 ^ 52" using assms by simp
  from dround_small [OF this] have "d_div (Fin a) (Fin 2) = Fin (rnd (a / 2))" by simp
  moreover have "0 \<le> rnd (a / 2) \<and> rnd (a / 2) \<le> 1"
    using b64.rnd_between [of 0 1 "a / 2"] assms by simp
  ultimately show ?thesis by blast
qed

section \<open>The invariant of the signals\<close>

fun unit_double :: "double \<Rightarrow> bool" where
  "unit_double (Fin a) = (0 \<le> a \<and> a \<le> 1)"
| "unit_double _ = False"

lemma unit_double_halve: "unit_double a \<Longrightarrow> unit_double (d_div a (Fin 2))"
  using halve_unit by (cases a) (auto simp del: d_div.simps, metis unit_double.simps(1))

text \<open>
  The traffic share of the worse path is between 0 and 1, the full signal is on or off, an
  active signal names a path, and the two signals are never active together.
\<close>

definition mp_inv :: "mp_collector \<Rightarrow> bool" where
  "mp_inv m \<longleftrightarrow>
     unit_double (mc_alpha m) \<and> (mc_beta m = Fin 0 \<or> mc_beta m = Fin 1) \<and>
     (mc_alpha m \<noteq> Fin 1 \<longrightarrow> mc_half_pathid m \<in> {1, 2} \<and> mc_beta m = Fin 0) \<and>
     (mc_beta m = Fin 1 \<longrightarrow> mc_full_pathid m \<in> {1, 2} \<and> 10 < mc_full_rtt m)"

lemma mp_init_inv: "mp_inv (mp_init r1 r2 a b)"
  by (simp add: mp_inv_def mp_init_def)

lemma half_signal_on_frame [simp]:
  "mc_alpha (half_signal_on p m) = mc_alpha m" "mc_beta (half_signal_on p m) = mc_beta m"
  "mc_half_pathid (half_signal_on p m) = p" "mc_best_pathid (half_signal_on p m) = mc_best_pathid m"
  "mc_rtt1 (half_signal_on p m) = mc_rtt1 m" "mc_rtt2 (half_signal_on p m) = mc_rtt2 m"
  "mc_halfsignaltime (half_signal_on p m) = mc_halfsignaltime m"
  "mc_full_pathid (half_signal_on p m) = mc_full_pathid m"
  "mc_full_rtt (half_signal_on p m) = mc_full_rtt m"
  by (simp_all add: half_signal_on_def Let_def)

lemma MpSetHalfSignal_inv: "mp_inv m \<Longrightarrow> mp_inv (MpSetHalfSignal now m)"
  by (auto simp: mp_inv_def MpSetHalfSignal_def halve_alpha_def MpClearHalfSignal_def
      MpGetFullSignal_def one_half_eq d_true_def d_eq_def intro: unit_double_halve
      simp del: d_div.simps)

lemma full_signal_path_cases: "full_signal_path m = 1 \<or> full_signal_path m = 2"
  by (simp add: full_signal_path_def)

lemma MpSetFullSignal_inv: "mp_inv m \<Longrightarrow> mp_inv (MpSetFullSignal now m)"
  using full_signal_path_cases [of "MpClearHalfSignal m"]
  by (auto simp: mp_inv_def MpSetFullSignal_def MpClearHalfSignal_def full_signal_on_def
      MpGetFullSignal_def d_true_def d_eq_def Let_def)

lemma MpClearHalfSignal_inv: "mp_inv m \<Longrightarrow> mp_inv (MpClearHalfSignal m)"
  by (auto simp: mp_inv_def MpClearHalfSignal_def)

lemma MpClearFullSignal_inv: "mp_inv m \<Longrightarrow> mp_inv (MpClearFullSignal m)"
  by (auto simp: mp_inv_def MpClearFullSignal_def)

section \<open>Steps and reachable states\<close>

text \<open>
  The operations the other components perform on the shared object, in any order: the two
  signals (\<open>RTCPReceiver::HandleApp\<close>), clearing them (\<open>MpFindBestPath\<close>,
  \<open>P2PTransportChannel::SendPacket\<close>), and publishing properties that the signals do not write.
\<close>

definition mp_frame :: "mp_collector \<Rightarrow> mp_collector \<Rightarrow> bool" where
  "mp_frame m m' \<longleftrightarrow>
     mc_alpha m' = mc_alpha m \<and> mc_beta m' = mc_beta m \<and>
     mc_half_pathid m' = mc_half_pathid m \<and> mc_full_pathid m' = mc_full_pathid m \<and>
     mc_half_rtt m' = mc_half_rtt m \<and> mc_full_rtt m' = mc_full_rtt m \<and>
     mc_half_loss m' = mc_half_loss m \<and> mc_halfsignaltime m' = mc_halfsignaltime m \<and>
     mc_fullsignaltime m' = mc_fullsignaltime m"

lemma mp_frame_inv: "mp_frame m m' \<Longrightarrow> mp_inv m \<Longrightarrow> mp_inv m'"
  by (auto simp: mp_frame_def mp_inv_def)

lemma mp_frame_setters:
  "mp_frame m (MpStoreConnections a p b q r m)" "mp_frame m (MpSetBestPathId x m)"
  "mp_frame m (MpSetRatio d m)" "mp_frame m (MpSetSecondPath x m)"
  "mp_frame m (MpSetRTT1 x m)" "mp_frame m (MpSetRTT2 x m)"
  "mp_frame m (MpSetLoss1 d m)" "mp_frame m (MpSetLoss2 d m)"
  "mp_frame m (MpSetSendingRate1 d m)" "mp_frame m (MpSetSendingRate2 d m)"
  "mp_frame m (MpSetPrimaryWindow x m)" "mp_frame m (MpSetSecondaryWindow x m)"
  "mp_frame m (MpSetScheduler sch m)" "mp_frame m (MpSetRemoteAsymmetryPackets x m)"
  "mp_frame m (MpSetPayloadType x m)" "mp_frame m (MpSetLossBasedPathId x m)"
  "mp_frame m (MpSetRemoteFrameRate w m)" "mp_frame m (MpSetQUIC m)" "mp_frame m (MpClearQUIC m)"
  by (simp_all add: mp_frame_def mp_setter_defs MpStoreConnections_def)

inductive mp_step :: "mp_collector \<Rightarrow> mp_collector \<Rightarrow> bool" where
  half: "mp_step m (MpSetHalfSignal now m)"
| full: "mp_step m (MpSetFullSignal now m)"
| clear_half: "mp_step m (MpClearHalfSignal m)"
| clear_full: "mp_step m (MpClearFullSignal m)"
| publish: "mp_frame m m' \<Longrightarrow> mp_step m m'"

inductive mp_reachable :: "mp_collector \<Rightarrow> bool" where
  start: "mp_reachable (mp_init r1 r2 a b)"
| step: "mp_reachable m \<Longrightarrow> mp_step m m' \<Longrightarrow> mp_reachable m'"

inductive_cases mp_stepE: "mp_step m m'"

lemma mp_step_inv: "mp_step m m' \<Longrightarrow> mp_inv m \<Longrightarrow> mp_inv m'"
  by (erule mp_stepE) (simp_all add: MpSetHalfSignal_inv MpSetFullSignal_inv
      MpClearHalfSignal_inv MpClearFullSignal_inv mp_frame_inv)

text \<open>
  C25: in every state the other components can bring the shared object to, the traffic share
  \<open>alpha_\<close> is a number between 0 and 1, the full signal is 0 or 1, an active signal names path
  1 or 2, and the half and the full signal are never active together.
\<close>

theorem mp_reachable_inv: "mp_reachable m \<Longrightarrow> mp_inv m"
  by (induction rule: mp_reachable.induct) (auto simp: mp_init_inv intro: mp_step_inv)

theorem mp_reachable_inv_witness:
  "mp_inv (MpSetFullSignal 5 (MpSetRTT2 90 (MpSetRTT1 60 (mp_init (Fin 0) (Fin 0) 0 0)))) \<and>
   mc_beta (MpSetFullSignal 5 (MpSetRTT2 90 (MpSetRTT1 60 (mp_init (Fin 0) (Fin 0) 0 0)))) = Fin 1"
proof
  let ?m = "mp_init (Fin 0) (Fin 0) 0 0"
  have "mp_reachable (MpSetRTT1 60 ?m)"
    by (rule mp_reachable.step [OF mp_reachable.start mp_step.publish]) (rule mp_frame_setters)
  then have "mp_reachable (MpSetRTT2 90 (MpSetRTT1 60 ?m))"
    by (rule mp_reachable.step [OF _ mp_step.publish]) (rule mp_frame_setters)
  then show "mp_inv (MpSetFullSignal 5 (MpSetRTT2 90 (MpSetRTT1 60 ?m)))"
    by (intro mp_reachable_inv mp_reachable.step [OF _ mp_step.full])
qed (simp add: MpSetFullSignal_def mp_setter_defs mp_init_def MpGetFullSignal_def d_true_def
    d_eq_def MpClearHalfSignal_def full_signal_on_def Let_def)

section \<open>What the signals do\<close>

text \<open>A sequence of half signals at the given times.\<close>

definition run_half :: "int list \<Rightarrow> mp_collector \<Rightarrow> mp_collector" where
  "run_half ts m = fold MpSetHalfSignal ts m"

definition run_full :: "int list \<Rightarrow> mp_collector \<Rightarrow> mp_collector" where
  "run_full ts m = fold MpSetFullSignal ts m"

fun no_repeat :: "int \<Rightarrow> int list \<Rightarrow> bool" where
  "no_repeat t [] = True"
| "no_repeat t (u # us) = (u \<noteq> t \<and> u \<noteq> 0 \<and> no_repeat u us)"

text \<open>
  The half signal is listened to: an RTT is above 50 ms, no full signal is active, and the
  path last signalled, if a half signal is active, is still the worse one.
\<close>

definition half_ready :: "mp_collector \<Rightarrow> bool" where
  "half_ready m \<longleftrightarrow> \<not> (mc_rtt2 m \<le> 50 \<and> mc_rtt1 m \<le> 50) \<and> mc_beta m = Fin 0 \<and>
     (mc_alpha m \<noteq> Fin 1 \<longrightarrow>
        mc_half_pathid m = (if mc_best_pathid m = 1 then 2 else 1) \<and> mc_halfsignaltime m \<noteq> 0)"

lemma half_step:
  assumes "half_ready m" "mc_alpha m = Fin (2 powi (- int k))" "k < 1074"
    "now \<noteq> 0" "now \<noteq> mc_halfsignaltime m"
  shows "half_ready (MpSetHalfSignal now m)"
    and "mc_alpha (MpSetHalfSignal now m) = Fin (2 powi (- int (Suc k)))"
    and "mc_halfsignaltime (MpSetHalfSignal now m) = now"
    and "mc_best_pathid (MpSetHalfSignal now m) = mc_best_pathid m"
    and "mc_half_pathid (MpSetHalfSignal now m) = (if mc_best_pathid m = 1 then 2 else 1)"
proof -
  have one: "mc_alpha m = Fin 1 \<longleftrightarrow> k = 0"
    using assms(2) powi_less_iff [of "- int k" 0] by (cases k) auto
  have lt: "d_lt (mc_alpha m) (Fin 1) \<longleftrightarrow> k \<noteq> 0"
    using assms(2) powi_less_iff [of "- int k" 0] by (cases k) auto
  have d: "d_div (mc_alpha m) (Fin 2) = Fin (2 powi (- int (Suc k)))"
    unfolding assms(2) by (rule halve_pow2 [OF assms(3)])
  show "half_ready (MpSetHalfSignal now m)"
    and "mc_alpha (MpSetHalfSignal now m) = Fin (2 powi (- int (Suc k)))"
    and "mc_halfsignaltime (MpSetHalfSignal now m) = now"
    and "mc_best_pathid (MpSetHalfSignal now m) = mc_best_pathid m"
    and "mc_half_pathid (MpSetHalfSignal now m) = (if mc_best_pathid m = 1 then 2 else 1)"
    using assms(1,4,5) one lt d
    by (auto simp: half_ready_def MpSetHalfSignal_def halve_alpha_def MpGetFullSignal_def
        d_true_def d_eq_def simp del: d_div.simps)
qed

lemma run_half_pow2:
  assumes "half_ready m" "mc_alpha m = Fin (2 powi (- int k))"
    "no_repeat (mc_halfsignaltime m) ts" "k + length ts \<le> 1074"
  shows "mc_alpha (run_half ts m) = Fin (2 powi (- int (k + length ts))) \<and>
    (ts \<noteq> [] \<longrightarrow> mc_half_pathid (run_half ts m) = (if mc_best_pathid m = 1 then 2 else 1))"
  using assms
proof (induction ts arbitrary: m k)
  case Nil
  then show ?case by (simp add: run_half_def)
next
  case (Cons t ts)
  let ?m = "MpSetHalfSignal t m"
  note hs = half_step [OF Cons.prems(1,2), of t]
  have hyps: "k < 1074" "t \<noteq> 0" "t \<noteq> mc_halfsignaltime m" using Cons.prems by auto
  have "mc_alpha (run_half ts ?m) = Fin (2 powi (- int (Suc k + length ts))) \<and>
    (ts \<noteq> [] \<longrightarrow> mc_half_pathid (run_half ts ?m) = (if mc_best_pathid ?m = 1 then 2 else 1))"
    by (rule Cons.IH) (use Cons.prems hyps hs in simp_all)
  moreover have "run_half (t # ts) m = run_half ts ?m" by (simp add: run_half_def)
  ultimately show ?case using hs(4,5) [OF hyps] by (cases "ts = []") (auto simp: run_half_def)
qed

text \<open>
  From a state with no half signal active, \<open>n\<close> half signals at changing times (none of
  which is the time 0, the code's mark for "never") leave the worse path the share
  \<open>2 ^ (- n)\<close> of its traffic, exactly, and the signalled path is the one that is not the best
  path.
\<close>

lemma half_signal_geometric:
  assumes "half_ready m" "mc_alpha m = Fin 1" "no_repeat (mc_halfsignaltime m) ts"
    "length ts \<le> 1074"
  shows "mc_alpha (run_half ts m) = Fin (2 powi (- int (length ts))) \<and>
    (ts \<noteq> [] \<longrightarrow> mc_half_pathid (run_half ts m) = (if mc_best_pathid m = 1 then 2 else 1))"
  using run_half_pow2 [of m 0 ts] assms by simp

lemma half_signal_geometric_witness:
  "mc_alpha (run_half [7, 9, 12] (MpSetRTT2 90 (MpSetBestPathId 1 (mp_init (Fin 0) (Fin 0) 0 0)))) =
     Fin (2 powi (- int (length [7, 9, 12 :: int])))"
  using half_signal_geometric
      [of "MpSetRTT2 90 (MpSetBestPathId 1 (mp_init (Fin 0) (Fin 0) 0 0))" "[7, 9, 12]"]
  by (simp add: half_ready_def mp_setter_defs mp_init_def)

text \<open>
  A half signal that finds the signalled path has become the best one moves the signal to the
  other path, and stores \<open>alpha_=1/2\<close>: an integer division.
\<close>

lemma half_zero_stays: "mc_alpha m = Fin 0 \<Longrightarrow> mc_alpha (MpSetHalfSignal now m) = Fin 0"
  using dround_small [of 0]
  by (simp add: MpSetHalfSignal_def halve_alpha_def MpClearHalfSignal_def one_half_eq)

lemma run_half_zero: "mc_alpha m = Fin 0 \<Longrightarrow> mc_alpha (run_half ts m) = Fin 0"
  by (induction ts arbitrary: m) (simp_all add: run_half_def half_zero_stays)



text \<open>
  A full signal that arrives first, or more than 100 ms after the previous one, while
  both RTTs are above 10 ms and none is active, becomes active: it clears the half signal,
  remembers the RTT of the path it stops, and stops the path that is not the best one unless
  the delay of the best one is more than 500 times larger.
\<close>

lemma full_signal_activates:
  assumes "10 < mc_rtt1 m" "10 < mc_rtt2 m" "mc_beta m = Fin 0"
    "mc_fullsignaltime m = 0 \<or> now - mc_fullsignaltime m > 100"
  shows "MpGetFullSignal (MpSetFullSignal now m) = Fin 1 \<and>
    MpGetHalfSignal (MpSetFullSignal now m) = Fin 1 \<and>
    mc_full_pathid (MpSetFullSignal now m) = full_signal_path m \<and>
    mc_full_rtt (MpSetFullSignal now m) = (if full_signal_path m = 1 then mc_rtt1 m else mc_rtt2 m) \<and>
    mc_fullsignaltime (MpSetFullSignal now m) = now"
  using assms
  by (auto simp: MpSetFullSignal_def MpGetFullSignal_def MpGetHalfSignal_def MpClearHalfSignal_def
      full_signal_on_def full_signal_path_def d_true_def d_eq_def Let_def)

lemma full_signal_activates_witness:
  "let m = (mp_init (Fin 0) (Fin 0) 0 0)\<lparr>mc_rtt1 := 90, mc_rtt2 := 40, mc_best_pathid := 2\<rparr>
   in MpGetFullSignal (MpSetFullSignal 9 m) = Fin 1 \<and> mc_full_pathid (MpSetFullSignal 9 m) = 1"
  using full_signal_activates
      [of "(mp_init (Fin 0) (Fin 0) 0 0)\<lparr>mc_rtt1 := 90, mc_rtt2 := 40, mc_best_pathid := 2\<rparr>" 9]
  by (simp add: mp_init_def full_signal_path_def)

text \<open>Times of which each is at most 100 ms after the one before.\<close>

fun close_times :: "int \<Rightarrow> int list \<Rightarrow> bool" where
  "close_times t [] = True"
| "close_times t (u # us) = (u - t \<le> 100 \<and> u \<noteq> 0 \<and> close_times u us)"

lemma full_close_step:
  assumes "10 < mc_rtt1 m" "10 < mc_rtt2 m" "mc_beta m = Fin 0" "mc_fullsignaltime m \<noteq> 0"
    "now - mc_fullsignaltime m \<le> 100"
  shows "MpSetFullSignal now m = (MpClearHalfSignal m)\<lparr>mc_fullsignaltime := now\<rparr>"
  using assms
  by (auto simp: MpSetFullSignal_def MpGetFullSignal_def MpClearHalfSignal_def d_true_def d_eq_def
      Let_def)

text \<open>
  After a full signal has been cleared, full signals that follow each other within 100 ms
  never take effect again, because each one restarts the waiting time; all they do is to
  cancel the half signal.
\<close>

lemma full_signal_starves:
  assumes "10 < mc_rtt1 m" "10 < mc_rtt2 m" "mc_beta m = Fin 0" "mc_fullsignaltime m \<noteq> 0"
    "close_times (mc_fullsignaltime m) ts"
  shows "MpGetFullSignal (run_full ts m) = Fin 0 \<and>
    (ts \<noteq> [] \<longrightarrow> MpGetHalfSignal (run_full ts m) = Fin 1)"
  using assms
proof (induction ts arbitrary: m)
  case Nil
  then show ?case by (simp add: run_full_def MpGetFullSignal_def)
next
  case (Cons t ts)
  let ?m = "(MpClearHalfSignal m)\<lparr>mc_fullsignaltime := t\<rparr>"
  have "MpSetFullSignal t m = ?m"
    by (rule full_close_step) (use Cons.prems in auto)
  then have run: "run_full (t # ts) m = run_full ts ?m" by (simp add: run_full_def)
  have "MpGetFullSignal (run_full ts ?m) = Fin 0 \<and>
      (ts \<noteq> [] \<longrightarrow> MpGetHalfSignal (run_full ts ?m) = Fin 1)"
    by (rule Cons.IH) (use Cons.prems in \<open>auto simp: MpClearHalfSignal_def\<close>)
  moreover have "MpGetHalfSignal ?m = Fin 1"
    by (simp add: MpGetHalfSignal_def MpClearHalfSignal_def)
  ultimately show ?case unfolding run by (cases "ts = []") (auto simp: run_full_def)
qed

lemma full_signal_starves_witness:
  "let m = (mp_init (Fin 0) (Fin 0) 0 0)
        \<lparr>mc_rtt1 := 90, mc_rtt2 := 40, mc_alpha := Fin (1 / 4), mc_fullsignaltime := 1000\<rparr>
   in MpGetFullSignal (run_full [1050, 1140, 1240] m) = Fin 0 \<and>
      MpGetHalfSignal (run_full [1050, 1140, 1240] m) = Fin 1"
  using full_signal_starves
      [of "(mp_init (Fin 0) (Fin 0) 0 0)
        \<lparr>mc_rtt1 := 90, mc_rtt2 := 40, mc_alpha := Fin (1 / 4), mc_fullsignaltime := 1000\<rparr>"
        "[1050, 1140, 1240]"]
  by (simp add: mp_init_def)

text \<open>
  A connection is accepted exactly when it is the wildcard or was stored before, so storing
  one makes it acceptable and changes the answer for no other connection.
\<close>

lemma MpCheckConnections_store:
  "MpCheckConnections l lp r rp (MpStoreConnections l' lp' r' rp' received m) \<longleftrightarrow>
     (l, lp, r, rp) = (l', lp', r', rp') \<or> MpCheckConnections l lp r rp m"
  by (auto simp: MpCheckConnections_def MpStoreConnections_def find_conn_append
      split: option.splits)

end
