(* ===== verification/RtpPacket.thy ===== *)
theory RtpPacket
  imports Prelude
begin

text \<open>
  The outgoing RTP packet, \<open>RtpPacketToSend\<close> (\<open>modules/rtp_rtcp/source/rtp_packet_to_send.h\<close>) with
  the members of its base class \<open>RtpPacket\<close> the sender uses: the header fields, the sizes, the
  multipath flow fields \<open>subflow_id\<close> and \<open>subflow_seq\<close>, and the two header extensions that carry
  these to the receiver. An extension that is not reserved in the packet is \<open>None\<close>: after the
  payload is written \<open>SetExtension\<close> only overwrites extensions the packet already has.
\<close>

datatype RtpPacketMediaType =
  kAudio | kVideo | kRetransmission | kForwardErrorCorrection | kPadding | kDupPacket

record RtpPacketToSend =
  rp_payload_type :: u8
  rp_sequence_number :: u16
  rp_timestamp :: u32
  rp_ssrc :: u32
  rp_marker :: bool
  rp_headers_size :: nat
  rp_payload :: bytes
  rp_padding_size :: nat
  rp_subflow_seq :: u16
  rp_subflow_id :: u8
  rp_sandy :: "u8 option"
  rp_MpFlowSeqNum :: "u16 option"
  rp_capture_time_ms :: int
  rp_packet_type :: "RtpPacketMediaType option"
  rp_allow_retransmission :: bool
  rp_retransmitted_sequence_number :: "u16 option"
  rp_is_first_packet_of_frame :: bool
  rp_is_key_frame :: bool

type_synonym packets = "RtpPacketToSend list"

text \<open>A packet just constructed (\<open>RtpPacket::Clear\<close>).\<close>

definition blank_packet :: RtpPacketToSend where
  "blank_packet =
     \<lparr> rp_payload_type = 0, rp_sequence_number = 0, rp_timestamp = 0, rp_ssrc = 0, rp_marker = False,
       rp_headers_size = 12, rp_payload = [], rp_padding_size = 0, rp_subflow_seq = 0,
       rp_subflow_id = 0, rp_sandy = None, rp_MpFlowSeqNum = None, rp_capture_time_ms = 0,
       rp_packet_type = None, rp_allow_retransmission = False,
       rp_retransmitted_sequence_number = None, rp_is_first_packet_of_frame = False,
       rp_is_key_frame = False \<rparr>"

definition packet_bytes :: "RtpPacketToSend \<Rightarrow> nat" where
  "packet_bytes p = rp_headers_size p + length (rp_payload p) + rp_padding_size p"

definition SetPayloadType :: "u8 \<Rightarrow> RtpPacketToSend \<Rightarrow> RtpPacketToSend" where
  "SetPayloadType pt p = p\<lparr>rp_payload_type := pt\<rparr>"

definition set_packet_type :: "RtpPacketMediaType \<Rightarrow> RtpPacketToSend \<Rightarrow> RtpPacketToSend" where
  "set_packet_type t p = p\<lparr>rp_packet_type := Some t\<rparr>"

definition set_capture_time_ms :: "int \<Rightarrow> RtpPacketToSend \<Rightarrow> RtpPacketToSend" where
  "set_capture_time_ms t p = p\<lparr>rp_capture_time_ms := t\<rparr>"

definition SetExtension_sandy :: "u8 \<Rightarrow> RtpPacketToSend \<Rightarrow> RtpPacketToSend" where
  "SetExtension_sandy v p = p\<lparr>rp_sandy := map_option (\<lambda>_. v) (rp_sandy p)\<rparr>"

definition SetExtension_MpFlowSeqNum :: "u16 \<Rightarrow> RtpPacketToSend \<Rightarrow> RtpPacketToSend" where
  "SetExtension_MpFlowSeqNum v p = p\<lparr>rp_MpFlowSeqNum := map_option (\<lambda>_. v) (rp_MpFlowSeqNum p)\<rparr>"

text \<open>The four assignments that put a packet on a path with a path sequence number.\<close>

definition set_flow :: "u8 \<Rightarrow> u16 \<Rightarrow> RtpPacketToSend \<Rightarrow> RtpPacketToSend" where
  "set_flow path seq p =
     SetExtension_sandy path (SetExtension_MpFlowSeqNum seq
       (p\<lparr>rp_subflow_id := path, rp_subflow_seq := seq\<rparr>))"

text \<open>What a packet carries apart from its path: the flow fields erased.\<close>

definition media_of :: "RtpPacketToSend \<Rightarrow> RtpPacketToSend" where
  "media_of p = p\<lparr>rp_subflow_seq := 0, rp_subflow_id := 0, rp_sandy := map_option (\<lambda>_. 0) (rp_sandy p),
     rp_MpFlowSeqNum := map_option (\<lambda>_. 0) (rp_MpFlowSeqNum p)\<rparr>"

text \<open>The receiver reads the path and the path sequence number from the extensions.\<close>

definition flow_on_wire :: "RtpPacketToSend \<Rightarrow> bool" where
  "flow_on_wire p \<longleftrightarrow>
     (\<forall>v \<in> set_option (rp_sandy p). v = rp_subflow_id p) \<and>
     (\<forall>v \<in> set_option (rp_MpFlowSeqNum p). v = rp_subflow_seq p)"

lemmas ext_defs = SetExtension_sandy_def SetExtension_MpFlowSeqNum_def

lemma set_flow_simps [simp]:
  "rp_subflow_id (set_flow i q p) = i" "rp_subflow_seq (set_flow i q p) = q"
  "media_of (set_flow i q p) = media_of p" "flow_on_wire (set_flow i q p)"
  "rp_sequence_number (set_flow i q p) = rp_sequence_number p"
  "rp_payload_type (set_flow i q p) = rp_payload_type p"
  "packet_bytes (set_flow i q p) = packet_bytes p"
  by (auto simp: set_flow_def ext_defs media_of_def flow_on_wire_def packet_bytes_def
      option.map_comp comp_def)

lemma media_of_frame [simp]:
  "rp_payload_type (media_of p) = rp_payload_type p"
  "rp_sequence_number (media_of p) = rp_sequence_number p"
  "rp_payload (media_of p) = rp_payload p" "packet_bytes (media_of p) = packet_bytes p"
  by (simp_all add: media_of_def packet_bytes_def)

end
