(* ===== verification/RtpSender.thy ===== *)
theory RtpSender
  imports MpCollector RtpPacket
begin

text \<open>
  The sending side of one RTP stream, \<open>RTPSender\<close>
  (\<open>modules/rtp_rtcp/source/rtp_sender.cc\<close>): the allocation of sequence numbers, the RTP state
  that survives a restart of the stream, and the multipath scheduler
  \<open>MPTrafficSplitImplementation\<close> that puts each packet of a frame on path 1 or 2 and numbers it
  on that path. The time of \<open>clock_\<close> is an argument; the packets handed to \<open>paced_sender_\<close> are
  collected in order in \<open>rs_paced\<close>, one list for each call; the three global variables of the
  source are fields of the state. A conversion of a \<open>double\<close> to \<open>int\<close> that is undefined in C++
  makes the result \<open>None\<close>. Byte counts and windows are unbounded integers, far below \<open>2 ^ 63\<close> in
  the code.
\<close>

section \<open>State\<close>

record rtp_sender =
  rs_sequence_number :: u16
  rs_sequence_number_p :: u16
  rs_sequence_number_s :: u16
  rs_sequence_number_rtx :: u16
  rs_total_packets_sent :: u32
  rs_frame_count :: int
  rs_worst_path_time :: int
  rs_sandy_mp_start_time :: int
  rs_worst_path_bytes :: int
  rs_sending_media :: bool
  rs_sequence_number_forced :: bool
  rs_timestamp_offset :: u32
  rs_last_rtp_timestamp :: u32
  rs_capture_time_ms :: int
  rs_last_timestamp_time_ms :: int
  rs_last_packet_marker_bit :: bool
  rs_last_payload_type :: int
  rs_ssrc_has_acked :: bool
  rs_rtx_ssrc_has_acked :: bool
  rs_mp :: mp_collector
  rs_paced :: "packets list"

text \<open>
  The constructor; the timestamp offset is random. Other senders may have used the globals
  and the shared multipath state before.
\<close>

definition rtp_sender_init :: "u32 \<Rightarrow> int \<Rightarrow> int \<Rightarrow> int \<Rightarrow> mp_collector \<Rightarrow> rtp_sender" where
  "rtp_sender_init offset wpt start wpb mp =
     \<lparr> rs_sequence_number = 10, rs_sequence_number_p = 10, rs_sequence_number_s = 10,
       rs_sequence_number_rtx = 1, rs_total_packets_sent = 0, rs_frame_count = 0,
       rs_worst_path_time = wpt, rs_sandy_mp_start_time = start, rs_worst_path_bytes = wpb,
       rs_sending_media = True, rs_sequence_number_forced = False, rs_timestamp_offset = offset,
       rs_last_rtp_timestamp = 0, rs_capture_time_ms = 0, rs_last_timestamp_time_ms = 0,
       rs_last_packet_marker_bit = False, rs_last_payload_type = - 1,
       rs_ssrc_has_acked = False, rs_rtx_ssrc_has_acked = False, rs_mp = mp, rs_paced = [] \<rparr>"

section \<open>Putting one packet on a path\<close>

definition to_path1 :: "RtpPacketToSend \<Rightarrow> rtp_sender \<Rightarrow> RtpPacketToSend \<times> rtp_sender" where
  "to_path1 p s =
     (set_flow 1 (rs_sequence_number_p s) p, s\<lparr>rs_sequence_number_p := rs_sequence_number_p s + 1\<rparr>)"

definition to_path2 :: "RtpPacketToSend \<Rightarrow> rtp_sender \<Rightarrow> RtpPacketToSend \<times> rtp_sender" where
  "to_path2 p s =
     (set_flow 2 (rs_sequence_number_s s) p, s\<lparr>rs_sequence_number_s := rs_sequence_number_s s + 1\<rparr>)"

definition keyframe_packet :: "RtpPacketToSend \<Rightarrow> rtp_sender \<Rightarrow> RtpPacketToSend \<times> rtp_sender" where
  "keyframe_packet p s =
     (let s = s\<lparr>rs_mp := MpSetPayloadType (uint (rp_payload_type p)) (rs_mp s)\<rparr>
      in if mc_best_pathid (rs_mp s) = 1 then to_path1 p s else to_path2 p s)"

text \<open>A copy of a packet with payload type 50, on path 2 (start of the call).\<close>

definition copy_packet :: "RtpPacketToSend \<Rightarrow> rtp_sender \<Rightarrow> RtpPacketToSend \<times> rtp_sender" where
  "copy_packet p s = to_path2 (SetPayloadType 50 p) s"

text \<open>The telemetry duplicate on the path \<open>dup_path\<close>.\<close>

definition dup_packet :: "int \<Rightarrow> RtpPacketToSend \<Rightarrow> rtp_sender \<Rightarrow> RtpPacketToSend \<times> rtp_sender" where
  "dup_packet dup_path p s =
     (let p = set_packet_type kDupPacket (SetPayloadType 50 p)
      in if dup_path = 1 then to_path1 p s else to_path2 p s)"

text \<open>A loop over the packets that updates the sender's state.\<close>

fun for_packets ::
  "(RtpPacketToSend \<Rightarrow> rtp_sender \<Rightarrow> RtpPacketToSend \<times> rtp_sender) \<Rightarrow> packets \<Rightarrow> rtp_sender \<Rightarrow>
     packets \<times> rtp_sender" where
  "for_packets f [] s = ([], s)"
| "for_packets f (p # ps) s =
     (let (q, s) = f p s; (qs, s) = for_packets f ps s in (q # qs, s))"

section \<open>The shares of the two paths\<close>

text \<open>Conversion of a 64-bit result to \<open>int\<close>.\<close>

definition c_int :: "int \<Rightarrow> int" where
  "c_int x = signed_take_bit 31 x"

text \<open>Best and worst path share from the ratio; the larger goes to the best path.\<close>

definition ratio_shares :: "double \<Rightarrow> nat \<Rightarrow> (int \<times> int) option" where
  "ratio_shares mpratio n =
     (case (if n = 1 then Some 1
            else d_to_int (d_mul (d_div mpratio (d_add (Fin 1) mpratio)) (d_of_int (int n)))) of
        None \<Rightarrow> None
      | Some split \<Rightarrow>
          let p1 = split; p2 = c_int (int n - split)
          in Some (if p1 < p2 then (p2, p1) else (p1, p2)))"

definition half_shares :: "double \<Rightarrow> nat \<Rightarrow> int \<times> int \<Rightarrow> (int \<times> int) option" where
  "half_shares half n ps =
     (if d_lt half (Fin 1)
      then (let alpha = d_mul (Fin 1) half
            in case d_to_int (d_mul (d_of_int (snd ps)) alpha) of
                 None \<Rightarrow> None
               | Some p2 \<Rightarrow> Some (c_int (int n - p2), p2))
      else Some ps)"

fun p2_bytes_loop :: "int \<Rightarrow> int \<Rightarrow> packets \<Rightarrow> int" where
  "p2_bytes_loop ratio_count p2 [] = 0"
| "p2_bytes_loop ratio_count p2 (p # ps) =
     (if ratio_count < p2 then int (packet_bytes p) + p2_bytes_loop (ratio_count + 1) p2 ps else 0)"

text \<open>The worst path has used up its window of the current second.\<close>

definition window_used :: "rtp_sender \<Rightarrow> bool" where
  "window_used s =
     ((rs_worst_path_bytes s \<ge> (115 * mc_primary_wnd (rs_mp s)) sdiv 100 \<and> mc_best_pathid (rs_mp s) = 2) \<or>
      (rs_worst_path_bytes s \<ge> (115 * mc_secondary_wnd (rs_mp s)) sdiv 100 \<and> mc_best_pathid (rs_mp s) = 1))"

definition window_cap ::
  "int \<Rightarrow> int \<Rightarrow> nat \<Rightarrow> int \<times> int \<Rightarrow> rtp_sender \<Rightarrow> (int \<times> int) \<times> rtp_sender" where
  "window_cap now_ms p2_bytes n ps s =
     (let s = (if rs_worst_path_time s = 0 then s\<lparr>rs_worst_path_time := now_ms\<rparr> else s)
      in if now_ms - rs_worst_path_time s \<ge> 1000
         then (ps, s\<lparr>rs_worst_path_time := now_ms, rs_worst_path_bytes := p2_bytes\<rparr>)
         else if window_used s then ((int n, 0), s)
         else (ps, s\<lparr>rs_worst_path_bytes := rs_worst_path_bytes s + p2_bytes\<rparr>))"

text \<open>Shares, the path of the duplicate and the number of duplicates.\<close>

definition asymmetry_shares :: "nat \<Rightarrow> int \<times> int \<Rightarrow> mp_collector \<Rightarrow> (int \<times> int) \<times> int \<times> int" where
  "asymmetry_shares n ps m =
     (let p1 = fst ps; p2 = snd ps in
      if mc_remote_assymetry m > 0 \<and> p2 > 0
      then
        let a = (if mc_remote_assymetry m > p2 then p2 else mc_remote_assymetry m);
            (ps', dup_path) =
              (if mc_best_pathid m \<noteq> 2
               then if d_lt (d_of_int ((p1 + a) * 1500 * 8)) (mc_sendingrate1 m)
                    then ((c_int (int n - (p2 - a)), p2 - a), 2) else ((p1, p2), 0)
               else if d_lt (d_of_int ((p2 + a) * 1500 * 8)) (mc_sendingrate2 m)
                    then ((c_int (int n - (p2 - a)), p2 - a), 1) else ((p1, p2), 0))
        in (ps', dup_path, if snd ps' = 0 then 1 else 0)
      else (ps, 0, 0))"

text \<open>The first \<open>p2\<close> packets go on the worst path, the others on the best one.\<close>

fun ratio_split :: "int \<Rightarrow> int \<Rightarrow> packets \<Rightarrow> rtp_sender \<Rightarrow> packets \<times> rtp_sender" where
  "ratio_split ratio_count p2 [] s = ([], s)"
| "ratio_split ratio_count p2 (p # ps) s =
     (let (q, s) =
            (if mc_best_pathid (rs_mp s) = 1
             then if ratio_count < p2 then to_path2 p s else to_path1 p s
             else if ratio_count < p2 then to_path1 p s else to_path2 p s);
          (qs, s) = ratio_split (ratio_count + 1) p2 ps s
      in (q # qs, s))"

fun copy_loop :: "int \<Rightarrow> packets \<Rightarrow> packets" where
  "copy_loop dup_packets [] = []"
| "copy_loop dup_packets (p # ps) =
     (if dup_packets \<le> 0 then [] else p # copy_loop (dup_packets - 1) ps)"

text \<open>The branch that splits by ratio, with the copies it makes.\<close>

definition split_by_ratio :: "int \<Rightarrow> packets \<Rightarrow> rtp_sender \<Rightarrow> (packets \<times> packets \<times> rtp_sender) option" where
  "split_by_ratio now_ms packets s =
     do { let n = length packets;
          ps \<leftarrow> ratio_shares (mc_ratio (rs_mp s)) n;
          ps \<leftarrow> half_shares (MpGetHalfSignal (rs_mp s)) n ps;
          let (ps, s) = window_cap now_ms (p2_bytes_loop 0 (snd ps) packets) n ps s;
          let (ps, dup_path, dup_packets) = asymmetry_shares n ps (rs_mp s);
          let (packets, s) = ratio_split 0 (snd ps) packets s;
          let (copies, s) = (if dup_packets > 0
                             then for_packets (dup_packet dup_path) (copy_loop dup_packets packets) s
                             else ([], s));
          Some (packets, copies, s) }"

section \<open>The schedulers\<close>

text \<open>\<open>std::string::find\<close> different from \<open>npos\<close>.\<close>

fun str_find :: "string \<Rightarrow> string \<Rightarrow> bool" where
  "str_find pat [] = (pat = [])"
| "str_find pat (c # cs) = (take (length pat) (c # cs) = pat \<or> str_find pat cs)"

definition full_on :: "int \<Rightarrow> mp_collector \<Rightarrow> bool" where
  "full_on path m \<longleftrightarrow>
     d_true (MpGetFullSignal m) \<and> mc_full_pathid m = path \<and> MpISsecondPathOpen m"

definition window_scheduler ::
  "int \<Rightarrow> packets \<Rightarrow> bool \<Rightarrow> rtp_sender \<Rightarrow> (packets \<times> packets \<times> rtp_sender) option" where
  "window_scheduler now_ms packets keyframe s =
     (if keyframe
      then let (qs, s) = for_packets keyframe_packet packets s in Some (qs, [], s)
      else if d_eq (mc_ratio (rs_mp s)) (Fin 0) \<or> now_ms - rs_sandy_mp_start_time s \<le> 10000
      then let (cs, s) = for_packets copy_packet packets s;
               (qs, s) = for_packets to_path1 packets s
           in Some (qs, cs, s)
      else if full_on 1 (rs_mp s)
      then let (qs, s) = for_packets to_path2 packets s in Some (qs, [], s)
      else if full_on 2 (rs_mp s)
      then let (qs, s) = for_packets to_path1 packets s in Some (qs, [], s)
      else split_by_ratio now_ms packets s)"

text \<open>The redundant scheduler numbers the packets with their RTP sequence number.\<close>

definition red_packet :: "RtpPacketToSend \<Rightarrow> rtp_sender \<Rightarrow> RtpPacketToSend \<times> rtp_sender" where
  "red_packet p s = (set_flow 1 (rp_sequence_number p) p, s)"

text \<open>Round robin: \<open>double alpha=1/2\<close> is an integer division.\<close>

definition rr_alpha :: double where
  "rr_alpha = d_of_int (1 sdiv 2)"

definition rr_shares :: "mp_collector \<Rightarrow> nat \<Rightarrow> double \<times> double" where
  "rr_shares m n =
     (if d_lt (MpGetHalfSignal m) (Fin 1) \<and> mc_half_pathid m = 2
      then let p2 = d_mul (d_of_int (int n)) (d_mul rr_alpha (MpGetHalfSignal m));
               p2 = (if d_lt p2 (Fin 1) then Fin 1 else p2)
           in (d_sub (d_of_int (int n)) p2, p2)
      else if d_lt (MpGetHalfSignal m) (Fin 1) \<and> mc_half_pathid m = 1
      then let p1 = d_mul (d_of_int (int n)) (d_mul rr_alpha (MpGetHalfSignal m));
               p1 = (if d_lt p1 (Fin 1) then Fin 1 else p1)
           in (p1, d_sub (d_of_int (int n)) p1)
      else (d_of_int (int n), d_of_int (int n)))"

definition rr_primary :: "RtpPacketToSend \<Rightarrow> rtp_sender \<Rightarrow> RtpPacketToSend \<times> rtp_sender" where
  "rr_primary p s =
     (let seq = rs_sequence_number_p s;
          s = s\<lparr>rs_sequence_number_p := seq + 1\<rparr>
      in if \<not> MpISsecondPathOpen (rs_mp s) \<and> seq \<noteq> rp_sequence_number p \<and> rp_sequence_number p > 0
         then (set_flow 1 (rp_sequence_number p) p, s\<lparr>rs_sequence_number_p := rp_sequence_number p\<rparr>)
         else (set_flow 1 seq p, s))"

definition count_packet :: "rtp_sender \<Rightarrow> rtp_sender" where
  "count_packet s =
     s\<lparr>rs_total_packets_sent :=
        (if rs_total_packets_sent s < 4294967295 then rs_total_packets_sent s + 1 else 1)\<rparr>"

fun rr_loop :: "double \<Rightarrow> double \<Rightarrow> packets \<Rightarrow> rtp_sender \<Rightarrow> packets \<times> rtp_sender" where
  "rr_loop p1 p2 [] s = ([], s)"
| "rr_loop p1 p2 (p # ps) s =
     (let m = rs_mp s;
          (q, p1, p2, s) =
            (if d_lt (Fin 0) p1 \<and> \<not> full_on 1 m \<and>
                (even (uint (rs_total_packets_sent s)) \<or> \<not> MpISsecondPathOpen m \<or> full_on 2 m \<or> \<not> d_true p2)
             then (let (q, s) = rr_primary p s in (q, d_sub p1 (Fin 1), p2, s))
             else if MpISsecondPathOpen m \<and> d_lt (Fin 0) p2
             then (let (q, s) = to_path2 p s in (q, p1, d_sub p2 (Fin 1), s))
             else (p, p1, p2, s));
          (qs, s) = rr_loop p1 p2 ps (count_packet s)
      in (q # qs, s))"

definition MPTrafficSplitImplementation ::
  "int \<Rightarrow> packets \<Rightarrow> bool \<Rightarrow> rtp_sender \<Rightarrow> rtp_sender option" where
  "MPTrafficSplitImplementation now_ms packets keyframe s =
     do { let s = s\<lparr>rs_frame_count := rs_frame_count s + 1\<rparr>;
          let s = (if rs_sandy_mp_start_time s = 0 then s\<lparr>rs_sandy_mp_start_time := now_ms\<rparr> else s);
          let m = rs_mp s;
          (packets, copies, s) \<leftarrow>
            (if str_find ''window'' (mc_scheduler m) \<and> MpISsecondPathOpen m
             then window_scheduler now_ms packets keyframe s
             else if str_find ''red'' (mc_scheduler m) \<and> MpISsecondPathOpen m
             then (let (qs, s) = for_packets red_packet packets s in Some (qs, [], s))
             else (let (p1, p2) = rr_shares m (length packets);
                       (qs, s) = rr_loop p1 p2 packets s in Some (qs, [], s)));
          Some (s\<lparr>rs_paced := rs_paced s @ [packets] @ (if copies \<noteq> [] then [copies] else [])\<rparr>) }"

text \<open>
  \<open>EnqueuePackets\<close>: video packets of one frame. A packet without a type stops the program
  (\<open>RTC_CHECK\<close>): \<open>Inl\<close> of the index of the packet.
\<close>

definition EnqueuePackets :: "int \<Rightarrow> packets \<Rightarrow> rtp_sender \<Rightarrow> nat + rtp_sender option" where
  "EnqueuePackets now_ms packets s =
     (case List.find (\<lambda>i. rp_packet_type (packets ! i) = None) [0..<length packets] of
        Some i \<Rightarrow> Inl i
      | None \<Rightarrow>
          let packets = map (\<lambda>p. if rp_capture_time_ms p \<le> 0 then set_capture_time_ms now_ms p else p)
                packets;
              keyframe = list_ex rp_is_key_frame packets
          in Inr (MPTrafficSplitImplementation now_ms packets keyframe s))"

text \<open>Audio packets go on the primary path.\<close>

definition SendToNetwork :: "int \<Rightarrow> RtpPacketToSend \<Rightarrow> rtp_sender \<Rightarrow> nat + rtp_sender" where
  "SendToNetwork now_ms p s =
     (if rp_packet_type p = None then Inl 0
      else let p = (if rp_capture_time_ms p \<le> 0 then set_capture_time_ms now_ms p else p);
               (qs, s) = for_packets to_path1 [p] s
           in Inr (s\<lparr>rs_paced := rs_paced s @ [qs]\<rparr>))"

section \<open>Numbering on the two paths\<close>

definition flow_seqs :: "u8 \<Rightarrow> packets \<Rightarrow> u16 list" where
  "flow_seqs path ps = map rp_subflow_seq (filter (\<lambda>p. rp_subflow_id p = path) ps)"

definition consec :: "u16 \<Rightarrow> nat \<Rightarrow> u16 list" where
  "consec w n = map (\<lambda>k. w + of_nat k) [0..<n]"

text \<open>
  \<open>numbered s ps s'\<close>: sending \<open>ps\<close> took the sender from \<open>s\<close> to \<open>s'\<close>, every packet is on path 1 or 2
  with the same path and number in its header extensions, and on each path the numbers
  continue the counter of that path without a gap.
\<close>

definition numbered :: "rtp_sender \<Rightarrow> packets \<Rightarrow> rtp_sender \<Rightarrow> bool" where
  "numbered s ps s' \<longleftrightarrow>
     (\<forall>p \<in> set ps. (rp_subflow_id p = 1 \<or> rp_subflow_id p = 2) \<and> flow_on_wire p) \<and>
     flow_seqs 1 ps = consec (rs_sequence_number_p s) (length (flow_seqs 1 ps)) \<and>
     rs_sequence_number_p s' = rs_sequence_number_p s + of_nat (length (flow_seqs 1 ps)) \<and>
     flow_seqs 2 ps = consec (rs_sequence_number_s s) (length (flow_seqs 2 ps)) \<and>
     rs_sequence_number_s s' = rs_sequence_number_s s + of_nat (length (flow_seqs 2 ps))"

lemma consec_append: "consec w (m + n) = consec w m @ consec (w + of_nat m) n"
proof -
  have "[0..<m + n] = [0..<m] @ map ((+) m) [0..<n]"
    by (rule nth_equalityI) (auto simp: nth_append)
  then show ?thesis by (simp add: consec_def add.assoc comp_def)
qed

lemma flow_seqs_append [simp]: "flow_seqs i (ps @ qs) = flow_seqs i ps @ flow_seqs i qs"
  by (simp add: flow_seqs_def)

lemma flow_seqs_Nil [simp]: "flow_seqs i [] = []"
  by (simp add: flow_seqs_def)

lemma numbered_append:
  assumes "numbered s ps t" "numbered t qs u"
  shows "numbered s (ps @ qs) u"
  using assms unfolding numbered_def
  by (auto simp: consec_append add.assoc)

lemma numbered_Nil: "rs_sequence_number_p s' = rs_sequence_number_p s \<Longrightarrow>
    rs_sequence_number_s s' = rs_sequence_number_s s \<Longrightarrow> numbered s [] s'"
  by (simp add: numbered_def consec_def)

lemma numbered_cong:
  assumes "numbered s ps t"
    "rs_sequence_number_p s' = rs_sequence_number_p s" "rs_sequence_number_s s' = rs_sequence_number_s s"
    "rs_sequence_number_p t' = rs_sequence_number_p t" "rs_sequence_number_s t' = rs_sequence_number_s t"
  shows "numbered s' ps t'"
  using assms by (simp add: numbered_def)

text \<open>
  The contract of an operation that puts one packet on a path: it numbers the packet and
  leaves the rest of the packet as it is, up to a rewriting \<open>g\<close> of the media part. A loop
  over a list of packets inherits it.
\<close>

locale flow_assigner =
  fixes f :: "RtpPacketToSend \<Rightarrow> rtp_sender \<Rightarrow> RtpPacketToSend \<times> rtp_sender"
    and g :: "RtpPacketToSend \<Rightarrow> RtpPacketToSend"
  assumes step: "numbered s [fst (f p s)] (snd (f p s))"
    and media: "media_of (fst (f p s)) = g (media_of p)"
    and paced: "rs_paced (snd (f p s)) = rs_paced s"
begin

lemma loop:
  "numbered s (fst (for_packets f ps s)) (snd (for_packets f ps s)) \<and>
   map media_of (fst (for_packets f ps s)) = map (g \<circ> media_of) ps \<and>
   rs_paced (snd (for_packets f ps s)) = rs_paced s"
proof (induction ps arbitrary: s)
  case Nil
  then show ?case by (simp add: numbered_Nil)
next
  case (Cons p ps)
  have "numbered s ([fst (f p s)] @ fst (for_packets f ps (snd (f p s))))
      (snd (for_packets f ps (snd (f p s))))"
    using numbered_append step Cons.IH by blast
  with Cons.IH [of "snd (f p s)"] show ?case
    by (simp add: case_prod_beta Let_def media paced)
qed

lemma loop_eq:
  assumes "for_packets f ps s = (qs, t)"
  shows "numbered s qs t" and "map media_of qs = map (g \<circ> media_of) ps" and "rs_paced t = rs_paced s"
  using loop [of s ps] assms by simp_all

end

lemma to_path_numbered:
  "numbered s [fst (to_path1 p s)] (snd (to_path1 p s))"
  "numbered s [fst (to_path2 p s)] (snd (to_path2 p s))"
  by (simp_all add: numbered_def to_path1_def to_path2_def flow_seqs_def consec_def)

lemma to_path_media [simp]:
  "media_of (fst (to_path1 p s)) = media_of p" "media_of (fst (to_path2 p s)) = media_of p"
  by (simp_all add: to_path1_def to_path2_def)

lemma to_path_frame [simp]:
  "rs_paced (snd (to_path1 p s)) = rs_paced s" "rs_paced (snd (to_path2 p s)) = rs_paced s"
  "rs_mp (snd (to_path1 p s)) = rs_mp s" "rs_mp (snd (to_path2 p s)) = rs_mp s"
  "rs_total_packets_sent (snd (to_path1 p s)) = rs_total_packets_sent s"
  "rs_total_packets_sent (snd (to_path2 p s)) = rs_total_packets_sent s"
  "rs_worst_path_bytes (snd (to_path1 p s)) = rs_worst_path_bytes s"
  "rs_worst_path_bytes (snd (to_path2 p s)) = rs_worst_path_bytes s"
  "rs_worst_path_time (snd (to_path1 p s)) = rs_worst_path_time s"
  "rs_worst_path_time (snd (to_path2 p s)) = rs_worst_path_time s"
  by (simp_all add: to_path1_def to_path2_def)

interpretation path1: flow_assigner to_path1 id
  by unfold_locales (simp_all add: to_path_numbered)

interpretation path2: flow_assigner to_path2 id
  by unfold_locales (simp_all add: to_path_numbered)

interpretation keyframe: flow_assigner keyframe_packet id
proof
  fix p :: RtpPacketToSend and s :: rtp_sender
  let ?s = "s\<lparr>rs_mp := MpSetPayloadType (uint (rp_payload_type p)) (rs_mp s)\<rparr>"
  show "numbered s [fst (keyframe_packet p s)] (snd (keyframe_packet p s))"
    using to_path_numbered [where s = ?s and p = p]
    by (auto simp: keyframe_packet_def Let_def elim!: numbered_cong)
  show "media_of (fst (keyframe_packet p s)) = id (media_of p)"
    and "rs_paced (snd (keyframe_packet p s)) = rs_paced s"
    by (simp_all add: keyframe_packet_def Let_def)
qed

lemma media_of_set [simp]:
  "media_of (SetPayloadType pt p) = SetPayloadType pt (media_of p)"
  "media_of (set_packet_type ty p) = set_packet_type ty (media_of p)"
  by (simp_all add: media_of_def SetPayloadType_def set_packet_type_def)

interpretation copies: flow_assigner copy_packet "SetPayloadType 50"
  by unfold_locales (simp_all add: copy_packet_def to_path_numbered)

interpretation dups: flow_assigner "dup_packet d" "set_packet_type kDupPacket \<circ> SetPayloadType 50" for d
  by unfold_locales (simp_all add: dup_packet_def Let_def to_path_numbered)

lemma ratio_split_numbered:
  assumes "ratio_split c p2 ps s = (qs, t)"
  shows "numbered s qs t \<and> map media_of qs = map media_of ps \<and> rs_paced t = rs_paced s \<and>
    rs_mp t = rs_mp s \<and> rs_worst_path_bytes t = rs_worst_path_bytes s \<and>
    rs_worst_path_time t = rs_worst_path_time s"
  using assms
proof (induction ps arbitrary: c s qs)
  case Nil
  then show ?case by (auto simp: numbered_Nil)
next
  case (Cons p ps)
  define f where "f = (if mc_best_pathid (rs_mp s) = 1
    then if c < p2 then to_path2 else to_path1 else if c < p2 then to_path1 else to_path2)"
  have f: "numbered s [fst (f p s)] (snd (f p s))" "media_of (fst (f p s)) = media_of p"
    "rs_paced (snd (f p s)) = rs_paced s" "rs_mp (snd (f p s)) = rs_mp s"
    "rs_worst_path_bytes (snd (f p s)) = rs_worst_path_bytes s"
    "rs_worst_path_time (snd (f p s)) = rs_worst_path_time s"
    by (simp_all add: f_def to_path_numbered)
  obtain rs where rs: "ratio_split (c + 1) p2 ps (snd (f p s)) = (rs, t)" and qs: "qs = fst (f p s) # rs"
    using Cons.prems
    by (cases "ratio_split (c + 1) p2 ps (snd (f p s))")
      (auto simp: f_def case_prod_beta Let_def split: if_splits)
  note ih = Cons.IH [OF rs]
  with numbered_append [OF f(1), of rs t] f show ?case by (simp add: qs)
qed

text \<open>The branches of the scheduler put packets on one path only.\<close>

lemma all_on_path1:
  assumes "for_packets to_path1 ps s = (qs, t)"
  shows "\<forall>q \<in> set qs. rp_subflow_id q = 1" and "rs_sequence_number_s t = rs_sequence_number_s s"
proof -
  have "(\<forall>q \<in> set qs. rp_subflow_id q = 1) \<and> rs_sequence_number_s t = rs_sequence_number_s s"
    using assms
    by (induction ps arbitrary: s qs) (auto simp: to_path1_def Let_def split: prod.splits)
  then show "\<forall>q \<in> set qs. rp_subflow_id q = 1" and "rs_sequence_number_s t = rs_sequence_number_s s"
    by simp_all
qed

lemma all_on_path2:
  assumes "for_packets to_path2 ps s = (qs, t)"
  shows "\<forall>q \<in> set qs. rp_subflow_id q = 2" and "rs_sequence_number_p t = rs_sequence_number_p s"
proof -
  have "(\<forall>q \<in> set qs. rp_subflow_id q = 2) \<and> rs_sequence_number_p t = rs_sequence_number_p s"
    using assms
    by (induction ps arbitrary: s qs) (auto simp: to_path2_def Let_def split: prod.splits)
  then show "\<forall>q \<in> set qs. rp_subflow_id q = 2" and "rs_sequence_number_p t = rs_sequence_number_p s"
    by simp_all
qed

lemma copies_on_path2: "for_packets copy_packet ps s = for_packets to_path2 (map (SetPayloadType 50) ps) s"
  by (induction ps arbitrary: s) (simp_all add: copy_packet_def)

lemma flow_seqs_none: "\<forall>q \<in> set qs. rp_subflow_id q \<noteq> i \<Longrightarrow> flow_seqs i qs = []"
  by (simp add: flow_seqs_def)

lemma numbered_swap:
  assumes "numbered s (cs @ qs) t" "\<forall>c \<in> set cs. rp_subflow_id c = 2" "\<forall>q \<in> set qs. rp_subflow_id q = 1"
  shows "numbered s (qs @ cs) t"
proof -
  have "flow_seqs 1 cs = []" "flow_seqs 2 qs = []"
    using assms(2,3) by (auto intro: flow_seqs_none)
  with assms(1) show ?thesis by (auto simp: numbered_def)
qed

lemma pt50_media: "map media_of cs = map (SetPayloadType 50 \<circ> f) ps \<Longrightarrow>
    \<forall>c \<in> set cs. rp_payload_type c = 50"
proof
  fix c
  assume "map media_of cs = map (SetPayloadType 50 \<circ> f) ps" "c \<in> set cs"
  then have "media_of c \<in> set (map (SetPayloadType 50 \<circ> f) ps)" by (metis image_eqI set_map)
  then obtain p where "media_of c = SetPayloadType 50 (f p)" by auto
  then have "rp_payload_type (media_of c) = 50" by (simp add: SetPayloadType_def)
  then show "rp_payload_type c = 50" by simp
qed

lemma split_by_ratioE:
  assumes "split_by_ratio now ps s = Some (qs, cs, t)"
  obtains sh1 sh2 sh3 u0 sh4 dup_path dups u where
    "ratio_shares (mc_ratio (rs_mp s)) (length ps) = Some sh1"
    "half_shares (MpGetHalfSignal (rs_mp s)) (length ps) sh1 = Some sh2"
    "window_cap now (p2_bytes_loop 0 (snd sh2) ps) (length ps) sh2 s = (sh3, u0)"
    "asymmetry_shares (length ps) sh3 (rs_mp u0) = (sh4, dup_path, dups)"
    "ratio_split 0 (snd sh4) ps u0 = (qs, u)"
    "(if dups > 0 then for_packets (dup_packet dup_path) (copy_loop dups qs) u else ([], u)) = (cs, t)"
proof -
  obtain sh1 sh2 where sh: "ratio_shares (mc_ratio (rs_mp s)) (length ps) = Some sh1"
    "half_shares (MpGetHalfSignal (rs_mp s)) (length ps) sh1 = Some sh2"
    using assms by (auto simp: split_by_ratio_def Let_def bind_eq_Some_conv)
  obtain sh3 u0 where cap:
    "window_cap now (p2_bytes_loop 0 (snd sh2) ps) (length ps) sh2 s = (sh3, u0)"
    by fastforce
  obtain sh4 dup_path dups where asym:
    "asymmetry_shares (length ps) sh3 (rs_mp u0) = (sh4, dup_path, dups)"
    by (metis prod_cases3)
  obtain qs' u where sp: "ratio_split 0 (snd sh4) ps u0 = (qs', u)" by fastforce
  from assms have "qs' = qs \<and>
    (if dups > 0 then for_packets (dup_packet dup_path) (copy_loop dups qs') u else ([], u)) = (cs, t)"
    by (auto simp: split_by_ratio_def Let_def bind_eq_Some_conv sh cap asym sp split: prod.splits)
  with that sh cap asym sp show thesis by blast
qed

lemma split_by_ratio_numbered:
  assumes "split_by_ratio now ps s = Some (qs, cs, t)"
  shows "numbered s (qs @ cs) t \<and> map media_of qs = map media_of ps \<and> rs_paced t = rs_paced s \<and>
    (\<forall>c \<in> set cs. rp_payload_type c = 50)"
proof -
  from assms obtain sh2 sh3 u0 p2 dup_path dups u where
    cap: "window_cap now (p2_bytes_loop 0 (snd sh2) ps) (length ps) sh2 s = (sh3, u0)" and
    sp: "ratio_split 0 p2 ps u0 = (qs, u)" and
    du: "(if dups > 0 then for_packets (dup_packet dup_path) (copy_loop dups qs) u else ([], u)) = (cs, t)"
    by (elim split_by_ratioE)
  have u0: "rs_sequence_number_p u0 = rs_sequence_number_p s"
    "rs_sequence_number_s u0 = rs_sequence_number_s s" "rs_paced u0 = rs_paced s"
    using cap by (auto simp: window_cap_def Let_def split: if_splits)
  note sp = ratio_split_numbered [OF sp]
  have "numbered s qs u"
    using sp numbered_cong u0 by (metis (no_types, lifting))
  moreover have "numbered u cs t \<and> rs_paced t = rs_paced u \<and> (\<forall>c \<in> set cs. rp_payload_type c = 50)"
  proof (cases "dups > 0")
    case True
    with du have d: "for_packets (dup_packet dup_path) (copy_loop dups qs) u = (cs, t)" by simp
    have "map media_of cs = map (SetPayloadType 50 \<circ> (set_packet_type kDupPacket \<circ> media_of)) (copy_loop dups qs)"
      using dups.loop_eq(2) [OF d]
      by (simp add: comp_def SetPayloadType_def set_packet_type_def)
    from pt50_media [OF this] dups.loop_eq(1,3) [OF d] show ?thesis by simp
  next
    case False
    with du show ?thesis by (auto simp: numbered_Nil)
  qed
  ultimately show ?thesis using sp u0(3) numbered_append by auto
qed

lemma window_scheduler_numbered:
  assumes "window_scheduler now ps kf s = Some (qs, cs, t)"
  shows "numbered s (qs @ cs) t \<and> map media_of qs = map media_of ps \<and> rs_paced t = rs_paced s \<and>
    (\<forall>c \<in> set cs. rp_payload_type c = 50)"
proof -
  let ?start = "d_eq (mc_ratio (rs_mp s)) (Fin 0) \<or> now - rs_sandy_mp_start_time s \<le> 10000"
  consider (key) "kf" "for_packets keyframe_packet ps s = (qs, t)" "cs = []"
    | (start) u where "for_packets copy_packet ps s = (cs, u)" "for_packets to_path1 ps u = (qs, t)"
    | (full1) "for_packets to_path2 ps s = (qs, t)" "cs = []"
    | (full2) "for_packets to_path1 ps s = (qs, t)" "cs = []"
    | (ratio) "split_by_ratio now ps s = Some (qs, cs, t)"
    using assms by (auto simp: window_scheduler_def split: if_splits prod.splits)
  then show ?thesis
  proof cases
    case start
    from copies.loop_eq [OF start(1)] path1.loop_eq [OF start(2)]
    have "numbered s (cs @ qs) t" "map media_of qs = map media_of ps" "rs_paced t = rs_paced s"
      by (simp_all add: numbered_append)
    moreover have "\<forall>c \<in> set cs. rp_subflow_id c = 2"
      using all_on_path2(1) start(1) copies_on_path2 by metis
    ultimately show ?thesis
      using numbered_swap all_on_path1(1) [OF start(2)] pt50_media [OF copies.loop_eq(2) [OF start(1)]]
      by blast
  qed (use keyframe.loop_eq path1.loop_eq path2.loop_eq split_by_ratio_numbered in auto)
qed


text \<open>A frame, a shared state and a sender on which the properties are evaluated.\<close>

definition example_packet :: "u16 \<Rightarrow> RtpPacketToSend" where
  "example_packet n =
     \<lparr> rp_payload_type = 96, rp_sequence_number = n, rp_timestamp = 3000, rp_ssrc = 7, rp_marker = False,
       rp_headers_size = 24, rp_payload = [1, 2, 3], rp_padding_size = 0, rp_subflow_seq = 0,
       rp_subflow_id = 0, rp_sandy = Some 0, rp_MpFlowSeqNum = Some 0, rp_capture_time_ms = 5,
       rp_packet_type = Some kVideo, rp_allow_retransmission = True,
       rp_retransmitted_sequence_number = None, rp_is_first_packet_of_frame = False,
       rp_is_key_frame = False \<rparr>"

definition example_mp :: "string \<Rightarrow> mp_collector" where
  "example_mp scheduler = (mp_init (Fin 0) (Fin 0) 0 0)
     \<lparr>mc_scheduler := scheduler, mc_second_path := 1, mc_best_pathid := 1, mc_ratio := Fin 3,
      mc_primary_wnd := 4000, mc_secondary_wnd := 1000\<rparr>"

definition example_sender :: "mp_collector \<Rightarrow> rtp_sender" where
  "example_sender m = rtp_sender_init 0 500 1000 0 m"

definition example_frame :: packets where
  "example_frame = map example_packet [10, 11, 12, 13, 14]"

lemma example_sender_simps [simp]:
  "rs_mp (example_sender m) = m" "rs_paced (example_sender m) = []"
  "rs_sandy_mp_start_time (example_sender m) = 1000" "rs_worst_path_bytes (example_sender m) = 0"
  "rs_total_packets_sent (example_sender m) = 0" "rs_sequence_number_p (example_sender m) = 10"
  by (simp_all add: example_sender_def rtp_sender_init_def)

lemma example_mp_simps [simp]:
  "mc_scheduler (example_mp s) = s" "mc_second_path (example_mp s) = 1"
  "mc_best_pathid (example_mp s) = 1" "mc_ratio (example_mp s) = Fin 3" "mc_alpha (example_mp s) = Fin 1"
  "mc_beta (example_mp s) = Fin 0" "mc_secondary_wnd (example_mp s) = 1000" "mp_inv (example_mp s)"
  by (simp_all add: example_mp_def mp_init_def mp_inv_def)

lemma example_frame_simps [simp]:
  "length example_frame = 5" "example_frame \<noteq> []" "rp_subflow_id (last example_frame) = 0"
  "(\<Sum>p \<leftarrow> example_frame. int (packet_bytes p)) = 135" "rp_sequence_number (example_packet n) = n"
  by (simp_all add: example_frame_def example_packet_def packet_bytes_def)

lemma is_some_the: "\<not> Option.is_none x \<Longrightarrow> x = Some (the x)"
  by (cases x) simp_all

lemma example_split:
  "MPTrafficSplitImplementation 20000 example_frame False (example_sender (example_mp ''window'')) =
     Some (the (MPTrafficSplitImplementation 20000 example_frame False
       (example_sender (example_mp ''window''))))"
  by (rule is_some_the) code_simp


end
