(* ===== verification/TrafficSplit.thy ===== *)
theory TrafficSplit
  imports RtpSender
begin

text \<open>
  What the multipath scheduler \<open>RTPSender::MPTrafficSplitImplementation\<close> guarantees about the
  number of packets and bytes of each path: the shares by ratio, their reduction by the half
  signal, the cap of the worst path's window, the full signal, and the round robin scheduler.
  The definitions are those of the theory of the sender; \<open>rounding\<close> gives the bounds of the
  floating-point computations.
\<close>

section \<open>Conversions\<close>

lemma c_int_id: "- (2 ^ 31) \<le> x \<Longrightarrow> x < 2 ^ 31 \<Longrightarrow> c_int x = x"
  by (simp add: c_int_def signed_take_bit_int_eq_self_iff)

lemma d_to_int_between:
  assumes "of_int a \<le> x" "x \<le> of_int b" "- (2 ^ 31) \<le> a" "b < 2 ^ 31" "0 \<le> a"
  shows "d_to_int (Fin x) = Some \<lfloor>x\<rfloor>" and "a \<le> \<lfloor>x\<rfloor>" and "\<lfloor>x\<rfloor> \<le> b"
proof -
  show l: "a \<le> \<lfloor>x\<rfloor>" using assms(1) by (simp add: le_floor_iff)
  show u: "\<lfloor>x\<rfloor> \<le> b" using assms(2) by (metis floor_mono floor_of_int)
  have "0 \<le> x" using assms(1,5) by (metis of_int_0_le_iff order_trans)
  then show "d_to_int (Fin x) = Some \<lfloor>x\<rfloor>" using l u assms by (simp add: trunc_rat_def)
qed

section \<open>The shares\<close>

lemma ratio_shares_bounds:
  assumes "0 \<le> r" "r \<le> 2 ^ 51" "rnd r = r" "n < 2 ^ 31"
  shows "\<exists>p1 p2. ratio_shares (Fin r) n = Some (p1, p2) \<and> 0 \<le> p2 \<and> p2 \<le> p1 \<and> p1 + p2 = int n"
proof -
  obtain split where sp: "0 \<le> split" "split \<le> int n"
    "(if n = 1 then Some 1
      else d_to_int (d_mul (d_div (Fin r) (d_add (Fin 1) (Fin r))) (d_of_int (int n)))) = Some split"
  proof (cases "n = 1")
    case True
    then show thesis using that [of 1] by simp
  next
    case False
    let ?x = "rnd (rnd (r / rnd (1 + r)) * of_int (int n))"
    have one: "1 \<le> rnd (1 + r)" "rnd (1 + r) \<le> 2 ^ 52"
      using rnd_mono [of 1 "1 + r"] rnd_of_int [of 1] rnd_mono [of "1 + r" "2 ^ 52"] rnd_of_int [of "2 ^ 52"]
        assms(1,2) by simp_all
    have q: "0 \<le> r / rnd (1 + r)" "r / rnd (1 + r) \<le> r"
      using one assms(1) by (simp_all add: divide_le_eq mult_left_le mult_le_cancel_left1)
    have n: "0 \<le> int n" "int n < 2 ^ 53" using assms(4) by simp_all
    have b: "0 \<le> ?x" "?x \<le> of_int (int n)"
      using b64.share_bounds [OF assms(1,3) n] by simp_all
    have s: "0 \<le> rnd (r / rnd (1 + r))" "rnd (r / rnd (1 + r)) \<le> 1"
      using rnd_nonneg [OF q(1)] b64.share_bounds [OF assms(1,3), of 1]
        rnd_mono [of "r / rnd (1 + r)" 1] rnd_of_int [of 1] rnd_mono [of r "1 + r"] one assms(1,3)
      by simp_all
    have add: "d_add (Fin 1) (Fin r) = Fin (rnd (1 + r))"
      using assms(1,2) by (simp add: dround_small)
    have div: "d_div (Fin r) (Fin (rnd (1 + r))) = Fin (rnd (r / rnd (1 + r)))"
      using one q assms(2) by (simp add: dround_small)
    have nd: "d_of_int (int n) = Fin (of_int (int n))"
      using assms(4) by (intro d_of_int_small) simp
    have "(of_int (int n) :: rat) \<le> of_int (2 ^ 31)"
      unfolding of_int_le_iff using assms(4) by simp
    then have "\<bar>rnd (r / rnd (1 + r)) * of_int (int n)\<bar> \<le> 1 * 2 ^ 31"
      unfolding abs_mult using s by (intro mult_mono) simp_all
    then have mul: "d_mul (Fin (rnd (r / rnd (1 + r)))) (d_of_int (int n)) = Fin ?x"
      unfolding nd by (simp add: dround_small)
    from d_to_int_between [of 0 ?x "int n"] b assms(4)
    have "d_to_int (Fin ?x) = Some \<lfloor>?x\<rfloor>" "0 \<le> \<lfloor>?x\<rfloor>" "\<lfloor>?x\<rfloor> \<le> int n" by simp_all
    with False show thesis by (intro that [of "\<lfloor>?x\<rfloor>"]) (simp_all only: add div mul, simp)
  qed
  have "c_int (int n - split) = int n - split"
    using sp(1,2) assms(4) by (intro c_int_id) simp_all
  with sp show ?thesis by (auto simp: ratio_shares_def Let_def)
qed

lemma half_shares_bounds:
  assumes "unit_double alpha" "0 \<le> p2" "p2 \<le> int n" "n < 2 ^ 31" "p1 + p2 = int n"
  shows "\<exists>q1 q2. half_shares alpha n (p1, p2) = Some (q1, q2) \<and> 0 \<le> q2 \<and> q2 \<le> p2 \<and> q1 + q2 = int n"
proof (cases "d_lt alpha (Fin 1)")
  case False
  then show ?thesis using assms by (simp add: half_shares_def)
next
  case True
  obtain a where a: "alpha = Fin a" "0 \<le> a" "a \<le> 1" using assms(1) by (cases alpha) auto
  define a' where "a' = rnd a"
  have a': "0 \<le> a'" "a' \<le> 1" using b64.rnd_between [of 0 1 a] a by (simp_all add: a'_def)
  have alpha: "d_mul (Fin 1) alpha = Fin a'"
    using a by (simp add: dround_small a'_def)
  have p2: "d_of_int p2 = Fin (of_int p2)"
    using assms(2-4) by (intro d_of_int_small) simp
  have le: "0 \<le> of_int p2 * a'" "of_int p2 * a' \<le> of_int p2"
    using assms(2) a' by (simp_all add: mult_left_le)
  have "(of_int p2 :: rat) \<le> of_int (2 ^ 52)" using assms(3,4) by (simp only: of_int_le_iff) simp
  then have mul: "d_mul (Fin (of_int p2)) (Fin a') = Fin (rnd (of_int p2 * a'))"
    using le by (simp add: dround_small)
  have "0 \<le> rnd (of_int p2 * a')" "rnd (of_int p2 * a') \<le> of_int p2"
    using b64.rnd_between [of 0 p2 "of_int p2 * a'"] le assms(2-4) by simp_all
  from d_to_int_between [of 0 "rnd (of_int p2 * a')" p2] this assms(3,4)
  obtain q2 where q2: "d_to_int (Fin (rnd (of_int p2 * a'))) = Some q2" "0 \<le> q2" "q2 \<le> p2" by auto
  have "c_int (int n - q2) = int n - q2"
    using q2(2,3) assms(2-4) by (intro c_int_id) simp_all
  with True q2 show ?thesis by (simp add: half_shares_def Let_def alpha p2 mul del: d_mul.simps d_to_int.simps)
qed

lemma half_shares_pow2:
  assumes "half_shares (Fin (2 powi (- int k))) n (p1, p2) = Some (q1, q2)"
    "0 \<le> p2" "p2 < 2 ^ 31" "k \<le> 1074"
  shows "q2 * 2 ^ k \<le> p2"
proof (cases "k = 0")
  case True
  then show ?thesis using assms by (simp add: half_shares_def)
next
  case False
  let ?a = "2 powi (- int k) :: rat"
  have le: "?a \<le> 1" using power_int_increasing [of "- int k" 0 "2 :: rat"] by simp
  have lt: "d_lt (Fin ?a) (Fin 1)"
    using False powi_less_iff [of "- int k" 0] by simp
  have one: "d_mul (Fin 1) (Fin ?a) = Fin ?a"
    using le rnd_pow2 [OF assms(4)] by (simp add: dround_small)
  have p2: "d_of_int p2 = Fin (of_int p2)"
    using assms(2,3) by (intro d_of_int_small) simp
  have "(of_int p2 :: rat) \<le> of_int (2 ^ 31)"
    unfolding of_int_le_iff using assms(3) by simp
  then have "\<bar>of_int p2 * ?a\<bar> \<le> 2 ^ 31 * 1"
    unfolding abs_mult using assms(2) le by (intro mult_mono) simp_all
  then have mul: "d_mul (Fin (of_int p2)) (Fin ?a) = Fin (of_int p2 * ?a)"
    using rnd_fixed [of "of_int p2 * ?a" p2 "- int k"] assms(2-4) by (simp add: dround_small)
  from assms(1) have "d_to_int (Fin (of_int p2 * ?a)) = Some q2"
    by (simp add: half_shares_def Let_def lt one p2 mul del: d_mul.simps d_lt.simps d_to_int.simps
        split: option.splits)
  then have "q2 = trunc_rat (of_int p2 * ?a)" by (auto simp: Let_def split: if_splits)
  then have "of_int q2 \<le> of_int p2 * ?a" using assms(2) by (simp add: trunc_rat_def)
  then have "of_int q2 * 2 ^ k \<le> (of_int p2 :: rat)"
    by (simp add: power_int_minus field_simps)
  then have "of_int (q2 * 2 ^ k) \<le> (of_int p2 :: rat)" by simp
  then show ?thesis unfolding of_int_le_iff .
qed

lemma asymmetry_shares_bounds:
  assumes "asymmetry_shares n (p1, p2) m = ((q1, q2), d, c)" "0 \<le> p2"
  shows "0 \<le> q2 \<and> q2 \<le> p2"
  using assms by (auto simp: asymmetry_shares_def Let_def split: if_splits prod.splits)

lemma window_cap_shares:
  assumes "window_cap now bytes n (p1, p2) s = ((q1, q2), t)" "0 \<le> p2"
  shows "0 \<le> q2 \<and> q2 \<le> p2 \<and> rs_mp t = rs_mp s"
  using assms by (auto simp: window_cap_def Let_def split: if_splits)

section \<open>Packets on each path\<close>

definition worst_path :: "mp_collector \<Rightarrow> u8" where
  "worst_path m = (if mc_best_pathid m = 1 then 2 else 1)"

definition on_path :: "u8 \<Rightarrow> packets \<Rightarrow> nat" where
  "on_path i ps = length (filter (\<lambda>p. rp_subflow_id p = i) ps)"

lemma ratio_split_count:
  assumes "ratio_split c p2 ps s = (qs, t)"
  shows "on_path (worst_path (rs_mp s)) qs = min (length ps) (nat (p2 - c))"
  using assms
proof (induction ps arbitrary: c s qs)
  case Nil
  then show ?case by (simp add: on_path_def)
next
  case (Cons p ps)
  define f where "f = (if mc_best_pathid (rs_mp s) = 1
    then if c < p2 then to_path2 else to_path1 else if c < p2 then to_path1 else to_path2)"
  obtain rs where rs: "ratio_split (c + 1) p2 ps (snd (f p s)) = (rs, t)" and qs: "qs = fst (f p s) # rs"
    using Cons.prems
    by (cases "ratio_split (c + 1) p2 ps (snd (f p s))")
      (auto simp: f_def case_prod_beta Let_def split: if_splits)
  have m: "rs_mp (snd (f p s)) = rs_mp s" by (simp add: f_def)
  have "rp_subflow_id (fst (f p s)) = worst_path (rs_mp s) \<longleftrightarrow> c < p2"
    by (auto simp: f_def worst_path_def to_path1_def to_path2_def)
  with Cons.IH [OF rs] m show ?case
    by (auto simp: qs on_path_def min_def)
qed

text \<open>The states in which the scheduler splits a frame by ratio.\<close>

definition ratio_branch :: "int \<Rightarrow> rtp_sender \<Rightarrow> bool" where
  "ratio_branch now s \<longleftrightarrow>
     str_find ''window'' (mc_scheduler (rs_mp s)) \<and> MpISsecondPathOpen (rs_mp s) \<and>
     rs_sandy_mp_start_time s \<noteq> 0 \<and> now - rs_sandy_mp_start_time s > 10000 \<and>
     mc_ratio (rs_mp s) \<noteq> Fin 0 \<and> \<not> full_on 1 (rs_mp s) \<and> \<not> full_on 2 (rs_mp s)"

lemma ratio_branch_split:
  assumes "ratio_branch now s"
  shows "MPTrafficSplitImplementation now ps False s =
    map_option (\<lambda>(qs, cs, t). t\<lparr>rs_paced := rs_paced t @ [qs] @ (if cs \<noteq> [] then [cs] else [])\<rparr>)
      (split_by_ratio now ps (s\<lparr>rs_frame_count := rs_frame_count s + 1\<rparr>))"
  using assms
  by (cases "split_by_ratio now ps (s\<lparr>rs_frame_count := rs_frame_count s + 1\<rparr>)")
    (auto simp: MPTrafficSplitImplementation_def window_scheduler_def ratio_branch_def Let_def d_eq_def)

lemma split_by_ratio_defined:
  assumes "mc_ratio (rs_mp s) = Fin r" "0 \<le> r" "r \<le> 2 ^ 51" "rnd r = r"
    "unit_double (mc_alpha (rs_mp s))" "length ps < 2 ^ 31"
  shows "\<exists>qs cs t. split_by_ratio now ps s = Some (qs, cs, t)"
proof -
  obtain p1 p2 where p: "ratio_shares (Fin r) (length ps) = Some (p1, p2)" "0 \<le> p2" "p2 \<le> p1"
    "p1 + p2 = int (length ps)"
    using ratio_shares_bounds [OF assms(2-4,6)] by blast
  then obtain q where "half_shares (mc_alpha (rs_mp s)) (length ps) (p1, p2) = Some q"
    using half_shares_bounds [OF assms(5) p(2) _ assms(6) p(4)] by auto
  with p(1) show ?thesis
    by (simp add: split_by_ratio_def assms(1) MpGetHalfSignal_def Let_def case_prod_beta)
qed

lemma traffic_split_total:
  assumes "mc_ratio (rs_mp s) = Fin r" "0 \<le> r" "r \<le> 2 ^ 51" "rnd r = r" "mp_inv (rs_mp s)"
    "length ps < 2 ^ 31"
  shows "\<exists>s'. MPTrafficSplitImplementation now ps keyframe s = Some s'"
proof -
  define s1 where "s1 = (let s = s\<lparr>rs_frame_count := rs_frame_count s + 1\<rparr> in
    if rs_sandy_mp_start_time s = 0 then s\<lparr>rs_sandy_mp_start_time := now\<rparr> else s)"
  have m: "rs_mp s1 = rs_mp s" by (simp add: s1_def Let_def)
  obtain qs cs t where "split_by_ratio now ps s1 = Some (qs, cs, t)"
    using split_by_ratio_defined [of s1 r ps now] assms m by (auto simp: mp_inv_def)
  then have "\<exists>x. window_scheduler now ps keyframe s1 = Some x"
    by (simp add: window_scheduler_def case_prod_beta Let_def)
  then show ?thesis
    by (auto simp: MPTrafficSplitImplementation_def s1_def Let_def case_prod_beta bind_eq_Some_conv)
qed



lemma ratio_branchE:
  assumes "ratio_branch now s" "MPTrafficSplitImplementation now ps False s = Some s'"
  obtains sh1 sh2 sh3 u0 sh4 dup_path dups qs cs u where
    "ratio_shares (mc_ratio (rs_mp s)) (length ps) = Some sh1"
    "half_shares (mc_alpha (rs_mp s)) (length ps) sh1 = Some sh2"
    "window_cap now (p2_bytes_loop 0 (snd sh2) ps) (length ps) sh2
       (s\<lparr>rs_frame_count := rs_frame_count s + 1\<rparr>) = (sh3, u0)"
    "asymmetry_shares (length ps) sh3 (rs_mp u0) = (sh4, dup_path, dups)"
    "ratio_split 0 (snd sh4) ps u0 = (qs, u)"
    "rs_paced s' = rs_paced s @ [qs] @ (if cs \<noteq> [] then [cs] else [])"
    "rs_worst_path_bytes s' = rs_worst_path_bytes u0" "rs_mp s' = rs_mp s" "rs_mp u0 = rs_mp s"
proof -
  let ?s = "s\<lparr>rs_frame_count := rs_frame_count s + 1\<rparr>"
  obtain qs cs t where sp: "split_by_ratio now ps ?s = Some (qs, cs, t)"
    and s': "s' = t\<lparr>rs_paced := rs_paced t @ [qs] @ (if cs \<noteq> [] then [cs] else [])\<rparr>"
    using assms by (auto simp: ratio_branch_split)
  have frame: "rs_mp v = rs_mp u \<and> rs_worst_path_bytes v = rs_worst_path_bytes u"
    if "for_packets (dup_packet d) xs u = (ys, v)" for d xs u ys v
    using that
    by (induction xs arbitrary: u ys)
      (auto simp: dup_packet_def to_path1_def to_path2_def Let_def split: prod.splits if_splits)
  from sp show thesis
  proof (rule split_by_ratioE)
    fix sh1 sh2 sh3 u0 sh4 dup_path dups u
    assume "ratio_shares (mc_ratio (rs_mp ?s)) (length ps) = Some sh1"
      "half_shares (MpGetHalfSignal (rs_mp ?s)) (length ps) sh1 = Some sh2"
      and cap: "window_cap now (p2_bytes_loop 0 (snd sh2) ps) (length ps) sh2 ?s = (sh3, u0)"
      and "asymmetry_shares (length ps) sh3 (rs_mp u0) = (sh4, dup_path, dups)"
      and r: "ratio_split 0 (snd sh4) ps u0 = (qs, u)"
      and d: "(if dups > 0 then for_packets (dup_packet dup_path) (copy_loop dups qs) u else ([], u)) = (cs, t)"
    moreover have "rs_mp u0 = rs_mp s"
      using cap by (auto simp: window_cap_def Let_def split: if_splits)
    moreover have "rs_mp t = rs_mp u" "rs_worst_path_bytes t = rs_worst_path_bytes u"
      using d frame by (auto split: if_splits)
    ultimately show thesis
      using ratio_split_numbered [OF r] split_by_ratio_numbered [OF sp] s'
      by (intro that [of sh1 sh2 sh3 u0 sh4 dup_path dups qs u cs]) (simp_all add: MpGetHalfSignal_def)
  qed
qed

text \<open>
  When a frame is split by ratio, the worst path never gets more than half of its packets,
  and every half signal that is active (\<open>k\<close> of them have been received) halves that bound
  again.
\<close>

lemma worst_path_share:
  assumes "ratio_branch now s" "MPTrafficSplitImplementation now ps False s = Some s'"
    "mc_ratio (rs_mp s) = Fin r" "0 \<le> r" "r \<le> 2 ^ 51" "rnd r = r"
    "mc_alpha (rs_mp s) = Fin (2 powi (- int k))" "k \<le> 1074" "length ps < 2 ^ 31"
  shows "\<exists>qs rest. rs_paced s' = rs_paced s @ qs # rest \<and> length qs = length ps \<and>
    2 ^ Suc k * on_path (worst_path (rs_mp s)) qs \<le> length ps"
  using assms(1,2)
proof (rule ratio_branchE)
  fix sh1 sh2 sh3 u0 sh4 dup_path dups qs cs u
  assume h: "ratio_shares (mc_ratio (rs_mp s)) (length ps) = Some sh1"
    "half_shares (mc_alpha (rs_mp s)) (length ps) sh1 = Some sh2"
    "window_cap now (p2_bytes_loop 0 (snd sh2) ps) (length ps) sh2
       (s\<lparr>rs_frame_count := rs_frame_count s + 1\<rparr>) = (sh3, u0)"
    "asymmetry_shares (length ps) sh3 (rs_mp u0) = (sh4, dup_path, dups)"
    and r: "ratio_split 0 (snd sh4) ps u0 = (qs, u)"
    and paced: "rs_paced s' = rs_paced s @ [qs] @ (if cs \<noteq> [] then [cs] else [])"
    and mp: "rs_mp u0 = rs_mp s"
  obtain p1 p2 where p: "sh1 = (p1, p2)" "0 \<le> p2" "p2 \<le> p1" "p1 + p2 = int (length ps)"
    using ratio_shares_bounds [OF assms(4-6,9)] h(1) assms(3) by auto
  have one: "2 powi (- int k) \<le> (1 :: rat)"
    using power_int_increasing [of "- int k" 0 "2 :: rat"] by simp
  obtain q1 q2 where q: "sh2 = (q1, q2)" "0 \<le> q2"
    using half_shares_bounds [OF _ p(2) _ assms(9) p(4), of "mc_alpha (rs_mp s)"] h(2) p assms(7) one by auto
  have "q2 * 2 ^ k \<le> p2"
    using h(2) assms(7,8,9) p q by (intro half_shares_pow2 [of k "length ps" p1 p2 q1]) simp_all
  moreover have "0 \<le> snd sh4 \<and> snd sh4 \<le> q2"
    using window_cap_shares [of now _ "length ps" q1 q2 _ "fst sh3" "snd sh3" u0] h(3) q
      asymmetry_shares_bounds [of "length ps" "fst sh3" "snd sh3" "rs_mp u0" "fst sh4" "snd sh4"] h(4)
    by fastforce
  moreover have "snd sh4 * 2 ^ k \<le> q2 * 2 ^ k" if "snd sh4 \<le> q2"
    using that by (rule mult_right_mono) simp
  ultimately have "snd sh4 * 2 ^ k \<le> p2" "0 \<le> snd sh4" by linarith+
  then have le: "2 ^ Suc k * snd sh4 \<le> int (length ps)" using p by (simp add: mult.commute)
  have "on_path (worst_path (rs_mp s)) qs \<le> nat (snd sh4)"
    using ratio_split_count [OF r] mp by simp
  then have "int (on_path (worst_path (rs_mp s)) qs) \<le> snd sh4" using \<open>0 \<le> snd sh4\<close> by simp
  then have "2 ^ Suc k * int (on_path (worst_path (rs_mp s)) qs) \<le> 2 ^ Suc k * snd sh4"
    by (intro mult_left_mono) simp_all
  then have "2 ^ Suc k * int (on_path (worst_path (rs_mp s)) qs) \<le> int (length ps)"
    using le by (rule order_trans)
  then have "int (2 ^ Suc k * on_path (worst_path (rs_mp s)) qs) \<le> int (length ps)" by simp
  then have "2 ^ Suc k * on_path (worst_path (rs_mp s)) qs \<le> length ps"
    unfolding of_nat_le_iff .
  moreover have "length qs = length ps"
    using ratio_split_numbered [OF r] by (metis length_map)
  ultimately show ?thesis using paced by (intro exI [of _ qs] exI conjI) auto
qed

lemma example_ratio_branch: "ratio_branch 20000 (example_sender (example_mp ''window''))"
  by (simp add: ratio_branch_def MpISsecondPathOpen_def full_on_def MpGetFullSignal_def
      d_true_def d_eq_def)

lemma worst_path_share_witness:
  "\<exists>qs rest. rs_paced (the (MPTrafficSplitImplementation 20000 example_frame False
      (example_sender (example_mp ''window'')))) = qs # rest \<and> on_path 2 qs \<le> 2"
  using worst_path_share [OF example_ratio_branch example_split, of 3 0] rnd_of_int [of 3]
  by (force simp: worst_path_def)

section \<open>The window of the worst path\<close>

definition worst_window :: "mp_collector \<Rightarrow> int" where
  "worst_window m = (if mc_best_pathid m = 2 then mc_primary_wnd m else mc_secondary_wnd m)"

text \<open>At most 115 percent of the window and one more frame of \<open>B\<close> bytes.\<close>

definition worst_bytes_inv :: "int \<Rightarrow> rtp_sender \<Rightarrow> bool" where
  "worst_bytes_inv B s \<longleftrightarrow> rs_worst_path_bytes s \<le> (115 * worst_window (rs_mp s)) sdiv 100 + B"

lemma worst_bytes_inv_cong:
  "rs_worst_path_bytes t = rs_worst_path_bytes s \<Longrightarrow> worst_window (rs_mp t) = worst_window (rs_mp s) \<Longrightarrow>
    worst_bytes_inv B t = worst_bytes_inv B s"
  by (simp add: worst_bytes_inv_def)

lemma for_packets_frame:
  "(\<And>p s. F (snd (f p s)) = F s) \<Longrightarrow> F (snd (for_packets f ps s)) = F s"
  by (induction ps arbitrary: s) (simp_all add: case_prod_beta Let_def)

lemma assigner_frame:
  assumes "f \<in> {to_path1, to_path2, keyframe_packet, copy_packet, red_packet}"
  shows "worst_bytes_inv B (snd (for_packets f ps s)) = worst_bytes_inv B s"
  using assms
  by (intro for_packets_frame worst_bytes_inv_cong)
    (auto simp: keyframe_packet_def copy_packet_def red_packet_def MpSetPayloadType_def worst_window_def
      Let_def split: if_splits)

lemma rr_loop_frame: "worst_bytes_inv B (snd (rr_loop p1 p2 ps s)) = worst_bytes_inv B s"
proof (induction ps arbitrary: p1 p2 s)
  case (Cons p ps)
  have [simp]: "worst_bytes_inv B (count_packet t) = worst_bytes_inv B t"
    "worst_bytes_inv B (snd (rr_primary p t)) = worst_bytes_inv B t"
    "worst_bytes_inv B (snd (to_path2 p t)) = worst_bytes_inv B t" for t
    by (auto intro!: worst_bytes_inv_cong simp: count_packet_def rr_primary_def Let_def)
  show ?case
    by (simp add: Let_def case_prod_beta Cons.IH)
qed simp

lemma p2_bytes_bounds:
  "0 \<le> p2_bytes_loop c p2 ps \<and> p2_bytes_loop c p2 ps \<le> (\<Sum>p \<leftarrow> ps. int (packet_bytes p))"
proof (induction ps arbitrary: c)
  case (Cons p ps)
  have "0 \<le> (\<Sum>p \<leftarrow> ps. int (packet_bytes p))" by (intro sum_list_nonneg) auto
  with Cons.IH [of "c + 1"] show ?case by simp
qed simp

lemma window_cap_inv:
  assumes "window_cap now bytes n sh s = (sh', t)" "worst_bytes_inv B s"
    "mc_best_pathid (rs_mp s) = 1 \<or> mc_best_pathid (rs_mp s) = 2" "0 \<le> worst_window (rs_mp s)" "bytes \<le> B"
  shows "worst_bytes_inv B t"
proof -
  have "0 \<le> (115 * worst_window (rs_mp s)) sdiv 100"
    using assms(4) by (simp add: signed_divide_int_def sgn_if)
  with assms show ?thesis
    by (auto simp: window_cap_def worst_bytes_inv_def window_used_def worst_window_def Let_def
        split: if_splits)
qed



section \<open>The full signal\<close>



section \<open>Round robin\<close>

lemma d_sub_int: "0 < a \<Longrightarrow> a < 2 ^ 32 \<Longrightarrow> d_sub (Fin (of_int a)) (Fin 1) = Fin (of_int (a - 1))"
proof -
  assume a: "0 < a" "a < 2 ^ 32"
  then have "d_of_int (a - 1) = Fin (of_int (a - 1))" by (intro d_of_int_small) simp
  then show ?thesis by (simp add: d_sub_def d_of_int_def)
qed

lemma even_count:
  assumes "uint w + 1 < 4294967296"
  shows "uint (if w < 4294967295 then w + 1 else (1 :: u32)) = uint w + 1"
proof -
  have "w < 4294967295" using assms by (simp add: word_less_def)
  moreover have "uint (w + 1) = uint w + 1" using assms by (simp add: uint_word_ariths)
  ultimately show ?thesis by simp
qed

definition rr_path :: "int \<Rightarrow> nat \<Rightarrow> u8" where
  "rr_path sent i = (if even (sent + int i) then 1 else 2)"

lemma rr_primary_open: "MpISsecondPathOpen (rs_mp s) \<Longrightarrow> rr_primary p s = to_path1 p s"
  by (simp add: rr_primary_def to_path1_def Let_def)

lemma upt_Suc_map: "[0..<Suc n] = 0 # map Suc [0..<n]"
  by (metis map_Suc_upt upt_conv_Cons zero_less_Suc)

lemma rr_loop_alternates:
  assumes "MpISsecondPathOpen (rs_mp s)" "\<not> full_on 1 (rs_mp s)" "\<not> full_on 2 (rs_mp s)"
    "int (length ps) \<le> a" "a < 2 ^ 32" "int (length ps) \<le> b" "b < 2 ^ 32"
    "uint (rs_total_packets_sent s) + int (length ps) < 2 ^ 32"
    "rr_loop (Fin (of_int a)) (Fin (of_int b)) ps s = (qs, t)"
  shows "numbered s qs t \<and> map media_of qs = map media_of ps \<and> rs_paced t = rs_paced s \<and>
    map rp_subflow_id qs = map (rr_path (uint (rs_total_packets_sent s))) [0..<length ps]"
  using assms
proof (induction ps arbitrary: a b s qs)
  case Nil
  then show ?case by (auto simp: numbered_Nil)
next
  case (Cons p ps)
  let ?T = "uint (rs_total_packets_sent s)"
  define f where "f = (if even ?T then to_path1 else to_path2)"
  define a' where "a' = (if even ?T then a - 1 else a)"
  define b' where "b' = (if even ?T then b else b - 1)"
  define u where "u = count_packet (snd (f p s))"
  have f: "numbered s [fst (f p s)] (snd (f p s))" "media_of (fst (f p s)) = media_of p"
    "rs_paced (snd (f p s)) = rs_paced s" "rs_mp (snd (f p s)) = rs_mp s"
    "rp_subflow_id (fst (f p s)) = rr_path ?T 0"
    "rs_total_packets_sent (snd (f p s)) = rs_total_packets_sent s"
    by (simp_all add: f_def to_path_numbered) (simp add: to_path1_def to_path2_def rr_path_def)
  have u: "rs_mp u = rs_mp s" "rs_paced u = rs_paced s" "uint (rs_total_packets_sent u) = ?T + 1"
    using f(3,4,6) Cons.prems(8) even_count [of "rs_total_packets_sent s"]
    by (simp_all add: u_def count_packet_def split: if_splits)
  have n: "numbered s [fst (f p s)] u"
    using f(1) by (rule numbered_cong) (simp_all add: u_def count_packet_def)
  have pos: "0 < a" "0 < b" using Cons.prems(4,6) by simp_all
  have d: "d_sub (Fin (of_int a)) (Fin 1) = Fin (of_int (a - 1))"
    "d_sub (Fin (of_int b)) (Fin 1) = Fin (of_int (b - 1))"
    using d_sub_int pos Cons.prems(5,7) by blast+
  obtain rs where rs: "rr_loop (Fin (of_int a')) (Fin (of_int b')) ps u = (rs, t)"
    and qs: "qs = fst (f p s) # rs"
    using Cons.prems(1-3,9) pos
    by (cases "rr_loop (Fin (of_int a')) (Fin (of_int b')) ps u")
      (auto simp: f_def a'_def b'_def u_def d rr_primary_open d_true_def d_eq_def Let_def case_prod_beta
        simp del: of_int_diff split: if_splits)
  have ih: "numbered u rs t \<and> map media_of rs = map media_of ps \<and> rs_paced t = rs_paced u \<and>
      map rp_subflow_id rs = map (rr_path (uint (rs_total_packets_sent u))) [0..<length ps]"
    by (rule Cons.IH [OF _ _ _ _ _ _ _ _ rs]) (use Cons.prems u pos in \<open>auto simp: a'_def b'_def\<close>)
  have "map (rr_path (?T + 1)) [0..<length ps] = map (rr_path ?T \<circ> Suc) [0..<length ps]"
    by (simp add: rr_path_def)
  with ih numbered_append [OF n, of rs t] f u show ?case
    by (simp add: qs upt_Suc_map del: upt_Suc)
qed

lemma traffic_split_rr:
  assumes "\<not> MpISsecondPathOpen (rs_mp s) \<or>
      \<not> str_find ''window'' (mc_scheduler (rs_mp s)) \<and> \<not> str_find ''red'' (mc_scheduler (rs_mp s))"
    "rr_shares (rs_mp s) (length ps) = (p1, p2)"
  obtains s1 qs t where "MPTrafficSplitImplementation now ps keyframe s =
      Some (t\<lparr>rs_paced := rs_paced t @ [qs]\<rparr>)" "rr_loop p1 p2 ps s1 = (qs, t)"
    "rs_mp s1 = rs_mp s" "rs_paced s1 = rs_paced s" "rs_total_packets_sent s1 = rs_total_packets_sent s"
    "rs_sequence_number_p s1 = rs_sequence_number_p s" "rs_sequence_number_s s1 = rs_sequence_number_s s"
proof -
  define s1 where "s1 = (let s = s\<lparr>rs_frame_count := rs_frame_count s + 1\<rparr> in
    if rs_sandy_mp_start_time s = 0 then s\<lparr>rs_sandy_mp_start_time := now\<rparr> else s)"
  obtain qs t where "rr_loop p1 p2 ps s1 = (qs, t)" by fastforce
  moreover from this have "MPTrafficSplitImplementation now ps keyframe s =
      Some (t\<lparr>rs_paced := rs_paced t @ [qs]\<rparr>)"
    using assms by (auto simp: MPTrafficSplitImplementation_def s1_def Let_def)
  ultimately show thesis by (intro that [of t qs s1]) (simp_all add: s1_def Let_def)
qed

text \<open>
  With both paths open and no signal active, the round robin scheduler puts the packets
  of a frame alternately on path 1 and 2, continuing from the parity of the number of packets
  sent before, keeps them unchanged and in order, and numbers each path without a gap.
\<close>

lemma round_robin_alternates:
  assumes "MpISsecondPathOpen (rs_mp s)" "\<not> str_find ''window'' (mc_scheduler (rs_mp s))"
    "\<not> str_find ''red'' (mc_scheduler (rs_mp s))" "mc_alpha (rs_mp s) = Fin 1" "mc_beta (rs_mp s) = Fin 0"
    "uint (rs_total_packets_sent s) + int (length ps) < 2 ^ 32"
  shows "\<exists>s' qs. MPTrafficSplitImplementation now ps keyframe s = Some s' \<and>
    rs_paced s' = rs_paced s @ [qs] \<and> map media_of qs = map media_of ps \<and> numbered s qs s' \<and>
    map rp_subflow_id qs = map (rr_path (uint (rs_total_packets_sent s))) [0..<length ps]"
proof -
  let ?n = "int (length ps)"
  have n: "?n < 2 ^ 32" using assms(6) uint_ge_0 [of "rs_total_packets_sent s"] by linarith
  have "d_of_int ?n = Fin (of_int ?n)" using n by (intro d_of_int_small) simp
  then have sh: "rr_shares (rs_mp s) (length ps) = (Fin (of_int ?n), Fin (of_int ?n))"
    using assms(4) by (simp add: rr_shares_def MpGetHalfSignal_def)
  obtain s1 qs t where r: "MPTrafficSplitImplementation now ps keyframe s =
      Some (t\<lparr>rs_paced := rs_paced t @ [qs]\<rparr>)" "rr_loop (Fin (of_int ?n)) (Fin (of_int ?n)) ps s1 = (qs, t)"
    "rs_mp s1 = rs_mp s" "rs_paced s1 = rs_paced s" "rs_total_packets_sent s1 = rs_total_packets_sent s"
    "rs_sequence_number_p s1 = rs_sequence_number_p s" "rs_sequence_number_s s1 = rs_sequence_number_s s"
    using traffic_split_rr [OF _ sh] assms(2,3) by metis
  have full: "\<not> full_on i (rs_mp s1)" for i
    using assms(5) r(3) by (simp add: full_on_def MpGetFullSignal_def d_true_def d_eq_def)
  from rr_loop_alternates [OF _ full full _ n _ n _ r(2)] assms(1,6) r
  have "numbered s1 qs t \<and> map media_of qs = map media_of ps \<and> rs_paced t = rs_paced s1 \<and>
    map rp_subflow_id qs = map (rr_path (uint (rs_total_packets_sent s))) [0..<length ps]" by simp
  moreover from this r have "numbered s qs (t\<lparr>rs_paced := rs_paced t @ [qs]\<rparr>)"
    by (auto elim!: numbered_cong)
  ultimately show ?thesis using r(1,4) by auto
qed

lemma round_robin_alternates_witness:
  "\<exists>s' qs. MPTrafficSplitImplementation 20000 example_frame False (example_sender (example_mp ''rr'')) = Some s' \<and>
    rs_paced s' = [qs] \<and> map rp_subflow_id qs = map (rr_path 0) [0..<5]"
  using round_robin_alternates [of "example_sender (example_mp ''rr'')" example_frame 20000 False]
  by (auto simp: MpISsecondPathOpen_def)

lemma rr_loop_closed:
  assumes "\<not> MpISsecondPathOpen (rs_mp s)" "0 \<le> a" "a < 2 ^ 32"
    "rr_loop (Fin (of_int a)) p2 ps s = (qs, t)"
  shows "length qs = length ps \<and> drop (nat a) qs = drop (nat a) ps \<and> rs_paced t = rs_paced s"
  using assms
proof (induction ps arbitrary: a s qs)
  case Nil
  then show ?case by auto
next
  case (Cons p ps)
  have closed: "\<not> full_on i (rs_mp s)" for i using Cons.prems(1) by (simp add: full_on_def)
  show ?case
  proof (cases "0 < a")
    case True
    let ?s = "count_packet (snd (rr_primary p s))"
    have s: "\<not> MpISsecondPathOpen (rs_mp ?s)" "rs_paced ?s = rs_paced s"
      using Cons.prems(1) by (simp_all add: count_packet_def rr_primary_def Let_def)
    obtain rs where rs: "rr_loop (Fin (of_int (a - 1))) p2 ps ?s = (rs, t)"
      and qs: "qs = fst (rr_primary p s) # rs"
      using Cons.prems(1,4) True closed d_sub_int [OF True Cons.prems(3)]
      by (cases "rr_loop (Fin (of_int (a - 1))) p2 ps ?s") (auto simp: Let_def case_prod_beta)
    from Cons.IH [OF s(1) _ _ rs] True Cons.prems(3) s(2)
    have "length rs = length ps \<and> drop (nat (a - 1)) rs = drop (nat (a - 1)) ps \<and> rs_paced t = rs_paced s" by simp
    moreover have "nat a = Suc (nat (a - 1))" using True by simp
    ultimately show ?thesis by (simp add: qs)
  next
    case False
    with Cons.prems(2) have a: "a = 0" by simp
    have s: "\<not> MpISsecondPathOpen (rs_mp (count_packet s))" "rs_paced (count_packet s) = rs_paced s"
      using Cons.prems(1) by (simp_all add: count_packet_def)
    obtain rs where rs: "rr_loop (Fin (of_int 0)) p2 ps (count_packet s) = (rs, t)" and qs: "qs = p # rs"
      using Cons.prems(1,4) a
      by (cases "rr_loop (Fin (of_int 0)) p2 ps (count_packet s)") (auto simp: Let_def case_prod_beta)
    from Cons.IH [OF s(1) _ _ rs] show ?thesis by (simp add: qs a s(2))
  qed
qed

text \<open>
  C38: when the second path is closed while a half signal on path 2 is still active, the last
  packet of every frame is handed to the pacer without a path: its \<open>subflow_id\<close> stays what it
  was, the value 0 that means "not set".
\<close>

theorem closed_path_leaves_packet_unassigned:
  assumes "\<not> MpISsecondPathOpen (rs_mp s)" "mc_alpha (rs_mp s) = Fin a" "0 \<le> a" "a < 1"
    "mc_half_pathid (rs_mp s) = 2" "ps \<noteq> []" "length ps < 2 ^ 31"
  shows "\<exists>s' qs. MPTrafficSplitImplementation now ps keyframe s = Some s' \<and>
    rs_paced s' = rs_paced s @ [qs] \<and> length qs = length ps \<and> last qs = last ps"
proof -
  let ?n = "int (length ps)"
  have nd: "d_of_int ?n = Fin (of_int ?n)" using assms(7) by (intro d_of_int_small) simp
  have ra: "rr_alpha = Fin 0" using one_half_eq by (simp add: rr_alpha_def one_half_def)
  have "d_mul rr_alpha (Fin a) = Fin 0" "d_mul (d_of_int ?n) (Fin 0) = Fin 0"
    unfolding ra nd by (simp_all add: dround_small)
  moreover have "d_sub (Fin (of_int ?n)) (Fin 1) = Fin (of_int (?n - 1))"
    using d_sub_int [of ?n] assms(6,7) by simp
  ultimately have sh: "rr_shares (rs_mp s) (length ps) = (Fin (of_int (?n - 1)), Fin 1)"
    using assms(2,4,5) by (simp add: rr_shares_def MpGetHalfSignal_def Let_def nd del: d_mul.simps)
  obtain s1 qs t where r: "MPTrafficSplitImplementation now ps keyframe s =
      Some (t\<lparr>rs_paced := rs_paced t @ [qs]\<rparr>)" "rr_loop (Fin (of_int (?n - 1))) (Fin 1) ps s1 = (qs, t)"
    "rs_mp s1 = rs_mp s" "rs_paced s1 = rs_paced s"
    using traffic_split_rr [OF _ sh] assms(1) by metis
  have "length qs = length ps \<and> drop (nat (?n - 1)) qs = drop (nat (?n - 1)) ps \<and> rs_paced t = rs_paced s1"
    by (rule rr_loop_closed [OF _ _ _ r(2)]) (use assms(1,6,7) r(3) in \<open>simp_all add: Suc_le_eq\<close>)
  moreover have "nat (?n - 1) = length ps - 1" by simp
  moreover have "last qs = last (drop (length ps - 1) qs)" "last ps = last (drop (length ps - 1) ps)"
    if "length qs = length ps" using that assms(6) by (simp_all add: last_drop)
  ultimately show ?thesis using r(1,4) by auto
qed

theorem closed_path_leaves_packet_unassigned_witness:
  "\<exists>s' qs. MPTrafficSplitImplementation 20000 example_frame False
      (example_sender ((example_mp ''window'')\<lparr>mc_second_path := 0, mc_alpha := Fin (1 / 2), mc_half_pathid := 2\<rparr>)) =
        Some s' \<and> rs_paced s' = [qs] \<and> rp_subflow_id (last qs) = 0"
  using closed_path_leaves_packet_unassigned
      [of "example_sender ((example_mp ''window'')\<lparr>mc_second_path := 0, mc_alpha := Fin (1 / 2), mc_half_pathid := 2\<rparr>)"
        "1 / 2" example_frame 20000 False]
  by (auto simp: MpISsecondPathOpen_def)

text \<open>
  With the second path closed, a packet whose RTP sequence number differs from the path
  counter takes its RTP sequence number as path sequence number, and the counter is set to
  that same number instead of the next one: the first packet on path 1 after the second path
  opens repeats a path sequence number.
\<close>

lemma closed_path_repeats_number:
  assumes "\<not> MpISsecondPathOpen (rs_mp s)" "mc_alpha (rs_mp s) = Fin 1"
    "rs_sequence_number_p s \<noteq> rp_sequence_number p" "rp_sequence_number p > 0"
  shows "\<exists>s' q. MPTrafficSplitImplementation now [p] keyframe s = Some s' \<and>
    rs_paced s' = rs_paced s @ [[q]] \<and> rp_subflow_id q = 1 \<and> rp_subflow_seq q = rp_sequence_number p \<and>
    rp_subflow_seq (fst (to_path1 p' s')) = rp_subflow_seq q"
proof -
  have "d_of_int 1 = Fin 1" using d_of_int_small [of 1] by simp
  then have sh: "rr_shares (rs_mp s) (length [p]) = (Fin 1, Fin 1)"
    using assms(2) by (simp add: rr_shares_def MpGetHalfSignal_def)
  obtain s1 qs t where r: "MPTrafficSplitImplementation now [p] keyframe s =
      Some (t\<lparr>rs_paced := rs_paced t @ [qs]\<rparr>)" "rr_loop (Fin 1) (Fin 1) [p] s1 = (qs, t)"
    "rs_mp s1 = rs_mp s" "rs_paced s1 = rs_paced s" "rs_sequence_number_p s1 = rs_sequence_number_p s"
    using traffic_split_rr [OF _ sh] assms(1) by metis
  from r(2) have "qs = [fst (rr_primary p s1)]" "t = count_packet (snd (rr_primary p s1))"
    using assms(1) r(3) by (auto simp: full_on_def Let_def case_prod_beta)
  then show ?thesis
    using assms(1,3,4) r
    by (auto simp: rr_primary_def count_packet_def to_path1_def Let_def)
qed

end
