(* ===== verification/NetworkTypes.thy ===== *)
theory NetworkTypes
  imports Binary64 "HOL-Library.Signed_Division"
begin

text \<open>
  The values the congestion controllers and the transport controller exchange: the units of
  \<open>rtc_base/units/unit_base.h\<close> (a rate in bits per second, a size in bytes, a time in
  microseconds, each an \<open>int64_t\<close> whose largest and smallest values mean infinity), the
  structures of \<open>api/transport/network_types.h\<close>, and \<open>CongestionControlHandler\<close>
  (\<open>modules/congestion_controller/rtp/control_handler.cc\<close>), which decides when a new target
  rate is reported. The result \<open>None\<close> is undefined behaviour: a signed overflow or a division
  by zero. A \<open>float\<close> is one of the values of \<open>double\<close>.
\<close>

section \<open>Units\<close>

definition PlusInfinityVal :: int where
  "PlusInfinityVal = 2 ^ 63 - 1"

definition MinusInfinityVal :: int where
  "MinusInfinityVal = - (2 ^ 63)"

definition is_int64 :: "int \<Rightarrow> bool" where
  "is_int64 x \<longleftrightarrow> - (2 ^ 63) \<le> x \<and> x < 2 ^ 63"

definition int64 :: "int \<Rightarrow> int option" where
  "int64 x = (if is_int64 x then Some x else None)"

definition IsFinite :: "int \<Rightarrow> bool" where
  "IsFinite x \<longleftrightarrow> x \<noteq> PlusInfinityVal \<and> x \<noteq> MinusInfinityVal"

definition unit_plus :: "int \<Rightarrow> int \<Rightarrow> int option" where
  "unit_plus a b =
     (if a = PlusInfinityVal \<or> b = PlusInfinityVal then Some PlusInfinityVal
      else if a = MinusInfinityVal \<or> b = MinusInfinityVal then Some MinusInfinityVal
      else int64 (a + b))"

definition unit_times :: "int \<Rightarrow> int \<Rightarrow> int option" where
  "unit_times a k = int64 (a * k)"

text \<open>\<open>DivRoundToNearest\<close> and \<open>TimeDelta::ms\<close>.\<close>

definition DivRoundToNearest :: "int \<Rightarrow> int \<Rightarrow> int option" where
  "DivRoundToNearest n d =
     do { m \<leftarrow> int64 (n + (if n \<ge> 0 then d sdiv 2 else - d sdiv 2));
          Some (m sdiv d) }"

definition TimeDelta_ms :: "int \<Rightarrow> int option" where
  "TimeDelta_ms us = DivRoundToNearest us 1000"

text \<open>\<open>DataSize / TimeDelta\<close>: a rate in bits per second.\<close>

definition Microbits :: "int \<Rightarrow> int option" where
  "Microbits sz = int64 (sz * 8000000)"

definition size_per_time :: "int \<Rightarrow> int \<Rightarrow> int option" where
  "size_per_time sz duration =
     do { bits \<leftarrow> Microbits sz;
          if duration = 0 then None else int64 (bits sdiv duration) }"

text \<open>Conversion of a \<open>double\<close> to a 64-bit \<open>long\<close>, and \<open>std::min\<close>.\<close>

fun d_to_long :: "double \<Rightarrow> int option" where
  "d_to_long (Fin x) = int64 (trunc_rat x)"
| "d_to_long _ = None"

definition d_min :: "double \<Rightarrow> double \<Rightarrow> double" where
  "d_min a b = (if d_lt b a then b else a)"

section \<open>Messages of the network controllers\<close>

record NetworkEstimate =
  ne_at_time :: int
  ne_bandwidth :: int
  ne_round_trip_time :: int
  ne_bwe_period :: int
  ne_loss_rate_ratio :: double

record PacerConfig =
  pc_at_time :: int
  pc_data_window :: int
  pc_time_window :: int
  pc_pad_window :: int

definition data_rate :: "PacerConfig \<Rightarrow> int option" where
  "data_rate p = size_per_time (pc_data_window p) (pc_time_window p)"

definition pad_rate :: "PacerConfig \<Rightarrow> int option" where
  "pad_rate p = size_per_time (pc_pad_window p) (pc_time_window p)"

record ProbeClusterConfig =
  pr_at_time :: int
  pr_target_data_rate :: int
  pr_target_duration :: int
  pr_target_probe_count :: int
  pr_id :: int

record TargetTransferRate =
  tr_at_time :: int
  tr_network_estimate :: NetworkEstimate
  tr_network_estimate_second :: NetworkEstimate
  tr_target_rate :: int
  tr_target_rate_second :: int
  tr_stable_target_rate :: int
  tr_stable_target_rate_second :: int
  tr_cwnd_reduce_ratio :: double
  tr_cwnd_reduce_ratio_second :: double

record NetworkControlUpdate =
  nu_congestion_window :: "int option"
  nu_congestion_window_second :: "int option"
  nu_pacer_config :: "PacerConfig option"
  nu_probe_cluster_configs :: "ProbeClusterConfig list"
  nu_probe_cluster_configs_second :: "ProbeClusterConfig list"
  nu_target_rate :: "TargetTransferRate option"
  nu_target_rate_second :: "TargetTransferRate option"

definition no_update :: NetworkControlUpdate where
  "no_update = \<lparr>nu_congestion_window = None, nu_congestion_window_second = None,
     nu_pacer_config = None, nu_probe_cluster_configs = [], nu_probe_cluster_configs_second = [],
     nu_target_rate = None, nu_target_rate_second = None\<rparr>"

record TransportLossReport =
  lr_receive_time :: int
  lr_start_time :: int
  lr_end_time :: int
  lr_packets_lost_delta :: int
  lr_packets_received_delta :: int
  lr_pathid :: int

section \<open>The control handler\<close>

record control_handler =
  ch_last_incoming :: "TargetTransferRate option"
  ch_last_reported :: "TargetTransferRate option"
  ch_network_available :: bool
  ch_encoder_paused_in_last_report :: bool
  ch_disable_pacer_emergency_stop :: bool
  ch_pacer_expected_queue_ms :: int

definition handler_init :: "bool \<Rightarrow> control_handler" where
  "handler_init disable_stop = \<lparr>ch_last_incoming = None, ch_last_reported = None,
     ch_network_available = True, ch_encoder_paused_in_last_report = False,
     ch_disable_pacer_emergency_stop = disable_stop, ch_pacer_expected_queue_ms = 0\<rparr>"

text \<open>A target rate without a finite time stamp fails an \<open>RTC_CHECK\<close>, which aborts.\<close>

definition SetTargetRate :: "TargetTransferRate \<Rightarrow> control_handler \<Rightarrow> control_handler option" where
  "SetTargetRate r h = (if IsFinite (tr_at_time r) then Some (h\<lparr>ch_last_incoming := Some r\<rparr>) else None)"

definition SetNetworkAvailability :: "bool \<Rightarrow> control_handler \<Rightarrow> control_handler" where
  "SetNetworkAvailability a h = h\<lparr>ch_network_available := a\<rparr>"

definition SetPacerQueue :: "int \<Rightarrow> control_handler \<Rightarrow> control_handler option" where
  "SetPacerQueue expected_queue_time h =
     do { ms \<leftarrow> TimeDelta_ms expected_queue_time;
          Some (h\<lparr>ch_pacer_expected_queue_ms := ms\<rparr>) }"

definition kMaxQueueLengthMs :: int where
  "kMaxQueueLengthMs = 2000"

definition pause_encoding :: "control_handler \<Rightarrow> bool" where
  "pause_encoding h \<longleftrightarrow>
     \<not> ch_network_available h \<or>
     (\<not> ch_disable_pacer_emergency_stop h \<and> ch_pacer_expected_queue_ms h > kMaxQueueLengthMs)"

definition GetUpdate :: "control_handler \<Rightarrow> TargetTransferRate option \<times> control_handler" where
  "GetUpdate h =
     (case ch_last_incoming h of
        None \<Rightarrow> (None, h)
      | Some incoming \<Rightarrow>
          let pause = pause_encoding h;
              new_outgoing = (if pause then incoming\<lparr>tr_target_rate := 0\<rparr> else incoming)
          in if (case ch_last_reported h of
                   None \<Rightarrow> True
                 | Some r \<Rightarrow>
                     tr_target_rate r \<noteq> tr_target_rate new_outgoing \<or>
                     (tr_target_rate new_outgoing \<noteq> 0 \<and>
                      (\<not> d_eq (ne_loss_rate_ratio (tr_network_estimate r))
                              (ne_loss_rate_ratio (tr_network_estimate new_outgoing)) \<or>
                       ne_round_trip_time (tr_network_estimate r) \<noteq>
                       ne_round_trip_time (tr_network_estimate new_outgoing))))
             then (Some new_outgoing,
                   h\<lparr>ch_encoder_paused_in_last_report := pause, ch_last_reported := Some new_outgoing\<rparr>)
             else (None, h))"

end
