(* ===== verification/PathControl.thy ===== *)
theory PathControl
  imports TrafficSplit NetworkTypes
begin

text \<open>
  The part of \<open>RtpTransportControllerSend\<close> (\<open>call/rtp_transport_controller_send.cc\<close>) that drives
  two congestion controllers, one per path: \<open>MpFindBestPath\<close> and \<open>MpFindRatio\<close> publish the
  better path and the ratio of the rates the scheduler splits by, \<open>PostUpdates\<close> merges the
  updates of the two controllers into one target rate and one pacer configuration, and the
  receiver report blocks of each path become loss reports of its controller. What goes to
  the pacer and to the observer is an event; a controller is an argument, the function from
  its message to its answer. The result \<open>None\<close> is undefined behaviour (an empty \<open>optional\<close> is
  dereferenced, an integer overflows or is divided by zero) or a failed \<open>RTC_CHECK\<close>. Logging
  is not modelled.
\<close>

section \<open>State\<close>

datatype control_event =
  SetCongestionWindow int
| SetPacingRates int int
| CreateProbeCluster int int
| SetMaxRate int
| OnTargetTransferRate TargetTransferRate

record RTCPReportBlock =
  lb_source_ssrc :: u32
  lb_packets_lost :: int
  lb_extended_highest_sequence_number :: u32

record path_control =
  ct_mp :: mp_collector
  ct_handler :: control_handler
  ct_pp_congestion_window :: "int option"
  ct_sp_congestion_window :: "int option"
  ct_pp_pacer_config :: "PacerConfig option"
  ct_sp_pacer_config :: "PacerConfig option"
  ct_pp_target_rate :: "TargetTransferRate option"
  ct_sp_target_rate :: "TargetTransferRate option"
  ct_last_report_blocks :: "u32 \<rightharpoonup> RTCPReportBlock"
  ct_last_report_blocks_s :: "u32 \<rightharpoonup> RTCPReportBlock"
  ct_last_report_block_time :: int
  ct_last_report_block_time_s :: int
  ct_events :: "control_event list"

definition path_control_init :: "mp_collector \<Rightarrow> control_handler \<Rightarrow> int \<Rightarrow> path_control" where
  "path_control_init m h now = \<lparr>ct_mp = m, ct_handler = h,
     ct_pp_congestion_window = None, ct_sp_congestion_window = None,
     ct_pp_pacer_config = None, ct_sp_pacer_config = None,
     ct_pp_target_rate = None, ct_sp_target_rate = None,
     ct_last_report_blocks = (\<lambda>_. None), ct_last_report_blocks_s = (\<lambda>_. None),
     ct_last_report_block_time = now, ct_last_report_block_time_s = now, ct_events = []\<rparr>"

definition raise_event :: "control_event \<Rightarrow> path_control \<Rightarrow> path_control" where
  "raise_event e c = c\<lparr>ct_events := ct_events c @ [e]\<rparr>"

definition UpdateControlState :: "path_control \<Rightarrow> path_control" where
  "UpdateControlState c =
     (let (update, h) = GetUpdate (ct_handler c); c = c\<lparr>ct_handler := h\<rparr>
      in case update of
           None \<Rightarrow> c
         | Some u \<Rightarrow> raise_event (OnTargetTransferRate u) (raise_event (SetMaxRate (tr_target_rate u)) c))"

section \<open>Best path and ratio\<close>

text \<open>The constants \<open>0.75\<close> and \<open>0.1\<close>; the first is a \<open>double\<close>, the second is rounded to one.\<close>

definition three_quarters :: double where
  "three_quarters = Fin (3 / 4)"

definition one_tenth :: double where
  "one_tenth = dround (1 / 10)"

text \<open>Half of the RTT, an integer division, plus the time of one bit at the rate.\<close>

definition completion_time :: "int \<Rightarrow> double \<Rightarrow> double" where
  "completion_time rtt rate = d_add (d_div (Fin 1) rate) (d_of_int (rtt sdiv 2))"

definition far_apart :: "double \<Rightarrow> double \<Rightarrow> bool" where
  "far_apart rate1 rate2 =
     d_le (d_mul three_quarters (d_max rate1 rate2)) (d_abs (d_sub rate1 rate2))"

definition prefer_rate :: "int \<Rightarrow> int \<Rightarrow> double \<Rightarrow> double \<Rightarrow> double \<Rightarrow> double \<Rightarrow> bool" where
  "prefer_rate rtt1 rtt2 loss1 loss2 rate1 rate2 \<longleftrightarrow>
     (far_apart rate1 rate2 \<and> \<bar>rtt1 - rtt2\<bar> < 25) \<or>
     (far_apart rate1 rate2 \<and> d_lt loss1 one_tenth \<and> d_lt loss2 one_tenth \<and> \<bar>rtt1 - rtt2\<bar> < 25) \<or>
     (far_apart rate1 rate2 \<and> d_le loss1 (Fin 0) \<and> d_le loss2 (Fin 0) \<and> \<bar>rtt1 - rtt2\<bar> < 50)"

text \<open>
  The half signal of a path is cleared once its RTT is at most a quarter of the RTT the signal
  came at. The source then looks at the loss, but both branches clear the signal.
\<close>

definition clear_half :: "int \<Rightarrow> int \<Rightarrow> mp_collector \<Rightarrow> mp_collector" where
  "clear_half rtt1 rtt2 m =
     (if rtt1 > 0 \<and> d_lt (MpGetHalfSignal m) (Fin 1) \<and> mc_half_pathid m = 1 \<and>
         rtt1 \<le> mc_half_rtt m sdiv 4
      then MpClearHalfSignal m
      else if rtt2 > 0 \<and> d_lt (MpGetHalfSignal m) (Fin 1) \<and> mc_half_pathid m = 2 \<and>
         rtt2 \<le> mc_half_rtt m sdiv 4
      then MpClearHalfSignal m
      else m)"

definition publish_paths ::
  "int \<Rightarrow> int \<Rightarrow> double \<Rightarrow> double \<Rightarrow> double \<Rightarrow> double \<Rightarrow> mp_collector \<Rightarrow> mp_collector" where
  "publish_paths rtt1 rtt2 loss1 loss2 rate1 rate2 m =
     MpSetSendingRate2 rate2 (MpSetSendingRate1 rate1 (MpSetLoss2 loss2 (MpSetLoss1 loss1
       (MpSetRTT2 (c_int rtt2) (MpSetRTT1 (c_int rtt1) m)))))"

definition MpFindBestPath ::
  "int \<Rightarrow> int \<Rightarrow> double \<Rightarrow> double \<Rightarrow> double \<Rightarrow> double \<Rightarrow> mp_collector \<Rightarrow> int \<times> mp_collector" where
  "MpFindBestPath rtt1 rtt2 loss1 loss2 rate1 rate2 m =
     (let m = publish_paths rtt1 rtt2 loss1 loss2 rate1 rate2 m
      in if rtt1 = 0 \<and> rtt2 = 0 then (1, m)
         else
           let rate1 = d_div rate1 (Fin 1000);
               rate2 = d_div rate2 (Fin 1000);
               P1time = completion_time rtt1 rate1;
               P2time = completion_time rtt2 rate2;
               m = MpSetLossBasedPathId 0 m;
               bestpath = (if d_le P1time P2time then 1 else 2);
               bestpath = (if prefer_rate rtt1 rtt2 loss1 loss2 rate1 rate2
                           then if d_lt rate2 rate1 then 1 else 2 else bestpath)
           in (bestpath, clear_half rtt1 rtt2 m))"

definition MpFindRatio :: "int \<Rightarrow> int \<Rightarrow> int \<Rightarrow> int \<Rightarrow> int \<Rightarrow> mp_collector \<Rightarrow> mp_collector" where
  "MpFindRatio rtt1 rtt2 rate1 rate2 pathid m =
     (let mpratio = (if pathid = 1 then d_div (d_of_int rate1) (d_of_int rate2)
                     else d_div (d_of_int rate2) (d_of_int rate1));
          mpratio = (if rtt1 = 0 \<and> rtt2 = 0 then Fin 0 else mpratio)
      in MpSetRatio mpratio m)"

section \<open>Merging the updates of the two controllers\<close>

text \<open>The blocks for a single path: the redundant scheduler, a closed second path, a full signal.\<close>

definition post_probes :: "(int \<Rightarrow> int option) \<Rightarrow> ProbeClusterConfig list \<Rightarrow> path_control \<Rightarrow> path_control option" where
  "post_probes scale probes c =
     foldl (\<lambda>c p. do { c \<leftarrow> c; r \<leftarrow> scale (pr_target_data_rate p);
                       Some (raise_event (CreateProbeCluster r (pr_id p)) c) }) (Some c) probes"

definition post_target :: "TargetTransferRate \<Rightarrow> path_control \<Rightarrow> path_control option" where
  "post_target r c =
     do { h \<leftarrow> SetTargetRate r (ct_handler c);
          Some (UpdateControlState (c\<lparr>ct_handler := h\<rparr>)) }"

definition post_primary :: "NetworkControlUpdate \<Rightarrow> path_control \<Rightarrow> path_control option" where
  "post_primary update c =
     do { let c = (case nu_congestion_window update of
                     None \<Rightarrow> c
                   | Some w \<Rightarrow> raise_event (SetCongestionWindow w) (c\<lparr>ct_pp_congestion_window := Some w\<rparr>));
          c \<leftarrow> (case nu_pacer_config update of
                  None \<Rightarrow> Some c
                | Some p \<Rightarrow> do { d \<leftarrow> data_rate p; q \<leftarrow> pad_rate p;
                               Some ((raise_event (SetPacingRates d q) c)\<lparr>ct_pp_pacer_config := Some p\<rparr>) });
          c \<leftarrow> post_probes Some (nu_probe_cluster_configs update) c;
          (case nu_target_rate update of
             None \<Rightarrow> Some c
           | Some r \<Rightarrow> do { c \<leftarrow> post_target r c; Some (c\<lparr>ct_pp_target_rate := Some r\<rparr>) }) }"

definition post_secondary :: "NetworkControlUpdate \<Rightarrow> path_control \<Rightarrow> path_control option" where
  "post_secondary update2 c =
     do { let c = (case nu_congestion_window update2 of
                     None \<Rightarrow> c
                   | Some w \<Rightarrow> raise_event (SetCongestionWindow w) (c\<lparr>ct_sp_congestion_window := Some w\<rparr>));
          c \<leftarrow> (case nu_pacer_config update2 of
                  None \<Rightarrow> Some c
                | Some p \<Rightarrow> do { d \<leftarrow> data_rate p; q \<leftarrow> pad_rate p;
                               Some ((raise_event (SetPacingRates d q) c)\<lparr>ct_sp_pacer_config := Some p\<rparr>) });
          c \<leftarrow> post_probes Some (nu_probe_cluster_configs update2) c;
          (case nu_target_rate update2 of
             None \<Rightarrow> Some c
           | Some r \<Rightarrow> do { c \<leftarrow> post_target r c; Some (c\<lparr>ct_sp_target_rate := Some r\<rparr>) }) }"

text \<open>The blocks for two paths, in the order of the source.\<close>

definition post_window :: "NetworkControlUpdate \<Rightarrow> NetworkControlUpdate \<Rightarrow> path_control \<Rightarrow> path_control option" where
  "post_window update update2 c =
     (case (nu_congestion_window update, nu_congestion_window update2) of
        (Some w1, Some w2) \<Rightarrow>
          do { w \<leftarrow> unit_plus w1 w2;
               Some (raise_event (SetCongestionWindow w)
                 (c\<lparr>ct_sp_congestion_window := Some w2, ct_pp_congestion_window := Some w1\<rparr>)) }
      | (None, Some w2) \<Rightarrow>
          do { let c = c\<lparr>ct_sp_congestion_window := Some w2\<rparr>;
               w1 \<leftarrow> ct_pp_congestion_window c;
               w \<leftarrow> unit_plus w1 w2;
               Some (raise_event (SetCongestionWindow w) c) }
      | (Some w1, None) \<Rightarrow>
          do { let c = c\<lparr>ct_pp_congestion_window := Some w1\<rparr>;
               w2 \<leftarrow> ct_sp_congestion_window c;
               w \<leftarrow> unit_plus w1 w2;
               Some (raise_event (SetCongestionWindow w) c) }
      | (None, None) \<Rightarrow> Some c)"

text \<open>\<open>SetPacingRates\<close> with the sums of two configurations.\<close>

definition pacing_sum :: "PacerConfig \<Rightarrow> PacerConfig \<Rightarrow> path_control \<Rightarrow> path_control option" where
  "pacing_sum p1 p2 c =
     do { d1 \<leftarrow> data_rate p1; d2 \<leftarrow> data_rate p2; d \<leftarrow> unit_plus d1 d2;
          q1 \<leftarrow> pad_rate p1; q2 \<leftarrow> pad_rate p2; q \<leftarrow> unit_plus q1 q2;
          Some (raise_event (SetPacingRates d q) c) }"

definition window_of :: "PacerConfig \<Rightarrow> int option" where
  "window_of p = d_to_long (d_div (d_of_int (pc_data_window p)) (Fin (5 / 2)))"

definition set_primary_window :: "PacerConfig \<Rightarrow> path_control \<Rightarrow> path_control option" where
  "set_primary_window p c =
     do { w \<leftarrow> window_of p; Some (c\<lparr>ct_mp := MpSetPrimaryWindow w (ct_mp c)\<rparr>) }"

definition set_secondary_window :: "PacerConfig \<Rightarrow> path_control \<Rightarrow> path_control option" where
  "set_secondary_window p c =
     do { w \<leftarrow> window_of p; Some (c\<lparr>ct_mp := MpSetSecondaryWindow w (ct_mp c)\<rparr>) }"

definition post_pacing :: "NetworkControlUpdate \<Rightarrow> NetworkControlUpdate \<Rightarrow> path_control \<Rightarrow> path_control option" where
  "post_pacing update update2 c =
     (case (nu_pacer_config update, nu_pacer_config update2) of
        (Some p1, Some p2) \<Rightarrow>
          do { let c = c\<lparr>ct_pp_pacer_config := Some p1, ct_sp_pacer_config := Some p2\<rparr>;
               c \<leftarrow> pacing_sum p1 p2 c;
               c \<leftarrow> set_primary_window p1 c;
               set_secondary_window p2 c }
      | (None, Some p2) \<Rightarrow>
          (let c = c\<lparr>ct_sp_pacer_config := Some p2\<rparr>
           in case ct_pp_pacer_config c of
                Some p1 \<Rightarrow> do { c \<leftarrow> set_secondary_window p2 c; pacing_sum p1 p2 c }
              | None \<Rightarrow> pacing_sum p2 p2 c)
      | (Some p1, None) \<Rightarrow>
          (let c = c\<lparr>ct_pp_pacer_config := Some p1\<rparr>
           in case ct_sp_pacer_config c of
                Some p2 \<Rightarrow> do { c \<leftarrow> pacing_sum p1 p2 c; set_secondary_window p2 c }
              | None \<Rightarrow> pacing_sum p1 p1 c)
      | (None, None) \<Rightarrow> Some c)"

text \<open>
  The best path and the ratio from the rates of the two paths. \<open>bps()\<close> is converted to
  \<open>double\<close> for the first and stays an integer for the second.
\<close>

definition choose_path :: "TargetTransferRate \<Rightarrow> TargetTransferRate \<Rightarrow> path_control \<Rightarrow> path_control option" where
  "choose_path r1 r2 c =
     do { rtt1 \<leftarrow> TimeDelta_ms (ne_round_trip_time (tr_network_estimate r1));
          rtt2 \<leftarrow> TimeDelta_ms (ne_round_trip_time (tr_network_estimate r2));
          let (best, m) = MpFindBestPath rtt1 rtt2
                (ne_loss_rate_ratio (tr_network_estimate r1)) (ne_loss_rate_ratio (tr_network_estimate r2))
                (d_of_int (tr_target_rate r1)) (d_of_int (tr_target_rate r2)) (ct_mp c);
          let m = MpSetBestPathId best m;
          Some (c\<lparr>ct_mp := MpFindRatio rtt1 rtt2 (tr_target_rate r1) (tr_target_rate r2)
                    (mc_best_pathid m) m\<rparr>) }"

text \<open>
  \<open>add_rate r o\<close> adds \<open>o\<close> to \<open>r\<close> in place; the best of the loss, the RTT and the period of the two
  is kept. \<open>double_rate r\<close> adds \<open>r\<close> to itself and keeps the estimate.
\<close>

definition sum_rates :: "TargetTransferRate \<Rightarrow> TargetTransferRate \<Rightarrow> TargetTransferRate option" where
  "sum_rates r other =
     do { t \<leftarrow> unit_plus (tr_target_rate r) (tr_target_rate other);
          st \<leftarrow> unit_plus (tr_stable_target_rate r) (tr_stable_target_rate other);
          bw \<leftarrow> unit_plus (ne_bandwidth (tr_network_estimate r)) (ne_bandwidth (tr_network_estimate other));
          Some (r\<lparr>tr_target_rate := t, tr_stable_target_rate := st,
                  tr_network_estimate := (tr_network_estimate r)\<lparr>ne_bandwidth := bw\<rparr>,
                  tr_cwnd_reduce_ratio := d_add (tr_cwnd_reduce_ratio r) (tr_cwnd_reduce_ratio other)\<rparr>) }"

definition merge_estimates :: "NetworkEstimate \<Rightarrow> NetworkEstimate \<Rightarrow> NetworkEstimate" where
  "merge_estimates e other =
     e\<lparr>ne_loss_rate_ratio := d_min (ne_loss_rate_ratio e) (ne_loss_rate_ratio other),
       ne_round_trip_time := min (ne_round_trip_time e) (ne_round_trip_time other),
       ne_bwe_period := min (ne_bwe_period e) (ne_bwe_period other)\<rparr>"

definition add_rate :: "TargetTransferRate \<Rightarrow> TargetTransferRate \<Rightarrow> TargetTransferRate option" where
  "add_rate r other =
     do { s \<leftarrow> sum_rates r other;
          Some (s\<lparr>tr_network_estimate :=
            merge_estimates (tr_network_estimate s) (tr_network_estimate other)\<rparr>) }"

definition double_rate :: "TargetTransferRate \<Rightarrow> TargetTransferRate option" where
  "double_rate r = sum_rates r r"

definition post_rate :: "NetworkControlUpdate \<Rightarrow> NetworkControlUpdate \<Rightarrow> path_control \<Rightarrow> path_control option" where
  "post_rate update update2 c =
     (case (nu_target_rate update, nu_target_rate update2) of
        (Some r1, Some r2) \<Rightarrow>
          do { let c = c\<lparr>ct_pp_target_rate := Some r1, ct_sp_target_rate := Some r2\<rparr>;
               c \<leftarrow> choose_path r1 r2 c;
               r \<leftarrow> add_rate r1 r2;
               post_target r c }
      | (None, Some r2) \<Rightarrow>
          (let c = c\<lparr>ct_sp_target_rate := Some r2\<rparr>
           in case ct_pp_target_rate c of
                Some r1 \<Rightarrow> do { c \<leftarrow> choose_path r1 r2 c; r \<leftarrow> add_rate r2 r1; post_target r c }
              | None \<Rightarrow> do { r \<leftarrow> double_rate r2; post_target r c })
      | (Some r1, None) \<Rightarrow>
          (let c = c\<lparr>ct_pp_target_rate := Some r1\<rparr>
           in case ct_sp_target_rate c of
                Some r2 \<Rightarrow> do { c \<leftarrow> choose_path r1 r2 c; r \<leftarrow> add_rate r1 r2; post_target r c }
              | None \<Rightarrow> do { r \<leftarrow> double_rate r1; post_target r c })
      | (None, None) \<Rightarrow> Some c)"

definition single_primary :: "mp_collector \<Rightarrow> bool" where
  "single_primary m \<longleftrightarrow> str_find ''red'' (mc_scheduler m) \<or> \<not> MpISsecondPathOpen m \<or> full_on 2 m"

definition PostUpdates :: "NetworkControlUpdate \<Rightarrow> NetworkControlUpdate \<Rightarrow> path_control \<Rightarrow> path_control option" where
  "PostUpdates update update2 c =
     (if single_primary (ct_mp c) then post_primary update c
      else if full_on 1 (ct_mp c) then post_secondary update2 c
      else do { c \<leftarrow> post_window update update2 c;
                c \<leftarrow> post_pacing update update2 c;
                c \<leftarrow> post_probes (\<lambda>r. unit_times r 2) (nu_probe_cluster_configs update) c;
                post_rate update update2 c })"

section \<open>Loss reports\<close>

text \<open>
  One report block against the last one of its source: the number of packets since then, a
  32-bit difference, and the change of the number of lost packets, whose sign is dropped and
  which is ignored when it is below \<open>-65535\<close>.
\<close>

definition lost_delta :: "int \<Rightarrow> int" where
  "lost_delta d = (if d < 0 then if - d > 65535 then 0 else - d else d)"

fun report_deltas :: "RTCPReportBlock list \<Rightarrow> (u32 \<rightharpoonup> RTCPReportBlock) \<Rightarrow> u32 \<Rightarrow> int \<Rightarrow>
    (u32 \<rightharpoonup> RTCPReportBlock) \<times> u32 \<times> int" where
  "report_deltas [] prev packets lost = (prev, packets, lost)"
| "report_deltas (b # bs) prev packets lost =
     (let (packets, lost) =
            (case prev (lb_source_ssrc b) of
               None \<Rightarrow> (packets, lost)
             | Some l \<Rightarrow>
                 (packets + (lb_extended_highest_sequence_number b - lb_extended_highest_sequence_number l),
                  lost + lost_delta (lb_packets_lost b - lb_packets_lost l)))
      in report_deltas bs (prev(lb_source_ssrc b \<mapsto> b)) packets lost)"

definition OnReceivedRtcpReceiverReportBlocks ::
  "(TransportLossReport \<Rightarrow> NetworkControlUpdate) option \<Rightarrow>
   (TransportLossReport \<Rightarrow> NetworkControlUpdate) option \<Rightarrow>
   RTCPReportBlock list \<Rightarrow> int \<Rightarrow> int \<Rightarrow> path_control \<Rightarrow> path_control option" where
  "OnReceivedRtcpReceiverReportBlocks controller controller_s report_blocks now_ms pathid c =
     (if report_blocks = [] then Some c
      else
        let (seen, packets, lost) =
              report_deltas report_blocks
                (if pathid \<noteq> 2 then ct_last_report_blocks c else ct_last_report_blocks_s c) 0 0;
            c = (if pathid \<noteq> 2 then c\<lparr>ct_last_report_blocks := seen\<rparr>
                 else c\<lparr>ct_last_report_blocks_s := seen\<rparr>);
            total_packets_delta = sint packets;
            packets_received_delta = total_packets_delta - lost
        in if total_packets_delta = 0 then Some c
           else if packets_received_delta < 1 then Some c
           else
             let now = now_ms * 1000;
                 msg = (\<lambda>start. \<lparr>lr_receive_time = now, lr_start_time = start, lr_end_time = now,
                   lr_packets_lost_delta = lost, lr_packets_received_delta = packets_received_delta, lr_pathid = - 1\<rparr>)
             in if pathid \<noteq> 2
                then (case controller of
                        None \<Rightarrow> Some c
                      | Some f \<Rightarrow>
                          do { c \<leftarrow> PostUpdates (f (msg (ct_last_report_block_time c))) no_update c;
                               Some (c\<lparr>ct_last_report_block_time := now\<rparr>) })
                else (case controller_s of
                        None \<Rightarrow> Some c
                      | Some g \<Rightarrow>
                          do { c \<leftarrow> PostUpdates no_update (g (msg (ct_last_report_block_time_s c))) c;
                               Some (c\<lparr>ct_last_report_block_time_s := now\<rparr>) }))"

section \<open>Choosing the best path\<close>

lemma sdiv2: "0 \<le> (k :: int) \<Longrightarrow> k sdiv 2 = k div 2"
  by (simp add: signed_divide_int_def sgn_if)

lemma rnd_lower: "of_int k * 2 powi (- int n) \<le> x \<Longrightarrow> \<bar>k\<bar> < 2 ^ 53 \<Longrightarrow> n \<le> 1074 \<Longrightarrow>
    of_int k * 2 powi (- int n) \<le> rnd x"
  using rnd_mono [of "of_int k * 2 powi (- int n)" x] rnd_fixed [of "of_int k * 2 powi (- int n)" k "- int n"]
  by simp

text \<open>The rounded rate in kilobits.\<close>

lemma kbps:
  assumes "0 < rate" "rate \<le> 2 ^ 50"
  shows "d_div (d_of_int rate) (Fin 1000) = Fin (rnd (of_int rate / 1000))"
    and "1 / 1024 \<le> rnd (of_int rate / 1000)" and "rnd (of_int rate / 1000) \<le> 2 ^ 50"
proof -
  have r: "(1 :: rat) \<le> of_int rate" "(of_int rate :: rat) \<le> 2 ^ 50"
    using assms of_int_le_iff [of rate "2 ^ 50", where 'a = rat] by simp_all
  show "d_div (d_of_int rate) (Fin 1000) = Fin (rnd (of_int rate / 1000))"
    using r assms by (simp add: d_of_int_small dround_small)
  show "1 / 1024 \<le> rnd (of_int rate / 1000)"
    using rnd_lower [of 1 10 "of_int rate / 1000"] r by simp
  show "rnd (of_int rate / 1000) \<le> 2 ^ 50"
    using b64.rnd_between [of 0 "2 ^ 50" "of_int rate / 1000"] r by simp
qed

lemma completion_time_eq:
  assumes "1 / 1024 \<le> x" "0 \<le> rtt" "rtt \<le> 2 ^ 50"
  shows "completion_time rtt (Fin x) = Fin (rnd (rnd (1 / x) + of_int (rtt div 2)))"
    and "0 \<le> rnd (1 / x)" "rnd (1 / x) \<le> 1024"
proof -
  have x: "0 \<le> 1 / x" "1 / x \<le> 1024" using assms(1) by (simp_all add: divide_le_eq)
  then show y: "0 \<le> rnd (1 / x)" "rnd (1 / x) \<le> 1024"
    using b64.rnd_between [of 0 1024 "1 / x"] by simp_all
  have h: "0 \<le> rtt div 2" "rtt div 2 \<le> 2 ^ 50" using assms(2,3) by simp_all
  then have h': "0 \<le> (of_int (rtt div 2) :: rat)" "(of_int (rtt div 2) :: rat) \<le> 2 ^ 50"
    using of_int_le_iff [of "rtt div 2" "2 ^ 50", where 'a = rat] by simp_all
  have "d_div (Fin 1) (Fin x) = Fin (rnd (1 / x))" using x assms(1) by (simp add: dround_small)
  moreover have "d_of_int (rtt div 2) = Fin (of_int (rtt div 2))" using h by (intro d_of_int_small) simp
  moreover have "d_add (Fin (rnd (1 / x))) (Fin (of_int (rtt div 2))) = Fin (rnd (rnd (1 / x) + of_int (rtt div 2)))"
    using y h' by (simp add: dround_small)
  ultimately show "completion_time rtt (Fin x) = Fin (rnd (rnd (1 / x) + of_int (rtt div 2)))"
    using assms(2) by (simp only: completion_time_def sdiv2)
qed

lemma equal_rates_not_far:
  assumes "1 / 1024 \<le> x" "x \<le> 2 ^ 50"
  shows "\<not> far_apart (Fin x) (Fin x)"
proof -
  have "0 < rnd (3 / 4 * x)" using rnd_lower [of 3 12 "3 / 4 * x"] assms(1) by simp
  moreover have "dround (3 / 4 * x) = Fin (rnd (3 / 4 * x))"
    using assms by (intro dround_small) simp
  moreover have "dround 0 = Fin 0" by (simp add: dround_def)
  ultimately show ?thesis
    by (simp add: far_apart_def three_quarters_def d_sub_def d_max_def d_le_def)
qed

text \<open>Adding one to a number below \<open>2 ^ 51\<close> changes its rounding.\<close>

lemma rnd_less_Suc:
  assumes "0 \<le> x" "x \<le> 2 ^ 51"
  shows "rnd x < rnd (x + 1)"
proof -
  define k where "k = \<lceil>2 * x\<rceil>"
  have k: "2 * x \<le> of_int k" "of_int k < 2 * x + 1" unfolding k_def by linarith+
  then have "of_int k < (of_int (2 ^ 52 + 1) :: rat)" "(of_int (- 1) :: rat) < of_int k"
    using assms by simp_all
  then have b: "\<bar>k\<bar> < 2 ^ 53" "\<bar>k + 1\<bar> < 2 ^ 53" unfolding of_int_less_iff by simp_all
  have "rnd x \<le> rnd (of_int k / 2)" using k by (intro rnd_mono) simp
  also have "\<dots> = of_int k / 2" using b by (intro rnd_fixed [of _ k "- 1"]) simp_all
  also have "\<dots> < of_int (k + 1) / 2" by simp
  also have "\<dots> = rnd (of_int (k + 1) / 2)"
    using b by (intro rnd_fixed [of _ "k + 1" "- 1", symmetric]) simp_all
  also have "\<dots> \<le> rnd (x + 1)" using k by (intro rnd_mono) simp
  finally show ?thesis .
qed


lemma kbps_mono: "rate2 \<le> rate1 \<Longrightarrow> rnd (of_int rate2 / 1000) \<le> rnd (of_int rate1 / 1000)"
  by (intro rnd_mono) (simp add: divide_right_mono)

lemma best_path_1:
  assumes "0 \<le> rtt1" "rtt1 \<le> rtt2" "rtt2 \<le> 2 ^ 50" "0 < rate2" "rate2 \<le> rate1" "rate1 \<le> 2 ^ 50"
  shows "fst (MpFindBestPath rtt1 rtt2 loss1 loss2 (d_of_int rate1) (d_of_int rate2) m) = 1"
proof -
  define x1 x2 where "x1 = rnd (of_int rate1 / 1000)" and "x2 = rnd (of_int rate2 / 1000)"
  have k1: "d_div (d_of_int rate1) (Fin 1000) = Fin x1" "1 / 1024 \<le> x1" "x1 \<le> 2 ^ 50"
    using kbps [of rate1] assms by (simp_all add: x1_def)
  have k2: "d_div (d_of_int rate2) (Fin 1000) = Fin x2" "1 / 1024 \<le> x2" "x2 \<le> 2 ^ 50"
    using kbps [of rate2] assms by (simp_all add: x2_def)
  have le: "x2 \<le> x1" using kbps_mono [OF assms(5)] by (simp add: x1_def x2_def)
  have "rnd (1 / x1) \<le> rnd (1 / x2)" using le k2(2) by (intro rnd_mono) (simp add: frac_le)
  moreover have "rtt1 div 2 \<le> rtt2 div 2" using assms(2) by (rule zdiv_mono1) simp
  ultimately have "rnd (rnd (1 / x1) + of_int (rtt1 div 2)) \<le> rnd (rnd (1 / x2) + of_int (rtt2 div 2))"
    by - (rule rnd_mono [OF add_mono], assumption, simp only: of_int_le_iff)
  then have t: "d_le (completion_time rtt1 (Fin x1)) (completion_time rtt2 (Fin x2))"
    using completion_time_eq(1) [OF k1(2) assms(1)] completion_time_eq(1) [OF k2(2), of rtt2] assms(1-3)
    by (auto simp: d_le_def)
  have f: "far_apart (Fin x1) (Fin x2) \<Longrightarrow> d_lt (Fin x2) (Fin x1)"
    using equal_rates_not_far [OF k1(2,3)] le by (cases "x1 = x2") auto
  show ?thesis
    unfolding MpFindBestPath_def Let_def k1(1) k2(1) using t f by (auto simp: prefer_rate_def)
qed

lemma best_path_2:
  assumes "0 \<le> rtt2" "rtt2 + 2 \<le> rtt1" "rtt1 \<le> 2 ^ 50" "0 < rate1" "rate1 \<le> rate2" "rate2 \<le> 2 ^ 50"
  shows "fst (MpFindBestPath rtt1 rtt2 loss1 loss2 (d_of_int rate1) (d_of_int rate2) m) = 2"
proof -
  define x1 x2 where "x1 = rnd (of_int rate1 / 1000)" and "x2 = rnd (of_int rate2 / 1000)"
  have k1: "d_div (d_of_int rate1) (Fin 1000) = Fin x1" "1 / 1024 \<le> x1" "x1 \<le> 2 ^ 50"
    using kbps [of rate1] assms by (simp_all add: x1_def)
  have k2: "d_div (d_of_int rate2) (Fin 1000) = Fin x2" "1 / 1024 \<le> x2" "x2 \<le> 2 ^ 50"
    using kbps [of rate2] assms by (simp_all add: x2_def)
  have le: "x1 \<le> x2" using kbps_mono [OF assms(5)] by (simp add: x1_def x2_def)
  let ?t2 = "rnd (1 / x2) + of_int (rtt2 div 2)"
  have a: "rnd (1 / x2) \<le> rnd (1 / x1)" using le k1(2) by (intro rnd_mono) (simp add: frac_le)
  have b: "rtt2 div 2 + 1 \<le> rtt1 div 2" using assms(2) by linarith
  have "0 \<le> rtt2 div 2" "rtt2 div 2 \<le> 2 ^ 50" using assms by simp_all
  then have "0 \<le> (of_int (rtt2 div 2) :: rat)" "(of_int (rtt2 div 2) :: rat) \<le> 2 ^ 50"
    using of_int_le_iff [of "rtt2 div 2" "2 ^ 50", where 'a = rat] by simp_all
  then have "rnd ?t2 < rnd (?t2 + 1)"
    using completion_time_eq(2,3) [OF k2(2) assms(1)] assms by (intro rnd_less_Suc) auto
  also have "(of_int (rtt2 div 2 + 1) :: rat) \<le> of_int (rtt1 div 2)" using b by (simp only: of_int_le_iff)
  then have "rnd (?t2 + 1) \<le> rnd (rnd (1 / x1) + of_int (rtt1 div 2))"
    using a by (intro rnd_mono) simp
  finally have t: "\<not> d_le (completion_time rtt1 (Fin x1)) (completion_time rtt2 (Fin x2))"
    using completion_time_eq(1) [OF k1(2), of rtt1] completion_time_eq(1) [OF k2(2), of rtt2] assms
    by (auto simp: d_le_def)
  show ?thesis
    unfolding MpFindBestPath_def Let_def k1(1) k2(1) using t le assms by auto
qed




section \<open>The ratio the scheduler uses\<close>

text \<open>The ratio is a number the scheduler can split by.\<close>

definition good_ratio :: "mp_collector \<Rightarrow> bool" where
  "good_ratio m \<longleftrightarrow> (\<exists>r. mc_ratio m = Fin r \<and> 0 \<le> r \<and> r \<le> 2 ^ 51 \<and> rnd r = r)"

lemma quotient_of_rates:
  assumes "0 < a" "a \<le> 2 ^ 50" "0 < b" "b \<le> 2 ^ 50"
  shows "\<exists>r. d_div (d_of_int a) (d_of_int b) = Fin r \<and> 0 \<le> r \<and> r \<le> 2 ^ 51 \<and> rnd r = r"
proof -
  have i: "d_of_int a = Fin (of_int a)" "d_of_int b = Fin (of_int b)"
    using assms by (simp_all add: d_of_int_small)
  have r: "(0 :: rat) < of_int a" "(of_int a :: rat) \<le> 2 ^ 50" "(1 :: rat) \<le> of_int b"
    using assms of_int_le_iff [of a "2 ^ 50", where 'a = rat] by simp_all
  have "(of_int a / of_int b :: rat) \<le> of_int a / 1" using r by (intro frac_le) simp_all
  with r have q: "0 \<le> (of_int a / of_int b :: rat)" "(of_int a / of_int b :: rat) \<le> 2 ^ 50" by simp_all
  have "d_div (d_of_int a) (d_of_int b) = Fin (rnd (of_int a / of_int b))"
    using q r i by (simp add: dround_small)
  moreover have "0 \<le> rnd (of_int a / of_int b)" "rnd (of_int a / of_int b) \<le> 2 ^ 50"
    using b64.rnd_between [of 0 "2 ^ 50" "of_int a / of_int b"] q by simp_all
  ultimately show ?thesis using rnd_idem by auto
qed

lemma MpFindRatio_good:
  assumes "0 < rate1" "rate1 \<le> 2 ^ 50" "0 < rate2" "rate2 \<le> 2 ^ 50"
  shows "good_ratio (MpFindRatio rtt1 rtt2 rate1 rate2 pathid m)"
  using quotient_of_rates [OF assms] quotient_of_rates [OF assms(3,4,1,2)]
  by (auto simp: good_ratio_def MpFindRatio_def MpSetRatio_def Let_def simp del: d_div.simps)

section \<open>The updates are steps of the shared state\<close>

lemma publish_paths_frame: "mp_frame m (publish_paths rtt1 rtt2 loss1 loss2 rate1 rate2 m)"
  by (simp add: publish_paths_def mp_frame_def mp_setter_defs)

lemma clear_half_reachable: "mp_reachable m \<Longrightarrow> mp_reachable (clear_half rtt1 rtt2 m)"
  by (auto simp: clear_half_def intro: mp_reachable.step mp_step.clear_half)

lemma frame_reachable: "mp_frame m m' \<Longrightarrow> mp_reachable m \<Longrightarrow> mp_reachable m'"
  by (blast intro: mp_reachable.step mp_step.publish)

lemma MpFindBestPath_reachable:
  "mp_reachable m \<Longrightarrow> mp_reachable (snd (MpFindBestPath rtt1 rtt2 loss1 loss2 rate1 rate2 m))"
  by (auto simp: MpFindBestPath_def Let_def
      intro: clear_half_reachable frame_reachable [OF publish_paths_frame]
        frame_reachable [OF mp_frame_setters(16)])

lemma UpdateControlState_mp [simp]: "ct_mp (UpdateControlState c) = ct_mp c"
  by (simp add: UpdateControlState_def raise_event_def case_prod_beta Let_def split: option.split)

lemma raise_event_mp [simp]: "ct_mp (raise_event e c) = ct_mp c"
  by (simp add: raise_event_def)

lemma post_target_mp: "post_target r c = Some c' \<Longrightarrow> ct_mp c' = ct_mp c"
  by (auto simp: post_target_def bind_eq_Some_conv)

lemma foldl_None: "foldl (\<lambda>c p. Option.bind c (f p)) None ps = None"
  by (induction ps) simp_all

lemma foldl_bind_inv:
  assumes "\<And>c p c'. f p c = Some c' \<Longrightarrow> g c' = g c"
  shows "foldl (\<lambda>c p. Option.bind c (f p)) (Some c) ps = Some c' \<Longrightarrow> g c' = g c"
proof (induction ps arbitrary: c)
  case (Cons p ps)
  then show ?case by (cases "f p c") (auto simp: foldl_None dest: assms)
qed simp

lemma post_probes_mp: "post_probes f ps c = Some c' \<Longrightarrow> ct_mp c' = ct_mp c"
  unfolding post_probes_def by (rule foldl_bind_inv) (auto simp: bind_eq_Some_conv)

text \<open>A block of \<open>PostUpdates\<close> that moves the shared state by operations of its interface.\<close>

definition keeps_reachable :: "(path_control \<Rightarrow> path_control option) \<Rightarrow> bool" where
  "keeps_reachable f \<longleftrightarrow> (\<forall>c c'. f c = Some c' \<longrightarrow> mp_reachable (ct_mp c) \<longrightarrow> mp_reachable (ct_mp c'))"

lemma keeps_bind: "keeps_reachable f \<Longrightarrow> keeps_reachable g \<Longrightarrow> keeps_reachable (\<lambda>c. Option.bind (f c) g)"
  by (fastforce simp: keeps_reachable_def bind_eq_Some_conv)

lemma keeps_same: "(\<And>c c'. f c = Some c' \<Longrightarrow> ct_mp c' = ct_mp c) \<Longrightarrow> keeps_reachable f"
  by (auto simp: keeps_reachable_def)

lemma keepsD: "keeps_reachable f \<Longrightarrow> f c = Some c' \<Longrightarrow> mp_reachable (ct_mp c) \<Longrightarrow> mp_reachable (ct_mp c')"
  by (auto simp: keeps_reachable_def)

lemma keeps_primary: "keeps_reachable (post_primary u)"
  by (rule keeps_same) (auto simp: post_primary_def bind_eq_Some_conv Let_def
      dest!: post_target_mp post_probes_mp split: option.splits)

lemma keeps_secondary: "keeps_reachable (post_secondary u)"
  by (rule keeps_same) (auto simp: post_secondary_def bind_eq_Some_conv Let_def
      dest!: post_target_mp post_probes_mp split: option.splits)

lemma keeps_window: "keeps_reachable (post_window u v)"
  by (rule keeps_same) (auto simp: post_window_def bind_eq_Some_conv Let_def split: option.splits)

lemma pacing_sum_mp: "pacing_sum p1 p2 c = Some c' \<Longrightarrow> ct_mp c' = ct_mp c"
  by (auto simp: pacing_sum_def bind_eq_Some_conv)

lemma set_window_reachable:
  "set_primary_window p c = Some c' \<Longrightarrow> mp_reachable (ct_mp c) \<Longrightarrow> mp_reachable (ct_mp c')"
  "set_secondary_window p c = Some c' \<Longrightarrow> mp_reachable (ct_mp c) \<Longrightarrow> mp_reachable (ct_mp c')"
  by (auto simp: set_primary_window_def set_secondary_window_def bind_eq_Some_conv
      intro: frame_reachable [OF mp_frame_setters(11)] frame_reachable [OF mp_frame_setters(12)])

lemma keeps_pacing: "keeps_reachable (post_pacing u v)"
  by (auto simp: keeps_reachable_def post_pacing_def bind_eq_Some_conv Let_def
      dest!: pacing_sum_mp set_window_reachable split: option.splits)

lemma choose_path_mp:
  assumes "choose_path r1 r2 c = Some c'"
  obtains rtt1 rtt2 best m where
    "ct_mp c' = MpFindRatio rtt1 rtt2 (tr_target_rate r1) (tr_target_rate r2) best (MpSetBestPathId best m)"
    "(best, m) = MpFindBestPath rtt1 rtt2
       (ne_loss_rate_ratio (tr_network_estimate r1)) (ne_loss_rate_ratio (tr_network_estimate r2))
       (d_of_int (tr_target_rate r1)) (d_of_int (tr_target_rate r2)) (ct_mp c)"
    "TimeDelta_ms (ne_round_trip_time (tr_network_estimate r1)) = Some rtt1"
    "TimeDelta_ms (ne_round_trip_time (tr_network_estimate r2)) = Some rtt2"
    "c' = c\<lparr>ct_mp := ct_mp c'\<rparr>"
proof -
  from assms obtain rtt1 rtt2 where
    t: "TimeDelta_ms (ne_round_trip_time (tr_network_estimate r1)) = Some rtt1"
    "TimeDelta_ms (ne_round_trip_time (tr_network_estimate r2)) = Some rtt2"
    by (auto simp: choose_path_def bind_eq_Some_conv)
  obtain best m where b: "MpFindBestPath rtt1 rtt2
       (ne_loss_rate_ratio (tr_network_estimate r1)) (ne_loss_rate_ratio (tr_network_estimate r2))
       (d_of_int (tr_target_rate r1)) (d_of_int (tr_target_rate r2)) (ct_mp c) = (best, m)"
    by fastforce
  show thesis
    using assms t by (intro that [of rtt1 rtt2 best m]) (auto simp: choose_path_def b MpSetBestPathId_def)
qed

lemma keeps_choose: "keeps_reachable (choose_path r1 r2)"
  unfolding keeps_reachable_def
proof (intro allI impI)
  fix c c' assume ch: "choose_path r1 r2 c = Some c'" and re: "mp_reachable (ct_mp c)"
  from ch obtain rtt1 rtt2 best m where
    m: "ct_mp c' = MpFindRatio rtt1 rtt2 (tr_target_rate r1) (tr_target_rate r2) best (MpSetBestPathId best m)"
    and b: "(best, m) = MpFindBestPath rtt1 rtt2
       (ne_loss_rate_ratio (tr_network_estimate r1)) (ne_loss_rate_ratio (tr_network_estimate r2))
       (d_of_int (tr_target_rate r1)) (d_of_int (tr_target_rate r2)) (ct_mp c)"
    by (rule choose_path_mp)
  have "mp_reachable m" using MpFindBestPath_reachable [OF re] b by (metis snd_conv)
  then show "mp_reachable (ct_mp c')"
    unfolding m MpFindRatio_def Let_def by (intro frame_reachable [OF mp_frame_setters(3)] frame_reachable [OF mp_frame_setters(2)])
qed

lemma keeps_rate: "keeps_reachable (post_rate u v)"
  by (auto simp: keeps_reachable_def post_rate_def bind_eq_Some_conv Let_def
      dest!: post_target_mp keepsD [OF keeps_choose] split: option.splits)

lemma keeps_probes: "keeps_reachable (post_probes f ps)"
  by (rule keeps_same) (rule post_probes_mp)

lemma PostUpdates_reachable:
  assumes "PostUpdates u v c = Some c'" "mp_reachable (ct_mp c)"
  shows "mp_reachable (ct_mp c')"
proof -
  have "keeps_reachable (\<lambda>c. do { c \<leftarrow> post_window u v c; c \<leftarrow> post_pacing u v c;
      c \<leftarrow> post_probes (\<lambda>r. unit_times r 2) (nu_probe_cluster_configs u) c; post_rate u v c })"
    by (intro keeps_bind keeps_window keeps_pacing keeps_probes keeps_rate)
  with assms keeps_primary keeps_secondary show ?thesis
    by (auto simp: PostUpdates_def split: if_splits elim: keepsD [rotated])
qed

section \<open>The merged target rate\<close>

text \<open>The last rate a path reported: the new one, or the stored one.\<close>

definition latest :: "'a option \<Rightarrow> 'a option \<Rightarrow> 'a option" where
  "latest new old = (case new of None \<Rightarrow> old | Some x \<Rightarrow> Some x)"

lemma latest_simps [simp]: "latest None x = x" "latest (Some y) x = Some y"
  by (simp_all add: latest_def)

text \<open>The branch of \<open>PostUpdates\<close> that uses both paths.\<close>

definition two_paths :: "mp_collector \<Rightarrow> bool" where
  "two_paths m \<longleftrightarrow> \<not> str_find ''red'' (mc_scheduler m) \<and> MpISsecondPathOpen m \<and>
     \<not> full_on 1 m \<and> \<not> full_on 2 m"

lemma two_pathsE:
  assumes "PostUpdates u v c = Some c'" "two_paths (ct_mp c)"
  obtains c1 c2 c3 where "post_window u v c = Some c1" "post_pacing u v c1 = Some c2"
    "post_probes (\<lambda>r. unit_times r 2) (nu_probe_cluster_configs u) c2 = Some c3" "post_rate u v c3 = Some c'"
  using assms by (auto simp: PostUpdates_def two_paths_def single_primary_def bind_eq_Some_conv split: if_splits)

definition stored_rates :: "path_control \<Rightarrow> TargetTransferRate option \<times> TargetTransferRate option" where
  "stored_rates c = (ct_pp_target_rate c, ct_sp_target_rate c)"

lemma raise_event_rates [simp]: "stored_rates (raise_event e c) = stored_rates c"
  by (simp add: stored_rates_def raise_event_def)

text \<open>The blocks before the last leave the stored rates alone.\<close>

lemma post_probes_rates: "post_probes f ps c = Some c' \<Longrightarrow> stored_rates c' = stored_rates c"
  unfolding post_probes_def by (rule foldl_bind_inv) (auto simp: bind_eq_Some_conv)

lemma post_window_rates: "post_window u v c = Some c' \<Longrightarrow> stored_rates c' = stored_rates c"
  by (auto simp: post_window_def bind_eq_Some_conv Let_def stored_rates_def raise_event_def split: option.splits)

lemma post_pacing_rates: "post_pacing u v c = Some c' \<Longrightarrow> stored_rates c' = stored_rates c"
  by (auto simp: post_pacing_def pacing_sum_def set_primary_window_def set_secondary_window_def
      bind_eq_Some_conv Let_def stored_rates_def raise_event_def split: option.splits)

lemma two_paths_rates:
  assumes "PostUpdates u v c = Some c'" "two_paths (ct_mp c)"
  obtains d where "post_rate u v d = Some c'" "ct_pp_target_rate d = ct_pp_target_rate c"
    "ct_sp_target_rate d = ct_sp_target_rate c"
proof -
  from assms obtain c1 c2 c3 where "post_window u v c = Some c1" "post_pacing u v c1 = Some c2"
    "post_probes (\<lambda>r. unit_times r 2) (nu_probe_cluster_configs u) c2 = Some c3" "post_rate u v c3 = Some c'"
    by (rule two_pathsE)
  then show thesis
    using that [of c3] post_window_rates post_pacing_rates post_probes_rates
    by (metis stored_rates_def prod.inject)
qed

lemma GetUpdate_incoming [simp]: "ch_last_incoming (snd (GetUpdate h)) = ch_last_incoming h"
  by (simp add: GetUpdate_def Let_def split: option.split)

lemma UpdateControlState_frame [simp]:
  "ch_last_incoming (ct_handler (UpdateControlState c)) = ch_last_incoming (ct_handler c)"
  "stored_rates (UpdateControlState c) = stored_rates c"
  by (simp_all add: UpdateControlState_def case_prod_beta Let_def raise_event_def stored_rates_def split: option.split)

lemma post_targetE:
  assumes "post_target r c = Some c'"
  shows "ch_last_incoming (ct_handler c') = Some r \<and> ct_pp_target_rate c' = ct_pp_target_rate c \<and>
    ct_sp_target_rate c' = ct_sp_target_rate c"
  using assms UpdateControlState_frame(2) [unfolded stored_rates_def]
  by (auto simp: post_target_def SetTargetRate_def bind_eq_Some_conv split: if_splits)

lemma unit_plus_commute: "unit_plus a b = unit_plus b a"
  by (auto simp: unit_plus_def add.commute)

lemma choose_path_frame: "choose_path r1 r2 c = Some c' \<Longrightarrow>
    ct_pp_target_rate c' = ct_pp_target_rate c \<and> ct_sp_target_rate c' = ct_sp_target_rate c"
  by (auto simp: choose_path_def bind_eq_Some_conv Let_def case_prod_beta)

lemma add_rateD: "add_rate r t = Some s \<Longrightarrow>
    unit_plus (tr_target_rate r) (tr_target_rate t) = Some (tr_target_rate s) \<and>
    unit_plus (tr_stable_target_rate r) (tr_stable_target_rate t) = Some (tr_stable_target_rate s) \<and>
    ne_round_trip_time (tr_network_estimate s) =
      min (ne_round_trip_time (tr_network_estimate r)) (ne_round_trip_time (tr_network_estimate t))"
  by (auto simp: add_rate_def sum_rates_def merge_estimates_def bind_eq_Some_conv)

lemma double_rateD: "double_rate r = Some s \<Longrightarrow>
    unit_plus (tr_target_rate r) (tr_target_rate r) = Some (tr_target_rate s) \<and>
    unit_plus (tr_stable_target_rate r) (tr_stable_target_rate r) = Some (tr_stable_target_rate s) \<and>
    ne_round_trip_time (tr_network_estimate s) = ne_round_trip_time (tr_network_estimate r)"
  by (auto simp: double_rate_def sum_rates_def bind_eq_Some_conv)



definition example_estimate :: "int \<Rightarrow> NetworkEstimate" where
  "example_estimate rtt = \<lparr>ne_at_time = 0, ne_bandwidth = 1000000, ne_round_trip_time = rtt,
     ne_bwe_period = 3000000, ne_loss_rate_ratio = Fin 0\<rparr>"

definition example_rate :: "int \<Rightarrow> int \<Rightarrow> TargetTransferRate" where
  "example_rate rate rtt = \<lparr>tr_at_time = 5, tr_network_estimate = example_estimate rtt,
     tr_network_estimate_second = example_estimate rtt, tr_target_rate = rate,
     tr_target_rate_second = 0, tr_stable_target_rate = rate, tr_stable_target_rate_second = 0,
     tr_cwnd_reduce_ratio = Fin 0, tr_cwnd_reduce_ratio_second = Fin 0\<rparr>"

definition example_update :: "int \<Rightarrow> int \<Rightarrow> NetworkControlUpdate" where
  "example_update rate rtt = no_update\<lparr>nu_target_rate := Some (example_rate rate rtt)\<rparr>"

definition example_paths :: mp_collector where
  "example_paths = MpSetSecondPath 1 (MpSetScheduler ''window'' (mp_init (Fin 0) (Fin 0) 0 0))"

definition example_control :: path_control where
  "example_control = path_control_init example_paths (handler_init False) 0"

lemma example_control_simps [simp]:
  "ct_mp example_control = example_paths" "ct_pp_target_rate example_control = None"
  "ct_sp_target_rate example_control = None" "ct_sp_congestion_window example_control = None"
  "nu_target_rate (example_update rate rtt) = Some (example_rate rate rtt)"
  "nu_target_rate no_update = None" "tr_target_rate (example_rate rate rtt) = rate"
  by (simp_all add: example_control_def path_control_init_def example_update_def no_update_def example_rate_def)

lemma example_two_paths: "two_paths example_paths"
  by code_simp

lemma example_post:
  "\<exists>c'. PostUpdates (example_update 3000000 40000) (example_update 1000000 60000) example_control = Some c'"
proof -
  have "\<not> Option.is_none (PostUpdates (example_update 3000000 40000) (example_update 1000000 60000) example_control)"
    by code_simp
  then show ?thesis by (blast dest: is_some_the)
qed


section \<open>The scheduler can use what is published\<close>

lemma mp_reachable_mp_inv: "mp_reachable m \<Longrightarrow> mp_inv m"
  by (induction rule: mp_reachable.induct) (auto simp: mp_init_inv intro: mp_step_inv)

lemma best_path_range: "fst (MpFindBestPath rtt1 rtt2 loss1 loss2 rate1 rate2 m) \<in> {1, 2}"
  by (simp add: MpFindBestPath_def Let_def)

lemma choose_path_schedulable:
  assumes "choose_path r1 r2 c = Some c'"
    "0 < tr_target_rate r1" "tr_target_rate r1 \<le> 2 ^ 50" "0 < tr_target_rate r2" "tr_target_rate r2 \<le> 2 ^ 50"
  shows "good_ratio (ct_mp c') \<and> mc_best_pathid (ct_mp c') \<in> {1, 2}"
proof -
  from assms(1) obtain rtt1 rtt2 best m where
    m: "ct_mp c' = MpFindRatio rtt1 rtt2 (tr_target_rate r1) (tr_target_rate r2) best (MpSetBestPathId best m)"
    and b: "(best, m) = MpFindBestPath rtt1 rtt2
       (ne_loss_rate_ratio (tr_network_estimate r1)) (ne_loss_rate_ratio (tr_network_estimate r2))
       (d_of_int (tr_target_rate r1)) (d_of_int (tr_target_rate r2)) (ct_mp c)"
    by (rule choose_path_mp)
  have "best \<in> {1, 2}" using best_path_range b by (metis fst_conv)
  then show ?thesis
    unfolding m using MpFindRatio_good [OF assms(2-5)]
    by (auto simp: MpFindRatio_def MpSetRatio_def MpSetBestPathId_def Let_def)
qed

lemma PostUpdates_schedulable:
  assumes "two_paths (ct_mp c)" "PostUpdates u v c = Some c'"
    "nu_target_rate u \<noteq> None \<or> nu_target_rate v \<noteq> None"
    "latest (nu_target_rate u) (ct_pp_target_rate c) = Some r1"
    "latest (nu_target_rate v) (ct_sp_target_rate c) = Some r2"
    "0 < tr_target_rate r1" "tr_target_rate r1 \<le> 2 ^ 50" "0 < tr_target_rate r2" "tr_target_rate r2 \<le> 2 ^ 50"
  shows "good_ratio (ct_mp c') \<and> mc_best_pathid (ct_mp c') \<in> {1, 2}"
proof -
  from assms(2,1) obtain d where d: "post_rate u v d = Some c'"
    "ct_pp_target_rate d = ct_pp_target_rate c" "ct_sp_target_rate d = ct_sp_target_rate c"
    by (rule two_paths_rates)
  from d assms(3-5) obtain e c1 r where "choose_path r1 r2 e = Some c1" "post_target r c1 = Some c'"
    by (auto simp: post_rate_def bind_eq_Some_conv Let_def latest_def split: option.splits)
  then show ?thesis
    using choose_path_schedulable [OF _ assms(6-9)] post_target_mp by metis
qed


lemma example_paths_reachable: "mp_reachable example_paths"
  unfolding example_paths_def
  by (intro frame_reachable [OF mp_frame_setters(4)] frame_reachable [OF mp_frame_setters(13)] mp_reachable.start)


text \<open>
  When the second path reports the rate 0 and the first is the best path, the published
  ratio is infinite and the split of a frame of more than one packet is undefined: \<open>inf / (1 + inf)\<close>
  is not a number, and it is converted to \<open>int\<close>.
\<close>

lemma zero_rate_split_undefined:
  assumes "0 < rate1" "rate1 \<le> 2 ^ 50" "rtt1 \<noteq> 0 \<or> rtt2 \<noteq> 0"
    "rs_mp s = MpFindRatio rtt1 rtt2 rate1 0 1 m" "ratio_branch now s" "length ps \<noteq> 1"
  shows "MPTrafficSplitImplementation now ps False s = None"
proof -
  have "d_div (d_of_int rate1) (d_of_int 0) = PInf"
    using assms(1,2) by (simp add: d_of_int_small d_inf_def)
  then have "mc_ratio (rs_mp s) = PInf"
    using assms(3,4) by (auto simp: MpFindRatio_def MpSetRatio_def)
  then have "ratio_shares (mc_ratio (rs_mp s)) (length ps) = None"
    using assms(6) by (simp add: ratio_shares_def d_inf_def)
  then show ?thesis
    using ratio_branch_split [OF assms(5)] by (simp add: split_by_ratio_def)
qed

lemma example_zero_branch:
  "ratio_branch 20000 (example_sender (MpFindRatio 40 60 3000000 0 1 (example_mp ''window'')))"
  by code_simp

lemma zero_rate_split_undefined_witness:
  "MPTrafficSplitImplementation 20000 example_frame False
     (example_sender (MpFindRatio 40 60 3000000 0 1 (example_mp ''window''))) = None"
  by (rule zero_rate_split_undefined [of 3000000 40 60 _ "example_mp ''window''", OF _ _ _ _ example_zero_branch])
    (simp_all add: example_frame_def)

section \<open>Loss reports\<close>

definition seq_delta :: "(u32 \<rightharpoonup> RTCPReportBlock) \<Rightarrow> RTCPReportBlock \<Rightarrow> u32" where
  "seq_delta prev b = (case prev (lb_source_ssrc b) of None \<Rightarrow> 0
     | Some l \<Rightarrow> lb_extended_highest_sequence_number b - lb_extended_highest_sequence_number l)"

definition loss_delta :: "(u32 \<rightharpoonup> RTCPReportBlock) \<Rightarrow> RTCPReportBlock \<Rightarrow> int" where
  "loss_delta prev b = (case prev (lb_source_ssrc b) of None \<Rightarrow> 0
     | Some l \<Rightarrow> lost_delta (lb_packets_lost b - lb_packets_lost l))"

definition stored_blocks :: "(u32 \<rightharpoonup> RTCPReportBlock) \<Rightarrow> RTCPReportBlock list \<Rightarrow> u32 \<rightharpoonup> RTCPReportBlock" where
  "stored_blocks prev bs = prev ++ map_of (map (\<lambda>b. (lb_source_ssrc b, b)) bs)"

lemma report_deltas_sums:
  "distinct (map lb_source_ssrc bs) \<Longrightarrow>
   report_deltas bs prev packets lost =
     (stored_blocks prev bs, packets + (\<Sum>b\<leftarrow>bs. seq_delta prev b), lost + (\<Sum>b\<leftarrow>bs. loss_delta prev b))"
proof (induction bs arbitrary: prev packets lost)
  case (Cons b bs)
  let ?p = "prev(lb_source_ssrc b \<mapsto> b)"
  have same: "seq_delta ?p x = seq_delta prev x" "loss_delta ?p x = loss_delta prev x" if "x \<in> set bs" for x
  proof -
    have "lb_source_ssrc x \<noteq> lb_source_ssrc b" using Cons.prems that by (metis distinct.simps(2) image_eqI list.set_map list.simps(9))
    then show "seq_delta ?p x = seq_delta prev x" "loss_delta ?p x = loss_delta prev x"
      by (simp_all add: seq_delta_def loss_delta_def)
  qed
  have sums: "(\<Sum>x\<leftarrow>bs. seq_delta ?p x) = (\<Sum>x\<leftarrow>bs. seq_delta prev x)"
    "(\<Sum>x\<leftarrow>bs. loss_delta ?p x) = (\<Sum>x\<leftarrow>bs. loss_delta prev x)"
    using same by (simp_all cong: map_cong)
  have st: "stored_blocks ?p bs = stored_blocks prev (b # bs)"
    using Cons.prems by (auto simp: stored_blocks_def map_add_upd_left dom_map_of_conv_image_fst image_image)
  show ?case
    using Cons sums st
    by (cases "prev (lb_source_ssrc b)") (simp_all add: seq_delta_def [of prev b] loss_delta_def [of prev b])
qed (simp add: stored_blocks_def)


text \<open>The message a report gives the controller of its path.\<close>

definition loss_report :: "int \<Rightarrow> int \<Rightarrow> int \<Rightarrow> int \<Rightarrow> TransportLossReport" where
  "loss_report now start lost received =
     \<lparr>lr_receive_time = now, lr_start_time = start, lr_end_time = now,
      lr_packets_lost_delta = lost, lr_packets_received_delta = received, lr_pathid = - 1\<rparr>"

definition packets_delta :: "(u32 \<rightharpoonup> RTCPReportBlock) \<Rightarrow> RTCPReportBlock list \<Rightarrow> int" where
  "packets_delta prev bs = sint (\<Sum>b\<leftarrow>bs. seq_delta prev b)"

definition packets_lost_delta :: "(u32 \<rightharpoonup> RTCPReportBlock) \<Rightarrow> RTCPReportBlock list \<Rightarrow> int" where
  "packets_lost_delta prev bs = (\<Sum>b\<leftarrow>bs. loss_delta prev b)"

text \<open>
  The report blocks that arrive on a path, for distinct sources, are stored for that path
  alone and become one loss report of its controller: the packets lost are the sum over the
  sources of the change since the last block of that path, the packets received are the rest of
  the packets sent meanwhile; the controller is not called when nothing was sent or received.
\<close>

lemma loss_report_of_blocks:
  assumes "distinct (map lb_source_ssrc bs)" "bs \<noteq> []" "pathid \<noteq> 2"
  shows "(let prev = ct_last_report_blocks c; n = packets_delta prev bs; lost = packets_lost_delta prev bs;
        c1 = c\<lparr>ct_last_report_blocks := stored_blocks prev bs\<rparr>
      in OnReceivedRtcpReceiverReportBlocks (Some f) g bs now pathid c =
        (if n = 0 \<or> n - lost < 1 then Some c1
         else map_option (\<lambda>c. c\<lparr>ct_last_report_block_time := now * 1000\<rparr>)
           (PostUpdates (f (loss_report (now * 1000) (ct_last_report_block_time c) lost (n - lost))) no_update c1))) \<and>
    (let prev = ct_last_report_blocks_s c; n = packets_delta prev bs; lost = packets_lost_delta prev bs;
        c1 = c\<lparr>ct_last_report_blocks_s := stored_blocks prev bs\<rparr>
      in OnReceivedRtcpReceiverReportBlocks h (Some k) bs now 2 c =
        (if n = 0 \<or> n - lost < 1 then Some c1
         else map_option (\<lambda>c. c\<lparr>ct_last_report_block_time_s := now * 1000\<rparr>)
           (PostUpdates no_update (k (loss_report (now * 1000) (ct_last_report_block_time_s c) lost (n - lost))) c1)))"
  using assms(2,3) report_deltas_sums [OF assms(1), of "ct_last_report_blocks c" 0 0]
    report_deltas_sums [OF assms(1), of "ct_last_report_blocks_s c" 0 0]
  by (simp add: OnReceivedRtcpReceiverReportBlocks_def Let_def loss_report_def bind_map_option
      packets_delta_def packets_lost_delta_def)

lemma loss_report_of_blocks_witness:
  "OnReceivedRtcpReceiverReportBlocks (Some (\<lambda>_. no_update)) None
     [\<lparr>lb_source_ssrc = 7, lb_packets_lost = 3, lb_extended_highest_sequence_number = 100\<rparr>] 40 1 example_control =
   Some (example_control\<lparr>ct_last_report_blocks := stored_blocks (ct_last_report_blocks example_control)
     [\<lparr>lb_source_ssrc = 7, lb_packets_lost = 3, lb_extended_highest_sequence_number = 100\<rparr>]\<rparr>)"
  using loss_report_of_blocks [of "[\<lparr>lb_source_ssrc = 7, lb_packets_lost = 3, lb_extended_highest_sequence_number = 100\<rparr>]"
      1 example_control "\<lambda>_. no_update" None 40]
  by (simp add: Let_def packets_delta_def seq_delta_def example_control_def path_control_init_def)

section \<open>The control handler\<close>

text \<open>
  After a call of \<open>GetUpdate\<close> the last reported rate is the incoming one, or 0 when the network
  is down or the pacer queue is too long, and a second call reports nothing new.
\<close>

lemma control_handler_reports:
  assumes "ch_last_incoming h = Some r" "ne_loss_rate_ratio (tr_network_estimate r) \<noteq> NaN"
  defines "h' \<equiv> snd (GetUpdate h)"
  shows "fst (GetUpdate h') = None \<and>
    (\<exists>s. ch_last_reported h' = Some s \<and> tr_target_rate s = (if pause_encoding h then 0 else tr_target_rate r))"
proof -
  have p: "pause_encoding (h\<lparr>ch_encoder_paused_in_last_report := a, ch_last_reported := b\<rparr>) = pause_encoding h" for a b
    by (simp add: pause_encoding_def)
  show ?thesis
    using assms(1,2) p unfolding h'_def
    by (cases "ch_last_reported h") (auto simp: GetUpdate_def Let_def d_eq_def)
qed

lemma control_handler_reports_witness:
  "fst (GetUpdate (snd (GetUpdate ((handler_init False)\<lparr>ch_last_incoming := Some (example_rate 3000000 40000)\<rparr>)))) = None"
  using control_handler_reports [of "(handler_init False)\<lparr>ch_last_incoming := Some (example_rate 3000000 40000)\<rparr>"
      "example_rate 3000000 40000"]
  by (simp add: example_rate_def example_estimate_def)

section \<open>Updates of one path only\<close>

text \<open>
  With both paths in use, a first congestion window from the primary controller alone
  dereferences the empty window of the secondary path.
\<close>

lemma first_window_undefined:
  assumes "two_paths (ct_mp c)" "nu_congestion_window u = Some w" "nu_congestion_window v = None"
    "ct_sp_congestion_window c = None"
  shows "PostUpdates u v c = None"
  using assms by (simp add: PostUpdates_def two_paths_def single_primary_def post_window_def)

lemma first_window_undefined_witness:
  "PostUpdates (no_update\<lparr>nu_congestion_window := Some 50000\<rparr>) no_update example_control = None"
  by (rule first_window_undefined) (simp_all add: example_two_paths no_update_def)

text \<open>
  A pacer configuration of the primary path alone does not change the window the scheduler uses
  for that path: the block sets the secondary window once more.
\<close>

definition primary_wnd :: "path_control \<Rightarrow> int" where
  "primary_wnd c = mc_primary_wnd (ct_mp c)"

lemma choose_path_wnd: "choose_path r1 r2 c = Some c' \<Longrightarrow> primary_wnd c' = primary_wnd c"
  by (auto simp: choose_path_def bind_eq_Some_conv Let_def case_prod_beta primary_wnd_def MpFindBestPath_def
      MpFindRatio_def publish_paths_def clear_half_def MpClearHalfSignal_def mp_setter_defs)

lemma post_rate_wnd: "post_rate u v c = Some c' \<Longrightarrow> primary_wnd c' = primary_wnd c"
  by (auto simp: post_rate_def bind_eq_Some_conv Let_def primary_wnd_def split: option.splits
      dest!: post_target_mp choose_path_wnd [unfolded primary_wnd_def])

lemma primary_window_stale:
  assumes "two_paths (ct_mp c)" "nu_pacer_config v = None" "PostUpdates u v c = Some c'"
  shows "mc_primary_wnd (ct_mp c') = mc_primary_wnd (ct_mp c)"
proof -
  from assms(3,1) obtain c1 c2 c3 where s: "post_window u v c = Some c1" "post_pacing u v c1 = Some c2"
    "post_probes (\<lambda>r. unit_times r 2) (nu_probe_cluster_configs u) c2 = Some c3" "post_rate u v c3 = Some c'"
    by (rule two_pathsE)
  have "primary_wnd c' = primary_wnd c3" using s(4) by (rule post_rate_wnd)
  also have "\<dots> = primary_wnd c2" using post_probes_mp [OF s(3)] by (simp add: primary_wnd_def)
  also have "\<dots> = primary_wnd c1"
    using s(2) assms(2) by (auto simp: post_pacing_def pacing_sum_def set_secondary_window_def bind_eq_Some_conv
        Let_def primary_wnd_def MpSetSecondaryWindow_def split: option.splits)
  also have "\<dots> = primary_wnd c"
    using s(1) by (auto simp: post_window_def bind_eq_Some_conv Let_def primary_wnd_def split: option.splits)
  finally show ?thesis by (simp add: primary_wnd_def)
qed

end
