(* ===== verification/SeqNum.thy ===== *)
theory SeqNum
  imports Prelude
begin

text \<open>
  Wrap-around sequence numbers (\<open>modules/include/module_common_types_public.h\<close>,
  \<open>rtc_base/numerics/mod_ops.h\<close>, \<open>rtc_base/numerics/sequence_number_util.h\<close>): the two comparisons the
  code uses, the distances on the circle, and the two classes that unwrap a stream of numbers
  to integers. The templates are instantiated as the code uses them; a 16-bit operand is
  promoted to \<open>int\<close> by C++ before it is subtracted, a 32-bit one is not, and the definitions
  write this out.
\<close>

section \<open>Comparisons\<close>

definition IsNewer16 :: "u16 \<Rightarrow> u16 \<Rightarrow> bool" where
  "IsNewer16 value prev_value =
     (if uint value - uint prev_value = 0x8000 then value > prev_value
      else value \<noteq> prev_value \<and> value - prev_value < 0x8000)"

definition IsNewer32 :: "u32 \<Rightarrow> u32 \<Rightarrow> bool" where
  "IsNewer32 value prev_value =
     (if value - prev_value = 0x80000000 then value > prev_value
      else value \<noteq> prev_value \<and> value - prev_value < 0x80000000)"

definition IsNewerSequenceNumber :: "u16 \<Rightarrow> u16 \<Rightarrow> bool" where
  "IsNewerSequenceNumber sequence_number prev_sequence_number =
     IsNewer16 sequence_number prev_sequence_number"

definition IsNewerTimestamp :: "u32 \<Rightarrow> u32 \<Rightarrow> bool" where
  "IsNewerTimestamp timestamp prev_timestamp = IsNewer32 timestamp prev_timestamp"

definition LatestSequenceNumber :: "u16 \<Rightarrow> u16 \<Rightarrow> u16" where
  "LatestSequenceNumber sequence_number1 sequence_number2 =
     (if IsNewerSequenceNumber sequence_number1 sequence_number2 then sequence_number1
      else sequence_number2)"

definition LatestTimestamp :: "u32 \<Rightarrow> u32 \<Rightarrow> u32" where
  "LatestTimestamp timestamp1 timestamp2 =
     (if IsNewerTimestamp timestamp1 timestamp2 then timestamp1 else timestamp2)"

text \<open>\<open>mod_ops.h\<close> and \<open>sequence_number_util.h\<close> with \<open>M = 0\<close>: the numbers wrap at the width of the type.\<close>

definition ForwardDiff :: "u16 \<Rightarrow> u16 \<Rightarrow> u16" where
  "ForwardDiff a b = b - a"

definition ReverseDiff :: "u16 \<Rightarrow> u16 \<Rightarrow> u16" where
  "ReverseDiff a b = a - b"

definition MinDiff :: "u16 \<Rightarrow> u16 \<Rightarrow> u16" where
  "MinDiff a b = min (ForwardDiff a b) (ReverseDiff a b)"

definition AheadOrAt :: "u16 \<Rightarrow> u16 \<Rightarrow> bool" where
  "AheadOrAt a b =
     (if uint a - uint b = 0x8000 then b < a else ForwardDiff b a < 0x8000)"

definition AheadOf :: "u16 \<Rightarrow> u16 \<Rightarrow> bool" where
  "AheadOf a b \<longleftrightarrow> a \<noteq> b \<and> AheadOrAt a b"

definition AscendingSeqNumComp :: "u16 \<Rightarrow> u16 \<Rightarrow> bool" where
  "AscendingSeqNumComp a b = AheadOf a b"

definition DescendingSeqNumComp :: "u16 \<Rightarrow> u16 \<Rightarrow> bool" where
  "DescendingSeqNumComp a b = AheadOf b a"

text \<open>The same with \<open>M > 0\<close>: the operands are less than \<open>M\<close>.\<close>

definition ForwardDiffM :: "int \<Rightarrow> int \<Rightarrow> int \<Rightarrow> int" where
  "ForwardDiffM M a b = (if a \<le> b then b - a else M - (a - b))"

definition ReverseDiffM :: "int \<Rightarrow> int \<Rightarrow> int \<Rightarrow> int" where
  "ReverseDiffM M a b = (if b \<le> a then a - b else M - (b - a))"

definition MinDiffM :: "int \<Rightarrow> int \<Rightarrow> int \<Rightarrow> int" where
  "MinDiffM M a b = min (ForwardDiffM M a b) (ReverseDiffM M a b)"

definition AheadOrAtM :: "int \<Rightarrow> int \<Rightarrow> int \<Rightarrow> bool" where
  "AheadOrAtM M a b =
     (if even M \<and> MinDiffM M a b = M div 2 then b < a else ForwardDiffM M b a \<le> M div 2)"

definition AheadOfM :: "int \<Rightarrow> int \<Rightarrow> int \<Rightarrow> bool" where
  "AheadOfM M a b \<longleftrightarrow> a \<noteq> b \<and> AheadOrAtM M a b"

text \<open>Addition and subtraction on the circle of length \<open>M\<close>, in 64-bit words.\<close>

definition mod_Add :: "u64 \<Rightarrow> u64 \<Rightarrow> u64 \<Rightarrow> u64" where
  "mod_Add M a b = (let t = M - b mod M; res = a - t in if t > a then res + M else res)"

definition mod_Subtract :: "u64 \<Rightarrow> u64 \<Rightarrow> u64 \<Rightarrow> u64" where
  "mod_Subtract M a b = (let s = b mod M in if a < s then M - (s - a) else a - s)"

section \<open>Unwrapping\<close>

text \<open>\<open>Unwrapper<uint16_t>\<close>: the state is \<open>last_value_\<close>.\<close>

definition UnwrapWithoutUpdate16 :: "u16 \<Rightarrow> int option \<Rightarrow> int" where
  "UnwrapWithoutUpdate16 value last_value =
     (case last_value of
        None \<Rightarrow> uint value
      | Some l \<Rightarrow>
          let cropped_last = word_of_int l;
              delta = uint value - uint cropped_last;
              delta = (if IsNewer16 value cropped_last
                       then if delta < 0 then delta + 0x10000 else delta
                       else if delta > 0 \<and> l + delta - 0x10000 \<ge> 0 then delta - 0x10000 else delta)
          in l + delta)"

definition Unwrap16 :: "u16 \<Rightarrow> int option \<Rightarrow> int \<times> int option" where
  "Unwrap16 value last_value =
     (let unwrapped = UnwrapWithoutUpdate16 value last_value in (unwrapped, Some unwrapped))"

text \<open>\<open>Unwrapper<uint32_t>\<close>: the difference of two 32-bit operands wraps and is never negative.\<close>

definition UnwrapWithoutUpdate32 :: "u32 \<Rightarrow> int option \<Rightarrow> int" where
  "UnwrapWithoutUpdate32 value last_value =
     (case last_value of
        None \<Rightarrow> uint value
      | Some l \<Rightarrow>
          let cropped_last = word_of_int l;
              delta = uint (value - cropped_last);
              delta = (if IsNewer32 value cropped_last
                       then if delta < 0 then delta + 0x100000000 else delta
                       else if delta > 0 \<and> l + delta - 0x100000000 \<ge> 0 then delta - 0x100000000 else delta)
          in l + delta)"

definition Unwrap32 :: "u32 \<Rightarrow> int option \<Rightarrow> int \<times> int option" where
  "Unwrap32 value last_value =
     (let unwrapped = UnwrapWithoutUpdate32 value last_value in (unwrapped, Some unwrapped))"

text \<open>\<open>SeqNumUnwrapper<uint16_t>\<close>: \<open>last_unwrapped_\<close> and \<open>last_value_\<close>.\<close>

definition SeqNumUnwrap :: "u16 \<Rightarrow> int \<times> u16 option \<Rightarrow> int \<times> int \<times> u16 option" where
  "SeqNumUnwrap value st =
     (let last_unwrapped =
            (case snd st of
               None \<Rightarrow> uint value
             | Some last_value \<Rightarrow>
                 let u = fst st + uint (ForwardDiff last_value value)
                 in if \<not> AheadOrAt value last_value then u - 0x10000 else u)
      in (last_unwrapped, last_unwrapped, Some value))"

section \<open>The circular order\<close>

text \<open>
  What a comparison of wrapping numbers promises: of two different numbers exactly one is
  ahead. It is not transitive, so it is no order.
\<close>

locale circular =
  fixes ahead :: "'a \<Rightarrow> 'a \<Rightarrow> bool"
  assumes irrefl: "\<not> ahead a a"
    and asym: "ahead a b \<Longrightarrow> \<not> ahead b a"
    and total: "a \<noteq> b \<Longrightarrow> ahead a b \<or> ahead b a"
begin

definition latest :: "'a \<Rightarrow> 'a \<Rightarrow> 'a" where
  "latest a b = (if ahead a b then a else b)"

lemma latest_commute: "latest a b = latest b a"
  using asym total by (auto simp: latest_def)

lemma latest_not_behind: "\<not> ahead a (latest a b)" "\<not> ahead b (latest a b)"
  using asym irrefl by (auto simp: latest_def)

end

lemma uint16_gap: "uint (a :: u16) < uint (b :: u16) + 65536"
proof -
  have "uint a < 65536" "0 \<le> uint b" using uint_lt2p [of a] by simp_all
  then show ?thesis by linarith
qed

lemma uint32_gap: "uint (a :: u32) < uint (b :: u32) + 4294967296"
proof -
  have "uint a < 4294967296" "0 \<le> uint b" using uint_lt2p [of a] by simp_all
  then show ?thesis by linarith
qed

lemma uint_diff16: "uint (a - b :: u16) = (if uint b \<le> uint a then uint a - uint b else uint a - uint b + 65536)"
  by (simp add: uint_sub_if')

lemma uint_diff32:
  "uint (a - b :: u32) = (if uint b \<le> uint a then uint a - uint b else uint a - uint b + 4294967296)"
  by (simp add: uint_sub_if')

lemmas circ16 = word_less_def word_le_def word_uint_eq_iff uint_diff16
lemmas circ32 = word_less_def word_le_def word_uint_eq_iff uint_diff32

lemma IsNewer16_alt:
  "IsNewer16 a b \<longleftrightarrow> 0 < uint (a - b) \<and> uint (a - b) < 0x8000 \<or> uint a - uint b = 0x8000"
  using uint16_gap [of a b] uint16_gap [of b a]
  by (auto simp: IsNewer16_def circ16)

lemma IsNewer32_alt:
  "IsNewer32 a b \<longleftrightarrow> 0 < uint (a - b) \<and> uint (a - b) < 0x80000000 \<or> uint a - uint b = 0x80000000"
  using uint32_gap [of a b] uint32_gap [of b a]
  by (auto simp: IsNewer32_def circ32)

lemma AheadOf_IsNewer: "AheadOf a b = IsNewer16 a b"
  using uint16_gap [of a b] uint16_gap [of b a]
  by (auto simp: AheadOf_def AheadOrAt_def ForwardDiff_def IsNewer16_def)

interpretation newer16: circular IsNewer16
proof
  show "\<not> IsNewer16 a a" for a by (simp add: IsNewer16_def)
  show "\<not> IsNewer16 b a" if "IsNewer16 a b" for a b
    using that uint16_gap [of a b] uint16_gap [of b a]
    by (auto simp: IsNewer16_alt uint_diff16 split: if_splits)
  show "IsNewer16 a b \<or> IsNewer16 b a" if "a \<noteq> b" for a b
    using that uint16_gap [of a b] uint16_gap [of b a]
    by (auto simp: IsNewer16_alt circ16)
qed

interpretation newer32: circular IsNewer32
proof
  show "\<not> IsNewer32 a a" for a by (simp add: IsNewer32_def)
  show "\<not> IsNewer32 b a" if "IsNewer32 a b" for a b
    using that uint32_gap [of a b] uint32_gap [of b a]
    by (auto simp: IsNewer32_alt uint_diff32 split: if_splits)
  show "IsNewer32 a b \<or> IsNewer32 b a" if "a \<noteq> b" for a b
    using that uint32_gap [of a b] uint32_gap [of b a]
    by (auto simp: IsNewer32_alt circ32)
qed


text \<open>
  C40: the two comparisons of the code base agree, and the later of two numbers does not
  depend on the order in which they are compared.
\<close>

theorem seq_num_comparisons:
  "AheadOf a b = IsNewerSequenceNumber a b \<and>
   (a \<noteq> b \<longleftrightarrow> AheadOf a b \<noteq> AheadOf b a) \<and>
   LatestSequenceNumber a b = LatestSequenceNumber b a \<and>
   LatestTimestamp t u = LatestTimestamp u t"
proof -
  have "LatestSequenceNumber = newer16.latest" "LatestTimestamp = newer32.latest"
    by (simp_all add: fun_eq_iff LatestSequenceNumber_def LatestTimestamp_def newer16.latest_def
        newer32.latest_def IsNewerSequenceNumber_def IsNewerTimestamp_def)
  then show ?thesis
    using newer16.latest_commute [of a b] newer32.latest_commute [of t u] newer16.asym [of a b]
      newer16.total [of a b] newer16.irrefl [of a]
    by (auto simp: AheadOf_IsNewer IsNewerSequenceNumber_def)
qed

text \<open>The circle of length \<open>M\<close>: the distances are residues, and the 64-bit sums do not overflow.\<close>

lemma ForwardDiffM_mod: "0 \<le> a \<Longrightarrow> a < M \<Longrightarrow> 0 \<le> b \<Longrightarrow> b < M \<Longrightarrow> ForwardDiffM M a b = (b - a) mod M"
proof -
  assume h: "0 \<le> a" "a < M" "0 \<le> b" "b < M"
  show ?thesis
  proof (cases "a \<le> b")
    case True then show ?thesis using h by (simp add: ForwardDiffM_def mod_pos_pos_trivial)
  next
    case False
    have "(b - a + M) mod M = b - a + M" using h False by (intro mod_pos_pos_trivial) auto
    then show ?thesis using False by (simp add: ForwardDiffM_def)
  qed
qed

lemma ReverseDiffM_mod: "0 \<le> a \<Longrightarrow> a < M \<Longrightarrow> 0 \<le> b \<Longrightarrow> b < M \<Longrightarrow> ReverseDiffM M a b = (a - b) mod M"
  using ForwardDiffM_mod [of b M a] by (simp add: ForwardDiffM_def ReverseDiffM_def)

lemma mod_Add_correct:
  assumes "a < M"
  shows "uint (mod_Add M a b) = (uint a + uint b) mod uint M"
proof -
  let ?M = "uint M" and ?a = "uint a" and ?r = "uint b mod uint M"
  have M: "?a < ?M" "0 \<le> ?a" "?M < 2 ^ 64"
    using assms uint_lt2p [of M] by (simp_all add: word_less_def)
  then have M0: "0 < ?M" by linarith
  have r: "0 \<le> ?r" "?r < ?M" using M0 by simp_all
  have b: "uint (b mod M) = ?r" by (simp add: uint_mod)
  have t: "uint (M - b mod M) = ?M - ?r" using r by (simp add: uint_sub_if' b)
  have s: "(uint a + uint b) mod ?M = (?a + ?r) mod ?M" by (simp add: mod_simps)
  show ?thesis
  proof (cases "?a + ?r < ?M")
    case True
    then have "mod_Add M a b = a + b mod M"
      by (simp add: mod_Add_def Let_def word_less_def t)
    then have "uint (mod_Add M a b) = ?a + ?r" using True M by (simp add: uint_plus_if' b)
    moreover have "(?a + ?r) mod ?M = ?a + ?r" using True M r by (intro mod_pos_pos_trivial) auto
    ultimately show ?thesis using s by simp
  next
    case False
    then have "mod_Add M a b = a - (M - b mod M)"
      by (simp add: mod_Add_def Let_def word_less_def t del: diff_diff_eq2)
    moreover have "uint (a - (M - b mod M)) = ?a - (?M - ?r)"
      using False by (simp only: uint_sub_if' [of a] t) simp
    ultimately have "uint (mod_Add M a b) = ?a + ?r - ?M" by simp
    moreover have "(?a + ?r - ?M) mod ?M = ?a + ?r - ?M" using False M r by (intro mod_pos_pos_trivial) auto
    ultimately show ?thesis using s by (simp add: minus_mod_self2)
  qed
qed

lemma mod_Subtract_correct:
  assumes "a < M"
  shows "uint (mod_Subtract M a b) = (uint a - uint b) mod uint M"
proof -
  let ?M = "uint M" and ?a = "uint a" and ?r = "uint b mod uint M"
  have M: "?a < ?M" "0 \<le> ?a" using assms by (simp_all add: word_less_def)
  then have M0: "0 < ?M" by linarith
  have r: "0 \<le> ?r" "?r < ?M" using M0 by simp_all
  have b: "uint (b mod M) = ?r" by (simp add: uint_mod)
  have s: "(uint a - uint b) mod ?M = (?a - ?r) mod ?M" by (simp add: mod_simps)
  show ?thesis
  proof (cases "?a < ?r")
    case True
    have d: "uint (b mod M - a) = ?r - ?a" using True by (simp add: uint_sub_if' b)
    have le: "?r - ?a \<le> ?M" using M r by linarith
    have "uint (mod_Subtract M a b) = ?a - ?r + ?M"
      using True le by (simp add: mod_Subtract_def Let_def word_less_def b uint_sub_if' [of M] d)
    moreover have "(?a - ?r + ?M) mod ?M = ?a - ?r + ?M"
      by (intro mod_pos_pos_trivial) (use True M r in linarith)+
    ultimately show ?thesis using s by simp
  next
    case False
    then have "uint (mod_Subtract M a b) = ?a - ?r"
      by (simp add: mod_Subtract_def Let_def word_less_def b uint_sub_if')
    then show ?thesis using s False M r by (simp add: mod_pos_pos_trivial)
  qed
qed
section \<open>Unwrapping follows the stream\<close>

text \<open>
  The contract of an unwrapper: \<open>at s x\<close> says that the number unwrapped last is \<open>x\<close>. A value whose
  distance from \<open>x\<close> is less than half of the circle is unwrapped to that very integer.
\<close>

locale unwrapper =
  fixes unwrap :: "'w::len word \<Rightarrow> 's \<Rightarrow> int \<times> 's" and fresh :: 's and at :: "'s \<Rightarrow> int \<Rightarrow> bool"
  assumes first: "fst (unwrap v fresh) = uint v" "at (snd (unwrap v fresh)) (uint v)"
    and near: "at s x \<Longrightarrow> 0 \<le> x \<Longrightarrow> 0 \<le> y \<Longrightarrow> 2 * \<bar>y - x\<bar> < 2 ^ LENGTH('w) \<Longrightarrow>
      fst (unwrap (word_of_int y) s) = y \<and> at (snd (unwrap (word_of_int y) s)) y"
begin

primrec unwrap_all :: "'w word list \<Rightarrow> 's \<Rightarrow> int list" where
  "unwrap_all [] s = []"
| "unwrap_all (v # vs) s = fst (unwrap v s) # unwrap_all vs (snd (unwrap v s))"

definition close_stream :: "int list \<Rightarrow> bool" where
  "close_stream xs \<longleftrightarrow> (\<forall>x \<in> set xs. 0 \<le> x) \<and> successively (\<lambda>x y. 2 * \<bar>y - x\<bar> < 2 ^ LENGTH('w)) xs"

lemma unwrap_all_from:
  "at s x \<Longrightarrow> close_stream (x # xs) \<Longrightarrow> unwrap_all (map word_of_int xs) s = xs"
proof (induction xs arbitrary: s x)
  case (Cons y ys)
  then have "at (snd (unwrap (word_of_int y) s)) y" "fst (unwrap (word_of_int y) s) = y"
    "close_stream (y # ys)"
    using near [of s x y] by (simp_all add: close_stream_def)
  then show ?case using Cons.IH by simp
qed simp

lemma unwrap_all_stream:
  assumes "close_stream xs" "xs \<noteq> [] \<Longrightarrow> hd xs < 2 ^ LENGTH('w)"
  shows "unwrap_all (map word_of_int xs) fresh = xs"
proof (cases xs)
  case (Cons x ys)
  then have "uint (word_of_int x :: 'w word) = x"
    using assms by (simp add: uint_word_of_int close_stream_def)
  then show ?thesis
    using Cons assms first [of "word_of_int x"] unwrap_all_from by simp
qed simp

end

lemma wrap_cases:
  fixes x y m :: int
  assumes "2 * \<bar>y - x\<bar> < m" 
  shows "y mod m = x mod m + (y - x) \<or> y mod m = x mod m + (y - x) - m \<or> y mod m = x mod m + (y - x) + m"
proof -
  let ?e = "x mod m + (y - x)"
  have m: "0 < m" by (rule le_less_trans [OF _ assms]) simp
  have e: "y mod m = ?e mod m" by (simp add: mod_simps)
  have r: "0 \<le> x mod m" "x mod m < m" using m by simp_all
  consider "?e < 0" | "0 \<le> ?e" "?e < m" | "m \<le> ?e" by linarith
  then show ?thesis
  proof cases
    case 1
    then have "(?e + m) mod m = ?e + m" using r assms by (intro mod_pos_pos_trivial) auto
    then show ?thesis using e by simp
  next
    case 2
    then show ?thesis using e by (simp add: mod_pos_pos_trivial)
  next
    case 3
    then have "(?e - m) mod m = ?e - m" using r assms by (intro mod_pos_pos_trivial) auto
    then show ?thesis using e by (simp add: minus_mod_self2)
  qed
qed

lemma UnwrapWithoutUpdate16_near:
  assumes "0 \<le> x" "0 \<le> y" "2 * \<bar>y - x\<bar> < 65536"
  shows "UnwrapWithoutUpdate16 (word_of_int y) (Some x) = y"
proof -
  have m: "uint (word_of_int x :: u16) = x mod 65536" "uint (word_of_int y :: u16) = y mod 65536"
    by (simp_all add: uint_word_of_int)
  show ?thesis
    using wrap_cases [OF assms(3)] assms pos_mod_bound [of 65536 x] pos_mod_bound [of 65536 y]
      pos_mod_sign [of 65536 x] pos_mod_sign [of 65536 y]
    by (elim disjE) (auto simp: UnwrapWithoutUpdate16_def IsNewer16_alt uint_diff16 m Let_def)
qed


lemma UnwrapWithoutUpdate32_near:
  assumes "0 \<le> x" "0 \<le> y" "2 * \<bar>y - x\<bar> < 4294967296"
  shows "UnwrapWithoutUpdate32 (word_of_int y) (Some x) = y"
proof -
  have m: "uint (word_of_int x :: u32) = x mod 4294967296"
    "uint (word_of_int y :: u32) = y mod 4294967296"
    by (simp_all add: uint_word_of_int)
  show ?thesis
    using wrap_cases [OF assms(3)] assms pos_mod_bound [of 4294967296 x] pos_mod_bound [of 4294967296 y]
      pos_mod_sign [of 4294967296 x] pos_mod_sign [of 4294967296 y]
    by (elim disjE) (auto simp: UnwrapWithoutUpdate32_def IsNewer32_alt uint_diff32 m Let_def)
qed

lemma SeqNumUnwrap_near:
  assumes "2 * \<bar>y - x\<bar> < 65536"
  shows "SeqNumUnwrap (word_of_int y) (x, Some (word_of_int x)) = (y, y, Some (word_of_int y))"
proof -
  have m: "uint (word_of_int x :: u16) = x mod 65536" "uint (word_of_int y :: u16) = y mod 65536"
    by (simp_all add: uint_word_of_int)
  show ?thesis
    using wrap_cases [OF assms] assms pos_mod_bound [of 65536 x] pos_mod_bound [of 65536 y]
      pos_mod_sign [of 65536 x] pos_mod_sign [of 65536 y]
    by (elim disjE) (auto simp: SeqNumUnwrap_def AheadOrAt_def ForwardDiff_def circ16 m Let_def)
qed

interpretation unwrapper16: unwrapper Unwrap16 None "\<lambda>s x. s = Some x"
  by unfold_locales
    (auto simp: Unwrap16_def Let_def UnwrapWithoutUpdate16_near UnwrapWithoutUpdate16_def [of _ None])

interpretation unwrapper32: unwrapper Unwrap32 None "\<lambda>s x. s = Some x"
  by unfold_locales
    (auto simp: Unwrap32_def Let_def UnwrapWithoutUpdate32_near UnwrapWithoutUpdate32_def [of _ None])

interpretation seq_unwrapper: unwrapper SeqNumUnwrap "(0, None)" "\<lambda>s x. s = (x, Some (word_of_int x))"
  by unfold_locales (auto simp: SeqNumUnwrap_near, simp_all add: SeqNumUnwrap_def Let_def)

text \<open>The numbers an unwrapper returns for a stream of wrapped values.\<close>

fun run_unwrap :: "('w::len word \<Rightarrow> 's \<Rightarrow> int \<times> 's) \<Rightarrow> 'w word list \<Rightarrow> 's \<Rightarrow> int list" where
  "run_unwrap f [] s = []"
| "run_unwrap f (v # vs) s = (let (x, s') = f v s in x # run_unwrap f vs s')"

definition stream_ok :: "nat \<Rightarrow> int list \<Rightarrow> bool" where
  "stream_ok bits xs \<longleftrightarrow> (\<forall>x \<in> set xs. 0 \<le> x) \<and> (xs \<noteq> [] \<longrightarrow> hd xs < 2 ^ bits) \<and>
     successively (\<lambda>x y. 2 * \<bar>y - x\<bar> < 2 ^ bits) xs"

lemma run_unwrap16: "run_unwrap Unwrap16 vs s = unwrapper16.unwrap_all vs s"
  by (induction vs arbitrary: s) (auto simp: split_beta Let_def)

lemma run_unwrap32: "run_unwrap Unwrap32 vs s = unwrapper32.unwrap_all vs s"
  by (induction vs arbitrary: s) (auto simp: split_beta Let_def)

lemma run_SeqNumUnwrap: "run_unwrap SeqNumUnwrap vs s = seq_unwrapper.unwrap_all vs s"
  by (induction vs arbitrary: s) (auto simp: split_beta Let_def)

text \<open>
  A stream of non-negative integers that starts below the modulus and moves by less than
  half of the circle from one number to the next is recovered exactly from its residues, by
  both unwrapper classes, for sequence numbers and for timestamps.
\<close>

lemma unwrap_follows_stream:
  assumes "stream_ok 16 xs" "stream_ok 32 ts"
  shows "run_unwrap Unwrap16 (map word_of_int xs) None = xs \<and>
    run_unwrap SeqNumUnwrap (map word_of_int xs) (0, None) = xs \<and>
    run_unwrap Unwrap32 (map word_of_int ts) None = ts"
  using assms
  by (auto simp: run_unwrap16 run_unwrap32 run_SeqNumUnwrap stream_ok_def
      intro!: unwrapper16.unwrap_all_stream unwrapper32.unwrap_all_stream seq_unwrapper.unwrap_all_stream
      simp: unwrapper16.close_stream_def unwrapper32.close_stream_def seq_unwrapper.close_stream_def)

lemma unwrap_follows_stream_witness:
  "run_unwrap Unwrap16 (map word_of_int [65534, 65537, 65535, 95536, 125536]) None =
     [65534, 65537, 65535, 95536, 125536] \<and>
   run_unwrap SeqNumUnwrap (map word_of_int [65534, 65537, 65535, 95536, 125536]) (0, None) =
     [65534, 65537, 65535, 95536, 125536] \<and>
   run_unwrap Unwrap32 (map word_of_int [4294967295, 4294967303]) None = [4294967295, 4294967303]"
  by (rule unwrap_follows_stream) (simp_all add: stream_ok_def)

end
