(* ===== verification/PacketHistory.thy ===== *)
theory PacketHistory
  imports RtpPacket SeqNum "HOL-Library.Monad_Syntax"
begin

text \<open>
  The history of sent packets, \<open>RtpPacketHistory\<close>
  (\<open>modules/rtp_rtcp/source/rtp_packet_history.cc\<close>): one object for each path keeps the packets that may
  have to be sent again, in slots ordered by the path sequence number. Reading through a null
  packet pointer or an empty optional, which is undefined in C++, gives \<open>None\<close>; the invariant
  shows that it cannot happen. The time of \<open>clock_\<close> is an argument. \<open>padding_priority_\<close>, a set of
  pointers to slots ordered by \<open>MoreUseful\<close>, is the sorted list of the keys the comparison
  reads; \<open>packets_inserted_\<close> is an unbounded number (64 bits in the code).
\<close>

section \<open>State\<close>

datatype StorageMode = kDisabled | kStoreAndCull

record StoredPacket =
  sp_send_time_ms :: "int option"
  sp_packet :: "RtpPacketToSend option"
  sp_pending :: bool
  sp_insert_order :: nat
  sp_times_retransmitted :: nat

type_synonym prio_key = "nat \<times> nat"

record packet_history =
  ph_enable_padding_prio :: bool
  ph_number_to_store :: nat
  ph_mode :: StorageMode
  ph_rtt_ms :: int
  ph_packets :: "StoredPacket list"
  ph_inserted :: nat
  ph_padding :: "prio_key list"

record PacketState =
  ps_rtp_sequence_number :: u16
  ps_send_time_ms :: "int option"
  ps_capture_time_ms :: int
  ps_ssrc :: u32
  ps_packet_size :: nat
  ps_times_retransmitted :: nat
  ps_pending :: bool

definition kMaxCapacity :: nat where "kMaxCapacity = 9600"
definition kMaxPaddingtHistory :: nat where "kMaxPaddingtHistory = 63"
definition kMinPacketDurationMs :: int where "kMinPacketDurationMs = 1000"
definition kMinPacketDurationRtt :: int where "kMinPacketDurationRtt = 3"
definition kPacketCullingDelayFactor :: int where "kPacketCullingDelayFactor = 3"

definition stored_packet :: "RtpPacketToSend option \<Rightarrow> int option \<Rightarrow> nat \<Rightarrow> StoredPacket" where
  "stored_packet packet send_time_ms insert_order =
     \<lparr> sp_send_time_ms = send_time_ms, sp_packet = packet, sp_pending = (send_time_ms = None),
       sp_insert_order = insert_order, sp_times_retransmitted = 0 \<rparr>"

definition packet_history_init :: "bool \<Rightarrow> packet_history" where
  "packet_history_init enable_padding_prio =
     \<lparr> ph_enable_padding_prio = enable_padding_prio, ph_number_to_store = 0, ph_mode = kDisabled,
       ph_rtt_ms = - 1, ph_packets = [], ph_inserted = 0, ph_padding = [] \<rparr>"

section \<open>The priority set of padding packets\<close>

fun MoreUseful :: "prio_key \<Rightarrow> prio_key \<Rightarrow> bool" where
  "MoreUseful (t1, o1) (t2, o2) = (if t1 \<noteq> t2 then t1 < t2 else o1 > o2)"

definition prio_key :: "StoredPacket \<Rightarrow> prio_key" where
  "prio_key sp = (sp_times_retransmitted sp, sp_insert_order sp)"

definition prio_erase :: "prio_key \<Rightarrow> prio_key list \<Rightarrow> prio_key list" where
  "prio_erase k ks = filter (\<lambda>k'. k' \<noteq> k) ks"

fun prio_insert :: "prio_key \<Rightarrow> prio_key list \<Rightarrow> prio_key list" where
  "prio_insert k [] = [k]"
| "prio_insert k (k' # ks) =
     (if k = k' then k' # ks else if MoreUseful k k' then k # k' # ks else k' # prio_insert k ks)"

definition IncrementTimesRetransmitted :: "nat \<Rightarrow> packet_history \<Rightarrow> packet_history" where
  "IncrementTimesRetransmitted i h =
     (let sp = ph_packets h ! i;
          sp' = sp\<lparr>sp_times_retransmitted := sp_times_retransmitted sp + 1\<rparr>;
          in_priority_set = ph_enable_padding_prio h \<and> prio_key sp \<in> set (ph_padding h);
          padding = (if in_priority_set then prio_insert (prio_key sp') (prio_erase (prio_key sp) (ph_padding h))
                     else ph_padding h)
      in h\<lparr>ph_packets := (ph_packets h)[i := sp'], ph_padding := padding\<rparr>)"

section \<open>Slots\<close>

definition GetPacketIndex :: "u16 \<Rightarrow> packet_history \<Rightarrow> int option" where
  "GetPacketIndex sequence_number h =
     (case ph_packets h of
        [] \<Rightarrow> Some 0
      | sp # _ \<Rightarrow>
          (case sp_packet sp of
             None \<Rightarrow> None
           | Some p \<Rightarrow>
               let first_seq = rp_subflow_seq p;
                   packet_index = uint sequence_number - uint first_seq
               in Some
                 (if first_seq = sequence_number then 0
                  else if IsNewerSequenceNumber sequence_number first_seq
                  then if sequence_number < first_seq then packet_index + 0x10000 else packet_index
                  else if sequence_number > first_seq then packet_index - 0x10000
                  else packet_index)))"

definition RemovePacket :: "nat \<Rightarrow> packet_history \<Rightarrow> RtpPacketToSend option \<times> packet_history" where
  "RemovePacket i h =
     (let sp = ph_packets h ! i;
          slots = (ph_packets h)[i := sp\<lparr>sp_packet := None\<rparr>];
          padding = (if ph_enable_padding_prio h then prio_erase (prio_key sp) (ph_padding h)
                     else ph_padding h);
          slots = (if i = 0 then dropWhile (\<lambda>sp. sp_packet sp = None) slots else slots)
      in (sp_packet sp, h\<lparr>ph_packets := slots, ph_padding := padding\<rparr>))"

definition slot_at :: "int \<Rightarrow> packet_history \<Rightarrow> nat option" where
  "slot_at index h =
     (if index < 0 \<or> nat index \<ge> length (ph_packets h) \<or> sp_packet (ph_packets h ! nat index) = None
      then None else Some (nat index))"

text \<open>The pointer \<open>GetStoredPacket\<close> returns is the index of a slot; the outer \<open>option\<close> is undefinedness.\<close>

definition GetStoredPacket :: "u16 \<Rightarrow> packet_history \<Rightarrow> nat option option" where
  "GetStoredPacket sequence_number h =
     map_option (\<lambda>index. slot_at index h) (GetPacketIndex sequence_number h)"

definition VerifyRtt :: "StoredPacket \<Rightarrow> int \<Rightarrow> packet_history \<Rightarrow> bool" where
  "VerifyRtt packet now_ms h =
     (case sp_send_time_ms packet of
        None \<Rightarrow> True
      | Some t \<Rightarrow> \<not> (sp_times_retransmitted packet > 0 \<and> now_ms < t + ph_rtt_ms h))"

definition packet_duration_ms :: "packet_history \<Rightarrow> int" where
  "packet_duration_ms h = max (kMinPacketDurationRtt * ph_rtt_ms h) kMinPacketDurationMs"

lemma RemovePacket_front_less:
  "ph_packets h \<noteq> [] \<Longrightarrow> length (ph_packets (snd (RemovePacket 0 h))) < length (ph_packets h)"
  by (cases "ph_packets h")
    (auto simp: RemovePacket_def Let_def intro: le_imp_less_Suc [OF length_dropWhile_le])

function CullOldPackets :: "int \<Rightarrow> packet_history \<Rightarrow> packet_history option" where
  "CullOldPackets now_ms h =
     (if ph_packets h = [] then Some h
      else if length (ph_packets h) \<ge> kMaxCapacity
      then CullOldPackets now_ms (snd (RemovePacket 0 h))
      else let sp = hd (ph_packets h) in
        if sp_pending sp then Some h
        else case sp_send_time_ms sp of
          None \<Rightarrow> None
        | Some t \<Rightarrow>
            if t + packet_duration_ms h > now_ms then Some h
            else if length (ph_packets h) \<ge> ph_number_to_store h \<or>
                    t + packet_duration_ms h * kPacketCullingDelayFactor \<le> now_ms
            then CullOldPackets now_ms (snd (RemovePacket 0 h))
            else Some h)"
  by pat_completeness auto
termination
  by (relation "measure (\<lambda>(_, h). length (ph_packets h))") (auto intro: RemovePacket_front_less)

section \<open>Operations\<close>

definition Reset :: "packet_history \<Rightarrow> packet_history" where
  "Reset h = h\<lparr>ph_packets := [], ph_padding := []\<rparr>"

definition Clear :: "packet_history \<Rightarrow> packet_history" where
  "Clear h = Reset h"

definition SetStorePacketsStatus :: "StorageMode \<Rightarrow> nat \<Rightarrow> packet_history \<Rightarrow> packet_history" where
  "SetStorePacketsStatus mode number_to_store h =
     (Reset h)\<lparr>ph_mode := mode, ph_number_to_store := min kMaxCapacity number_to_store\<rparr>"

definition SetRtt :: "int \<Rightarrow> int \<Rightarrow> packet_history \<Rightarrow> packet_history option" where
  "SetRtt now_ms rtt_ms h =
     (let h = h\<lparr>ph_rtt_ms := rtt_ms\<rparr>
      in if ph_mode h \<noteq> kDisabled then CullOldPackets now_ms h else Some h)"

definition expand :: "int \<Rightarrow> packet_history \<Rightarrow> packet_history" where
  "expand packet_index h =
     (let filler = stored_packet None None 0;
          slots = replicate (nat (- packet_index)) filler @ ph_packets h
      in h\<lparr>ph_packets := slots @ replicate (nat packet_index + 1 - length slots) filler\<rparr>)"

definition add_padding :: "prio_key \<Rightarrow> packet_history \<Rightarrow> packet_history" where
  "add_padding k h =
     (if ph_enable_padding_prio h
      then let ks = (if length (ph_padding h) \<ge> kMaxPaddingtHistory - 1 then butlast (ph_padding h)
                     else ph_padding h)
           in h\<lparr>ph_padding := prio_insert k ks\<rparr>
      else h)"

definition PutRtpPacket :: "int \<Rightarrow> RtpPacketToSend \<Rightarrow> int option \<Rightarrow> packet_history \<Rightarrow> packet_history option" where
  "PutRtpPacket now_ms packet send_time_ms h =
     (if ph_mode h = kDisabled then Some h
      else do {
        h \<leftarrow> CullOldPackets now_ms h;
        let rtp_seq_no = rp_subflow_seq packet;
        packet_index \<leftarrow> GetPacketIndex rtp_seq_no h;
        (packet_index, h) \<leftarrow>
          (case slot_at packet_index h of
             None \<Rightarrow> Some (packet_index, h)
           | Some i \<Rightarrow>
               let h = snd (RemovePacket i h)
               in map_option (\<lambda>packet_index. (packet_index, h)) (GetPacketIndex rtp_seq_no h));
        let h = expand packet_index h;
        let i = nat packet_index;
        let sp = stored_packet (Some packet) send_time_ms (ph_inserted h);
        let h = h\<lparr>ph_packets := (ph_packets h)[i := sp], ph_inserted := ph_inserted h + 1\<rparr>;
        Some (add_padding (prio_key sp) h) })"

definition upd_slot :: "nat \<Rightarrow> (StoredPacket \<Rightarrow> StoredPacket) \<Rightarrow> packet_history \<Rightarrow> packet_history" where
  "upd_slot i f h = h\<lparr>ph_packets := (ph_packets h)[i := f (ph_packets h ! i)]\<rparr>"

definition GetPacketAndSetSendTime ::
  "int \<Rightarrow> u16 \<Rightarrow> packet_history \<Rightarrow> (RtpPacketToSend option \<times> packet_history) option" where
  "GetPacketAndSetSendTime now_ms sequence_number h =
     (if ph_mode h = kDisabled then Some (None, h)
      else do {
        slot \<leftarrow> GetStoredPacket sequence_number h;
        case slot of
          None \<Rightarrow> Some (None, h)
        | Some i \<Rightarrow>
            let sp = ph_packets h ! i in
            if \<not> VerifyRtt sp now_ms h then Some (None, h)
            else let h = (if sp_send_time_ms sp \<noteq> None then IncrementTimesRetransmitted i h else h);
                     h = upd_slot i (\<lambda>sp. sp\<lparr>sp_send_time_ms := Some now_ms, sp_pending := False\<rparr>) h
                 in Some (sp_packet sp, h) })"

text \<open>
  The callback \<open>encapsulate\<close> may change the state of the caller, \<open>s\<close>; \<open>None\<close> is the null pointer.
\<close>

definition GetPacketAndMarkAsPending ::
  "int \<Rightarrow> u16 \<Rightarrow> (RtpPacketToSend \<Rightarrow> 's \<Rightarrow> RtpPacketToSend option \<times> 's) \<Rightarrow> packet_history \<Rightarrow> 's \<Rightarrow>
     (RtpPacketToSend option \<times> packet_history \<times> 's) option" where
  "GetPacketAndMarkAsPending now_ms sequence_number encapsulate h s =
     (if ph_mode h = kDisabled then Some (None, h, s)
      else do {
        slot \<leftarrow> GetStoredPacket sequence_number h;
        case slot of
          None \<Rightarrow> Some (None, h, s)
        | Some i \<Rightarrow>
            let sp = ph_packets h ! i in
            if sp_pending sp then Some (None, h, s)
            else if \<not> VerifyRtt sp now_ms h then Some (None, h, s)
            else case sp_packet sp of
              None \<Rightarrow> None
            | Some p \<Rightarrow>
                let (e, s) = encapsulate p s
                in Some (e, if e \<noteq> None then upd_slot i (\<lambda>sp. sp\<lparr>sp_pending := True\<rparr>) h else h, s) })"

definition MarkPacketAsSent :: "int \<Rightarrow> u16 \<Rightarrow> packet_history \<Rightarrow> packet_history option" where
  "MarkPacketAsSent now_ms sequence_number h =
     (if ph_mode h = kDisabled then Some h
      else do {
        slot \<leftarrow> GetStoredPacket sequence_number h;
        case slot of
          None \<Rightarrow> Some h
        | Some i \<Rightarrow>
            Some (IncrementTimesRetransmitted i
              (upd_slot i (\<lambda>sp. sp\<lparr>sp_send_time_ms := Some now_ms, sp_pending := False\<rparr>) h)) })"

definition StoredPacketToPacketState :: "StoredPacket \<Rightarrow> PacketState option" where
  "StoredPacketToPacketState sp =
     map_option (\<lambda>p. \<lparr> ps_rtp_sequence_number = rp_sequence_number p, ps_send_time_ms = sp_send_time_ms sp,
       ps_capture_time_ms = rp_capture_time_ms p, ps_ssrc = rp_ssrc p, ps_packet_size = packet_bytes p,
       ps_times_retransmitted = sp_times_retransmitted sp, ps_pending = sp_pending sp \<rparr>) (sp_packet sp)"

definition GetPacketState :: "int \<Rightarrow> u16 \<Rightarrow> packet_history \<Rightarrow> PacketState option option" where
  "GetPacketState now_ms sequence_number h =
     (if ph_mode h = kDisabled then Some None
      else do {
        slot \<leftarrow> GetStoredPacket sequence_number h;
        case slot of
          None \<Rightarrow> Some None
        | Some i \<Rightarrow>
            let sp = ph_packets h ! i in
            if \<not> VerifyRtt sp now_ms h then Some None
            else map_option Some (StoredPacketToPacketState sp) })"

fun last_slot :: "StoredPacket list \<Rightarrow> nat option" where
  "last_slot [] = None"
| "last_slot (sp # sps) =
     (case last_slot sps of Some i \<Rightarrow> Some (Suc i)
      | None \<Rightarrow> if sp_packet sp \<noteq> None then Some 0 else None)"

fun prio_slot :: "nat \<Rightarrow> StoredPacket list \<Rightarrow> nat option" where
  "prio_slot k [] = None"
| "prio_slot k (sp # sps) =
     (if sp_packet sp \<noteq> None \<and> sp_insert_order sp = k then Some 0 else map_option Suc (prio_slot k sps))"

text \<open>The packet to send as padding; the outer \<open>None\<close> is a dangling pointer in the priority set.\<close>

definition best_packet :: "packet_history \<Rightarrow> nat option option" where
  "best_packet h =
     (if ph_enable_padding_prio h
      then case ph_padding h of [] \<Rightarrow> Some None | k # _ \<Rightarrow> map_option Some (prio_slot (snd k) (ph_packets h))
      else Some (last_slot (ph_packets h)))"

definition GetPayloadPaddingPacket ::
  "int \<Rightarrow> (RtpPacketToSend \<Rightarrow> 's \<Rightarrow> RtpPacketToSend option \<times> 's) \<Rightarrow> packet_history \<Rightarrow> 's \<Rightarrow>
     (RtpPacketToSend option \<times> packet_history \<times> 's) option" where
  "GetPayloadPaddingPacket now_ms encapsulate h s =
     (if ph_mode h = kDisabled then Some (None, h, s)
      else do {
        best \<leftarrow> best_packet h;
        case best of
          None \<Rightarrow> Some (None, h, s)
        | Some i \<Rightarrow>
            let sp = ph_packets h ! i in
            if sp_pending sp then Some (None, h, s)
            else case sp_packet sp of
              None \<Rightarrow> None
            | Some p \<Rightarrow>
                let (e, s) = encapsulate p s
                in Some (e, if e \<noteq> None
                   then IncrementTimesRetransmitted i (upd_slot i (\<lambda>sp. sp\<lparr>sp_send_time_ms := Some now_ms\<rparr>) h)
                   else h, s) })"

fun CullAcknowledgedPackets :: "u16 list \<Rightarrow> packet_history \<Rightarrow> packet_history option" where
  "CullAcknowledgedPackets [] h = Some h"
| "CullAcknowledgedPackets (sequence_number # sequence_numbers) h =
     do { packet_index \<leftarrow> GetPacketIndex sequence_number h;
          CullAcknowledgedPackets sequence_numbers
            (if packet_index < 0 \<or> nat packet_index \<ge> length (ph_packets h) then h
             else snd (RemovePacket (nat packet_index) h)) }"

definition SetPendingTransmission :: "u16 \<Rightarrow> packet_history \<Rightarrow> (bool \<times> packet_history) option" where
  "SetPendingTransmission sequence_number h =
     (if ph_mode h = kDisabled then Some (False, h)
      else do {
        slot \<leftarrow> GetStoredPacket sequence_number h;
        case slot of
          None \<Rightarrow> Some (False, h)
        | Some i \<Rightarrow> Some (True, upd_slot i (\<lambda>sp. sp\<lparr>sp_pending := True\<rparr>) h) })"

section \<open>Invariant\<close>

definition live :: "StoredPacket list \<Rightarrow> StoredPacket list" where
  "live sps = filter (\<lambda>sp. sp_packet sp \<noteq> None) sps"

text \<open>The packet in slot \<open>i\<close> has the path sequence number \<open>b + i\<close>.\<close>

fun seqs_ok :: "u16 \<Rightarrow> StoredPacket list \<Rightarrow> bool" where
  "seqs_ok b [] \<longleftrightarrow> True"
| "seqs_ok b (sp # sps) \<longleftrightarrow>
     (case sp_packet sp of None \<Rightarrow> True | Some p \<Rightarrow> rp_subflow_seq p = b) \<and> seqs_ok (b + 1) sps"

definition times_ok :: "StoredPacket list \<Rightarrow> bool" where
  "times_ok sps \<longleftrightarrow> (\<forall>sp \<in> set (live sps). sp_pending sp \<or> sp_send_time_ms sp \<noteq> None)"

definition orders_ok :: "nat \<Rightarrow> StoredPacket list \<Rightarrow> bool" where
  "orders_ok n sps \<longleftrightarrow>
     distinct (map sp_insert_order (live sps)) \<and> (\<forall>sp \<in> set (live sps). sp_insert_order sp < n)"

definition prio_ok :: "StoredPacket list \<Rightarrow> prio_key list \<Rightarrow> bool" where
  "prio_ok sps ks \<longleftrightarrow> set ks \<subseteq> prio_key ` set (live sps)"

text \<open>
  The invariant: the first slot is occupied, slots and sequence numbers correspond, a packet
  that is not pending has a send time, at most \<open>kMaxCapacity\<close> packets are stored, and the priority
  set refers to stored packets only.
\<close>

definition hist_inv :: "packet_history \<Rightarrow> bool" where
  "hist_inv h \<longleftrightarrow>
     (ph_packets h \<noteq> [] \<longrightarrow> sp_packet (hd (ph_packets h)) \<noteq> None) \<and>
     (\<exists>b. seqs_ok b (ph_packets h)) \<and> times_ok (ph_packets h) \<and>
     orders_ok (ph_inserted h) (ph_packets h) \<and> prio_ok (ph_packets h) (ph_padding h) \<and>
     length (live (ph_packets h)) \<le> kMaxCapacity \<and>
     (\<not> ph_enable_padding_prio h \<longrightarrow> ph_padding h = [])"

lemma live_simps [simp]:
  "live [] = []" "live (sp # sps) = (if sp_packet sp = None then live sps else sp # live sps)"
  "live (xs @ ys) = live xs @ live ys"
  by (simp_all add: live_def)

lemma live_replicate [simp]: "sp_packet sp = None \<Longrightarrow> live (replicate n sp) = []"
  by (induction n) auto

lemma hist_inv_init: "hist_inv (packet_history_init e)"
  by (simp add: hist_inv_def packet_history_init_def times_ok_def orders_ok_def prio_ok_def)

lemma seqs_ok_append:
  "seqs_ok b (xs @ ys) \<longleftrightarrow> seqs_ok b xs \<and> seqs_ok (b + of_nat (length xs)) ys"
  by (induction xs arbitrary: b) (auto simp: algebra_simps)

lemma seqs_ok_replicate_None: "sp_packet f = None \<Longrightarrow> seqs_ok b (replicate n f)"
  by (induction n arbitrary: b) auto

lemma seqs_ok_nth:
  "seqs_ok b sps \<Longrightarrow> i < length sps \<Longrightarrow> sp_packet (sps ! i) = Some p \<Longrightarrow> rp_subflow_seq p = b + of_nat i"
proof (induction sps arbitrary: b i)
  case (Cons sp sps)
  then show ?case by (cases i) (auto simp: algebra_simps)
qed simp

lemma dropWhile_split:
  "\<exists>n. xs = take n xs @ dropWhile P xs \<and> (\<forall>x \<in> set (take n xs). P x)"
  by (rule exI [of _ "length (takeWhile P xs)"])
    (metis takeWhile_dropWhile_id takeWhile_eq_take set_takeWhileD)

lemma live_dropWhile: "live (dropWhile (\<lambda>sp. sp_packet sp = None) sps) = live sps"
  by (induction sps) auto

lemma seqs_ok_dropWhile: "seqs_ok b sps \<Longrightarrow> \<exists>b. seqs_ok b (dropWhile P sps)"
  by (metis seqs_ok_append takeWhile_dropWhile_id)

text \<open>A slot in the middle.\<close>

lemma slot_split:
  assumes "i < length sps"
  obtains xs ys where "sps = xs @ sps ! i # ys" "length xs = i" "\<And>y. sps[i := y] = xs @ y # ys"
  using id_take_nth_drop [OF assms] upd_conv_take_nth_drop [OF assms] assms
  by (metis length_take min.absorb4)

lemma seqs_ok_update:
  assumes "seqs_ok b sps" "i < length sps"
    "\<And>p. sp_packet sp = Some p \<Longrightarrow> rp_subflow_seq p = b + of_nat i"
  shows "seqs_ok b (sps[i := sp])"
proof -
  obtain xs ys where s: "sps = xs @ sps ! i # ys" "length xs = i" "\<And>y. sps[i := y] = xs @ y # ys"
    using slot_split [OF assms(2)] by metis
  have "seqs_ok b xs \<and> seqs_ok (b + of_nat i) (sps ! i # ys)"
    using assms(1) s(2) by (subst (asm) s(1)) (simp add: seqs_ok_append)
  then show ?thesis
    using assms(3) s(2) by (simp add: s(3) seqs_ok_append split: option.splits)
qed

section \<open>The index of a sequence number\<close>

lemma GetPacketIndex_empty [simp]: "ph_packets h = [] \<Longrightarrow> GetPacketIndex q h = Some 0"
  by (simp add: GetPacketIndex_def)

definition seq_index :: "u16 \<Rightarrow> u16 \<Rightarrow> int" where
  "seq_index q f = (if IsNewerSequenceNumber q f then uint (q - f) else - uint (f - q))"

lemma GetPacketIndex_front:
  assumes "ph_packets h = sp # sps" "sp_packet sp = Some p"
  shows "GetPacketIndex q h = Some (seq_index q (rp_subflow_seq p))"
  using assms uint16_gap [of q "rp_subflow_seq p"] uint16_gap [of "rp_subflow_seq p" q]
  by (auto simp: GetPacketIndex_def seq_index_def IsNewerSequenceNumber_def IsNewer16_alt circ16 Let_def)

lemma seq_index_word: "word_of_int (seq_index q f) = q - f"
  by (simp add: seq_index_def)

lemma seq_index_bounds: "- 0x8000 \<le> seq_index q f \<and> seq_index q f \<le> 0x8000"
  using uint16_gap [of q f] uint16_gap [of f q]
  by (auto simp: seq_index_def IsNewerSequenceNumber_def IsNewer16_alt uint_diff16)


section \<open>Every operation keeps the invariant\<close>

lemma live_remove:
  assumes "i < length sps"
  obtains A B C where "live sps = A @ B @ C" "live (sps[i := (sps ! i)\<lparr>sp_packet := None\<rparr>]) = A @ C"
    "set B \<subseteq> {sps ! i}"
proof -
  obtain xs ys where s: "sps = xs @ sps ! i # ys" "\<And>y. sps[i := y] = xs @ y # ys"
    using slot_split [OF assms] by metis
  have "live (sps[i := (sps ! i)\<lparr>sp_packet := None\<rparr>]) = live xs @ live ys" by (simp add: s(2))
  moreover have "live sps = live xs @ live [sps ! i] @ live ys" by (subst s(1)) simp
  ultimately show ?thesis by (intro that [of "live xs" "live [sps ! i]" "live ys"]) auto
qed

lemma prio_erase_set [simp]: "set (prio_erase k ks) = set ks - {k}"
  by (auto simp: prio_erase_def)

lemma prio_insert_set [simp]: "set (prio_insert k ks) = insert k (set ks)"
  by (induction ks) auto

lemma RemovePacket_inv:
  assumes "hist_inv h" "i < length (ph_packets h)"
  shows "hist_inv (snd (RemovePacket i h))"
proof -
  let ?sps = "ph_packets h" and ?h = "snd (RemovePacket i h)"
  let ?upd = "?sps[i := (?sps ! i)\<lparr>sp_packet := None\<rparr>]"
  obtain A B C where L: "live ?sps = A @ B @ C" "live ?upd = A @ C" "set B \<subseteq> {?sps ! i}"
    using live_remove [OF assms(2)] by metis
  have live: "live (ph_packets ?h) = A @ C"
    using L(2) by (auto simp: RemovePacket_def Let_def live_dropWhile)
  obtain b where b: "seqs_ok b ?sps" using assms by (auto simp: hist_inv_def)
  then have "seqs_ok b ?upd" using assms(2) by (intro seqs_ok_update) auto
  then have "\<exists>b. seqs_ok b (ph_packets ?h)"
    using seqs_ok_dropWhile by (auto simp: RemovePacket_def Let_def)
  moreover have "ph_packets ?h \<noteq> [] \<longrightarrow> sp_packet (hd (ph_packets ?h)) \<noteq> None"
    using assms hd_dropWhile [of "\<lambda>sp. sp_packet sp = None" ?upd]
    by (cases i; cases ?sps) (auto simp: RemovePacket_def Let_def hist_inv_def)
  moreover have "prio_ok (ph_packets ?h) (ph_padding ?h)"
    using assms L unfolding prio_ok_def live
    by (auto simp: RemovePacket_def Let_def hist_inv_def prio_ok_def)
  moreover have "times_ok (ph_packets ?h)" "length (live (ph_packets ?h)) \<le> kMaxCapacity"
    "orders_ok (ph_inserted ?h) (ph_packets ?h)"
    using assms L(1) unfolding hist_inv_def times_ok_def orders_ok_def live
    by (auto simp: RemovePacket_def Let_def)
  moreover have "\<not> ph_enable_padding_prio ?h \<longrightarrow> ph_padding ?h = []"
    using assms by (simp add: RemovePacket_def Let_def hist_inv_def)
  ultimately show ?thesis unfolding hist_inv_def by blast
qed

text \<open>Replacing a stored packet's bookkeeping: the send time, the pending mark, the counter.\<close>

lemma live_update:
  assumes "i < length sps" "sp_packet (sps ! i) \<noteq> None" "sp_packet sp \<noteq> None"
  obtains A C where "live sps = A @ sps ! i # C" "live (sps[i := sp]) = A @ sp # C"
proof -
  obtain xs ys where s: "sps = xs @ sps ! i # ys" "\<And>y. sps[i := y] = xs @ y # ys"
    using slot_split [OF assms(1)] by metis
  have "live (sps[i := sp]) = live xs @ sp # live ys" using assms by (simp add: s(2))
  moreover have "live sps = live xs @ sps ! i # live ys" using assms by (subst s(1)) simp
  ultimately show ?thesis by (intro that)
qed

lemma update_inv:
  assumes "hist_inv h" "i < length (ph_packets h)" "sp_packet (ph_packets h ! i) = Some p"
    "sp_packet sp = Some p" "sp_insert_order sp = sp_insert_order (ph_packets h ! i)"
    "sp_pending sp \<or> sp_send_time_ms sp \<noteq> None"
    "set ks \<subseteq> insert (prio_key sp) (set (ph_padding h) - {prio_key (ph_packets h ! i)})"
    "\<not> ph_enable_padding_prio h \<longrightarrow> ks = []"
  shows "hist_inv (h\<lparr>ph_packets := (ph_packets h)[i := sp], ph_padding := ks\<rparr>)"
proof -
  let ?sps = "ph_packets h"
  obtain A C where L: "live ?sps = A @ ?sps ! i # C" "live (?sps[i := sp]) = A @ sp # C"
    using live_update [OF assms(2), of sp] assms(3,4) by auto
  obtain b where b: "seqs_ok b ?sps" using assms(1) by (auto simp: hist_inv_def)
  then have "seqs_ok b (?sps[i := sp])"
    using assms(2-4) seqs_ok_nth [OF b assms(2,3)] by (intro seqs_ok_update) auto
  moreover have "?sps[i := sp] \<noteq> [] \<longrightarrow> sp_packet (hd (?sps[i := sp])) \<noteq> None"
    using assms(1-4) by (cases ?sps; cases i) (auto simp: hist_inv_def)
  moreover have "times_ok (?sps[i := sp])" using assms(1,6) L by (auto simp: hist_inv_def times_ok_def)
  moreover have "orders_ok (ph_inserted h) (?sps[i := sp])"
    using assms(1,5) L by (auto simp: hist_inv_def orders_ok_def)
  moreover have "prio_ok (?sps[i := sp]) ks"
    using assms(1,7) L unfolding hist_inv_def prio_ok_def by auto
  moreover have "length (live (?sps[i := sp])) \<le> kMaxCapacity"
    using assms(1) L by (auto simp: hist_inv_def)
  ultimately show ?thesis using assms(8) by (auto simp: hist_inv_def)
qed


lemma upd_slot_inv:
  assumes "hist_inv h" "i < length (ph_packets h)" "sp_packet (ph_packets h ! i) = Some p"
    "\<And>sp. sp_packet (f sp) = sp_packet sp \<and> prio_key (f sp) = prio_key sp"
    "sp_pending (f (ph_packets h ! i)) \<or> sp_send_time_ms (f (ph_packets h ! i)) \<noteq> None"
  shows "hist_inv (upd_slot i f h)"
proof -
  have k: "prio_key (f (ph_packets h ! i)) = prio_key (ph_packets h ! i)" using assms(4) by blast
  have "hist_inv (h\<lparr>ph_packets := (ph_packets h)[i := f (ph_packets h ! i)], ph_padding := ph_padding h\<rparr>)"
    by (rule update_inv [OF assms(1-3)])
      (use assms k in \<open>auto simp: hist_inv_def prio_key_def\<close>)
  then show ?thesis by (simp add: upd_slot_def)
qed

lemma IncrementTimesRetransmitted_inv:
  assumes "hist_inv h" "i < length (ph_packets h)" "sp_packet (ph_packets h ! i) = Some p"
  shows "hist_inv (IncrementTimesRetransmitted i h)"
proof -
  have "ph_packets h ! i \<in> set (live (ph_packets h))" using assms(2,3) by (simp add: live_def)
  then have "sp_pending (ph_packets h ! i) \<or> sp_send_time_ms (ph_packets h ! i) \<noteq> None"
    using assms(1) by (auto simp: hist_inv_def times_ok_def)
  moreover have "\<not> ph_enable_padding_prio h \<longrightarrow> ph_padding h = []"
    using assms(1) by (simp add: hist_inv_def)
  ultimately show ?thesis
    unfolding IncrementTimesRetransmitted_def Let_def
    by (intro update_inv [OF assms]) (auto simp: assms(3))
qed

lemma GetPacketIndex_total: "hist_inv h \<Longrightarrow> \<exists>i. GetPacketIndex q h = Some i"
  by (cases "ph_packets h") (auto simp: hist_inv_def GetPacketIndex_def Let_def)

lemma GetStoredPacket_total: "hist_inv h \<Longrightarrow> \<exists>s. GetStoredPacket q h = Some s"
  using GetPacketIndex_total by (auto simp: GetStoredPacket_def)

lemma slot_atD:
  "slot_at x h = Some i \<Longrightarrow> i = nat x \<and> 0 \<le> x \<and> i < length (ph_packets h) \<and> (\<exists>p. sp_packet (ph_packets h ! i) = Some p)"
  by (auto simp: slot_at_def split: if_splits)

text \<open>A lookup gives only packets with the number asked for.\<close>

lemma GetStoredPacket_sound:
  assumes "hist_inv h" "GetStoredPacket q h = Some (Some i)"
  obtains p where "i < length (ph_packets h)" "sp_packet (ph_packets h ! i) = Some p" "rp_subflow_seq p = q"
proof -
  obtain x where x: "GetPacketIndex q h = Some x" "slot_at x h = Some i"
    using assms(2) by (auto simp: GetStoredPacket_def)
  then obtain p where p: "i = nat x" "0 \<le> x" "i < length (ph_packets h)" "sp_packet (ph_packets h ! i) = Some p"
    using slot_atD by blast
  then obtain sp sps where c: "ph_packets h = sp # sps" by (cases "ph_packets h") auto
  then obtain f where f: "sp_packet sp = Some f" using assms(1) by (auto simp: hist_inv_def)
  obtain b where b: "seqs_ok b (ph_packets h)" using assms(1) by (auto simp: hist_inv_def)
  have "rp_subflow_seq f = b" using b c f by simp
  then have "x = seq_index q b" using x(1) GetPacketIndex_front [OF c f] by simp
  then have "of_nat i = q - b" using p(1,2) seq_index_word [of q b] by (simp add: of_nat_nat)
  moreover have "rp_subflow_seq p = b + of_nat i" using seqs_ok_nth [OF b p(3,4)] .
  ultimately show ?thesis using that p(3,4) by simp
qed

declare CullOldPackets.simps [simp del]

lemma RemovePacket_frame [simp]:
  "ph_mode (snd (RemovePacket i h)) = ph_mode h" "ph_rtt_ms (snd (RemovePacket i h)) = ph_rtt_ms h"
  "ph_inserted (snd (RemovePacket i h)) = ph_inserted h"
  "ph_enable_padding_prio (snd (RemovePacket i h)) = ph_enable_padding_prio h"
  by (simp_all add: RemovePacket_def Let_def)

definition culled :: "packet_history \<Rightarrow> packet_history option \<Rightarrow> bool" where
  "culled h r \<longleftrightarrow> (\<exists>h'. r = Some h' \<and> hist_inv h' \<and> ph_mode h' = ph_mode h \<and>
     length (ph_packets h') < kMaxCapacity)"

lemma CullOldPackets_total: "hist_inv h \<Longrightarrow> culled h (CullOldPackets now h)"
proof (induction now h rule: CullOldPackets.induct)
  case (1 now h)
  have stop: "culled h (Some h)" if "length (ph_packets h) < kMaxCapacity"
    using that 1(3) by (simp add: culled_def)
  have front: "hist_inv (snd (RemovePacket 0 h))" if "ph_packets h \<noteq> []"
    using that 1(3) by (simp add: RemovePacket_inv)
  have pop: "culled h r" if "culled (snd (RemovePacket 0 h)) r" for r
    using that by (simp add: culled_def)
  consider "ph_packets h = []" | "ph_packets h \<noteq> []" "length (ph_packets h) \<ge> kMaxCapacity"
    | "ph_packets h \<noteq> []" "length (ph_packets h) < kMaxCapacity" by linarith
  then show ?case
  proof cases
    case 1
    then show ?thesis using stop by (simp add: CullOldPackets.simps kMaxCapacity_def)
  next
    case 2
    then show ?thesis using 1(1) pop front by (simp add: CullOldPackets.simps [of now h])
  next
    case 3
    let ?sp = "hd (ph_packets h)"
    have "?sp \<in> set (live (ph_packets h))" using 1(3) 3 by (simp add: hist_inv_def live_def)
    then have t: "sp_pending ?sp \<or> sp_send_time_ms ?sp \<noteq> None"
      using 1(3) unfolding hist_inv_def times_ok_def by blast
    show ?thesis
    proof (cases "sp_pending ?sp")
      case True
      then show ?thesis using 3 stop by (simp add: CullOldPackets.simps [of now h])
    next
      case np: False
      then obtain t where t: "sp_send_time_ms ?sp = Some t" using t by auto
      show ?thesis
        using 1(2) [OF 3(1) _ refl np t] pop front 3 np t stop
        by (simp add: CullOldPackets.simps [of now h] not_le not_less)
    qed
  qed
qed


text \<open>Storing a packet in an empty slot.\<close>

lemma live_insert:
  assumes "i < length sps" "sp_packet (sps ! i) = None" "sp_packet sp \<noteq> None"
  obtains A C where "live sps = A @ C" "live (sps[i := sp]) = A @ sp # C"
proof -
  obtain xs ys where s: "sps = xs @ sps ! i # ys" "\<And>y. sps[i := y] = xs @ y # ys"
    using slot_split [OF assms(1)] by metis
  have "live (sps[i := sp]) = live xs @ sp # live ys" using assms by (simp add: s(2))
  moreover have "live sps = live xs @ live ys" using assms by (subst s(1)) simp
  ultimately show ?thesis by (intro that)
qed

lemma expand_live: "live (ph_packets (expand x h)) = live (ph_packets h)"
  by (simp add: expand_def Let_def stored_packet_def)

lemma expand_slot:
  assumes "slot_at x h = None"
  shows "nat x < length (ph_packets (expand x h))" "sp_packet (ph_packets (expand x h) ! nat x) = None"
proof -
  show "nat x < length (ph_packets (expand x h))" by (auto simp: expand_def Let_def)
  show "sp_packet (ph_packets (expand x h) ! nat x) = None"
    using assms by (cases "x < 0") (auto simp: expand_def Let_def slot_at_def stored_packet_def nth_append split: if_splits)
qed

lemma expand_seqs:
  assumes "hist_inv h" "GetPacketIndex q h = Some x"
  obtains b where "seqs_ok b (ph_packets (expand x h))" "b + of_nat (nat x) = q"
proof (cases "ph_packets h")
  case Nil
  then have "x = 0" using assms(2) by simp
  then show ?thesis using Nil by (intro that [of q]) (auto simp: expand_def Let_def stored_packet_def)
next
  case (Cons sp sps)
  then obtain f where f: "sp_packet sp = Some f" using assms(1) by (auto simp: hist_inv_def)
  obtain b where b: "seqs_ok b (ph_packets h)" using assms(1) by (auto simp: hist_inv_def)
  have "rp_subflow_seq f = b" using b Cons f by simp
  then have x: "x = seq_index q b" using assms(2) GetPacketIndex_front [OF Cons f] by simp
  then have w: "word_of_int x = q - b" by (simp add: seq_index_word)
  have "seqs_ok (b - of_nat (nat (- x))) (ph_packets (expand x h))"
    using b by (simp add: expand_def Let_def seqs_ok_append seqs_ok_replicate_None stored_packet_def)
  moreover have "b - of_nat (nat (- x)) + of_nat (nat x) = q"
    using w by (cases "0 \<le> x") (auto simp: of_nat_nat word_of_int_minus)
  ultimately show ?thesis by (rule that)
qed

lemma expand_front:
  assumes "hist_inv h" "GetPacketIndex q h = Some x" "slot_at x h = None"
    "sp_packet sp = Some p" "rp_subflow_seq p = q"
  shows "GetPacketIndex q (h'\<lparr>ph_packets := (ph_packets (expand x h))[nat x := sp]\<rparr>) = Some (int (nat x))
    \<and> sp_packet (hd ((ph_packets (expand x h))[nat x := sp])) \<noteq> None"
proof (cases "x < 0 \<or> ph_packets h = []")
  case True
  then have "nat x = 0" "ph_packets (expand x h) \<noteq> []"
    using assms(2) by (auto simp: expand_def Let_def)
  then show ?thesis using assms(4,5) by (cases "ph_packets (expand x h)") (auto simp: GetPacketIndex_def)
next
  case False
  then obtain f0 sps f where c: "ph_packets h = f0 # sps" "sp_packet f0 = Some f"
    using assms(1) by (cases "ph_packets h") (auto simp: hist_inv_def)
  then have x: "x = seq_index q (rp_subflow_seq f)" using assms(2) GetPacketIndex_front [OF c] by simp
  have "x \<noteq> 0" using assms(3) c by (auto simp: slot_at_def)
  then obtain j where j: "nat x = Suc j" using False by (cases "nat x") auto
  obtain rest where r: "ph_packets (expand x h) = f0 # rest"
    using False c by (simp add: expand_def Let_def)
  have "GetPacketIndex q (h'\<lparr>ph_packets := f0 # rest[j := sp]\<rparr>) = Some x"
    using GetPacketIndex_front [of "h'\<lparr>ph_packets := f0 # rest[j := sp]\<rparr>" f0 "rest[j := sp]" f q] c x by simp
  then have "GetPacketIndex q (h'\<lparr>ph_packets := f0 # rest[j := sp]\<rparr>) = Some (int (nat x))"
    using False by simp
  moreover have "(ph_packets (expand x h))[nat x := sp] = f0 # rest[j := sp]" by (simp add: r j)
  ultimately show ?thesis using c(2) by simp
qed

lemma insert_slot:
  fixes t :: "int option"
  assumes "hist_inv h" "length (ph_packets h) < kMaxCapacity" "GetPacketIndex q h = Some x"
    "slot_at x h = None" "rp_subflow_seq p = q"
  defines "sp \<equiv> stored_packet (Some p) t (ph_inserted h)"
  defines "h' \<equiv> add_padding (prio_key sp) ((expand x h)\<lparr>ph_packets := (ph_packets (expand x h))[nat x := sp],
    ph_inserted := ph_inserted h + 1\<rparr>)"
  shows "hist_inv h' \<and> GetStoredPacket q h' = Some (Some (nat x)) \<and> ph_packets h' ! nat x = sp"
proof -
  let ?sps = "ph_packets (expand x h)"
  have sp: "sp_packet sp = Some p" "sp_insert_order sp = ph_inserted h"
    "sp_pending sp \<or> sp_send_time_ms sp \<noteq> None" by (auto simp: sp_def stored_packet_def)
  note slot = expand_slot [OF assms(4)]
  have pk: "ph_packets h' = ?sps[nat x := sp]" by (simp add: h'_def add_padding_def Let_def)
  obtain A C where L: "live ?sps = A @ C" "live (?sps[nat x := sp]) = A @ sp # C"
    using live_insert [OF slot] sp(1) by (metis option.distinct(1))
  obtain b where b: "seqs_ok b ?sps" "b + of_nat (nat x) = q" using expand_seqs [OF assms(1,3)] by metis
  have "seqs_ok b (ph_packets h')" unfolding pk
    using b slot(1) sp(1) assms(5) by (intro seqs_ok_update) auto
  moreover note front = expand_front [OF assms(1,3,4) sp(1) assms(5), of h']
  have idx: "GetPacketIndex q h' = Some (int (nat x))"
    using front pk by (metis packet_history.surjective packet_history.update_convs(5))
  moreover have LL: "live (ph_packets h) = A @ C" using L(1) by (simp add: expand_live)
  have "times_ok (ph_packets h')" "orders_ok (ph_inserted h') (ph_packets h')"
    using assms(1) sp L(2) LL unfolding hist_inv_def times_ok_def orders_ok_def pk
    by (auto simp: h'_def add_padding_def Let_def less_Suc_eq)
  moreover have "length (live (ph_packets h')) \<le> kMaxCapacity"
    using assms(2) L(2) LL length_filter_le [of "\<lambda>sp. sp_packet sp \<noteq> None" "ph_packets h"]
    by (simp add: pk live_def)
  moreover have "prio_ok (ph_packets h') (ph_padding h')"
  proof -
    have "set (ph_padding h') \<subseteq> insert (prio_key sp) (set (ph_padding h))"
      by (auto simp: h'_def add_padding_def Let_def expand_def dest: in_set_butlastD)
    also have "\<dots> \<subseteq> prio_key ` set (live (ph_packets h'))"
      using assms(1) L(2) LL unfolding hist_inv_def prio_ok_def pk by auto
    finally show ?thesis by (simp add: prio_ok_def)
  qed
  moreover have "\<not> ph_enable_padding_prio h' \<longrightarrow> ph_padding h' = []"
    using assms(1) by (simp add: h'_def add_padding_def Let_def expand_def hist_inv_def)
  ultimately have "hist_inv h'" using front unfolding hist_inv_def pk by blast
  moreover have "slot_at (int (nat x)) h' = Some (nat x)"
    unfolding slot_at_def pk nat_int using slot(1) sp(1) by simp
  ultimately show ?thesis using idx slot(1) by (simp add: GetStoredPacket_def pk)
qed


text \<open>Two stored packets have different numbers, and after a removal its number is free.\<close>

lemma seqs_distinct:
  assumes "seqs_ok b sps" "length sps < 65536" "i < length sps" "j < length sps"
    "sp_packet (sps ! i) = Some p" "sp_packet (sps ! j) = Some p'" "rp_subflow_seq p = rp_subflow_seq p'"
  shows "i = j"
proof -
  have "(of_nat i :: u16) = of_nat j"
    using seqs_ok_nth [OF assms(1,3,5)] seqs_ok_nth [OF assms(1,4,6)] assms(7) by simp
  then have "i mod 65536 = j mod 65536" by (simp add: word_of_nat_eq_iff take_bit_eq_mod)
  then show ?thesis using assms(2-4) by simp
qed


lemma removal_frees:
  assumes "hist_inv h" "length (ph_packets h) < 65536" "GetStoredPacket q h = Some (Some i)"
    "GetPacketIndex q (snd (RemovePacket i h)) = Some y"
  shows "slot_at y (snd (RemovePacket i h)) = None"
proof (rule ccontr)
  let ?sps = "ph_packets h" and ?h = "snd (RemovePacket i h)"
  obtain p where p: "i < length ?sps" "sp_packet (?sps ! i) = Some p" "rp_subflow_seq p = q"
    using GetStoredPacket_sound [OF assms(1,3)] .
  assume "slot_at y ?h \<noteq> None"
  then obtain j where "GetStoredPacket q ?h = Some (Some j)" using assms(4) by (auto simp: GetStoredPacket_def)
  then obtain p' where p': "j < length (ph_packets ?h)" "sp_packet (ph_packets ?h ! j) = Some p'"
      "rp_subflow_seq p' = q"
    using GetStoredPacket_sound [OF RemovePacket_inv [OF assms(1) p(1)]] by metis
  then have "ph_packets ?h ! j \<in> set (?sps[i := (?sps ! i)\<lparr>sp_packet := None\<rparr>])"
    by (auto simp: RemovePacket_def Let_def dest!: nth_mem intro: set_dropWhileD split: if_splits)
  then obtain k where k: "k < length ?sps"
      "?sps[i := (?sps ! i)\<lparr>sp_packet := None\<rparr>] ! k = ph_packets ?h ! j"
    by (auto simp: in_set_conv_nth)
  then have "sp_packet (?sps[i := (?sps ! i)\<lparr>sp_packet := None\<rparr>] ! k) = Some p'" using p'(2) by simp
  then have "k \<noteq> i" using p(1) by auto
  then have "sp_packet (?sps ! k) = Some p'" using k p'(2) by simp
  moreover obtain b where "seqs_ok b ?sps" using assms(1) by (auto simp: hist_inv_def)
  ultimately show False using seqs_distinct [of b ?sps i k p p'] assms(2) p p'(3) k(1) \<open>k \<noteq> i\<close> by auto
qed

lemma PutRtpPacket_stores:
  assumes "hist_inv h" "ph_mode h \<noteq> kDisabled"
  shows "\<exists>h' i n. PutRtpPacket now p t h = Some h' \<and> hist_inv h' \<and> ph_mode h' = ph_mode h \<and>
    GetStoredPacket (rp_subflow_seq p) h' = Some (Some i) \<and> ph_packets h' ! i = stored_packet (Some p) t n"
proof -
  let ?q = "rp_subflow_seq p"
  obtain h1 where h1: "CullOldPackets now h = Some h1" "hist_inv h1" "ph_mode h1 = ph_mode h"
      "length (ph_packets h1) < kMaxCapacity"
    using CullOldPackets_total [OF assms(1), of now] by (auto simp: culled_def)
  obtain x1 where x1: "GetPacketIndex ?q h1 = Some x1" using GetPacketIndex_total [OF h1(2)] by blast
  have "\<exists>h2 x2. (case slot_at x1 h1 of None \<Rightarrow> Some (x1, h1) | Some i \<Rightarrow>
        (let h = snd (RemovePacket i h1)
         in map_option (\<lambda>packet_index. (packet_index, h)) (GetPacketIndex ?q h))) = Some (x2, h2) \<and>
      hist_inv h2 \<and> ph_mode h2 = ph_mode h \<and> length (ph_packets h2) < kMaxCapacity \<and>
      GetPacketIndex ?q h2 = Some x2 \<and> slot_at x2 h2 = None"
  proof (cases "slot_at x1 h1")
    case None
    then show ?thesis using h1 x1 by simp
  next
    case (Some i)
    let ?h2 = "snd (RemovePacket i h1)"
    have i: "i < length (ph_packets h1)" using slot_atD [OF Some] by blast
    have inv: "hist_inv ?h2" using RemovePacket_inv [OF h1(2) i] .
    then obtain x2 where x2: "GetPacketIndex ?q ?h2 = Some x2" using GetPacketIndex_total by blast
    have "slot_at x2 ?h2 = None"
      by (rule removal_frees [OF h1(2) _ _ x2])
        (use h1(4) x1 Some in \<open>auto simp: GetStoredPacket_def kMaxCapacity_def\<close>)
    moreover have "length (ph_packets ?h2) \<le> length (ph_packets h1)"
      using length_dropWhile_le [of "\<lambda>sp. sp_packet sp = None" "(ph_packets h1)[i := (ph_packets h1 ! i)\<lparr>sp_packet := None\<rparr>]"]
      by (auto simp: RemovePacket_def Let_def)
    ultimately show ?thesis using Some inv x2 h1(3,4) by (auto simp: Let_def)
  qed
  then obtain h2 x2 where h2: "(case slot_at x1 h1 of None \<Rightarrow> Some (x1, h1) | Some i \<Rightarrow>
        (let h = snd (RemovePacket i h1)
         in map_option (\<lambda>packet_index. (packet_index, h)) (GetPacketIndex ?q h))) = Some (x2, h2)"
      "hist_inv h2" "ph_mode h2 = ph_mode h" "length (ph_packets h2) < kMaxCapacity"
      "GetPacketIndex ?q h2 = Some x2" "slot_at x2 h2 = None" by blast
  let ?sp = "stored_packet (Some p) t (ph_inserted h2)"
  let ?h' = "add_padding (prio_key ?sp) ((expand x2 h2)\<lparr>ph_packets := (ph_packets (expand x2 h2))[nat x2 := ?sp],
    ph_inserted := ph_inserted h2 + 1\<rparr>)"
  have fr: "ph_inserted (expand x2 h2) = ph_inserted h2" "ph_mode ?h' = ph_mode h2"
    by (simp_all add: expand_def add_padding_def Let_def)
  have "PutRtpPacket now p t h = Some ?h'"
    using assms(2) h1(1) x1 h2(1) by (simp add: PutRtpPacket_def Let_def fr del: option.map_sel)
  then show ?thesis using insert_slot [OF h2(2,4,5,6) refl, of t] fr(2) h2(3) by metis
qed


lemma Reset_inv: "hist_inv (Reset h)"
  by (simp add: hist_inv_def Reset_def times_ok_def orders_ok_def prio_ok_def)

lemma hist_inv_frame [simp]:
  "hist_inv (h\<lparr>ph_rtt_ms := r\<rparr>) = hist_inv h" "hist_inv (h\<lparr>ph_mode := m\<rparr>) = hist_inv h"
  "hist_inv (h\<lparr>ph_number_to_store := n\<rparr>) = hist_inv h"
  by (simp_all add: hist_inv_def)

lemma CullAcknowledgedPackets_total:
  "hist_inv h \<Longrightarrow> \<exists>h'. CullAcknowledgedPackets qs h = Some h' \<and> hist_inv h'"
proof (induction qs arbitrary: h)
  case (Cons q qs)
  obtain x where x: "GetPacketIndex q h = Some x" using GetPacketIndex_total [OF Cons.prems] by blast
  have "hist_inv (if x < 0 \<or> nat x \<ge> length (ph_packets h) then h else snd (RemovePacket (nat x) h))"
    using Cons.prems RemovePacket_inv by (simp add: not_le)
  then show ?case using Cons.IH x by simp
qed simp

lemma slot_time:
  assumes "hist_inv h" "i < length (ph_packets h)" "sp_packet (ph_packets h ! i) = Some p"
  shows "sp_pending (ph_packets h ! i) \<or> sp_send_time_ms (ph_packets h ! i) \<noteq> None"
proof -
  have "ph_packets h ! i \<in> set (live (ph_packets h))" using assms(2,3) by (simp add: live_def)
  then show ?thesis using assms(1) unfolding hist_inv_def times_ok_def by blast
qed

lemma upd_slot_nth [simp]:
  "i < length (ph_packets h) \<Longrightarrow> ph_packets (upd_slot i f h) ! i = f (ph_packets h ! i)"
  "length (ph_packets (upd_slot i f h)) = length (ph_packets h)"
  "ph_mode (upd_slot i f h) = ph_mode h" "ph_enable_padding_prio (upd_slot i f h) = ph_enable_padding_prio h"
  by (simp_all add: upd_slot_def)

lemma Increment_nth [simp]:
  "i < length (ph_packets h) \<Longrightarrow> ph_packets (IncrementTimesRetransmitted i h) ! i =
     (ph_packets h ! i)\<lparr>sp_times_retransmitted := sp_times_retransmitted (ph_packets h ! i) + 1\<rparr>"
  "length (ph_packets (IncrementTimesRetransmitted i h)) = length (ph_packets h)"
  by (simp_all add: IncrementTimesRetransmitted_def Let_def)

lemma GetStoredPacket_cases [consumes 1, case_names absent present]:
  assumes "hist_inv h"
  obtains "GetStoredPacket q h = Some None"
  | i p where "GetStoredPacket q h = Some (Some i)" "i < length (ph_packets h)"
      "sp_packet (ph_packets h ! i) = Some p" "rp_subflow_seq p = q"
  using GetStoredPacket_total [OF assms, of q] GetStoredPacket_sound [OF assms, of q]
  by (metis option.exhaust)

lemma GetPacketAndSetSendTime_total:
  assumes "hist_inv h"
  shows "\<exists>r h'. GetPacketAndSetSendTime now q h = Some (r, h') \<and> hist_inv h' \<and>
    (\<forall>p. r = Some p \<longrightarrow> rp_subflow_seq p = q)"
  using assms
proof (cases rule: GetStoredPacket_cases [where q = q])
  case absent
  then show ?thesis using assms by (simp add: GetPacketAndSetSendTime_def)
next
  case (present i p)
  let ?h = "if sp_send_time_ms (ph_packets h ! i) \<noteq> None then IncrementTimesRetransmitted i h else h"
  have "hist_inv ?h" using IncrementTimesRetransmitted_inv [OF assms present(2,3)] assms by simp
  then have "hist_inv (upd_slot i (\<lambda>sp. sp\<lparr>sp_send_time_ms := Some now, sp_pending := False\<rparr>) ?h)"
    by (rule upd_slot_inv [of _ _ p]) (use present in \<open>auto simp: prio_key_def\<close>)
  then show ?thesis
    using present assms by (cases "ph_mode h") (auto simp: GetPacketAndSetSendTime_def Let_def)
qed

lemma mark_pending_inv:
  assumes "hist_inv h" "i < length (ph_packets h)" "sp_packet (ph_packets h ! i) = Some p"
  shows "hist_inv (upd_slot i (\<lambda>sp. sp\<lparr>sp_pending := True\<rparr>) h)"
  by (rule upd_slot_inv [OF assms]) (auto simp: prio_key_def)

lemma GetPacketAndMarkAsPending_total:
  assumes "hist_inv h"
  shows "\<exists>e h' s'. GetPacketAndMarkAsPending now q f h s = Some (e, h', s') \<and> hist_inv h'"
  using assms
proof (cases rule: GetStoredPacket_cases [where q = q])
  case absent
  then show ?thesis using assms by (simp add: GetPacketAndMarkAsPending_def)
next
  case (present i p)
  then show ?thesis
    using mark_pending_inv [OF assms present(2,3)] assms
    by (auto simp: GetPacketAndMarkAsPending_def Let_def split: prod.splits)
qed

lemma sent_inv:
  assumes "hist_inv h" "i < length (ph_packets h)" "sp_packet (ph_packets h ! i) = Some p"
    "\<And>sp. sp_packet (f sp) = sp_packet sp \<and> prio_key (f sp) = prio_key sp \<and> sp_send_time_ms (f sp) = Some now"
  shows "hist_inv (IncrementTimesRetransmitted i (upd_slot i f h))"
proof -
  have "hist_inv (upd_slot i f h)" using assms by (intro upd_slot_inv [OF assms(1-3)]) auto
  then show ?thesis
    by (rule IncrementTimesRetransmitted_inv [of _ _ p]) (use assms in auto)
qed

lemma MarkPacketAsSent_total:
  assumes "hist_inv h"
  shows "\<exists>h'. MarkPacketAsSent now q h = Some h' \<and> hist_inv h'"
  using assms
proof (cases rule: GetStoredPacket_cases [where q = q])
  case absent
  then show ?thesis using assms by (simp add: MarkPacketAsSent_def)
next
  case (present i p)
  have "hist_inv (IncrementTimesRetransmitted i
      (upd_slot i (\<lambda>sp. sp\<lparr>sp_send_time_ms := Some now, sp_pending := False\<rparr>) h))"
    by (rule sent_inv [OF assms present(2,3)]) (simp add: prio_key_def)
  then show ?thesis using present assms by (simp add: MarkPacketAsSent_def)
qed

lemma SetPendingTransmission_total:
  assumes "hist_inv h"
  shows "\<exists>r. SetPendingTransmission q h = Some r \<and> hist_inv (snd r)"
  using assms
proof (cases rule: GetStoredPacket_cases [where q = q])
  case absent
  then show ?thesis using assms by (auto simp: SetPendingTransmission_def)
next
  case (present i p)
  then show ?thesis
    using mark_pending_inv [OF assms present(2,3)] assms by (auto simp: SetPendingTransmission_def)
qed

text \<open>The packet chosen for padding exists.\<close>

lemma last_slot_sound: "last_slot sps = Some i \<Longrightarrow> i < length sps \<and> sp_packet (sps ! i) \<noteq> None"
  by (induction sps arbitrary: i) (auto split: option.splits if_splits)

lemma prio_slot_sound: "prio_slot k sps = Some i \<Longrightarrow> i < length sps \<and> sp_packet (sps ! i) \<noteq> None"
  by (induction sps arbitrary: i) (auto split: if_splits)

lemma prio_slot_exists: "k \<in> snd ` prio_key ` set (live sps) \<Longrightarrow> \<exists>i. prio_slot k sps = Some i"
  by (induction sps) (auto simp: prio_key_def split: if_splits)

lemma best_packet_total:
  assumes "hist_inv h"
  shows "\<exists>b. best_packet h = Some b \<and>
    (\<forall>i. b = Some i \<longrightarrow> i < length (ph_packets h) \<and> sp_packet (ph_packets h ! i) \<noteq> None)"
proof (cases "ph_enable_padding_prio h \<and> ph_padding h \<noteq> []")
  case True
  then obtain k ks where k: "ph_padding h = k # ks" by (cases "ph_padding h") auto
  then have "snd k \<in> snd ` prio_key ` set (live (ph_packets h))"
    using assms unfolding hist_inv_def prio_ok_def by auto
  then obtain i where "prio_slot (snd k) (ph_packets h) = Some i" using prio_slot_exists by blast
  then show ?thesis using True k prio_slot_sound by (auto simp: best_packet_def)
next
  case False
  then show ?thesis using last_slot_sound by (auto simp: best_packet_def split: list.splits)
qed

lemma GetPayloadPaddingPacket_total:
  assumes "hist_inv h"
  shows "\<exists>e h' s'. GetPayloadPaddingPacket now f h s = Some (e, h', s') \<and> hist_inv h'"
proof -
  obtain b where b: "best_packet h = Some b"
      "\<And>i. b = Some i \<Longrightarrow> i < length (ph_packets h) \<and> sp_packet (ph_packets h ! i) \<noteq> None"
    using best_packet_total [OF assms] by blast
  show ?thesis
  proof (cases b)
    case None
    then show ?thesis using b(1) assms by (simp add: GetPayloadPaddingPacket_def)
  next
    case (Some i)
    then obtain p where p: "i < length (ph_packets h)" "sp_packet (ph_packets h ! i) = Some p" using b(2) by auto
    have "hist_inv (IncrementTimesRetransmitted i (upd_slot i (\<lambda>sp. sp\<lparr>sp_send_time_ms := Some now\<rparr>) h))"
      by (rule sent_inv [OF assms p]) (simp add: prio_key_def)
    then show ?thesis
      using b(1) Some p assms by (auto simp: GetPayloadPaddingPacket_def Let_def split: prod.splits)
  qed
qed


section \<open>Reachable histories\<close>

text \<open>
  One call of an operation, with the history it leaves, \<open>None\<close> if the call is undefined. The
  callbacks are arbitrary functions.
\<close>

inductive hist_step :: "packet_history \<Rightarrow> packet_history option \<Rightarrow> bool" where
  status: "hist_step h (Some (SetStorePacketsStatus mode n h))"
| rtt: "hist_step h (SetRtt now rtt h)"
| put: "hist_step h (PutRtpPacket now p t h)"
| get_send: "hist_step h (map_option snd (GetPacketAndSetSendTime now q h))"
| get_pending: "hist_step h
    (map_option (\<lambda>(_, h', _). h') (GetPacketAndMarkAsPending now q (\<lambda>p s. (f p, s)) h ()))"
| sent: "hist_step h (MarkPacketAsSent now q h)"
| padding: "hist_step h
    (map_option (\<lambda>(_, h', _). h') (GetPayloadPaddingPacket now (\<lambda>p s. (f p, s)) h ()))"
| acked: "hist_step h (CullAcknowledgedPackets qs h)"
| pending: "hist_step h (map_option snd (SetPendingTransmission q h))"
| clear: "hist_step h (Some (Clear h))"

inductive_cases hist_stepE: "hist_step h r"

inductive hist_reachable :: "packet_history \<Rightarrow> bool" where
  init: "hist_reachable (packet_history_init e)"
| step: "hist_reachable h \<Longrightarrow> hist_step h (Some h') \<Longrightarrow> hist_reachable h'"

lemma PutRtpPacket_total: "hist_inv h \<Longrightarrow> \<exists>h'. PutRtpPacket now p t h = Some h' \<and> hist_inv h'"
  using PutRtpPacket_stores [of h now p t] by (cases "ph_mode h") (auto simp: PutRtpPacket_def)

lemma SetRtt_total: "hist_inv h \<Longrightarrow> \<exists>h'. SetRtt now r h = Some h' \<and> hist_inv h'"
  using CullOldPackets_total [of "h\<lparr>ph_rtt_ms := r\<rparr>" now]
  by (auto simp: SetRtt_def Let_def culled_def)

lemma hist_step_total:
  assumes "hist_step h r" "hist_inv h"
  shows "\<exists>h'. r = Some h' \<and> hist_inv h'"
  using assms(1)
proof cases
  case (status mode n)
  then show ?thesis by (simp add: SetStorePacketsStatus_def Reset_inv)
next
  case (rtt now r)
  then show ?thesis using SetRtt_total [OF assms(2)] by simp
next
  case (put now p t)
  then show ?thesis using PutRtpPacket_total [OF assms(2)] by simp
next
  case (get_send now q)
  then show ?thesis using GetPacketAndSetSendTime_total [OF assms(2), of now q] by auto
next
  case (get_pending now q f)
  then show ?thesis using GetPacketAndMarkAsPending_total [OF assms(2), of now q] by fastforce
next
  case (sent now q)
  then show ?thesis using MarkPacketAsSent_total [OF assms(2)] by simp
next
  case (padding now f)
  then show ?thesis using GetPayloadPaddingPacket_total [OF assms(2), of now] by fastforce
next
  case (acked qs)
  then show ?thesis using CullAcknowledgedPackets_total [OF assms(2)] by simp
next
  case (pending q)
  then show ?thesis using SetPendingTransmission_total [OF assms(2), of q] by auto
next
  case clear
  then show ?thesis by (simp add: Clear_def Reset_inv)
qed

lemma reachable_inv: "hist_reachable h \<Longrightarrow> hist_inv h"
  by (induction rule: hist_reachable.induct) (use hist_inv_init hist_step_total in blast)+

text \<open>
  C27: in a history brought about by any calls in any order, no call reads through a null pointer
  or an empty optional, the priority set refers to stored packets only, every stored packet
  is found in the slot of its path sequence number, and at most 9600 packets are stored.
\<close>

theorem history_safe:
  assumes "hist_reachable h"
  shows "hist_inv h \<and> \<not> hist_step h None \<and> length (live (ph_packets h)) \<le> 9600"
  using assms reachable_inv hist_step_total
  by (fastforce simp: hist_inv_def kMaxCapacity_def)

definition example_history :: packet_history where
  "example_history = SetStorePacketsStatus kStoreAndCull 600 (packet_history_init False)"

lemma example_history_reachable: "hist_reachable example_history"
  unfolding example_history_def
  by (rule hist_reachable.step [OF hist_reachable.init hist_step.status])

theorem history_safe_witness:
  "hist_inv example_history \<and> \<not> hist_step example_history None \<and>
   length (live (ph_packets example_history)) \<le> 9600"
  by (rule history_safe [OF example_history_reachable])

text \<open>
  C28: a packet that has been stored is found again under its path sequence number, with its own
  data and not yet retransmitted; and whatever is found under a number has that path sequence
  number.
\<close>

theorem history_put_get:
  assumes "hist_reachable h" "ph_mode h \<noteq> kDisabled"
  shows "(\<exists>h'. PutRtpPacket now p t h = Some h' \<and>
      GetPacketState now' (rp_subflow_seq p) h' = Some (Some
        \<lparr> ps_rtp_sequence_number = rp_sequence_number p, ps_send_time_ms = t,
          ps_capture_time_ms = rp_capture_time_ms p, ps_ssrc = rp_ssrc p, ps_packet_size = packet_bytes p,
          ps_times_retransmitted = 0, ps_pending = (t = None) \<rparr>)) \<and>
    (\<exists>r h'. GetPacketAndSetSendTime now q h = Some (r, h') \<and> (\<forall>p'. r = Some p' \<longrightarrow> rp_subflow_seq p' = q))"
proof -
  note inv = reachable_inv [OF assms(1)]
  obtain h' i n where "PutRtpPacket now p t h = Some h'" "ph_mode h' = ph_mode h"
      "GetStoredPacket (rp_subflow_seq p) h' = Some (Some i)" "ph_packets h' ! i = stored_packet (Some p) t n"
    using PutRtpPacket_stores [OF inv assms(2), of now p t] by blast
  then show ?thesis
    using assms(2) GetPacketAndSetSendTime_total [OF inv, of now q]
    by (auto simp: GetPacketState_def Let_def stored_packet_def VerifyRtt_def
        StoredPacketToPacketState_def split: option.splits)
qed

theorem history_put_get_witness:
  "(\<exists>h'. PutRtpPacket 5 (blank_packet\<lparr>rp_subflow_seq := 7\<rparr>) (Some 5) example_history = Some h' \<and>
      GetPacketState 9 7 h' = Some (Some
        \<lparr> ps_rtp_sequence_number = 0, ps_send_time_ms = Some 5, ps_capture_time_ms = 0, ps_ssrc = 0,
          ps_packet_size = 12, ps_times_retransmitted = 0, ps_pending = False \<rparr>)) \<and>
    (\<exists>r h'. GetPacketAndSetSendTime 5 8 example_history = Some (r, h') \<and>
      (\<forall>p'. r = Some p' \<longrightarrow> rp_subflow_seq p' = 8))"
  using history_put_get [OF example_history_reachable, of 5 "blank_packet\<lparr>rp_subflow_seq := 7\<rparr>" "Some 5" 9 8]
  by (simp add: example_history_def SetStorePacketsStatus_def blank_packet_def packet_bytes_def)

end
