(* ===== verification/ByteIO.thy ===== *)
theory ByteIO
  imports Prelude
begin

text \<open>
  Big-endian byte input and output, \<open>modules/rtp_rtcp/source/byte_io.h\<close>:
  \<open>ByteWriter<T, B>::WriteBigEndian\<close> and \<open>ByteReader<T, B>::ReadBigEndian\<close> for unsigned
  types, the sign-extending reader for a signed type read from fewer bytes, and bounds
  checked access at an offset of an array. The lemmas show that reading back a written
  value gives the value's low \<open>8 * B\<close> bits, and that a signed value survives when it fits.
\<close>

section \<open>Writers\<close>

definition write_be :: "nat \<Rightarrow> 'a::len word \<Rightarrow> bytes" where
  "write_be B val = map (\<lambda>i. ucast (drop_bit ((B - 1 - i) * 8) val)) [0..<B]"

abbreviation be16 :: "u16 \<Rightarrow> bytes" where "be16 \<equiv> write_be 2"
abbreviation be32 :: "u32 \<Rightarrow> bytes" where "be32 \<equiv> write_be 4"
abbreviation be24 :: "u32 \<Rightarrow> bytes" where "be24 \<equiv> write_be 3"

section \<open>Readers\<close>

fun read_be_loop :: "nat \<Rightarrow> nat \<Rightarrow> bytes \<Rightarrow> 'a::len word \<Rightarrow> 'a word" where
  "read_be_loop B i [] val = val"
| "read_be_loop B i (b # bs) val =
     read_be_loop B (Suc i) bs (val OR push_bit ((B - 1 - i) * 8) (ucast b))"

definition read_be :: "nat \<Rightarrow> bytes \<Rightarrow> 'a::len word" where
  "read_be B data = read_be_loop B 0 (take B data) 0"

definition SignExtend :: "nat \<Rightarrow> u32 \<Rightarrow> u32" where
  "SignExtend B val =
     (let kMsb = (ucast (drop_bit ((B - 1) * 8) val) :: u8)
      in if kMsb AND 0x80 \<noteq> 0
         then (let kUsedBitsMask = push_bit (B mod 4 * 8) 1 - 1 in NOT kUsedBitsMask OR val)
         else val)"

definition read_be_signed :: "nat \<Rightarrow> bytes \<Rightarrow> u32" where
  "read_be_signed B data =
     (let unsigned_val = read_be B data
      in if B < 4 then SignExtend B unsigned_val else unsigned_val)"

text \<open>
  Access at an offset of an array: \<open>None\<close> when the bytes read are not all inside it.
\<close>

definition rd :: "nat \<Rightarrow> bytes \<Rightarrow> nat \<Rightarrow> bytes option" where
  "rd n data i = (if i + n \<le> length data then Some (take n (drop i data)) else None)"

definition rd8 :: "bytes \<Rightarrow> nat \<Rightarrow> u8 option" where
  "rd8 data i = (if i < length data then Some (data ! i) else None)"

definition rd16 :: "bytes \<Rightarrow> nat \<Rightarrow> u16 option" where
  "rd16 data i = map_option (read_be 2) (rd 2 data i)"

definition rd24 :: "bytes \<Rightarrow> nat \<Rightarrow> u32 option" where
  "rd24 data i = map_option (read_be 3) (rd 3 data i)"

definition rd24s :: "bytes \<Rightarrow> nat \<Rightarrow> u32 option" where
  "rd24s data i = map_option (read_be_signed 3) (rd 3 data i)"

definition rd32 :: "bytes \<Rightarrow> nat \<Rightarrow> u32 option" where
  "rd32 data i = map_option (read_be 4) (rd 4 data i)"

section \<open>Lengths and bounds\<close>

lemma length_write_be [simp, length_simps]: "length (write_be n w) = n"
  by (simp add: write_be_def)

lemma rd_total [simp]: "i + n \<le> length data \<Longrightarrow> rd n data i \<noteq> None"
  by (simp add: rd_def)

lemma rd_exists:
  "i < length data \<Longrightarrow> \<exists>v. rd8 data i = Some v"
  "i + 2 \<le> length data \<Longrightarrow> \<exists>v. rd16 data i = Some v"
  "i + 3 \<le> length data \<Longrightarrow> \<exists>v. rd24 data i = Some v"
  "i + 3 \<le> length data \<Longrightarrow> \<exists>v. rd24s data i = Some v"
  "i + 4 \<le> length data \<Longrightarrow> \<exists>v. rd32 data i = Some v"
  by (simp_all add: rd8_def rd16_def rd24_def rd24s_def rd32_def rd_def)

section \<open>Round trips\<close>

lemma bit_read_be_loop:
  "bit (read_be_loop B i bs val :: 'a::len word) k \<longleftrightarrow>
     bit val k \<or> (\<exists>j < length bs. (B - 1 - (i + j)) * 8 \<le> k \<and> k < LENGTH('a) \<and>
        bit (bs ! j) (k - (B - 1 - (i + j)) * 8))"
proof (induction bs arbitrary: i val)
  case Nil
  then show ?case by simp
next
  case (Cons b bs)
  have "(\<exists>j < length (b # bs). Q j ((b # bs) ! j)) \<longleftrightarrow>
      Q 0 b \<or> (\<exists>j < length bs. Q (Suc j) (bs ! j))" for Q :: "nat \<Rightarrow> u8 \<Rightarrow> bool"
    by (simp add: Ex_less_Suc2)
  from this [of "\<lambda>j c. (B - 1 - (i + j)) * 8 \<le> k \<and> k < LENGTH('a) \<and> bit c (k - (B - 1 - (i + j)) * 8)"]
  show ?case
    by (auto simp: Cons.IH bit_or_iff bit_push_bit_iff bit_unsigned_iff possible_bit_word)
qed

lemma read_be_write_be [simp]:
  fixes w :: "'a::len word"
  shows "read_be n (write_be n w) = take_bit (8 * n) w"
proof (rule bit_word_eqI)
  fix k
  assume k: "k < LENGTH('a)"
  have "bit (read_be n (write_be n w) :: 'a word) k \<longleftrightarrow>
      (\<exists>j < n. (n - 1 - j) * 8 \<le> k \<and> k - (n - 1 - j) * 8 < 8 \<and> bit w k)"
    using k by (auto simp: read_be_def bit_read_be_loop write_be_def bit_unsigned_iff
        bit_drop_bit_eq possible_bit_word)
  also have "\<dots> \<longleftrightarrow> k < 8 * n \<and> bit w k"
  proof safe
    fix j
    assume "j < n" "(n - 1 - j) * 8 \<le> k" "k - (n - 1 - j) * 8 < 8"
    then show "k < 8 * n" by linarith
  next
    assume "k < 8 * n" "bit w k"
    then show "\<exists>j < n. (n - 1 - j) * 8 \<le> k \<and> k - (n - 1 - j) * 8 < 8 \<and> bit w k"
      by (intro exI [of _ "n - 1 - k div 8"]) auto
  qed
  finally show "bit (read_be n (write_be n w) :: 'a word) k = bit (take_bit (8 * n) w) k"
    by (simp add: bit_take_bit_iff)
qed

lemma take_bit_full [simp]: "LENGTH('a) \<le> n \<Longrightarrow> take_bit n (w :: 'a::len word) = w"
  by (rule bit_word_eqI) (simp add: bit_take_bit_iff)

text \<open>A 24-bit signed value, held in 32 bits, survives when it is in range.\<close>

definition fits24 :: "u32 \<Rightarrow> bool" where
  "fits24 v \<longleftrightarrow> - (2 ^ 23) \<le> sint v \<and> sint v < 2 ^ 23"

lemma SignExtend_take_bit: "SignExtend 3 (take_bit 24 v) = signed_take_bit 23 v"
proof (rule bit_word_eqI)
  fix k
  assume k: "k < LENGTH(32)"
  have msb: "(ucast (drop_bit 16 (take_bit 24 v)) AND 0x80 :: u8) \<noteq> 0 \<longleftrightarrow> bit v 23"
  proof -
    have "(x AND 0x80 \<noteq> 0) = bit x 7" for x :: u8
      using and_exp_eq_0_iff_not_bit [of x 7] by simp
    then show ?thesis
      by (simp add: bit_unsigned_iff bit_drop_bit_eq bit_take_bit_iff)
  qed
  have "(push_bit 24 1 - 1 :: u32) = mask 24"
    by (simp add: mask_eq_exp_minus_1)
  then have mask: "bit (NOT (push_bit 24 1 - 1 :: u32)) k \<longleftrightarrow> 24 \<le> k"
    using k by (simp only: bit_not_iff possible_bit_word bit_mask_iff) auto
  consider "k < 23" | "k = 23" | "24 \<le> k" by linarith
  then show "bit (SignExtend 3 (take_bit 24 v)) k = bit (signed_take_bit 23 v) k"
    using k msb mask
    by cases (auto simp: SignExtend_def Let_def bit_or_iff bit_take_bit_iff bit_signed_take_bit_iff
        min_def possible_bit_word)
qed

lemma signed_take_bit_fits24: "fits24 v \<Longrightarrow> signed_take_bit 23 v = v"
proof -
  assume "fits24 v"
  then have "signed_take_bit 23 (sint v) = sint v"
    by (simp add: fits24_def signed_take_bit_int_eq_self_iff)
  then have eq: "bit (sint v) k = bit (sint v) (min 23 k)" for k
    by (metis bit_signed_take_bit_iff possible_bit_int)
  show ?thesis
  proof (rule bit_word_eqI)
    fix k
    assume "k < LENGTH(32)"
    then have "bit v k = bit (sint v) k" and "bit v (min 23 k) = bit (sint v) (min 23 k)"
      by (simp_all add: bit_sint_iff min_def)
    with eq [of k] have "bit v (min 23 k) = bit v k" by blast
    then show "bit (signed_take_bit 23 v) k = bit v k"
      using \<open>k < LENGTH(32)\<close> by (simp add: bit_signed_take_bit_iff possible_bit_word min.commute)
  qed
qed

lemma read_be_signed_write_be [simp]: "fits24 v \<Longrightarrow> read_be_signed 3 (write_be 3 v) = v"
  by (simp add: read_be_signed_def SignExtend_take_bit signed_take_bit_fits24)

section \<open>Reading a concatenation\<close>

lemma rd_skip: "length xs \<le> i \<Longrightarrow> rd n (xs @ ys) i = rd n ys (i - length xs)"
  by (auto simp: rd_def)

lemma rd_skip_Cons: "0 < i \<Longrightarrow> rd n (x # ys) i = rd n ys (i - 1)"
  using rd_skip [of "[x]" i n ys] by (simp add: Suc_le_eq)

lemma rd_head: "n = length xs \<Longrightarrow> rd n (xs @ ys) 0 = Some xs"
  by (simp add: rd_def)

lemma rd8_skip: "length xs \<le> i \<Longrightarrow> rd8 (xs @ ys) i = rd8 ys (i - length xs)"
  by (auto simp: rd8_def nth_append)

lemma rd8_skip_Cons: "0 < i \<Longrightarrow> rd8 (x # ys) i = rd8 ys (i - 1)"
  by (auto simp: rd8_def nth_Cons')

lemma rd8_head: "rd8 (x # ys) 0 = Some x"
  by (simp add: rd8_def)

lemma rd_word_skip:
  "length xs \<le> i \<Longrightarrow> rd16 (xs @ ys) i = rd16 ys (i - length xs)"
  "length xs \<le> i \<Longrightarrow> rd24 (xs @ ys) i = rd24 ys (i - length xs)"
  "length xs \<le> i \<Longrightarrow> rd24s (xs @ ys) i = rd24s ys (i - length xs)"
  "length xs \<le> i \<Longrightarrow> rd32 (xs @ ys) i = rd32 ys (i - length xs)"
  by (simp_all add: rd16_def rd24_def rd24s_def rd32_def rd_skip)

lemma rd_word_skip_Cons:
  "0 < i \<Longrightarrow> rd16 (x # ys) i = rd16 ys (i - 1)"
  "0 < i \<Longrightarrow> rd24 (x # ys) i = rd24 ys (i - 1)"
  "0 < i \<Longrightarrow> rd24s (x # ys) i = rd24s ys (i - 1)"
  "0 < i \<Longrightarrow> rd32 (x # ys) i = rd32 ys (i - 1)"
  by (simp_all add: rd16_def rd24_def rd24s_def rd32_def rd_skip_Cons)

lemma rd_word_head:
  "rd16 (be16 v @ ys) 0 = Some v"
  "rd24 (be24 x @ ys) 0 = Some (take_bit 24 x)"
  "fits24 x \<Longrightarrow> rd24s (be24 x @ ys) 0 = Some x"
  "rd32 (be32 x @ ys) 0 = Some x"
  by (simp_all add: rd16_def rd24_def rd24s_def rd32_def rd_head)

lemma rd_word_only:
  "rd16 (be16 v) 0 = Some v"
  "rd24 (be24 x) 0 = Some (take_bit 24 x)"
  "fits24 x \<Longrightarrow> rd24s (be24 x) 0 = Some x"
  "rd32 (be32 x) 0 = Some x"
  using rd_word_head [where ys = "[]"] by simp_all

lemmas rd_simps [codec_simps] =
  rd8_skip rd8_skip_Cons rd8_head rd_word_skip rd_word_skip_Cons rd_word_head rd_word_only

end
