(* ===== verification/Retransmit.thy ===== *)
theory Retransmit
  imports RtpSender PacketHistory ByteIO
begin

text \<open>
  The rest of \<open>RTPSender\<close> (\<open>modules/rtp_rtcp/source/rtp_sender.cc\<close>): sequence numbers, the state that
  survives a restart of the stream, and retransmission. A negative acknowledgement names path
  sequence numbers; the packet is looked up in the history of that path and sent again, on
  the best path if that is the other one. The record extends the state of the scheduler by
  the two histories and the RTX configuration. Two inputs come from code that is not
  modelled: \<open>rx_limiter\<close> is the sequence of the answers \<open>RateLimiter::TryUseRate\<close> will give (it
  allows everything when the list is exhausted, as it does without a limit), and the argument \<open>hs\<close> is
  the header size an RTX packet has after the extensions are copied, which depends on the
  layout in \<open>rtp_packet.cc\<close>.
\<close>

section \<open>State\<close>

record retx_sender = rtp_sender +
  rx_ssrc :: u32
  rx_rtx_ssrc :: u32
  rx_rtx :: nat
  rx_rtx_payload_type_map :: "int \<rightharpoonup> int"
  rx_max_packet_size :: nat
  rx_sandy_registered :: bool
  rx_MpFlowSeqNum_registered :: bool
  rx_history_p :: packet_history
  rx_history_s :: packet_history
  rx_limiter :: "bool list"

record RtpState =
  st_sequence_number :: u16
  st_start_timestamp :: u32
  st_timestamp :: u32
  st_capture_time_ms :: int
  st_last_timestamp_time_ms :: int
  st_media_has_been_sent :: bool
  st_ssrc_has_acked :: bool

definition RtpState_init :: RtpState where
  "RtpState_init = \<lparr> st_sequence_number = 0, st_start_timestamp = 0, st_timestamp = 0,
     st_capture_time_ms = - 1, st_last_timestamp_time_ms = - 1, st_media_has_been_sent = False,
     st_ssrc_has_acked = False \<rparr>"

section \<open>Sequence numbers and the state of the stream\<close>

definition AllocateSequenceNumber :: "u16 \<Rightarrow> retx_sender \<Rightarrow> u16 \<times> retx_sender" where
  "AllocateSequenceNumber packets_to_send s =
     (rs_sequence_number s, s\<lparr>rs_sequence_number := rs_sequence_number s + packets_to_send\<rparr>)"

definition AssignSequenceNumber ::
  "int \<Rightarrow> RtpPacketToSend \<Rightarrow> retx_sender \<Rightarrow> bool \<times> RtpPacketToSend \<times> retx_sender" where
  "AssignSequenceNumber now_ms packet s =
     (if \<not> rs_sending_media s then (False, packet, s)
      else (True, packet\<lparr>rp_sequence_number := rs_sequence_number s\<rparr>,
        s\<lparr> rs_sequence_number := rs_sequence_number s + 1,
           rs_last_packet_marker_bit := rp_marker packet,
           rs_last_payload_type := uint (rp_payload_type packet),
           rs_last_rtp_timestamp := rp_timestamp packet,
           rs_last_timestamp_time_ms := now_ms,
           rs_capture_time_ms := rp_capture_time_ms packet \<rparr>))"

definition SetSendingMediaStatus :: "bool \<Rightarrow> retx_sender \<Rightarrow> retx_sender" where
  "SetSendingMediaStatus enabled s = s\<lparr>rs_sending_media := enabled\<rparr>"

definition SetTimestampOffset :: "u32 \<Rightarrow> retx_sender \<Rightarrow> retx_sender" where
  "SetTimestampOffset timestamp s = s\<lparr>rs_timestamp_offset := timestamp\<rparr>"

definition SetMaxRtpPacketSize :: "nat \<Rightarrow> retx_sender \<Rightarrow> retx_sender" where
  "SetMaxRtpPacketSize max_packet_size s = s\<lparr>rx_max_packet_size := max_packet_size\<rparr>"

definition SetRtxStatus :: "nat \<Rightarrow> retx_sender \<Rightarrow> retx_sender" where
  "SetRtxStatus mode s = s\<lparr>rx_rtx := mode\<rparr>"

definition SetRtxPayloadType :: "int \<Rightarrow> int \<Rightarrow> retx_sender \<Rightarrow> retx_sender" where
  "SetRtxPayloadType payload_type associated_payload_type s =
     (if payload_type < 0 then s
      else s\<lparr>rx_rtx_payload_type_map := (rx_rtx_payload_type_map s)(associated_payload_type \<mapsto> payload_type)\<rparr>)"

definition SetSequenceNumber :: "u16 \<Rightarrow> retx_sender \<Rightarrow> retx_sender" where
  "SetSequenceNumber seq s =
     (let updated_sequence_number = rs_sequence_number s \<noteq> seq;
          s = s\<lparr>rs_sequence_number_forced := True, rs_sequence_number := seq\<rparr>
      in if updated_sequence_number
         then s\<lparr>rx_history_p := Clear (rx_history_p s), rx_history_s := Clear (rx_history_s s)\<rparr>
         else s)"

definition SetRtpState :: "RtpState \<Rightarrow> retx_sender \<Rightarrow> retx_sender" where
  "SetRtpState rtp_state s =
     s\<lparr> rs_sequence_number := st_sequence_number rtp_state,
        rs_sequence_number_forced := True,
        rs_timestamp_offset := st_start_timestamp rtp_state,
        rs_last_rtp_timestamp := st_timestamp rtp_state,
        rs_capture_time_ms := st_capture_time_ms rtp_state,
        rs_last_timestamp_time_ms := st_last_timestamp_time_ms rtp_state,
        rs_ssrc_has_acked := st_ssrc_has_acked rtp_state \<rparr>"

definition GetRtpState :: "retx_sender \<Rightarrow> RtpState" where
  "GetRtpState s =
     RtpState_init\<lparr> st_sequence_number := rs_sequence_number s,
        st_start_timestamp := rs_timestamp_offset s,
        st_timestamp := rs_last_rtp_timestamp s,
        st_capture_time_ms := rs_capture_time_ms s,
        st_last_timestamp_time_ms := rs_last_timestamp_time_ms s,
        st_ssrc_has_acked := rs_ssrc_has_acked s \<rparr>"

definition SetRtxRtpState :: "RtpState \<Rightarrow> retx_sender \<Rightarrow> retx_sender" where
  "SetRtxRtpState rtp_state s =
     s\<lparr> rs_sequence_number_rtx := st_sequence_number rtp_state,
        rs_rtx_ssrc_has_acked := st_ssrc_has_acked rtp_state \<rparr>"

definition GetRtxRtpState :: "retx_sender \<Rightarrow> RtpState" where
  "GetRtxRtpState s =
     RtpState_init\<lparr> st_sequence_number := rs_sequence_number_rtx s,
        st_start_timestamp := rs_timestamp_offset s,
        st_ssrc_has_acked := rs_rtx_ssrc_has_acked s \<rparr>"

definition OnReceivedAckOnSsrc :: "retx_sender \<Rightarrow> retx_sender" where
  "OnReceivedAckOnSsrc s = s\<lparr>rs_ssrc_has_acked := True\<rparr>"

definition OnReceivedAckOnRtxSsrc :: "retx_sender \<Rightarrow> retx_sender" where
  "OnReceivedAckOnRtxSsrc s = s\<lparr>rs_rtx_ssrc_has_acked := True\<rparr>"

section \<open>Retransmission\<close>

definition kRtxHeaderSize :: nat where "kRtxHeaderSize = 2"

text \<open>\<open>std::map<int8_t, int8_t>\<close>: the payload type of the packet, below 128, is the key.\<close>

definition BuildRtxPacket ::
  "(RtpPacketToSend \<Rightarrow> nat) \<Rightarrow> RtpPacketToSend \<Rightarrow> retx_sender \<Rightarrow> RtpPacketToSend option \<times> retx_sender" where
  "BuildRtxPacket hs packet s =
     (if \<not> rs_sending_media s then (None, s)
      else case rx_rtx_payload_type_map s (uint (rp_payload_type packet)) of
        None \<Rightarrow> (None, s)
      | Some pt \<Rightarrow>
          let rtx_packet = blank_packet\<lparr>
                rp_payload_type := word_of_int pt,
                rp_sequence_number := rs_sequence_number_rtx s,
                rp_ssrc := rx_rtx_ssrc s,
                rp_marker := rp_marker packet,
                rp_timestamp := rp_timestamp packet,
                rp_sandy := (if rx_sandy_registered s then rp_sandy packet else None),
                rp_MpFlowSeqNum := (if rx_MpFlowSeqNum_registered s then rp_MpFlowSeqNum packet else None),
                rp_headers_size := hs packet \<rparr>;
              s = s\<lparr>rs_sequence_number_rtx := rs_sequence_number_rtx s + 1\<rparr>
          in if hs packet + (length (rp_payload packet) + kRtxHeaderSize) > rx_max_packet_size s then (None, s)
             else (Some (rtx_packet\<lparr>
                     rp_payload := be16 (rp_sequence_number packet) @ rp_payload packet,
                     rp_capture_time_ms := rp_capture_time_ms packet\<rparr>), s))"

text \<open>
  The callback of the two functions \<open>ReSendPacketPrimary\<close> and \<open>ReSendPacketSecondary\<close>;
  bit 0 of the RTX mode is \<open>kRtxRetransmitted\<close>.
\<close>

definition retransmit_copy ::
  "(RtpPacketToSend \<Rightarrow> nat) \<Rightarrow> (mp_collector \<Rightarrow> u8) \<Rightarrow> RtpPacketToSend \<Rightarrow> retx_sender \<Rightarrow>
     RtpPacketToSend option \<times> retx_sender" where
  "retransmit_copy hs path stored s =
     (let (allowed, s) = (case rx_limiter s of [] \<Rightarrow> (True, s) | a # as \<Rightarrow> (a, s\<lparr>rx_limiter := as\<rparr>))
      in if \<not> allowed then (None, s)
         else let (packet, s) = (if bit (rx_rtx s) 0 then BuildRtxPacket hs stored s else (Some stored, s))
              in (map_option (\<lambda>packet.
                    SetExtension_sandy (path (rs_mp s)) (SetExtension_MpFlowSeqNum (rp_subflow_seq stored)
                      (packet\<lparr>rp_retransmitted_sequence_number := Some (rp_subflow_seq stored),
                        rp_subflow_seq := rp_subflow_seq stored, rp_subflow_id := path (rs_mp s)\<rparr>))) packet, s))"

definition primary_path :: "mp_collector \<Rightarrow> u8" where
  "primary_path m = (if mc_best_pathid m = 2 then 3 else 1)"

definition secondary_path :: "mp_collector \<Rightarrow> u8" where
  "secondary_path m = (if mc_best_pathid m = 1 then 4 else 2)"

definition pace_retransmission :: "RtpPacketToSend \<Rightarrow> retx_sender \<Rightarrow> retx_sender" where
  "pace_retransmission packet s =
     s\<lparr>rs_paced := rs_paced s @ [[set_packet_type kRetransmission packet]]\<rparr>"

definition ReSendPacketPrimary ::
  "int \<Rightarrow> (RtpPacketToSend \<Rightarrow> nat) \<Rightarrow> u16 \<Rightarrow> retx_sender \<Rightarrow> (int \<times> retx_sender) option" where
  "ReSendPacketPrimary now_ms hs packet_id s =
     do { stored \<leftarrow> GetPacketState now_ms packet_id (rx_history_p s);
          case stored of
            None \<Rightarrow> Some (0, s)
          | Some st \<Rightarrow>
              if ps_pending st then Some (0, s)
              else do {
                (packet, h, s) \<leftarrow> GetPacketAndMarkAsPending now_ms packet_id
                  (retransmit_copy hs primary_path) (rx_history_p s) s;
                let s = s\<lparr>rx_history_p := h\<rparr>;
                Some (case packet of
                        None \<Rightarrow> (- 1, s)
                      | Some p \<Rightarrow> (int (ps_packet_size st), pace_retransmission p s)) } }"

definition ReSendPacketSecondary ::
  "int \<Rightarrow> (RtpPacketToSend \<Rightarrow> nat) \<Rightarrow> u16 \<Rightarrow> retx_sender \<Rightarrow> (int \<times> retx_sender) option" where
  "ReSendPacketSecondary now_ms hs packet_id s =
     do { stored \<leftarrow> GetPacketState now_ms packet_id (rx_history_s s);
          case stored of
            None \<Rightarrow> Some (0, s)
          | Some st \<Rightarrow>
              if ps_pending st then Some (0, s)
              else do {
                (packet, h, s) \<leftarrow> GetPacketAndMarkAsPending now_ms packet_id
                  (retransmit_copy hs secondary_path) (rx_history_s s) s;
                let s = s\<lparr>rx_history_s := h\<rparr>;
                Some (case packet of
                        None \<Rightarrow> (- 1, s)
                      | Some p \<Rightarrow> (int (ps_packet_size st), pace_retransmission p s)) } }"

text \<open>The second argument of \<open>ReSendPacketPrimary\<close>, a path id the function does not read, is left out.\<close>

definition ReSendPacket ::
  "int \<Rightarrow> (RtpPacketToSend \<Rightarrow> nat) \<Rightarrow> u16 \<Rightarrow> int \<Rightarrow> retx_sender \<Rightarrow> (int \<times> retx_sender) option" where
  "ReSendPacket now_ms hs packet_id pathid s =
     (if pathid \<noteq> 2 then ReSendPacketPrimary now_ms hs packet_id s
      else ReSendPacketSecondary now_ms hs packet_id s)"

fun resend_loop ::
  "int \<Rightarrow> (RtpPacketToSend \<Rightarrow> nat) \<Rightarrow> int \<Rightarrow> u16 list \<Rightarrow> retx_sender \<Rightarrow> retx_sender option" where
  "resend_loop now_ms hs pathid [] s = Some s"
| "resend_loop now_ms hs pathid (seq_no # seq_nos) s =
     do { (bytes_sent, s) \<leftarrow> ReSendPacket now_ms hs seq_no pathid s;
          if bytes_sent < 0 then Some s else resend_loop now_ms hs pathid seq_nos s }"

definition OnReceivedNack ::
  "int \<Rightarrow> (RtpPacketToSend \<Rightarrow> nat) \<Rightarrow> u16 list \<Rightarrow> int \<Rightarrow> int \<Rightarrow> retx_sender \<Rightarrow> retx_sender option" where
  "OnReceivedNack now_ms hs nack_sequence_numbers avg_rtt pathid s =
     do { s \<leftarrow> (if pathid \<noteq> 2
                then map_option (\<lambda>h. s\<lparr>rx_history_p := h\<rparr>) (SetRtt now_ms (5 + avg_rtt) (rx_history_p s))
                else map_option (\<lambda>h. s\<lparr>rx_history_s := h\<rparr>) (SetRtt now_ms (5 + avg_rtt) (rx_history_s s)));
          resend_loop now_ms hs pathid nack_sequence_numbers s }"

section \<open>Resending from one history\<close>

text \<open>Packets stored under a number, and whether such a packet waits in the pacer.\<close>

definition stored_under :: "u16 \<Rightarrow> packet_history \<Rightarrow> StoredPacket option" where
  "stored_under q h = (case GetStoredPacket q h of Some (Some i) \<Rightarrow> Some (ph_packets h ! i) | _ \<Rightarrow> None)"

definition pending_under :: "u16 \<Rightarrow> packet_history \<Rightarrow> bool" where
  "pending_under q h = (case stored_under q h of None \<Rightarrow> False | Some sp \<Rightarrow> sp_pending sp)"

definition stored_packets :: "packet_history \<Rightarrow> RtpPacketToSend set" where
  "stored_packets h = {p. \<exists>sp \<in> set (ph_packets h). sp_packet sp = Some p}"

text \<open>
  \<open>retransmits rtx o p\<close>: \<open>p\<close> carries the media of the stored packet \<open>o\<close>, behind its sequence number
  if RTX is on.
\<close>

definition retransmits :: "bool \<Rightarrow> RtpPacketToSend \<Rightarrow> RtpPacketToSend \<Rightarrow> bool" where
  "retransmits rtx orig p \<longleftrightarrow>
     rp_packet_type p = Some kRetransmission \<and>
     rp_retransmitted_sequence_number p = Some (rp_subflow_seq orig) \<and>
     rp_subflow_seq p = rp_subflow_seq orig \<and>
     (if rtx then rp_payload p = be16 (rp_sequence_number orig) @ rp_payload orig
      else rp_payload p = rp_payload orig \<and> rp_sequence_number p = rp_sequence_number orig)"

definition same_packets :: "packet_history \<Rightarrow> packet_history \<Rightarrow> bool" where
  "same_packets h h' \<longleftrightarrow> map sp_packet (ph_packets h') = map sp_packet (ph_packets h)"

lemma same_packets_nth:
  assumes "same_packets h h'"
  shows "length (ph_packets h') = length (ph_packets h)"
    "i < length (ph_packets h) \<Longrightarrow> sp_packet (ph_packets h' ! i) = sp_packet (ph_packets h ! i)"
proof -
  show l: "length (ph_packets h') = length (ph_packets h)"
    using assms unfolding same_packets_def by (metis length_map)
  show "sp_packet (ph_packets h' ! i) = sp_packet (ph_packets h ! i)" if "i < length (ph_packets h)"
    using assms that l unfolding same_packets_def by (metis nth_map)
qed

lemma GetStoredPacket_cong:
  assumes "same_packets h h'"
  shows "GetStoredPacket q h' = GetStoredPacket q h"
proof -
  note eq = same_packets_nth [OF assms]
  have "GetPacketIndex q h' = GetPacketIndex q h"
    using eq(1) eq(2) [of 0] unfolding GetPacketIndex_def
    by (cases "ph_packets h"; cases "ph_packets h'") auto
  moreover have "slot_at x h' = slot_at x h" for x
    using eq by (auto simp: slot_at_def)
  ultimately show ?thesis by (simp add: GetStoredPacket_def)
qed

lemma stored_packets_cong: "same_packets h h' \<Longrightarrow> stored_packets h' = stored_packets h"
proof -
  have "stored_packets x = {p. Some p \<in> set (map sp_packet (ph_packets x))}" for x
    by (auto simp: stored_packets_def) force
  then show "same_packets h h' \<Longrightarrow> stored_packets h' = stored_packets h" by (simp only: same_packets_def)
qed

lemma same_packets_pending:
  "same_packets h (upd_slot i (\<lambda>sp. sp\<lparr>sp_pending := True\<rparr>) h)"
  unfolding same_packets_def
proof (rule nth_equalityI)
  fix k
  assume "k < length (map sp_packet (ph_packets (upd_slot i (\<lambda>sp. sp\<lparr>sp_pending := True\<rparr>) h)))"
  then show "map sp_packet (ph_packets (upd_slot i (\<lambda>sp. sp\<lparr>sp_pending := True\<rparr>) h)) ! k = map sp_packet (ph_packets h) ! k"
    by (cases "k = i") (auto simp: upd_slot_def)
qed simp

lemma retransmit_copy_frame:
  assumes "retransmit_copy hs path orig s = (e, s')"
  shows "rs_paced s' = rs_paced s" "rs_mp s' = rs_mp s" "rx_rtx s' = rx_rtx s"
    "rx_history_p s' = rx_history_p s" "rx_history_s s' = rx_history_s s"
    "\<And>p. e = Some p \<Longrightarrow> retransmits (bit (rx_rtx s) 0) orig (set_packet_type kRetransmission p) \<and>
      rp_subflow_id p = path (rs_mp s)"
  using assms
  by (auto simp: retransmit_copy_def BuildRtxPacket_def Let_def retransmits_def set_packet_type_def
      ext_defs blank_packet_def split: list.splits if_splits option.splits prod.splits)


lemma same_packets_refl [simp]: "same_packets h h"
  by (simp add: same_packets_def)

lemma stored_under_set: "stored_under q h = Some sp \<Longrightarrow> hist_inv h \<Longrightarrow>
    \<exists>p. sp_packet sp = Some p \<and> rp_subflow_seq p = q \<and> p \<in> stored_packets h"
  using GetStoredPacket_sound [of h q]
  by (fastforce simp: stored_under_def stored_packets_def split: option.splits)

lemma GetPacketState_total: "hist_inv h \<Longrightarrow> \<exists>r. GetPacketState now q h = Some r"
  by (cases rule: GetStoredPacket_cases [where q = q], assumption)
    (auto simp: GetPacketState_def StoredPacketToPacketState_def Let_def)

text \<open>What \<open>GetPacketState\<close> and \<open>GetPacketAndMarkAsPending\<close> do for a packet that is not pending.\<close>

lemma mark_pending_result:
  assumes "hist_inv h" "GetPacketState now q h = Some (Some st)" "\<not> ps_pending st"
  obtains i p where "GetStoredPacket q h = Some (Some i)" "sp_packet (ph_packets h ! i) = Some p"
    "rp_subflow_seq p = q" "p \<in> stored_packets h" "\<not> pending_under q h"
    "\<And>f s. GetPacketAndMarkAsPending now q f h s = (let (e, s) = f p s
       in Some (e, if e \<noteq> None then upd_slot i (\<lambda>sp. sp\<lparr>sp_pending := True\<rparr>) h else h, s))"
  using assms(1)
proof (cases rule: GetStoredPacket_cases [where q = q])
  case absent
  then show ?thesis using assms(2) by (auto simp: GetPacketState_def split: if_splits)
next
  case (present i p)
  then have m: "ph_mode h \<noteq> kDisabled" "VerifyRtt (ph_packets h ! i) now h" "\<not> sp_pending (ph_packets h ! i)"
    using assms(2,3)
    by (auto simp: GetPacketState_def StoredPacketToPacketState_def Let_def split: if_splits)
  have "p \<in> stored_packets h" using present nth_mem unfolding stored_packets_def by blast
  then show ?thesis
    using that [of i p] present m
    by (auto simp: GetPacketAndMarkAsPending_def pending_under_def stored_under_def Let_def)
qed

lemma pending_under_marked:
  assumes "hist_inv h" "GetStoredPacket q h = Some (Some i)"
  defines "h' \<equiv> upd_slot i (\<lambda>sp. sp\<lparr>sp_pending := True\<rparr>) h"
  shows "hist_inv h'" "same_packets h h'" "pending_under q h'" "pending_under r h \<Longrightarrow> pending_under r h'"
proof -
  obtain p where p: "i < length (ph_packets h)" "sp_packet (ph_packets h ! i) = Some p"
    using GetStoredPacket_sound [OF assms(1,2)] by metis
  show "hist_inv h'" unfolding h'_def by (rule mark_pending_inv [OF assms(1) p])
  show sp: "same_packets h h'" unfolding h'_def by (rule same_packets_pending)
  note cong = GetStoredPacket_cong [OF sp]
  show "pending_under q h'"
    using assms(2) p by (simp add: pending_under_def stored_under_def cong, simp add: h'_def)
  show "pending_under r h'" if "pending_under r h"
    using that p unfolding pending_under_def stored_under_def cong
    by (auto simp: h'_def upd_slot_def nth_list_update split: option.splits)
qed

text \<open>
  The interface between the loop over the requested numbers and the history of one path. Both
  functions that resend a packet satisfy it.
\<close>

locale path_resend =
  fixes hist :: "retx_sender \<Rightarrow> packet_history"
    and set_hist :: "packet_history \<Rightarrow> retx_sender \<Rightarrow> retx_sender"
    and path :: "mp_collector \<Rightarrow> u8"
    and resend :: "int \<Rightarrow> (RtpPacketToSend \<Rightarrow> nat) \<Rightarrow> u16 \<Rightarrow> retx_sender \<Rightarrow> (int \<times> retx_sender) option"
  assumes resend_eq: "resend now hs q s =
     do { stored \<leftarrow> GetPacketState now q (hist s);
          case stored of
            None \<Rightarrow> Some (0, s)
          | Some st \<Rightarrow>
              if ps_pending st then Some (0, s)
              else do {
                (packet, h, s) \<leftarrow> GetPacketAndMarkAsPending now q (retransmit_copy hs path) (hist s) s;
                let s = set_hist h s;
                Some (case packet of
                        None \<Rightarrow> (- 1, s)
                      | Some p \<Rightarrow> (int (ps_packet_size st), pace_retransmission p s)) } }"
    and hist_set: "hist (set_hist h s) = h"
    and hist_paced: "hist (s\<lparr>rs_paced := ps\<rparr>) = hist s"
    and set_frame: "rs_paced (set_hist h s) = rs_paced s" "rs_mp (set_hist h s) = rs_mp s"
      "rx_rtx (set_hist h s) = rx_rtx s"
begin

definition resent :: "retx_sender \<Rightarrow> u16 list \<Rightarrow> packets \<Rightarrow> retx_sender \<Rightarrow> bool" where
  "resent s qs ps s' \<longleftrightarrow>
     rs_paced s' = rs_paced s @ map (\<lambda>p. [p]) ps \<and> rs_mp s' = rs_mp s \<and> rx_rtx s' = rx_rtx s \<and>
     hist_inv (hist s') \<and> same_packets (hist s) (hist s') \<and>
     (\<forall>r. pending_under r (hist s) \<longrightarrow> pending_under r (hist s')) \<and>
     distinct (map rp_subflow_seq ps) \<and>
     (\<forall>p \<in> set ps. rp_subflow_seq p \<in> set qs \<and> rp_subflow_id p = path (rs_mp s) \<and>
        \<not> pending_under (rp_subflow_seq p) (hist s) \<and> pending_under (rp_subflow_seq p) (hist s') \<and>
        (\<exists>orig \<in> stored_packets (hist s). retransmits (bit (rx_rtx s) 0) orig p))"

lemma resend_one:
  assumes "hist_inv (hist s)"
  shows "\<exists>b s' ps. resend now hs q s = Some (b, s') \<and> resent s [q] ps s'"
proof -
  have stop: "resent s [q] [] s" using assms by (simp add: resent_def)
  obtain r where r: "GetPacketState now q (hist s) = Some r" using GetPacketState_total [OF assms] by blast
  show ?thesis
  proof (cases "\<exists>st. r = Some st \<and> \<not> ps_pending st")
    case False
    then show ?thesis using r stop by (auto simp: resend_eq split: option.splits)
  next
    case True
    then obtain st where st: "GetPacketState now q (hist s) = Some (Some st)" "\<not> ps_pending st" using r by auto
    obtain i p where p: "GetStoredPacket q (hist s) = Some (Some i)" "sp_packet (ph_packets (hist s) ! i) = Some p"
        "rp_subflow_seq p = q" "p \<in> stored_packets (hist s)" "\<not> pending_under q (hist s)"
        "\<And>f (s' :: retx_sender). GetPacketAndMarkAsPending now q f (hist s) s' = (let (e, s') = f p s'
           in Some (e, if e \<noteq> None then upd_slot i (\<lambda>sp. sp\<lparr>sp_pending := True\<rparr>) (hist s) else hist s, s'))"
      by (rule mark_pending_result [OF assms st]) blast
    obtain e s1 where e: "retransmit_copy hs path p s = (e, s1)" by (cases "retransmit_copy hs path p s")
    note fr = retransmit_copy_frame [OF e]
    show ?thesis
    proof (cases e)
      case None
      then have "resend now hs q s = Some (- 1, set_hist (hist s) s1)"
        using st e by (simp add: resend_eq p(6))
      moreover have "resent s [q] [] (set_hist (hist s) s1)"
        using assms fr by (simp add: resent_def hist_set set_frame)
      ultimately show ?thesis by blast
    next
      case (Some packet)
      let ?h = "upd_slot i (\<lambda>sp. sp\<lparr>sp_pending := True\<rparr>) (hist s)"
      let ?s = "pace_retransmission packet (set_hist ?h s1)"
      note mk = pending_under_marked [OF assms p(1)]
      have "resend now hs q s = Some (int (ps_packet_size st), ?s)"
        using st e Some by (simp add: resend_eq p(6))
      moreover have "resent s [q] [set_packet_type kRetransmission packet] ?s"
        using mk p(3,4,5) fr(1-3) fr(6) [OF Some]
        by (auto simp: resent_def pace_retransmission_def hist_paced hist_set set_frame retransmits_def
            set_packet_type_def)
      ultimately show ?thesis by blast
    qed
  qed
qed

lemma resent_append:
  assumes "resent s [q] ps s1" "resent s1 qs ps' s2"
  shows "resent s (q # qs) (ps @ ps') s2"
  using assms stored_packets_cong [of "hist s" "hist s1"]
  unfolding resent_def same_packets_def
  by (auto simp: distinct_append)


primrec loop ::
  "int \<Rightarrow> (RtpPacketToSend \<Rightarrow> nat) \<Rightarrow> u16 list \<Rightarrow> retx_sender \<Rightarrow> retx_sender option" where
  "loop now hs [] s = Some s"
| "loop now hs (q # qs) s =
     do { (b, s) \<leftarrow> resend now hs q s; if b < 0 then Some s else loop now hs qs s }"

lemma resent_Nil: "hist_inv (hist s) \<Longrightarrow> resent s qs [] s"
  by (simp add: resent_def)

lemma loop_resent: "hist_inv (hist s) \<Longrightarrow> \<exists>s' ps. loop now hs qs s = Some s' \<and> resent s qs ps s'"
proof (induction qs arbitrary: s)
  case Nil
  then show ?case using resent_Nil by fastforce
next
  case (Cons q qs)
  obtain b s1 ps where 1: "resend now hs q s = Some (b, s1)" "resent s [q] ps s1"
    using resend_one [OF Cons.prems(1)] by blast
  then have inv: "hist_inv (hist s1)" by (simp add: resent_def)
  then obtain s2 ps' where 2: "loop now hs qs s1 = Some s2" "resent s1 qs ps' s2"
    using Cons by blast
  have "resent s (q # qs) (ps @ []) s1" using resent_append [OF 1(2) resent_Nil [OF inv]] .
  moreover have "resent s (q # qs) (ps @ ps') s2" using resent_append [OF 1(2) 2(2)] .
  ultimately show ?case using 1(1) 2(1) by auto
qed

end

definition set_history_p :: "packet_history \<Rightarrow> retx_sender \<Rightarrow> retx_sender" where
  "set_history_p h s = s\<lparr>rx_history_p := h\<rparr>"

definition set_history_s :: "packet_history \<Rightarrow> retx_sender \<Rightarrow> retx_sender" where
  "set_history_s h s = s\<lparr>rx_history_s := h\<rparr>"

interpretation primary: path_resend rx_history_p set_history_p primary_path ReSendPacketPrimary
  by unfold_locales (unfold ReSendPacketPrimary_def set_history_p_def, simp_all)

interpretation secondary: path_resend rx_history_s set_history_s secondary_path ReSendPacketSecondary
  by unfold_locales (unfold ReSendPacketSecondary_def set_history_s_def, simp_all)

lemma resend_loop_path:
  "pathid \<noteq> 2 \<Longrightarrow> resend_loop now hs pathid qs s = primary.loop now hs qs s"
  "resend_loop now hs 2 qs s = secondary.loop now hs qs s"
  by (induction qs arbitrary: s) (simp_all add: ReSendPacket_def cong: bind_option_cong if_cong prod.case_cong)

lemma CullOldPackets_subset:
  "CullOldPackets now h = Some h' \<Longrightarrow> stored_packets h' \<subseteq> stored_packets h"
proof (induction now h rule: CullOldPackets.induct)
  case (1 now h)
  have "stored_packets (snd (RemovePacket 0 h)) \<subseteq> stored_packets h"
    by (cases "ph_packets h")
      (auto simp: stored_packets_def RemovePacket_def Let_def dest: set_dropWhileD)
  then show ?case
    using 1 by (subst (asm) (3) CullOldPackets.simps) (auto simp: Let_def split: if_splits option.splits)
qed

lemma SetRtt_subset: "SetRtt now r h = Some h' \<Longrightarrow> stored_packets h' \<subseteq> stored_packets h"
  using CullOldPackets_subset [of now "h\<lparr>ph_rtt_ms := r\<rparr>" h']
  by (auto simp: SetRtt_def Let_def stored_packets_def split: if_splits)



definition example_stored :: RtpPacketToSend where
  "example_stored = blank_packet\<lparr>rp_subflow_seq := 65535, rp_sequence_number := 40, rp_payload := [1, 2],
     rp_sandy := Some 1, rp_MpFlowSeqNum := Some 65535, rp_subflow_id := 1\<rparr>"

definition example_full :: packet_history where
  "example_full = example_history\<lparr>ph_packets := [stored_packet (Some example_stored) (Some 5) 0], ph_inserted := 1\<rparr>"

lemma example_full_put: "PutRtpPacket 5 example_stored (Some 5) example_history = Some example_full"
  by (simp add: PutRtpPacket_def example_history_def example_full_def SetStorePacketsStatus_def Reset_def
      packet_history_init_def CullOldPackets.simps Let_def expand_def add_padding_def slot_at_def)

lemma example_full_reachable: "hist_reachable example_full"
  using hist_reachable.step [OF example_history_reachable] hist_step.put example_full_put by metis

definition example_retx :: retx_sender where
  "example_retx = rtp_sender.extend (example_sender (example_mp ''window''))
     (retx_sender.fields 1 2 1 [0 \<mapsto> 97] 1200 True True example_full example_history [])"


text \<open>
  The state that survives a restart of the stream is restored exactly and numbering of the
  stream and of its retransmissions continues, but the counters of the two paths are not part of it:
  after a restart each path counts from the initial value again.
\<close>

lemma rtp_state_restart:
  "let s' = SetRtxRtpState (GetRtxRtpState s) (SetRtpState (GetRtpState s) s0) in
   GetRtpState s' = GetRtpState s \<and> GetRtxRtpState s' = GetRtxRtpState s \<and>
   fst (AllocateSequenceNumber n s') = rs_sequence_number s \<and>
   rs_sequence_number_p s' = rs_sequence_number_p s0 \<and> rs_sequence_number_s s' = rs_sequence_number_s s0"
  by (simp add: Let_def SetRtxRtpState_def GetRtxRtpState_def SetRtpState_def GetRtpState_def
      AllocateSequenceNumber_def)

end
