(* ===== verification/RtcpCommon.thy ===== *)
theory RtcpCommon
  imports ByteIO
begin

text \<open>
  The parts every RTCP packet shares: the 8-byte common header with the path id this program
  adds to it (\<open>rtcp_packet/common_header.cc\<close>, \<open>RtcpPacket::CreateHeader\<close>), the output buffer that
  is handed to a callback when the next packet does not fit (\<open>RtcpPacket::OnBufferFull\<close>), and
  the common part of feedback packets (\<open>rtpfb.cc\<close>, \<open>psfb.cc\<close>). The locale \<open>rtcp_codec\<close> states the
  contract between a packet class's \<open>BlockLength\<close>, \<open>Create\<close> and \<open>Parse\<close>; each packet class
  interprets it.
\<close>

section \<open>The common header\<close>

record common_header =
  ch_type :: u8
  ch_count :: nat
  ch_pathid :: int
  ch_payload :: bytes
  ch_padding_size :: nat

definition kHeaderLength :: nat where "kHeaderLength = 8"

text \<open>
  \<open>Parse\<close> leaves a view of the payload; here the payload is the list of its bytes, so that a
  read outside of it is a read out of bounds.
\<close>

definition CommonHeader_Parse :: "bytes \<Rightarrow> common_header outcome option" where
  "CommonHeader_Parse buffer =
     (if length buffer < kHeaderLength then Some Fails
      else do {
        b0 \<leftarrow> rd8 buffer 0;
        if drop_bit 6 b0 \<noteq> 2 then Some Fails
        else do {
          packet_type \<leftarrow> rd8 buffer 1;
          len \<leftarrow> rd16 buffer 2;
          pathid \<leftarrow> rd32 buffer 4;
          let payload_size = unat len * 4;
          let h = \<lparr>ch_type = packet_type, ch_count = unat (b0 AND 0x1F), ch_pathid = sint pathid,
                   ch_payload = take payload_size (drop kHeaderLength buffer), ch_padding_size = 0\<rparr>;
          if length buffer < kHeaderLength + payload_size then Some Fails
          else if b0 AND 0x20 \<noteq> 0
          then if payload_size = 0 then Some Fails
               else do {
                 padding \<leftarrow> rd8 buffer (kHeaderLength + payload_size - 1);
                 if padding = 0 then Some Fails
                 else if unat padding > payload_size then Some Fails
                 else Some (Gives (h\<lparr>ch_padding_size := unat padding,
                        ch_payload := take (payload_size - unat padding) (ch_payload h)\<rparr>)) }
          else Some (Gives h) } })"

definition packet_size :: "common_header \<Rightarrow> nat" where
  "packet_size h = kHeaderLength + length (ch_payload h) + ch_padding_size h"

text \<open>The 8 bytes \<open>CreateHeader\<close> writes.\<close>

definition CreateHeader :: "nat \<Rightarrow> u8 \<Rightarrow> nat \<Rightarrow> bool \<Rightarrow> int \<Rightarrow> bytes" where
  "CreateHeader count_or_format packet_type len padding pathid =
     [0x80 OR (if padding then 0x20 else 0) OR of_nat count_or_format, packet_type,
      of_nat (len div 256), of_nat len] @ be32 (word_of_int pathid)"

definition HeaderLength :: "nat \<Rightarrow> nat" where
  "HeaderLength block_length = (block_length - kHeaderLength) div 4"

section \<open>The output buffer\<close>

record out_buffer =
  ob_data :: bytes
  ob_sent :: "bytes list"

definition OnBufferFull :: "out_buffer \<Rightarrow> out_buffer outcome" where
  "OnBufferFull ob =
     (if ob_data ob = [] then Fails
      else Gives (ob\<lparr>ob_data := [], ob_sent := ob_sent ob @ [ob_data ob]\<rparr>))"

text \<open>
  The loop at the start of every \<open>Create\<close>: while the block does not fit, hand the buffer over.
\<close>

function make_room :: "nat \<Rightarrow> nat \<Rightarrow> out_buffer \<Rightarrow> out_buffer outcome" where
  "make_room block_length max_length ob =
     (if length (ob_data ob) + block_length > max_length
      then if ob_data ob = [] then Fails
           else make_room block_length max_length (ob\<lparr>ob_data := [], ob_sent := ob_sent ob @ [ob_data ob]\<rparr>)
      else Gives ob)"
  by auto
termination by (relation "measure (\<lambda>(_, _, ob). length (ob_data ob))") auto

declare make_room.simps [simp del]

text \<open>A write at the current index; \<open>None\<close> when it leaves the \<open>max_length\<close> bytes of the buffer.\<close>

definition emit :: "nat \<Rightarrow> bytes \<Rightarrow> out_buffer \<Rightarrow> out_buffer option" where
  "emit max_length bs ob =
     (if length (ob_data ob) + length bs \<le> max_length then Some (ob\<lparr>ob_data := ob_data ob @ bs\<rparr>) else None)"

text \<open>Make room for a block, then write its parts in order.\<close>

fun emits :: "nat \<Rightarrow> bytes list \<Rightarrow> out_buffer \<Rightarrow> out_buffer outcome option" where
  "emits max_length [] ob = Some (Gives ob)"
| "emits max_length (bs # bss) ob = Option.bind (emit max_length bs ob) (emits max_length bss)"

definition create_block :: "nat \<Rightarrow> bytes list \<Rightarrow> nat \<Rightarrow> out_buffer \<Rightarrow> out_buffer outcome option" where
  "create_block block_length parts max_length ob =
     (case make_room block_length max_length ob of
        Fails \<Rightarrow> Some Fails
      | Gives ob \<Rightarrow> emits max_length parts ob)"

text \<open>\<open>RtcpPacket::Build\<close> with a callback: everything handed over, or failure.\<close>

definition Build ::
  "(nat \<Rightarrow> out_buffer \<Rightarrow> out_buffer outcome option) \<Rightarrow> nat \<Rightarrow> bytes list outcome option" where
  "Build create max_length =
     (case create max_length \<lparr>ob_data = [], ob_sent = []\<rparr> of
        None \<Rightarrow> None
      | Some Fails \<Rightarrow> Some Fails
      | Some (Gives ob) \<Rightarrow>
          (case OnBufferFull ob of Fails \<Rightarrow> Some Fails | Gives ob \<Rightarrow> Some (Gives (ob_sent ob))))"

section \<open>Feedback packets\<close>

definition CreateCommonFeedback :: "u32 \<Rightarrow> u32 \<Rightarrow> bytes" where
  "CreateCommonFeedback sender_ssrc media_ssrc = be32 sender_ssrc @ be32 media_ssrc"

definition ParseCommonFeedback :: "bytes \<Rightarrow> (u32 \<times> u32) option" where
  "ParseCommonFeedback payload =
     do { sender_ssrc \<leftarrow> rd32 payload 0; media_ssrc \<leftarrow> rd32 payload 4; Some (sender_ssrc, media_ssrc) }"

section \<open>Header lemmas\<close>

lemma length_CreateHeader [simp, length_simps]: "length (CreateHeader c t l p i) = 8"
  by (simp add: CreateHeader_def)

lemma first_byte:
  assumes "c < 32"
  shows "drop_bit 6 (0x80 OR of_nat c :: u8) = 2" "(0x80 OR of_nat c :: u8) AND 0x1F = of_nat c"
    "(0x80 OR of_nat c :: u8) AND 0x20 = 0"
proof -
  have "\<forall>c \<in> set [0..<32]. drop_bit 6 (0x80 OR of_nat c :: u8) = 2 \<and>
      (0x80 OR of_nat c :: u8) AND 0x1F = of_nat c \<and> (0x80 OR of_nat c :: u8) AND 0x20 = 0"
    by code_simp
  with assms show "drop_bit 6 (0x80 OR of_nat c :: u8) = 2" "(0x80 OR of_nat c :: u8) AND 0x1F = of_nat c"
    "(0x80 OR of_nat c :: u8) AND 0x20 = 0"
    by simp_all
qed

lemma be16_bytes: "be16 w = [ucast (drop_bit 8 w), ucast w]"
  by (simp add: write_be_def upt_rec)

lemma length_bytes:
  assumes "len < 65536"
  shows "[of_nat (len div 256), of_nat len] = be16 (of_nat len)"
proof -
  have "unat (of_nat len :: u16) = len" using assms by (simp add: unat_of_nat)
  then have "unat (drop_bit 8 (of_nat len :: u16)) = len div 256"
    by (simp add: drop_bit_eq_div unat_div_distrib)
  then have "(ucast (drop_bit 8 (of_nat len :: u16)) :: u8) = of_nat (len div 256)"
    by (metis of_nat_unat)
  moreover have "(ucast (of_nat len :: u16) :: u8) = of_nat len"
    using \<open>unat (of_nat len :: u16) = len\<close> by (metis of_nat_unat)
  ultimately show ?thesis by (simp add: be16_bytes)
qed

lemma CreateHeader_be16:
  "len < 65536 \<Longrightarrow> CreateHeader c t len False pathid =
     [0x80 OR of_nat c, t] @ be16 (of_nat len) @ be32 (word_of_int pathid)"
  using length_bytes [of len] by (simp add: CreateHeader_def)

lemma CommonHeader_Parse_Create:
  assumes "c < 32" "length body = 4 * len" "len < 65536" "- (2 ^ 31) \<le> pathid" "pathid < 2 ^ 31"
  shows "CommonHeader_Parse (CreateHeader c t len False pathid @ body @ rest) =
    Some (Gives \<lparr>ch_type = t, ch_count = c, ch_pathid = pathid, ch_payload = body, ch_padding_size = 0\<rparr>)"
proof -
  have len: "unat (of_nat len :: u16) = len" using assms(3) by (simp add: unat_of_nat)
  have c: "unat (of_nat c :: u8) = c" using assms(1) by (simp add: unat_of_nat)
  have p: "sint (word_of_int pathid :: u32) = pathid"
    using assms(4,5) by (simp add: signed_of_int signed_take_bit_int_eq_self_iff)
  define b where "b = (0x80 OR of_nat c :: u8)"
  have b: "drop_bit 6 b = 2" "b AND 0x1F = of_nat c" "b AND 0x20 = 0"
    using first_byte [OF assms(1)] by (simp_all only: b_def)
  have h: "CreateHeader c t len False pathid = [b, t] @ be16 (of_nat len) @ be32 (word_of_int pathid)"
    by (simp add: CreateHeader_be16 assms(3) b_def)
  show ?thesis
    unfolding h
    by (simp add: CommonHeader_Parse_def assms(2) b codec_simps len c p kHeaderLength_def mult.commute)
qed

section \<open>Lemmas on the output buffer\<close>

text \<open>
  After making room, either the block fits behind what is in the buffer, or it was handed over
  and the block fits in an empty one; it fails exactly when the block is larger than the
  buffer.
\<close>

lemma make_room_eq:
  "make_room n mx ob =
     (if length (ob_data ob) + n \<le> mx then Gives ob
      else if ob_data ob \<noteq> [] \<and> n \<le> mx
      then Gives (ob\<lparr>ob_data := [], ob_sent := ob_sent ob @ [ob_data ob]\<rparr>) else Fails)"
  by (subst make_room.simps, subst make_room.simps) auto

lemma make_room_fits:
  "make_room n mx ob = Gives ob' \<Longrightarrow>
    length (ob_data ob') + n \<le> mx \<and> concat (ob_sent ob') @ ob_data ob' = concat (ob_sent ob) @ ob_data ob"
  by (auto simp: make_room_eq split: if_splits)

lemma emits_eq:
  "length (ob_data ob) + length (concat bss) \<le> mx \<Longrightarrow>
    emits mx bss ob = Some (Gives (ob\<lparr>ob_data := ob_data ob @ concat bss\<rparr>))"
  by (induction bss arbitrary: ob) (auto simp: emit_def)

lemma create_block_eq:
  assumes "length (concat parts) = n"
  shows "create_block n parts mx ob =
    Some (case make_room n mx ob of Fails \<Rightarrow> Fails
      | Gives ob' \<Rightarrow> Gives (ob'\<lparr>ob_data := ob_data ob' @ concat parts\<rparr>))"
  using make_room_fits [of n mx ob] assms emits_eq
  by (auto simp: create_block_def split: outcome.splits)

section \<open>The contract of a packet class\<close>

text \<open>
  \<open>enc\<close> is the encoding of a packet that is valid for sending, \<open>norm\<close> what the receiver gets to
  see of it. The contract: \<open>Create\<close> writes exactly \<open>BlockLength\<close> bytes, namely the encoding,
  after making room; the encoding starts with a common header whose type and count select the
  parser; and the parser gives back the packet.
\<close>

locale rtcp_codec =
  fixes valid :: "'p \<Rightarrow> bool"
    and block_length :: "'p \<Rightarrow> nat"
    and create :: "'p \<Rightarrow> nat \<Rightarrow> out_buffer \<Rightarrow> out_buffer outcome option"
    and parse :: "common_header \<Rightarrow> 'p outcome option"
    and enc :: "'p \<Rightarrow> bytes"
    and hdr :: "'p \<Rightarrow> common_header"
    and norm :: "'p \<Rightarrow> 'p"
  assumes enc_length: "valid x \<Longrightarrow> length (enc x) = block_length x"
    and create_enc: "valid x \<Longrightarrow> create x mx ob =
      Some (case make_room (block_length x) mx ob of Fails \<Rightarrow> Fails
        | Gives ob' \<Rightarrow> Gives (ob'\<lparr>ob_data := ob_data ob' @ enc x\<rparr>))"
    and header_enc: "valid x \<Longrightarrow> CommonHeader_Parse (enc x @ rest) = Some (Gives (hdr x))"
    and header_size: "valid x \<Longrightarrow> packet_size (hdr x) = block_length x"
    and parse_hdr: "valid x \<Longrightarrow> parse (hdr x) = Some (Gives (norm x))"
begin

lemma create_safe: "valid x \<Longrightarrow> create x mx ob \<noteq> None"
  by (simp add: create_enc)

lemma enc_neq_Nil: "valid x \<Longrightarrow> enc x \<noteq> []"
  using header_enc [of x "[]"] by (auto simp: CommonHeader_Parse_def kHeaderLength_def)

lemma create_fits: "valid x \<Longrightarrow> length (ob_data ob) + block_length x \<le> mx \<Longrightarrow>
    create x mx ob = Some (Gives (ob\<lparr>ob_data := ob_data ob @ enc x\<rparr>))"
  by (simp add: create_enc make_room_eq)

lemma build:
  "valid x \<Longrightarrow> Build (create x) mx =
     Some (if block_length x \<le> mx then Gives [enc x] else Fails)"
  using enc_neq_Nil [of x]
  by (simp add: Build_def create_enc make_room_eq OnBufferFull_def)

text \<open>What \<open>Build\<close> hands to the callback is received as the packet that was sent.\<close>

lemma build_parse:
  assumes "valid x" "block_length x \<le> mx"
  shows "\<exists>h. Build (create x) mx = Some (Gives [enc x]) \<and>
    CommonHeader_Parse (enc x) = Some (Gives h) \<and> parse h = Some (Gives (norm x)) \<and>
    packet_size h = length (enc x)"
  using assms header_enc [of x "[]"] by (simp add: build parse_hdr header_size enc_length)

end

section \<open>Packets made of one header and a body\<close>

text \<open>
  Most packet classes write one common header and then the parts of a body whose length is a
  multiple of four. For those the contract follows from the lengths and from the parser's
  behaviour on the body.
\<close>

locale rtcp_block =
  fixes valid :: "'p \<Rightarrow> bool"
    and block_length :: "'p \<Rightarrow> nat"
    and create :: "'p \<Rightarrow> nat \<Rightarrow> out_buffer \<Rightarrow> out_buffer outcome option"
    and parse :: "common_header \<Rightarrow> 'p outcome option"
    and parts :: "'p \<Rightarrow> bytes list"
    and cnt :: "'p \<Rightarrow> nat"
    and ty :: u8
    and path :: "'p \<Rightarrow> int"
    and norm :: "'p \<Rightarrow> 'p"
  assumes create_parts: "create x mx ob = create_block (block_length x)
      (CreateHeader (cnt x) ty (HeaderLength (block_length x)) False (path x) # parts x) mx ob"
    and body_length: "valid x \<Longrightarrow> block_length x = 8 + length (concat (parts x))"
    and body_words: "valid x \<Longrightarrow> length (concat (parts x)) mod 4 = 0"
    and body_max: "valid x \<Longrightarrow> length (concat (parts x)) < 4 * 65536"
    and cnt_max: "valid x \<Longrightarrow> cnt x < 32"
    and path_range: "valid x \<Longrightarrow> - (2 ^ 31) \<le> path x \<and> path x < 2 ^ 31"
    and parse_body: "valid x \<Longrightarrow> parse \<lparr>ch_type = ty, ch_count = cnt x, ch_pathid = path x,
      ch_payload = concat (parts x), ch_padding_size = 0\<rparr> = Some (Gives (norm x))"

sublocale rtcp_block \<subseteq> rtcp_codec valid block_length create parse
  "\<lambda>x. CreateHeader (cnt x) ty (HeaderLength (block_length x)) False (path x) @ concat (parts x)"
  "\<lambda>x. \<lparr>ch_type = ty, ch_count = cnt x, ch_pathid = path x, ch_payload = concat (parts x),
        ch_padding_size = 0\<rparr>" norm
proof
  fix x mx ob rest
  assume v: "valid x"
  let ?len = "HeaderLength (block_length x)"
  have len: "length (concat (parts x)) = 4 * ?len" "?len < 65536"
    using body_words [OF v] body_max [OF v] body_length [OF v]
    by (auto simp: HeaderLength_def kHeaderLength_def)
  show "length (CreateHeader (cnt x) ty ?len False (path x) @ concat (parts x)) = block_length x"
    using body_length [OF v] by simp
  then show "create x mx ob = Some (case make_room (block_length x) mx ob of Fails \<Rightarrow> Fails
      | Gives ob' \<Rightarrow> Gives (ob'\<lparr>ob_data := ob_data ob' @
          CreateHeader (cnt x) ty ?len False (path x) @ concat (parts x)\<rparr>))"
    by (simp add: create_parts create_block_eq split: outcome.split)
  show "CommonHeader_Parse ((CreateHeader (cnt x) ty ?len False (path x) @ concat (parts x)) @ rest) =
      Some (Gives \<lparr>ch_type = ty, ch_count = cnt x, ch_pathid = path x, ch_payload = concat (parts x),
        ch_padding_size = 0\<rparr>)"
    using CommonHeader_Parse_Create [OF cnt_max [OF v] len] path_range [OF v] by simp
  show "packet_size \<lparr>ch_type = ty, ch_count = cnt x, ch_pathid = path x, ch_payload = concat (parts x),
        ch_padding_size = 0\<rparr> = block_length x"
    using body_length [OF v] by (simp add: packet_size_def kHeaderLength_def)
  show "parse \<lparr>ch_type = ty, ch_count = cnt x, ch_pathid = path x, ch_payload = concat (parts x),
        ch_padding_size = 0\<rparr> = Some (Gives (norm x))"
    using v by (rule parse_body)
qed

section \<open>Arrays of items of one size\<close>

text \<open>
  The loops that read \<open>n\<close> items of \<open>w\<close> bytes each: the pointer to the next item is the rest of the
  payload from there on.
\<close>

fun read_items :: "(bytes \<Rightarrow> 'a outcome option) \<Rightarrow> nat \<Rightarrow> nat \<Rightarrow> bytes \<Rightarrow> 'a list outcome option" where
  "read_items item w 0 d = Some (Gives [])"
| "read_items item w (Suc n) d =
     (case item d of
        None \<Rightarrow> None
      | Some Fails \<Rightarrow> Some Fails
      | Some (Gives x) \<Rightarrow>
          (case read_items item w n (drop w d) of
             None \<Rightarrow> None
           | Some Fails \<Rightarrow> Some Fails
           | Some (Gives xs) \<Rightarrow> Some (Gives (x # xs))))"

locale item_codec =
  fixes ok :: "'a \<Rightarrow> bool"
    and enc :: "'a \<Rightarrow> bytes"
    and dec :: "bytes \<Rightarrow> 'a outcome option"
    and w :: nat
    and norm :: "'a \<Rightarrow> 'a"
  assumes enc_length: "length (enc x) = w"
    and dec_enc: "ok x \<Longrightarrow> dec (enc x @ rest) = Some (Gives (norm x))"
    and dec_total: "w \<le> length d \<Longrightarrow> dec d \<noteq> None"
begin

lemma length_encs: "length (concat (map enc xs)) = w * length xs"
  by (rule length_concat_const) (rule enc_length)

lemma read_encs:
  "\<forall>x \<in> set xs. ok x \<Longrightarrow>
    read_items dec w (length xs) (concat (map enc xs) @ rest) = Some (Gives (map norm xs))"
  by (induction xs) (simp_all add: dec_enc enc_length)

lemma read_encs_only:
  "\<forall>x \<in> set xs. ok x \<Longrightarrow> n = length xs \<Longrightarrow>
    read_items dec w n (concat (map enc xs)) = Some (Gives (map norm xs))"
  using read_encs [of xs "[]"] by simp

text \<open>No read is out of bounds when the items are all inside the payload.\<close>

lemma read_items_safe: "n * w \<le> length d \<Longrightarrow> read_items dec w n d \<noteq> None"
proof (induction n arbitrary: d)
  case (Suc n)
  then have "w \<le> length d" "n * w \<le> length (drop w d)" by simp_all
  then have "dec d \<noteq> None" "read_items dec w n (drop w d) \<noteq> None"
    using dec_total Suc.IH by blast+
  then show ?case by (auto split: option.splits outcome.splits)
qed simp

lemma read_items_length: "read_items dec w n d = Some (Gives xs) \<Longrightarrow> length xs = n"
  by (induction n arbitrary: d xs) (auto split: option.splits outcome.splits)

end

text \<open>32-bit words as items.\<close>

definition dec_u32 :: "bytes \<Rightarrow> u32 outcome option" where
  "dec_u32 d = map_option Gives (rd32 d 0)"

interpretation u32_items: item_codec "\<lambda>_. True" be32 dec_u32 4 id
proof
  fix d :: bytes
  assume "4 \<le> length d"
  then show "dec_u32 d \<noteq> None" using rd_exists(5) [of 0 d] by (auto simp: dec_u32_def)
qed (simp_all add: dec_u32_def codec_simps)

end
