(* ===== verification/RtcpReports.thy ===== *)
theory RtcpReports
  imports RtcpCommon
begin

text \<open>
  Sender and receiver reports with their report blocks, the extended jitter report, and the
  NTP timestamps they carry: \<open>report_block.cc\<close>, \<open>sender_report.cc\<close>, \<open>receiver_report.cc\<close>,
  \<open>extended_jitter_report.cc\<close> in \<open>modules/rtp_rtcp/source/rtcp_packet/\<close> and
  \<open>system_wrappers/include/ntp_time.h\<close>.
\<close>

section \<open>NTP time\<close>

type_synonym NtpTime = u64

definition NtpTime_Set :: "u32 \<Rightarrow> u32 \<Rightarrow> NtpTime" where
  "NtpTime_Set secs fracs = ucast secs * 0x100000000 + ucast fracs"

definition ntp_seconds :: "NtpTime \<Rightarrow> u32" where
  "ntp_seconds t = ucast (t div 0x100000000)"

definition ntp_fractions :: "NtpTime \<Rightarrow> u32" where
  "ntp_fractions t = ucast (t mod 0x100000000)"

lemma NtpTime_Set_parts: "NtpTime_Set (ntp_seconds t) (ntp_fractions t) = t"
proof -
  have "unat t < 2 ^ 64" using unsigned_less [of t] by simp
  then have "unat (t div 0x100000000) < 2 ^ 32" "unat (t mod 0x100000000) < 2 ^ 32"
    by (simp_all add: unat_div_distrib unat_mod_distrib less_mult_imp_div_less)
  moreover have "(ucast (ucast x :: u32) :: u64) = x" if "unat x < 2 ^ 32" for x :: u64
  proof -
    have "(ucast (ucast x :: u32) :: u64) = take_bit 32 x"
      by (rule bit_word_eqI) (auto simp: bit_unsigned_iff bit_take_bit_iff)
    also have "\<dots> = x" using that by (simp add: word_unat_eq_iff unsigned_take_bit_eq take_bit_nat_eq_self_iff)
    finally show ?thesis .
  qed
  ultimately have "(ucast (ucast (t div 0x100000000) :: u32) :: u64) = t div 0x100000000"
    "(ucast (ucast (t mod 0x100000000) :: u32) :: u64) = t mod 0x100000000"
    by blast+
  then show ?thesis by (simp add: NtpTime_Set_def ntp_seconds_def ntp_fractions_def word_mod_div_equality)
qed

section \<open>Report blocks\<close>

record ReportBlock =
  rb_source_ssrc :: u32
  rb_fraction_lost :: u8
  rb_cumulative_lost :: u32
  rb_extended_high_seq_num :: u32
  rb_jitter :: u32
  rb_last_sr :: u32
  rb_delay_since_last_sr :: u32
  rb_extended_high_seq_num_p :: u32
  rb_rtcp_seq :: u32

definition kReportBlockLength :: nat where "kReportBlockLength = 28"

definition ReportBlock_Parse :: "bytes \<Rightarrow> nat \<Rightarrow> ReportBlock outcome option" where
  "ReportBlock_Parse buffer len =
     (if len < kReportBlockLength then Some Fails
      else do {
        source_ssrc \<leftarrow> rd32 buffer 0;
        fraction_lost \<leftarrow> rd8 buffer 4;
        cumulative_lost \<leftarrow> rd24s buffer 5;
        extended_high_seq_num \<leftarrow> rd32 buffer 8;
        jitter \<leftarrow> rd32 buffer 12;
        last_sr \<leftarrow> rd32 buffer 16;
        delay_since_last_sr \<leftarrow> rd32 buffer 20;
        extended_high_seq_num_p \<leftarrow> rd32 buffer 24;
        Some (Gives \<lparr>rb_source_ssrc = source_ssrc, rb_fraction_lost = fraction_lost,
          rb_cumulative_lost = cumulative_lost, rb_extended_high_seq_num = extended_high_seq_num,
          rb_jitter = jitter, rb_last_sr = last_sr, rb_delay_since_last_sr = delay_since_last_sr,
          rb_extended_high_seq_num_p = extended_high_seq_num_p, rb_rtcp_seq = 0\<rparr>) })"

definition ReportBlock_Create :: "ReportBlock \<Rightarrow> bytes" where
  "ReportBlock_Create b =
     be32 (rb_source_ssrc b) @ [rb_fraction_lost b] @ be24 (rb_cumulative_lost b) @
     be32 (rb_extended_high_seq_num b) @ be32 (rb_jitter b) @ be32 (rb_last_sr b) @
     be32 (rb_delay_since_last_sr b) @ be32 (rb_extended_high_seq_num b)"

definition SetCumulativeLost :: "u32 \<Rightarrow> ReportBlock \<Rightarrow> ReportBlock outcome" where
  "SetCumulativeLost v b =
     (if sint v \<ge> 2 ^ 23 \<or> sint v < - (2 ^ 23) then Fails else Gives (b\<lparr>rb_cumulative_lost := v\<rparr>))"

definition cumulative_lost :: "ReportBlock \<Rightarrow> u32" where
  "cumulative_lost b = (if sint (rb_cumulative_lost b) < 0 then 0 else rb_cumulative_lost b)"

text \<open>What the receiver sees of a block: the original sequence number is overwritten.\<close>

definition received_block :: "ReportBlock \<Rightarrow> ReportBlock" where
  "received_block b = b\<lparr>rb_extended_high_seq_num_p := rb_extended_high_seq_num b, rb_rtcp_seq := 0\<rparr>"

definition dec_block :: "bytes \<Rightarrow> ReportBlock outcome option" where
  "dec_block d = ReportBlock_Parse d kReportBlockLength"

interpretation blocks: item_codec "\<lambda>b. fits24 (rb_cumulative_lost b)" ReportBlock_Create dec_block 28 received_block
proof
  fix d :: bytes
  assume d: "28 \<le> length d"
  have "\<exists>v. rd8 d 4 = Some v" "\<exists>v. rd24s d 5 = Some v" "\<exists>v. rd32 d 0 = Some v" "\<exists>v. rd32 d 8 = Some v"
    "\<exists>v. rd32 d 12 = Some v" "\<exists>v. rd32 d 16 = Some v" "\<exists>v. rd32 d 20 = Some v" "\<exists>v. rd32 d 24 = Some v"
    using d by (auto intro!: rd_exists)
  then show "dec_block d \<noteq> None" by (auto simp: dec_block_def ReportBlock_Parse_def)
next
  fix b :: ReportBlock and rest :: bytes
  assume "fits24 (rb_cumulative_lost b)"
  then show "dec_block (ReportBlock_Create b @ rest) = Some (Gives (received_block b))"
    by (simp add: dec_block_def ReportBlock_Parse_def ReportBlock_Create_def received_block_def codec_simps)
qed (simp add: ReportBlock_Create_def)

text \<open>
  A block accepted by \<open>SetCumulativeLost\<close> survives encoding and parsing in all fields but
  one: the field for the original sequence number arrives as a copy of the extended highest
  sequence number, because \<open>Create\<close> writes that value twice.
\<close>

lemma report_block_round_trip:
  assumes "SetCumulativeLost v b0 = Gives b"
  shows "length (ReportBlock_Create b) = kReportBlockLength \<and>
    ReportBlock_Parse (ReportBlock_Create b @ rest) kReportBlockLength =
      Some (Gives (b\<lparr>rb_extended_high_seq_num_p := rb_extended_high_seq_num b, rb_rtcp_seq := 0\<rparr>))"
proof -
  have "fits24 (rb_cumulative_lost b)"
    using assms by (auto simp: SetCumulativeLost_def fits24_def split: if_splits)
  then show ?thesis
    using blocks.dec_enc [of b rest] blocks.enc_length [of b]
    by (simp add: dec_block_def received_block_def kReportBlockLength_def)
qed

section \<open>Sender reports\<close>

record SenderReport =
  sr_sender_ssrc :: u32
  sr_pathid :: int
  sr_ntp :: NtpTime
  sr_rtp_timestamp :: u32
  sr_packet_count :: u32
  sr_octet_count :: u32
  sr_report_blocks :: "ReportBlock list"

definition kMaxNumberOfReportBlocks :: nat where "kMaxNumberOfReportBlocks = 31"
definition kSenderBaseLength :: nat where "kSenderBaseLength = 28"

definition SenderReport_Parse :: "common_header \<Rightarrow> SenderReport outcome option" where
  "SenderReport_Parse h =
     (let payload = ch_payload h; n = ch_count h in
      if length payload < kSenderBaseLength + n * kReportBlockLength then Some Fails
      else do {
        sender_ssrc \<leftarrow> rd32 payload 0;
        secs \<leftarrow> rd32 payload 4;
        frac \<leftarrow> rd32 payload 8;
        rtp_timestamp \<leftarrow> rd32 payload 12;
        packet_count \<leftarrow> rd32 payload 16;
        octet_count \<leftarrow> rd32 payload 20;
        bs \<leftarrow> read_items dec_block kReportBlockLength n (drop kSenderBaseLength payload);
        Some (map_outcome (\<lambda>bs. \<lparr>sr_sender_ssrc = sender_ssrc, sr_pathid = 3,
          sr_ntp = NtpTime_Set secs frac, sr_rtp_timestamp = rtp_timestamp,
          sr_packet_count = packet_count, sr_octet_count = octet_count, sr_report_blocks = bs\<rparr>) bs) })"

definition SenderReport_BlockLength :: "SenderReport \<Rightarrow> nat" where
  "SenderReport_BlockLength r =
     kHeaderLength + kSenderBaseLength + length (sr_report_blocks r) * kReportBlockLength"

text \<open>
  \<open>Create\<close> writes 24 bytes of sender information but advances by \<open>kSenderBaseLength\<close>, 28: the
  four bytes in between keep what the output buffer held before, the argument \<open>stale\<close>.
\<close>

definition SenderReport_parts :: "bytes \<Rightarrow> SenderReport \<Rightarrow> bytes list" where
  "SenderReport_parts stale r =
     [be32 (sr_sender_ssrc r), be32 (ntp_seconds (sr_ntp r)), be32 (ntp_fractions (sr_ntp r)),
      be32 (sr_rtp_timestamp r), be32 (sr_packet_count r), be32 (sr_octet_count r), stale] @
     map ReportBlock_Create (sr_report_blocks r)"

definition SenderReport_Create ::
  "bytes \<Rightarrow> SenderReport \<Rightarrow> nat \<Rightarrow> out_buffer \<Rightarrow> out_buffer outcome option" where
  "SenderReport_Create stale r max_length ob =
     create_block (SenderReport_BlockLength r)
       (CreateHeader (length (sr_report_blocks r)) 200 (HeaderLength (SenderReport_BlockLength r)) False
          (sr_pathid r) # SenderReport_parts stale r) max_length ob"

definition SenderReport_AddReportBlock :: "ReportBlock \<Rightarrow> SenderReport \<Rightarrow> SenderReport outcome" where
  "SenderReport_AddReportBlock b r =
     (if length (sr_report_blocks r) \<ge> kMaxNumberOfReportBlocks then Fails
      else Gives (r\<lparr>sr_report_blocks := sr_report_blocks r @ [b]\<rparr>))"

definition SenderReport_SetReportBlocks :: "ReportBlock list \<Rightarrow> SenderReport \<Rightarrow> SenderReport outcome" where
  "SenderReport_SetReportBlocks bs r =
     (if length bs > kMaxNumberOfReportBlocks then Fails else Gives (r\<lparr>sr_report_blocks := bs\<rparr>))"

section \<open>Receiver reports\<close>

record ReceiverReport =
  rr_sender_ssrc :: u32
  rr_pathid :: int
  rr_report_blocks :: "ReportBlock list"

definition kRrBaseLength :: nat where "kRrBaseLength = 4"

definition ReceiverReport_Parse :: "common_header \<Rightarrow> ReceiverReport outcome option" where
  "ReceiverReport_Parse h =
     (let payload = ch_payload h; n = ch_count h in
      if length payload < kRrBaseLength + n * kReportBlockLength then Some Fails
      else do {
        sender_ssrc \<leftarrow> rd32 payload 0;
        bs \<leftarrow> read_items dec_block kReportBlockLength n (drop kRrBaseLength payload);
        Some (map_outcome (\<lambda>bs. \<lparr>rr_sender_ssrc = sender_ssrc, rr_pathid = 3, rr_report_blocks = bs\<rparr>) bs) })"

definition ReceiverReport_BlockLength :: "ReceiverReport \<Rightarrow> nat" where
  "ReceiverReport_BlockLength r =
     kHeaderLength + kRrBaseLength + length (rr_report_blocks r) * kReportBlockLength"

definition ReceiverReport_parts :: "ReceiverReport \<Rightarrow> bytes list" where
  "ReceiverReport_parts r = be32 (rr_sender_ssrc r) # map ReportBlock_Create (rr_report_blocks r)"

definition ReceiverReport_Create ::
  "ReceiverReport \<Rightarrow> nat \<Rightarrow> out_buffer \<Rightarrow> out_buffer outcome option" where
  "ReceiverReport_Create r max_length ob =
     create_block (ReceiverReport_BlockLength r)
       (CreateHeader (length (rr_report_blocks r)) 201 (HeaderLength (ReceiverReport_BlockLength r)) False
          (rr_pathid r) # ReceiverReport_parts r) max_length ob"

definition ReceiverReport_AddReportBlock :: "ReportBlock \<Rightarrow> ReceiverReport \<Rightarrow> ReceiverReport outcome" where
  "ReceiverReport_AddReportBlock b r =
     (if length (rr_report_blocks r) \<ge> kMaxNumberOfReportBlocks then Fails
      else Gives (r\<lparr>rr_report_blocks := rr_report_blocks r @ [b]\<rparr>))"

definition ReceiverReport_SetReportBlocks ::
  "ReportBlock list \<Rightarrow> ReceiverReport \<Rightarrow> ReceiverReport outcome" where
  "ReceiverReport_SetReportBlocks bs r =
     (if length bs > kMaxNumberOfReportBlocks then Fails else Gives (r\<lparr>rr_report_blocks := bs\<rparr>))"

section \<open>Extended jitter reports\<close>

record ExtendedJitterReport =
  ej_jitters :: "u32 list"

definition ExtendedJitterReport_Parse :: "common_header \<Rightarrow> ExtendedJitterReport outcome option" where
  "ExtendedJitterReport_Parse h =
     (let n = ch_count h in
      if length (ch_payload h) < n * 4 then Some Fails
      else map_option (map_outcome (\<lambda>js. \<lparr>ej_jitters = js\<rparr>)) (read_items dec_u32 4 n (ch_payload h)))"

definition ExtendedJitterReport_BlockLength :: "ExtendedJitterReport \<Rightarrow> nat" where
  "ExtendedJitterReport_BlockLength r = kHeaderLength + 4 * length (ej_jitters r)"

definition ExtendedJitterReport_Create ::
  "ExtendedJitterReport \<Rightarrow> nat \<Rightarrow> out_buffer \<Rightarrow> out_buffer outcome option" where
  "ExtendedJitterReport_Create r max_length ob =
     create_block (ExtendedJitterReport_BlockLength r)
       (CreateHeader (length (ej_jitters r)) 195 (length (ej_jitters r)) False 1 # map be32 (ej_jitters r))
       max_length ob"

definition SetJitterValues :: "u32 list \<Rightarrow> ExtendedJitterReport \<Rightarrow> ExtendedJitterReport outcome" where
  "SetJitterValues vs r = (if length vs > 31 then Fails else Gives (r\<lparr>ej_jitters := vs\<rparr>))"

section \<open>The contracts\<close>

definition int32 :: "int \<Rightarrow> bool" where
  "int32 i \<longleftrightarrow> - (2 ^ 31) \<le> i \<and> i < 2 ^ 31"

definition SenderReport_valid :: "bytes \<Rightarrow> SenderReport \<Rightarrow> bool" where
  "SenderReport_valid stale r \<longleftrightarrow>
     length stale = 4 \<and> int32 (sr_pathid r) \<and> length (sr_report_blocks r) \<le> kMaxNumberOfReportBlocks \<and>
     (\<forall>b \<in> set (sr_report_blocks r). fits24 (rb_cumulative_lost b))"

definition ReceiverReport_valid :: "ReceiverReport \<Rightarrow> bool" where
  "ReceiverReport_valid r \<longleftrightarrow>
     int32 (rr_pathid r) \<and> length (rr_report_blocks r) \<le> kMaxNumberOfReportBlocks \<and>
     (\<forall>b \<in> set (rr_report_blocks r). fits24 (rb_cumulative_lost b))"

definition ExtendedJitterReport_valid :: "ExtendedJitterReport \<Rightarrow> bool" where
  "ExtendedJitterReport_valid r \<longleftrightarrow> length (ej_jitters r) \<le> 31"

definition received_SenderReport :: "SenderReport \<Rightarrow> SenderReport" where
  "received_SenderReport r =
     r\<lparr>sr_pathid := 3, sr_report_blocks := map received_block (sr_report_blocks r)\<rparr>"

definition received_ReceiverReport :: "ReceiverReport \<Rightarrow> ReceiverReport" where
  "received_ReceiverReport r =
     r\<lparr>rr_pathid := 3, rr_report_blocks := map received_block (rr_report_blocks r)\<rparr>"

lemmas report_lengths = kHeaderLength_def kSenderBaseLength_def kRrBaseLength_def
  kReportBlockLength_def kMaxNumberOfReportBlocks_def

interpretation sr: rtcp_block "SenderReport_valid stale" SenderReport_BlockLength
  "SenderReport_Create stale" SenderReport_Parse "SenderReport_parts stale"
  "\<lambda>r. length (sr_report_blocks r)" 200 sr_pathid received_SenderReport for stale
proof
  fix r :: SenderReport
  assume v: "SenderReport_valid stale r"
  then have s: "length stale = 4" and b: "\<forall>b \<in> set (sr_report_blocks r). fits24 (rb_cumulative_lost b)"
    and n: "length (sr_report_blocks r) \<le> 31" and p: "int32 (sr_pathid r)"
    by (simp_all add: SenderReport_valid_def report_lengths)
  have len: "length (concat (SenderReport_parts stale r)) = 28 + 28 * length (sr_report_blocks r)"
    using s by (simp add: SenderReport_parts_def blocks.length_encs)
  show "SenderReport_BlockLength r = 8 + length (concat (SenderReport_parts stale r))"
    and "length (concat (SenderReport_parts stale r)) mod 4 = 0"
    and "length (concat (SenderReport_parts stale r)) < 4 * 65536" and "length (sr_report_blocks r) < 32"
    using len n by (simp_all add: SenderReport_BlockLength_def report_lengths)
  show "- (2 ^ 31) \<le> sr_pathid r \<and> sr_pathid r < 2 ^ 31" using p by (simp add: int32_def)
  have items: "read_items dec_block 28 (length (sr_report_blocks r))
      (concat (map ReportBlock_Create (sr_report_blocks r))) =
      Some (Gives (map received_block (sr_report_blocks r)))"
    using b by (simp add: blocks.read_encs_only)
  show "SenderReport_Parse \<lparr>ch_type = 200, ch_count = length (sr_report_blocks r), ch_pathid = sr_pathid r,
      ch_payload = concat (SenderReport_parts stale r), ch_padding_size = 0\<rparr> =
      Some (Gives (received_SenderReport r))"
    using len s items
    by (simp add: SenderReport_Parse_def Let_def report_lengths)
      (simp add: SenderReport_parts_def codec_simps received_SenderReport_def NtpTime_Set_parts)
qed (simp add: SenderReport_Create_def)

interpretation rr: rtcp_block ReceiverReport_valid ReceiverReport_BlockLength
  ReceiverReport_Create ReceiverReport_Parse ReceiverReport_parts
  "\<lambda>r. length (rr_report_blocks r)" 201 rr_pathid received_ReceiverReport
proof
  fix r :: ReceiverReport
  assume v: "ReceiverReport_valid r"
  then have b: "\<forall>b \<in> set (rr_report_blocks r). fits24 (rb_cumulative_lost b)"
    and n: "length (rr_report_blocks r) \<le> 31" and p: "int32 (rr_pathid r)"
    by (simp_all add: ReceiverReport_valid_def report_lengths)
  have len: "length (concat (ReceiverReport_parts r)) = 4 + 28 * length (rr_report_blocks r)"
    by (simp add: ReceiverReport_parts_def blocks.length_encs)
  show "ReceiverReport_BlockLength r = 8 + length (concat (ReceiverReport_parts r))"
    and "length (concat (ReceiverReport_parts r)) mod 4 = 0"
    and "length (concat (ReceiverReport_parts r)) < 4 * 65536" and "length (rr_report_blocks r) < 32"
    using len n by (simp_all add: ReceiverReport_BlockLength_def report_lengths)
  show "- (2 ^ 31) \<le> rr_pathid r \<and> rr_pathid r < 2 ^ 31" using p by (simp add: int32_def)
  have items: "read_items dec_block 28 (length (rr_report_blocks r))
      (concat (map ReportBlock_Create (rr_report_blocks r))) =
      Some (Gives (map received_block (rr_report_blocks r)))"
    using b by (simp add: blocks.read_encs_only)
  show "ReceiverReport_Parse \<lparr>ch_type = 201, ch_count = length (rr_report_blocks r), ch_pathid = rr_pathid r,
      ch_payload = concat (ReceiverReport_parts r), ch_padding_size = 0\<rparr> =
      Some (Gives (received_ReceiverReport r))"
    using len items
    by (simp add: ReceiverReport_Parse_def Let_def report_lengths)
      (simp add: ReceiverReport_parts_def codec_simps received_ReceiverReport_def)
qed (simp add: ReceiverReport_Create_def)

interpretation ej: rtcp_block ExtendedJitterReport_valid ExtendedJitterReport_BlockLength
  ExtendedJitterReport_Create ExtendedJitterReport_Parse "\<lambda>r. map be32 (ej_jitters r)"
  "\<lambda>r. length (ej_jitters r)" 195 "\<lambda>_. 1" id
proof
  fix r :: ExtendedJitterReport
  assume v: "ExtendedJitterReport_valid r"
  then show "ExtendedJitterReport_BlockLength r = 8 + length (concat (map be32 (ej_jitters r)))"
    and "length (concat (map be32 (ej_jitters r))) mod 4 = 0"
    and "length (concat (map be32 (ej_jitters r))) < 4 * 65536" and "length (ej_jitters r) < 32"
    by (simp_all add: ExtendedJitterReport_valid_def ExtendedJitterReport_BlockLength_def
        u32_items.length_encs kHeaderLength_def)
  show "ExtendedJitterReport_Parse \<lparr>ch_type = 195, ch_count = length (ej_jitters r), ch_pathid = 1,
      ch_payload = concat (map be32 (ej_jitters r)), ch_padding_size = 0\<rparr> = Some (Gives (id r))"
    by (simp add: ExtendedJitterReport_Parse_def Let_def u32_items.length_encs u32_items.read_encs_only)
qed (simp_all add: ExtendedJitterReport_Create_def ExtendedJitterReport_BlockLength_def HeaderLength_def
    kHeaderLength_def)

section \<open>Properties\<close>

text \<open>
  A sender report with at most 31 report blocks is built as a single packet of
  \<open>BlockLength\<close> bytes whenever that fits, whatever the output buffer held before, and parsing
  that packet gives back the report; the path id travels in the common header, and each
  block's original sequence number is lost.
\<close>

lemma sender_report_round_trip:
  assumes "SenderReport_valid stale r" "SenderReport_BlockLength r \<le> mx"
  shows "\<exists>wire h. Build (SenderReport_Create stale r) mx = Some (Gives [wire]) \<and>
    length wire = SenderReport_BlockLength r \<and> CommonHeader_Parse wire = Some (Gives h) \<and>
    ch_pathid h = sr_pathid r \<and> packet_size h = length wire \<and>
    SenderReport_Parse h = Some (Gives (received_SenderReport r))"
  using assms sr.build [OF assms(1), of mx] sr.header_enc [OF assms(1), of "[]"] sr.parse_hdr [OF assms(1)]
    sr.header_size [OF assms(1)] sr.enc_length [OF assms(1)]
  by auto

definition example_block :: ReportBlock where
  "example_block = \<lparr>rb_source_ssrc = 7, rb_fraction_lost = 3, rb_cumulative_lost = 0xFFFFFFFE,
     rb_extended_high_seq_num = 1000, rb_jitter = 12, rb_last_sr = 5, rb_delay_since_last_sr = 6,
     rb_extended_high_seq_num_p = 400, rb_rtcp_seq = 0\<rparr>"

lemma fits24_example [simp]: "fits24 (rb_cumulative_lost example_block)"
  by (simp add: example_block_def fits24_def)

lemma report_block_round_trip_witness:
  "ReportBlock_Parse (ReportBlock_Create example_block @ [1, 2]) kReportBlockLength =
     Some (Gives (example_block\<lparr>rb_extended_high_seq_num_p := 1000, rb_rtcp_seq := 0\<rparr>))"
proof -
  have "SetCumulativeLost 0xFFFFFFFE example_block = Gives example_block"
    by code_simp
  from report_block_round_trip [OF this, of "[1, 2]"] show ?thesis by (simp add: example_block_def)
qed

lemma sender_report_round_trip_witness:
  "let r = \<lparr>sr_sender_ssrc = 1, sr_pathid = 2, sr_ntp = 99, sr_rtp_timestamp = 3, sr_packet_count = 4,
        sr_octet_count = 5, sr_report_blocks = [example_block]\<rparr>
   in \<exists>wire h. Build (SenderReport_Create [9, 9, 9, 9] r) 1200 = Some (Gives [wire]) \<and>
     length wire = SenderReport_BlockLength r \<and> CommonHeader_Parse wire = Some (Gives h) \<and>
     ch_pathid h = sr_pathid r \<and> packet_size h = length wire \<and>
     SenderReport_Parse h = Some (Gives (received_SenderReport r))"
  unfolding Let_def
  by (rule sender_report_round_trip)
    (simp_all add: SenderReport_valid_def SenderReport_BlockLength_def report_lengths int32_def)



lemma dec_block_gives:
  "n * 28 \<le> length d \<Longrightarrow> \<exists>bs. read_items dec_block 28 n d = Some (Gives bs) \<and> length bs = n"
proof -
  assume "n * 28 \<le> length d"
  then have "read_items dec_block 28 n d \<noteq> None" by (rule blocks.read_items_safe)
  moreover have "dec_block x \<noteq> Some Fails" for x
    by (auto simp: dec_block_def ReportBlock_Parse_def bind_eq_Some_conv)
  then have "read_items dec_block 28 n d \<noteq> Some Fails"
    by (induction n arbitrary: d) (auto split: option.splits outcome.splits)
  ultimately obtain bs where "read_items dec_block 28 n d = Some (Gives bs)"
    by (metis not_None_eq outcome.exhaust)
  with blocks.read_items_length show ?thesis by blast
qed

text \<open>
  Parsing a sender report never reads outside the payload; it succeeds exactly when the
  payload holds the sender information and as many blocks as the header announces, and then
  gives that many blocks.
\<close>

lemma sender_report_parse_total:
  "if kSenderBaseLength + ch_count h * kReportBlockLength \<le> length (ch_payload h)
   then \<exists>r. SenderReport_Parse h = Some (Gives r) \<and> length (sr_report_blocks r) = ch_count h
   else SenderReport_Parse h = Some Fails"
proof (cases "kSenderBaseLength + ch_count h * kReportBlockLength \<le> length (ch_payload h)")
  case True
  then have len: "28 + ch_count h * 28 \<le> length (ch_payload h)" by (simp add: report_lengths)
  then have "ch_count h * 28 \<le> length (drop 28 (ch_payload h))" by simp
  then obtain bs where "read_items dec_block 28 (ch_count h) (drop 28 (ch_payload h)) = Some (Gives bs)"
    "length bs = ch_count h"
    using dec_block_gives by blast
  moreover have "\<exists>v. rd32 (ch_payload h) i = Some v" if "i \<le> 24" for i
    using len that by (intro rd_exists) simp
  then have "\<exists>v. rd32 (ch_payload h) 0 = Some v" "\<exists>v. rd32 (ch_payload h) 4 = Some v"
    "\<exists>v. rd32 (ch_payload h) 8 = Some v" "\<exists>v. rd32 (ch_payload h) 12 = Some v"
    "\<exists>v. rd32 (ch_payload h) 16 = Some v" "\<exists>v. rd32 (ch_payload h) 20 = Some v"
    by simp_all
  ultimately show ?thesis using True
    by (auto simp: SenderReport_Parse_def Let_def report_lengths)
next
  case False
  then show ?thesis by (simp add: SenderReport_Parse_def Let_def)
qed

end
