(* ===== verification/RtcpFeedback.thy ===== *)
theory RtcpFeedback
  imports RtcpReports
begin

text \<open>
  Payload-specific and transport feedback packets in \<open>modules/rtp_rtcp/source/rtcp_packet/\<close>:
  picture loss indication (\<open>pli.cc\<close>), full intra request (\<open>fir.cc\<close>), rapid resynchronisation
  request, the bitrate messages TMMBR and TMMBN with their items (\<open>tmmb_item.cc\<close>), the receiver
  estimate REMB (\<open>remb.cc\<close>) and the loss notification. Bitrates are sent as a mantissa and an
  exponent; the lemmas bound what the receiver loses.
\<close>

section \<open>Mantissa and exponent\<close>

text \<open>The loop \<open>while (mantissa > kMaxMantissa)\<close> of \<open>TmmbItem::Create\<close> and \<open>Remb::Create\<close>.\<close>

function compact_loop :: "u64 \<Rightarrow> u64 \<Rightarrow> nat \<Rightarrow> u64 \<times> nat" where
  "compact_loop mx mantissa e =
     (if mantissa > mx then compact_loop mx (drop_bit 1 mantissa) (Suc e) else (mantissa, e))"
  by auto
termination
proof (relation "measure (\<lambda>(_, m, _). unat m)")
  fix mx m :: u64 and e :: nat
  assume "m > mx"
  then have "0 < unat m" by (simp add: word_less_nat_alt)
  then show "((mx, drop_bit 1 m, Suc e), mx, m, e) \<in> measure (\<lambda>(_, m, _). unat m)"
    by (simp add: unat_drop_bit_eq drop_bit_eq_div unat_div_distrib)
qed simp

declare compact_loop.simps [simp del]

lemma unat_drop_bit: "unat (drop_bit n w) = unat w div 2 ^ n"
  by (simp only: unat_drop_bit_eq) (simp only: drop_bit_eq_div)

lemma compact_loop_spec:
  assumes "compact_loop mx m e = (m', e')"
  shows "e \<le> e' \<and> m' \<le> mx \<and> m' = drop_bit (e' - e) m \<and> (e < e' \<longrightarrow> unat mx < unat m div 2 ^ (e' - e - 1))"
  using assms
proof (induction mx m e rule: compact_loop.induct)
  case (1 mx m e)
  show ?case
  proof (cases "m > mx")
    case True
    with "1.prems" have "compact_loop mx (drop_bit 1 m) (Suc e) = (m', e')"
      by (simp add: compact_loop.simps [of mx m e])
    note ih = "1.IH" [OF True this]
    have "Suc e \<le> e'" using ih by blast
    then have e: "e' - e = Suc (e' - Suc e)" by simp
    have "m' = drop_bit (e' - e) m" using ih by (simp add: e)
    moreover have "unat mx < unat m div 2 ^ (e' - e - 1)"
    proof (cases "Suc e < e'")
      case True
      with ih have "unat mx < unat (drop_bit 1 m) div 2 ^ (e' - Suc e - 1)" by simp
      moreover have "unat (drop_bit 1 m) div 2 ^ (e' - Suc e - 1) = unat m div 2 ^ Suc (e' - Suc e - 1)"
        by (simp add: unat_drop_bit div_mult2_eq)
      moreover have "Suc (e' - Suc e - 1) = e' - e - 1" using True by simp
      ultimately show ?thesis by (simp only:)
    next
      case False
      with ih have "e' = Suc e" by simp
      with True show ?thesis by (simp add: word_less_nat_alt)
    qed
    ultimately show ?thesis using ih Suc_leD [OF \<open>Suc e \<le> e'\<close>] by blast
  next
    case False
    with "1.prems" show ?thesis by (simp add: compact_loop.simps [of mx m e] not_less)
  qed
qed

text \<open>With a mantissa of at least 17 bits the exponent is at most 47.\<close>

lemma compact_loop_exponent:
  assumes "compact_loop mx m 0 = (m', e)" "2 ^ 17 - 1 \<le> unat mx"
  shows "e \<le> 47"
proof (rule ccontr)
  assume "\<not> e \<le> 47"
  then have "48 \<le> e" by simp
  have "unat m < 2 ^ 64" using unsigned_less [of m] by simp
  then have "unat m div 2 ^ (e - 1) \<le> unat m div 2 ^ 47"
    using \<open>48 \<le> e\<close> power_increasing [of 47 "e - 1" "2 :: nat"] by (intro div_le_mono2) simp_all
  also have "\<dots> < 2 ^ 17" using \<open>unat m < 2 ^ 64\<close> by (simp add: less_mult_imp_div_less)
  finally show False using compact_loop_spec [OF assms(1)] \<open>48 \<le> e\<close> assms(2) by simp
qed

lemma push_drop_drop: "drop_bit e (push_bit e (drop_bit e m)) = drop_bit e (m :: 'a::len word)"
  by (rule bit_word_eqI) (auto simp: bit_drop_bit_eq bit_push_bit_iff possible_bit_word dest: bit_imp_le_length)

section \<open>Bitrate items\<close>

record TmmbItem =
  ti_ssrc :: u32
  ti_bitrate_bps :: u64
  ti_packet_overhead :: u16

definition TmmbItem_Parse :: "bytes \<Rightarrow> TmmbItem outcome option" where
  "TmmbItem_Parse buffer =
     do { ssrc \<leftarrow> rd32 buffer 0;
          compact \<leftarrow> rd32 buffer 4;
          let e = unat (drop_bit 26 compact);
          let mantissa = (ucast (drop_bit 9 compact AND 0x1ffff) :: u64);
          let overhead = (ucast (compact AND 0x1ff) :: u16);
          let bitrate_bps = push_bit e mantissa;
          if drop_bit e bitrate_bps \<noteq> mantissa then Some Fails
          else Some (Gives \<lparr>ti_ssrc = ssrc, ti_bitrate_bps = bitrate_bps, ti_packet_overhead = overhead\<rparr>) }"

definition TmmbItem_Create :: "TmmbItem \<Rightarrow> bytes" where
  "TmmbItem_Create i =
     (let (mantissa, e) = compact_loop 0x1ffff (ti_bitrate_bps i) 0
      in be32 (ti_ssrc i) @
         be32 (ucast (ucast (push_bit 26 (of_nat e :: u32)) OR push_bit 9 mantissa OR ucast (ti_packet_overhead i))))"

definition TmmbItem_ok :: "TmmbItem \<Rightarrow> bool" where
  "TmmbItem_ok i \<longleftrightarrow> ti_packet_overhead i \<le> 0x1ff"

text \<open>The bitrate that arrives: the bits below the mantissa are lost.\<close>

definition received_bitrate :: "u64 \<Rightarrow> u64 \<Rightarrow> u64" where
  "received_bitrate mx b = (let e = snd (compact_loop mx b 0) in push_bit e (drop_bit e b))"

definition received_TmmbItem :: "TmmbItem \<Rightarrow> TmmbItem" where
  "received_TmmbItem i = i\<lparr>ti_bitrate_bps := received_bitrate 0x1ffff (ti_bitrate_bps i)\<rparr>"

text \<open>The three fields of the compact word do not overlap.\<close>

lemma bits_below: "unat w < 2 ^ n \<Longrightarrow> bit w k \<Longrightarrow> k < n" for w :: "'a::len word"
proof -
  assume "unat w < 2 ^ n" "bit w k"
  then have "take_bit n (unat w) = unat w" by (simp add: take_bit_nat_eq_self_iff)
  moreover have "bit (unat w) k" using \<open>bit w k\<close> by (simp add: bit_unsigned_iff)
  ultimately show "k < n" by (metis bit_take_bit_iff)
qed

lemma compact_fields:
  fixes m :: u64 and ov :: u16
  assumes "e < 64" "unat m < 2 ^ 17" "unat ov < 2 ^ 9"
  defines "c \<equiv> (ucast (ucast (push_bit 26 (of_nat e :: u32)) OR push_bit 9 m OR ucast ov) :: u32)"
  shows "unat (drop_bit 26 c) = e" "(ucast (drop_bit 9 c AND 0x1ffff) :: u64) = m"
    "(ucast (c AND 0x1ff) :: u16) = ov"
proof -
  have ub: "unat (of_nat e :: u32) = e" using assms(1) by (simp add: unat_of_nat)
  then have e: "bit (of_nat e :: u32) k \<Longrightarrow> k < 6" for k
    using bits_below [of "of_nat e :: u32" 6 k] assms(1) by simp
  have m: "bit m k \<Longrightarrow> k < 17" for k by (rule bits_below [OF assms(2)])
  have ov: "bit ov k \<Longrightarrow> k < 9" for k by (rule bits_below [OF assms(3)])
  have c: "bit c k \<longleftrightarrow> k < 32 \<and> (26 \<le> k \<and> bit (of_nat e :: u32) (k - 26) \<or> 9 \<le> k \<and> bit m (k - 9) \<or> bit ov k)" for k
    by (auto simp: c_def bit_unsigned_iff bit_or_iff bit_push_bit_iff possible_bit_word)
  have "drop_bit 26 c = (of_nat e :: u32)"
    by (rule bit_word_eqI) (auto simp: bit_drop_bit_eq c add.commute dest: e m ov)
  with ub show "unat (drop_bit 26 c) = e" by simp
  have mask: "(0x1ffff :: u32) = mask 17" "(0x1ff :: u32) = mask 9" by (simp_all add: mask_eq_exp_minus_1)
  show "(ucast (drop_bit 9 c AND 0x1ffff) :: u64) = m"
    unfolding mask
    by (rule bit_word_eqI)
      (auto simp: bit_unsigned_iff bit_and_iff bit_mask_iff bit_drop_bit_eq c add.commute possible_bit_word
        dest: e m ov)
  show "(ucast (c AND 0x1ff) :: u16) = ov"
    unfolding mask
    by (rule bit_word_eqI)
      (auto simp: bit_unsigned_iff bit_and_iff bit_mask_iff c possible_bit_word dest: e m ov)
qed

lemma received_bitrate_parts:
  assumes "compact_loop mx b 0 = (m, e)"
  shows "push_bit e m = received_bitrate mx b" "drop_bit e (push_bit e m) = m"
  using compact_loop_spec [OF assms] by (simp_all add: received_bitrate_def assms push_drop_drop)

interpretation tmmb_items: item_codec TmmbItem_ok TmmbItem_Create TmmbItem_Parse 8 received_TmmbItem
proof
  fix i rest
  assume ok: "TmmbItem_ok i"
  obtain m e where l: "compact_loop 0x1ffff (ti_bitrate_bps i) 0 = (m, e)" by fastforce
  have "e < 64" using compact_loop_exponent [OF l] by simp
  moreover have "m \<le> 0x1ffff" using compact_loop_spec [OF l] by blast
  then have "unat m < 2 ^ 17" by (simp add: word_le_nat_alt)
  moreover have "unat (ti_packet_overhead i) < 2 ^ 9"
    using ok by (simp add: word_le_nat_alt TmmbItem_ok_def)
  ultimately show "TmmbItem_Parse (TmmbItem_Create i @ rest) = Some (Gives (received_TmmbItem i))"
    using compact_fields received_bitrate_parts [OF l]
    by (simp add: TmmbItem_Parse_def TmmbItem_Create_def l codec_simps Let_def received_TmmbItem_def)
next
  fix d :: bytes
  assume "8 \<le> length d"
  then have "\<exists>v. rd32 d 0 = Some v" "\<exists>v. rd32 d 4 = Some v" by (auto intro!: rd_exists)
  then show "TmmbItem_Parse d \<noteq> None" by (auto simp: TmmbItem_Parse_def Let_def)
qed (simp add: TmmbItem_Create_def case_prod_beta Let_def)

section \<open>Packets without a list\<close>

definition kCommonFeedbackLength :: nat where "kCommonFeedbackLength = 8"
definition kPsfb :: u8 where "kPsfb = 206"
definition kRtpfb :: u8 where "kRtpfb = 205"

lemmas fb_lengths = kHeaderLength_def kCommonFeedbackLength_def

record Pli =
  pli_sender_ssrc :: u32
  pli_media_ssrc :: u32
  pli_pathid :: int

definition Pli_Parse :: "common_header \<Rightarrow> Pli outcome option" where
  "Pli_Parse h =
     (if length (ch_payload h) < kCommonFeedbackLength then Some Fails
      else do { (s, m) \<leftarrow> ParseCommonFeedback (ch_payload h);
                Some (Gives \<lparr>pli_sender_ssrc = s, pli_media_ssrc = m, pli_pathid = 3\<rparr>) })"

definition Pli_BlockLength :: "Pli \<Rightarrow> nat" where
  "Pli_BlockLength p = kHeaderLength + kCommonFeedbackLength"

definition Pli_Create :: "Pli \<Rightarrow> nat \<Rightarrow> out_buffer \<Rightarrow> out_buffer outcome option" where
  "Pli_Create p max_length ob = create_block (Pli_BlockLength p)
     [CreateHeader 1 kPsfb (HeaderLength (Pli_BlockLength p)) False (pli_pathid p),
      CreateCommonFeedback (pli_sender_ssrc p) (pli_media_ssrc p)] max_length ob"

record RapidResyncRequest =
  rq_sender_ssrc :: u32
  rq_media_ssrc :: u32

definition RapidResyncRequest_Parse :: "common_header \<Rightarrow> RapidResyncRequest outcome option" where
  "RapidResyncRequest_Parse h =
     (if length (ch_payload h) \<noteq> kCommonFeedbackLength then Some Fails
      else do { (s, m) \<leftarrow> ParseCommonFeedback (ch_payload h);
                Some (Gives \<lparr>rq_sender_ssrc = s, rq_media_ssrc = m\<rparr>) })"

definition RapidResyncRequest_BlockLength :: "RapidResyncRequest \<Rightarrow> nat" where
  "RapidResyncRequest_BlockLength p = kHeaderLength + kCommonFeedbackLength"

definition RapidResyncRequest_Create ::
  "RapidResyncRequest \<Rightarrow> nat \<Rightarrow> out_buffer \<Rightarrow> out_buffer outcome option" where
  "RapidResyncRequest_Create p max_length ob = create_block (RapidResyncRequest_BlockLength p)
     [CreateHeader 5 kRtpfb (HeaderLength (RapidResyncRequest_BlockLength p)) False 3,
      CreateCommonFeedback (rq_sender_ssrc p) (rq_media_ssrc p)] max_length ob"

record LossNotification =
  ln_sender_ssrc :: u32
  ln_media_ssrc :: u32
  ln_pathid :: int
  ln_last_decoded :: u16
  ln_last_received :: u16
  ln_decodability_flag :: bool

definition kLossNotificationId :: u32 where "kLossNotificationId = 0x4C4E5446"

definition LossNotification_BlockLength :: "LossNotification \<Rightarrow> nat" where
  "LossNotification_BlockLength p = kHeaderLength + kCommonFeedbackLength + 8"

definition LossNotification_parts :: "LossNotification \<Rightarrow> bytes list" where
  "LossNotification_parts p =
     [CreateCommonFeedback (ln_sender_ssrc p) (ln_media_ssrc p), be32 kLossNotificationId,
      be16 (ln_last_decoded p),
      be16 (push_bit 1 (ln_last_received p - ln_last_decoded p) OR (if ln_decodability_flag p then 1 else 0))]"

definition LossNotification_Create ::
  "LossNotification \<Rightarrow> nat \<Rightarrow> out_buffer \<Rightarrow> out_buffer outcome option" where
  "LossNotification_Create p max_length ob = create_block (LossNotification_BlockLength p)
     (CreateHeader 15 kPsfb (HeaderLength (LossNotification_BlockLength p)) False (ln_pathid p) #
      LossNotification_parts p) max_length ob"

definition LossNotification_Parse :: "common_header \<Rightarrow> LossNotification outcome option" where
  "LossNotification_Parse h =
     (if length (ch_payload h) < kCommonFeedbackLength + 8 then Some Fails
      else do {
        uid \<leftarrow> rd32 (ch_payload h) 8;
        if uid \<noteq> kLossNotificationId then Some Fails
        else do {
          (s, m) \<leftarrow> ParseCommonFeedback (ch_payload h);
          last_decoded \<leftarrow> rd16 (ch_payload h) 12;
          delta \<leftarrow> rd16 (ch_payload h) 14;
          Some (Gives \<lparr>ln_sender_ssrc = s, ln_media_ssrc = m, ln_pathid = 3,
            ln_last_decoded = last_decoded, ln_last_received = last_decoded + drop_bit 1 delta,
            ln_decodability_flag = (delta AND 1 \<noteq> 0)\<rparr>) } })"

definition LossNotification_Set ::
  "u16 \<Rightarrow> u16 \<Rightarrow> bool \<Rightarrow> LossNotification \<Rightarrow> LossNotification outcome" where
  "LossNotification_Set last_decoded last_received flag p =
     (if last_received - last_decoded > 0x7fff then Fails
      else Gives (p\<lparr>ln_last_received := last_received, ln_last_decoded := last_decoded,
             ln_decodability_flag := flag\<rparr>))"

section \<open>Packets with a list\<close>

record FirRequest =
  fq_ssrc :: u32
  fq_seq_nr :: u8

record Fir =
  fir_sender_ssrc :: u32
  fir_media_ssrc :: u32
  fir_pathid :: int
  fir_items :: "FirRequest list"

definition FirRequest_enc :: "FirRequest \<Rightarrow> bytes" where
  "FirRequest_enc q = be32 (fq_ssrc q) @ [fq_seq_nr q] @ be24 0"

definition FirRequest_dec :: "bytes \<Rightarrow> FirRequest outcome option" where
  "FirRequest_dec d =
     do { ssrc \<leftarrow> rd32 d 0; seq_nr \<leftarrow> rd8 d 4; Some (Gives \<lparr>fq_ssrc = ssrc, fq_seq_nr = seq_nr\<rparr>) }"

definition Fir_Parse :: "common_header \<Rightarrow> Fir outcome option" where
  "Fir_Parse h =
     (let payload = ch_payload h in
      if length payload < kCommonFeedbackLength + 8 then Some Fails
      else if (length payload - kCommonFeedbackLength) mod 8 \<noteq> 0 then Some Fails
      else do {
        (s, m) \<leftarrow> ParseCommonFeedback payload;
        items \<leftarrow> read_items FirRequest_dec 8 ((length payload - kCommonFeedbackLength) div 8)
                  (drop kCommonFeedbackLength payload);
        Some (map_outcome (\<lambda>items. \<lparr>fir_sender_ssrc = s, fir_media_ssrc = m, fir_pathid = 3,
          fir_items = items\<rparr>) items) })"

definition Fir_BlockLength :: "Fir \<Rightarrow> nat" where
  "Fir_BlockLength p = kHeaderLength + kCommonFeedbackLength + 8 * length (fir_items p)"

definition Fir_parts :: "Fir \<Rightarrow> bytes list" where
  "Fir_parts p = CreateCommonFeedback (fir_sender_ssrc p) (fir_media_ssrc p) # map FirRequest_enc (fir_items p)"

definition Fir_Create :: "Fir \<Rightarrow> nat \<Rightarrow> out_buffer \<Rightarrow> out_buffer outcome option" where
  "Fir_Create p max_length ob = create_block (Fir_BlockLength p)
     (CreateHeader 4 kPsfb (HeaderLength (Fir_BlockLength p)) False (fir_pathid p) # Fir_parts p)
     max_length ob"

text \<open>TMMBR and TMMBN differ in their message type and in whether the list may be empty.\<close>

record Tmmb =
  tm_sender_ssrc :: u32
  tm_media_ssrc :: u32
  tm_items :: "TmmbItem list"

definition Tmmb_items_parse :: "common_header \<Rightarrow> Tmmb outcome option" where
  "Tmmb_items_parse h =
     (let payload = ch_payload h; items_size = length payload - kCommonFeedbackLength in
      if items_size mod 8 \<noteq> 0 then Some Fails
      else do {
        (s, m) \<leftarrow> ParseCommonFeedback payload;
        items \<leftarrow> read_items TmmbItem_Parse 8 (items_size div 8) (drop kCommonFeedbackLength payload);
        Some (map_outcome (\<lambda>items. \<lparr>tm_sender_ssrc = s, tm_media_ssrc = m, tm_items = items\<rparr>) items) })"

definition Tmmbr_Parse :: "common_header \<Rightarrow> Tmmb outcome option" where
  "Tmmbr_Parse h =
     (if length (ch_payload h) < kCommonFeedbackLength + 8 then Some Fails else Tmmb_items_parse h)"

definition Tmmbn_Parse :: "common_header \<Rightarrow> Tmmb outcome option" where
  "Tmmbn_Parse h =
     (if length (ch_payload h) < kCommonFeedbackLength then Some Fails else Tmmb_items_parse h)"

definition AddTmmbr :: "TmmbItem \<Rightarrow> Tmmb \<Rightarrow> Tmmb" where
  "AddTmmbr i p = p\<lparr>tm_items := tm_items p @ [i]\<rparr>"

definition Tmmb_BlockLength :: "Tmmb \<Rightarrow> nat" where
  "Tmmb_BlockLength p = kHeaderLength + kCommonFeedbackLength + 8 * length (tm_items p)"

definition Tmmb_parts :: "Tmmb \<Rightarrow> bytes list" where
  "Tmmb_parts p = CreateCommonFeedback (tm_sender_ssrc p) (tm_media_ssrc p) # map TmmbItem_Create (tm_items p)"

definition Tmmbr_Create :: "Tmmb \<Rightarrow> nat \<Rightarrow> out_buffer \<Rightarrow> out_buffer outcome option" where
  "Tmmbr_Create p max_length ob = create_block (Tmmb_BlockLength p)
     (CreateHeader 3 kRtpfb (HeaderLength (Tmmb_BlockLength p)) False 3 # Tmmb_parts p) max_length ob"

definition Tmmbn_Create :: "Tmmb \<Rightarrow> nat \<Rightarrow> out_buffer \<Rightarrow> out_buffer outcome option" where
  "Tmmbn_Create p max_length ob = create_block (Tmmb_BlockLength p)
     (CreateHeader 4 kRtpfb (HeaderLength (Tmmb_BlockLength p)) False 3 # Tmmb_parts p) max_length ob"

record Remb =
  remb_sender_ssrc :: u32
  remb_media_ssrc :: u32
  remb_bitrate_bps :: u64
  remb_ssrcs :: "u32 list"

definition kRembId :: u32 where "kRembId = 0x52454D42"

definition Remb_Parse :: "common_header \<Rightarrow> Remb outcome option" where
  "Remb_Parse h =
     (let payload = ch_payload h in
      if length payload < 16 then Some Fails
      else do {
        uid \<leftarrow> rd32 payload 8;
        if uid \<noteq> kRembId then Some Fails
        else do {
          n \<leftarrow> rd8 payload 12;
          if length payload \<noteq> kCommonFeedbackLength + (2 + unat n) * 4 then Some Fails
          else do {
            (s, m) \<leftarrow> ParseCommonFeedback payload;
            b13 \<leftarrow> rd8 payload 13;
            low \<leftarrow> rd16 payload 14;
            let e = unat (drop_bit 2 b13);
            let mantissa = (ucast (push_bit 16 (ucast (b13 AND 3) :: u32) OR ucast low) :: u64);
            let bitrate = push_bit e mantissa;
            if drop_bit e bitrate \<noteq> mantissa then Some Fails
            else do {
              ssrcs \<leftarrow> read_items dec_u32 4 (unat n) (drop 16 payload);
              Some (map_outcome (\<lambda>ssrcs. \<lparr>remb_sender_ssrc = s, remb_media_ssrc = m,
                remb_bitrate_bps = bitrate, remb_ssrcs = ssrcs\<rparr>) ssrcs) } } } })"

definition Remb_SetSsrcs :: "u32 list \<Rightarrow> Remb \<Rightarrow> Remb outcome" where
  "Remb_SetSsrcs ssrcs p = (if length ssrcs > 0xff then Fails else Gives (p\<lparr>remb_ssrcs := ssrcs\<rparr>))"

definition Remb_BlockLength :: "Remb \<Rightarrow> nat" where
  "Remb_BlockLength p = kHeaderLength + kCommonFeedbackLength + (2 + length (remb_ssrcs p)) * 4"

definition Remb_parts :: "Remb \<Rightarrow> bytes list" where
  "Remb_parts p =
     (let (mantissa, e) = compact_loop 0x3ffff (remb_bitrate_bps p) 0
      in [CreateCommonFeedback (remb_sender_ssrc p) (remb_media_ssrc p), be32 kRembId,
          [of_nat (length (remb_ssrcs p))],
          [ucast ((ucast (push_bit 2 (of_nat e :: u32)) :: u64) OR drop_bit 16 mantissa)],
          be16 (ucast (mantissa AND 0xffff))] @ map be32 (remb_ssrcs p))"

definition Remb_Create :: "Remb \<Rightarrow> nat \<Rightarrow> out_buffer \<Rightarrow> out_buffer outcome option" where
  "Remb_Create p max_length ob = create_block (Remb_BlockLength p)
     (CreateHeader 15 kPsfb (HeaderLength (Remb_BlockLength p)) False 3 # Remb_parts p) max_length ob"

section \<open>The contracts\<close>

lemma length_CreateCommonFeedback [simp, length_simps]: "length (CreateCommonFeedback s m) = 8"
  by (simp add: CreateCommonFeedback_def)

lemma ParseCommonFeedback_Create [codec_simps]:
  "ParseCommonFeedback (CreateCommonFeedback s m @ rest) = Some (s, m)"
  "ParseCommonFeedback (CreateCommonFeedback s m) = Some (s, m)"
  by (simp_all add: ParseCommonFeedback_def CreateCommonFeedback_def codec_simps)

lemma ParseCommonFeedback_total: "8 \<le> length d \<Longrightarrow> \<exists>s m. ParseCommonFeedback d = Some (s, m)"
  using rd_exists(5) [of 0 d] rd_exists(5) [of 4 d] by (auto simp: ParseCommonFeedback_def)

interpretation pli: rtcp_block "\<lambda>p. int32 (pli_pathid p)" Pli_BlockLength Pli_Create Pli_Parse
  "\<lambda>p. [CreateCommonFeedback (pli_sender_ssrc p) (pli_media_ssrc p)]" "\<lambda>_. 1" kPsfb pli_pathid
  "\<lambda>p. p\<lparr>pli_pathid := 3\<rparr>"
  by unfold_locales
    (simp_all add: Pli_Create_def Pli_BlockLength_def Pli_Parse_def fb_lengths int32_def codec_simps)

interpretation rrr: rtcp_block "\<lambda>_. True" RapidResyncRequest_BlockLength RapidResyncRequest_Create
  RapidResyncRequest_Parse "\<lambda>p. [CreateCommonFeedback (rq_sender_ssrc p) (rq_media_ssrc p)]" "\<lambda>_. 5" kRtpfb
  "\<lambda>_. 3" id
  by unfold_locales
    (simp_all add: RapidResyncRequest_Create_def RapidResyncRequest_BlockLength_def
      RapidResyncRequest_Parse_def fb_lengths codec_simps)

lemma delta_flag:
  fixes d :: u16
  assumes "d \<le> 0x7fff"
  shows "drop_bit 1 (push_bit 1 d OR (if f then 1 else 0)) = d"
    and "(push_bit 1 d OR (if f then 1 else 0)) AND 1 \<noteq> 0 \<longleftrightarrow> f"
proof -
  have d: "bit d k \<Longrightarrow> k < 15" for k
    by (rule bits_below) (use assms in \<open>simp_all add: word_le_nat_alt\<close>)
  have "drop_bit s (push_bit s d OR (if f then 1 else 0)) = d" if "s = 1" for s :: nat
    by (rule bit_word_eqI)
      (use that in \<open>auto simp: bit_drop_bit_eq bit_or_iff bit_push_bit_iff possible_bit_word bit_1_iff
         dest: d simp del: push_bit_Suc\<close>)
  from this [OF refl] show "drop_bit 1 (push_bit 1 d OR (if f then 1 else 0)) = d" .
  have "bit (push_bit s d OR (if f then 1 else 0)) 0 \<longleftrightarrow> f" if "0 < s" for s :: nat
    using that by (auto simp: bit_or_iff bit_push_bit_iff possible_bit_word)
  from this [OF zero_less_one] have "bit (push_bit 1 d OR (if f then 1 else 0)) 0 \<longleftrightarrow> f" .
  then show "(push_bit 1 d OR (if f then 1 else 0)) AND 1 \<noteq> 0 \<longleftrightarrow> f"
    using and_exp_eq_0_iff_not_bit [of "push_bit 1 d OR (if f then 1 else 0)" 0] by simp
qed

definition LossNotification_valid :: "LossNotification \<Rightarrow> bool" where
  "LossNotification_valid p \<longleftrightarrow> int32 (ln_pathid p) \<and> ln_last_received p - ln_last_decoded p \<le> 0x7fff"

interpretation lnt: rtcp_block LossNotification_valid LossNotification_BlockLength
  LossNotification_Create LossNotification_Parse LossNotification_parts "\<lambda>_. 15" kPsfb ln_pathid
  "\<lambda>p. p\<lparr>ln_pathid := 3\<rparr>"
proof
  fix p :: LossNotification
  assume "LossNotification_valid p"
  then show "LossNotification_Parse \<lparr>ch_type = kPsfb, ch_count = 15, ch_pathid = ln_pathid p,
      ch_payload = concat (LossNotification_parts p), ch_padding_size = 0\<rparr> = Some (Gives (p\<lparr>ln_pathid := 3\<rparr>))"
    using delta_flag [of "ln_last_received p - ln_last_decoded p" "ln_decodability_flag p"]
    by (simp add: LossNotification_Parse_def LossNotification_parts_def LossNotification_valid_def
        fb_lengths codec_simps del: drop_bit_Suc push_bit_Suc)
qed (simp_all add: LossNotification_valid_def int32_def LossNotification_Create_def
    LossNotification_BlockLength_def LossNotification_parts_def fb_lengths)

interpretation fir_requests: item_codec "\<lambda>_. True" FirRequest_enc FirRequest_dec 8 id
proof
  fix d :: bytes
  assume "8 \<le> length d"
  then have "\<exists>v. rd32 d 0 = Some v" "\<exists>v. rd8 d 4 = Some v" by (auto intro!: rd_exists)
  then show "FirRequest_dec d \<noteq> None" by (auto simp: FirRequest_dec_def)
qed (simp_all add: FirRequest_enc_def FirRequest_dec_def codec_simps)

definition Fir_valid :: "Fir \<Rightarrow> bool" where
  "Fir_valid p \<longleftrightarrow> int32 (fir_pathid p) \<and> fir_items p \<noteq> [] \<and> length (fir_items p) < 32767"

interpretation fir: rtcp_block Fir_valid Fir_BlockLength Fir_Create Fir_Parse Fir_parts "\<lambda>_. 4" kPsfb fir_pathid
  "\<lambda>p. p\<lparr>fir_pathid := 3\<rparr>"
proof
  fix p :: Fir
  assume v: "Fir_valid p"
  have len: "length (concat (Fir_parts p)) = 8 + 8 * length (fir_items p)"
    by (simp add: Fir_parts_def fir_requests.length_encs)
  with v show "Fir_BlockLength p = 8 + length (concat (Fir_parts p))"
    and "length (concat (Fir_parts p)) mod 4 = 0" and "length (concat (Fir_parts p)) < 4 * 65536"
    by (simp_all add: Fir_valid_def Fir_BlockLength_def fb_lengths)
  show "Fir_Parse \<lparr>ch_type = kPsfb, ch_count = 4, ch_pathid = fir_pathid p,
      ch_payload = concat (Fir_parts p), ch_padding_size = 0\<rparr> = Some (Gives (p\<lparr>fir_pathid := 3\<rparr>))"
    using len v fir_requests.read_encs_only [of "fir_items p"]
    by (simp add: Fir_Parse_def Let_def fb_lengths Fir_valid_def Suc_le_eq)
      (simp add: Fir_parts_def codec_simps)
qed (simp_all add: Fir_valid_def int32_def Fir_Create_def)

definition Tmmb_valid :: "Tmmb \<Rightarrow> bool" where
  "Tmmb_valid p \<longleftrightarrow> length (tm_items p) < 32767 \<and> (\<forall>i \<in> set (tm_items p). TmmbItem_ok i)"

definition received_Tmmb :: "Tmmb \<Rightarrow> Tmmb" where
  "received_Tmmb p = p\<lparr>tm_items := map received_TmmbItem (tm_items p)\<rparr>"

lemma Tmmb_parts_length: "length (concat (Tmmb_parts p)) = 8 + 8 * length (tm_items p)"
  by (simp add: Tmmb_parts_def tmmb_items.length_encs)

lemma Tmmb_items_parse_parts:
  "Tmmb_valid p \<Longrightarrow> Tmmb_items_parse \<lparr>ch_type = t, ch_count = c, ch_pathid = i,
     ch_payload = concat (Tmmb_parts p), ch_padding_size = 0\<rparr> = Some (Gives (received_Tmmb p))"
  using tmmb_items.read_encs_only [of "tm_items p"] Tmmb_parts_length [of p]
  by (simp add: Tmmb_items_parse_def Let_def fb_lengths Tmmb_valid_def)
    (simp add: Tmmb_parts_def codec_simps received_Tmmb_def)

interpretation tmmbr: rtcp_block "\<lambda>p. Tmmb_valid p \<and> tm_items p \<noteq> []" Tmmb_BlockLength Tmmbr_Create Tmmbr_Parse
  Tmmb_parts "\<lambda>_. 3" kRtpfb "\<lambda>_. 3" received_Tmmb
  by unfold_locales
    (auto simp: Tmmbr_Create_def Tmmb_BlockLength_def Tmmb_parts_length fb_lengths Tmmb_valid_def
      Tmmbr_Parse_def Suc_le_eq intro!: Tmmb_items_parse_parts)

interpretation tmmbn: rtcp_block Tmmb_valid Tmmb_BlockLength Tmmbn_Create Tmmbn_Parse
  Tmmb_parts "\<lambda>_. 4" kRtpfb "\<lambda>_. 3" received_Tmmb
  by unfold_locales
    (auto simp: Tmmbn_Create_def Tmmb_BlockLength_def Tmmb_parts_length fb_lengths Tmmb_valid_def
      Tmmbn_Parse_def intro!: Tmmb_items_parse_parts)

lemma remb_fields:
  fixes m :: u64
  assumes "e < 64" "unat m < 2 ^ 18"
  defines "b \<equiv> (ucast ((ucast (push_bit 2 (of_nat e :: u32)) :: u64) OR drop_bit 16 m) :: u8)"
  shows "unat (drop_bit 2 b) = e"
    and "(ucast (push_bit 16 (ucast (b AND 3) :: u32) OR ucast (ucast (m AND 0xffff) :: u16)) :: u64) = m"
proof -
  have "unat (of_nat e :: u32) = e" using assms(1) by (simp add: unat_of_nat)
  then have e: "bit (of_nat e :: u32) k \<Longrightarrow> k < 6" for k
    using bits_below [of "of_nat e :: u32" 6 k] assms(1) by simp
  have m: "bit m k \<Longrightarrow> k < 18" for k by (rule bits_below [OF assms(2)])
  have b: "bit b k \<longleftrightarrow> k < 8 \<and> (2 \<le> k \<and> bit (of_nat e :: u32) (k - 2) \<or> bit m (k + 16))" for k
    by (auto simp: b_def bit_unsigned_iff bit_or_iff bit_push_bit_iff bit_drop_bit_eq possible_bit_word add.commute)
  have "drop_bit 2 b = (of_nat e :: u8)"
  proof (rule bit_word_eqI)
    fix n
    assume "n < LENGTH(8)"
    have "bit (of_nat e :: u8) n \<longleftrightarrow> bit (of_nat e :: u32) n"
      using \<open>n < LENGTH(8)\<close> by (simp add: bit_of_nat_iff possible_bit_word)
    then show "bit (drop_bit 2 b) n = bit (of_nat e :: u8) n"
      using \<open>n < LENGTH(8)\<close> e [of n] m [of "n + 18"]
      by (auto simp: bit_drop_bit_eq b add.commute)
  qed
  then show "unat (drop_bit 2 b) = e" using assms(1) by (simp add: unat_of_nat)
  have mask: "(3 :: u8) = mask 2" "(0xffff :: u64) = mask 16" by (simp_all add: mask_eq_exp_minus_1)
  show "(ucast (push_bit 16 (ucast (b AND 3) :: u32) OR ucast (ucast (m AND 0xffff) :: u16)) :: u64) = m"
    unfolding mask
  proof (rule bit_word_eqI)
    fix n
    show "bit (ucast (push_bit 16 (ucast (b AND mask 2) :: u32) OR ucast (ucast (m AND mask 16) :: u16)) :: u64) n =
        bit m n"
      using m [of n]
      by (cases "n < 16")
        (auto simp: bit_unsigned_iff bit_or_iff bit_push_bit_iff bit_and_iff bit_mask_iff b possible_bit_word)
  qed
qed

definition Remb_valid :: "Remb \<Rightarrow> bool" where
  "Remb_valid p \<longleftrightarrow> length (remb_ssrcs p) \<le> 0xff"

definition received_Remb :: "Remb \<Rightarrow> Remb" where
  "received_Remb p = p\<lparr>remb_bitrate_bps := received_bitrate 0x3ffff (remb_bitrate_bps p)\<rparr>"

interpretation remb: rtcp_block Remb_valid Remb_BlockLength Remb_Create Remb_Parse Remb_parts "\<lambda>_. 15" kPsfb
  "\<lambda>_. 3" received_Remb
proof
  fix p :: Remb
  assume v: "Remb_valid p"
  have len: "length (concat (Remb_parts p)) = 16 + 4 * length (remb_ssrcs p)"
    by (simp add: Remb_parts_def case_prod_beta Let_def u32_items.length_encs)
  with v show "Remb_BlockLength p = 8 + length (concat (Remb_parts p))"
    and "length (concat (Remb_parts p)) mod 4 = 0" and "length (concat (Remb_parts p)) < 4 * 65536"
    by (simp_all add: Remb_valid_def Remb_BlockLength_def fb_lengths)
  obtain m e where l: "compact_loop 0x3ffff (remb_bitrate_bps p) 0 = (m, e)" by fastforce
  have e: "e < 64" using compact_loop_exponent [OF l] by simp
  have "m \<le> 0x3ffff" using compact_loop_spec [OF l] by blast
  then have "unat m < 2 ^ 18" by (simp add: word_le_nat_alt)
  note fields = remb_fields [OF e this]
  have n: "unat (of_nat (length (remb_ssrcs p)) :: u8) = length (remb_ssrcs p)"
    using v by (simp add: Remb_valid_def unat_of_nat)
  define b where "b = (ucast ((ucast (push_bit 2 (of_nat e :: u32)) :: u64) OR drop_bit 16 m) :: u8)"
  define low where "low = (ucast (m AND 0xffff) :: u16)"
  define cnt where "cnt = (of_nat (length (remb_ssrcs p)) :: u8)"
  have body: "concat (Remb_parts p) = CreateCommonFeedback (remb_sender_ssrc p) (remb_media_ssrc p) @
      be32 kRembId @ [cnt] @ [b] @ be16 low @ concat (map be32 (remb_ssrcs p))"
    by (simp add: Remb_parts_def l b_def low_def cnt_def)
  have f: "unat (drop_bit 2 b) = e" "(ucast (push_bit 16 (ucast (b AND 3) :: u32) OR ucast low) :: u64) = m"
    "unat cnt = length (remb_ssrcs p)"
    using fields n by (simp_all only: b_def low_def cnt_def)
  show "Remb_Parse \<lparr>ch_type = kPsfb, ch_count = 15, ch_pathid = 3, ch_payload = concat (Remb_parts p),
      ch_padding_size = 0\<rparr> = Some (Gives (received_Remb p))"
    using len u32_items.read_encs_only [of "remb_ssrcs p" "unat cnt"] received_bitrate_parts [OF l] f
    by (simp add: body Remb_Parse_def Let_def fb_lengths codec_simps received_Remb_def)
qed (simp_all add: Remb_Create_def)

section \<open>Properties\<close>

lemma received_bitrate_error:
  assumes "2 ^ n - 1 \<le> unat mx" "17 \<le> n"
  shows "unat (received_bitrate mx b) \<le> unat b \<and> (unat b - unat (received_bitrate mx b)) * 2 ^ (n - 1) \<le> unat b"
proof -
  obtain m e where l: "compact_loop mx b 0 = (m, e)" by fastforce
  note spec = compact_loop_spec [OF l]
  have "(2 :: nat) ^ 17 \<le> 2 ^ n" using assms(2) by (intro power_increasing) simp_all
  then have "2 ^ 17 - 1 \<le> unat mx" using assms(1) by linarith
  note e = compact_loop_exponent [OF l this]
  have b: "unat b < 2 ^ 64" using unsigned_less [of b] by simp
  have q: "unat b div 2 ^ e * 2 ^ e \<le> unat b" by (simp add: div_times_less_eq_dividend)
  have "unat (push_bit e (drop_bit e b)) = take_bit LENGTH(64) (push_bit e (unat (drop_bit e b)))"
    by (simp only: unsigned_push_bit_eq)
  also have "\<dots> = unat b div 2 ^ e * 2 ^ e"
    using order_le_less_trans [OF q b] by (simp add: unat_drop_bit push_bit_eq_mult take_bit_nat_eq_self_iff)
  finally have r: "unat (received_bitrate mx b) = unat b div 2 ^ e * 2 ^ e"
    by (simp add: received_bitrate_def l)
  have err: "unat b - unat b div 2 ^ e * 2 ^ e = unat b mod 2 ^ e" by (simp add: minus_div_mult_eq_mod)
  have "unat b mod 2 ^ e * 2 ^ (n - 1) \<le> unat b"
  proof (cases "e = 0")
    case False
    then have "unat mx < unat b div 2 ^ (e - 1)" using spec by simp
    then have "2 ^ n \<le> unat b div 2 ^ (e - 1)" using assms(1) by linarith
    then have "2 ^ n * 2 ^ (e - 1) \<le> unat b"
      by (metis div_times_less_eq_dividend mult_le_mono1 order_trans)
    moreover have "(2 :: nat) ^ e * 2 ^ (n - 1) = 2 ^ n * 2 ^ (e - 1)"
      using False assms(2) by (simp flip: power_add)
    moreover have "unat b mod 2 ^ e * 2 ^ (n - 1) \<le> 2 ^ e * 2 ^ (n - 1)"
      by (intro mult_right_mono less_imp_le) simp_all
    ultimately show ?thesis by linarith
  qed simp
  with q err show ?thesis by (simp add: r)
qed

text \<open>
  A receiver estimate (REMB) with at most 255 SSRCs is built as one packet and parsed back
  with all its SSRCs; the bitrate that arrives is never larger than the one sent and at most
  one part in \<open>2 ^ 17\<close> smaller.
\<close>

lemma remb_round_trip:
  assumes "Remb_valid p" "Remb_BlockLength p \<le> mx"
  shows "\<exists>wire h r. Build (Remb_Create p) mx = Some (Gives [wire]) \<and>
    length wire = Remb_BlockLength p \<and> CommonHeader_Parse wire = Some (Gives h) \<and>
    Remb_Parse h = Some (Gives r) \<and> remb_ssrcs r = remb_ssrcs p \<and>
    remb_sender_ssrc r = remb_sender_ssrc p \<and> unat (remb_bitrate_bps r) \<le> unat (remb_bitrate_bps p) \<and>
    (unat (remb_bitrate_bps p) - unat (remb_bitrate_bps r)) * 2 ^ 17 \<le> unat (remb_bitrate_bps p)"
  using remb.build [OF assms(1), of mx] assms(2) remb.header_enc [OF assms(1), of "[]"]
    remb.parse_hdr [OF assms(1)] remb.enc_length [OF assms(1)]
    received_bitrate_error [of 18 "0x3ffff" "remb_bitrate_bps p"]
  by (auto simp: received_Remb_def)

lemma remb_round_trip_witness:
  "let p = \<lparr>remb_sender_ssrc = 1, remb_media_ssrc = 0, remb_bitrate_bps = 2500001, remb_ssrcs = [7, 8]\<rparr>
   in \<exists>wire h r. Build (Remb_Create p) 1200 = Some (Gives [wire]) \<and>
    length wire = Remb_BlockLength p \<and> CommonHeader_Parse wire = Some (Gives h) \<and>
    Remb_Parse h = Some (Gives r) \<and> remb_ssrcs r = remb_ssrcs p \<and>
    remb_sender_ssrc r = remb_sender_ssrc p \<and> unat (remb_bitrate_bps r) \<le> unat (remb_bitrate_bps p) \<and>
    (unat (remb_bitrate_bps p) - unat (remb_bitrate_bps r)) * 2 ^ 17 \<le> unat (remb_bitrate_bps p)"
  unfolding Let_def by (rule remb_round_trip) (simp_all add: Remb_valid_def Remb_BlockLength_def fb_lengths)

lemma Tmmb_items_parse_safe:
  assumes "8 \<le> length (ch_payload h)"
  shows "Tmmb_items_parse h \<noteq> None"
proof -
  let ?n = "(length (ch_payload h) - 8) div 8"
  have "?n * 8 \<le> length (drop 8 (ch_payload h))" by simp
  from tmmb_items.read_items_safe [OF this] ParseCommonFeedback_total [OF assms] show ?thesis
    by (auto simp: Tmmb_items_parse_def Let_def fb_lengths)
qed

lemma Fir_Parse_safe: "Fir_Parse h \<noteq> None"
proof (cases "length (ch_payload h) < 16")
  case True
  then show ?thesis by (simp add: Fir_Parse_def Let_def fb_lengths)
next
  case False
  let ?n = "(length (ch_payload h) - 8) div 8"
  have "?n * 8 \<le> length (drop 8 (ch_payload h))" by simp
  from fir_requests.read_items_safe [OF this] ParseCommonFeedback_total [of "ch_payload h"] False show ?thesis
    by (auto simp: Fir_Parse_def Let_def fb_lengths)
qed

lemma Remb_Parse_safe: "Remb_Parse h \<noteq> None"
proof (cases "length (ch_payload h) < 16")
  case True
  then show ?thesis by (simp add: Remb_Parse_def Let_def)
next
  case False
  then have "\<exists>v. rd32 (ch_payload h) 8 = Some v" "\<exists>v. rd8 (ch_payload h) 12 = Some v"
    "\<exists>v. rd8 (ch_payload h) 13 = Some v" "\<exists>v. rd16 (ch_payload h) 14 = Some v"
    "\<exists>s m. ParseCommonFeedback (ch_payload h) = Some (s, m)"
    by (auto intro!: rd_exists ParseCommonFeedback_total)
  moreover have "\<exists>x. read_items dec_u32 4 n (drop 16 (ch_payload h)) = Some x"
    if "length (ch_payload h) = 8 + (2 + n) * 4" for n
    using u32_items.read_items_safe [of n "drop 16 (ch_payload h)"] that by auto
  ultimately show ?thesis
    by (auto simp: Remb_Parse_def Let_def fb_lengths)
qed

text \<open>
  No parser of a feedback packet reads outside the payload, whatever bytes it contains.
\<close>

lemma feedback_parsers_safe:
  "Pli_Parse h \<noteq> None \<and> RapidResyncRequest_Parse h \<noteq> None \<and> LossNotification_Parse h \<noteq> None \<and>
   Fir_Parse h \<noteq> None \<and> Tmmbr_Parse h \<noteq> None \<and> Tmmbn_Parse h \<noteq> None \<and> Remb_Parse h \<noteq> None"
proof (intro conjI)
  show "Pli_Parse h \<noteq> None" "RapidResyncRequest_Parse h \<noteq> None"
    using ParseCommonFeedback_total [of "ch_payload h"]
    by (auto simp: Pli_Parse_def RapidResyncRequest_Parse_def fb_lengths)
  show "LossNotification_Parse h \<noteq> None"
  proof (cases "length (ch_payload h) < 16")
    case False
    then have "\<exists>v. rd32 (ch_payload h) 8 = Some v" "\<exists>v. rd16 (ch_payload h) 12 = Some v"
      "\<exists>v. rd16 (ch_payload h) 14 = Some v" "\<exists>s m. ParseCommonFeedback (ch_payload h) = Some (s, m)"
      by (auto intro!: rd_exists ParseCommonFeedback_total)
    then show ?thesis by (auto simp: LossNotification_Parse_def fb_lengths)
  qed (simp add: LossNotification_Parse_def fb_lengths)
  show "Tmmbr_Parse h \<noteq> None" "Tmmbn_Parse h \<noteq> None"
    using Tmmb_items_parse_safe [of h] by (auto simp: Tmmbr_Parse_def Tmmbn_Parse_def fb_lengths)
qed (rule Fir_Parse_safe Remb_Parse_safe)+

end
