(* ===== verification/RtcpMisc.thy ===== *)
theory RtcpMisc
  imports RtcpReports
begin

text \<open>
  Goodbye, source description and application-defined packets:
  \<open>bye.cc\<close>, \<open>sdes.cc\<close> and \<open>app.cc\<close> in \<open>modules/rtp_rtcp/source/rtcp_packet/\<close>. Character strings
  are lists of bytes. The application packets carry this program's congestion signals.
\<close>

section \<open>Goodbye\<close>

record Bye =
  bye_sender_ssrc :: u32
  bye_csrcs :: "u32 list"
  bye_reason :: bytes

definition Bye_Parse :: "common_header \<Rightarrow> Bye outcome option" where
  "Bye_Parse h =
     (let payload = ch_payload h; src_count = ch_count h in
      if length payload < 4 * src_count then Some Fails
      else do {
        reason_length \<leftarrow> (if length payload > 4 * src_count then map_option unat (rd8 payload (4 * src_count)) else Some 0);
        if length payload > 4 * src_count \<and> length payload - 4 * src_count < 1 + reason_length then Some Fails
        else do {
          reason \<leftarrow> (if length payload > 4 * src_count then rd reason_length payload (4 * src_count + 1) else Some []);
          if src_count = 0 then Some (Gives \<lparr>bye_sender_ssrc = 0, bye_csrcs = [], bye_reason = reason\<rparr>)
          else do {
            sender_ssrc \<leftarrow> rd32 payload 0;
            csrcs \<leftarrow> read_items dec_u32 4 (src_count - 1) (drop 4 payload);
            Some (map_outcome (\<lambda>csrcs. \<lparr>bye_sender_ssrc = sender_ssrc, bye_csrcs = csrcs, bye_reason = reason\<rparr>) csrcs) } } })"

definition Bye_BlockLength :: "Bye \<Rightarrow> nat" where
  "Bye_BlockLength p =
     kHeaderLength + 4 * ((1 + length (bye_csrcs p)) + (if bye_reason p = [] then 0 else length (bye_reason p) div 4 + 1))"

text \<open>The reason with its length byte, zero padded to the end of the block.\<close>

definition Bye_reason_part :: "Bye \<Rightarrow> bytes" where
  "Bye_reason_part p =
     (if bye_reason p = [] then []
      else let reason_length = unat (of_nat (length (bye_reason p)) :: u8);
               written = of_nat (length (bye_reason p)) # take reason_length (bye_reason p);
               index = 4 * (1 + length (bye_csrcs p)) + length written
           in written @ replicate (Bye_BlockLength p - kHeaderLength - index) 0)"

definition Bye_parts :: "Bye \<Rightarrow> bytes list" where
  "Bye_parts p = [be32 (bye_sender_ssrc p)] @ map be32 (bye_csrcs p) @ [Bye_reason_part p]"

definition Bye_Create :: "Bye \<Rightarrow> nat \<Rightarrow> out_buffer \<Rightarrow> out_buffer outcome option" where
  "Bye_Create p max_length ob = create_block (Bye_BlockLength p)
     (CreateHeader (1 + length (bye_csrcs p)) 203 (HeaderLength (Bye_BlockLength p)) False 1 # Bye_parts p)
     max_length ob"

definition Bye_SetCsrcs :: "u32 list \<Rightarrow> Bye \<Rightarrow> Bye outcome" where
  "Bye_SetCsrcs csrcs p = (if length csrcs > 30 then Fails else Gives (p\<lparr>bye_csrcs := csrcs\<rparr>))"

definition Bye_valid :: "Bye \<Rightarrow> bool" where
  "Bye_valid p \<longleftrightarrow> length (bye_csrcs p) \<le> 30 \<and> length (bye_reason p) \<le> 255"

lemma pad_to_word:
  fixes n :: nat
  shows "3 + 4 * (n div 4) - n = 3 - n mod 4" "n + 3 - n mod 4 = 3 + 4 * (n div 4)"
  by presburger+

lemma Bye_reason_part_eq:
  assumes "Bye_valid p" "bye_reason p \<noteq> []"
  shows "Bye_reason_part p = of_nat (length (bye_reason p)) # bye_reason p @
    replicate (3 - length (bye_reason p) mod 4) 0"
proof -
  let ?n = "length (bye_reason p)"
  have n: "unat (of_nat ?n :: u8) = ?n" using assms(1) by (simp add: Bye_valid_def unat_of_nat)
  have "Bye_BlockLength p - kHeaderLength - (4 * (1 + length (bye_csrcs p)) + (1 + ?n)) = 3 - ?n mod 4"
    using assms(2) by (simp add: Bye_BlockLength_def pad_to_word)
  with n assms(2) show ?thesis by (simp add: Bye_reason_part_def Let_def)
qed

interpretation bye: rtcp_block Bye_valid Bye_BlockLength Bye_Create Bye_Parse Bye_parts
  "\<lambda>p. 1 + length (bye_csrcs p)" 203 "\<lambda>_. 1" id
proof
  fix p :: Bye
  assume v: "Bye_valid p"
  let ?n = "length (bye_reason p)"
  have len: "length (concat (Bye_parts p)) = 4 + 4 * length (bye_csrcs p) + length (Bye_reason_part p)"
    by (simp add: Bye_parts_def u32_items.length_encs)
  have r: "length (Bye_reason_part p) = (if bye_reason p = [] then 0 else 4 * (?n div 4 + 1))"
    using Bye_reason_part_eq [OF v]
    by (cases "bye_reason p = []") (simp_all add: Bye_reason_part_def pad_to_word)
  show "Bye_BlockLength p = 8 + length (concat (Bye_parts p))"
    and "length (concat (Bye_parts p)) mod 4 = 0"
    unfolding len r by (simp_all add: Bye_BlockLength_def kHeaderLength_def)
  have "?n div 4 \<le> 255 div 4" using v unfolding Bye_valid_def by (intro div_le_mono) simp
  with v show "length (concat (Bye_parts p)) < 4 * 65536" and "1 + length (bye_csrcs p) < 32"
    unfolding len r by (simp_all add: Bye_valid_def)
  have n: "unat (of_nat ?n :: u8) = ?n" using v by (simp add: Bye_valid_def unat_of_nat)
  have csrcs: "read_items dec_u32 4 (length (bye_csrcs p)) (concat (map be32 (bye_csrcs p)) @ x) =
      Some (Gives (bye_csrcs p))" for x
    using u32_items.read_encs [of "bye_csrcs p" x] by simp
  have body: "concat (Bye_parts p) =
      be32 (bye_sender_ssrc p) @ concat (map be32 (bye_csrcs p)) @ Bye_reason_part p"
    by (simp add: Bye_parts_def)
  show "Bye_Parse \<lparr>ch_type = 203, ch_count = 1 + length (bye_csrcs p), ch_pathid = 1,
      ch_payload = concat (Bye_parts p), ch_padding_size = 0\<rparr> = Some (Gives (id p))"
  proof (cases "bye_reason p = []")
    case True
    then show ?thesis
      using csrcs [of "[]"]
      by (simp add: Bye_Parse_def Let_def body Bye_reason_part_def u32_items.length_encs codec_simps)
  next
    case False
    then obtain zs where "Bye_reason_part p = of_nat ?n # bye_reason p @ zs"
      using Bye_reason_part_eq [OF v] by blast
    then show ?thesis
      unfolding body using csrcs n
      by (simp add: Bye_Parse_def Let_def u32_items.length_encs codec_simps rd_skip rd_skip_Cons rd_head)
  qed
qed (simp_all add: Bye_Create_def)

section \<open>Source description\<close>

record SdesChunk =
  sc_ssrc :: u32
  sc_cname :: bytes

record Sdes =
  sd_pathid :: int
  sd_chunks :: "SdesChunk list"
  sd_block_length :: nat

definition ChunkSize :: "SdesChunk \<Rightarrow> nat" where
  "ChunkSize c =
     (let chunk_payload_size = 4 + 1 + 1 + length (sc_cname c);
          padding_size = 4 - chunk_payload_size mod 4
      in chunk_payload_size + padding_size)"

text \<open>
  The loop over the items of a chunk. The pointer \<open>looking_at\<close> is the rest of the payload from
  there on; reading it at the end of the payload is out of bounds.
\<close>

function sdes_items :: "bytes \<Rightarrow> bytes option \<Rightarrow> (bytes option \<times> bytes) outcome option" where
  "sdes_items [] cname = None"
| "sdes_items (item_type # d) cname =
     (if item_type = 0 then Some (Gives (cname, d))
      else case d of
        [] \<Rightarrow> Some Fails
      | item_length # d \<Rightarrow>
          if unat item_length + 1 > length d then Some Fails
          else if item_type = 1 \<and> cname \<noteq> None then Some Fails
          else sdes_items (drop (unat item_length) d)
                 (if item_type = 1 then Some (take (unat item_length) d) else cname))"
  by pat_completeness auto
termination by (relation "measure (\<lambda>(d, _). length d)") auto

text \<open>\<open>n\<close> is the number of chunks still to be read, \<open>number_of_chunks - i\<close> of the source.\<close>

fun sdes_chunks :: "nat \<Rightarrow> bytes \<Rightarrow> SdesChunk list outcome option" where
  "sdes_chunks 0 d = Some (Gives [])"
| "sdes_chunks (Suc n) d =
     (if length d < 8 then Some Fails
      else do {
        ssrc \<leftarrow> rd32 d 0;
        r \<leftarrow> sdes_items (drop 4 d) None;
        case r of
          Fails \<Rightarrow> Some Fails
        | Gives (cname, d) \<Rightarrow> do {
            cs \<leftarrow> sdes_chunks n (drop (length d mod 4) d);
            Some (case cname of
                    None \<Rightarrow> cs
                  | Some c \<Rightarrow> map_outcome (\<lambda>cs. \<lparr>sc_ssrc = ssrc, sc_cname = c\<rparr> # cs) cs) } })"

definition Sdes_Parse :: "common_header \<Rightarrow> Sdes outcome option" where
  "Sdes_Parse h =
     map_option (map_outcome (\<lambda>cs. \<lparr>sd_pathid = 3, sd_chunks = cs,
         sd_block_length = kHeaderLength + sum_list (map ChunkSize cs)\<rparr>))
       (sdes_chunks (ch_count h) (ch_payload h))"

definition Sdes_AddCName :: "u32 \<Rightarrow> bytes \<Rightarrow> Sdes \<Rightarrow> Sdes outcome" where
  "Sdes_AddCName ssrc cname p =
     (if length (sd_chunks p) \<ge> 31 then Fails
      else let c = \<lparr>sc_ssrc = ssrc, sc_cname = cname\<rparr>
           in Gives (p\<lparr>sd_chunks := sd_chunks p @ [c], sd_block_length := sd_block_length p + ChunkSize c\<rparr>))"

definition Sdes_chunk_enc :: "SdesChunk \<Rightarrow> bytes" where
  "Sdes_chunk_enc c =
     be32 (sc_ssrc c) @ [1, of_nat (length (sc_cname c))] @ sc_cname c @
     replicate (4 - (6 + length (sc_cname c)) mod 4) 0"

definition Sdes_Create :: "Sdes \<Rightarrow> nat \<Rightarrow> out_buffer \<Rightarrow> out_buffer outcome option" where
  "Sdes_Create p max_length ob = create_block (sd_block_length p)
     (CreateHeader (length (sd_chunks p)) 202 (HeaderLength (sd_block_length p)) False (sd_pathid p) #
      map Sdes_chunk_enc (sd_chunks p)) max_length ob"

definition Sdes_valid :: "Sdes \<Rightarrow> bool" where
  "Sdes_valid p \<longleftrightarrow> int32 (sd_pathid p) \<and> length (sd_chunks p) \<le> 31 \<and>
     (\<forall>c \<in> set (sd_chunks p). length (sc_cname c) \<le> 255) \<and>
     sd_block_length p = kHeaderLength + sum_list (map ChunkSize (sd_chunks p))"

lemma length_Sdes_chunk_enc: "length (Sdes_chunk_enc c) = ChunkSize c"
  by (simp add: Sdes_chunk_enc_def ChunkSize_def Let_def)

lemma ChunkSize_mod: "ChunkSize c mod 4 = 0"
proof -
  have "(n + (4 - n mod 4)) mod 4 = 0" for n :: nat by presburger
  from this [of "6 + length (sc_cname c)"] show ?thesis by (simp add: ChunkSize_def Let_def)
qed

lemma ChunkSize_bounds: "length (sc_cname c) \<le> 255 \<Longrightarrow> 8 \<le> ChunkSize c \<and> ChunkSize c \<le> 265"
proof -
  have "n + (4 - n mod 4) \<le> n + 4 \<and> (6 \<le> n \<longrightarrow> 8 \<le> n + (4 - n mod 4))" for n :: nat by presburger
  from this [of "6 + length (sc_cname c)"]
  show "length (sc_cname c) \<le> 255 \<Longrightarrow> 8 \<le> ChunkSize c \<and> ChunkSize c \<le> 265"
    by (simp add: ChunkSize_def Let_def)
qed

lemma length_Sdes_chunks: "length (concat (map Sdes_chunk_enc cs)) = sum_list (map ChunkSize cs)"
  by (induction cs) (simp_all add: length_Sdes_chunk_enc)

lemma sum_ChunkSize_mod: "sum_list (map ChunkSize cs) mod 4 = 0"
proof (induction cs)
  case (Cons c cs)
  then show ?case using ChunkSize_mod [of c] by (simp add: mod_add_eq [symmetric])
qed simp

lemma sdes_items_cname:
  assumes "length name \<le> 255" "0 < k" "k \<le> 4" "length rest mod 4 = 0"
  shows "\<exists>d. sdes_items ([1, of_nat (length name)] @ name @ replicate k 0 @ rest) None =
    Some (Gives (Some name, d)) \<and> drop (length d mod 4) d = rest"
proof -
  obtain j where k: "k = Suc j" using assms(2) by (cases k) auto
  have n: "unat (of_nat (length name) :: u8) = length name" using assms(1) by (simp add: unat_of_nat)
  have "(j + length rest) mod 4 = j" using assms(3,4) k by (metis Suc_le_lessD mod_add_left_eq mod_add_right_eq mod_less add_0_right)
  with n show ?thesis by (simp add: k)
qed

lemma sdes_chunks_enc:
  "\<forall>c \<in> set cs. length (sc_cname c) \<le> 255 \<Longrightarrow>
    sdes_chunks (length cs) (concat (map Sdes_chunk_enc cs)) = Some (Gives cs)"
proof (induction cs)
  case (Cons c cs)
  let ?rest = "concat (map Sdes_chunk_enc cs)"
  let ?k = "4 - (6 + length (sc_cname c)) mod 4"
  have rest: "length ?rest mod 4 = 0" by (simp add: length_Sdes_chunks sum_ChunkSize_mod)
  have k: "0 < ?k" "?k \<le> 4" by simp_all
  from sdes_items_cname [OF _ k rest, of "sc_cname c"] Cons.prems
  obtain d where d: "sdes_items ([1, of_nat (length (sc_cname c))] @ sc_cname c @ replicate ?k 0 @ ?rest) None =
      Some (Gives (Some (sc_cname c), d))" "drop (length d mod 4) d = ?rest" by auto
  have ih: "sdes_chunks (length cs) ?rest = Some (Gives cs)" using Cons by simp
  have big: "\<not> length (concat (map Sdes_chunk_enc (c # cs))) < 8"
    using ChunkSize_bounds [of c] Cons.prems by (simp add: length_Sdes_chunk_enc)
  have "concat (map Sdes_chunk_enc (c # cs)) =
      be32 (sc_ssrc c) @ [1, of_nat (length (sc_cname c))] @ sc_cname c @ replicate ?k 0 @ ?rest"
    by (simp add: Sdes_chunk_enc_def)
  with big d ih show ?case by (simp add: codec_simps)
qed simp

lemma sum_list_le_const: "\<forall>x \<in> set xs. f x \<le> (k :: nat) \<Longrightarrow> sum_list (map f xs) \<le> k * length xs"
  by (induction xs) auto

interpretation sdes: rtcp_block Sdes_valid sd_block_length Sdes_Create Sdes_Parse
  "\<lambda>p. map Sdes_chunk_enc (sd_chunks p)" "\<lambda>p. length (sd_chunks p)" 202 sd_pathid "\<lambda>p. p\<lparr>sd_pathid := 3\<rparr>"
proof
  fix p :: Sdes
  assume v: "Sdes_valid p"
  have len: "length (concat (map Sdes_chunk_enc (sd_chunks p))) = sum_list (map ChunkSize (sd_chunks p))"
    by (rule length_Sdes_chunks)
  with v show "sd_block_length p = 8 + length (concat (map Sdes_chunk_enc (sd_chunks p)))"
    and "length (concat (map Sdes_chunk_enc (sd_chunks p))) mod 4 = 0"
    by (simp_all only: Sdes_valid_def kHeaderLength_def sum_ChunkSize_mod)
  have "sum_list (map ChunkSize (sd_chunks p)) \<le> 265 * length (sd_chunks p)"
    using v ChunkSize_bounds by (intro sum_list_le_const) (simp add: Sdes_valid_def)
  moreover have "length (sd_chunks p) \<le> 31" using v by (simp add: Sdes_valid_def)
  ultimately show "length (concat (map Sdes_chunk_enc (sd_chunks p))) < 4 * 65536"
    and "length (sd_chunks p) < 32"
    unfolding len by linarith+
  show "- (2 ^ 31) \<le> sd_pathid p \<and> sd_pathid p < 2 ^ 31" using v by (simp add: Sdes_valid_def int32_def)
  have "\<forall>c \<in> set (sd_chunks p). length (sc_cname c) \<le> 255" using v by (simp add: Sdes_valid_def)
  from sdes_chunks_enc [OF this] v
  show "Sdes_Parse \<lparr>ch_type = 202, ch_count = length (sd_chunks p), ch_pathid = sd_pathid p,
      ch_payload = concat (map Sdes_chunk_enc (sd_chunks p)), ch_padding_size = 0\<rparr> =
      Some (Gives (p\<lparr>sd_pathid := 3\<rparr>))"
    by (simp add: Sdes_Parse_def Sdes_valid_def)
qed (simp add: Sdes_Create_def)

text \<open>The items loop stays inside the payload, because every item leaves a byte behind.\<close>

lemma sdes_items_safe: "d \<noteq> [] \<Longrightarrow> sdes_items d cname \<noteq> None"
proof (induction d cname rule: sdes_items.induct)
  case (2 t d cname)
  show ?case
  proof (cases "t = 0")
    case True
    then show ?thesis by simp
  next
    case t: False
    show ?thesis
    proof (cases d)
      case Nil
      with t show ?thesis by simp
    next
      case (Cons l d')
      show ?thesis
      proof (cases "unat l + 1 > length d' \<or> t = 1 \<and> cname \<noteq> None")
        case True
        with t Cons show ?thesis by auto
      next
        case False
        then have "drop (unat l) d' \<noteq> []" by auto
        with "2.IH" [OF t Cons] False t Cons show ?thesis by auto
      qed
    qed
  qed
qed simp

lemma sdes_chunks_safe: "sdes_chunks n d \<noteq> None"
proof (induction n arbitrary: d)
  case (Suc n)
  show ?case
  proof (cases "length d < 8")
    case False
    then have "\<exists>v. rd32 d 0 = Some v" "drop 4 d \<noteq> []" by (auto intro!: rd_exists)
    with sdes_items_safe [of "drop 4 d" None] obtain ssrc r where
      "rd32 d 0 = Some ssrc" "sdes_items (drop 4 d) None = Some r" by blast
    with False Suc.IH show ?thesis
      by (cases r) (auto simp: bind_map_option split: option.splits)
  qed simp
qed simp

lemma Sdes_AddCName_valid:
  "Sdes_valid p \<Longrightarrow> length cname \<le> 255 \<Longrightarrow> Sdes_AddCName ssrc cname p = Gives p' \<Longrightarrow> Sdes_valid p'"
  by (auto simp: Sdes_AddCName_def Sdes_valid_def Let_def split: if_splits)

section \<open>Application packets\<close>

record App =
  app_sender_ssrc :: u32
  app_pathid :: int
  app_sub_type :: nat
  app_name :: u32
  app_data :: bytes

definition kAppBaseLength :: nat where "kAppBaseLength = 8"

definition App_Parse :: "common_header \<Rightarrow> App outcome option" where
  "App_Parse h =
     (let payload = ch_payload h in
      if length payload < kAppBaseLength then Some Fails
      else if length payload mod 4 \<noteq> 0 then Some Fails
      else do {
        sender_ssrc \<leftarrow> rd32 payload 0;
        name \<leftarrow> rd32 payload 4;
        Some (Gives \<lparr>app_sender_ssrc = sender_ssrc, app_pathid = 3, app_sub_type = ch_count h,
          app_name = name, app_data = drop kAppBaseLength payload\<rparr>) })"

definition App_BlockLength :: "App \<Rightarrow> nat" where
  "App_BlockLength p = kHeaderLength + kAppBaseLength + length (app_data p)"

text \<open>\<open>Create\<close> writes path 1 in the header, not \<open>pathid_\<close>.\<close>

definition App_Create :: "App \<Rightarrow> nat \<Rightarrow> out_buffer \<Rightarrow> out_buffer outcome option" where
  "App_Create p max_length ob = create_block (App_BlockLength p)
     [CreateHeader (app_sub_type p) 204 (HeaderLength (App_BlockLength p)) False 1,
      be32 (app_sender_ssrc p), be32 (app_name p), app_data p] max_length ob"

definition App_valid :: "App \<Rightarrow> bool" where
  "App_valid p \<longleftrightarrow> app_sub_type p < 32 \<and> length (app_data p) mod 4 = 0 \<and>
     length (app_data p) \<le> 0xffff * 4 - kAppBaseLength"

interpretation app: rtcp_block App_valid App_BlockLength App_Create App_Parse
  "\<lambda>p. [be32 (app_sender_ssrc p), be32 (app_name p), app_data p]" app_sub_type 204 "\<lambda>_. 1"
  "\<lambda>p. p\<lparr>app_pathid := 3\<rparr>"
  by unfold_locales
    (auto simp: App_valid_def App_Create_def App_BlockLength_def App_Parse_def kAppBaseLength_def
      kHeaderLength_def Let_def codec_simps mod_add_eq [symmetric, of "8 :: nat"])

section \<open>Properties\<close>

text \<open>
  A source description of at most 31 chunks, each with a name of at most 255 bytes, as
  \<open>AddCName\<close> builds it, is sent as one packet and parsed back chunk by chunk.
\<close>

lemma sdes_round_trip:
  assumes "Sdes_valid p" "length cname \<le> 255" "Sdes_AddCName ssrc cname p = Gives p'"
    "sd_block_length p' \<le> mx"
  shows "\<exists>wire h. Build (Sdes_Create p') mx = Some (Gives [wire]) \<and> length wire = sd_block_length p' \<and>
    CommonHeader_Parse wire = Some (Gives h) \<and> ch_pathid h = sd_pathid p' \<and>
    Sdes_Parse h = Some (Gives (p'\<lparr>sd_pathid := 3\<rparr>)) \<and> last (sd_chunks p') = \<lparr>sc_ssrc = ssrc, sc_cname = cname\<rparr>"
proof -
  have v: "Sdes_valid p'" using assms(1-3) by (rule Sdes_AddCName_valid)
  moreover have "last (sd_chunks p') = \<lparr>sc_ssrc = ssrc, sc_cname = cname\<rparr>"
    using assms(3) by (auto simp: Sdes_AddCName_def Let_def split: if_splits)
  ultimately show ?thesis
    using sdes.build [OF v, of mx] assms(4) sdes.header_enc [OF v, of "[]"] sdes.parse_hdr [OF v]
      sdes.enc_length [OF v]
    by auto
qed

lemma sdes_round_trip_witness:
  "\<exists>wire h. Build (Sdes_Create \<lparr>sd_pathid = 2, sd_chunks = [\<lparr>sc_ssrc = 9, sc_cname = [97, 98, 99]\<rparr>], sd_block_length = 20\<rparr>)
      1200 = Some (Gives [wire]) \<and> length wire = 20 \<and> CommonHeader_Parse wire = Some (Gives h) \<and> ch_pathid h = 2"
proof -
  have "Sdes_valid \<lparr>sd_pathid = 2, sd_chunks = [], sd_block_length = 8\<rparr>"
    by (simp add: Sdes_valid_def int32_def kHeaderLength_def)
  moreover have "Sdes_AddCName 9 [97, 98, 99] \<lparr>sd_pathid = 2, sd_chunks = [], sd_block_length = 8\<rparr> =
      Gives \<lparr>sd_pathid = 2, sd_chunks = [\<lparr>sc_ssrc = 9, sc_cname = [97, 98, 99]\<rparr>], sd_block_length = 20\<rparr>"
    by (simp add: Sdes_AddCName_def ChunkSize_def)
  ultimately show ?thesis
    using sdes_round_trip [of "\<lparr>sd_pathid = 2, sd_chunks = [], sd_block_length = 8\<rparr>" "[97, 98, 99]" 9 _ 1200]
    by force
qed

text \<open>
  The parsers of goodbye, source description and application packets never read outside
  the payload, whatever bytes it contains.
\<close>

lemma misc_parsers_safe: "Bye_Parse h \<noteq> None \<and> Sdes_Parse h \<noteq> None \<and> App_Parse h \<noteq> None"
proof (intro conjI)
  show "Sdes_Parse h \<noteq> None" using sdes_chunks_safe by (simp add: Sdes_Parse_def)
  have "\<exists>v. rd32 (ch_payload h) 0 = Some v" "\<exists>v. rd32 (ch_payload h) 4 = Some v"
    if "8 \<le> length (ch_payload h)" using that by (auto intro!: rd_exists)
  then show "App_Parse h \<noteq> None" by (auto simp: App_Parse_def Let_def kAppBaseLength_def)
  let ?p = "ch_payload h" and ?n = "ch_count h"
  show "Bye_Parse h \<noteq> None"
  proof (cases "length ?p < 4 * ?n")
    case False
    have "\<exists>v. rd8 ?p (4 * ?n) = Some v" if "4 * ?n < length ?p" using that by (rule rd_exists)
    moreover have "\<exists>v. rd r ?p (4 * ?n + 1) = Some v" if "\<not> length ?p - 4 * ?n < 1 + r" for r
      using that by (simp add: rd_def)
    moreover have "\<exists>v. rd32 ?p 0 = Some v" "\<exists>v. read_items dec_u32 4 (?n - 1) (drop 4 ?p) = Some v" if "0 < ?n"
      using False that rd_exists(5) [of 0 ?p] u32_items.read_items_safe [of "?n - 1" "drop 4 ?p"] by auto
    ultimately show ?thesis using False by (auto simp: Bye_Parse_def Let_def bind_map_option)
  qed (simp add: Bye_Parse_def Let_def)
qed

end
