(* ===== verification/RtcpXr.thy ===== *)
theory RtcpXr
  imports RtcpFeedback RtcpMisc NetworkTypes
begin

text \<open>
  Extended reports (\<open>extended_reports.cc\<close>) and their blocks: the receiver's reference time (\<open>rrtr.cc\<close>),
  the delay since the last such report (\<open>dlrr.cc\<close>) and the target bitrates (\<open>target_bitrate.cc\<close>); and
  the network state estimate in an application packet (\<open>remote_estimate.cc\<close>, the reading side). An
  extended report that is built is parsed back as it was, and no input makes the parsers
  read outside of the packet.
\<close>

section \<open>Blocks\<close>

record ReceiveTimeInfo =
  rti_ssrc :: u32
  rti_last_rr :: u32
  rti_delay_since_last_rr :: u32

definition ReceiveTimeInfo_enc :: "ReceiveTimeInfo \<Rightarrow> bytes" where
  "ReceiveTimeInfo_enc i = be32 (rti_ssrc i) @ be32 (rti_last_rr i) @ be32 (rti_delay_since_last_rr i)"

definition ReceiveTimeInfo_dec :: "bytes \<Rightarrow> ReceiveTimeInfo outcome option" where
  "ReceiveTimeInfo_dec d =
     do { ssrc \<leftarrow> rd32 d 0; last_rr \<leftarrow> rd32 d 4; delay \<leftarrow> rd32 d 8;
          Some (Gives \<lparr>rti_ssrc = ssrc, rti_last_rr = last_rr, rti_delay_since_last_rr = delay\<rparr>) }"

record BitrateItem =
  bi_spatial_layer :: u8
  bi_temporal_layer :: u8
  bi_target_bitrate_kbps :: u32

definition BitrateItem_enc :: "BitrateItem \<Rightarrow> bytes" where
  "BitrateItem_enc i =
     [push_bit 4 (bi_spatial_layer i) OR bi_temporal_layer i] @ be24 (bi_target_bitrate_kbps i)"

definition BitrateItem_dec :: "bytes \<Rightarrow> BitrateItem outcome option" where
  "BitrateItem_dec d =
     do { layers \<leftarrow> rd8 d 0; bitrate_kbps \<leftarrow> rd24 d 1;
          Some (Gives \<lparr>bi_spatial_layer = drop_bit 4 layers AND 0x0F, bi_temporal_layer = layers AND 0x0F,
            bi_target_bitrate_kbps = bitrate_kbps\<rparr>) }"

text \<open>
  The parsers of the blocks get the bytes from the start of the block to the end of the packet
  and the length of the block in words.
\<close>

definition Rrtr_Parse :: "bytes \<Rightarrow> NtpTime option" where
  "Rrtr_Parse block = do { s \<leftarrow> rd32 block 4; f \<leftarrow> rd32 block 8; Some (NtpTime_Set s f) }"

definition Rrtr_Create :: "NtpTime \<Rightarrow> bytes" where
  "Rrtr_Create ntp = [4, 0] @ be16 2 @ be32 (ntp_seconds ntp) @ be32 (ntp_fractions ntp)"

definition Dlrr_Parse :: "bytes \<Rightarrow> nat \<Rightarrow> ReceiveTimeInfo list outcome option" where
  "Dlrr_Parse block block_length_32bits =
     (if block_length_32bits mod 3 \<noteq> 0 then Some Fails
      else read_items ReceiveTimeInfo_dec 12 (block_length_32bits div 3) (drop 4 block))"

definition Dlrr_BlockLength :: "ReceiveTimeInfo list \<Rightarrow> nat" where
  "Dlrr_BlockLength items = (if items = [] then 0 else 4 + 12 * length items)"

definition Dlrr_Create :: "ReceiveTimeInfo list \<Rightarrow> bytes" where
  "Dlrr_Create items =
     (if items = [] then []
      else [5, 0] @ be16 (of_nat (3 * length items)) @ concat (map ReceiveTimeInfo_enc items))"

definition TargetBitrate_Parse :: "bytes \<Rightarrow> nat \<Rightarrow> BitrateItem list outcome option" where
  "TargetBitrate_Parse block block_length =
     (let payload_bytes = block_length * 4; num_items = payload_bytes div 4
      in read_items BitrateItem_dec 4 num_items (drop 4 block))"

definition TargetBitrate_BlockLength :: "BitrateItem list \<Rightarrow> nat" where
  "TargetBitrate_BlockLength items = 4 + length items * 4"

definition TargetBitrate_Create :: "BitrateItem list \<Rightarrow> bytes" where
  "TargetBitrate_Create items =
     [42, 0] @ be16 (of_nat (TargetBitrate_BlockLength items div 4 - 1)) @ concat (map BitrateItem_enc items)"

section \<open>The packet\<close>

record ExtendedReports =
  xr_sender_ssrc :: u32
  xr_rrtr :: "NtpTime option"
  xr_dlrr :: "ReceiveTimeInfo list"
  xr_target_bitrate :: "BitrateItem list option"

definition kXrBaseLength :: nat where "kXrBaseLength = 4"
definition kMaxNumberOfDlrrItems :: nat where "kMaxNumberOfDlrrItems = 50"

definition SetRrtr :: "NtpTime \<Rightarrow> ExtendedReports \<Rightarrow> ExtendedReports" where
  "SetRrtr rrtr x = x\<lparr>xr_rrtr := Some rrtr\<rparr>"

definition AddDlrrItem :: "ReceiveTimeInfo \<Rightarrow> ExtendedReports \<Rightarrow> ExtendedReports outcome" where
  "AddDlrrItem time_info x =
     (if length (xr_dlrr x) \<ge> kMaxNumberOfDlrrItems then Fails
      else Gives (x\<lparr>xr_dlrr := xr_dlrr x @ [time_info]\<rparr>))"

definition SetTargetBitrate :: "BitrateItem list \<Rightarrow> ExtendedReports \<Rightarrow> ExtendedReports" where
  "SetTargetBitrate bitrate x = x\<lparr>xr_target_bitrate := Some bitrate\<rparr>"

definition ParseRrtrBlock :: "bytes \<Rightarrow> nat \<Rightarrow> ExtendedReports \<Rightarrow> ExtendedReports option" where
  "ParseRrtrBlock block block_length x =
     (if block_length \<noteq> 2 then Some x
      else if xr_rrtr x \<noteq> None then Some x
      else do { ntp \<leftarrow> Rrtr_Parse block; Some (x\<lparr>xr_rrtr := Some ntp\<rparr>) })"

definition ParseDlrrBlock :: "bytes \<Rightarrow> nat \<Rightarrow> ExtendedReports \<Rightarrow> ExtendedReports option" where
  "ParseDlrrBlock block block_length x =
     (if xr_dlrr x \<noteq> [] then Some x
      else do { r \<leftarrow> Dlrr_Parse block block_length;
                Some (case r of Fails \<Rightarrow> x | Gives items \<Rightarrow> x\<lparr>xr_dlrr := items\<rparr>) })"

definition ParseTargetBitrateBlock :: "bytes \<Rightarrow> nat \<Rightarrow> ExtendedReports \<Rightarrow> ExtendedReports option" where
  "ParseTargetBitrateBlock block block_length x =
     do { r \<leftarrow> TargetBitrate_Parse block block_length;
          Some (case r of Fails \<Rightarrow> x\<lparr>xr_target_bitrate := Some []\<rparr> | Gives items \<Rightarrow> x\<lparr>xr_target_bitrate := Some items\<rparr>) }"

definition xr_block :: "u8 \<Rightarrow> bytes \<Rightarrow> nat \<Rightarrow> ExtendedReports \<Rightarrow> ExtendedReports option" where
  "xr_block block_type block block_length x =
     (if block_type = 4 then ParseRrtrBlock block block_length x
      else if block_type = 5 then ParseDlrrBlock block block_length x
      else if block_type = 42 then ParseTargetBitrateBlock block block_length x
      else Some x)"

text \<open>The loop of \<open>Parse\<close>; its argument is what is left of the payload.\<close>

function xr_blocks :: "bytes \<Rightarrow> ExtendedReports \<Rightarrow> ExtendedReports outcome option" where
  "xr_blocks current_block x =
     (if 4 \<le> length current_block
      then do {
        block_type \<leftarrow> rd8 current_block 0;
        block_length \<leftarrow> rd16 current_block 2;
        let next_block = 4 + unat block_length * 4;
        if next_block > length current_block then Some Fails
        else do {
          x \<leftarrow> xr_block block_type current_block (unat block_length) x;
          xr_blocks (drop next_block current_block) x } }
      else Some (Gives x))"
  by pat_completeness auto
termination by (relation "measure (\<lambda>(d, _). length d)") auto

declare xr_blocks.simps [simp del]

definition ExtendedReports_Parse :: "common_header \<Rightarrow> ExtendedReports outcome option" where
  "ExtendedReports_Parse h =
     (if length (ch_payload h) < kXrBaseLength then Some Fails
      else do {
        sender_ssrc \<leftarrow> rd32 (ch_payload h) 0;
        xr_blocks (drop kXrBaseLength (ch_payload h))
          \<lparr>xr_sender_ssrc = sender_ssrc, xr_rrtr = None, xr_dlrr = [], xr_target_bitrate = None\<rparr> })"

definition ExtendedReports_BlockLength :: "ExtendedReports \<Rightarrow> nat" where
  "ExtendedReports_BlockLength x =
     kHeaderLength + kXrBaseLength + (if xr_rrtr x \<noteq> None then 12 else 0) + Dlrr_BlockLength (xr_dlrr x) +
     (case xr_target_bitrate x of None \<Rightarrow> 0 | Some items \<Rightarrow> TargetBitrate_BlockLength items)"

definition ExtendedReports_parts :: "ExtendedReports \<Rightarrow> bytes list" where
  "ExtendedReports_parts x =
     [be32 (xr_sender_ssrc x), (case xr_rrtr x of None \<Rightarrow> [] | Some ntp \<Rightarrow> Rrtr_Create ntp),
      Dlrr_Create (xr_dlrr x), (case xr_target_bitrate x of None \<Rightarrow> [] | Some items \<Rightarrow> TargetBitrate_Create items)]"

definition ExtendedReports_Create :: "ExtendedReports \<Rightarrow> nat \<Rightarrow> out_buffer \<Rightarrow> out_buffer outcome option" where
  "ExtendedReports_Create x max_length ob = create_block (ExtendedReports_BlockLength x)
     (CreateHeader 0 207 (HeaderLength (ExtendedReports_BlockLength x)) False 1 # ExtendedReports_parts x)
     max_length ob"

text \<open>The asserted ranges of the layers and bitrates, and a packet whose length fits its field.\<close>

definition BitrateItem_ok :: "BitrateItem \<Rightarrow> bool" where
  "BitrateItem_ok i \<longleftrightarrow> bi_spatial_layer i \<le> 0x0F \<and> bi_temporal_layer i \<le> 0x0F \<and> bi_target_bitrate_kbps i \<le> 0xFFFFFF"

definition ExtendedReports_valid :: "ExtendedReports \<Rightarrow> bool" where
  "ExtendedReports_valid x \<longleftrightarrow>
     length (xr_dlrr x) \<le> kMaxNumberOfDlrrItems \<and>
     (case xr_target_bitrate x of None \<Rightarrow> True | Some items \<Rightarrow> list_all BitrateItem_ok items) \<and>
     ExtendedReports_BlockLength x \<le> 0xffff * 4"

section \<open>The network state estimate\<close>

text \<open>
  \<open>RemoteEstimate::ParseData\<close>. Of the estimate only the two rates that can be sent are kept, in bits
  per second; both start as minus infinity.
\<close>

record NetworkStateEstimate =
  ne_link_capacity_lower :: int
  ne_link_capacity_upper :: int

definition read_rate :: "bytes \<Rightarrow> int option" where
  "read_rate src = do { scaled \<leftarrow> rd24 src 0; Some (if uint scaled = 0xFFFFFF then PlusInfinityVal else uint scaled * 1000) }"

fun estimate_fields :: "nat \<Rightarrow> bytes \<Rightarrow> NetworkStateEstimate \<Rightarrow> NetworkStateEstimate option" where
  "estimate_fields 0 d e = Some e"
| "estimate_fields (Suc n) d e =
     do { field_id \<leftarrow> rd8 d 0;
          e \<leftarrow> (if field_id = 1 then do { r \<leftarrow> read_rate (drop 1 d); Some (e\<lparr>ne_link_capacity_lower := r\<rparr>) }
               else if field_id = 2 then do { r \<leftarrow> read_rate (drop 1 d); Some (e\<lparr>ne_link_capacity_upper := r\<rparr>) }
               else Some e);
          estimate_fields n (drop 4 d) e }"

definition RemoteEstimate_ParseData :: "bytes \<Rightarrow> NetworkStateEstimate outcome option" where
  "RemoteEstimate_ParseData data =
     (if length data mod 4 \<noteq> 0 then Some Fails
      else map_option Gives (estimate_fields (length data div 4) data
        \<lparr>ne_link_capacity_lower = MinusInfinityVal, ne_link_capacity_upper = MinusInfinityVal\<rparr>))"

section \<open>Round trip\<close>

interpretation dlrr_items: item_codec "\<lambda>_. True" ReceiveTimeInfo_enc ReceiveTimeInfo_dec 12 id
proof
  fix d :: bytes
  assume "12 \<le> length d"
  then have "\<exists>v. rd32 d 0 = Some v" "\<exists>v. rd32 d 4 = Some v" "\<exists>v. rd32 d 8 = Some v" by (auto intro!: rd_exists)
  then show "ReceiveTimeInfo_dec d \<noteq> None" by (auto simp: ReceiveTimeInfo_dec_def)
qed (simp_all add: ReceiveTimeInfo_enc_def ReceiveTimeInfo_dec_def codec_simps)

lemma layers:
  assumes "s \<le> 0x0F" "t \<le> (0x0F :: u8)"
  shows "drop_bit 4 (push_bit 4 s OR t) AND 0x0F = s" "(push_bit 4 s OR t) AND 0x0F = t"
proof -
  have s: "bit s k \<Longrightarrow> k < 4" and t: "bit t k \<Longrightarrow> k < 4" for k
    using bits_below [of s 4 k] bits_below [of t 4 k] assms by (simp_all add: word_le_nat_alt)
  have m: "(0x0F :: u8) = mask 4" by (simp add: mask_eq_exp_minus_1)
  show "drop_bit 4 (push_bit 4 s OR t) AND 0x0F = s"
    unfolding m by (rule bit_word_eqI)
      (auto simp: bit_and_iff bit_or_iff bit_mask_iff bit_drop_bit_eq bit_push_bit_iff possible_bit_word dest: s t)
  show "(push_bit 4 s OR t) AND 0x0F = t"
    unfolding m by (rule bit_word_eqI)
      (auto simp: bit_and_iff bit_or_iff bit_mask_iff bit_push_bit_iff possible_bit_word dest: s t)
qed

interpretation bitrate_items: item_codec BitrateItem_ok BitrateItem_enc BitrateItem_dec 4 id
proof
  fix i rest
  assume ok: "BitrateItem_ok i"
  have "take_bit 24 (bi_target_bitrate_kbps i) = bi_target_bitrate_kbps i"
    using ok by (simp add: BitrateItem_ok_def word_unat_eq_iff unsigned_take_bit_eq take_bit_nat_eq_self_iff word_le_nat_alt)
  then show "BitrateItem_dec (BitrateItem_enc i @ rest) = Some (Gives (id i))"
    using layers ok by (simp add: BitrateItem_dec_def BitrateItem_enc_def codec_simps BitrateItem_ok_def)
next
  fix d :: bytes
  assume "4 \<le> length d"
  then have "\<exists>v. rd8 d 0 = Some v" "\<exists>v. rd24 d 1 = Some v" by (auto intro!: rd_exists)
  then show "BitrateItem_dec d \<noteq> None" by (auto simp: BitrateItem_dec_def)
qed (simp add: BitrateItem_enc_def)

text \<open>One block more is read.\<close>

lemma xr_blocks_step:
  assumes "length body = 4 * k" "k < 65536"
    and "xr_block t ([t, 0] @ be16 (of_nat k) @ body @ rest) k x = Some y"
  shows "xr_blocks (([t, 0] @ be16 (of_nat k) @ body) @ rest) x = xr_blocks rest y"
proof -
  have "unat (of_nat k :: u16) = k" using assms(2) by (simp add: unat_of_nat)
  then show ?thesis
    using assms drop_append_length [of "4 + k * 4" "[t, 0] @ be16 (of_nat k) @ body" rest]
    by (simp add: xr_blocks.simps [of "t # _"] codec_simps Let_def)
qed

lemma xr_blocks_Nil: "xr_blocks [] x = Some (Gives x)"
  by (simp add: xr_blocks.simps)

lemma read_rrtr:
  assumes "xr_rrtr x = None"
  shows "xr_blocks ((case r of None \<Rightarrow> [] | Some ntp \<Rightarrow> Rrtr_Create ntp) @ rest) x = xr_blocks rest (x\<lparr>xr_rrtr := r\<rparr>)"
proof (cases r)
  case (Some ntp)
  have "xr_block 4 ([4, 0] @ be16 (of_nat 2) @ (be32 (ntp_seconds ntp) @ be32 (ntp_fractions ntp)) @ rest) 2 x =
      Some (x\<lparr>xr_rrtr := Some ntp\<rparr>)"
    using assms by (simp add: xr_block_def ParseRrtrBlock_def Rrtr_Parse_def codec_simps NtpTime_Set_parts)
  from xr_blocks_step [OF _ _ this] show ?thesis using Some by (simp add: Rrtr_Create_def)
qed (use assms in \<open>cases x, simp\<close>)

lemma read_dlrr:
  assumes "xr_dlrr x = []" "length items \<le> 50"
  shows "xr_blocks (Dlrr_Create items @ rest) x = xr_blocks rest (x\<lparr>xr_dlrr := items\<rparr>)"
proof (cases "items = []")
  case False
  let ?b = "concat (map ReceiveTimeInfo_enc items)"
  have b: "length ?b = 4 * (3 * length items)" using dlrr_items.length_encs [of items] by simp
  have "xr_block 5 ([5, 0] @ be16 (of_nat (3 * length items)) @ ?b @ rest) (3 * length items) x =
      Some (x\<lparr>xr_dlrr := items\<rparr>)"
    using assms dlrr_items.read_encs [of items rest] by (simp add: xr_block_def ParseDlrrBlock_def Dlrr_Parse_def)
  from xr_blocks_step [OF b _ this] show ?thesis using False assms(2) by (simp add: Dlrr_Create_def)
qed (use assms in \<open>cases x, simp add: Dlrr_Create_def\<close>)

lemma read_target_bitrate:
  assumes "xr_target_bitrate x = None" "case r of None \<Rightarrow> True | Some items \<Rightarrow> list_all BitrateItem_ok items \<and> length items < 65536"
  shows "xr_blocks ((case r of None \<Rightarrow> [] | Some items \<Rightarrow> TargetBitrate_Create items) @ rest) x =
    xr_blocks rest (x\<lparr>xr_target_bitrate := r\<rparr>)"
proof (cases r)
  case (Some items)
  let ?b = "concat (map BitrateItem_enc items)"
  have b: "length ?b = 4 * length items" by (rule bitrate_items.length_encs)
  have "xr_block 42 ([42, 0] @ be16 (of_nat (length items)) @ ?b @ rest) (length items) x =
      Some (x\<lparr>xr_target_bitrate := Some items\<rparr>)"
    using assms Some bitrate_items.read_encs [of items rest]
    by (simp add: xr_block_def ParseTargetBitrateBlock_def TargetBitrate_Parse_def list_all_iff)
  from xr_blocks_step [OF b _ this] show ?thesis
    using Some assms(2) by (simp add: TargetBitrate_Create_def TargetBitrate_BlockLength_def)
qed (use assms in \<open>cases x, simp\<close>)

interpretation xr: rtcp_block ExtendedReports_valid ExtendedReports_BlockLength ExtendedReports_Create
  ExtendedReports_Parse ExtendedReports_parts "\<lambda>_. 0" 207 "\<lambda>_. 1" id
proof
  fix x :: ExtendedReports
  assume v: "ExtendedReports_valid x"
  have d: "length (Dlrr_Create items) = Dlrr_BlockLength items" for items
    using dlrr_items.length_encs [of items] by (simp add: Dlrr_Create_def Dlrr_BlockLength_def)
  have t: "length (TargetBitrate_Create items) = TargetBitrate_BlockLength items" for items
    using bitrate_items.length_encs [of items] by (simp add: TargetBitrate_Create_def TargetBitrate_BlockLength_def)
  have r: "length (Rrtr_Create ntp) = 12" for ntp by (simp add: Rrtr_Create_def)
  show len: "ExtendedReports_BlockLength x = 8 + length (concat (ExtendedReports_parts x))"
    by (simp add: ExtendedReports_BlockLength_def ExtendedReports_parts_def d t r kHeaderLength_def kXrBaseLength_def
        split: option.split)
  have "ExtendedReports_BlockLength x mod 4 = 0"
    by (auto simp: ExtendedReports_BlockLength_def Dlrr_BlockLength_def TargetBitrate_BlockLength_def kHeaderLength_def
        kXrBaseLength_def mod_add_eq [symmetric] split: option.split)
  then show "length (concat (ExtendedReports_parts x)) mod 4 = 0" using len by presburger
  show "length (concat (ExtendedReports_parts x)) < 4 * 65536" using v len by (simp add: ExtendedReports_valid_def)
  have "case xr_target_bitrate x of None \<Rightarrow> True | Some items \<Rightarrow> list_all BitrateItem_ok items \<and> length items < 65536"
    using v by (auto simp: ExtendedReports_valid_def ExtendedReports_BlockLength_def TargetBitrate_BlockLength_def split: option.split)
  note tb = read_target_bitrate [OF _ this, where rest = "[]", simplified]
  have "length (xr_dlrr x) \<le> 50" using v by (simp add: ExtendedReports_valid_def kMaxNumberOfDlrrItems_def)
  note dl = read_dlrr [OF _ this]
  show "ExtendedReports_Parse \<lparr>ch_type = 207, ch_count = 0, ch_pathid = 1, ch_payload = concat (ExtendedReports_parts x),
      ch_padding_size = 0\<rparr> = Some (Gives (id x))"
    by (simp add: ExtendedReports_Parse_def ExtendedReports_parts_def kXrBaseLength_def codec_simps read_rrtr dl tb xr_blocks_Nil)
qed (simp_all add: ExtendedReports_Create_def)

lemma xr_block_safe:
  assumes "4 + k * 4 \<le> length d"
  shows "xr_block t d k x \<noteq> None"
proof -
  have "ParseRrtrBlock d k x \<noteq> None"
  proof (cases "k = 2")
    case True
    then have "\<exists>v. rd32 d 4 = Some v" "\<exists>v. rd32 d 8 = Some v" using assms by (auto intro!: rd_exists)
    then show ?thesis by (auto simp: ParseRrtrBlock_def Rrtr_Parse_def)
  qed (simp add: ParseRrtrBlock_def)
  moreover have "Dlrr_Parse d k \<noteq> None"
    using dlrr_items.read_items_safe [of "k div 3" "drop 4 d"] assms by (auto simp: Dlrr_Parse_def)
  then have "ParseDlrrBlock d k x \<noteq> None" by (auto simp: ParseDlrrBlock_def)
  moreover have "TargetBitrate_Parse d k \<noteq> None"
    using bitrate_items.read_items_safe [of k "drop 4 d"] assms by (simp add: TargetBitrate_Parse_def Let_def)
  then have "ParseTargetBitrateBlock d k x \<noteq> None" by (auto simp: ParseTargetBitrateBlock_def)
  ultimately show ?thesis by (simp add: xr_block_def)
qed

lemma xr_blocks_safe: "xr_blocks d x \<noteq> None"
proof (induction d x rule: xr_blocks.induct)
  case (1 d x)
  show ?case
  proof (cases "4 \<le> length d")
    case True
    then have "0 < length d" "2 + 2 \<le> length d" by linarith+
    then obtain t k where r: "rd8 d 0 = Some t" "rd16 d 2 = Some k" using rd_exists(1,2) by metis
    show ?thesis
    proof (cases "4 + unat k * 4 > length d")
      case False
      then obtain y where "xr_block t d (unat k) x = Some y" using xr_block_safe [of "unat k" d t x] by auto
      then show ?thesis using True r False "1.IH" by (simp add: xr_blocks.simps [of d x] Let_def)
    qed (use True r in \<open>simp add: xr_blocks.simps [of d x] Let_def\<close>)
  qed (simp add: xr_blocks.simps [of d x])
qed

lemma ExtendedReports_Parse_safe: "ExtendedReports_Parse h \<noteq> None"
proof (cases "length (ch_payload h) < 4")
  case False
  then obtain v where "rd32 (ch_payload h) 0 = Some v" using rd_exists(5) [of 0 "ch_payload h"] by auto
  then show ?thesis using False xr_blocks_safe by (simp add: ExtendedReports_Parse_def kXrBaseLength_def)
qed (simp add: ExtendedReports_Parse_def kXrBaseLength_def)

lemma estimate_fields_safe: "n * 4 \<le> length d \<Longrightarrow> estimate_fields n d e \<noteq> None"
proof (induction n arbitrary: d e)
  case (Suc n)
  have l4: "4 + n * 4 \<le> length d" using Suc.prems by simp
  then have l: "0 < length d" "1 + 3 \<le> length d" by linarith+
  have l3: "n * 4 \<le> length (drop 4 d)" using l4 by simp
  have "rd24 (drop 1 d) 0 \<noteq> None" using l(2) by (simp add: rd24_def rd_def)
  then obtain b v where "rd8 d 0 = Some b" "rd24 (drop 1 d) 0 = Some v" using rd_exists(1) [OF l(1)] by auto
  then show ?case using Suc.IH [OF l3] by (simp add: read_rate_def)
qed simp

lemma RemoteEstimate_ParseData_safe: "RemoteEstimate_ParseData d \<noteq> None"
  using estimate_fields_safe [of "length d div 4" d] by (auto simp: RemoteEstimate_ParseData_def)

text \<open>
  An extended report with a reference time, delay items and target bitrates, built within the
  limits the class asserts, is sent as one packet and parsed back unchanged; and the parser
  is safe on every input.
\<close>

lemma extended_reports_round_trip:
  assumes "ExtendedReports_valid x" "ExtendedReports_BlockLength x \<le> mx"
  shows "(\<exists>wire h. Build (ExtendedReports_Create x) mx = Some (Gives [wire]) \<and>
    CommonHeader_Parse wire = Some (Gives h) \<and> ExtendedReports_Parse h = Some (Gives x)) \<and>
    (\<forall>h'. ExtendedReports_Parse h' \<noteq> None)"
  using xr.build_parse [OF assms] ExtendedReports_Parse_safe by auto

lemma extended_reports_round_trip_witness:
  "\<exists>wire h. Build (ExtendedReports_Create \<lparr>xr_sender_ssrc = 7, xr_rrtr = Some 5, xr_dlrr = [],
      xr_target_bitrate = Some [\<lparr>bi_spatial_layer = 1, bi_temporal_layer = 2, bi_target_bitrate_kbps = 300\<rparr>]\<rparr>) 100 =
      Some (Gives [wire]) \<and> CommonHeader_Parse wire = Some (Gives h)"
  using extended_reports_round_trip [of "\<lparr>xr_sender_ssrc = 7, xr_rrtr = Some 5, xr_dlrr = [],
      xr_target_bitrate = Some [\<lparr>bi_spatial_layer = 1, bi_temporal_layer = 2, bi_target_bitrate_kbps = 300\<rparr>]\<rparr>" 100]
  by (auto simp: ExtendedReports_valid_def ExtendedReports_BlockLength_def Dlrr_BlockLength_def
      TargetBitrate_BlockLength_def kHeaderLength_def kXrBaseLength_def kMaxNumberOfDlrrItems_def BitrateItem_ok_def)

end
