(* ===== verification/RtcpNack.thy ===== *)
theory RtcpNack
  imports RtcpFeedback
begin

text \<open>
  The negative acknowledgement \<open>rtcp_packet/nack.cc\<close>: packing of lost packet ids into pairs of a
  first id and a bitmask of the sixteen ids after it, their unpacking, and the \<open>Create\<close> that
  splits a long list over several packets when the output buffer is full.
\<close>

section \<open>Packing\<close>

type_synonym packed_nack = "u16 \<times> u16"

text \<open>The inner loop of \<open>Pack\<close>: collect the ids that fit the bitmask.\<close>

fun pack_bits :: "u16 \<Rightarrow> u16 \<Rightarrow> u16 list \<Rightarrow> u16 \<times> u16 list" where
  "pack_bits first_pid bitmask [] = (bitmask, [])"
| "pack_bits first_pid bitmask (pid # pids) =
     (let shift = pid - first_pid - 1
      in if shift \<le> 15 then pack_bits first_pid (bitmask OR push_bit (unat shift) 1) pids
         else (bitmask, pid # pids))"

lemma pack_bits_length: "length (snd (pack_bits f b pids)) \<le> length pids"
  by (induction f b pids rule: pack_bits.induct) (auto simp: Let_def intro: le_SucI)

function Pack :: "u16 list \<Rightarrow> packed_nack list" where
  "Pack [] = []"
| "Pack (first_pid # pids) =
     (first_pid, fst (pack_bits first_pid 0 pids)) # Pack (snd (pack_bits first_pid 0 pids))"
  by pat_completeness auto
termination by (relation "measure length") (simp_all add: pack_bits_length le_imp_less_Suc)

text \<open>The inner loop of \<open>Unpack\<close>.\<close>

function unpack_bits :: "u16 \<Rightarrow> u16 \<Rightarrow> u16 list" where
  "unpack_bits bitmask pid =
     (if bitmask = 0 then []
      else (if bitmask AND 1 \<noteq> 0 then [pid] else []) @ unpack_bits (drop_bit 1 bitmask) (pid + 1))"
  by auto
termination
proof (relation "measure (\<lambda>(b, _). unat b)")
  fix b pid :: u16
  assume "b \<noteq> 0"
  then have "0 < unat b" by (simp add: unat_gt_0)
  then have "unat b div 2 < unat b" by simp
  moreover have "unat (drop_bit 1 b) = unat b div 2 ^ 1" by (rule unat_drop_bit)
  ultimately show "((drop_bit 1 b, pid + 1), b, pid) \<in> measure (\<lambda>(b, _). unat b)"
    by (simp only: in_measure case_prod_conv power_one_right)
qed simp

declare unpack_bits.simps [simp del]

definition Unpack :: "packed_nack list \<Rightarrow> u16 list" where
  "Unpack items = concat (map (\<lambda>(first_pid, bitmask). first_pid # unpack_bits bitmask (first_pid + 1)) items)"

section \<open>The packet\<close>

record Nack =
  nk_sender_ssrc :: u32
  nk_media_ssrc :: u32
  nk_pathid :: int
  nk_packed :: "packed_nack list"
  nk_packet_ids :: "u16 list"

definition SetPacketIds :: "u16 list \<Rightarrow> Nack \<Rightarrow> Nack" where
  "SetPacketIds ids p = p\<lparr>nk_packet_ids := ids, nk_packed := Pack ids\<rparr>"

definition nack_item_dec :: "bytes \<Rightarrow> packed_nack outcome option" where
  "nack_item_dec d = do { first_pid \<leftarrow> rd16 d 0; bitmask \<leftarrow> rd16 d 2; Some (Gives (first_pid, bitmask)) }"

definition nack_item_enc :: "packed_nack \<Rightarrow> bytes" where
  "nack_item_enc item = be16 (fst item) @ be16 (snd item)"

definition kNackItemLength :: nat where "kNackItemLength = 4"

definition Nack_Parse :: "common_header \<Rightarrow> Nack outcome option" where
  "Nack_Parse h =
     (let payload = ch_payload h in
      if length payload < kCommonFeedbackLength + kNackItemLength then Some Fails
      else do {
        (s, m) \<leftarrow> ParseCommonFeedback payload;
        items \<leftarrow> read_items nack_item_dec kNackItemLength
                  ((length payload - kCommonFeedbackLength) div kNackItemLength)
                  (drop kCommonFeedbackLength payload);
        Some (map_outcome (\<lambda>items. \<lparr>nk_sender_ssrc = s, nk_media_ssrc = m, nk_pathid = 3,
          nk_packed = items, nk_packet_ids = Unpack items\<rparr>) items) })"

definition Nack_BlockLength :: "Nack \<Rightarrow> nat" where
  "Nack_BlockLength p = kHeaderLength + kCommonFeedbackLength + length (nk_packed p) * kNackItemLength"

text \<open>
  The loop of \<open>Create\<close>; \<open>items\<close> are the entries from \<open>nack_index\<close> on. When the buffer already
  holds more than \<open>max_length\<close> bytes the subtraction underflows in the source, and the writes
  that follow leave the buffer: \<open>None\<close>.
\<close>

definition kNackHeaderLength :: nat where "kNackHeaderLength = kHeaderLength + kCommonFeedbackLength"

function nack_create_loop ::
  "Nack \<Rightarrow> packed_nack list \<Rightarrow> nat \<Rightarrow> out_buffer \<Rightarrow> out_buffer outcome option" where
  "nack_create_loop p items max_length ob =
     (if items = [] then Some (Gives ob)
      else if length (ob_data ob) > max_length then None
      else
        let bytes_left = max_length - length (ob_data ob) in
        if bytes_left < kNackHeaderLength + kNackItemLength
        then if ob_data ob = [] then Some Fails
             else nack_create_loop p items max_length (ob\<lparr>ob_data := [], ob_sent := ob_sent ob @ [ob_data ob]\<rparr>)
        else
          let n = min ((bytes_left - kNackHeaderLength) div kNackItemLength) (length items);
              payload_size = (kCommonFeedbackLength + n * kNackItemLength) div 4
          in case emits max_length
                    (CreateHeader 1 kRtpfb payload_size False (nk_pathid p) #
                     CreateCommonFeedback (nk_sender_ssrc p) (nk_media_ssrc p) #
                     map nack_item_enc (take n items)) ob of
               None \<Rightarrow> None
             | Some Fails \<Rightarrow> Some Fails
             | Some (Gives ob) \<Rightarrow> nack_create_loop p (drop n items) max_length ob)"
  by pat_completeness auto
termination
  by (relation "measures [\<lambda>(_, items, _, _). length items, \<lambda>(_, _, _, ob). length (ob_data ob)]")
    (auto simp: kNackHeaderLength_def kNackItemLength_def fb_lengths min_def)

declare nack_create_loop.simps [simp del]

definition Nack_Create :: "Nack \<Rightarrow> nat \<Rightarrow> out_buffer \<Rightarrow> out_buffer outcome option" where
  "Nack_Create p max_length ob = nack_create_loop p (nk_packed p) max_length ob"

section \<open>Packing and unpacking are inverse\<close>

lemma upt_Suc_shift: "[0..<Suc n] = 0 # map Suc [0..<n]"
  by (metis map_Suc_upt upt_conv_Cons zero_less_Suc)

lemma unpack_bits_eq:
  "(\<And>k. bit b k \<Longrightarrow> k < n) \<Longrightarrow> unpack_bits b pid = map (\<lambda>i. pid + of_nat i) (filter (bit b) [0..<n])"
proof (induction n arbitrary: b pid)
  case 0
  have "b = 0" by (rule bit_word_eqI) (use 0 in auto)
  then show ?case by (simp add: unpack_bits.simps)
next
  case (Suc n)
  show ?case
  proof (cases "b = 0")
    case True
    then show ?thesis by (simp add: unpack_bits.simps)
  next
    case False
    have shift: "bit (drop_bit 1 b) k = bit b (Suc k)" for k by (simp add: bit_drop_bit_eq)
    then have shift_fun: "bit (drop_bit 1 b) = (\<lambda>k. bit b (Suc k))" by blast
    have "unpack_bits (drop_bit 1 b) (pid + 1) =
        map (\<lambda>i. pid + 1 + of_nat i) (filter (bit (drop_bit 1 b)) [0..<n])"
      using Suc.prems shift by (intro Suc.IH) auto
    also have "\<dots> = map (\<lambda>i. pid + of_nat i) (filter (bit b) (map Suc [0..<n]))"
      unfolding shift_fun by (simp add: filter_map comp_def add.assoc)
    finally have "unpack_bits (drop_bit 1 b) (pid + 1) =
        map (\<lambda>i. pid + of_nat i) (filter (bit b) (map Suc [0..<n]))" .
    moreover have "b AND 1 \<noteq> 0 \<longleftrightarrow> bit b 0"
      using and_exp_eq_0_iff_not_bit [of b 0] by simp
    ultimately show ?thesis
      using False by (subst unpack_bits.simps) (simp add: upt_Suc_shift del: upt_Suc drop_bit_Suc)
  qed
qed

lemma unpack_bits_16: "unpack_bits b pid = map (\<lambda>i. pid + of_nat i) (filter (bit b) [0..<16])"
proof (rule unpack_bits_eq)
  fix k
  assume "bit b k"
  then show "k < 16" using bit_imp_le_length by fastforce
qed

definition nack_shift :: "u16 \<Rightarrow> u16 \<Rightarrow> nat" where
  "nack_shift first_pid pid = unat (pid - first_pid - 1)"

lemma shift_back: "first_pid + 1 + of_nat (nack_shift first_pid pid) = pid"
  by (simp add: nack_shift_def)

lemma pack_bits_spec:
  assumes "pack_bits f b pids = (b', rest)"
  shows "\<exists>taken. pids = taken @ rest \<and> (\<forall>x \<in> set taken. nack_shift f x < 16) \<and>
    (\<forall>k. bit b' k \<longleftrightarrow> bit b k \<or> k \<in> nack_shift f ` set taken)"
  using assms
proof (induction f b pids rule: pack_bits.induct)
  case (1 f b)
  then show ?case by simp
next
  case (2 f b pid pids)
  show ?case
  proof (cases "pid - f - 1 \<le> 15")
    case True
    let ?b = "b OR push_bit (nack_shift f pid) 1"
    have lt: "nack_shift f pid < 16" using True by (simp add: nack_shift_def word_le_nat_alt)
    with "2.IH" [OF refl True] "2.prems" True obtain taken where
      t: "pids = taken @ rest" "\<forall>x \<in> set taken. nack_shift f x < 16"
      "\<forall>k. bit b' k \<longleftrightarrow> bit ?b k \<or> k \<in> nack_shift f ` set taken"
      by (auto simp: Let_def nack_shift_def)
    have "bit ?b k \<longleftrightarrow> bit b k \<or> k = nack_shift f pid" for k
      using lt by (auto simp: bit_or_iff bit_exp_iff possible_bit_word)
    with t lt show ?thesis by (intro exI [of _ "pid # taken"]) auto
  next
    case False
    with "2.prems" show ?thesis by (intro exI [of _ "[]"]) (auto simp: Let_def)
  qed
qed

lemma pack_group:
  assumes "pack_bits f 0 pids = (b, rest)"
  obtains taken where "pids = taken @ rest" "\<forall>x \<in> set taken. nack_shift f x < 16"
    "set (unpack_bits b (f + 1)) = set taken"
    "unpack_bits b (f + 1) = map (\<lambda>i. f + 1 + of_nat i) (filter (\<lambda>k. k \<in> nack_shift f ` set taken) [0..<16])"
proof -
  from pack_bits_spec [OF assms] obtain taken where t: "pids = taken @ rest"
    "\<forall>x \<in> set taken. nack_shift f x < 16" "bit b = (\<lambda>k. k \<in> nack_shift f ` set taken)"
    by (auto simp: fun_eq_iff)
  have u: "unpack_bits b (f + 1) =
      map (\<lambda>i. f + 1 + of_nat i) (filter (\<lambda>k. k \<in> nack_shift f ` set taken) [0..<16])"
    by (simp add: unpack_bits_16 t(3))
  have "{k \<in> {0..<16}. k \<in> nack_shift f ` set taken} = nack_shift f ` set taken" using t(2) by auto
  then have "set (unpack_bits b (f + 1)) = (\<lambda>i. f + 1 + of_nat i) ` nack_shift f ` set taken"
    by (simp add: u)
  also have "\<dots> = set taken" by (simp add: image_image shift_back del: of_nat_unat)
  finally show thesis using that t u by blast
qed

lemma Unpack_simps [simp]:
  "Unpack [] = []" "Unpack ((f, b) # items) = f # unpack_bits b (f + 1) @ Unpack items"
  "Unpack (xs @ ys) = Unpack xs @ Unpack ys"
  by (simp_all add: Unpack_def)

lemma Unpack_eq_Nil: "Unpack xs = [] \<longleftrightarrow> xs = []"
  by (cases xs) auto

lemma Unpack_concat: "Unpack (concat xss) = concat (map Unpack xss)"
  by (induction xss) simp_all

text \<open>
  Whatever list of lost packet ids is packed, unpacking the items gives exactly the same set
  of ids: none is lost and none is invented.
\<close>

lemma Unpack_Pack_set: "set (Unpack (Pack ids)) = set ids"
proof (induction ids rule: Pack.induct)
  case (2 f pids)
  obtain b rest where p: "pack_bits f 0 pids = (b, rest)" by fastforce
  from p obtain taken where "pids = taken @ rest" "set (unpack_bits b (f + 1)) = set taken"
    by (rule pack_group)
  with "2.IH" p show ?case by auto
qed simp

text \<open>Ids in ascending order of their 16-bit circle, each less than half the circle ahead.\<close>

definition id_step :: "u16 \<Rightarrow> u16 \<Rightarrow> bool" where
  "id_step a b \<longleftrightarrow> 0 < unat (b - a) \<and> unat (b - a) < 2 ^ 15"

lemma nack_shift_step:
  assumes "nack_shift f a < 16" "id_step a b"
  shows "nack_shift f a < nack_shift f b"
proof -
  have eq: "b - f - 1 = (a - f - 1) + (b - a)" by simp
  moreover have "unat (a - f - 1) + unat (b - a) < 2 ^ 16"
    using assms by (simp add: nack_shift_def id_step_def)
  ultimately have "unat (b - f - 1) = unat (a - f - 1) + unat (b - a)"
    using unat_add_lem [of "a - f - 1" "b - a"] unfolding eq by simp
  then show ?thesis using assms(2) by (simp add: nack_shift_def id_step_def)
qed

lemma group_in_order:
  assumes "\<forall>x \<in> set taken. nack_shift f x < 16" "successively id_step taken"
  shows "map (\<lambda>i. f + 1 + of_nat i) (filter (\<lambda>k. k \<in> nack_shift f ` set taken) [0..<16]) = taken"
proof -
  have "successively (\<lambda>a b. nack_shift f a < nack_shift f b) taken"
    using assms by (induction id_step taken rule: successively.induct) (auto intro: nack_shift_step)
  then have "successively (<) (map (nack_shift f) taken)" by (simp add: successively_map)
  then have "sorted_wrt (<) (map (nack_shift f) taken)"
    by (simp add: successively_conv_sorted_wrt [OF transp_on_less])
  then have s: "sorted (map (nack_shift f) taken)" "distinct (map (nack_shift f) taken)"
    by (simp_all add: strict_sorted_iff)
  have "filter (\<lambda>k. k \<in> nack_shift f ` set taken) [0..<16] = map (nack_shift f) taken"
    using s assms(1) by (intro sorted_distinct_set_unique) (auto simp: sorted_wrt_filter)
  then show ?thesis by (simp add: comp_def shift_back)
qed

lemma Unpack_Pack_ordered:
  assumes "successively id_step ids"
  shows "Unpack (Pack ids) = ids"
  using assms
proof (induction ids rule: Pack.induct)
  case (2 f pids)
  obtain b rest where p: "pack_bits f 0 pids = (b, rest)" by fastforce
  from p obtain taken where t: "pids = taken @ rest" "\<forall>x \<in> set taken. nack_shift f x < 16"
    "unpack_bits b (f + 1) = map (\<lambda>i. f + 1 + of_nat i) (filter (\<lambda>k. k \<in> nack_shift f ` set taken) [0..<16])"
    by (rule pack_group)
  have "successively id_step pids" using "2.prems" by (cases pids) simp_all
  then have "successively id_step taken" "successively id_step rest"
    by (simp_all add: t(1) successively_append_iff)
  with "2.IH" p t group_in_order [OF t(2)] show ?case by simp
qed simp

text \<open>
  A list of ids in ascending circular order, each less than half of the circle ahead of
  the one before, is unpacked exactly as it was packed, in order and without repetition.
\<close>

lemma nack_pack_exact: "successively id_step ids \<Longrightarrow> Unpack (Pack ids) = ids"
  by (rule Unpack_Pack_ordered)

lemma nack_pack_exact_witness: "Unpack (Pack [65533, 65535, 2, 20, 300]) = [65533, 65535, 2, 20, 300]"
  by (rule nack_pack_exact) (simp add: id_step_def)

section \<open>Fragmentation\<close>

lemma length_nack_items [simp]: "length (concat (map nack_item_enc items)) = 4 * length items"
  by (rule length_concat_const) (simp add: nack_item_enc_def)

interpretation nack_items: item_codec "\<lambda>_. True" nack_item_enc nack_item_dec 4 id
proof
  fix d :: bytes
  assume "4 \<le> length d"
  then have "\<exists>v. rd16 d 0 = Some v" "\<exists>v. rd16 d 2 = Some v" by (auto intro!: rd_exists)
  then show "nack_item_dec d \<noteq> None" by (auto simp: nack_item_dec_def)
qed (simp_all add: nack_item_enc_def nack_item_dec_def codec_simps)

text \<open>One packet with the given items.\<close>

definition nack_wire :: "Nack \<Rightarrow> packed_nack list \<Rightarrow> bytes" where
  "nack_wire p items =
     CreateHeader 1 kRtpfb (2 + length items) False (nk_pathid p) @
     CreateCommonFeedback (nk_sender_ssrc p) (nk_media_ssrc p) @ concat (map nack_item_enc items)"

lemma length_nack_wire: "length (nack_wire p items) = 16 + 4 * length items"
  by (simp add: nack_wire_def)

lemma nack_wire_parse:
  assumes "items \<noteq> []" "length items < 65534" "int32 (nk_pathid p)"
  shows "\<exists>h. CommonHeader_Parse (nack_wire p items @ rest) = Some (Gives h) \<and>
    ch_type h = kRtpfb \<and> ch_count h = 1 \<and> ch_pathid h = nk_pathid p \<and>
    packet_size h = length (nack_wire p items) \<and>
    Nack_Parse h = Some (Gives \<lparr>nk_sender_ssrc = nk_sender_ssrc p, nk_media_ssrc = nk_media_ssrc p,
      nk_pathid = 3, nk_packed = items, nk_packet_ids = Unpack items\<rparr>)"
proof -
  let ?body = "CreateCommonFeedback (nk_sender_ssrc p) (nk_media_ssrc p) @ concat (map nack_item_enc items)"
  let ?h = "\<lparr>ch_type = kRtpfb, ch_count = 1, ch_pathid = nk_pathid p, ch_payload = ?body, ch_padding_size = 0\<rparr>"
  have "CommonHeader_Parse (nack_wire p items @ rest) = Some (Gives ?h)"
    using CommonHeader_Parse_Create [of 1 ?body "2 + length items" "nk_pathid p" kRtpfb rest] assms(2,3)
    by (simp add: nack_wire_def int32_def)
  moreover have "Nack_Parse ?h = Some (Gives \<lparr>nk_sender_ssrc = nk_sender_ssrc p, nk_media_ssrc = nk_media_ssrc p,
      nk_pathid = 3, nk_packed = items, nk_packet_ids = Unpack items\<rparr>)"
    using nack_items.read_encs_only [of items] assms(1)
    by (simp add: Suc_le_eq Nack_Parse_def Let_def fb_lengths kNackItemLength_def codec_simps)
  ultimately show ?thesis
    by (intro exI [of _ ?h]) (simp add: packet_size_def kHeaderLength_def length_nack_wire)
qed

text \<open>A list cut into pieces of \<open>k\<close> elements: the specification of the fragmentation.\<close>

function chunks :: "nat \<Rightarrow> 'a list \<Rightarrow> 'a list list" where
  "chunks k xs = (if xs = [] \<or> k = 0 then [] else take k xs # chunks k (drop k xs))"
  by auto
termination by (relation "measure (\<lambda>(_, xs). length xs)") auto

declare chunks.simps [simp del]

lemma chunks_props:
  assumes "0 < k"
  shows "concat (chunks k xs) = xs \<and> (\<forall>c \<in> set (chunks k xs). c \<noteq> [] \<and> length c \<le> k)"
  using assms
proof (induction k xs rule: chunks.induct)
  case (1 k xs)
  then show ?case by (subst (1 2) chunks.simps) auto
qed

lemma chunks_Nil [simp]: "chunks k [] = []"
  by (simp add: chunks.simps)

lemma nack_emit_block:
  assumes "16 + 4 * n \<le> mx" "n \<le> length items"
  shows "emits mx (CreateHeader 1 kRtpfb ((kCommonFeedbackLength + n * kNackItemLength) div 4) False (nk_pathid p) #
      CreateCommonFeedback (nk_sender_ssrc p) (nk_media_ssrc p) # map nack_item_enc (take n items))
      \<lparr>ob_data = [], ob_sent = sent\<rparr> = Some (Gives \<lparr>ob_data = nack_wire p (take n items), ob_sent = sent\<rparr>)"
  using assms
  by (subst emits_eq) (simp_all add: nack_wire_def fb_lengths kNackItemLength_def add.commute)

lemma nack_loop_chunks:
  assumes "20 \<le> mx" "items \<noteq> []"
  shows "nack_create_loop p items mx \<lparr>ob_data = [], ob_sent = sent\<rparr> =
    (let cs = chunks ((mx - 16) div 4) items
     in Some (Gives \<lparr>ob_data = nack_wire p (last cs), ob_sent = sent @ map (nack_wire p) (butlast cs)\<rparr>))"
  using assms(2)
proof (induction "length items" arbitrary: items sent rule: less_induct)
  case less
  define k where "k = (mx - 16) div 4"
  have k: "0 < k" "16 + 4 * k \<le> mx" "mx < 16 + 4 * k + 4" using assms(1) by (simp_all add: k_def)
  define n where "n = min k (length items)"
  have n: "16 + 4 * n \<le> mx" "n \<le> length items" "0 < n" "take n items = take k items"
    using k less.prems by (auto simp: n_def min_def)
  have step: "nack_create_loop p items mx \<lparr>ob_data = [], ob_sent = sent\<rparr> =
      nack_create_loop p (drop n items) mx \<lparr>ob_data = nack_wire p (take n items), ob_sent = sent\<rparr>"
    using less.prems assms(1) nack_emit_block [OF n(1,2), of p sent]
    by (subst nack_create_loop.simps)
      (simp add: Let_def kNackHeaderLength_def fb_lengths kNackItemLength_def n_def k_def)
  show ?case
  proof (cases "drop n items = []")
    case True
    then have "drop k items = []" using n_def by auto
    then have "chunks k items = [take k items]"
      using less.prems k(1) by (subst chunks.simps) simp
    then show ?thesis
      using step True n(4) by (simp add: nack_create_loop.simps [of _ "[]"] Let_def k_def)
  next
    case False
    then have nk: "n = k" by (auto simp: n_def min_def split: if_splits)
    have "nack_create_loop p (drop n items) mx \<lparr>ob_data = nack_wire p (take n items), ob_sent = sent\<rparr> =
        nack_create_loop p (drop n items) mx \<lparr>ob_data = [], ob_sent = sent @ [nack_wire p (take n items)]\<rparr>"
      using False n k nk length_nack_wire [of p "take n items"]
      by (subst nack_create_loop.simps)
        (auto simp: Let_def kNackHeaderLength_def fb_lengths kNackItemLength_def)
    also have "\<dots> = (let cs = chunks k (drop n items)
      in Some (Gives \<lparr>ob_data = nack_wire p (last cs),
        ob_sent = (sent @ [nack_wire p (take n items)]) @ map (nack_wire p) (butlast cs)\<rparr>))"
      unfolding k_def using n(3) False by (intro less.hyps) auto
    finally have eq: "nack_create_loop p items mx \<lparr>ob_data = [], ob_sent = sent\<rparr> =
      (let cs = chunks k (drop n items) in Some (Gives \<lparr>ob_data = nack_wire p (last cs),
        ob_sent = (sent @ [nack_wire p (take n items)]) @ map (nack_wire p) (butlast cs)\<rparr>))"
      using step by simp
    have "chunks k items = take k items # chunks k (drop k items)"
      using less.prems k(1) by (subst chunks.simps) simp
    moreover have "chunks k (drop k items) \<noteq> []"
      using False nk k(1) by (subst chunks.simps) simp
    ultimately show ?thesis using eq nk by (simp add: Let_def k_def)
  qed
qed

lemma nack_build:
  assumes "20 \<le> mx" "nk_packed p \<noteq> []"
  shows "Build (Nack_Create p) mx =
    Some (Gives (map (nack_wire p) (chunks ((mx - 16) div 4) (nk_packed p))))"
proof -
  let ?cs = "chunks ((mx - 16) div 4) (nk_packed p)"
  have "0 < (mx - 16) div 4" using assms(1) by simp
  from chunks_props [OF this, of "nk_packed p"] assms(2) have ne: "?cs \<noteq> []" by auto
  have wire: "nack_wire p x \<noteq> []" for x using length_nack_wire [of p x] by auto
  have "map (nack_wire p) (butlast ?cs) @ [nack_wire p (last ?cs)] = map (nack_wire p) (butlast ?cs @ [last ?cs])"
    by simp
  also have "\<dots> = map (nack_wire p) ?cs" using append_butlast_last_id [OF ne] by (rule arg_cong)
  finally show ?thesis
    using nack_loop_chunks [OF assms, of p "[]"] wire
    by (simp add: Build_def Nack_Create_def Let_def OnBufferFull_def)
qed

text \<open>
  \<open>delivered p mx wires nacks\<close>: the packets \<open>wires\<close> of at most \<open>mx\<close> bytes carry the path id and the SSRCs
  of \<open>p\<close>, and the receiver parses them to \<open>nacks\<close>.
\<close>

definition delivered :: "Nack \<Rightarrow> nat \<Rightarrow> bytes list \<Rightarrow> Nack list \<Rightarrow> bool" where
  "delivered p mx wires nacks \<longleftrightarrow>
     list_all2 (\<lambda>w n. length w \<le> mx \<and> nk_packet_ids n \<noteq> [] \<and> nk_sender_ssrc n = nk_sender_ssrc p \<and> nk_media_ssrc n = nk_media_ssrc p \<and>
       (\<exists>h. CommonHeader_Parse w = Some (Gives h) \<and> ch_type h = kRtpfb \<and> ch_count h = 1 \<and>
         ch_pathid h = nk_pathid p \<and> packet_size h = length w \<and>
         Nack_Parse h = Some (Gives n))) wires nacks"

lemma nack_build_delivered:
  assumes "20 \<le> mx" "mx \<le> 65535" "ids \<noteq> []" "int32 (nk_pathid p)"
  shows "\<exists>wires nacks. Build (Nack_Create (SetPacketIds ids p)) mx = Some (Gives wires) \<and>
    delivered p mx wires nacks \<and>
    concat (map nk_packet_ids nacks) = Unpack (Pack ids) \<and> set (concat (map nk_packet_ids nacks)) = set ids"
proof -
  let ?p = "SetPacketIds ids p"
  let ?k = "(mx - 16) div 4"
  let ?cs = "chunks ?k (Pack ids)"
  let ?n = "\<lambda>c. \<lparr>nk_sender_ssrc = nk_sender_ssrc p, nk_media_ssrc = nk_media_ssrc p, nk_pathid = 3,
      nk_packed = c, nk_packet_ids = Unpack c\<rparr>"
  have k: "0 < ?k" "16 + 4 * ?k \<le> mx" "?k < 65534" using assms(1,2) by linarith+
  note cs = chunks_props [OF k(1), of "Pack ids"]
  have p: "nk_packed ?p = Pack ids" "nk_pathid ?p = nk_pathid p" "nk_sender_ssrc ?p = nk_sender_ssrc p"
    "nk_media_ssrc ?p = nk_media_ssrc p" by (simp_all add: SetPacketIds_def)
  have "Pack ids \<noteq> []" using assms(3) by (cases ids) simp_all
  then have b: "Build (Nack_Create ?p) mx = Some (Gives (map (nack_wire ?p) ?cs))"
    using nack_build [OF assms(1), of ?p] p by simp
  have "length (nack_wire ?p c) \<le> mx \<and> Unpack c \<noteq> [] \<and>
      (\<exists>h. CommonHeader_Parse (nack_wire ?p c) = Some (Gives h) \<and> ch_type h = kRtpfb \<and> ch_count h = 1 \<and>
        ch_pathid h = nk_pathid p \<and>
        packet_size h = length (nack_wire ?p c) \<and> Nack_Parse h = Some (Gives (?n c)))" if "c \<in> set ?cs" for c
  proof -
    have "Unpack c \<noteq> []" using that cs by (simp add: Unpack_eq_Nil)
    then show ?thesis using that cs k nack_wire_parse [of c ?p "[]"] assms(4) p by (force simp: length_nack_wire)
  qed
  then have "delivered p mx (map (nack_wire ?p) ?cs) (map ?n ?cs)"
    by (auto simp: delivered_def list_all2_conv_all_nth)
  moreover have "concat (map nk_packet_ids (map ?n ?cs)) = Unpack (concat ?cs)"
    by (simp add: Unpack_concat comp_def)
  ultimately show ?thesis
    using b cs Unpack_Pack_set [of ids]
    by (intro exI [of _ "map (nack_wire ?p) ?cs"] exI [of _ "map ?n ?cs"] conjI) simp_all
qed

text \<open>
  A negative acknowledgement for any non-empty list of ids is sent in packets of at most
  \<open>mx\<close> bytes, for every buffer size \<open>mx\<close> from 20 bytes on; each packet carries the path id and the
  SSRCs and is accepted by the parser, and the ids the receiver unpacks from all of them are
  exactly the ids that were set.
\<close>

lemma nack_fragments:
  assumes "20 \<le> mx" "mx \<le> 65535" "ids \<noteq> []" "int32 (nk_pathid p)"
  shows "\<exists>wires nacks. Build (Nack_Create (SetPacketIds ids p)) mx = Some (Gives wires) \<and>
    delivered p mx wires nacks \<and>
    concat (map nk_packet_ids nacks) = Unpack (Pack ids) \<and> set (concat (map nk_packet_ids nacks)) = set ids"
  using assms by (rule nack_build_delivered)

lemma nack_fragments_witness:
  "let p = \<lparr>nk_sender_ssrc = 5, nk_media_ssrc = 6, nk_pathid = 2, nk_packed = [], nk_packet_ids = []\<rparr>
   in \<exists>wires nacks. Build (Nack_Create (SetPacketIds [1, 200, 400, 600] p)) 24 = Some (Gives wires) \<and>
    delivered p 24 wires nacks \<and>
    concat (map nk_packet_ids nacks) = Unpack (Pack [1, 200, 400, 600]) \<and>
    set (concat (map nk_packet_ids nacks)) = set [1, 200, 400, 600]"
  unfolding Let_def by (rule nack_fragments) (simp_all add: int32_def)

end
