(* ===== verification/TransportFeedback.thy ===== *)
theory TransportFeedback
  imports RtcpFeedback SeqNum "HOL-Library.Signed_Division"
begin

text \<open>
  The transport feedback packet, \<open>rtcp_packet/transport_feedback.cc\<close>: for each path the receiver
  of the media reports which packets arrived, and when. Whether a packet arrived, and in how many
  bytes its arrival time is coded, is a delta size of 0, 1 or 2; the delta sizes are packed into
  16-bit chunks of three formats, the last of which is kept open in \<open>LastChunk\<close>. The theory models the
  class and shows that \<open>LastChunk\<close> and the chunks implement a list of delta sizes; \<open>FeedbackBuild\<close>
  and \<open>FeedbackParse\<close> prove what the packet promises. Delta sizes are natural numbers (a \<open>uint8_t\<close> of at most 3 in the source), and
  \<open>num_seq_no_\<close> is one, since its increment is guarded. \<open>delta_sizes_\<close> is not initialised by the
  constructor: its first content is an argument.
\<close>

section \<open>Chunks\<close>

definition kMaxRunLengthCapacity :: nat where "kMaxRunLengthCapacity = 0x1fff"
definition kMaxOneBitCapacity :: nat where "kMaxOneBitCapacity = 14"
definition kMaxTwoBitCapacity :: nat where "kMaxTwoBitCapacity = 7"
definition kMaxVectorCapacity :: nat where "kMaxVectorCapacity = 14"
definition kLarge :: nat where "kLarge = 2"

lemmas chunk_consts = kMaxRunLengthCapacity_def kMaxOneBitCapacity_def kMaxTwoBitCapacity_def
  kMaxVectorCapacity_def kLarge_def

record LastChunk =
  lc_delta_sizes :: "nat list"
  lc_size :: nat
  lc_all_same :: bool
  lc_has_large_delta :: bool

definition LastChunk_Clear :: "LastChunk \<Rightarrow> LastChunk" where
  "LastChunk_Clear c = c\<lparr>lc_size := 0, lc_all_same := True, lc_has_large_delta := False\<rparr>"

definition LastChunk_new :: "nat list \<Rightarrow> LastChunk" where
  "LastChunk_new junk =
     LastChunk_Clear \<lparr>lc_delta_sizes = junk, lc_size = 0, lc_all_same = True, lc_has_large_delta = False\<rparr>"

definition LastChunk_Empty :: "LastChunk \<Rightarrow> bool" where
  "LastChunk_Empty c \<longleftrightarrow> lc_size c = 0"

definition CanAdd :: "nat \<Rightarrow> LastChunk \<Rightarrow> bool" where
  "CanAdd delta_size c \<longleftrightarrow>
     lc_size c < kMaxTwoBitCapacity \<or>
     (lc_size c < kMaxOneBitCapacity \<and> \<not> lc_has_large_delta c \<and> delta_size \<noteq> kLarge) \<or>
     (lc_size c < kMaxRunLengthCapacity \<and> lc_all_same c \<and> lc_delta_sizes c ! 0 = delta_size)"

definition LastChunk_Add :: "nat \<Rightarrow> LastChunk \<Rightarrow> LastChunk" where
  "LastChunk_Add delta_size c =
     (let c = (if lc_size c < kMaxVectorCapacity
               then c\<lparr>lc_delta_sizes := (lc_delta_sizes c)[lc_size c := delta_size]\<rparr> else c)
      in c\<lparr>lc_size := lc_size c + 1,
           lc_all_same := (lc_all_same c \<and> delta_size = lc_delta_sizes c ! 0),
           lc_has_large_delta := (lc_has_large_delta c \<or> delta_size = kLarge)\<rparr>)"

definition EncodeOneBit :: "LastChunk \<Rightarrow> u16" where
  "EncodeOneBit c =
     foldl (\<lambda>chunk i. chunk OR push_bit (kMaxOneBitCapacity - 1 - i) (of_nat (lc_delta_sizes c ! i)))
       0x8000 [0..<lc_size c]"

definition EncodeTwoBit :: "nat \<Rightarrow> LastChunk \<Rightarrow> u16" where
  "EncodeTwoBit n c =
     foldl (\<lambda>chunk i. chunk OR push_bit (2 * (kMaxTwoBitCapacity - 1 - i)) (of_nat (lc_delta_sizes c ! i)))
       0xc000 [0..<n]"

definition EncodeRunLength :: "LastChunk \<Rightarrow> u16" where
  "EncodeRunLength c = push_bit 13 (of_nat (lc_delta_sizes c ! 0)) OR of_nat (lc_size c)"

text \<open>The loop of \<open>Emit\<close> that moves the delta sizes that are left to the front.\<close>

fun emit_shift :: "nat \<Rightarrow> nat \<Rightarrow> LastChunk \<Rightarrow> LastChunk" where
  "emit_shift i 0 c = c"
| "emit_shift i (Suc n) c =
     (let delta_size = lc_delta_sizes c ! (kMaxTwoBitCapacity + i);
          c = c\<lparr>lc_delta_sizes := (lc_delta_sizes c)[i := delta_size]\<rparr>
      in emit_shift (Suc i) n
           (c\<lparr>lc_all_same := (lc_all_same c \<and> delta_size = lc_delta_sizes c ! 0),
              lc_has_large_delta := (lc_has_large_delta c \<or> delta_size = kLarge)\<rparr>))"

definition Emit :: "LastChunk \<Rightarrow> u16 \<times> LastChunk" where
  "Emit c =
     (if lc_all_same c then (EncodeRunLength c, LastChunk_Clear c)
      else if lc_size c = kMaxOneBitCapacity then (EncodeOneBit c, LastChunk_Clear c)
      else (EncodeTwoBit kMaxTwoBitCapacity c,
            emit_shift 0 (lc_size c - kMaxTwoBitCapacity)
              (c\<lparr>lc_size := lc_size c - kMaxTwoBitCapacity, lc_all_same := True,
                 lc_has_large_delta := False\<rparr>)))"

definition EncodeLast :: "LastChunk \<Rightarrow> u16" where
  "EncodeLast c =
     (if lc_all_same c then EncodeRunLength c
      else if lc_size c \<le> kMaxTwoBitCapacity then EncodeTwoBit (lc_size c) c
      else EncodeOneBit c)"

definition AppendTo :: "LastChunk \<Rightarrow> nat list" where
  "AppendTo c = (if lc_all_same c then replicate (lc_size c) (lc_delta_sizes c ! 0)
                 else take (lc_size c) (lc_delta_sizes c))"

definition DecodeOneBit :: "u16 \<Rightarrow> nat \<Rightarrow> LastChunk \<Rightarrow> LastChunk" where
  "DecodeOneBit chunk max_size c =
     (let n = min kMaxOneBitCapacity max_size
      in c\<lparr>lc_size := n, lc_has_large_delta := False, lc_all_same := False,
           lc_delta_sizes :=
             map (\<lambda>i. unat (drop_bit (kMaxOneBitCapacity - 1 - i) chunk AND 0x01)) [0..<n] @
             drop n (lc_delta_sizes c)\<rparr>)"

definition DecodeTwoBit :: "u16 \<Rightarrow> nat \<Rightarrow> LastChunk \<Rightarrow> LastChunk" where
  "DecodeTwoBit chunk max_size c =
     (let n = min kMaxTwoBitCapacity max_size
      in c\<lparr>lc_size := n, lc_has_large_delta := True, lc_all_same := False,
           lc_delta_sizes :=
             map (\<lambda>i. unat (drop_bit (2 * (kMaxTwoBitCapacity - 1 - i)) chunk AND 0x03)) [0..<n] @
             drop n (lc_delta_sizes c)\<rparr>)"

definition DecodeRunLength :: "u16 \<Rightarrow> nat \<Rightarrow> LastChunk \<Rightarrow> LastChunk" where
  "DecodeRunLength chunk max_count c =
     (let n = min (unat (chunk AND 0x1fff)) max_count;
          delta_size = unat (drop_bit 13 chunk AND 0x03);
          k = min n kMaxVectorCapacity
      in c\<lparr>lc_size := n, lc_has_large_delta := (delta_size \<ge> kLarge), lc_all_same := True,
           lc_delta_sizes := replicate k delta_size @ drop k (lc_delta_sizes c)\<rparr>)"

definition Chunk_Decode :: "u16 \<Rightarrow> nat \<Rightarrow> LastChunk \<Rightarrow> LastChunk" where
  "Chunk_Decode chunk max_size c =
     (if chunk AND 0x8000 = 0 then DecodeRunLength chunk max_size c
      else if chunk AND 0x4000 = 0 then DecodeOneBit chunk max_size c
      else DecodeTwoBit chunk max_size c)"

section \<open>The packet\<close>

text \<open>A packet that did not arrive has no delta: \<open>delta_ticks_\<close> is not initialised then.\<close>

record ReceivedPacket =
  rcv_sequence_number :: u16
  rcv_delta_ticks :: "int option"

record TransportFeedback =
  tf_sender_ssrc :: u32
  tf_media_ssrc :: u32
  tf_include_lost :: bool
  tf_base_seq_no :: u16
  tf_num_seq_no :: nat
  tf_pathid :: int
  tf_base_time_ticks :: int
  tf_feedback_seq :: u8
  tf_include_timestamps :: bool
  tf_last_timestamp_us :: int
  tf_received_packets :: "ReceivedPacket list"
  tf_all_packets :: "ReceivedPacket list"
  tf_encoded_chunks :: "u16 list"
  tf_last_chunk :: LastChunk
  tf_size_bytes :: nat

definition kTransportFeedbackHeaderSizeBytes :: nat where "kTransportFeedbackHeaderSizeBytes = 8 + 8 + 8"
definition kChunkSizeBytes :: nat where "kChunkSizeBytes = 2"
definition kMaxSizeBytes :: nat where "kMaxSizeBytes = 2 ^ 16 * 4"
definition kMinPayloadSizeBytes :: nat where "kMinPayloadSizeBytes = 8 + 8 + 2"
definition kDeltaScaleFactor :: int where "kDeltaScaleFactor = 250"
definition kBaseScaleFactor :: int where "kBaseScaleFactor = kDeltaScaleFactor * 2 ^ 8"
definition kTimeWrapPeriodUs :: int where "kTimeWrapPeriodUs = 2 ^ 24 * kBaseScaleFactor"
definition kMaxReportedPackets :: nat where "kMaxReportedPackets = 0xffff"

lemmas feedback_consts = kTransportFeedbackHeaderSizeBytes_def kChunkSizeBytes_def kMaxSizeBytes_def
  kMinPayloadSizeBytes_def kMaxReportedPackets_def

definition TransportFeedback_new :: "nat list \<Rightarrow> bool \<Rightarrow> bool \<Rightarrow> int \<Rightarrow> TransportFeedback" where
  "TransportFeedback_new junk include_timestamps include_lost pathid =
     \<lparr>tf_sender_ssrc = 0, tf_media_ssrc = 0, tf_include_lost = include_lost, tf_base_seq_no = 0,
      tf_num_seq_no = 0, tf_pathid = pathid, tf_base_time_ticks = 0, tf_feedback_seq = 0,
      tf_include_timestamps = include_timestamps, tf_last_timestamp_us = 0,
      tf_received_packets = [], tf_all_packets = [], tf_encoded_chunks = [],
      tf_last_chunk = LastChunk_new junk, tf_size_bytes = kTransportFeedbackHeaderSizeBytes\<rparr>"

definition GetBaseTimeUs :: "TransportFeedback \<Rightarrow> int" where
  "GetBaseTimeUs f = tf_base_time_ticks f * kBaseScaleFactor"

definition SetBase :: "u16 \<Rightarrow> int \<Rightarrow> TransportFeedback \<Rightarrow> TransportFeedback" where
  "SetBase base_sequence ref_timestamp_us f =
     (let f = f\<lparr>tf_base_seq_no := base_sequence,
                tf_base_time_ticks := (ref_timestamp_us smod kTimeWrapPeriodUs) sdiv kBaseScaleFactor\<rparr>
      in f\<lparr>tf_last_timestamp_us := GetBaseTimeUs f\<rparr>)"

definition SetFeedbackSequenceNumber :: "u8 \<Rightarrow> TransportFeedback \<Rightarrow> TransportFeedback" where
  "SetFeedbackSequenceNumber feedback_sequence f = f\<lparr>tf_feedback_seq := feedback_sequence\<rparr>"

text \<open>The setters of the base class.\<close>

definition SetFeedbackSsrcs :: "u32 \<Rightarrow> u32 \<Rightarrow> TransportFeedback \<Rightarrow> TransportFeedback" where
  "SetFeedbackSsrcs sender media f = f\<lparr>tf_sender_ssrc := sender, tf_media_ssrc := media\<rparr>"

definition TransportFeedback_Clear :: "TransportFeedback \<Rightarrow> TransportFeedback" where
  "TransportFeedback_Clear f =
     f\<lparr>tf_size_bytes := kTransportFeedbackHeaderSizeBytes, tf_num_seq_no := 0,
       tf_last_timestamp_us := GetBaseTimeUs f, tf_received_packets := [], tf_all_packets := [],
       tf_encoded_chunks := [], tf_last_chunk := LastChunk_Clear (tf_last_chunk f)\<rparr>"

definition AddDeltaSize :: "nat \<Rightarrow> TransportFeedback \<Rightarrow> bool \<times> TransportFeedback" where
  "AddDeltaSize delta_size f =
     (if tf_num_seq_no f = kMaxReportedPackets then (False, f)
      else let add_chunk_size = (if LastChunk_Empty (tf_last_chunk f) then kChunkSizeBytes else 0)
      in if tf_size_bytes f + delta_size + add_chunk_size > kMaxSizeBytes then (False, f)
      else if CanAdd delta_size (tf_last_chunk f)
      then (True, f\<lparr>tf_size_bytes := tf_size_bytes f + add_chunk_size,
                    tf_last_chunk := LastChunk_Add delta_size (tf_last_chunk f),
                    tf_num_seq_no := tf_num_seq_no f + 1\<rparr>)
      else if tf_size_bytes f + delta_size + kChunkSizeBytes > kMaxSizeBytes then (False, f)
      else let (chunk, c) = Emit (tf_last_chunk f)
      in (True, f\<lparr>tf_encoded_chunks := tf_encoded_chunks f @ [chunk],
                  tf_size_bytes := tf_size_bytes f + kChunkSizeBytes,
                  tf_last_chunk := LastChunk_Add delta_size c,
                  tf_num_seq_no := tf_num_seq_no f + 1\<rparr>))"

text \<open>The loop of \<open>AddReceivedPacket\<close> over the packets that are missing.\<close>

function add_lost :: "u16 \<Rightarrow> u16 \<Rightarrow> TransportFeedback \<Rightarrow> bool \<times> TransportFeedback" where
  "add_lost sequence_number next_seq_no f =
     (if next_seq_no = sequence_number then (True, f)
      else case AddDeltaSize 0 f of
             (False, f) \<Rightarrow> (False, f)
           | (True, f) \<Rightarrow>
               add_lost sequence_number (next_seq_no + 1)
                 (if tf_include_lost f
                  then f\<lparr>tf_all_packets := tf_all_packets f @
                         [\<lparr>rcv_sequence_number = next_seq_no, rcv_delta_ticks = None\<rparr>]\<rparr>
                  else f))"
  by pat_completeness auto
termination
proof (relation "measure (\<lambda>(s, n, _). unat (s - n))")
  fix s n :: u16 and f :: TransportFeedback and x b and g :: TransportFeedback
  assume "n \<noteq> s"
  then have "0 < unat (s - n)" by (simp add: unat_gt_0)
  moreover have "unat (s - (n + 1)) = unat (s - n) - 1"
    using calculation unat_minus_one [of "s - n"] by (simp add: unat_gt_0 diff_diff_eq)
  ultimately show "((s, n + 1, h), s, n, f) \<in> measure (\<lambda>(s, n, _). unat (s - n))" for h
    by simp
qed simp

declare add_lost.simps [simp del]

text \<open>The arrival time as a number of ticks since the last one, or \<open>None\<close> when it needs a new packet.\<close>

definition delta_of :: "int \<Rightarrow> TransportFeedback \<Rightarrow> int option" where
  "delta_of timestamp_us f =
     (if tf_include_timestamps f
      then let delta_full = (timestamp_us - tf_last_timestamp_us f) smod kTimeWrapPeriodUs;
               delta_full = (if delta_full > kTimeWrapPeriodUs sdiv 2 then delta_full - kTimeWrapPeriodUs
                             else delta_full);
               delta_full = delta_full + (if delta_full < 0 then - (kDeltaScaleFactor sdiv 2)
                                          else kDeltaScaleFactor sdiv 2);
               delta_full = delta_full sdiv kDeltaScaleFactor;
               delta = signed_take_bit 15 delta_full
           in if delta \<noteq> delta_full then None else Some delta
      else Some 0)"

definition delta_size_of :: "int \<Rightarrow> nat" where
  "delta_size_of delta = (if delta \<ge> 0 \<and> delta \<le> 0xff then 1 else 2)"

definition AddReceivedPacket :: "u16 \<Rightarrow> int \<Rightarrow> TransportFeedback \<Rightarrow> bool \<times> TransportFeedback" where
  "AddReceivedPacket sequence_number timestamp_us f =
     (case delta_of timestamp_us f of
        None \<Rightarrow> (False, f)
      | Some delta \<Rightarrow>
          let next_seq_no = tf_base_seq_no f + of_nat (tf_num_seq_no f)
          in if sequence_number \<noteq> next_seq_no \<and> \<not> IsNewerSequenceNumber sequence_number (next_seq_no - 1)
             then (False, f)
             else case add_lost sequence_number next_seq_no f of
                    (False, f) \<Rightarrow> (False, f)
                  | (True, f) \<Rightarrow>
                      let delta_size = delta_size_of delta
                      in case AddDeltaSize delta_size f of
                           (False, f) \<Rightarrow> (False, f)
                         | (True, f) \<Rightarrow>
                             let p = \<lparr>rcv_sequence_number = sequence_number, rcv_delta_ticks = Some delta\<rparr>
                             in (True, f\<lparr>tf_received_packets := tf_received_packets f @ [p],
                                  tf_all_packets := (if tf_include_lost f then tf_all_packets f @ [p]
                                                     else tf_all_packets f),
                                  tf_last_timestamp_us := tf_last_timestamp_us f + delta * kDeltaScaleFactor,
                                  tf_size_bytes := (if tf_include_timestamps f
                                                    then tf_size_bytes f + delta_size else tf_size_bytes f)\<rparr>))"

definition GetBaseDeltaUs :: "int \<Rightarrow> TransportFeedback \<Rightarrow> int" where
  "GetBaseDeltaUs prev_timestamp_us f =
     (let delta = GetBaseTimeUs f - prev_timestamp_us
      in if \<bar>delta - kTimeWrapPeriodUs\<bar> < \<bar>delta\<bar> then delta - kTimeWrapPeriodUs
         else if \<bar>delta + kTimeWrapPeriodUs\<bar> < \<bar>delta\<bar> then delta + kTimeWrapPeriodUs
         else delta)"

section \<open>Parsing\<close>

text \<open>
  The loop that reads chunks until all statuses are known; \<open>index\<close> is the position in the payload.
\<close>

function parse_chunks ::
  "bytes \<Rightarrow> nat \<Rightarrow> nat \<Rightarrow> nat list \<Rightarrow> TransportFeedback \<Rightarrow> (nat \<times> nat list \<times> TransportFeedback) outcome option" where
  "parse_chunks payload status_count index delta_sizes f =
     (if length delta_sizes < status_count
      then if index + kChunkSizeBytes > length payload then Some Fails
           else do {
             chunk \<leftarrow> rd16 payload index;
             let c = Chunk_Decode chunk (status_count - length delta_sizes) (tf_last_chunk f);
             parse_chunks payload status_count (index + kChunkSizeBytes) (delta_sizes @ AppendTo c)
               (f\<lparr>tf_encoded_chunks := tf_encoded_chunks f @ [chunk], tf_last_chunk := c\<rparr>) }
      else Some (Gives (index, delta_sizes, f)))"
  by pat_completeness auto
termination
  by (relation "measure (\<lambda>(payload, _, index, _, _). Suc (length payload) - index)")
    (auto simp: kChunkSizeBytes_def)

declare parse_chunks.simps [simp del]

definition add_parsed :: "u16 \<Rightarrow> int option \<Rightarrow> TransportFeedback \<Rightarrow> TransportFeedback" where
  "add_parsed seq_no delta f =
     (let p = \<lparr>rcv_sequence_number = seq_no, rcv_delta_ticks = delta\<rparr>
      in f\<lparr>tf_received_packets := (if delta \<noteq> None then tf_received_packets f @ [p] else tf_received_packets f),
           tf_all_packets := (if tf_include_lost f then tf_all_packets f @ [p] else tf_all_packets f)\<rparr>)"

text \<open>The loop over the delta sizes of a packet that holds receive deltas.\<close>

fun parse_deltas ::
  "bytes \<Rightarrow> nat list \<Rightarrow> u16 \<Rightarrow> nat \<Rightarrow> TransportFeedback \<Rightarrow> (nat \<times> TransportFeedback) outcome option" where
  "parse_deltas payload [] seq_no index f = Some (Gives (index, f))"
| "parse_deltas payload (delta_size # delta_sizes) seq_no index f =
     (if index + delta_size > length payload then Some Fails
      else if delta_size = 0
      then parse_deltas payload delta_sizes (seq_no + 1) index (add_parsed seq_no None f)
      else if delta_size = 1
      then do {
        b \<leftarrow> rd8 payload index;
        let delta = uint b;
        parse_deltas payload delta_sizes (seq_no + 1) (index + 1)
          ((add_parsed seq_no (Some delta) f)\<lparr>tf_last_timestamp_us :=
             tf_last_timestamp_us f + delta * kDeltaScaleFactor\<rparr>) }
      else if delta_size = 2
      then do {
        w \<leftarrow> rd16 payload index;
        let delta = sint w;
        parse_deltas payload delta_sizes (seq_no + 1) (index + 2)
          ((add_parsed seq_no (Some delta) f)\<lparr>tf_last_timestamp_us :=
             tf_last_timestamp_us f + delta * kDeltaScaleFactor\<rparr>) }
      else Some Fails)"

text \<open>The loop for a packet without receive deltas.\<close>

fun parse_statuses :: "nat list \<Rightarrow> u16 \<Rightarrow> TransportFeedback \<Rightarrow> TransportFeedback" where
  "parse_statuses [] seq_no f = f"
| "parse_statuses (delta_size # delta_sizes) seq_no f =
     parse_statuses delta_sizes (seq_no + 1)
       (add_parsed seq_no (if delta_size > 0 then Some 0 else None) f)"

text \<open>\<open>Fails\<close> leaves the packet cleared or partly read; no caller uses it then.\<close>

definition TransportFeedback_Parse ::
  "common_header \<Rightarrow> TransportFeedback \<Rightarrow> TransportFeedback outcome option" where
  "TransportFeedback_Parse h f =
     (let payload = ch_payload h in
      if length payload < kMinPayloadSizeBytes then Some Fails
      else do {
        (s, m) \<leftarrow> ParseCommonFeedback payload;
        base_seq_no \<leftarrow> rd16 payload 8;
        status_count \<leftarrow> rd16 payload 10;
        base_time \<leftarrow> rd24s payload 12;
        feedback_seq \<leftarrow> rd8 payload 15;
        let f = TransportFeedback_Clear
          (f\<lparr>tf_sender_ssrc := s, tf_media_ssrc := m, tf_pathid := ch_pathid h,
             tf_base_seq_no := base_seq_no, tf_base_time_ticks := sint base_time,
             tf_feedback_seq := feedback_seq\<rparr>);
        if status_count = 0 then Some Fails
        else do {
          r \<leftarrow> parse_chunks payload (unat status_count) 16 [] f;
          case r of
            Fails \<Rightarrow> Some Fails
          | Gives (index, delta_sizes, f) \<Rightarrow>
              let f = f\<lparr>tf_encoded_chunks := butlast (tf_encoded_chunks f),
                        tf_num_seq_no := unat status_count\<rparr> in
              if length payload \<ge> index + sum_list delta_sizes
              then do {
                r \<leftarrow> parse_deltas payload delta_sizes base_seq_no index f;
                case r of
                  Fails \<Rightarrow> Some Fails
                | Gives (index, f) \<Rightarrow> Some (Gives (f\<lparr>tf_size_bytes := kHeaderLength + index\<rparr>)) }
              else Some (Gives ((parse_statuses delta_sizes base_seq_no
                     (f\<lparr>tf_include_timestamps := False\<rparr>))\<lparr>tf_size_bytes := kHeaderLength + index\<rparr>)) } })"

definition ParseFrom :: "nat list \<Rightarrow> bytes \<Rightarrow> TransportFeedback outcome option" where
  "ParseFrom junk buffer =
     do { r \<leftarrow> CommonHeader_Parse buffer;
          case r of
            Fails \<Rightarrow> Some Fails
          | Gives h \<Rightarrow>
              if ch_type h \<noteq> kRtpfb \<or> ch_count h \<noteq> 15 then Some Fails
              else TransportFeedback_Parse h (TransportFeedback_new junk True True (- 1)) }"

section \<open>The class's own consistency check\<close>

fun consistent_deltas ::
  "bool \<Rightarrow> nat list \<Rightarrow> u16 \<Rightarrow> ReceivedPacket list \<Rightarrow> int \<Rightarrow> nat \<Rightarrow> (int \<times> nat \<times> ReceivedPacket list) option" where
  "consistent_deltas ts [] seq_no ps t n = Some (t, n, ps)"
| "consistent_deltas ts (d # ds) seq_no ps t n =
     (if d > 0
      then case ps of
             [] \<Rightarrow> None
           | p # ps \<Rightarrow>
               (case rcv_delta_ticks p of
                  None \<Rightarrow> None
                | Some delta \<Rightarrow>
                    if rcv_sequence_number p \<noteq> seq_no then None
                    else if d = 1 \<and> (delta < 0 \<or> delta > 0xff) then None
                    else consistent_deltas ts ds (seq_no + 1) ps (t + delta * kDeltaScaleFactor)
                           (if ts then n + d else n))
      else consistent_deltas ts ds (seq_no + 1) ps t (if ts then n + d else n))"

definition all_delta_sizes :: "TransportFeedback \<Rightarrow> nat list" where
  "all_delta_sizes f =
     concat (map (\<lambda>chunk. AppendTo (Chunk_Decode chunk kMaxReportedPackets (LastChunk_new (replicate 14 0))))
       (tf_encoded_chunks f)) @ AppendTo (tf_last_chunk f)"

text \<open>
  \<open>base_time_ticks_ * kBaseScaleFactor\<close> is a product of two 32-bit integers here, unlike in
  \<open>GetBaseTimeUs\<close>: \<open>None\<close> stands for its overflow, which is undefined.
\<close>

definition IsConsistent :: "TransportFeedback \<Rightarrow> bool option" where
  "IsConsistent f =
     (let packet_size = kTransportFeedbackHeaderSizeBytes + length (tf_encoded_chunks f) * kChunkSizeBytes +
            (if LastChunk_Empty (tf_last_chunk f) then 0 else kChunkSizeBytes);
          delta_sizes = all_delta_sizes f
      in if tf_num_seq_no f \<noteq> length delta_sizes then Some False
         else if \<not> int32 (tf_base_time_ticks f * kBaseScaleFactor) then None
         else case consistent_deltas (tf_include_timestamps f) delta_sizes (tf_base_seq_no f) (tf_received_packets f)
                     (tf_base_time_ticks f * kBaseScaleFactor) packet_size of
                None \<Rightarrow> Some False
              | Some (timestamp_us, packet_size, ps) \<Rightarrow>
                  Some (ps = [] \<and> timestamp_us = tf_last_timestamp_us f \<and> tf_size_bytes f = packet_size))"

section \<open>Writing\<close>

definition TransportFeedback_BlockLength :: "TransportFeedback \<Rightarrow> nat" where
  "TransportFeedback_BlockLength f = (tf_size_bytes f + 3) div 4 * 4"

definition TransportFeedback_PaddingLength :: "TransportFeedback \<Rightarrow> nat" where
  "TransportFeedback_PaddingLength f = TransportFeedback_BlockLength f - tf_size_bytes f"

definition delta_bytes :: "ReceivedPacket \<Rightarrow> bytes" where
  "delta_bytes p =
     (case rcv_delta_ticks p of
        None \<Rightarrow> []
      | Some delta \<Rightarrow> if delta \<ge> 0 \<and> delta \<le> 0xff then [word_of_int delta] else be16 (word_of_int delta))"

definition padding_bytes :: "nat \<Rightarrow> bytes" where
  "padding_bytes n = (if n > 0 then replicate (n - 1) 0 @ [of_nat n] else [])"

definition feedback_body :: "TransportFeedback \<Rightarrow> bytes list" where
  "feedback_body f =
     [CreateCommonFeedback (tf_sender_ssrc f) (tf_media_ssrc f), be16 (tf_base_seq_no f),
      be16 (of_nat (tf_num_seq_no f)), be24 (word_of_int (tf_base_time_ticks f)), [tf_feedback_seq f]] @
     map be16 (tf_encoded_chunks f) @
     (if LastChunk_Empty (tf_last_chunk f) then [] else [be16 (EncodeLast (tf_last_chunk f))]) @
     (if tf_include_timestamps f then map delta_bytes (tf_received_packets f) else [])"

definition TransportFeedback_Create ::
  "TransportFeedback \<Rightarrow> nat \<Rightarrow> out_buffer \<Rightarrow> out_buffer outcome option" where
  "TransportFeedback_Create f max_length ob =
     (if tf_num_seq_no f = 0 then Some Fails
      else create_block (TransportFeedback_BlockLength f)
             (CreateHeader 15 kRtpfb (HeaderLength (TransportFeedback_BlockLength f))
                (TransportFeedback_PaddingLength f > 0) (tf_pathid f) #
              feedback_body f @ [padding_bytes (TransportFeedback_PaddingLength f)]) max_length ob)"

section \<open>What a chunk stands for\<close>


text \<open>The delta sizes a chunk stands for.\<close>

definition chunk_sizes :: "u16 \<Rightarrow> nat list" where
  "chunk_sizes chunk =
     (if chunk AND 0x8000 = 0 then replicate (unat (chunk AND 0x1fff)) (unat (drop_bit 13 chunk AND 0x03))
      else if chunk AND 0x4000 = 0 then map (\<lambda>i. unat (drop_bit (13 - i) chunk AND 0x01)) [0..<14]
      else map (\<lambda>i. unat (drop_bit (2 * (6 - i)) chunk AND 0x03)) [0..<7])"

lemma take_map_upt: "take n (map f [0..<k]) = map f [0..<min n k]"
  by (rule nth_equalityI) auto

lemma AppendTo_Decode: "AppendTo (Chunk_Decode chunk n c) = take n (chunk_sizes chunk)"
proof -
  have run: "AppendTo (DecodeRunLength chunk n c) =
      take n (replicate (unat (chunk AND 0x1fff)) (unat (drop_bit 13 chunk AND 0x03)))"
    by (cases "min (unat (chunk AND 0x1fff)) n = 0")
      (auto simp: AppendTo_def DecodeRunLength_def Let_def chunk_consts nth_append min.commute)
  have one: "AppendTo (DecodeOneBit chunk n c) = take n (map (\<lambda>i. unat (drop_bit (13 - i) chunk AND 0x01)) [0..<14])"
    unfolding take_map_upt by (simp add: AppendTo_def DecodeOneBit_def Let_def chunk_consts min.commute del: upt_Suc)
  have two: "AppendTo (DecodeTwoBit chunk n c) = take n (map (\<lambda>i. unat (drop_bit (2 * (6 - i)) chunk AND 0x03)) [0..<7])"
    unfolding take_map_upt by (simp add: AppendTo_def DecodeTwoBit_def Let_def chunk_consts min.commute del: upt_Suc)
  show ?thesis by (simp add: Chunk_Decode_def chunk_sizes_def run one two)
qed

lemma bit_foldl_or:
  "bit (foldl (\<lambda>chunk i. chunk OR f i) (c :: u16) xs) k \<longleftrightarrow> bit c k \<or> (\<exists>i \<in> set xs. bit (f i) k)"
  by (induction xs arbitrary: c) (auto simp: bit_or_iff)

lemma small_bit: "x < 2 ^ w \<Longrightarrow> w \<le> k \<Longrightarrow> \<not> bit (of_nat x :: u16) k"
proof -
  assume "x < 2 ^ w" "w \<le> k"
  then have "take_bit w x = x" by (simp add: take_bit_nat_eq_self_iff)
  with \<open>w \<le> k\<close> have "\<not> bit x k" by (metis bit_take_bit_iff linorder_not_le)
  then show ?thesis by (simp add: bit_of_nat_iff)
qed

text \<open>Reading one field of a chunk whose fields are \<open>w\<close> bits wide.\<close>

lemma field_of_foldl:
  fixes g :: "nat \<Rightarrow> nat" and top :: u16
  assumes g: "\<And>i. i < n \<Longrightarrow> g i < 2 ^ w" and j: "j < n" "n \<le> m" "w * m \<le> 16"
    and top: "take_bit (w * m) top = 0"
  shows "unat (take_bit w (drop_bit (w * (m - 1 - j))
    (foldl (\<lambda>chunk i. chunk OR push_bit (w * (m - 1 - i)) (of_nat (g i))) top [0..<n]))) = g j"
proof -
  let ?x = "foldl (\<lambda>chunk i. chunk OR push_bit (w * (m - 1 - i)) (of_nat (g i))) top [0..<n]"
  have "take_bit w (drop_bit (w * (m - 1 - j)) ?x) = (of_nat (g j) :: u16)"
  proof (rule bit_word_eqI)
    fix k assume k: "k < LENGTH(16)"
    note small = small_bit [OF g]
    show "bit (take_bit w (drop_bit (w * (m - 1 - j)) ?x)) k = bit (of_nat (g j) :: u16) k"
    proof (cases "k < w")
      case False
      then show ?thesis using small [OF j(1)] by (simp add: bit_take_bit_iff)
    next
      case True
      let ?p = "w * (m - 1 - j) + k"
      have lt: "w * (m - 1 - j) + w \<le> w * m"
      proof -
        have "m - 1 - j + 1 \<le> m" using j by linarith
        then have "w * (m - 1 - j + 1) \<le> w * m" by (rule mult_le_mono2)
        then show ?thesis by (simp add: algebra_simps)
      qed
      have "\<not> bit (take_bit (w * m) top) ?p" by (simp add: top)
      then have notop: "\<not> bit top ?p" using lt True by (simp add: bit_take_bit_iff)
      have "bit ?x ?p \<longleftrightarrow> (\<exists>i < n. w * (m - 1 - i) \<le> ?p \<and> ?p < 16 \<and> bit (of_nat (g i) :: u16) (?p - w * (m - 1 - i)))"
        using notop by (auto simp: bit_foldl_or bit_push_bit_iff possible_bit_word)
      also have "\<dots> \<longleftrightarrow> bit (of_nat (g j) :: u16) k"
      proof
        assume "\<exists>i < n. w * (m - 1 - i) \<le> ?p \<and> ?p < 16 \<and> bit (of_nat (g i) :: u16) (?p - w * (m - 1 - i))"
        then obtain i where i: "i < n" "w * (m - 1 - i) \<le> ?p" "bit (of_nat (g i) :: u16) (?p - w * (m - 1 - i))" by blast
        from small [OF i(1)] i(3) have "?p - w * (m - 1 - i) < w" by (metis linorder_not_le)
        with i(2) True have "w * (m - 1 - i) < w * (m - 1 - j) + w" "w * (m - 1 - j) < w * (m - 1 - i) + w" by linarith+
        then have "w * (m - 1 - i) < w * Suc (m - 1 - j)" "w * (m - 1 - j) < w * Suc (m - 1 - i)" by simp_all
        then have "m - 1 - i < Suc (m - 1 - j)" "m - 1 - j < Suc (m - 1 - i)"
          by (simp_all only: mult_less_cancel1)
        then have "i = j" using i(1) j by linarith
        with i(3) show "bit (of_nat (g j) :: u16) k" by simp
      next
        assume "bit (of_nat (g j) :: u16) k"
        then show "\<exists>i < n. w * (m - 1 - i) \<le> ?p \<and> ?p < 16 \<and> bit (of_nat (g i) :: u16) (?p - w * (m - 1 - i))"
          using j(1,3) lt True by (intro exI [of _ j]) auto
      qed
      finally show ?thesis using True by (simp add: bit_take_bit_iff bit_drop_bit_eq)
    qed
  qed
  moreover have "g j < 2 ^ 16"
  proof -
    have "w * 1 \<le> w * m" using j by (intro mult_le_mono2) simp
    then have "w \<le> 16" using j(3) by (simp only: mult_1_right)
    then have "(2 :: nat) ^ w \<le> 2 ^ 16" by (intro power_increasing) simp_all
    with g [OF j(1)] show ?thesis by simp
  qed
  ultimately show ?thesis by (simp add: unat_of_nat)
qed


section \<open>Chunks are read back\<close>

lemma and_1_3: "(x :: u16) AND 0x01 = take_bit 1 x" "x AND 0x03 = take_bit 2 x" "x AND 0x1fff = take_bit 13 x"
  by (simp_all add: take_bit_eq_mask mask_eq_exp_minus_1)

lemma bit_const: "bit (0x8000 :: u16) k \<longleftrightarrow> k = 15" "bit (0xc000 :: u16) k \<longleftrightarrow> k = 14 \<or> k = 15"
  "(x :: u16) AND 0x8000 = 0 \<longleftrightarrow> \<not> bit x 15" "x AND 0x4000 = 0 \<longleftrightarrow> \<not> bit x 14"
proof -
  have "(0x8000 :: u16) = 2 ^ 15" by simp
  then show a: "bit (0x8000 :: u16) k \<longleftrightarrow> k = 15" by (simp only: bit_exp_iff possible_bit_word) auto
  have "(0xc000 :: u16) = 2 ^ 15 OR 2 ^ 14" by simp
  then show "bit (0xc000 :: u16) k \<longleftrightarrow> k = 14 \<or> k = 15"
    by (simp only: bit_exp_iff bit_or_iff possible_bit_word) auto
  show "(x :: u16) AND 0x8000 = 0 \<longleftrightarrow> \<not> bit x 15" "x AND 0x4000 = 0 \<longleftrightarrow> \<not> bit x 14"
    using and_exp_eq_0_iff_not_bit [of x 15] and_exp_eq_0_iff_not_bit [of x 14] by simp_all
qed

lemma one_bit_chunk:
  assumes "\<forall>i < lc_size c. lc_delta_sizes c ! i < 2" "lc_size c \<le> 14"
  shows "take (lc_size c) (chunk_sizes (EncodeOneBit c)) = map ((!) (lc_delta_sizes c)) [0..<lc_size c]"
    and "length (chunk_sizes (EncodeOneBit c)) = 14"
proof -
  let ?x = "EncodeOneBit c" and ?g = "\<lambda>i. lc_delta_sizes c ! i"
  have x: "?x = foldl (\<lambda>chunk i. chunk OR push_bit (1 * (14 - 1 - i)) (of_nat (?g i))) 0x8000 [0..<lc_size c]"
    by (simp add: EncodeOneBit_def chunk_consts)
  have field: "unat (drop_bit (13 - j) ?x AND 0x01) = ?g j" if "j < lc_size c" for j
    using field_of_foldl [of "lc_size c" ?g 1 j 14 "0x8000"] assms that
    unfolding x and_1_3 by simp
  have "\<not> bit (of_nat (?g i) :: u16) (Suc i)" if "i < lc_size c" for i
    using small_bit [of "?g i" 1 "Suc i"] assms that by simp
  then have b: "bit ?x 15" "\<not> bit ?x 14"
    using assms by (auto simp: x bit_foldl_or bit_const bit_push_bit_iff)
  then have m: "chunk_sizes ?x = map (\<lambda>i. unat (drop_bit (13 - i) ?x AND 0x01)) [0..<14]"
    by (simp add: chunk_sizes_def bit_const del: upt_Suc)
  show "length (chunk_sizes ?x) = 14" unfolding m by simp
  show "take (lc_size c) (chunk_sizes ?x) = map ((!) (lc_delta_sizes c)) [0..<lc_size c]"
    using field assms(2) unfolding m by (simp only: take_map_upt) (simp add: min_def)
qed

lemma two_bit_chunk:
  assumes "\<forall>i < n. lc_delta_sizes c ! i < 4" "n \<le> 7"
  shows "take n (chunk_sizes (EncodeTwoBit n c)) = map ((!) (lc_delta_sizes c)) [0..<n]"
    and "length (chunk_sizes (EncodeTwoBit n c)) = 7"
proof -
  let ?x = "EncodeTwoBit n c" and ?g = "\<lambda>i. lc_delta_sizes c ! i"
  have x: "?x = foldl (\<lambda>chunk i. chunk OR push_bit (2 * (7 - 1 - i)) (of_nat (?g i))) 0xc000 [0..<n]"
    by (simp add: EncodeTwoBit_def chunk_consts)
  have field: "unat (drop_bit (2 * (6 - j)) ?x AND 0x03) = ?g j" if "j < n" for j
    using field_of_foldl [of n ?g 2 j 7 "0xc000"] assms that
    unfolding x and_1_3 by simp
  have b: "bit ?x 15" "bit ?x 14" by (simp_all add: x bit_foldl_or bit_const)
  then have m: "chunk_sizes ?x = map (\<lambda>i. unat (drop_bit (2 * (6 - i)) ?x AND 0x03)) [0..<7]"
    by (simp add: chunk_sizes_def bit_const del: upt_Suc)
  show "length (chunk_sizes ?x) = 7" unfolding m by simp
  show "take n (chunk_sizes ?x) = map ((!) (lc_delta_sizes c)) [0..<n]"
    using field assms(2) unfolding m by (simp only: take_map_upt) (simp add: min_def)
qed

lemma run_length_chunk:
  assumes "lc_size c \<le> 0x1fff" "lc_delta_sizes c ! 0 < 4"
  shows "chunk_sizes (EncodeRunLength c) = replicate (lc_size c) (lc_delta_sizes c ! 0)"
proof -
  let ?x = "EncodeRunLength c" and ?d = "of_nat (lc_delta_sizes c ! 0) :: u16" and ?n = "of_nat (lc_size c) :: u16"
  have n: "k < 13" if "bit ?n k" for k
    using small_bit [of "lc_size c" 13 k] assms(1) that by (cases "k < 13") simp_all
  have d: "k < 2" if "bit ?d k" for k
    using small_bit [of "lc_delta_sizes c ! 0" 2 k] assms(2) that by (cases "k < 2") simp_all
  have "take_bit 13 ?x = ?n"
    by (rule bit_word_eqI)
      (auto simp: EncodeRunLength_def bit_take_bit_iff bit_or_iff bit_push_bit_iff dest: n)
  moreover have "take_bit 2 (drop_bit 13 ?x) = ?d"
    by (rule bit_word_eqI)
      (auto simp: EncodeRunLength_def bit_take_bit_iff bit_drop_bit_eq bit_or_iff bit_push_bit_iff dest: d n)
  moreover have "\<not> bit ?x 15"
    using n [of 15] d [of 2] by (auto simp: EncodeRunLength_def bit_or_iff bit_push_bit_iff)
  ultimately show ?thesis
    using assms by (simp add: chunk_sizes_def bit_const and_1_3 unat_of_nat)
qed


section \<open>\<open>LastChunk\<close> implements a list of delta sizes\<close>

text \<open>
  The invariant of the open chunk. The flag \<open>all_same_\<close> is only set when the recorded sizes are
  equal, \<open>has_large_delta_\<close> is set when one of them is large, and more than seven sizes are kept
  only when they are equal or need one bit each; all indices are inside the array.
\<close>

definition lc_inv :: "LastChunk \<Rightarrow> bool" where
  "lc_inv c \<longleftrightarrow>
     length (lc_delta_sizes c) = 14 \<and> lc_size c \<le> kMaxRunLengthCapacity \<and>
     set (take (lc_size c) (lc_delta_sizes c)) \<subseteq> {0, 1, 2} \<and>
     (lc_all_same c \<longrightarrow>
        take (lc_size c) (lc_delta_sizes c) = replicate (min (lc_size c) 14) (lc_delta_sizes c ! 0)) \<and>
     (\<not> lc_has_large_delta c \<longrightarrow> 2 \<notin> set (take (lc_size c) (lc_delta_sizes c))) \<and>
     (\<not> lc_all_same c \<longrightarrow> lc_size c \<le> 14) \<and>
     (7 < lc_size c \<longrightarrow> lc_all_same c \<or> \<not> lc_has_large_delta c)"

lemma lc_inv_Clear: "length (lc_delta_sizes c) = 14 \<Longrightarrow> lc_inv (LastChunk_Clear c)"
  by (simp add: lc_inv_def LastChunk_Clear_def)

lemma AppendTo_Clear [simp]: "AppendTo (LastChunk_Clear c) = []"
  by (simp add: AppendTo_def LastChunk_Clear_def)

lemma length_AppendTo: "lc_inv c \<Longrightarrow> length (AppendTo c) = lc_size c"
  by (auto simp: AppendTo_def lc_inv_def)

text \<open>As long as the array holds all sizes, they are its first elements.\<close>

lemma AppendTo_take: "lc_inv c \<Longrightarrow> lc_size c \<le> 14 \<Longrightarrow> AppendTo c = take (lc_size c) (lc_delta_sizes c)"
  by (simp add: AppendTo_def lc_inv_def min_def)

lemma AppendTo_sizes: "lc_inv c \<Longrightarrow> set (AppendTo c) \<subseteq> {0, 1, 2}"
proof (cases "lc_size c = 0")
  case False
  assume "lc_inv c"
  then have "lc_delta_sizes c ! 0 \<in> set (take (lc_size c) (lc_delta_sizes c))"
    using False by (auto simp: lc_inv_def in_set_conv_nth intro!: exI [of _ 0])
  with \<open>lc_inv c\<close> show ?thesis by (auto simp: AppendTo_def lc_inv_def split: if_splits)
qed (simp add: AppendTo_def)

lemma take_Suc_update:
  "n < length xs \<Longrightarrow> take (Suc n) (xs[n := d]) = take n xs @ [d]"
  by (simp add: take_Suc_conv_app_nth)

lemma Add_in_array:
  assumes c: "lc_inv c" and d: "d \<in> {0, 1, 2}" and n: "lc_size c < 14"
    and a: "lc_size c < 7 \<or> lc_all_same c \<and> lc_delta_sizes c ! 0 = d \<or> \<not> lc_has_large_delta c \<and> d \<noteq> 2"
  shows "lc_inv (LastChunk_Add d c) \<and> AppendTo (LastChunk_Add d c) = AppendTo c @ [d]"
proof -
  let ?n = "lc_size c" and ?xs = "lc_delta_sizes c"
  let ?a = "?xs[?n := d]"
  have add: "LastChunk_Add d c = c\<lparr>lc_delta_sizes := ?a, lc_size := Suc ?n,
      lc_all_same := (lc_all_same c \<and> d = ?a ! 0), lc_has_large_delta := (lc_has_large_delta c \<or> d = 2)\<rparr>"
    using n by (simp add: LastChunk_Add_def chunk_consts)
  have len: "length ?xs = 14" using c by (simp add: lc_inv_def)
  have t: "take (Suc ?n) ?a = take ?n ?xs @ [d]" using n len by (intro take_Suc_update) simp
  have same: "take (Suc ?n) ?a = replicate (Suc ?n) (?a ! 0)" if "lc_all_same c" "d = ?a ! 0"
  proof (cases "?n = 0")
    case False
    then have "?a ! 0 = ?xs ! 0" using len n by (simp add: nth_list_update)
    then show ?thesis using that c n t by (simp add: lc_inv_def replicate_append_same)
  qed (use t that in simp)
  have inv: "lc_inv (LastChunk_Add d c)"
    unfolding lc_inv_def add using c d n a len same
    by (simp add: t lc_inv_def kMaxRunLengthCapacity_def) auto
  have "AppendTo (LastChunk_Add d c) = take (Suc ?n) ?a"
    using AppendTo_take [OF inv] n by (simp add: add)
  with t inv AppendTo_take [OF c] n show ?thesis by simp
qed

lemma Add_beyond_array:
  assumes "lc_inv c" "14 \<le> lc_size c" "lc_size c < 0x1fff" "lc_all_same c" "lc_delta_sizes c ! 0 = d"
  shows "lc_inv (LastChunk_Add d c) \<and> AppendTo (LastChunk_Add d c) = AppendTo c @ [d]"
proof -
  have "LastChunk_Add d c = c\<lparr>lc_size := Suc (lc_size c), lc_all_same := True,
      lc_has_large_delta := (lc_has_large_delta c \<or> d = 2)\<rparr>"
    using assms(2,4,5) by (simp add: LastChunk_Add_def chunk_consts)
  moreover have "take (Suc (lc_size c)) (lc_delta_sizes c) = lc_delta_sizes c"
    "take (lc_size c) (lc_delta_sizes c) = lc_delta_sizes c"
    using assms(1,2) by (simp_all add: lc_inv_def)
  ultimately show ?thesis
    using assms by (auto simp: lc_inv_def AppendTo_def chunk_consts replicate_append_same)
qed

lemma LastChunk_Add_refines:
  assumes "lc_inv c" "d \<in> {0, 1, 2}" "CanAdd d c"
  shows "lc_inv (LastChunk_Add d c) \<and> AppendTo (LastChunk_Add d c) = AppendTo c @ [d]"
proof (cases "lc_size c < 14")
  case True
  then show ?thesis using assms by (intro Add_in_array) (auto simp: CanAdd_def chunk_consts)
next
  case False
  then show ?thesis using assms by (intro Add_beyond_array) (auto simp: CanAdd_def chunk_consts)
qed


definition add_all :: "nat list \<Rightarrow> LastChunk \<Rightarrow> LastChunk" where
  "add_all ds c = foldl (\<lambda>c d. LastChunk_Add d c) c ds"

lemma add_all_refines:
  "lc_inv c \<Longrightarrow> lc_size c + length ds \<le> 7 \<Longrightarrow> set ds \<subseteq> {0, 1, 2} \<Longrightarrow>
   lc_inv (add_all ds c) \<and> AppendTo (add_all ds c) = AppendTo c @ ds"
proof (induction ds arbitrary: c)
  case (Cons d ds)
  have "lc_inv (LastChunk_Add d c) \<and> AppendTo (LastChunk_Add d c) = AppendTo c @ [d]"
    using Cons.prems by (intro LastChunk_Add_refines) (auto simp: CanAdd_def chunk_consts)
  moreover have "lc_size (LastChunk_Add d c) = lc_size c + 1" by (simp add: LastChunk_Add_def Let_def)
  ultimately show ?case using Cons by (simp add: add_all_def)
qed (simp add: add_all_def)

text \<open>Moving the remaining sizes to the front is adding them to an empty chunk.\<close>

lemma emit_shift_add_all:
  "length (lc_delta_sizes c) = 14 \<Longrightarrow> lc_size c + n \<le> 7 \<Longrightarrow>
   emit_shift (lc_size c) n (c\<lparr>lc_size := m\<rparr>) =
     (add_all (take n (drop (7 + lc_size c) (lc_delta_sizes c))) c)\<lparr>lc_size := m\<rparr>"
proof (induction n arbitrary: c)
  case (Suc n)
  let ?d = "lc_delta_sizes c ! (7 + lc_size c)"
  have t: "take (Suc n) (drop (7 + lc_size c) (lc_delta_sizes c)) =
      ?d # take n (drop (7 + Suc (lc_size c)) (lc_delta_sizes c))"
    using Suc.prems by (simp add: drop_eq_Cons_nth)
  let ?c = "LastChunk_Add ?d c"
  have c: "lc_size ?c = Suc (lc_size c)" "length (lc_delta_sizes ?c) = 14"
    "drop (7 + Suc (lc_size c)) (lc_delta_sizes ?c) = drop (7 + Suc (lc_size c)) (lc_delta_sizes c)"
    using Suc.prems by (simp_all add: LastChunk_Add_def Let_def)
  have "emit_shift (lc_size c) (Suc n) (c\<lparr>lc_size := m\<rparr>) = emit_shift (lc_size ?c) n (?c\<lparr>lc_size := m\<rparr>)"
    using Suc.prems by (cases c) (simp add: LastChunk_Add_def chunk_consts Let_def)
  also have "\<dots> = (add_all (take n (drop (7 + lc_size ?c) (lc_delta_sizes ?c))) ?c)\<lparr>lc_size := m\<rparr>"
    using Suc.prems c by (intro Suc.IH) simp_all
  finally show ?case using c t by (simp add: add_all_def)
qed (simp add: add_all_def)

lemma map_nth_take: "n \<le> length xs \<Longrightarrow> map ((!) xs) [0..<n] = take n xs"
  by (rule nth_equalityI) auto

lemma nth_in_take: "i < n \<Longrightarrow> i < length xs \<Longrightarrow> xs ! i \<in> set (take n xs)"
  by (metis in_set_conv_nth length_take min_less_iff_conj nth_take)

lemma lc_inv_values:
  assumes "lc_inv c" "i < lc_size c" "i < 14"
  shows "lc_delta_sizes c ! i \<in> {0, 1, 2}" "\<not> lc_has_large_delta c \<Longrightarrow> lc_delta_sizes c ! i < 2"
proof -
  have "length (lc_delta_sizes c) = 14" using assms(1) by (simp add: lc_inv_def)
  then have m: "lc_delta_sizes c ! i \<in> set (take (lc_size c) (lc_delta_sizes c))"
    using assms(2,3) by (simp add: nth_in_take)
  then show s: "lc_delta_sizes c ! i \<in> {0, 1, 2}" using assms(1) unfolding lc_inv_def by blast
  assume "\<not> lc_has_large_delta c"
  then have "lc_delta_sizes c ! i \<noteq> 2" using assms(1) m unfolding lc_inv_def by metis
  with s show "lc_delta_sizes c ! i < 2" by auto
qed

lemma run_length_content: "lc_inv c \<Longrightarrow> 0 < lc_size c \<Longrightarrow> lc_all_same c \<Longrightarrow> chunk_sizes (EncodeRunLength c) = AppendTo c"
  using lc_inv_values(1) [of c 0] run_length_chunk [of c] by (auto simp: lc_inv_def AppendTo_def chunk_consts)

text \<open>
  A chunk that cannot take one more size is emitted: the emitted chunk stands for the first
  sizes, the open chunk keeps the others and has room again.
\<close>

lemma one_bit_content:
  assumes "lc_inv c" "lc_size c \<le> 14" "\<not> lc_has_large_delta c"
  shows "take (lc_size c) (chunk_sizes (EncodeOneBit c)) = AppendTo c" "length (chunk_sizes (EncodeOneBit c)) = 14"
proof -
  have "\<forall>i < lc_size c. lc_delta_sizes c ! i < 2" using lc_inv_values(2) [OF assms(1)] assms(2,3) by simp
  note b = one_bit_chunk [OF this assms(2)]
  have "length (lc_delta_sizes c) = 14" using assms(1) by (simp add: lc_inv_def)
  with b(1) assms(2) show "take (lc_size c) (chunk_sizes (EncodeOneBit c)) = AppendTo c"
    by (simp add: map_nth_take AppendTo_take [OF assms(1,2)])
  show "length (chunk_sizes (EncodeOneBit c)) = 14" by (rule b(2))
qed

lemma two_bit_content:
  assumes "lc_inv c" "n \<le> lc_size c" "n \<le> 7"
  shows "take n (chunk_sizes (EncodeTwoBit n c)) = take n (lc_delta_sizes c)" "length (chunk_sizes (EncodeTwoBit n c)) = 7"
proof -
  have "lc_delta_sizes c ! i < 4" if "i < n" for i
    using lc_inv_values(1) [of c i] assms that by auto
  then have "\<forall>i < n. lc_delta_sizes c ! i < 4" by blast
  note b = two_bit_chunk [OF this assms(3)]
  have "length (lc_delta_sizes c) = 14" using assms(1) by (simp add: lc_inv_def)
  with b(1) assms(3) show "take n (chunk_sizes (EncodeTwoBit n c)) = take n (lc_delta_sizes c)"
    by (simp add: map_nth_take)
  show "length (chunk_sizes (EncodeTwoBit n c)) = 7" by (rule b(2))
qed

lemma emit_two_bit:
  assumes c: "lc_inv c" and n: "7 \<le> lc_size c" "lc_size c < 14"
  defines "c' \<equiv> emit_shift 0 (lc_size c - 7) (c\<lparr>lc_size := lc_size c - 7, lc_all_same := True, lc_has_large_delta := False\<rparr>)"
  shows "lc_inv c' \<and> AppendTo c' = drop 7 (AppendTo c) \<and> lc_size c' < 7"
proof -
  let ?n = "lc_size c - 7" and ?c = "LastChunk_Clear c"
  let ?ds = "take ?n (drop 7 (lc_delta_sizes c))"
  have len: "length (lc_delta_sizes c) = 14" using c by (simp add: lc_inv_def)
  have ap: "AppendTo c = take (lc_size c) (lc_delta_sizes c)" using AppendTo_take [OF c] n by simp
  then have ds: "?ds = drop 7 (AppendTo c)" by (simp add: drop_take)
  have "set (AppendTo c) \<subseteq> {0, 1, 2}" by (rule AppendTo_sizes [OF c])
  then have "set ?ds \<subseteq> {0, 1, 2}" unfolding ds by (meson order_trans set_drop_subset)
  then have a: "lc_inv (add_all ?ds ?c)" "AppendTo (add_all ?ds ?c) = ?ds"
    using add_all_refines [OF lc_inv_Clear [OF len], of ?ds] n len
    by (auto simp: LastChunk_Clear_def AppendTo_def)
  have "c' = (add_all ?ds ?c)\<lparr>lc_size := ?n\<rparr>"
    using emit_shift_add_all [of ?c ?n ?n] n len unfolding c'_def by (cases c) (simp add: LastChunk_Clear_def)
  moreover have "lc_size (add_all ?ds ?c) = ?n"
    using length_AppendTo [OF a(1)] a(2) n len by simp
  ultimately have "c' = add_all ?ds ?c" by (metis (no_types) LastChunk.surjective LastChunk.update_convs(2) LastChunk.select_convs(2))
  with a ds n \<open>lc_size (add_all ?ds ?c) = ?n\<close> show ?thesis by simp
qed

lemma Emit_refines:
  assumes c: "lc_inv c" and full: "\<not> CanAdd d c" and e: "Emit c = (chunk, c')"
  shows "lc_inv c' \<and> AppendTo c = chunk_sizes chunk @ AppendTo c' \<and> lc_size c' < 7 \<and> 7 \<le> length (chunk_sizes chunk)"
proof -
  have len: "length (lc_delta_sizes c) = 14" and n: "7 \<le> lc_size c"
    using c full by (auto simp: lc_inv_def CanAdd_def chunk_consts)
  consider (run) "lc_all_same c" | (one) "\<not> lc_all_same c" "lc_size c = 14" | (two) "\<not> lc_all_same c" "lc_size c < 14"
    using c unfolding lc_inv_def by linarith
  then show ?thesis
  proof cases
    case run
    then show ?thesis
      using e run_length_content [OF c] n lc_inv_Clear [OF len] by (auto simp: Emit_def LastChunk_Clear_def AppendTo_def)
  next
    case one
    then have "\<not> lc_has_large_delta c" using c by (simp add: lc_inv_def)
    note b = one_bit_content [OF c _ this]
    have "chunk_sizes (EncodeOneBit c) = AppendTo c" using b one by simp
    then show ?thesis
      using e one b(2) lc_inv_Clear [OF len] by (auto simp: Emit_def LastChunk_Clear_def AppendTo_def chunk_consts)
  next
    case two
    have "chunk_sizes (EncodeTwoBit 7 c) = take 7 (AppendTo c)" "length (chunk_sizes (EncodeTwoBit 7 c)) = 7"
      using two_bit_content [OF c, of 7] n two AppendTo_take [OF c] by simp_all
    then show ?thesis
      using e two emit_two_bit [OF c n two(2)] by (auto simp: Emit_def chunk_consts)
  qed
qed

text \<open>The chunk written last stands for the sizes of the open chunk, filled up with zeros.\<close>

lemma EncodeLast_content:
  assumes c: "lc_inv c" and n: "0 < lc_size c"
  shows "take (lc_size c) (chunk_sizes (EncodeLast c)) = AppendTo c"
proof -
  consider (run) "lc_all_same c" | (two) "\<not> lc_all_same c" "lc_size c \<le> 7"
    | (one) "\<not> lc_all_same c" "7 < lc_size c" "lc_size c \<le> 14" "\<not> lc_has_large_delta c"
    using c unfolding lc_inv_def by linarith
  then show ?thesis
  proof cases
    case run
    then show ?thesis
      using run_length_content [OF c n] length_AppendTo [OF c] by (simp add: EncodeLast_def)
  next
    case two
    then show ?thesis
      using two_bit_content(1) [OF c, of "lc_size c"] AppendTo_take [OF c] by (simp add: EncodeLast_def chunk_consts)
  next
    case one
    then show ?thesis using one_bit_content(1) [OF c] by (simp add: EncodeLast_def chunk_consts)
  qed
qed

end
