(* ===== verification/StdMap.thy ===== *)
theory StdMap
  imports Prelude
begin

text \<open>
  \<open>std::map\<close> as an association list in ascending order of the keys, for the maps the sources iterate
  over. The locale \<open>ordered_map\<close> states what the clients rely on.
\<close>

type_synonym ('k, 'v) smap = "('k \<times> 'v) list"

fun sm_put :: "'k::linorder \<Rightarrow> 'v \<Rightarrow> ('k, 'v) smap \<Rightarrow> ('k, 'v) smap" where
  "sm_put k v [] = [(k, v)]"
| "sm_put k v ((k', v') # m) =
     (if k < k' then (k, v) # (k', v') # m
      else if k = k' then (k, v) # m
      else (k', v') # sm_put k v m)"

definition sm_erase :: "'k \<Rightarrow> ('k, 'v) smap \<Rightarrow> ('k, 'v) smap" where
  "sm_erase k m = filter (\<lambda>x. fst x \<noteq> k) m"

definition sm_vals :: "('v \<Rightarrow> 'w) \<Rightarrow> ('k, 'v) smap \<Rightarrow> ('k, 'w) smap" where
  "sm_vals f m = map (\<lambda>(k, v). (k, f v)) m"

definition sm_ok :: "('k::linorder, 'v) smap \<Rightarrow> bool" where
  "sm_ok m \<longleftrightarrow> sorted_wrt (<) (map fst m)"

locale ordered_map =
  fixes ok :: "'m \<Rightarrow> bool"
    and get :: "'m \<Rightarrow> 'k \<Rightarrow> 'v option"
    and put :: "'k \<Rightarrow> 'v \<Rightarrow> 'm \<Rightarrow> 'm"
    and erase :: "'k \<Rightarrow> 'm \<Rightarrow> 'm"
    and empty :: 'm
  assumes get_empty: "get empty = (\<lambda>_. None)"
    and get_put: "ok m \<Longrightarrow> get (put k v m) = (get m)(k \<mapsto> v)"
    and get_erase: "get (erase k m) = (get m)(k := None)"
    and ok_empty: "ok empty"
    and ok_put: "ok m \<Longrightarrow> ok (put k v m)"
    and ok_erase: "ok m \<Longrightarrow> ok (erase k m)"
begin

lemma put_put: "ok m \<Longrightarrow> get (put k v (put k w m)) = get (put k v m)"
  by (simp add: get_put ok_put)

lemma put_commute: "ok m \<Longrightarrow> k \<noteq> l \<Longrightarrow> get (put k v (put l w m)) = get (put l w (put k v m))"
  by (simp add: get_put ok_put fun_upd_twist)

lemma erase_put: "ok m \<Longrightarrow> get (erase k (put k v m)) = get (erase k m)"
  by (simp add: get_put get_erase)

end

lemma fst_set_sm_put: "fst ` set (sm_put k v m) = insert k (fst ` set m)"
  by (induction k v m rule: sm_put.induct) (simp_all add: insert_commute)

lemma set_sm_put: "set (sm_put k v m) \<subseteq> insert (k, v) (set m)"
  by (induction k v m rule: sm_put.induct) auto

lemma map_of_sm_put: "sm_ok m \<Longrightarrow> map_of (sm_put k v m) = (map_of m)(k \<mapsto> v)"
proof (induction m)
  case (Cons x m)
  obtain k' v' where x: "x = (k', v')" by fastforce
  have ok: "sm_ok m" "\<forall>y \<in> fst ` set m. k' < y" using Cons.prems by (auto simp: sm_ok_def x)
  have "map_of m k = None" if "k < k'"
    using ok(2) that by (auto simp: map_of_eq_None_iff)
  then show ?case using Cons.IH [OF ok(1)] by (auto simp: x fun_eq_iff)
qed simp

lemma sm_ok_put: "sm_ok m \<Longrightarrow> sm_ok (sm_put k v m)"
proof (induction m)
  case (Cons x m)
  obtain k' v' where x: "x = (k', v')" by fastforce
  have ok: "sm_ok m" "\<forall>y \<in> fst ` set m. k' < y" using Cons.prems by (auto simp: sm_ok_def x)
  have "\<forall>y \<in> fst ` set (sm_put k v m). k' < y" if "k' < k"
    using ok(2) that by (simp add: fst_set_sm_put)
  then show ?case using Cons ok by (auto simp: x sm_ok_def)
qed (simp add: sm_ok_def)

interpretation sm: ordered_map sm_ok map_of sm_put sm_erase "[]"
proof
  fix k :: 'a and m :: "('a, 'b) smap"
  show "map_of (sm_erase k m) = (map_of m)(k := None)"
    by (induction m) (auto simp: sm_erase_def)
  show "sm_ok m \<Longrightarrow> sm_ok (sm_erase k m)"
    by (induction m) (auto simp: sm_erase_def sm_ok_def)
qed (simp_all add: map_of_sm_put sm_ok_put, simp_all add: sm_ok_def)

lemma map_of_sm_vals: "map_of (sm_vals f m) = (\<lambda>k. map_option f (map_of m k))"
  by (induction m) (auto simp: sm_vals_def)

lemma sm_ok_vals: "sm_ok m \<Longrightarrow> sm_ok (sm_vals f m)"
  by (simp add: sm_ok_def sm_vals_def o_def case_prod_beta)

end
