(* ===== verification/RtcpReceiver.thy ===== *)
theory RtcpReceiver
  imports MpCollector RtcpXr RtcpNack TransportFeedback StdMap
begin

text \<open>
  The receiver of RTCP packets, \<open>modules/rtp_rtcp/source/rtcp_receiver.cc\<close>: it splits a compound packet
  into blocks, dispatches each to its handler, keeps report blocks, sender times and round trip
  times for each of the two paths, and calls its observers. The multipath signals of the other
  side arrive here, in application packets, and go to \<open>MpCollector\<close>. Calls of observers
  are events; which observers are registered is part of the configuration. The clock does not
  move during a call. \<open>received_rrtrs_ssrc_it_\<close>, an index of \<open>received_rrtrs_\<close> by ssrc, is not kept
  separately; the time of the last warning only serves logging. The bounding set of
  \<open>tmmbr_help.cc\<close>, computed in single precision, is a parameter.
\<close>

section \<open>Time\<close>

record clock_reading =
  ck_us :: int
  ck_ms :: int
  ck_utc_us :: int
  ck_ntp_offset_ms :: int

definition TimeMicrosToNtp :: "clock_reading \<Rightarrow> NtpTime" where
  "TimeMicrosToNtp ck =
     (let time_ntp_us = ck_us ck + ck_ntp_offset_ms ck * 1000;
          ntp_seconds = word_of_int (time_ntp_us sdiv 1000000);
          us_fractions = time_ntp_us smod 1000000;
          ntp_fractions = word_of_int (us_fractions * 2 ^ 32 sdiv 1000000)
      in NtpTime_Set ntp_seconds ntp_fractions)"

definition CompactNtp :: "NtpTime \<Rightarrow> u32" where
  "CompactNtp ntp = push_bit 16 (ntp_seconds ntp) OR drop_bit 16 (ntp_fractions ntp)"

definition DivideRoundToNearest :: "int \<Rightarrow> int \<Rightarrow> int" where
  "DivideRoundToNearest dividend divisor =
     dividend sdiv divisor + (if dividend smod divisor > (divisor - 1) sdiv 2 then 1 else 0)"

definition CompactNtpRttToMs :: "u32 \<Rightarrow> int" where
  "CompactNtpRttToMs compact_ntp_interval =
     (if compact_ntp_interval > 0x80000000 then 1
      else max (DivideRoundToNearest (uint compact_ntp_interval * 1000) (2 ^ 16)) 1)"

section \<open>What is kept of report blocks and requests\<close>

record report_block_info =
  ri_sender_ssrc :: u32
  ri_source_ssrc :: u32
  ri_fraction_lost :: u8
  ri_packets_lost :: int
  ri_extended_highest_sequence_number :: u32
  ri_jitter :: u32
  ri_last_sender_report_timestamp :: u32
  ri_delay_since_last_sender_report :: u32
  ri_extended_highest_sequence_number_p :: u32

record ReportBlockData =
  rd_report_block :: report_block_info
  rd_timestamp_utc_us :: int
  rd_last_rtt_ms :: int
  rd_min_rtt_ms :: int
  rd_max_rtt_ms :: int
  rd_sum_rtt_ms :: int
  rd_num_rtts :: nat

text \<open>
  The constructor leaves \<open>extended_highest_sequence_number_p\<close> uninitialised; it is written before it is read.
\<close>

definition ReportBlockData_new :: ReportBlockData where
  "ReportBlockData_new =
     \<lparr>rd_report_block = \<lparr>ri_sender_ssrc = 0, ri_source_ssrc = 0, ri_fraction_lost = 0, ri_packets_lost = 0,
        ri_extended_highest_sequence_number = 0, ri_jitter = 0, ri_last_sender_report_timestamp = 0,
        ri_delay_since_last_sender_report = 0, ri_extended_highest_sequence_number_p = 0\<rparr>,
      rd_timestamp_utc_us = 0, rd_last_rtt_ms = 0, rd_min_rtt_ms = 0, rd_max_rtt_ms = 0, rd_sum_rtt_ms = 0,
      rd_num_rtts = 0\<rparr>"

definition SetReportBlock :: "report_block_info \<Rightarrow> int \<Rightarrow> ReportBlockData \<Rightarrow> ReportBlockData" where
  "SetReportBlock report_block timestamp_utc_us d =
     d\<lparr>rd_report_block := report_block, rd_timestamp_utc_us := timestamp_utc_us\<rparr>"

definition AddRoundTripTimeSample :: "int \<Rightarrow> ReportBlockData \<Rightarrow> ReportBlockData" where
  "AddRoundTripTimeSample rtt_ms d =
     (let d = (if rtt_ms > rd_max_rtt_ms d then d\<lparr>rd_max_rtt_ms := rtt_ms\<rparr> else d);
          d = (if rd_num_rtts d = 0 \<or> rtt_ms < rd_min_rtt_ms d then d\<lparr>rd_min_rtt_ms := rtt_ms\<rparr> else d)
      in d\<lparr>rd_last_rtt_ms := rtt_ms, rd_sum_rtt_ms := rd_sum_rtt_ms d + rtt_ms, rd_num_rtts := rd_num_rtts d + 1\<rparr>)"

record RtcpNackStats =
  ns_max_sequence_number :: u16
  ns_requests :: u32
  ns_unique_requests :: u32

definition ReportRequest :: "u16 \<Rightarrow> RtcpNackStats \<Rightarrow> RtcpNackStats" where
  "ReportRequest sequence_number s =
     (let s = (if ns_requests s = 0 \<or> IsNewerSequenceNumber sequence_number (ns_max_sequence_number s)
               then s\<lparr>ns_max_sequence_number := sequence_number, ns_unique_requests := ns_unique_requests s + 1\<rparr>
               else s)
      in s\<lparr>ns_requests := ns_requests s + 1\<rparr>)"

record RtcpPacketTypeCounter =
  pc_first_packet_time_ms :: int
  pc_nack_packets :: u32
  pc_fir_packets :: u32
  pc_pli_packets :: u32
  pc_nack_requests :: u32
  pc_unique_nack_requests :: u32

record TimedTmmbrItem =
  tt_tmmbr_item :: TmmbItem
  tt_last_updated_ms :: int

record TmmbrInformation =
  tb_last_time_received_ms :: int
  tb_ready_for_delete :: bool
  tb_tmmbn :: "TmmbItem list"
  tb_tmmbr :: "(u32, TimedTmmbrItem) smap"

record RrtrInformation =
  rn_ssrc :: u32
  rn_received_remote_mid_ntp_time :: u32
  rn_local_receive_mid_ntp_time :: u32

record LastFirStatus =
  lf_request_ms :: int
  lf_sequence_number :: u8

record VideoBitrateAllocation =
  va_bitrates :: "nat \<times> nat \<rightharpoonup> u32"
  va_sum :: int

definition SetBitrate :: "nat \<Rightarrow> nat \<Rightarrow> u32 \<Rightarrow> VideoBitrateAllocation \<Rightarrow> VideoBitrateAllocation" where
  "SetBitrate spatial_index temporal_index bitrate_bps a =
     (let new_bitrate_sum_bps = va_sum a -
            (case va_bitrates a (spatial_index, temporal_index) of None \<Rightarrow> 0 | Some r \<Rightarrow> uint r) + uint bitrate_bps
      in if new_bitrate_sum_bps > 2 ^ 32 - 1 then a
         else a\<lparr>va_bitrates := (va_bitrates a)((spatial_index, temporal_index) \<mapsto> bitrate_bps),
                va_sum := new_bitrate_sum_bps\<rparr>)"

section \<open>State\<close>

record receiver_config =
  rc_receiver_only :: bool
  rc_main_ssrc :: u32
  rc_registered_ssrcs :: "u32 list"
  rc_report_interval_ms :: int
  rc_bandwidth_observer :: bool
  rc_intra_frame_observer :: bool
  rc_loss_notification_observer :: bool
  rc_network_state_estimate_observer :: bool
  rc_transport_feedback_observer :: bool
  rc_bitrate_allocation_observer :: bool
  rc_stats_callback :: bool
  rc_cname_callback :: bool
  rc_report_block_data_observer :: bool
  rc_packet_type_counter_observer :: bool

datatype rtcp_event =
    EvRequestSendReport
  | EvReceivedNack "u16 list" int
  | EvIntraFrameRequest u32
  | EvLossNotification u32 u16 u16 bool
  | EvEstimatedBitrate u32
  | EvReceiverReport "report_block_info list" int int int
  | EvReportBlocks "report_block_info list"
  | EvTransportFeedback TransportFeedback
  | EvNetworkEstimate NetworkStateEstimate
  | EvBitrateAllocation VideoBitrateAllocation
  | EvStatistics report_block_info
  | EvReportBlockData ReportBlockData
  | EvCname u32 bytes
  | EvPacketTypes u32 RtcpPacketTypeCounter
  | EvSetTmmbn "TmmbItem list"

type_synonym report_block_map = "(u32, (u32, ReportBlockData) smap) smap"

record rtcp_receiver =
  rv_remote_ssrc :: u32
  rv_remote_sender_ntp_time_p :: NtpTime
  rv_remote_sender_rtp_time_p :: u32
  rv_last_received_sr_ntp_p :: NtpTime
  rv_remote_sender_ntp_time_s :: NtpTime
  rv_remote_sender_rtp_time_s :: u32
  rv_last_received_sr_ntp_s :: NtpTime
  rv_received_rrtrs :: "RrtrInformation list"
  rv_xr_rrtr_status :: bool
  rv_xr_rr_rtt_ms :: int
  rv_oldest_tmmbr_info_ms :: int
  rv_tmmbr_infos :: "(u32, TmmbrInformation) smap"
  rv_received_report_blocks_p :: report_block_map
  rv_received_report_blocks_s :: report_block_map
  rv_last_fir :: "u32 \<rightharpoonup> LastFirStatus"
  rv_received_cnames :: "u32 \<rightharpoonup> bytes"
  rv_last_received_rb_ms_p :: int
  rv_last_received_rb_ms_s :: int
  rv_last_increased_sequence_number_ms :: int
  rv_packet_type_counter :: RtcpPacketTypeCounter
  rv_nack_stats :: RtcpNackStats
  rv_num_skipped_packets :: nat
  rv_second_feedback :: "TransportFeedback option"
  rv_mp :: mp_collector
  rv_events :: "rtcp_event list"

record PacketInformation =
  pk_packet_type_flags :: u32
  pk_remote_ssrc :: u32
  pk_nack_sequence_numbers :: "u16 list"
  pk_report_blocks :: "report_block_info list"
  pk_report_block_datas :: "ReportBlockData list"
  pk_rtt_ms :: int
  pk_receiver_estimated_max_bitrate_bps :: u32
  pk_pathid :: int
  pk_transport_feedback :: "TransportFeedback option"
  pk_target_bitrate_allocation :: "VideoBitrateAllocation option"
  pk_network_state_estimate :: "NetworkStateEstimate option"
  pk_loss_notification :: "LossNotification option"

definition PacketInformation_new :: PacketInformation where
  "PacketInformation_new =
     \<lparr>pk_packet_type_flags = 0, pk_remote_ssrc = 0, pk_nack_sequence_numbers = [], pk_report_blocks = [],
      pk_report_block_datas = [], pk_rtt_ms = 0, pk_receiver_estimated_max_bitrate_bps = 0, pk_pathid = - 1,
      pk_transport_feedback = None, pk_target_bitrate_allocation = None, pk_network_state_estimate = None,
      pk_loss_notification = None\<rparr>"

definition rtcp_receiver_init :: "mp_collector \<Rightarrow> rtcp_receiver" where
  "rtcp_receiver_init m =
     \<lparr>rv_remote_ssrc = 0, rv_remote_sender_ntp_time_p = 0, rv_remote_sender_rtp_time_p = 0,
      rv_last_received_sr_ntp_p = 0, rv_remote_sender_ntp_time_s = 0, rv_remote_sender_rtp_time_s = 0,
      rv_last_received_sr_ntp_s = 0, rv_received_rrtrs = [], rv_xr_rrtr_status = False, rv_xr_rr_rtt_ms = 0,
      rv_oldest_tmmbr_info_ms = 0, rv_tmmbr_infos = [], rv_received_report_blocks_p = [],
      rv_received_report_blocks_s = [], rv_last_fir = (\<lambda>_. None), rv_received_cnames = (\<lambda>_. None),
      rv_last_received_rb_ms_p = 0, rv_last_received_rb_ms_s = 0, rv_last_increased_sequence_number_ms = 0,
      rv_packet_type_counter = \<lparr>pc_first_packet_time_ms = - 1, pc_nack_packets = 0, pc_fir_packets = 0,
        pc_pli_packets = 0, pc_nack_requests = 0, pc_unique_nack_requests = 0\<rparr>,
      rv_nack_stats = \<lparr>ns_max_sequence_number = 0, ns_requests = 0, ns_unique_requests = 0\<rparr>,
      rv_num_skipped_packets = 0, rv_second_feedback = None, rv_mp = m, rv_events = []\<rparr>"

definition kRtcpSr :: u32 where "kRtcpSr = 0x0002"
definition kRtcpRr :: u32 where "kRtcpRr = 0x0004"
definition kRtcpSdes :: u32 where "kRtcpSdes = 0x0008"
definition kRtcpPli :: u32 where "kRtcpPli = 0x0020"
definition kRtcpNack :: u32 where "kRtcpNack = 0x0040"
definition kRtcpFir :: u32 where "kRtcpFir = 0x0080"
definition kRtcpTmmbr :: u32 where "kRtcpTmmbr = 0x0100"
definition kRtcpTmmbn :: u32 where "kRtcpTmmbn = 0x0200"
definition kRtcpSrReq :: u32 where "kRtcpSrReq = 0x0400"
definition kRtcpLossNotification :: u32 where "kRtcpLossNotification = 0x2000"
definition kRtcpRemb :: u32 where "kRtcpRemb = 0x10000"
definition kRtcpTransportFeedback :: u32 where "kRtcpTransportFeedback = 0x100000"

lemmas rtcp_flags = kRtcpSr_def kRtcpRr_def kRtcpSdes_def kRtcpPli_def kRtcpNack_def kRtcpFir_def kRtcpTmmbr_def
  kRtcpTmmbn_def kRtcpSrReq_def kRtcpLossNotification_def kRtcpRemb_def kRtcpTransportFeedback_def

definition set_flag :: "u32 \<Rightarrow> PacketInformation \<Rightarrow> PacketInformation" where
  "set_flag f i = i\<lparr>pk_packet_type_flags := pk_packet_type_flags i OR f\<rparr>"

definition has_flag :: "u32 \<Rightarrow> PacketInformation \<Rightarrow> bool" where
  "has_flag f i \<longleftrightarrow> pk_packet_type_flags i AND f \<noteq> 0"

definition skip_block :: "rtcp_receiver \<Rightarrow> rtcp_receiver" where
  "skip_block s = s\<lparr>rv_num_skipped_packets := rv_num_skipped_packets s + 1\<rparr>"

definition call_back :: "rtcp_event \<Rightarrow> rtcp_receiver \<Rightarrow> rtcp_receiver" where
  "call_back e s = s\<lparr>rv_events := rv_events s @ [e]\<rparr>"

section \<open>Timers and requests by remote\<close>

definition TmmbrInformation_new :: TmmbrInformation where
  "TmmbrInformation_new =
     \<lparr>tb_last_time_received_ms = 0, tb_ready_for_delete = False, tb_tmmbn = [], tb_tmmbr = []\<rparr>"

definition FindOrCreateTmmbrInfo :: "clock_reading \<Rightarrow> u32 \<Rightarrow> rtcp_receiver \<Rightarrow> TmmbrInformation" where
  "FindOrCreateTmmbrInfo ck remote_ssrc s =
     (case map_of (rv_tmmbr_infos s) remote_ssrc of None \<Rightarrow> TmmbrInformation_new | Some t \<Rightarrow> t)
       \<lparr>tb_last_time_received_ms := ck_ms ck\<rparr>"

definition UpdateTmmbrRemoteIsAlive :: "clock_reading \<Rightarrow> u32 \<Rightarrow> rtcp_receiver \<Rightarrow> rtcp_receiver" where
  "UpdateTmmbrRemoteIsAlive ck remote_ssrc s =
     (case map_of (rv_tmmbr_infos s) remote_ssrc of
        None \<Rightarrow> s
      | Some t \<Rightarrow> s\<lparr>rv_tmmbr_infos :=
          sm_put remote_ssrc (t\<lparr>tb_last_time_received_ms := ck_ms ck\<rparr>) (rv_tmmbr_infos s)\<rparr>)"

definition kTmmbrTimeoutIntervalMs :: int where "kTmmbrTimeoutIntervalMs = 5 * 5000"
definition kRrTimeoutIntervals :: int where "kRrTimeoutIntervals = 3"

definition RtcpRrTimeout :: "receiver_config \<Rightarrow> clock_reading \<Rightarrow> int \<Rightarrow> rtcp_receiver \<Rightarrow> bool \<times> rtcp_receiver" where
  "RtcpRrTimeout c ck pathid s =
     (let time_out_ms = kRrTimeoutIntervals * rc_report_interval_ms c in
      if pathid \<noteq> 2
      then if rv_last_received_rb_ms_p s = 0 then (False, s)
           else if ck_ms ck > rv_last_received_rb_ms_p s + time_out_ms
           then (True, s\<lparr>rv_last_received_rb_ms_p := 0\<rparr>) else (False, s)
      else if rv_last_received_rb_ms_s s = 0 then (False, s)
           else if ck_ms ck > rv_last_received_rb_ms_s s + time_out_ms
           then (True, s\<lparr>rv_last_received_rb_ms_s := 0\<rparr>) else (False, s))"

definition RtcpRrSequenceNumberTimeout ::
  "receiver_config \<Rightarrow> clock_reading \<Rightarrow> rtcp_receiver \<Rightarrow> bool \<times> rtcp_receiver" where
  "RtcpRrSequenceNumberTimeout c ck s =
     (if rv_last_increased_sequence_number_ms s = 0 then (False, s)
      else if ck_ms ck > rv_last_increased_sequence_number_ms s + kRrTimeoutIntervals * rc_report_interval_ms c
      then (True, s\<lparr>rv_last_increased_sequence_number_ms := 0\<rparr>) else (False, s))"

text \<open>The loop of \<open>UpdateTmmbrTimers\<close>: the new entries, the oldest time, whether one timed out.\<close>

fun tmmbr_timers ::
  "int \<Rightarrow> (u32, TmmbrInformation) smap \<Rightarrow> int \<Rightarrow> bool \<Rightarrow> (u32, TmmbrInformation) smap \<times> int \<times> bool" where
  "tmmbr_timers timeout_ms [] oldest upd = ([], oldest, upd)"
| "tmmbr_timers timeout_ms ((k, t) # m) oldest upd =
     (if tb_last_time_received_ms t > 0
      then if tb_last_time_received_ms t < timeout_ms
           then let (m, oldest, upd) = tmmbr_timers timeout_ms m oldest True
                in ((k, t\<lparr>tb_tmmbr := [], tb_last_time_received_ms := 0\<rparr>) # m, oldest, upd)
           else let (m, oldest, upd) = tmmbr_timers timeout_ms m
                      (if oldest = - 1 \<or> tb_last_time_received_ms t < oldest
                       then tb_last_time_received_ms t else oldest) upd
                in ((k, t) # m, oldest, upd)
      else if tb_ready_for_delete t then tmmbr_timers timeout_ms m oldest upd
      else let (m, oldest, upd) = tmmbr_timers timeout_ms m oldest upd in ((k, t) # m, oldest, upd))"

definition UpdateTmmbrTimers :: "clock_reading \<Rightarrow> rtcp_receiver \<Rightarrow> bool \<times> rtcp_receiver" where
  "UpdateTmmbrTimers ck s =
     (let timeout_ms = ck_ms ck - kTmmbrTimeoutIntervalMs
      in if rv_oldest_tmmbr_info_ms s \<ge> timeout_ms then (False, s)
         else let (m, oldest, upd) = tmmbr_timers timeout_ms (rv_tmmbr_infos s) (- 1) False
              in (upd, s\<lparr>rv_tmmbr_infos := m, rv_oldest_tmmbr_info_ms := oldest\<rparr>))"

definition BoundingSet :: "receiver_config \<Rightarrow> rtcp_receiver \<Rightarrow> TmmbItem list \<times> bool option" where
  "BoundingSet c s =
     (case map_of (rv_tmmbr_infos s) (rv_remote_ssrc s) of
        None \<Rightarrow> ([], None)
      | Some t \<Rightarrow> (tb_tmmbn t, Some (\<exists>i \<in> set (tb_tmmbn t). ti_ssrc i = rc_main_ssrc c)))"

definition TmmbrReceived :: "clock_reading \<Rightarrow> rtcp_receiver \<Rightarrow> TmmbItem list \<times> rtcp_receiver" where
  "TmmbrReceived ck s =
     (let timeout_ms = ck_ms ck - kTmmbrTimeoutIntervalMs;
          live = (\<lambda>x. tt_last_updated_ms (snd x) \<ge> timeout_ms);
          infos = sm_vals (\<lambda>t. t\<lparr>tb_tmmbr := filter live (tb_tmmbr t)\<rparr>) (rv_tmmbr_infos s)
      in (concat (map (\<lambda>(_, t). map (\<lambda>x. tt_tmmbr_item (snd x)) (tb_tmmbr t)) infos),
          s\<lparr>rv_tmmbr_infos := infos\<rparr>))"

section \<open>Handlers\<close>

type_synonym handler = "rtcp_receiver \<times> PacketInformation \<Rightarrow> (rtcp_receiver \<times> PacketInformation) option"

text \<open>A handler that only skips the block when it cannot be parsed.\<close>

definition with_parsed ::
  "'a outcome option \<Rightarrow> ('a \<Rightarrow> handler) \<Rightarrow> handler" where
  "with_parsed r k = (\<lambda>(s, i). do { r \<leftarrow> r; case r of Fails \<Rightarrow> Some (skip_block s, i) | Gives x \<Rightarrow> k x (s, i) })"

definition find_block :: "u32 \<Rightarrow> u32 \<Rightarrow> report_block_map \<Rightarrow> ReportBlockData option" where
  "find_block source_ssrc remote_ssrc m = Option.bind (map_of m source_ssrc) (\<lambda>n. map_of n remote_ssrc)"

definition put_block :: "u32 \<Rightarrow> u32 \<Rightarrow> ReportBlockData \<Rightarrow> report_block_map \<Rightarrow> report_block_map" where
  "put_block source_ssrc remote_ssrc d m =
     sm_put source_ssrc (sm_put remote_ssrc d (case map_of m source_ssrc of None \<Rightarrow> [] | Some n \<Rightarrow> n)) m"

definition to_report_block :: "u32 \<Rightarrow> ReportBlock \<Rightarrow> report_block_info" where
  "to_report_block remote_ssrc b =
     \<lparr>ri_sender_ssrc = remote_ssrc, ri_source_ssrc = rb_source_ssrc b, ri_fraction_lost = rb_fraction_lost b,
      ri_packets_lost = sint (rb_cumulative_lost b),
      ri_extended_highest_sequence_number = rb_extended_high_seq_num b, ri_jitter = rb_jitter b,
      ri_last_sender_report_timestamp = rb_last_sr b,
      ri_delay_since_last_sender_report = rb_delay_since_last_sr b,
      ri_extended_highest_sequence_number_p = rb_extended_high_seq_num_p b\<rparr>"

definition block_rtt :: "clock_reading \<Rightarrow> ReportBlock \<Rightarrow> int" where
  "block_rtt ck b =
     CompactNtpRttToMs (CompactNtp (TimeMicrosToNtp ck) - rb_delay_since_last_sr b - rb_last_sr b)"

text \<open>The update of one stored block: what \<open>HandleReportBlock\<close> does with \<open>report_block_data\<close>.\<close>

definition update_block :: "clock_reading \<Rightarrow> u32 \<Rightarrow> ReportBlock \<Rightarrow> ReportBlockData \<Rightarrow> ReportBlockData" where
  "update_block ck remote_ssrc b d =
     (let d = SetReportBlock (to_report_block remote_ssrc b) (ck_utc_us ck) d
      in if rb_last_sr b \<noteq> 0 then AddRoundTripTimeSample (block_rtt ck b) d else d)"

definition HandleReportBlock :: "receiver_config \<Rightarrow> clock_reading \<Rightarrow> ReportBlock \<Rightarrow> u32 \<Rightarrow> handler" where
  "HandleReportBlock c ck report_block remote_ssrc = (\<lambda>(s, i).
     if rb_source_ssrc report_block \<notin> set (rc_registered_ssrcs c) then Some (s, i)
     else do {
       now_ms \<leftarrow> TimeDelta_ms (ck_us ck);
       let s = (if pk_pathid i \<noteq> 2 then s\<lparr>rv_last_received_rb_ms_p := now_ms\<rparr>
                else s\<lparr>rv_last_received_rb_ms_s := now_ms\<rparr>);
       let m = (if pk_pathid i \<noteq> 2 then rv_received_report_blocks_p s else rv_received_report_blocks_s s);
       let d = (case find_block (rb_source_ssrc report_block) remote_ssrc m of
                  None \<Rightarrow> ReportBlockData_new | Some d \<Rightarrow> d);
       let s = (if rb_extended_high_seq_num report_block > ri_extended_highest_sequence_number (rd_report_block d)
                then s\<lparr>rv_last_increased_sequence_number_ms := now_ms\<rparr> else s);
       let d = update_block ck remote_ssrc report_block d;
       let m = put_block (rb_source_ssrc report_block) remote_ssrc d m;
       let s = (if pk_pathid i \<noteq> 2 then s\<lparr>rv_received_report_blocks_p := m\<rparr>
                else s\<lparr>rv_received_report_blocks_s := m\<rparr>);
       let i = (if rb_last_sr report_block \<noteq> 0 then i\<lparr>pk_rtt_ms := block_rtt ck report_block\<rparr> else i);
       Some (s, i\<lparr>pk_report_blocks := pk_report_blocks i @ [rd_report_block d],
                  pk_report_block_datas := pk_report_block_datas i @ [d]\<rparr>) })"

fun HandleReportBlocks :: "receiver_config \<Rightarrow> clock_reading \<Rightarrow> ReportBlock list \<Rightarrow> u32 \<Rightarrow> handler" where
  "HandleReportBlocks c ck [] remote_ssrc x = Some x"
| "HandleReportBlocks c ck (b # bs) remote_ssrc x =
     do { x \<leftarrow> HandleReportBlock c ck b remote_ssrc x; HandleReportBlocks c ck bs remote_ssrc x }"

definition HandleSenderReport :: "receiver_config \<Rightarrow> clock_reading \<Rightarrow> common_header \<Rightarrow> handler" where
  "HandleSenderReport c ck h = with_parsed (SenderReport_Parse h) (\<lambda>r (s, i).
     let remote_ssrc = sr_sender_ssrc r;
         i = i\<lparr>pk_remote_ssrc := remote_ssrc\<rparr>;
         s = UpdateTmmbrRemoteIsAlive ck remote_ssrc s;
         (s, i) =
           (if rv_remote_ssrc s = remote_ssrc
            then (if ch_pathid h \<noteq> 2
                  then s\<lparr>rv_remote_sender_ntp_time_p := sr_ntp r, rv_remote_sender_rtp_time_p := sr_rtp_timestamp r,
                         rv_last_received_sr_ntp_p := TimeMicrosToNtp ck\<rparr>
                  else s\<lparr>rv_remote_sender_ntp_time_s := sr_ntp r, rv_remote_sender_rtp_time_s := sr_rtp_timestamp r,
                         rv_last_received_sr_ntp_s := TimeMicrosToNtp ck\<rparr>, set_flag kRtcpSr i)
            else (s, set_flag kRtcpRr i))
     in HandleReportBlocks c ck (sr_report_blocks r) remote_ssrc (s, i))"

definition HandleReceiverReport :: "receiver_config \<Rightarrow> clock_reading \<Rightarrow> common_header \<Rightarrow> handler" where
  "HandleReceiverReport c ck h = with_parsed (ReceiverReport_Parse h) (\<lambda>r (s, i).
     let remote_ssrc = rr_sender_ssrc r
     in HandleReportBlocks c ck (rr_report_blocks r) remote_ssrc
          (UpdateTmmbrRemoteIsAlive ck remote_ssrc s, set_flag kRtcpRr (i\<lparr>pk_remote_ssrc := remote_ssrc\<rparr>)))"

fun handle_chunks :: "receiver_config \<Rightarrow> SdesChunk list \<Rightarrow> rtcp_receiver \<Rightarrow> rtcp_receiver" where
  "handle_chunks c [] s = s"
| "handle_chunks c (x # xs) s =
     (let s = s\<lparr>rv_received_cnames := (rv_received_cnames s)(sc_ssrc x \<mapsto> sc_cname x)\<rparr>
      in handle_chunks c xs (if rc_cname_callback c then call_back (EvCname (sc_ssrc x) (sc_cname x)) s else s))"

definition HandleSdes :: "receiver_config \<Rightarrow> common_header \<Rightarrow> handler" where
  "HandleSdes c h = with_parsed (Sdes_Parse h) (\<lambda>d (s, i).
     Some (handle_chunks c (sd_chunks d) s, set_flag kRtcpSdes i))"

definition HandleNack :: "receiver_config \<Rightarrow> common_header \<Rightarrow> handler" where
  "HandleNack c h = with_parsed (Nack_Parse h) (\<lambda>n (s, i).
     if rc_receiver_only c \<or> rc_main_ssrc c \<noteq> nk_media_ssrc n then Some (s, i)
     else let i = i\<lparr>pk_nack_sequence_numbers := pk_nack_sequence_numbers i @ nk_packet_ids n\<rparr>;
              stats = fold ReportRequest (nk_packet_ids n) (rv_nack_stats s);
              s = s\<lparr>rv_nack_stats := stats\<rparr>;
              pc = rv_packet_type_counter s
          in if nk_packet_ids n = [] then Some (s, i)
             else Some (s\<lparr>rv_packet_type_counter := pc\<lparr>pc_nack_packets := pc_nack_packets pc + 1,
                          pc_nack_requests := ns_requests stats, pc_unique_nack_requests := ns_unique_requests stats\<rparr>\<rparr>,
                        set_flag kRtcpNack i))"

text \<open>
  \<open>atoi\<close> on the four bytes of a local array that has no terminating zero: the number when another
  character ends it, \<open>None\<close> when the read runs over the end of the array.
\<close>

fun atoi_digits :: "bytes \<Rightarrow> int \<Rightarrow> int option" where
  "atoi_digits [] n = None"
| "atoi_digits (b # bs) n = (if 48 \<le> b \<and> b \<le> 57 then atoi_digits bs (10 * n + uint (b - 48)) else Some n)"

definition is_space :: "u8 \<Rightarrow> bool" where
  "is_space b \<longleftrightarrow> b = 32 \<or> 9 \<le> b \<and> b \<le> 13"

definition atoi :: "bytes \<Rightarrow> int option" where
  "atoi bs =
     (case dropWhile is_space bs of
        [] \<Rightarrow> None
      | b # bs' \<Rightarrow> if b = 45 then map_option uminus (atoi_digits bs' 0)
                   else if b = 43 then atoi_digits bs' 0 else atoi_digits (b # bs') 0)"

definition app_number :: "App \<Rightarrow> int option" where
  "app_number a = do { d \<leftarrow> rd 4 (app_data a) 0; atoi d }"

definition kMpappname :: u32 where "kMpappname = 0x73616e64"
definition kRemoteEstimateName :: u32 where "kRemoteEstimateName = 0x676f6f67"

definition mp_signal :: "clock_reading \<Rightarrow> u8 \<Rightarrow> mp_collector \<Rightarrow> mp_collector" where
  "mp_signal ck b m =
     (let m = (if b = 97 then MpSetFullSignal (ck_ms ck) m else m);
          m = (if b = 98 then MpSetHalfSignal (ck_ms ck) m else m)
      in if b = 99 \<and> mc_quic m = 0 then MpSetQUIC m else m)"

definition HandleApp :: "clock_reading \<Rightarrow> common_header \<Rightarrow> handler" where
  "HandleApp ck h = with_parsed (App_Parse h) (\<lambda>a (s, i).
     if app_name a = kRemoteEstimateName \<and> app_sub_type a = 13
     then do { r \<leftarrow> RemoteEstimate_ParseData (app_data a);
               case r of
                 Gives e \<Rightarrow> Some (s, i\<lparr>pk_network_state_estimate := Some e\<rparr>)
               | Fails \<Rightarrow> Some (skip_block s, i) }
     else if app_sub_type a = 1 \<and> app_name a = kMpappname
     then do { b \<leftarrow> rd8 (app_data a) 0; Some (s\<lparr>rv_mp := mp_signal ck b (rv_mp s)\<rparr>, i) }
     else if app_sub_type a = 2 \<and> app_name a = kMpappname
     then do { b \<leftarrow> rd8 (app_data a) 0; Some (s\<lparr>rv_mp := MpSetRemoteFrameRate (ucast b) (rv_mp s)\<rparr>, i) }
     else if app_sub_type a = 3
     then do { n \<leftarrow> app_number a; Some (s\<lparr>rv_mp := MpSetRemoteAsymmetryPackets n (rv_mp s)\<rparr>, i) }
     else if app_sub_type a = 4
     then do { n \<leftarrow> app_number a; Some (s\<lparr>rv_mp := MpSetRemoteAsymmetryRR1 n (rv_mp s)\<rparr>, i) }
     else if app_sub_type a = 5
     then do { n \<leftarrow> app_number a; Some (s\<lparr>rv_mp := MpSetRemoteAsymmetryRR2 n (rv_mp s)\<rparr>, i) }
     else Some (skip_block s, i))"

definition HandleBye :: "common_header \<Rightarrow> handler" where
  "HandleBye h = with_parsed (Bye_Parse h) (\<lambda>b (s, i).
     let ssrc = bye_sender_ssrc b
     in Some (s\<lparr>rv_received_report_blocks_p := sm_vals (sm_erase ssrc) (rv_received_report_blocks_p s),
               rv_received_report_blocks_s := sm_vals (sm_erase ssrc) (rv_received_report_blocks_s s),
               rv_tmmbr_infos := (case map_of (rv_tmmbr_infos s) ssrc of
                  None \<Rightarrow> rv_tmmbr_infos s
                | Some t \<Rightarrow> sm_put ssrc (t\<lparr>tb_ready_for_delete := True\<rparr>) (rv_tmmbr_infos s)),
               rv_last_fir := (rv_last_fir s)(ssrc := None),
               rv_received_cnames := (rv_received_cnames s)(ssrc := None),
               rv_received_rrtrs := filter (\<lambda>r. rn_ssrc r \<noteq> ssrc) (rv_received_rrtrs s),
               rv_xr_rr_rtt_ms := 0\<rparr>, i))"

definition kMaxNumberOfStoredRrtrs :: nat where "kMaxNumberOfStoredRrtrs = 300"

definition HandleXrReceiveReferenceTime :: "clock_reading \<Rightarrow> u32 \<Rightarrow> NtpTime \<Rightarrow> rtcp_receiver \<Rightarrow> rtcp_receiver" where
  "HandleXrReceiveReferenceTime ck sender_ssrc rrtr s =
     (let new = \<lparr>rn_ssrc = sender_ssrc, rn_received_remote_mid_ntp_time = CompactNtp rrtr,
                 rn_local_receive_mid_ntp_time = CompactNtp (TimeMicrosToNtp ck)\<rparr>;
          rs = rv_received_rrtrs s
      in if sender_ssrc \<in> rn_ssrc ` set rs
         then s\<lparr>rv_received_rrtrs := map (\<lambda>r. if rn_ssrc r = sender_ssrc then new else r) rs\<rparr>
         else if length rs < kMaxNumberOfStoredRrtrs then s\<lparr>rv_received_rrtrs := rs @ [new]\<rparr>
         else s)"

definition HandleXrDlrrReportBlock ::
  "receiver_config \<Rightarrow> clock_reading \<Rightarrow> ReceiveTimeInfo \<Rightarrow> rtcp_receiver \<Rightarrow> rtcp_receiver" where
  "HandleXrDlrrReportBlock c ck rti s =
     (if rti_ssrc rti \<notin> set (rc_registered_ssrcs c) then s
      else if \<not> rv_xr_rrtr_status s then s
      else if rti_last_rr rti = 0 then s
      else s\<lparr>rv_xr_rr_rtt_ms := CompactNtpRttToMs
             (CompactNtp (TimeMicrosToNtp ck) - rti_delay_since_last_rr rti - rti_last_rr rti)\<rparr>)"

definition layer_bitrate :: "BitrateItem \<Rightarrow> VideoBitrateAllocation \<Rightarrow> VideoBitrateAllocation" where
  "layer_bitrate b a =
     (if bi_spatial_layer b \<ge> 5 \<or> bi_temporal_layer b \<ge> 4 then a
      else SetBitrate (unat (bi_spatial_layer b)) (unat (bi_temporal_layer b)) (bi_target_bitrate_kbps b * 1000) a)"

definition HandleXrTargetBitrate ::
  "u32 \<Rightarrow> BitrateItem list \<Rightarrow> rtcp_receiver \<Rightarrow> PacketInformation \<Rightarrow> PacketInformation" where
  "HandleXrTargetBitrate ssrc target_bitrate s i =
     (if ssrc \<noteq> rv_remote_ssrc s then i
      else i\<lparr>pk_target_bitrate_allocation :=
             Some (fold layer_bitrate target_bitrate \<lparr>va_bitrates = (\<lambda>_. None), va_sum = 0\<rparr>)\<rparr>)"

definition HandleXr :: "receiver_config \<Rightarrow> clock_reading \<Rightarrow> common_header \<Rightarrow> handler" where
  "HandleXr c ck h = with_parsed (ExtendedReports_Parse h) (\<lambda>x (s, i).
     let s = (case xr_rrtr x of None \<Rightarrow> s | Some r \<Rightarrow> HandleXrReceiveReferenceTime ck (xr_sender_ssrc x) r s);
         s = fold (HandleXrDlrrReportBlock c ck) (xr_dlrr x) s;
         i = (case xr_target_bitrate x of None \<Rightarrow> i | Some b \<Rightarrow> HandleXrTargetBitrate (xr_sender_ssrc x) b s i)
     in Some (s, i))"

definition HandlePli :: "receiver_config \<Rightarrow> common_header \<Rightarrow> handler" where
  "HandlePli c h = with_parsed (Pli_Parse h) (\<lambda>p (s, i).
     if rc_main_ssrc c = pli_media_ssrc p
     then let pc = rv_packet_type_counter s
          in Some (s\<lparr>rv_packet_type_counter := pc\<lparr>pc_pli_packets := pc_pli_packets pc + 1\<rparr>\<rparr>, set_flag kRtcpPli i)
     else Some (s, i))"

fun handle_requests ::
  "receiver_config \<Rightarrow> clock_reading \<Rightarrow> u32 \<Rightarrow> u32 \<Rightarrow> TmmbItem list \<Rightarrow> rtcp_receiver \<times> PacketInformation \<Rightarrow>
   rtcp_receiver \<times> PacketInformation" where
  "handle_requests c ck from sender_ssrc [] (s, i) = (s, i)"
| "handle_requests c ck from sender_ssrc (r # rs) (s, i) =
     (if rc_main_ssrc c \<noteq> ti_ssrc r \<or> ti_bitrate_bps r = 0 then handle_requests c ck from sender_ssrc rs (s, i)
      else let t = FindOrCreateTmmbrInfo ck from s;
               entry = \<lparr>tt_tmmbr_item = r\<lparr>ti_ssrc := sender_ssrc\<rparr>, tt_last_updated_ms = tb_last_time_received_ms t\<rparr>
           in (s\<lparr>rv_tmmbr_infos := sm_put from (t\<lparr>tb_tmmbr := sm_put sender_ssrc entry (tb_tmmbr t)\<rparr>) (rv_tmmbr_infos s)\<rparr>,
               set_flag kRtcpTmmbr i))"

definition HandleTmmbr :: "receiver_config \<Rightarrow> clock_reading \<Rightarrow> common_header \<Rightarrow> handler" where
  "HandleTmmbr c ck h = with_parsed (Tmmbr_Parse h) (\<lambda>t x.
     let sender_ssrc = (if tm_media_ssrc t \<noteq> 0 then tm_media_ssrc t else tm_sender_ssrc t)
     in Some (handle_requests c ck (tm_sender_ssrc t) sender_ssrc (tm_items t) x))"

definition HandleTmmbn :: "clock_reading \<Rightarrow> common_header \<Rightarrow> handler" where
  "HandleTmmbn ck h = with_parsed (Tmmbn_Parse h) (\<lambda>t (s, i).
     let info = FindOrCreateTmmbrInfo ck (tm_sender_ssrc t) s
     in Some (s\<lparr>rv_tmmbr_infos := sm_put (tm_sender_ssrc t) (info\<lparr>tb_tmmbn := tm_items t\<rparr>) (rv_tmmbr_infos s)\<rparr>,
              set_flag kRtcpTmmbn i))"

definition HandleSrReq :: "common_header \<Rightarrow> handler" where
  "HandleSrReq h = with_parsed (RapidResyncRequest_Parse h) (\<lambda>r (s, i). Some (s, set_flag kRtcpSrReq i))"

text \<open>\<open>receiver_estimated_max_bitrate_bps\<close> has 32 bits: the estimate is cut.\<close>

definition HandlePsfbApp :: "common_header \<Rightarrow> handler" where
  "HandlePsfbApp h = (\<lambda>(s, i).
     do { r \<leftarrow> Remb_Parse h;
          case r of
            Gives remb \<Rightarrow> Some (s, (set_flag kRtcpRemb i)\<lparr>pk_receiver_estimated_max_bitrate_bps := ucast (remb_bitrate_bps remb)\<rparr>)
          | Fails \<Rightarrow> do {
              r \<leftarrow> LossNotification_Parse h;
              case r of
                Gives n \<Rightarrow> Some (s, (set_flag kRtcpLossNotification i)\<lparr>pk_loss_notification := Some n\<rparr>)
              | Fails \<Rightarrow> Some (skip_block s, i) } })"

definition kRtcpMinFrameLengthMs :: int where "kRtcpMinFrameLengthMs = 17"

definition handle_fir_request ::
  "receiver_config \<Rightarrow> clock_reading \<Rightarrow> u32 \<Rightarrow> FirRequest \<Rightarrow> rtcp_receiver \<times> PacketInformation \<Rightarrow>
   rtcp_receiver \<times> PacketInformation" where
  "handle_fir_request c ck sender_ssrc q = (\<lambda>(s, i).
     if rc_main_ssrc c \<noteq> fq_ssrc q then (s, i)
     else let pc = rv_packet_type_counter s;
              s = s\<lparr>rv_packet_type_counter := pc\<lparr>pc_fir_packets := pc_fir_packets pc + 1\<rparr>\<rparr>;
              new = \<lparr>lf_request_ms = ck_ms ck, lf_sequence_number = fq_seq_nr q\<rparr>
          in case rv_last_fir s sender_ssrc of
               None \<Rightarrow> (s\<lparr>rv_last_fir := (rv_last_fir s)(sender_ssrc \<mapsto> new)\<rparr>, set_flag kRtcpFir i)
             | Some l \<Rightarrow>
                 if fq_seq_nr q = lf_sequence_number l then (s, i)
                 else if ck_ms ck - lf_request_ms l < kRtcpMinFrameLengthMs then (s, i)
                 else (s\<lparr>rv_last_fir := (rv_last_fir s)(sender_ssrc \<mapsto> new)\<rparr>, set_flag kRtcpFir i))"

definition HandleFir :: "receiver_config \<Rightarrow> clock_reading \<Rightarrow> common_header \<Rightarrow> handler" where
  "HandleFir c ck h = with_parsed (Fir_Parse h) (\<lambda>f x.
     Some (fold (handle_fir_request c ck (fir_sender_ssrc f)) (fir_items f) x))"

text \<open>
  Two packets are parsed from the same block, the second to keep the last feedback of the second
  path; \<open>junk\<close> is the first content of their arrays.
\<close>

definition HandleTransportFeedback :: "nat list \<Rightarrow> common_header \<Rightarrow> handler" where
  "HandleTransportFeedback junk h =
     with_parsed (TransportFeedback_Parse h (TransportFeedback_new junk True True (ch_pathid h))) (\<lambda>f (s, i).
       Some (if ch_pathid h = 2 then s\<lparr>rv_second_feedback := Some f\<rparr> else s,
             (set_flag kRtcpTransportFeedback i)\<lparr>pk_pathid := ch_pathid h, pk_transport_feedback := Some f\<rparr>))"

section \<open>Compound packets\<close>

definition handle_block :: "receiver_config \<Rightarrow> clock_reading \<Rightarrow> nat list \<Rightarrow> common_header \<Rightarrow> handler" where
  "handle_block c ck junk h = (\<lambda>(s, i).
     let i = i\<lparr>pk_pathid := ch_pathid h\<rparr>;
         pc = rv_packet_type_counter s;
         s = (if pc_first_packet_time_ms pc = - 1
              then s\<lparr>rv_packet_type_counter := pc\<lparr>pc_first_packet_time_ms := ck_ms ck\<rparr>\<rparr> else s);
         t = ch_type h; fmt = ch_count h
     in if t = 200 then HandleSenderReport c ck h (s, i)
        else if t = 201 then HandleReceiverReport c ck h (s, i)
        else if t = 202 then HandleSdes c h (s, i)
        else if t = 207 then HandleXr c ck h (s, i)
        else if t = 203 then HandleBye h (s, i)
        else if t = 204 then HandleApp ck h (s, i)
        else if t = kRtpfb
        then if fmt = 1 then HandleNack c h (s, i)
             else if fmt = 3 then HandleTmmbr c ck h (s, i)
             else if fmt = 4 then HandleTmmbn ck h (s, i)
             else if fmt = 5 then HandleSrReq h (s, i)
             else if fmt = 15 then HandleTransportFeedback junk h (s, i)
             else Some (skip_block s, i)
        else if t = kPsfb
        then if fmt = 1 then HandlePli c h (s, i)
             else if fmt = 4 then HandleFir c ck h (s, i)
             else if fmt = 15 then HandlePsfbApp h (s, i)
             else Some (skip_block s, i)
        else Some (skip_block s, i))"

text \<open>The loop over the blocks; \<open>rest\<close> is the part of the packet from the next block on.\<close>

function parse_blocks ::
  "receiver_config \<Rightarrow> clock_reading \<Rightarrow> nat list \<Rightarrow> bool \<Rightarrow> bytes \<Rightarrow> rtcp_receiver \<times> PacketInformation \<Rightarrow>
   (rtcp_receiver \<times> PacketInformation) outcome option" where
  "parse_blocks c ck junk first rest x =
     (if rest = [] then Some (Gives x)
      else do {
        r \<leftarrow> CommonHeader_Parse rest;
        case r of
          Fails \<Rightarrow> if first then Some Fails else Some (Gives (skip_block (fst x), snd x))
        | Gives h \<Rightarrow> do {
            x \<leftarrow> handle_block c ck junk h x;
            parse_blocks c ck junk False (drop (packet_size h) rest) x } })"
  by pat_completeness auto
termination
  by (relation "measure (\<lambda>(_, _, _, _, rest, _). length rest)") (auto simp: packet_size_def kHeaderLength_def)

declare parse_blocks.simps [simp del]

definition ParseCompoundPacket ::
  "receiver_config \<Rightarrow> clock_reading \<Rightarrow> nat list \<Rightarrow> bytes \<Rightarrow> rtcp_receiver \<Rightarrow>
   (rtcp_receiver \<times> PacketInformation) outcome option" where
  "ParseCompoundPacket c ck junk packet s =
     do { r \<leftarrow> parse_blocks c ck junk True packet (s, PacketInformation_new);
          case r of
            Fails \<Rightarrow> Some Fails
          | Gives (s, i) \<Rightarrow>
              Some (Gives (if rc_packet_type_counter_observer c
                           then call_back (EvPacketTypes (rc_main_ssrc c) (rv_packet_type_counter s)) s else s, i)) }"

section \<open>Callbacks\<close>

definition CalcMinBitrateBps :: "TmmbItem list \<Rightarrow> u64" where
  "CalcMinBitrateBps candidates =
     fold (\<lambda>item m. if ti_bitrate_bps item < m then ti_bitrate_bps item else m) candidates (- 1)"

definition NotifyTmmbrUpdated ::
  "(TmmbItem list \<Rightarrow> TmmbItem list) \<Rightarrow> receiver_config \<Rightarrow> clock_reading \<Rightarrow> rtcp_receiver \<Rightarrow> rtcp_receiver" where
  "NotifyTmmbrUpdated find_bounding_set c ck s =
     (let (candidates, s) = TmmbrReceived ck s;
          bounding = find_bounding_set candidates;
          bitrate_bps = CalcMinBitrateBps bounding;
          s = (if bounding \<noteq> [] \<and> rc_bandwidth_observer c \<and> bitrate_bps \<le> 0xffffffff
               then call_back (EvEstimatedBitrate (ucast bitrate_bps)) s else s)
      in call_back (EvSetTmmbn bounding) s)"

definition report_events :: "receiver_config \<Rightarrow> clock_reading \<Rightarrow> PacketInformation \<Rightarrow> rtcp_event list" where
  "report_events c ck i =
     (if rc_bandwidth_observer c
      then (if has_flag kRtcpRemb i then [EvEstimatedBitrate (pk_receiver_estimated_max_bitrate_bps i)] else []) @
           (if has_flag kRtcpSr i \<or> has_flag kRtcpRr i
            then [EvReceiverReport (pk_report_blocks i) (pk_rtt_ms i) (ck_ms ck) (pk_pathid i)] else [])
      else []) @
     (if has_flag kRtcpSr i \<or> has_flag kRtcpRr i then [EvReportBlocks (pk_report_blocks i)] else [])"

definition request_events :: "receiver_config \<Rightarrow> PacketInformation \<Rightarrow> rtcp_event list" where
  "request_events c i =
     (if \<not> rc_receiver_only c \<and> has_flag kRtcpSrReq i then [EvRequestSendReport] else []) @
     (if \<not> rc_receiver_only c \<and> has_flag kRtcpNack i \<and> pk_nack_sequence_numbers i \<noteq> []
      then [EvReceivedNack (pk_nack_sequence_numbers i) (pk_pathid i)] else []) @
     (if rc_intra_frame_observer c \<and> (has_flag kRtcpPli i \<or> has_flag kRtcpFir i)
      then [EvIntraFrameRequest (rc_main_ssrc c)] else []) @
     (if rc_loss_notification_observer c \<and> has_flag kRtcpLossNotification i
      then case pk_loss_notification i of
             None \<Rightarrow> []
           | Some n \<Rightarrow> if ln_media_ssrc n = rc_main_ssrc c
               then [EvLossNotification (ln_media_ssrc n) (ln_last_decoded n) (ln_last_received n) (ln_decodability_flag n)]
               else []
      else [])"

definition other_events :: "receiver_config \<Rightarrow> PacketInformation \<Rightarrow> rtcp_event list" where
  "other_events c i =
     (if rc_transport_feedback_observer c \<and> has_flag kRtcpTransportFeedback i
      then case pk_transport_feedback i of
             None \<Rightarrow> []
           | Some f \<Rightarrow> if tf_media_ssrc f = rc_main_ssrc c \<or> tf_media_ssrc f \<in> set (rc_registered_ssrcs c)
               then [EvTransportFeedback f] else []
      else []) @
     (if rc_network_state_estimate_observer c
      then case pk_network_state_estimate i of None \<Rightarrow> [] | Some e \<Rightarrow> [EvNetworkEstimate e] else []) @
     (if rc_bitrate_allocation_observer c
      then case pk_target_bitrate_allocation i of None \<Rightarrow> [] | Some a \<Rightarrow> [EvBitrateAllocation a] else []) @
     (if \<not> rc_receiver_only c
      then (if rc_stats_callback c then map EvStatistics (pk_report_blocks i) else []) @
           (if rc_report_block_data_observer c then map EvReportBlockData (pk_report_block_datas i) else [])
      else [])"

definition TriggerCallbacksFromRtcpPacket ::
  "(TmmbItem list \<Rightarrow> TmmbItem list) \<Rightarrow> receiver_config \<Rightarrow> clock_reading \<Rightarrow> PacketInformation \<Rightarrow> rtcp_receiver \<Rightarrow> rtcp_receiver" where
  "TriggerCallbacksFromRtcpPacket find_bounding_set c ck i s =
     (let s = (if has_flag kRtcpTmmbr i then NotifyTmmbrUpdated find_bounding_set c ck s else s)
      in s\<lparr>rv_events := rv_events s @ request_events c i @ report_events c ck i @ other_events c i\<rparr>)"

definition IncomingPacket ::
  "(TmmbItem list \<Rightarrow> TmmbItem list) \<Rightarrow> receiver_config \<Rightarrow> clock_reading \<Rightarrow> nat list \<Rightarrow> bytes \<Rightarrow> rtcp_receiver \<Rightarrow>
   rtcp_receiver option" where
  "IncomingPacket find_bounding_set c ck junk packet s =
     (if packet = [] then Some s
      else do { r \<leftarrow> ParseCompoundPacket c ck junk packet s;
                case r of
                  Fails \<Rightarrow> Some s
                | Gives (s, i) \<Rightarrow> Some (TriggerCallbacksFromRtcpPacket find_bounding_set c ck i s) })"

section \<open>Queries\<close>

definition LastReceivedReportBlockMs :: "int \<Rightarrow> rtcp_receiver \<Rightarrow> int" where
  "LastReceivedReportBlockMs pathid s =
     (if pathid \<noteq> 2 then rv_last_received_rb_ms_p s else rv_last_received_rb_ms_s s)"

definition SetRemoteSSRC :: "u32 \<Rightarrow> rtcp_receiver \<Rightarrow> rtcp_receiver" where
  "SetRemoteSSRC ssrc s =
     s\<lparr>rv_last_received_sr_ntp_p := 0, rv_last_received_sr_ntp_s := 0, rv_remote_ssrc := ssrc\<rparr>"

text \<open>Last, average, smallest and largest round trip time of a path; \<open>None\<close> is the result \<open>-1\<close>.\<close>

definition RTT :: "receiver_config \<Rightarrow> u32 \<Rightarrow> int \<Rightarrow> rtcp_receiver \<Rightarrow> (int \<times> int \<times> int \<times> int) option" where
  "RTT c remote_ssrc pathid s =
     (case find_block (rc_main_ssrc c) remote_ssrc
             (if pathid \<noteq> 2 then rv_received_report_blocks_p s else rv_received_report_blocks_s s) of
        None \<Rightarrow> None
      | Some d \<Rightarrow>
          if rd_num_rtts d = 0 then None
          else Some (rd_last_rtt_ms d, rd_sum_rtt_ms d sdiv int (rd_num_rtts d), rd_min_rtt_ms d, rd_max_rtt_ms d))"

definition SetRtcpXrRrtrStatus :: "bool \<Rightarrow> rtcp_receiver \<Rightarrow> rtcp_receiver" where
  "SetRtcpXrRrtrStatus enable s = s\<lparr>rv_xr_rrtr_status := enable\<rparr>"

definition GetAndResetXrRrRtt :: "rtcp_receiver \<Rightarrow> int option \<times> rtcp_receiver" where
  "GetAndResetXrRrRtt s =
     (if rv_xr_rr_rtt_ms s = 0 then (None, s) else (Some (rv_xr_rr_rtt_ms s), s\<lparr>rv_xr_rr_rtt_ms := 0\<rparr>))"

text \<open>The sender's time, the RTP time and the arrival time of the last sender report of a path.\<close>

definition NTP :: "int \<Rightarrow> rtcp_receiver \<Rightarrow> (NtpTime \<times> u32 \<times> NtpTime) option" where
  "NTP pathid s =
     (if pathid \<noteq> 2
      then if rv_last_received_sr_ntp_p s = 0 then None
           else Some (rv_remote_sender_ntp_time_p s, rv_remote_sender_rtp_time_p s, rv_last_received_sr_ntp_p s)
      else if rv_last_received_sr_ntp_s s = 0 then None
           else Some (rv_remote_sender_ntp_time_s s, rv_remote_sender_rtp_time_s s, rv_last_received_sr_ntp_s s))"

definition ConsumeReceivedXrReferenceTimeInfo ::
  "clock_reading \<Rightarrow> rtcp_receiver \<Rightarrow> ReceiveTimeInfo list \<times> rtcp_receiver" where
  "ConsumeReceivedXrReferenceTimeInfo ck s =
     (let n = min (length (rv_received_rrtrs s)) kMaxNumberOfDlrrItems;
          now_ntp = CompactNtp (TimeMicrosToNtp ck)
      in (map (\<lambda>r. \<lparr>rti_ssrc = rn_ssrc r, rti_last_rr = rn_received_remote_mid_ntp_time r,
                    rti_delay_since_last_rr = now_ntp - rn_local_receive_mid_ntp_time r\<rparr>) (take n (rv_received_rrtrs s)),
          s\<lparr>rv_received_rrtrs := drop n (rv_received_rrtrs s)\<rparr>))"

definition GetLatestReportBlockData :: "int \<Rightarrow> rtcp_receiver \<Rightarrow> ReportBlockData list" where
  "GetLatestReportBlockData pathid s =
     concat (map (\<lambda>(_, n). map snd n)
       (if pathid \<noteq> 2 then rv_received_report_blocks_p s else rv_received_report_blocks_s s))"

definition StatisticsReceived :: "int \<Rightarrow> rtcp_receiver \<Rightarrow> report_block_info list" where
  "StatisticsReceived pathid s = map rd_report_block (GetLatestReportBlockData pathid s)"

definition CNAME :: "u32 \<Rightarrow> rtcp_receiver \<Rightarrow> bytes option" where
  "CNAME remoteSSRC s = map_option (take 255) (rv_received_cnames s remoteSSRC)"

end
