(* ===== verification/ReceiverPaths.thy ===== *)
theory ReceiverPaths
  imports RtcpReceiver
begin

text \<open>
  What an incoming RTCP packet does to the state of the receiver. The locale \<open>block_relation\<close> states what a
  relation between the states before and after has to satisfy for the handlers that store something
  for a path; that it then holds for every other handler, for compound packets and for \<open>IncomingPacket\<close> is
  proved once. One interpretation gives that the paths do not interfere, one the invariant of
  the round trip times.
\<close>

section \<open>The blocks of a compound packet\<close>

text \<open>The headers of the blocks, up to the first that cannot be parsed.\<close>

function block_headers :: "bytes \<Rightarrow> common_header list" where
  "block_headers rest =
     (if rest = [] then []
      else case CommonHeader_Parse rest of
             Some (Gives h) \<Rightarrow> h # block_headers (drop (packet_size h) rest)
           | _ \<Rightarrow> [])"
  by pat_completeness auto
termination by (relation "measure length") (auto simp: packet_size_def kHeaderLength_def)

declare block_headers.simps [simp del]

lemma parse_blocks_cases:
  assumes "parse_blocks c ck junk first rest x = Some (Gives y)"
  obtains "rest = []" "y = x" | "rest \<noteq> []" "CommonHeader_Parse rest = Some Fails" "y = (skip_block (fst x), snd x)"
    | h z where "rest \<noteq> []" "CommonHeader_Parse rest = Some (Gives h)" "handle_block c ck junk h x = Some z"
       "parse_blocks c ck junk False (drop (packet_size h) rest) z = Some (Gives y)"
       "block_headers rest = h # block_headers (drop (packet_size h) rest)"
proof (cases "rest = []")
  case False
  then obtain r where r: "CommonHeader_Parse rest = Some r"
    using assms by (cases "CommonHeader_Parse rest") (simp_all add: parse_blocks.simps [of c ck junk first rest x])
  show thesis
  proof (cases r)
    case Fails
    then show thesis using assms False r that(2) by (simp add: parse_blocks.simps [of c ck junk first rest x] split: if_splits)
  next
    case (Gives h)
    then have b: "block_headers rest = h # block_headers (drop (packet_size h) rest)"
      using False r by (simp add: block_headers.simps [of rest])
    obtain z where "handle_block c ck junk h x = Some z"
      "parse_blocks c ck junk False (drop (packet_size h) rest) z = Some (Gives y)"
      using assms False r Gives by (auto simp: parse_blocks.simps [of c ck junk first rest x] bind_eq_Some_conv)
    from that(3) [OF False _ this b] r Gives show thesis by simp
  qed
next
  case True
  then show thesis using assms that(1) parse_blocks.simps [of c ck junk first "[]" x] by simp
qed

lemma IncomingPacket_cases:
  assumes "IncomingPacket fb c ck junk packet s = Some s'"
  obtains "s' = s"
    | t i where "parse_blocks c ck junk True packet (s, PacketInformation_new) = Some (Gives (t, i))"
        "s' = TriggerCallbacksFromRtcpPacket fb c ck i
           (if rc_packet_type_counter_observer c
            then call_back (EvPacketTypes (rc_main_ssrc c) (rv_packet_type_counter t)) t else t)"
proof (cases "packet = []")
  case False
  let ?p = "parse_blocks c ck junk True packet (s, PacketInformation_new)"
  from assms False obtain r where r: "?p = Some r"
    by (cases ?p) (simp_all add: IncomingPacket_def ParseCompoundPacket_def)
  show thesis
  proof (cases r)
    case (Gives y)
    then show thesis using assms False r that(2) by (cases y) (simp add: IncomingPacket_def ParseCompoundPacket_def)
  qed (use assms False r that(1) in \<open>simp add: IncomingPacket_def ParseCompoundPacket_def\<close>)
qed (use assms that in \<open>simp add: IncomingPacket_def\<close>)

section \<open>Relations that handlers respect\<close>

text \<open>A handler that relates the states before and after it and keeps the path id of the packet.\<close>

definition handler_keeps :: "(rtcp_receiver \<Rightarrow> rtcp_receiver \<Rightarrow> bool) \<Rightarrow> handler \<Rightarrow> bool" where
  "handler_keeps R k \<longleftrightarrow> (\<forall>s i s' i'. k (s, i) = Some (s', i') \<longrightarrow> R s s' \<and> pk_pathid i' = pk_pathid i)"

lemma handler_keepsI:
  "(\<And>s i s' i'. k (s, i) = Some (s', i') \<Longrightarrow> R s s' \<and> pk_pathid i' = pk_pathid i) \<Longrightarrow> handler_keeps R k"
  by (auto simp: handler_keeps_def)

lemma handler_keepsD: "handler_keeps R k \<Longrightarrow> k (s, i) = Some (s', i') \<Longrightarrow> R s s' \<and> pk_pathid i' = pk_pathid i"
  by (auto simp: handler_keeps_def)

locale receiver_relation =
  fixes R :: "rtcp_receiver \<Rightarrow> rtcp_receiver \<Rightarrow> bool"
  assumes R_refl: "R s s"
    and R_trans: "R s t \<Longrightarrow> R t u \<Longrightarrow> R s u"
    and R_tmmbr: "R s (s\<lparr>rv_tmmbr_infos := ti\<rparr>)"
    and R_counter: "R s (s\<lparr>rv_packet_type_counter := pc\<rparr>)"
    and R_events: "R s (s\<lparr>rv_events := ev\<rparr>)"
    and R_skipped: "R s (s\<lparr>rv_num_skipped_packets := n\<rparr>)"
    and R_cnames: "R s (s\<lparr>rv_received_cnames := cn\<rparr>)"
    and R_nack: "R s (s\<lparr>rv_nack_stats := ns\<rparr>)"
    and R_fir: "R s (s\<lparr>rv_last_fir := lf\<rparr>)"
    and R_rrtrs: "R s (s\<lparr>rv_received_rrtrs := rr\<rparr>)"
    and R_xr: "R s (s\<lparr>rv_xr_rr_rtt_ms := x\<rparr>)"
begin

lemmas R_fields = R_refl R_tmmbr R_counter R_events R_skipped R_cnames R_nack R_fir R_rrtrs R_xr

text \<open>The same in the form that takes a sequence of updates apart, the last one first.\<close>

lemmas R_ext = R_refl R_fields(2-) [THEN R_trans [rotated]]

lemma R_skip_block: "R s (skip_block s)"
  by (simp add: skip_block_def R_fields)

lemma R_call_back: "R s (call_back e s)"
  by (simp add: call_back_def R_fields)

lemma R_alive: "R s (UpdateTmmbrRemoteIsAlive ck r s)"
  by (simp add: UpdateTmmbrRemoteIsAlive_def R_fields split: option.split)

lemma R_fold: "(\<And>x s. R s (f x s)) \<Longrightarrow> R s (fold f xs s)"
  by (induction xs arbitrary: s) (auto intro: R_refl R_trans)

lemma keeps_parsed:
  assumes "\<And>x. handler_keeps R (k x)"
  shows "handler_keeps R (with_parsed r k)"
  by (rule handler_keepsI)
    (auto simp: with_parsed_def R_skip_block dest: handler_keepsD [OF assms] split: option.splits outcome.splits bind_splits)

lemma chunks_R: "R s (handle_chunks c xs s)"
proof (induction xs arbitrary: s)
  case (Cons x xs)
  show ?case by (auto simp: Let_def call_back_def intro!: R_trans [OF _ Cons.IH] R_ext)
qed (simp add: R_refl)

lemma requests_R: "handle_requests c ck f sender rs (s, i) = (s', i') \<Longrightarrow> R s s' \<and> pk_pathid i' = pk_pathid i"
  by (induction rs) (auto simp: Let_def R_fields set_flag_def split: if_splits)

lemma fir_request_R: "handle_fir_request c ck f q (s, i) = (s', i') \<Longrightarrow> R s s' \<and> pk_pathid i' = pk_pathid i"
  by (auto simp: handle_fir_request_def Let_def set_flag_def R_fields intro!: R_ext split: if_splits option.splits)

lemma fir_requests_R:
  "fold (handle_fir_request c ck f) qs (s, i) = (s', i') \<Longrightarrow> R s s' \<and> pk_pathid i' = pk_pathid i"
proof (induction qs arbitrary: s i)
  case (Cons q qs)
  obtain t j where q: "handle_fir_request c ck f q (s, i) = (t, j)" by fastforce
  show ?case using Cons.IH [of t j] Cons.prems fir_request_R [OF q] by (auto simp: q intro: R_trans)
qed (simp add: R_refl)

lemma keeps_simple:
  "handler_keeps R (HandleSdes c h)" "handler_keeps R (HandleNack c h)"
  "handler_keeps R (HandlePli c h)" "handler_keeps R (HandleTmmbr c ck h)" "handler_keeps R (HandleTmmbn ck h)"
  "handler_keeps R (HandleSrReq h)" "handler_keeps R (HandleFir c ck h)"
proof -
  show "handler_keeps R (HandleSdes c h)" unfolding HandleSdes_def
    by (rule keeps_parsed, rule handler_keepsI) (auto simp: chunks_R set_flag_def)
  show "handler_keeps R (HandleNack c h)" unfolding HandleNack_def
    by (rule keeps_parsed, rule handler_keepsI) (auto simp: Let_def set_flag_def R_fields intro!: R_ext split: if_splits)
  show "handler_keeps R (HandlePli c h)" unfolding HandlePli_def
    by (rule keeps_parsed, rule handler_keepsI) (auto simp: Let_def set_flag_def R_fields split: if_splits)
  show "handler_keeps R (HandleTmmbr c ck h)" unfolding HandleTmmbr_def
    by (rule keeps_parsed, rule handler_keepsI) (auto simp: Let_def dest: requests_R)
  show "handler_keeps R (HandleTmmbn ck h)" unfolding HandleTmmbn_def
    by (rule keeps_parsed, rule handler_keepsI) (auto simp: Let_def set_flag_def R_fields)
  show "handler_keeps R (HandleSrReq h)" unfolding HandleSrReq_def
    by (rule keeps_parsed, rule handler_keepsI) (auto simp: set_flag_def R_fields)
  show "handler_keeps R (HandleFir c ck h)" unfolding HandleFir_def
    by (rule keeps_parsed, rule handler_keepsI) (auto dest: fir_requests_R)
qed

lemma keeps_HandlePsfbApp: "handler_keeps R (HandlePsfbApp h)"
  by (rule handler_keepsI)
    (auto simp: HandlePsfbApp_def set_flag_def R_refl R_skip_block split: option.splits outcome.splits bind_splits)

lemma keeps_HandleXr: "handler_keeps R (HandleXr c ck h)"
  unfolding HandleXr_def
proof (rule keeps_parsed, rule handler_keepsI)
  have r: "R s (HandleXrReceiveReferenceTime ck ssrc n s)" for ssrc n s
    by (simp add: HandleXrReceiveReferenceTime_def Let_def R_fields)
  have "R s (HandleXrDlrrReportBlock c ck t s)" for t s
    by (simp add: HandleXrDlrrReportBlock_def R_fields)
  note d = R_fold [of "HandleXrDlrrReportBlock c ck", OF this]
  have t: "pk_pathid (HandleXrTargetBitrate ssrc b s i) = pk_pathid i" for ssrc b s i
    by (simp add: HandleXrTargetBitrate_def)
  fix x s i s' i'
  assume "(\<lambda>(s, i). let s = (case xr_rrtr x of None \<Rightarrow> s | Some r \<Rightarrow> HandleXrReceiveReferenceTime ck (xr_sender_ssrc x) r s);
         s = fold (HandleXrDlrrReportBlock c ck) (xr_dlrr x) s;
         i = (case xr_target_bitrate x of None \<Rightarrow> i | Some b \<Rightarrow> HandleXrTargetBitrate (xr_sender_ssrc x) b s i)
     in Some (s, i)) (s, i) = Some (s', i')"
  then show "R s s' \<and> pk_pathid i' = pk_pathid i"
    by (auto simp: Let_def d t intro!: R_trans [OF r d] split: option.splits)
qed

lemma trigger_R: "R s (TriggerCallbacksFromRtcpPacket fb c ck i s)"
proof -
  have "R s (NotifyTmmbrUpdated fb c ck s)" for s
    by (auto simp: NotifyTmmbrUpdated_def TmmbrReceived_def Let_def call_back_def R_fields intro!: R_ext)
  then show ?thesis
    by (auto simp: TriggerCallbacksFromRtcpPacket_def Let_def intro!: R_ext)
qed

end

text \<open>
  The relation has to be shown for what is stored for a path, by the blocks \<open>H\<close> selects: report blocks,
  the times of a sender report, the feedback of the second path, what a goodbye removes, and what an
  application packet changes in the shared collector.
\<close>

locale block_relation = receiver_relation R for R +
  fixes H :: "common_header \<Rightarrow> bool"
  assumes report_R: "H h \<Longrightarrow> pk_pathid i = ch_pathid h \<Longrightarrow> HandleReportBlock c ck b remote (s, i) = Some (s', i') \<Longrightarrow> R s s'"
    and sender_R: "H h \<Longrightarrow>
      R s (if ch_pathid h \<noteq> 2
           then s\<lparr>rv_remote_sender_ntp_time_p := ntp, rv_remote_sender_rtp_time_p := rtp, rv_last_received_sr_ntp_p := arrival\<rparr>
           else s\<lparr>rv_remote_sender_ntp_time_s := ntp, rv_remote_sender_rtp_time_s := rtp, rv_last_received_sr_ntp_s := arrival\<rparr>)"
    and feedback_R: "H h \<Longrightarrow> ch_pathid h = 2 \<Longrightarrow> R s (s\<lparr>rv_second_feedback := f\<rparr>)"
    and bye_R: "H h \<Longrightarrow> ch_type h = 203 \<Longrightarrow>
      R s (s\<lparr>rv_received_report_blocks_p := sm_vals (sm_erase ssrc) (rv_received_report_blocks_p s),
             rv_received_report_blocks_s := sm_vals (sm_erase ssrc) (rv_received_report_blocks_s s)\<rparr>)"
    and app_R: "H h \<Longrightarrow> ch_type h = 204 \<Longrightarrow> R s (s\<lparr>rv_mp := m\<rparr>)"
begin

lemma report_pathid: "HandleReportBlock c ck b remote (s, i) = Some (s', i') \<Longrightarrow> pk_pathid i' = pk_pathid i"
  by (auto simp: HandleReportBlock_def Let_def split: if_splits bind_splits)

lemma reports_R:
  assumes "H h"
  shows "pk_pathid i = ch_pathid h \<Longrightarrow> HandleReportBlocks c ck bs remote (s, i) = Some (s', i') \<Longrightarrow>
    R s s' \<and> pk_pathid i' = pk_pathid i"
proof (induction bs arbitrary: s i)
  case Nil
  then show ?case by (simp add: R_refl)
next
  case (Cons b bs)
  from Cons.prems(2) obtain t j where 1: "HandleReportBlock c ck b remote (s, i) = Some (t, j)"
    and 2: "HandleReportBlocks c ck bs remote (t, j) = Some (s', i')"
    by (auto simp: bind_eq_Some_conv)
  from report_R [OF assms Cons.prems(1) 1] report_pathid [OF 1] Cons.IH [OF _ 2] Cons.prems(1) show ?case
    by (auto intro: R_trans)
qed

lemma receiver_report_R:
  assumes "H h" "pk_pathid i = ch_pathid h" "HandleReceiverReport c ck h (s, i) = Some (s', i')"
  shows "R s s'"
proof -
  from assms(3) consider "s' = skip_block s"
    | r :: ReceiverReport where "HandleReportBlocks c ck (rr_report_blocks r) (rr_sender_ssrc r)
        (UpdateTmmbrRemoteIsAlive ck (rr_sender_ssrc r) s, set_flag kRtcpRr (i\<lparr>pk_remote_ssrc := rr_sender_ssrc r\<rparr>)) = Some (s', i')"
    by (cases "ReceiverReport_Parse h")
      (auto simp: HandleReceiverReport_def with_parsed_def Let_def split: outcome.splits)
  then show ?thesis
  proof cases
    case 2
    from reports_R [OF assms(1) _ this] assms(2) show ?thesis by (auto simp: set_flag_def intro: R_alive [THEN R_trans])
  qed (simp add: R_skip_block)
qed

lemma sender_report_R:
  assumes "H h" "pk_pathid i = ch_pathid h" "HandleSenderReport c ck h (s, i) = Some (s', i')"
  shows "R s s'"
proof -
  define upd where "upd r s = (if ch_pathid h \<noteq> 2
      then s\<lparr>rv_remote_sender_ntp_time_p := sr_ntp r, rv_remote_sender_rtp_time_p := sr_rtp_timestamp r,
             rv_last_received_sr_ntp_p := TimeMicrosToNtp ck\<rparr>
      else s\<lparr>rv_remote_sender_ntp_time_s := sr_ntp r, rv_remote_sender_rtp_time_s := sr_rtp_timestamp r,
             rv_last_received_sr_ntp_s := TimeMicrosToNtp ck\<rparr>)" for r :: SenderReport and s :: rtcp_receiver
  obtain q where q: "SenderReport_Parse h = Some q"
    using assms(3) by (cases "SenderReport_Parse h") (simp_all add: HandleSenderReport_def with_parsed_def)
  show ?thesis
  proof (cases q)
    case Fails
    then show ?thesis using assms(3) q by (auto simp: HandleSenderReport_def with_parsed_def R_skip_block)
  next
    case (Gives r)
    let ?s = "UpdateTmmbrRemoteIsAlive ck (sr_sender_ssrc r) s"
    have u: "R s (upd r ?s)" "R s ?s"
      using R_trans [OF R_alive sender_R [OF assms(1)]] R_alive by (simp_all add: upd_def)
    obtain t j where "R s t" "pk_pathid j = ch_pathid h"
      "HandleReportBlocks c ck (sr_report_blocks r) (sr_sender_ssrc r) (t, j) = Some (s', i')"
    proof (cases "rv_remote_ssrc ?s = sr_sender_ssrc r")
      case True
      show thesis
        by (rule that [of "upd r ?s" "set_flag kRtcpSr (i\<lparr>pk_remote_ssrc := sr_sender_ssrc r\<rparr>)"])
          (use assms(2,3) q Gives True u in
            \<open>simp_all add: HandleSenderReport_def with_parsed_def Let_def upd_def set_flag_def\<close>)
    next
      case False
      show thesis
        by (rule that [of ?s "set_flag kRtcpRr (i\<lparr>pk_remote_ssrc := sr_sender_ssrc r\<rparr>)"])
          (use assms(2,3) q Gives False u in
            \<open>simp_all add: HandleSenderReport_def with_parsed_def Let_def set_flag_def\<close>)
    qed
    from reports_R [OF assms(1) this(2,3)] this(1) show ?thesis by (auto intro: R_trans)
  qed
qed

lemma HandleBye_R: "H h \<Longrightarrow> ch_type h = 203 \<Longrightarrow> HandleBye h (s, i) = Some (s', i') \<Longrightarrow> R s s'"
  by (auto simp: HandleBye_def with_parsed_def Let_def R_skip_block split: option.splits outcome.splits bind_splits
      intro!: R_ext bye_R)

lemma HandleApp_R: "H h \<Longrightarrow> ch_type h = 204 \<Longrightarrow> HandleApp ck h (s, i) = Some (s', i') \<Longrightarrow> R s s'"
  by (auto simp: HandleApp_def with_parsed_def R_skip_block R_refl app_R
      split: option.splits outcome.splits bind_splits if_splits)

lemma transport_feedback_R: "H h \<Longrightarrow> HandleTransportFeedback junk h (s, i) = Some (s', i') \<Longrightarrow> R s s'"
  by (auto simp: HandleTransportFeedback_def with_parsed_def R_skip_block R_refl feedback_R
      split: option.splits outcome.splits bind_splits if_splits)

lemma handle_block_R:
  assumes "H h" "handle_block c ck junk h (s, i) = Some (s', i')"
  shows "R s s'"
proof -
  define s0 where "s0 = (if pc_first_packet_time_ms (rv_packet_type_counter s) = - 1
    then s\<lparr>rv_packet_type_counter := (rv_packet_type_counter s)\<lparr>pc_first_packet_time_ms := ck_ms ck\<rparr>\<rparr> else s)"
  define j where "j = i\<lparr>pk_pathid := ch_pathid h\<rparr>"
  have j: "pk_pathid j = ch_pathid h" by (simp add: j_def)
  have "R s s0" by (auto simp: s0_def intro!: R_ext)
  moreover have "R s0 s'"
    using assms(2) unfolding handle_block_def case_prod_conv Let_def j_def [symmetric] s0_def [symmetric]
    by (auto split: if_splits intro: sender_report_R [OF assms(1) j] receiver_report_R [OF assms(1) j] R_skip_block
        HandleBye_R [OF assms(1)] HandleApp_R [OF assms(1)] transport_feedback_R [OF assms(1)]
        dest: keeps_simple [THEN handler_keepsD] handler_keepsD [OF keeps_HandlePsfbApp] handler_keepsD [OF keeps_HandleXr])
  ultimately show ?thesis by (rule R_trans)
qed

lemma parse_blocks_R:
  assumes "parse_blocks c ck junk first rest (s, i) = Some (Gives (s', i'))" "\<forall>h \<in> set (block_headers rest). H h"
  shows "R s s'"
  using assms
proof (induction "length rest" arbitrary: first rest s i rule: less_induct)
  case less
  from less.prems(1) show ?case
  proof (cases rule: parse_blocks_cases)
    case (3 h z)
    obtain t j where z: "z = (t, j)" by fastforce
    have "R s t" using handle_block_R [OF _ 3(3) [unfolded z]] less.prems(2) by (simp add: 3(5))
    moreover have "R t s'"
      using less.hyps [of "drop (packet_size h) rest" False t j] 3(1,4) less.prems(2)
      by (simp add: 3(5) z packet_size_def kHeaderLength_def)
    ultimately show ?thesis by (rule R_trans)
  qed (auto simp: R_refl R_skip_block)
qed

lemma IncomingPacket_R:
  assumes "IncomingPacket fb c ck junk packet s = Some s'" "\<forall>h \<in> set (block_headers packet). H h"
  shows "R s s'"
  using assms(1)
proof (cases rule: IncomingPacket_cases)
  case (2 t i)
  have "R s t" by (rule parse_blocks_R [OF 2(1) assms(2)])
  then show ?thesis unfolding 2(2) by (auto simp: call_back_def intro!: R_trans [OF _ trigger_R] R_ext)
qed (simp add: R_refl)

end

section \<open>The two paths do not interfere\<close>

record path_view =
  pv_ntp :: NtpTime
  pv_rtp :: u32
  pv_arrival :: NtpTime
  pv_blocks :: report_block_map
  pv_rb_ms :: int
  pv_feedback :: "TransportFeedback option"

text \<open>What the receiver keeps for a path; the last feedback is kept for the second path only.\<close>

definition path_state :: "int \<Rightarrow> rtcp_receiver \<Rightarrow> path_view" where
  "path_state p s =
     (if p = 2
      then \<lparr>pv_ntp = rv_remote_sender_ntp_time_s s, pv_rtp = rv_remote_sender_rtp_time_s s,
            pv_arrival = rv_last_received_sr_ntp_s s, pv_blocks = rv_received_report_blocks_s s,
            pv_rb_ms = rv_last_received_rb_ms_s s, pv_feedback = rv_second_feedback s\<rparr>
      else \<lparr>pv_ntp = rv_remote_sender_ntp_time_p s, pv_rtp = rv_remote_sender_rtp_time_p s,
            pv_arrival = rv_last_received_sr_ntp_p s, pv_blocks = rv_received_report_blocks_p s,
            pv_rb_ms = rv_last_received_rb_ms_p s, pv_feedback = None\<rparr>)"

lemma HandleReportBlock_path:
  assumes "HandleReportBlock c ck b remote (s, i) = Some (s', i')" "(pk_pathid i = 2) \<noteq> (p = 2)"
  shows "path_state p s' = path_state p s"
proof (cases "p = 2")
  case True
  then show ?thesis using assms
    by (auto simp: HandleReportBlock_def path_state_def Let_def split: if_splits option.splits bind_splits)
next
  case False
  then show ?thesis using assms
    by (auto simp: HandleReportBlock_def path_state_def Let_def split: if_splits option.splits bind_splits)
qed

interpretation path: block_relation "\<lambda>s s'. path_state p s' = path_state p s"
  "\<lambda>h. (ch_pathid h = 2) \<noteq> (p = 2) \<and> ch_type h \<noteq> 203" for p
proof (unfold_locales, goal_cases)
  case (12 h i c ck b remote s s' i')
  then show ?case using HandleReportBlock_path by metis
qed (simp_all add: path_state_def)

lemma queries_path:
  assumes "path_state p s' = path_state p s"
  shows "RTT c r p s' = RTT c r p s" "NTP p s' = NTP p s" "GetLatestReportBlockData p s' = GetLatestReportBlockData p s"
    "LastReceivedReportBlockMs p s' = LastReceivedReportBlockMs p s"
  using assms
  by (cases "p = 2"; simp add: path_state_def RTT_def NTP_def GetLatestReportBlockData_def LastReceivedReportBlockMs_def)+

section \<open>Round trip times\<close>

definition rtt_ok :: "ReportBlockData \<Rightarrow> bool" where
  "rtt_ok d \<longleftrightarrow>
     rd_num_rtts d = 0 \<and> rd_max_rtt_ms d = 0 \<and> rd_sum_rtt_ms d = 0 \<or>
     0 < rd_num_rtts d \<and> 1 \<le> rd_min_rtt_ms d \<and> rd_min_rtt_ms d \<le> rd_last_rtt_ms d \<and>
     rd_last_rtt_ms d \<le> rd_max_rtt_ms d \<and> rd_max_rtt_ms d \<le> 32768000 \<and>
     rd_min_rtt_ms d * int (rd_num_rtts d) \<le> rd_sum_rtt_ms d \<and>
     rd_sum_rtt_ms d \<le> rd_max_rtt_ms d * int (rd_num_rtts d)"

definition blocks_ok :: "report_block_map \<Rightarrow> bool" where
  "blocks_ok m \<longleftrightarrow> (\<forall>n \<in> snd ` set m. \<forall>d \<in> snd ` set n. rtt_ok d)"

definition rtt_inv :: "rtcp_receiver \<Rightarrow> bool" where
  "rtt_inv s \<longleftrightarrow> blocks_ok (rv_received_report_blocks_p s) \<and> blocks_ok (rv_received_report_blocks_s s)"

lemma CompactNtpRttToMs_bounds: "1 \<le> CompactNtpRttToMs x \<and> CompactNtpRttToMs x \<le> 32768000"
proof (cases "x > 0x80000000")
  case False
  then have "uint x \<le> 0x80000000" by (simp add: word_less_def)
  then have "125 * uint x div 8192 + (if 32767 < uint x * 1000 mod 65536 then 1 else 0) \<le> 32768000"
    by (cases "uint x = 0x80000000") auto
  then have "DivideRoundToNearest (uint x * 1000) 65536 \<le> 32768000"
    by (auto simp: DivideRoundToNearest_def signed_divide_int_def signed_modulo_int_def sgn_if)
  with False show ?thesis by (simp add: CompactNtpRttToMs_def)
qed (simp add: CompactNtpRttToMs_def)

lemma rtt_ok_sample:
  assumes "rtt_ok d" "1 \<le> r" "r \<le> 32768000"
  shows "rtt_ok (AddRoundTripTimeSample r d)"
proof -
  define mx where "mx = (if r > rd_max_rtt_ms d then r else rd_max_rtt_ms d)"
  define mn where "mn = (if rd_num_rtts d = 0 \<or> r < rd_min_rtt_ms d then r else rd_min_rtt_ms d)"
  let ?e = "AddRoundTripTimeSample r d" and ?n = "int (rd_num_rtts d)"
  have e: "rd_max_rtt_ms ?e = mx" "rd_min_rtt_ms ?e = mn" "rd_last_rtt_ms ?e = r" "rd_num_rtts ?e = rd_num_rtts d + 1"
    "rd_sum_rtt_ms ?e = rd_sum_rtt_ms d + r"
    by (simp_all add: AddRoundTripTimeSample_def Let_def mx_def mn_def)
  have "mn * ?n \<le> rd_sum_rtt_ms d \<and> rd_sum_rtt_ms d \<le> mx * ?n"
  proof (cases "rd_num_rtts d = 0")
    case False
    have "mn * ?n \<le> rd_min_rtt_ms d * ?n" "rd_max_rtt_ms d * ?n \<le> mx * ?n"
      using False by (auto simp: mn_def mx_def intro!: mult_right_mono)
    moreover have "rd_min_rtt_ms d * ?n \<le> rd_sum_rtt_ms d" "rd_sum_rtt_ms d \<le> rd_max_rtt_ms d * ?n"
      using assms(1) False by (auto simp: rtt_ok_def)
    ultimately show ?thesis by simp
  qed (use assms(1) in \<open>simp_all add: rtt_ok_def\<close>)
  moreover have "1 \<le> mn" "mn \<le> r" "r \<le> mx" "mx \<le> 32768000" using assms by (auto simp: mn_def mx_def rtt_ok_def)
  ultimately show ?thesis by (simp add: rtt_ok_def e algebra_simps)
qed

lemma rtt_ok_update: "rtt_ok d \<Longrightarrow> rtt_ok (update_block ck remote b d)"
proof -
  assume "rtt_ok d"
  then have "rtt_ok (SetReportBlock x t d)" for x t by (simp add: rtt_ok_def SetReportBlock_def)
  then show ?thesis
    using CompactNtpRttToMs_bounds by (auto simp: update_block_def Let_def block_rtt_def intro: rtt_ok_sample)
qed

lemma rtt_ok_new: "rtt_ok ReportBlockData_new"
  by (simp add: rtt_ok_def ReportBlockData_new_def)

lemma blocks_ok_find: "blocks_ok m \<Longrightarrow> find_block a b m = Some d \<Longrightarrow> rtt_ok d"
  by (fastforce simp: blocks_ok_def find_block_def bind_eq_Some_conv dest: map_of_SomeD)

lemma blocks_ok_put:
  assumes "blocks_ok m" "rtt_ok d"
  shows "blocks_ok (put_block a b d m)"
proof -
  let ?n = "case map_of m a of None \<Rightarrow> [] | Some n \<Rightarrow> n"
  have "\<forall>d \<in> snd ` set ?n. rtt_ok d"
    using assms(1) by (cases "map_of m a") (auto simp: blocks_ok_def dest!: map_of_SomeD, force)
  then have "\<forall>d \<in> snd ` set (sm_put b d ?n). rtt_ok d" using set_sm_put [of b d ?n] assms(2) by fastforce
  then show ?thesis
    using set_sm_put [of a "sm_put b d ?n" m] assms(1) by (fastforce simp: blocks_ok_def put_block_def)
qed

lemma blocks_ok_erase: "blocks_ok m \<Longrightarrow> blocks_ok (sm_vals (sm_erase k) m)"
  by (fastforce simp: blocks_ok_def sm_vals_def sm_erase_def)

lemma HandleReportBlock_rtt:
  assumes "HandleReportBlock c ck b remote (s, i) = Some (s', i')" "rtt_inv s"
  shows "rtt_inv s'"
proof (cases "rb_source_ssrc b \<in> set (rc_registered_ssrcs c)")
  case True
  define m where "m = (if pk_pathid i \<noteq> 2 then rv_received_report_blocks_p s else rv_received_report_blocks_s s)"
  define d where "d = (case find_block (rb_source_ssrc b) remote m of None \<Rightarrow> ReportBlockData_new | Some d \<Rightarrow> d)"
  define m' where "m' = put_block (rb_source_ssrc b) remote (update_block ck remote b d) m"
  have m: "blocks_ok m" using assms(2) by (simp add: m_def rtt_inv_def)
  then have "rtt_ok d" by (auto simp: d_def rtt_ok_new blocks_ok_find split: option.split)
  with m have "blocks_ok m'" by (simp add: m'_def blocks_ok_put rtt_ok_update)
  moreover have "rv_received_report_blocks_p s' = (if pk_pathid i \<noteq> 2 then m' else rv_received_report_blocks_p s)"
    "rv_received_report_blocks_s s' = (if pk_pathid i \<noteq> 2 then rv_received_report_blocks_s s else m')"
    using assms(1) True
    by (cases "pk_pathid i = 2"; auto simp: HandleReportBlock_def m'_def d_def m_def Let_def split: bind_splits)+
  ultimately show ?thesis using assms(2) by (simp add: rtt_inv_def)
qed (use assms in \<open>simp add: HandleReportBlock_def\<close>)

interpretation rtt: block_relation "\<lambda>s s'. rtt_inv s \<longrightarrow> rtt_inv s'" "\<lambda>_. True"
proof (unfold_locales, goal_cases)
  case (12 h i c ck b remote s s' i')
  then show ?case using HandleReportBlock_rtt by blast
qed (simp_all add: rtt_inv_def blocks_ok_erase)

text \<open>The calls that change the receiver.\<close>

inductive rtcp_reachable :: "receiver_config \<Rightarrow> rtcp_receiver \<Rightarrow> bool" for c where
  init: "rtcp_reachable c (rtcp_receiver_init m)"
| packet: "rtcp_reachable c s \<Longrightarrow> IncomingPacket fb c ck junk packet s = Some s' \<Longrightarrow> rtcp_reachable c s'"
| remote: "rtcp_reachable c s \<Longrightarrow> rtcp_reachable c (SetRemoteSSRC ssrc s)"
| timeout: "rtcp_reachable c s \<Longrightarrow> rtcp_reachable c (snd (RtcpRrTimeout c ck pathid s))"
| sequence_timeout: "rtcp_reachable c s \<Longrightarrow> rtcp_reachable c (snd (RtcpRrSequenceNumberTimeout c ck s))"
| tmmbr_timers: "rtcp_reachable c s \<Longrightarrow> rtcp_reachable c (snd (UpdateTmmbrTimers ck s))"
| tmmbr: "rtcp_reachable c s \<Longrightarrow> rtcp_reachable c (snd (TmmbrReceived ck s))"
| xr_status: "rtcp_reachable c s \<Longrightarrow> rtcp_reachable c (SetRtcpXrRrtrStatus enable s)"
| xr_rtt: "rtcp_reachable c s \<Longrightarrow> rtcp_reachable c (snd (GetAndResetXrRrRtt s))"
| xr_times: "rtcp_reachable c s \<Longrightarrow> rtcp_reachable c (snd (ConsumeReceivedXrReferenceTimeInfo ck s))"

lemma rtcp_reachable_rtt: "rtcp_reachable c s \<Longrightarrow> rtt_inv s"
proof (induction rule: rtcp_reachable.induct)
  case (packet s fb ck junk p s')
  then show ?case using rtt.IncomingPacket_R by blast
qed (simp_all add: rtt_inv_def rtcp_receiver_init_def blocks_ok_def SetRemoteSSRC_def RtcpRrTimeout_def
  RtcpRrSequenceNumberTimeout_def UpdateTmmbrTimers_def TmmbrReceived_def SetRtcpXrRrtrStatus_def
  GetAndResetXrRrRtt_def ConsumeReceivedXrReferenceTimeInfo_def Let_def case_prod_beta)

section \<open>Properties\<close>


text \<open>
  C10: every round trip time a receiver reports for a path lies between 1 and 32768000
  milliseconds, the last one and the average between the smallest and the largest.
\<close>

theorem rtt_bounds:
  assumes "rtcp_reachable c s" "RTT c remote p s = Some (lst, avg, mn, mx)"
  shows "1 \<le> mn \<and> mn \<le> lst \<and> lst \<le> mx \<and> mn \<le> avg \<and> avg \<le> mx \<and> mx \<le> 32768000"
proof -
  let ?m = "if p \<noteq> 2 then rv_received_report_blocks_p s else rv_received_report_blocks_s s"
  obtain d where d: "find_block (rc_main_ssrc c) remote ?m = Some d" "0 < rd_num_rtts d"
    "lst = rd_last_rtt_ms d" "avg = rd_sum_rtt_ms d sdiv int (rd_num_rtts d)" "mn = rd_min_rtt_ms d" "mx = rd_max_rtt_ms d"
    using assms(2) by (auto simp: RTT_def split: option.splits if_splits)
  have "blocks_ok ?m" using rtcp_reachable_rtt [OF assms(1)] by (simp add: rtt_inv_def)
  then have ok: "rtt_ok d" using d(1) by (rule blocks_ok_find)
  let ?n = "int (rd_num_rtts d)"
  have sum: "mn * ?n \<le> rd_sum_rtt_ms d" "rd_sum_rtt_ms d \<le> mx * ?n" "1 \<le> mn"
    using ok d(2,5,6) by (auto simp: rtt_ok_def)
  then have "0 \<le> rd_sum_rtt_ms d" by (smt (verit) mult_nonneg_nonneg of_nat_0_le_iff)
  then have "avg = rd_sum_rtt_ms d div ?n" using d(2) by (simp add: d(4) signed_divide_int_def sgn_if)
  moreover have "mn * ?n div ?n \<le> rd_sum_rtt_ms d div ?n" "rd_sum_rtt_ms d div ?n \<le> mx * ?n div ?n"
    using sum d(2) by (simp_all only: zdiv_mono1 of_nat_0_less_iff)
  ultimately have "mn \<le> avg" "avg \<le> mx" using d(2) by simp_all
  then show ?thesis using ok d by (auto simp: rtt_ok_def)
qed

text \<open>Examples for both.\<close>

declare block_headers.simps [code]

definition example_config :: receiver_config where
  "example_config =
     \<lparr>rc_receiver_only = False, rc_main_ssrc = 5, rc_registered_ssrcs = [5], rc_report_interval_ms = 1000,
      rc_bandwidth_observer = True, rc_intra_frame_observer = True, rc_loss_notification_observer = True,
      rc_network_state_estimate_observer = True, rc_transport_feedback_observer = True,
      rc_bitrate_allocation_observer = True, rc_stats_callback = False, rc_cname_callback = False,
      rc_report_block_data_observer = False, rc_packet_type_counter_observer = False\<rparr>"

definition example_clock :: clock_reading where
  "example_clock = \<lparr>ck_us = 2000000, ck_ms = 2000, ck_utc_us = 0, ck_ntp_offset_ms = 0\<rparr>"

text \<open>A receiver report with one block, about SSRC 5, on the second path.\<close>

definition example_report :: bytes where
  "example_report =
     [0x81, 201, 0, 8, 0, 0, 0, 2, 0, 0, 0, 9,
      0, 0, 0, 5, 0, 0, 0, 0, 0, 0, 0, 100, 0, 0, 0, 0, 0, 1, 0, 0, 0, 0, 0x80, 0, 0, 0, 0, 0]"

definition example_receiver :: rtcp_receiver where
  "example_receiver =
     the (IncomingPacket id example_config example_clock [] example_report (rtcp_receiver_init (mp_init (Fin 0) (Fin 0) 0 0)))"

lemma example_received:
  "IncomingPacket id example_config example_clock [] example_report (rtcp_receiver_init (mp_init (Fin 0) (Fin 0) 0 0)) =
     Some example_receiver"
proof -
  have "IncomingPacket id example_config example_clock [] example_report (rtcp_receiver_init (mp_init (Fin 0) (Fin 0) 0 0)) \<noteq> None"
    by code_simp
  then show ?thesis by (auto simp: example_receiver_def)
qed

lemma example_report_blocks: "map (\<lambda>h. (ch_type h, ch_pathid h)) (block_headers example_report) = [(201, 2)]"
  by code_simp

lemma example_rtt: "RTT example_config 9 2 example_receiver = Some (500, 500, 500, 500)"
  by code_simp


theorem rtt_bounds_witness: "rtcp_reachable example_config example_receiver \<and> (1 :: int) \<le> 500 \<and> (500 :: int) \<le> 32768000"
proof -
  have "rtcp_reachable example_config example_receiver"
    by (rule rtcp_reachable.packet [OF rtcp_reachable.init example_received])
  from this rtt_bounds [OF this example_rtt] show ?thesis by blast
qed

end
