(* ===== verification/ReceiverSafety.thy ===== *)
theory ReceiverSafety
  imports ReceiverPaths
begin

text \<open>
  The receiver of RTCP packets on arbitrary bytes: the parsers read only the payload, so the receiver
  is defined unless an application packet is too short for its handler, which does not check the
  length. The condition is exact.
\<close>

section \<open>Parsers\<close>

lemma parse_chunks_safe: "parse_chunks pl n i ds f \<noteq> None"
proof (induction pl n i ds f rule: parse_chunks.induct)
  case (1 pl n i ds f)
  show ?case
  proof (cases "length ds < n \<and> \<not> i + kChunkSizeBytes > length pl")
    case True
    then obtain chunk where "rd16 pl i = Some chunk" using rd_exists(2) [of i pl] by (auto simp: kChunkSizeBytes_def)
    then show ?thesis using True "1.IH" by (simp add: parse_chunks.simps [of pl n i] Let_def)
  qed (auto simp: parse_chunks.simps [of pl n i])
qed

lemma parse_deltas_safe: "parse_deltas pl ds s i f \<noteq> None"
proof (induction ds arbitrary: s i f)
  case (Cons d ds)
  consider "i + d > length pl" | "d = 0" | "\<not> i + d > length pl" "d = 1" | "\<not> i + d > length pl" "d = 2"
    | "\<not> i + d > length pl" "d \<noteq> 0" "d \<noteq> 1" "d \<noteq> 2" by blast
  then show ?case
  proof cases
    case 3
    then obtain b where "rd8 pl i = Some b" using rd_exists(1) [of i pl] by auto
    then show ?thesis using 3 Cons.IH by (simp add: Let_def)
  next
    case 4
    then obtain b where "rd16 pl i = Some b" using rd_exists(2) [of i pl] by auto
    then show ?thesis using 4 Cons.IH by (simp add: Let_def)
  qed (use Cons.IH in simp_all)
qed simp

lemma TransportFeedback_Parse_safe: "TransportFeedback_Parse h f \<noteq> None"
proof (cases "length (ch_payload h) < 18")
  case False
  let ?p = "ch_payload h"
  obtain a b c d e g where "rd32 ?p 0 = Some a" "rd32 ?p 4 = Some b" "rd16 ?p 8 = Some c" "rd16 ?p 10 = Some d"
    "rd24s ?p 12 = Some e" "rd8 ?p 15 = Some g"
    using False rd_exists(5) [of 0 ?p] rd_exists(5) [of 4 ?p] rd_exists(2) [of 8 ?p] rd_exists(2) [of 10 ?p]
      rd_exists(4) [of 12 ?p] rd_exists(1) [of 15 ?p] by auto
  then show ?thesis
    by (auto simp: parse_chunks_safe parse_deltas_safe TransportFeedback_Parse_def Let_def kMinPayloadSizeBytes_def ParseCommonFeedback_def
        split: outcome.splits if_splits bind_splits)
qed (simp add: TransportFeedback_Parse_def Let_def kMinPayloadSizeBytes_def)

lemma CommonHeader_Parse_safe: "CommonHeader_Parse b \<noteq> None"
proof (cases "length b < 8")
  case False
  then have "0 < length b" "1 < length b" by linarith+
  then obtain b0 t l p where r: "rd8 b 0 = Some b0" "rd8 b 1 = Some t" "rd16 b 2 = Some l" "rd32 b 4 = Some p"
    using False rd_exists(1) [of 0 b] rd_exists(1) [of 1 b] rd_exists(2) [of 2 b] rd_exists(5) [of 4 b] by auto
  have "\<exists>v. rd8 b (8 + unat l * 4 - 1) = Some v" if "\<not> length b < 8 + unat l * 4" using that by (intro rd_exists) simp
  then show ?thesis using False r by (auto simp: CommonHeader_Parse_def kHeaderLength_def Let_def)
qed (simp add: CommonHeader_Parse_def kHeaderLength_def)

lemma ReceiverReport_Parse_safe: "ReceiverReport_Parse h \<noteq> None"
proof (cases "length (ch_payload h) < 4 + ch_count h * 28")
  case False
  then have "ch_count h * 28 \<le> length (drop 4 (ch_payload h))" by simp
  then obtain bs where "read_items dec_block 28 (ch_count h) (drop 4 (ch_payload h)) = Some (Gives bs)"
    using dec_block_gives by blast
  moreover obtain v where "rd32 (ch_payload h) 0 = Some v" using False rd_exists(5) [of 0 "ch_payload h"] by auto
  ultimately show ?thesis by (simp add: ReceiverReport_Parse_def Let_def report_lengths)
qed (simp add: ReceiverReport_Parse_def Let_def report_lengths)

lemma SenderReport_Parse_safe: "SenderReport_Parse h \<noteq> None"
  using sender_report_parse_total [of h] by (auto split: if_splits)

lemma Nack_Parse_safe: "Nack_Parse h \<noteq> None"
proof (cases "length (ch_payload h) < 12")
  case False
  let ?p = "ch_payload h"
  have "(length ?p - 8) div 4 * 4 \<le> length (drop 8 ?p)" by simp
  from nack_items.read_items_safe [OF this] ParseCommonFeedback_total [of ?p] False show ?thesis
    by (auto simp: Nack_Parse_def Let_def fb_lengths kNackItemLength_def)
qed (simp add: Nack_Parse_def Let_def fb_lengths kNackItemLength_def)

section \<open>Handlers\<close>

text \<open>What an application packet has to contain so that its handler reads only its data.\<close>

definition app_readable :: "common_header \<Rightarrow> bool" where
  "app_readable h =
     (ch_type h = 204 \<longrightarrow>
        (case App_Parse h of
           Some (Gives a) \<Rightarrow>
             if app_name a = kRemoteEstimateName \<and> app_sub_type a = 13 then True
             else if app_sub_type a \<in> {1, 2} then app_name a = kMpappname \<longrightarrow> app_data a \<noteq> []
             else if app_sub_type a \<in> {3, 4, 5} then app_number a \<noteq> None
             else True
         | _ \<Rightarrow> True))"

lemma with_parsed_safe:
  "r \<noteq> None \<Longrightarrow> (\<And>x y. k x y \<noteq> None) \<Longrightarrow> with_parsed r k y \<noteq> None"
  by (cases y) (auto simp: with_parsed_def split: outcome.splits)

lemma HandleReportBlocks_safe:
  "TimeDelta_ms (ck_us ck) \<noteq> None \<Longrightarrow> HandleReportBlocks c ck bs remote x \<noteq> None"
proof (induction bs arbitrary: x)
  case (Cons b bs)
  have "HandleReportBlock c ck b remote x \<noteq> None"
    using Cons.prems by (cases x) (auto simp: HandleReportBlock_def Let_def)
  with Cons show ?case by auto
qed simp

lemma bind_defined: "(Option.bind m (\<lambda>x. Some (f x)) = None) = (m = None)"
  by (cases m) simp_all

lemma rd8_first: "(rd8 d 0 = None) = (d = [])"
  by (auto simp: rd8_def)

lemma HandleApp_defined:
  assumes "ch_type h = 204"
  shows "HandleApp ck h x \<noteq> None \<longleftrightarrow> app_readable h"
proof -
  obtain s i where x: "x = (s, i)" by fastforce
  obtain r where r: "App_Parse h = Some r" using misc_parsers_safe [of h] by auto
  show ?thesis
  proof (cases r)
    case (Gives a)
    obtain e where e: "RemoteEstimate_ParseData (app_data a) = Some e" using RemoteEstimate_ParseData_safe by auto
    have "(case e of Gives e \<Rightarrow> Some (s, i\<lparr>pk_network_state_estimate := Some e\<rparr>) | Fails \<Rightarrow> Some (skip_block s, i)) \<noteq> None"
      by (cases e) simp_all
    then show ?thesis using r Gives assms
      by (simp add: x HandleApp_def with_parsed_def app_readable_def e bind_defined rd8_first del: not_None_eq not_Some_eq)
  qed (simp add: x r assms HandleApp_def with_parsed_def app_readable_def)
qed

lemma handle_block_defined:
  assumes "TimeDelta_ms (ck_us ck) \<noteq> None"
  shows "handle_block c ck junk h x \<noteq> None \<longleftrightarrow> app_readable h"
proof (cases "ch_type h = 204")
  case True
  obtain s i where x: "x = (s, i)" by fastforce
  have "handle_block c ck junk h x = HandleApp ck h
    ((if pc_first_packet_time_ms (rv_packet_type_counter s) = - 1
      then s\<lparr>rv_packet_type_counter := (rv_packet_type_counter s)\<lparr>pc_first_packet_time_ms := ck_ms ck\<rparr>\<rparr> else s),
     i\<lparr>pk_pathid := ch_pathid h\<rparr>)"
    by (simp add: handle_block_def x True Let_def)
  then show ?thesis using HandleApp_defined [OF True] by simp
next
  case False
  note rb = HandleReportBlocks_safe [OF assms]
  have "HandleSenderReport c ck h y \<noteq> None" "HandleReceiverReport c ck h y \<noteq> None" "HandleSdes c h y \<noteq> None"
    "HandleXr c ck h y \<noteq> None" "HandleBye h y \<noteq> None" "HandleNack c h y \<noteq> None" "HandleTmmbr c ck h y \<noteq> None"
    "HandleTmmbn ck h y \<noteq> None" "HandleSrReq h y \<noteq> None" "HandleTransportFeedback junk h y \<noteq> None"
    "HandlePli c h y \<noteq> None" "HandleFir c ck h y \<noteq> None" "HandlePsfbApp h y \<noteq> None" for y
  proof -
    note safe = feedback_parsers_safe [of h] misc_parsers_safe [of h] TransportFeedback_Parse_safe [of h]
      ExtendedReports_Parse_safe [of h]
    show "HandleSenderReport c ck h y \<noteq> None" unfolding HandleSenderReport_def
      by (rule with_parsed_safe [OF SenderReport_Parse_safe]) (simp add: Let_def case_prod_beta rb)
    show "HandleReceiverReport c ck h y \<noteq> None" unfolding HandleReceiverReport_def
      by (rule with_parsed_safe [OF ReceiverReport_Parse_safe]) (simp add: Let_def case_prod_beta rb)
    show "HandleNack c h y \<noteq> None" unfolding HandleNack_def
      by (rule with_parsed_safe [OF Nack_Parse_safe]) (simp add: Let_def case_prod_beta)
    show "HandleSdes c h y \<noteq> None" "HandleXr c ck h y \<noteq> None" "HandleBye h y \<noteq> None" "HandleTmmbr c ck h y \<noteq> None"
      "HandleTmmbn ck h y \<noteq> None" "HandleSrReq h y \<noteq> None" "HandleTransportFeedback junk h y \<noteq> None"
      "HandlePli c h y \<noteq> None" "HandleFir c ck h y \<noteq> None"
      unfolding HandleSdes_def HandleXr_def HandleBye_def HandleTmmbr_def HandleTmmbn_def HandleSrReq_def
        HandleTransportFeedback_def HandlePli_def HandleFir_def
      using safe by (intro with_parsed_safe; simp add: Let_def case_prod_beta)+
    show "HandlePsfbApp h y \<noteq> None"
    proof -
      obtain a b where "Remb_Parse h = Some a" "LossNotification_Parse h = Some b" using safe by auto
      then show ?thesis by (cases y; cases a; cases b) (auto simp: HandlePsfbApp_def)
    qed
  qed
  then show ?thesis using False by (cases x) (simp add: handle_block_def Let_def app_readable_def)
qed

lemma parse_blocks_defined:
  assumes "TimeDelta_ms (ck_us ck) \<noteq> None"
  shows "parse_blocks c ck junk first rest x \<noteq> None \<longleftrightarrow> list_all app_readable (block_headers rest)"
proof (induction "length rest" arbitrary: first rest x rule: less_induct)
  case less
  show ?case
  proof (cases "rest = []")
    case True
    then show ?thesis using parse_blocks.simps [of c ck junk first "[]" x] block_headers.simps [of "[]"] by simp
  next
    case False
    obtain r where r: "CommonHeader_Parse rest = Some r" using CommonHeader_Parse_safe by auto
    show ?thesis
    proof (cases r)
      case Fails
      then show ?thesis using False r by (simp add: parse_blocks.simps [of c ck junk first rest x] block_headers.simps [of rest])
    next
      case (Gives h)
      then have b: "block_headers rest = h # block_headers (drop (packet_size h) rest)"
        using False r by (simp add: block_headers.simps [of rest])
      have p: "parse_blocks c ck junk first rest x =
          Option.bind (handle_block c ck junk h x) (parse_blocks c ck junk False (drop (packet_size h) rest))"
        using False r Gives by (simp add: parse_blocks.simps [of c ck junk first rest x])
      have "length (drop (packet_size h) rest) < length rest" using False by (simp add: packet_size_def kHeaderLength_def)
      note ih = less.hyps [OF this]
      show ?thesis
      proof (cases "handle_block c ck junk h x")
        case None
        then show ?thesis using handle_block_defined [OF assms, of c junk h x] by (simp add: p b)
      next
        case (Some y)
        then have "app_readable h" using handle_block_defined [OF assms, of c junk h x] by simp
        then show ?thesis using ih [of False y] by (simp add: p b Some)
      qed
    qed
  qed
qed

section \<open>Properties\<close>

text \<open>
  C9: on every packet, whatever its bytes, the receiver reads only the packet, unless the packet
  has an application block of the multipath extension that is too short or whose number is not
  terminated: then, and only then, \<open>HandleApp\<close> reads out of bounds. (The clock has to be within
  the range of a \<open>TimeDelta\<close>.)
\<close>

theorem incoming_packet_defined:
  assumes "TimeDelta_ms (ck_us ck) \<noteq> None"
  shows "IncomingPacket fb c ck junk packet s \<noteq> None \<longleftrightarrow> list_all app_readable (block_headers packet)"
proof (cases "packet = []")
  case True
  then show ?thesis using block_headers.simps [of "[]"] by (simp add: IncomingPacket_def)
next
  case False
  let ?p = "parse_blocks c ck junk True packet (s, PacketInformation_new)"
  have "IncomingPacket fb c ck junk packet s \<noteq> None \<longleftrightarrow> ?p \<noteq> None"
  proof (cases ?p)
    case None
    then show ?thesis using False by (simp add: IncomingPacket_def ParseCompoundPacket_def)
  next
    case (Some r)
    then show ?thesis using False by (cases r) (auto simp: IncomingPacket_def ParseCompoundPacket_def)
  qed
  then show ?thesis using parse_blocks_defined [OF assms] by simp
qed

text \<open>An application packet of subtype 1, named "sand", without data.\<close>

definition empty_signal :: bytes where
  "empty_signal = [0x81, 204, 0, 2, 0, 0, 0, 1, 0, 0, 0, 9, 0x73, 0x61, 0x6e, 0x64]"

theorem incoming_packet_defined_witness:
  "IncomingPacket id example_config example_clock [] example_report example_receiver \<noteq> None \<and>
   IncomingPacket id example_config example_clock [] empty_signal example_receiver = None"
proof -
  have ck: "TimeDelta_ms (ck_us example_clock) \<noteq> None" by code_simp
  have "list_all app_readable (block_headers example_report)" "\<not> list_all app_readable (block_headers empty_signal)"
    by code_simp+
  with incoming_packet_defined [OF ck] show ?thesis by blast
qed

end
