(* ===== verification/NackModule.thy ===== *)
theory NackModule
  imports SeqNum
begin

text \<open>
  The receiver's list of missing packets, \<open>NackModule2\<close> (\<open>modules/video_coding/nack_module2.cc\<close>), one
  object for each path. The three ordered containers of the source are lists in iteration order:
  \<open>lower_bound\<close> is the first element the comparison \<open>DescendingSeqNumComp\<close> does not put before the
  argument, and an insertion goes before the first element that does not come before it. The
  time is an argument; calls of \<open>SendNack\<close> and \<open>RequestKeyFrame\<close> are collected in \<open>nm_out\<close>. The
  resend delay as a function of round trip time and number of retries is a parameter, because
  the exponential backoff uses \<open>std::pow\<close>; without backoff it is the round trip time.
  \<open>reordering_histogram_\<close> is left out: \<open>is_retransmitted\<close> is constantly true in the code, so it
  stays empty and \<open>WaitNumberOfPackets\<close> returns 0.
\<close>

section \<open>State\<close>

record NackInfo =
  ni_seq_num :: u16
  ni_send_at_seq_num :: u16
  ni_created_at_time :: int
  ni_sent_at_time :: int
  ni_retries :: int

datatype nack_event =
  SendNack "u16 list" bool int
| RequestKeyFrame

datatype NackFilterOptions = kSeqNumOnly | kTimeOnly | kSeqNumAndTime

record nack_module =
  nm_nack_list :: "(u16 \<times> NackInfo) list"
  nm_keyframe_list :: "u16 list"
  nm_recovered_list :: "u16 list"
  nm_initialized :: bool
  nm_rtt_ms :: int
  nm_newest_seq_num :: u16
  nm_send_nack_delay_ms :: int
  nm_resend_delay :: "int \<Rightarrow> int \<Rightarrow> int"
  nm_out :: "nack_event list"

definition kMaxPacketAge :: u16 where "kMaxPacketAge = 10000"
definition kMaxNackPackets :: nat where "kMaxNackPackets = 1000"
definition kDefaultRttMs :: int where "kDefaultRttMs = 100"
definition kMaxNackRetries :: int where "kMaxNackRetries = 10"

definition nack_info :: "u16 \<Rightarrow> u16 \<Rightarrow> int \<Rightarrow> NackInfo" where
  "nack_info seq_num send_at_seq_num created_at_time =
     \<lparr> ni_seq_num = seq_num, ni_send_at_seq_num = send_at_seq_num,
       ni_created_at_time = created_at_time, ni_sent_at_time = - 1, ni_retries = 0 \<rparr>"

text \<open>\<open>GetSendNackDelay\<close>: the field trial is used if it is between 1 and 20 ms.\<close>

definition GetSendNackDelay :: "int \<Rightarrow> int" where
  "GetSendNackDelay delay_ms = (if delay_ms > 0 \<and> delay_ms \<le> 20 then delay_ms else 0)"

definition nack_module_init :: "int \<Rightarrow> (int \<Rightarrow> int \<Rightarrow> int) \<Rightarrow> nack_module" where
  "nack_module_init trial_delay resend_delay =
     \<lparr> nm_nack_list = [], nm_keyframe_list = [], nm_recovered_list = [], nm_initialized = False,
       nm_rtt_ms = kDefaultRttMs, nm_newest_seq_num = 0,
       nm_send_nack_delay_ms = GetSendNackDelay trial_delay, nm_resend_delay = resend_delay, nm_out = [] \<rparr>"

section \<open>Ordered containers\<close>

text \<open>\<open>erase(begin(), lower_bound(k))\<close>: the elements before \<open>k\<close> are removed.\<close>

definition erase_before :: "('a \<Rightarrow> u16) \<Rightarrow> u16 \<Rightarrow> 'a list \<Rightarrow> 'a list" where
  "erase_before key k xs = dropWhile (\<lambda>x. DescendingSeqNumComp (key x) k) xs"

fun seq_insert :: "u16 \<Rightarrow> u16 list \<Rightarrow> u16 list" where
  "seq_insert k [] = [k]"
| "seq_insert k (x # xs) =
     (if k = x then x # xs else if DescendingSeqNumComp x k then x # seq_insert k xs else k # x # xs)"

text \<open>\<open>nack_list_[k] = info\<close>\<close>

fun nack_put :: "u16 \<Rightarrow> NackInfo \<Rightarrow> (u16 \<times> NackInfo) list \<Rightarrow> (u16 \<times> NackInfo) list" where
  "nack_put k info [] = [(k, info)]"
| "nack_put k info (x # xs) =
     (if k = fst x then (k, info) # xs
      else if DescendingSeqNumComp (fst x) k then x # nack_put k info xs
      else (k, info) # x # xs)"

section \<open>Operations\<close>

fun until_keyframe :: "u16 list \<Rightarrow> (u16 \<times> NackInfo) list \<Rightarrow> bool \<times> u16 list \<times> (u16 \<times> NackInfo) list" where
  "until_keyframe [] nl = (False, [], nl)"
| "until_keyframe (k # ks) nl =
     (let nl' = erase_before fst k nl
      in if length nl' < length nl then (True, k # ks, nl') else until_keyframe ks nl)"

definition RemovePacketsUntilKeyFrame :: "nack_module \<Rightarrow> bool \<times> nack_module" where
  "RemovePacketsUntilKeyFrame m =
     (let (b, ks, nl) = until_keyframe (nm_keyframe_list m) (nm_nack_list m)
      in (b, m\<lparr>nm_keyframe_list := ks, nm_nack_list := nl\<rparr>))"

lemma until_keyframe_less: "until_keyframe ks nl = (True, ks', nl') \<Longrightarrow> length nl' < length nl"
  by (induction ks) (auto simp: Let_def split: if_splits)

text \<open>The loop of \<open>AddPacketsToNack\<close> that makes room for \<open>n\<close> new entries.\<close>

function make_room_loop :: "nat \<Rightarrow> nack_module \<Rightarrow> nack_module" where
  "make_room_loop n m =
     (case RemovePacketsUntilKeyFrame m of
        (False, m') \<Rightarrow> m'
      | (True, m') \<Rightarrow>
          if length (nm_nack_list m') + n > kMaxNackPackets then make_room_loop n m' else m')"
  by pat_completeness auto
termination
  by (relation "measure (\<lambda>(_, m). length (nm_nack_list m))")
    (auto simp: RemovePacketsUntilKeyFrame_def split: prod.splits dest: until_keyframe_less)

lemma count_up_less: "(a :: u16) \<noteq> b \<Longrightarrow> unat (b - (a + 1)) < unat (b - a)"
proof -
  assume "a \<noteq> b"
  then have d: "b - a \<noteq> 0" by simp
  have "b - (a + 1) = b - a - 1" by simp
  then have "unat (b - (a + 1)) = unat (b - a) - 1" using unat_minus_one [OF d] by (simp only:)
  then show ?thesis using d by (simp add: unat_gt_0)
qed

function add_loop :: "int \<Rightarrow> u16 \<Rightarrow> u16 \<Rightarrow> nack_module \<Rightarrow> nack_module" where
  "add_loop now_ms seq_num seq_num_end m =
     (if seq_num = seq_num_end then m
      else add_loop now_ms (seq_num + 1) seq_num_end
        (if seq_num \<in> set (nm_recovered_list m) then m
         else m\<lparr>nm_nack_list := nack_put seq_num (nack_info seq_num seq_num now_ms) (nm_nack_list m)\<rparr>))"
  by pat_completeness auto
termination
  by (relation "measure (\<lambda>(_, seq_num, seq_num_end, _). unat (seq_num_end - seq_num))")
    (auto intro: count_up_less)

definition AddPacketsToNack :: "int \<Rightarrow> u16 \<Rightarrow> u16 \<Rightarrow> nack_module \<Rightarrow> nack_module" where
  "AddPacketsToNack now_ms seq_num_start seq_num_end m =
     (let m = m\<lparr>nm_nack_list := erase_before fst (seq_num_end - kMaxPacketAge) (nm_nack_list m)\<rparr>;
          num_new_nacks = unat (ForwardDiff seq_num_start seq_num_end);
          m = (if length (nm_nack_list m) + num_new_nacks > kMaxNackPackets
               then make_room_loop num_new_nacks m else m)
      in if length (nm_nack_list m) + num_new_nacks > kMaxNackPackets
         then m\<lparr>nm_nack_list := [], nm_out := nm_out m @ [RequestKeyFrame]\<rparr>
         else add_loop now_ms seq_num_start seq_num_end m)"

definition nack_now :: "NackFilterOptions \<Rightarrow> int \<Rightarrow> nack_module \<Rightarrow> NackInfo \<Rightarrow> bool" where
  "nack_now options now_ms m info =
     (let consider_seq_num = options \<noteq> kTimeOnly;
          consider_timestamp = options \<noteq> kSeqNumOnly;
          resend_delay = nm_resend_delay m (nm_rtt_ms m) (ni_retries info);
          delay_timed_out = now_ms - ni_created_at_time info \<ge> nm_send_nack_delay_ms m;
          nack_on_rtt_passed = now_ms - ni_sent_at_time info \<ge> resend_delay;
          nack_on_seq_num_passed =
            ni_sent_at_time info = - 1 \<and> AheadOrAt (nm_newest_seq_num m) (ni_send_at_seq_num info)
      in delay_timed_out \<and>
         (consider_seq_num \<and> nack_on_seq_num_passed \<or> consider_timestamp \<and> nack_on_rtt_passed))"

fun batch_loop :: "NackFilterOptions \<Rightarrow> int \<Rightarrow> nack_module \<Rightarrow> (u16 \<times> NackInfo) list \<Rightarrow>
    u16 list \<times> (u16 \<times> NackInfo) list" where
  "batch_loop options now_ms m [] = ([], [])"
| "batch_loop options now_ms m ((k, info) # xs) =
     (let (batch, rest) = batch_loop options now_ms m xs
      in if nack_now options now_ms m info
         then let info' = info\<lparr>ni_retries := ni_retries info + 1, ni_sent_at_time := now_ms\<rparr>
              in (ni_seq_num info # batch,
                  if ni_retries info' \<ge> kMaxNackRetries then rest else (k, info') # rest)
         else (batch, (k, info) # rest))"

definition GetNackBatch :: "NackFilterOptions \<Rightarrow> int \<Rightarrow> nack_module \<Rightarrow> u16 list \<times> nack_module" where
  "GetNackBatch options now_ms m =
     (let (batch, nl) = batch_loop options now_ms m (nm_nack_list m) in (batch, m\<lparr>nm_nack_list := nl\<rparr>))"

definition send_batch :: "NackFilterOptions \<Rightarrow> int \<Rightarrow> bool \<Rightarrow> int \<Rightarrow> nack_module \<Rightarrow> nack_module" where
  "send_batch options now_ms buffering_allowed pathid m =
     (let (batch, m) = GetNackBatch options now_ms m
      in if batch \<noteq> [] then m\<lparr>nm_out := nm_out m @ [SendNack batch buffering_allowed pathid]\<rparr> else m)"

text \<open>The body of the repeating task.\<close>

definition ProcessTimer :: "int \<Rightarrow> int \<Rightarrow> nack_module \<Rightarrow> nack_module" where
  "ProcessTimer now_ms pathid m = send_batch kTimeOnly now_ms False pathid m"

definition OnReceivedPacket :: "int \<Rightarrow> u16 \<Rightarrow> bool \<Rightarrow> bool \<Rightarrow> int \<Rightarrow> nack_module \<Rightarrow> int \<times> nack_module" where
  "OnReceivedPacket now_ms seq_num is_keyframe is_recovered pathid m =
     (if \<not> nm_initialized m
      then (0, m\<lparr> nm_newest_seq_num := seq_num,
                  nm_keyframe_list := (if is_keyframe then seq_insert seq_num (nm_keyframe_list m)
                                       else nm_keyframe_list m),
                  nm_initialized := True \<rparr>)
      else if seq_num = nm_newest_seq_num m then (0, m)
      else if AheadOf (nm_newest_seq_num m) seq_num
      then (case map_of (nm_nack_list m) seq_num of
              None \<Rightarrow> (0, m)
            | Some info \<Rightarrow>
                (ni_retries info, m\<lparr>nm_nack_list := filter (\<lambda>x. fst x \<noteq> seq_num) (nm_nack_list m)\<rparr>))
      else
        let ks = (if is_keyframe then seq_insert seq_num (nm_keyframe_list m) else nm_keyframe_list m);
            m = m\<lparr>nm_keyframe_list := erase_before id (seq_num - kMaxPacketAge) ks\<rparr>
        in if is_recovered
           then (0, m\<lparr>nm_recovered_list :=
                   erase_before id (seq_num - kMaxPacketAge) (seq_insert seq_num (nm_recovered_list m))\<rparr>)
           else let m = AddPacketsToNack now_ms (nm_newest_seq_num m + 1) seq_num m;
                    m = m\<lparr>nm_newest_seq_num := seq_num\<rparr>
                in (0, send_batch kSeqNumOnly now_ms True pathid m))"

definition ClearUpTo :: "u16 \<Rightarrow> nack_module \<Rightarrow> nack_module" where
  "ClearUpTo seq_num m =
     m\<lparr> nm_nack_list := erase_before fst seq_num (nm_nack_list m),
        nm_keyframe_list := erase_before id seq_num (nm_keyframe_list m),
        nm_recovered_list := erase_before id seq_num (nm_recovered_list m) \<rparr>"

definition UpdateRtt :: "int \<Rightarrow> nack_module \<Rightarrow> nack_module" where
  "UpdateRtt rtt_ms m = m\<lparr>nm_rtt_ms := rtt_ms\<rparr>"

section \<open>Ages\<close>

text \<open>How far a number is behind the number \<open>e\<close>.\<close>

definition age :: "u16 \<Rightarrow> u16 \<Rightarrow> nat" where
  "age e k = unat (e - k)"

lemma age_ahead:
  assumes "age e x < 0x8000" "age e y < 0x8000"
  shows "AheadOf x y \<longleftrightarrow> age e x < age e y"
proof -
  have u: "int (age e x) = uint (e - x)" "int (age e y) = uint (e - y)"
    by (simp_all add: age_def)
  have "uint (e - x) < 0x8000" "uint (e - y) < 0x8000" using assms u by linarith+
  moreover have "age e x < age e y \<longleftrightarrow> uint (e - x) < uint (e - y)" using u by linarith
  ultimately show ?thesis
    using uint16_gap [of e x] uint16_gap [of x e] uint16_gap [of e y] uint16_gap [of y e]
      uint16_gap [of x y] uint16_gap [of y x]
    unfolding AheadOf_IsNewer IsNewer16_alt uint_diff16 by (auto split: if_splits)
qed

lemma age_shift:
  assumes "age e n + age n k < 65536"
  shows "age e k = age e n + age n k"
proof -
  have "e - k = (e - n) + (n - k)" by simp
  moreover have "unat ((e - n) + (n - k)) = unat (e - n) + unat (n - k)"
    using assms by (subst unat_add_lem [THEN iffD1]) (auto simp: age_def)
  ultimately show ?thesis unfolding age_def by (simp only:)
qed

lemma age_0 [simp]: "age e s = 0 \<longleftrightarrow> s = e" "age e e = 0" "0 < age e s \<longleftrightarrow> s \<noteq> e"
  by (auto simp: age_def unat_eq_zero unat_gt_0)

lemma age_step: "s \<noteq> e \<Longrightarrow> age e s = Suc (age e (s + 1))"
proof -
  assume ne: "s \<noteq> e"
  then have d: "e - s \<noteq> 0" by simp
  have "e - (s + 1) = e - s - 1" by simp
  then have "age e (s + 1) = age e s - 1" unfolding age_def using unat_minus_one [OF d] by (simp only:)
  then show ?thesis using ne by (cases "age e s") auto
qed

section \<open>The list of missing packets\<close>

text \<open>
  Entries in the order of their age behind \<open>e\<close>, oldest first, at most \<open>B\<close> behind, each under its
  own number and asked for fewer than ten times.
\<close>

definition nack_ok :: "nat \<Rightarrow> u16 \<Rightarrow> (u16 \<times> NackInfo) list \<Rightarrow> bool" where
  "nack_ok B e xs \<longleftrightarrow> sorted_wrt (\<lambda>x y. age e (fst x) > age e (fst y)) xs \<and>
     (\<forall>x \<in> set xs. 0 < age e (fst x) \<and> age e (fst x) \<le> B \<and> ni_seq_num (snd x) = fst x \<and>
        0 \<le> ni_retries (snd x) \<and> ni_retries (snd x) < kMaxNackRetries)"

definition nack_inv :: "nack_module \<Rightarrow> bool" where
  "nack_inv m \<longleftrightarrow> nack_ok 10000 (nm_newest_seq_num m) (nm_nack_list m) \<and>
     length (nm_nack_list m) \<le> kMaxNackPackets \<and> (\<not> nm_initialized m \<longrightarrow> nm_nack_list m = [])"

lemma nack_ok_drop: "nack_ok B e xs \<Longrightarrow> nack_ok B e (drop k xs)"
  by (auto simp: nack_ok_def sorted_wrt_drop dest: in_set_dropD)

lemma nack_ok_filter: "nack_ok B e xs \<Longrightarrow> nack_ok B e (filter P xs)"
  by (auto simp: nack_ok_def sorted_wrt_filter)

lemma nack_ok_Nil [simp]: "nack_ok B e []"
  by (simp add: nack_ok_def)

lemma erase_before_drop: "\<exists>k. erase_before key q xs = drop k xs"
  unfolding erase_before_def by (metis dropWhile_eq_drop)

lemma until_keyframe_drop: "\<exists>k. snd (snd (until_keyframe ks nl)) = drop k nl"
proof (induction ks)
  case Nil
  then show ?case by (auto intro: exI [of _ 0])
next
  case (Cons q ks)
  then show ?case using erase_before_drop [of fst q nl] by (auto simp: Let_def)
qed

lemma make_room_loop_drop:
  "\<exists>k ks. make_room_loop n m = m\<lparr>nm_keyframe_list := ks, nm_nack_list := drop k (nm_nack_list m)\<rparr>"
proof (induction n m rule: make_room_loop.induct)
  case (1 n m)
  obtain b ks nl where u: "until_keyframe (nm_keyframe_list m) (nm_nack_list m) = (b, ks, nl)"
    using prod_cases3 by blast
  obtain k where k: "nl = drop k (nm_nack_list m)"
    using until_keyframe_drop [of "nm_keyframe_list m" "nm_nack_list m"] u by auto
  let ?m = "m\<lparr>nm_keyframe_list := ks, nm_nack_list := nl\<rparr>"
  have r: "RemovePacketsUntilKeyFrame m = (b, ?m)" by (simp add: RemovePacketsUntilKeyFrame_def u)
  show ?case
  proof (cases "b \<and> length nl + n > kMaxNackPackets")
    case True
    then obtain k' ks' where
      "make_room_loop n ?m = ?m\<lparr>nm_keyframe_list := ks', nm_nack_list := drop k' nl\<rparr>"
      using 1 r by fastforce
    then show ?thesis using True r k by (subst make_room_loop.simps) (auto simp: add.commute)
  next
    case False
    then show ?thesis using r k by (subst make_room_loop.simps) (cases b; auto)
  qed
qed

text \<open>The numbers from \<open>s\<close> up to \<open>e\<close> that have not been recovered, and their new entries.\<close>

definition missing :: "u16 list \<Rightarrow> u16 \<Rightarrow> u16 \<Rightarrow> u16 list" where
  "missing recovered s e = filter (\<lambda>k. k \<notin> set recovered) (map (\<lambda>i. s + of_nat i) [0..<age e s])"

definition new_entries :: "int \<Rightarrow> u16 list \<Rightarrow> (u16 \<times> NackInfo) list" where
  "new_entries now ks = map (\<lambda>k. (k, nack_info k k now)) ks"

lemma missing_refl [simp]: "missing r e e = []"
  by (simp add: missing_def)

lemma missing_step:
  assumes "s \<noteq> e"
  shows "missing r s e = (if s \<in> set r then [] else [s]) @ missing r (s + 1) e"
proof -
  have "age e s = Suc (age e (s + 1))" using age_step [OF assms] .
  moreover have "map (\<lambda>i. s + of_nat i) [0..<Suc d] = s # map (\<lambda>i. s + 1 + of_nat i) [0..<d]" for d :: nat
    by (simp add: upt_conv_Cons map_Suc_upt [symmetric] del: upt_Suc)
  ultimately show ?thesis by (simp add: missing_def)
qed

lemma nack_put_end:
  "\<forall>x \<in> set xs. AheadOf k (fst x) \<Longrightarrow> nack_put k info xs = xs @ [(k, info)]"
  by (induction xs) (auto simp: DescendingSeqNumComp_def AheadOf_def)

lemma nack_ok_snoc:
  assumes "nack_ok B e xs" "\<forall>x \<in> set xs. age e s < age e (fst x)" "s \<noteq> e" "age e s \<le> B"
  shows "nack_ok B e (xs @ [(s, nack_info s s now)])"
  using assms by (auto simp: nack_ok_def sorted_wrt_append nack_info_def kMaxNackRetries_def)

declare add_loop.simps [simp del] make_room_loop.simps [simp del]

lemma add_loop_result:
  assumes "nack_ok B e (nm_nack_list m)" "\<forall>x \<in> set (nm_nack_list m). age e s < age e (fst x)"
    "age e s \<le> B" "B < 0x8000"
  shows "add_loop now s e m =
      m\<lparr>nm_nack_list := nm_nack_list m @ new_entries now (missing (nm_recovered_list m) s e)\<rparr> \<and>
    nack_ok B e (nm_nack_list (add_loop now s e m))"
  using assms
proof (induction "age e s" arbitrary: s m)
  case 0
  then show ?case by (simp add: add_loop.simps new_entries_def)
next
  case (Suc d)
  have ne: "s \<noteq> e" using Suc.hyps(2) by auto
  have d: "d = age e (s + 1)" using Suc.hyps(2) age_step [OF ne] by simp
  let ?m = "if s \<in> set (nm_recovered_list m) then m
    else m\<lparr>nm_nack_list := nack_put s (nack_info s s now) (nm_nack_list m)\<rparr>"
  have "AheadOf s (fst x)" if "x \<in> set (nm_nack_list m)" for x
    using that Suc.prems age_ahead [of e s "fst x"] by (auto simp: nack_ok_def)
  then have put: "nack_put s (nack_info s s now) (nm_nack_list m) = nm_nack_list m @ [(s, nack_info s s now)]"
    by (intro nack_put_end) simp
  have "nack_ok B e (nm_nack_list ?m)" "\<forall>x \<in> set (nm_nack_list ?m). age e (s + 1) < age e (fst x)"
    using Suc.prems nack_ok_snoc [OF Suc.prems(1,2) ne Suc.prems(3)] d Suc.hyps(2) by (auto simp: put)
  then have "add_loop now (s + 1) e ?m =
      ?m\<lparr>nm_nack_list := nm_nack_list ?m @ new_entries now (missing (nm_recovered_list ?m) (s + 1) e)\<rparr> \<and>
    nack_ok B e (nm_nack_list (add_loop now (s + 1) e ?m))"
    using Suc.prems d Suc.hyps(2) by (intro Suc.hyps(1) [OF d]) auto
  moreover have "add_loop now s e m = add_loop now (s + 1) e ?m"
    using ne by (simp add: add_loop.simps [of now s e m])
  ultimately show ?case using ne by (auto simp: missing_step put new_entries_def)
qed


section \<open>Every operation keeps the invariant\<close>

lemma missing_length: "length (missing r s e) \<le> age e s"
  unfolding missing_def by (rule order_trans [OF length_filter_le]) simp

lemma erase_before_young:
  assumes "sorted_wrt (\<lambda>x y. age e (fst x) > age e (fst y)) xs" "\<forall>x \<in> set xs. age e (fst x) < 0x8000"
    "x \<in> set (erase_before fst (e - kMaxPacketAge) xs)"
  shows "age e (fst x) \<le> 10000"
  using assms
proof (induction xs)
  case (Cons y ys)
  have "age e (e - kMaxPacketAge) = 10000" by (simp add: age_def kMaxPacketAge_def)
  then have "DescendingSeqNumComp (fst y) (e - kMaxPacketAge) \<longleftrightarrow> 10000 < age e (fst y)"
    using Cons.prems(2) age_ahead [of e "e - kMaxPacketAge" "fst y"] by (simp add: DescendingSeqNumComp_def)
  then show ?case using Cons by (auto simp: erase_before_def split: if_splits)
qed (simp add: erase_before_def)

lemma nack_ok_shift:
  assumes "nack_ok 10000 n xs" "age e n \<le> 1001"
  shows "sorted_wrt (\<lambda>x y. age e (fst x) > age e (fst y)) xs"
    "\<forall>x \<in> set xs. age e (fst x) = age e n + age n (fst x) \<and> age e (fst x) < 0x8000"
proof -
  show a: "\<forall>x \<in> set xs. age e (fst x) = age e n + age n (fst x) \<and> age e (fst x) < 0x8000"
  proof
    fix x
    assume "x \<in> set xs"
    then have "age n (fst x) \<le> 10000" using assms(1) by (auto simp: nack_ok_def)
    then show "age e (fst x) = age e n + age n (fst x) \<and> age e (fst x) < 0x8000"
      using age_shift [of e n "fst x"] assms(2) by simp
  qed
  show "sorted_wrt (\<lambda>x y. age e (fst x) > age e (fst y)) xs"
    by (rule sorted_wrt_mono_rel [where P = "\<lambda>x y. age n (fst x) > age n (fst y)"])
      (use assms(1) a in \<open>simp_all add: nack_ok_def\<close>)
qed

text \<open>A gap of at most 1000 packets, with room in the list, is added completely.\<close>

definition gap_added :: "int \<Rightarrow> u16 \<Rightarrow> nack_module \<Rightarrow> nack_module \<Rightarrow> bool" where
  "gap_added now e m m' \<longleftrightarrow>
     (\<exists>k ks. let n = nm_newest_seq_num m + 1 in
        m' = m\<lparr>nm_keyframe_list := ks, nm_nack_list := [], nm_out := nm_out m @ [RequestKeyFrame]\<rparr> \<and>
        kMaxNackPackets < length (nm_nack_list m) + age e n \<or>
        m' = m\<lparr>nm_keyframe_list := ks,
          nm_nack_list := drop k (nm_nack_list m) @ new_entries now (missing (nm_recovered_list m) n e)\<rparr> \<and>
        length (drop k (nm_nack_list m)) + age e n \<le> kMaxNackPackets \<and> nack_ok 10000 e (nm_nack_list m'))"

lemma AddPacketsToNack_result:
  assumes "nack_inv m" "AheadOf e (nm_newest_seq_num m)"
  shows "gap_added now e m (AddPacketsToNack now (nm_newest_seq_num m + 1) e m)"
proof -
  let ?n = "nm_newest_seq_num m" and ?gap = "age e (nm_newest_seq_num m + 1)"
  let ?m1 = "m\<lparr>nm_nack_list := erase_before fst (e - kMaxPacketAge) (nm_nack_list m)\<rparr>"
  have ne: "?n \<noteq> e" using assms(2) by (auto simp: AheadOf_def)
  have gap: "unat (ForwardDiff (?n + 1) e) = ?gap" by (simp add: ForwardDiff_def age_def)
  obtain k1 where k1: "erase_before fst (e - kMaxPacketAge) (nm_nack_list m) = drop k1 (nm_nack_list m)"
    using erase_before_drop by blast
  obtain k2 ks where room: "(if length (nm_nack_list ?m1) + ?gap > kMaxNackPackets then make_room_loop ?gap ?m1 else ?m1) =
      ?m1\<lparr>nm_keyframe_list := ks, nm_nack_list := drop k2 (nm_nack_list ?m1)\<rparr>"
  proof (cases "length (nm_nack_list ?m1) + ?gap > kMaxNackPackets")
    case True
    then show ?thesis using make_room_loop_drop [of ?gap ?m1] that by auto
  next
    case False
    then show ?thesis using that [of 0 "nm_keyframe_list m"] by simp
  qed
  let ?m2 = "m\<lparr>nm_keyframe_list := ks, nm_nack_list := drop (k2 + k1) (nm_nack_list m)\<rparr>"
  have m2: "?m1\<lparr>nm_keyframe_list := ks, nm_nack_list := drop k2 (nm_nack_list ?m1)\<rparr> = ?m2"
    by (simp add: k1)
  show ?thesis
  proof (cases "length (nm_nack_list ?m2) + ?gap > kMaxNackPackets")
    case True
    then have "AddPacketsToNack now (?n + 1) e m =
        m\<lparr>nm_keyframe_list := ks, nm_nack_list := [], nm_out := nm_out m @ [RequestKeyFrame]\<rparr>"
      unfolding AddPacketsToNack_def Let_def gap room m2 by simp
    moreover have "kMaxNackPackets < length (nm_nack_list m) + ?gap" using True by simp
    ultimately show ?thesis unfolding gap_added_def Let_def by blast
  next
    case False
    then have add: "AddPacketsToNack now (?n + 1) e m = add_loop now (?n + 1) e ?m2"
      unfolding AddPacketsToNack_def Let_def gap room m2 by simp
    have small: "?gap \<le> 1000" using False by (simp add: kMaxNackPackets_def)
    have en: "age e ?n = Suc ?gap" using age_step [OF ne] .
    note sh = nack_ok_shift [of ?n "nm_nack_list m" e]
    have ok: "nack_ok 10000 ?n (nm_nack_list m)" using assms(1) by (simp add: nack_inv_def)
    have e1: "age e ?n \<le> 1001" using en small by simp
    have "age e (fst x) \<le> 10000" if "x \<in> set (drop (k2 + k1) (nm_nack_list m))" for x
    proof -
      have "x \<in> set (drop k1 (nm_nack_list m))"
        using that in_set_dropD [of x k2 "drop k1 (nm_nack_list m)"] by simp
      then show ?thesis
        using erase_before_young [of e "nm_nack_list m" x] sh [OF ok e1] unfolding k1 by blast
    qed
    moreover have old: "\<forall>x \<in> set (drop (k2 + k1) (nm_nack_list m)). ?gap < age e (fst x)"
      using sh(2) [OF ok e1] en in_set_dropD by fastforce
    ultimately have "nack_ok 10000 e (nm_nack_list ?m2)"
      using sh(1) [OF ok e1] ok in_set_dropD [of _ "k2 + k1" "nm_nack_list m"] unfolding nack_ok_def
      by (auto simp: sorted_wrt_drop)
    moreover have "\<forall>x \<in> set (nm_nack_list ?m2). ?gap < age e (fst x)" using old by auto
    ultimately have "add_loop now (?n + 1) e ?m2 = ?m2\<lparr>nm_nack_list := nm_nack_list ?m2 @
          new_entries now (missing (nm_recovered_list ?m2) (?n + 1) e)\<rparr> \<and>
        nack_ok 10000 e (nm_nack_list (add_loop now (?n + 1) e ?m2))"
      using small by (intro add_loop_result) auto
    then show ?thesis
      unfolding gap_added_def Let_def add using False
      by (intro exI [of _ "k2 + k1"] exI [of _ ks] disjI2) auto
  qed
qed


lemma batch_loop_result:
  assumes "nack_ok B e xs"
  shows "nack_ok B e (snd (batch_loop opt now m xs)) \<and>
    set (map fst (snd (batch_loop opt now m xs))) \<subseteq> set (map fst xs) \<and>
    length (snd (batch_loop opt now m xs)) \<le> length xs \<and>
    fst (batch_loop opt now m xs) = map fst (filter (\<lambda>x. nack_now opt now m (snd x)) xs)"
  using assms
proof (induction xs)
  case (Cons x xs)
  obtain k info where x: "x = (k, info)" by (cases x)
  obtain b r where br: "batch_loop opt now m xs = (b, r)" by (cases "batch_loop opt now m xs")
  have "nack_ok B e xs" "ni_seq_num info = k" "0 \<le> ni_retries info" "0 < age e k" "age e k \<le> B"
      "ni_retries info < kMaxNackRetries" "\<forall>y \<in> set (map fst xs). age e y < age e k"
    using Cons.prems by (auto simp: nack_ok_def x)
  moreover then have "nack_ok B e r" "set (map fst r) \<subseteq> set (map fst xs)" "length r \<le> length xs"
      "b = map fst (filter (\<lambda>x. nack_now opt now m (snd x)) xs)"
    using Cons.IH br by auto
  ultimately show ?case
    by (auto simp: x br Let_def nack_ok_def not_le) force+
qed (simp add: nack_ok_def)


lemma nack_ok_entries:
  "nack_ok B e xs \<Longrightarrow> length xs \<le> kMaxNackPackets \<Longrightarrow> nm_initialized m \<Longrightarrow> nm_newest_seq_num m = e \<Longrightarrow> B \<le> 10000 \<Longrightarrow>
    nack_inv (m\<lparr>nm_nack_list := xs\<rparr>)"
  by (auto simp: nack_inv_def nack_ok_def)

lemma send_batch_inv: "nack_inv m \<Longrightarrow> nack_inv (send_batch opt now b pathid m)"
  using batch_loop_result [of 10000 "nm_newest_seq_num m" "nm_nack_list m" opt now m]
  by (auto simp: send_batch_def GetNackBatch_def nack_inv_def split: prod.splits)

lemma drop_inv:
  "nack_inv m \<Longrightarrow> nack_inv (m\<lparr>nm_nack_list := drop k (nm_nack_list m)\<rparr>)"
  "nack_inv m \<Longrightarrow> nack_inv (m\<lparr>nm_nack_list := filter P (nm_nack_list m)\<rparr>)"
  by (auto simp: nack_inv_def nack_ok_drop nack_ok_filter intro: order_trans [OF length_filter_le])

lemma nack_inv_frame [simp]:
  "nack_inv (m\<lparr>nm_keyframe_list := ks\<rparr>) = nack_inv m" "nack_inv (m\<lparr>nm_recovered_list := ks\<rparr>) = nack_inv m"
  "nack_inv (m\<lparr>nm_rtt_ms := r\<rparr>) = nack_inv m"
  by (simp_all add: nack_inv_def)

lemma new_packet_inv:
  assumes "nack_inv m" "nm_initialized m" "AheadOf e (nm_newest_seq_num m)"
  shows "nack_inv ((AddPacketsToNack now (nm_newest_seq_num m + 1) e m)\<lparr>nm_newest_seq_num := e\<rparr>)"
  using AddPacketsToNack_result [OF assms(1,3), of now] assms(2)
    missing_length [of "nm_recovered_list m" "nm_newest_seq_num m + 1" e]
  by (auto simp: gap_added_def Let_def nack_inv_def new_entries_def kMaxNackPackets_def)

lemma OnReceivedPacket_inv:
  assumes "nack_inv m"
  shows "nack_inv (snd (OnReceivedPacket now q key rec pathid m))"
proof -
  consider "\<not> nm_initialized m" | "nm_initialized m" "q = nm_newest_seq_num m"
    | "nm_initialized m" "AheadOf (nm_newest_seq_num m) q"
    | "nm_initialized m" "q \<noteq> nm_newest_seq_num m" "\<not> AheadOf (nm_newest_seq_num m) q" "AheadOf q (nm_newest_seq_num m)"
    using newer16.total [of q "nm_newest_seq_num m"] by (auto simp: AheadOf_IsNewer)
  then show ?thesis
  proof cases
    case 3
    then show ?thesis
      using assms drop_inv(2) [OF assms]
      by (auto simp: OnReceivedPacket_def AheadOf_def split: option.splits)
  next
    case 4
    then show ?thesis
      using assms new_packet_inv [of "m\<lparr>nm_keyframe_list := _\<rparr>" q now] send_batch_inv
      by (auto simp: OnReceivedPacket_def Let_def)
  qed (use assms in \<open>auto simp: OnReceivedPacket_def nack_inv_def\<close>)
qed

lemma ClearUpTo_inv: "nack_inv m \<Longrightarrow> nack_inv (ClearUpTo q m)"
  using erase_before_drop [of fst q "nm_nack_list m"] drop_inv(1) [of m]
  by (auto simp: ClearUpTo_def nack_inv_def)

section \<open>Reachable states\<close>

inductive nack_step :: "nack_module \<Rightarrow> nack_module \<Rightarrow> bool" where
  receive: "nack_step m (snd (OnReceivedPacket now q key rec pathid m))"
| timer: "nack_step m (ProcessTimer now pathid m)"
| clear: "nack_step m (ClearUpTo q m)"
| rtt: "nack_step m (UpdateRtt r m)"

inductive nack_reachable :: "nack_module \<Rightarrow> bool" where
  init: "nack_reachable (nack_module_init d f)"
| step: "nack_reachable m \<Longrightarrow> nack_step m m' \<Longrightarrow> nack_reachable m'"

lemma nack_step_inv: "nack_step m m' \<Longrightarrow> nack_inv m \<Longrightarrow> nack_inv m'"
  by (induction rule: nack_step.induct)
    (simp_all add: OnReceivedPacket_inv ProcessTimer_def send_batch_inv ClearUpTo_inv UpdateRtt_def)

lemma nack_reachable_inv: "nack_reachable m \<Longrightarrow> nack_inv m"
proof (induction rule: nack_reachable.induct)
  case (init d f)
  then show ?case by (simp add: nack_inv_def nack_module_init_def)
qed (use nack_step_inv in blast)


text \<open>
  C30: in every state that received packets, timer events, clearing and RTT updates lead to, the
  list of missing packets is ordered from the oldest to the newest, holds at most 1000 entries,
  all strictly behind the newest packet received and at most 10000 behind it, each stored under
  its own number and asked for fewer than ten times.
\<close>

theorem nack_list_invariant:
  assumes "nack_reachable m"
  shows "sorted_wrt (\<lambda>x y. AheadOf (fst y) (fst x)) (nm_nack_list m) \<and> length (nm_nack_list m) \<le> 1000 \<and>
    (\<forall>(k, info) \<in> set (nm_nack_list m). AheadOf (nm_newest_seq_num m) k \<and> unat (nm_newest_seq_num m - k) \<le> 10000 \<and>
       ni_seq_num info = k \<and> 0 \<le> ni_retries info \<and> ni_retries info < 10)"
proof -
  let ?e = "nm_newest_seq_num m" and ?xs = "nm_nack_list m"
  have ok: "nack_ok 10000 ?e ?xs" "length ?xs \<le> 1000"
    using nack_reachable_inv [OF assms] by (simp_all add: nack_inv_def kMaxNackPackets_def)
  have young: "\<forall>x \<in> set ?xs. age ?e (fst x) \<le> 10000 \<and> 0 < age ?e (fst x)" using ok(1) by (auto simp: nack_ok_def)
  have "sorted_wrt (\<lambda>x y. AheadOf (fst y) (fst x)) ?xs"
  proof (rule sorted_wrt_mono_rel)
    show "sorted_wrt (\<lambda>x y. age ?e (fst x) > age ?e (fst y)) ?xs" using ok(1) by (simp add: nack_ok_def)
    show "AheadOf (fst y) (fst x)" if "x \<in> set ?xs" "y \<in> set ?xs" "age ?e (fst x) > age ?e (fst y)" for x y
      using that young age_ahead [of ?e "fst y" "fst x"] by fastforce
  qed
  moreover have "AheadOf ?e (fst x)" if "x \<in> set ?xs" for x
    using that young age_ahead [of ?e ?e "fst x"] by fastforce
  ultimately show ?thesis
    using ok young by (auto simp: nack_ok_def age_def kMaxNackRetries_def)
qed

definition example_nack :: nack_module where
  "example_nack = snd (OnReceivedPacket 7 1 False False 1
     (snd (OnReceivedPacket 5 65533 False False 1 (nack_module_init 0 (\<lambda>rtt _. rtt)))))"

lemma example_nack_reachable: "nack_reachable example_nack"
  unfolding example_nack_def
  by (intro nack_reachable.step [OF _ nack_step.receive] nack_reachable.init)

theorem nack_list_invariant_witness:
  "sorted_wrt (\<lambda>x y. AheadOf (fst y) (fst x)) (nm_nack_list example_nack) \<and>
   length (nm_nack_list example_nack) \<le> 1000 \<and>
   list_all (\<lambda>(k, info). AheadOf (nm_newest_seq_num example_nack) k \<and>
      unat (nm_newest_seq_num example_nack - k) \<le> 10000 \<and>
      ni_seq_num info = k \<and> 0 \<le> ni_retries info \<and> ni_retries info < 10) (nm_nack_list example_nack)"
  unfolding list_all_iff by (rule nack_list_invariant [OF example_nack_reachable])



end
