(* ===== verification/FeedbackBuild.thy ===== *)
theory FeedbackBuild
  imports TransportFeedback
begin

text \<open>
  The transport feedback packet under construction. \<open>represents\<close> relates the packet's chunks, byte
  count and lists to the plain list of statuses it reports; the lemmas show that \<open>AddDeltaSize\<close> and
  \<open>AddReceivedPacket\<close> append statuses to that list, that \<open>IsConsistent\<close> follows, and how far the
  arrival times are off.
\<close>

section \<open>The packet under construction\<close>

lemma length_chunk_sizes: "length (chunk_sizes chunk) \<le> 0x1fff"
proof -
  have "unat (take_bit 13 chunk) < 2 ^ 13" by (simp only: unsigned_take_bit_eq) (rule take_bit_nat_less_exp)
  then show ?thesis by (simp add: chunk_sizes_def and_1_3)
qed

lemma all_delta_sizes_eq:
  "all_delta_sizes f = concat (map chunk_sizes (tf_encoded_chunks f)) @ AppendTo (tf_last_chunk f)"
proof -
  have "take kMaxReportedPackets (chunk_sizes x) = chunk_sizes x" for x
    using length_chunk_sizes [of x] by (simp add: feedback_consts)
  then show ?thesis by (simp add: all_delta_sizes_def AppendTo_Decode)
qed

lemma consistent_append:
  "consistent_deltas ts (xs @ ys) s ps t n =
     (case consistent_deltas ts xs s ps t n of
        None \<Rightarrow> None
      | Some (t', n', ps') \<Rightarrow> consistent_deltas ts ys (s + of_nat (length xs)) ps' t' n')"
proof (induction xs arbitrary: s ps t n)
  case (Cons d xs)
  have s: "s + of_nat (length (d # xs)) = (s + 1) + of_nat (length xs)" by simp
  show ?case unfolding s append_Cons consistent_deltas.simps Cons.IH
    by (cases "d > 0"; cases ps; cases "rcv_delta_ticks (hd ps)"; cases ts) auto
qed simp

lemma consistent_frame:
  "consistent_deltas ts ds s ps t n = Some (t', n', ps') \<Longrightarrow>
   consistent_deltas ts ds s (ps @ qs) t (n + k) = Some (t', n' + k, ps' @ qs)"
proof (induction ts ds s ps t n rule: consistent_deltas.induct)
  case (2 ts d ds s ps t n)
  show ?case
  proof (cases "d > 0")
    case True
    with "2.prems" obtain p qs' delta where p: "ps = p # qs'" "rcv_delta_ticks p = Some delta"
      by (auto split: list.splits option.splits)
    with True "2.prems" have "consistent_deltas ts ds (s + 1) qs' (t + delta * kDeltaScaleFactor)
        (if ts then n + d else n) = Some (t', n', ps')"
      "rcv_sequence_number p = s" "\<not> (d = 1 \<and> (delta < 0 \<or> delta > 0xff))"
      by (auto split: if_splits)
    then show ?thesis using "2.IH"(1) [OF True p] True p by (cases ts) (simp_all add: ac_simps)
  next
    case False
    then show ?thesis using "2.prems" "2.IH"(2) by (auto simp: ac_simps)
  qed
qed simp

definition header_bytes :: "TransportFeedback \<Rightarrow> nat" where
  "header_bytes f = kTransportFeedbackHeaderSizeBytes + length (tf_encoded_chunks f) * kChunkSizeBytes +
     (if LastChunk_Empty (tf_last_chunk f) then 0 else kChunkSizeBytes)"

lemma IsConsistent_eq:
  assumes "tf_num_seq_no f = length (all_delta_sizes f)"
    "consistent_deltas (tf_include_timestamps f) (all_delta_sizes f) (tf_base_seq_no f) (tf_received_packets f)
       (GetBaseTimeUs f) (header_bytes f) = Some (tf_last_timestamp_us f, tf_size_bytes f, [])"
  shows "IsConsistent f = (if int32 (GetBaseTimeUs f) then Some True else None)"
  using assms unfolding GetBaseTimeUs_def header_bytes_def by (simp add: IsConsistent_def Let_def)

text \<open>What \<open>AddDeltaSize\<close> keeps.\<close>

definition same_frame :: "TransportFeedback \<Rightarrow> TransportFeedback \<Rightarrow> bool" where
  "same_frame f f' \<longleftrightarrow>
     tf_sender_ssrc f' = tf_sender_ssrc f \<and> tf_media_ssrc f' = tf_media_ssrc f \<and>
     tf_include_lost f' = tf_include_lost f \<and> tf_base_seq_no f' = tf_base_seq_no f \<and>
     tf_pathid f' = tf_pathid f \<and> tf_base_time_ticks f' = tf_base_time_ticks f \<and>
     tf_feedback_seq f' = tf_feedback_seq f \<and> tf_include_timestamps f' = tf_include_timestamps f \<and>
     tf_last_timestamp_us f' = tf_last_timestamp_us f \<and> tf_received_packets f' = tf_received_packets f"

lemma same_frame_refl [simp]: "same_frame f f"
  by (simp add: same_frame_def)

lemma same_frame_trans: "same_frame f g \<Longrightarrow> same_frame g h \<Longrightarrow> same_frame f h"
  by (simp add: same_frame_def)

text \<open>\<open>AddDeltaSize\<close> appends one status to the list, or leaves the packet as it is.\<close>

lemma AddDeltaSize_cases:
  assumes c: "lc_inv (tf_last_chunk f)" and d: "d \<in> {0, 1, 2}" and r: "AddDeltaSize d f = (b, f')"
  shows "\<not> b \<and> f' = f \<and> (tf_num_seq_no f = kMaxReportedPackets \<or> tf_size_bytes f + d + kChunkSizeBytes > kMaxSizeBytes) \<or>
    b \<and> same_frame f f' \<and> tf_all_packets f' = tf_all_packets f \<and> lc_inv (tf_last_chunk f') \<and>
    \<not> LastChunk_Empty (tf_last_chunk f') \<and>
    set (tf_encoded_chunks f') \<subseteq> set (tf_encoded_chunks f) \<union> {x. 7 \<le> length (chunk_sizes x)} \<and>
    all_delta_sizes f' = all_delta_sizes f @ [d] \<and> tf_num_seq_no f' = tf_num_seq_no f + 1 \<and>
    tf_num_seq_no f \<noteq> kMaxReportedPackets \<and> tf_size_bytes f' + d \<le> kMaxSizeBytes \<and>
    tf_size_bytes f' + header_bytes f = tf_size_bytes f + header_bytes f'"
proof -
  let ?c = "tf_last_chunk f"
  obtain chunk c' where e: "Emit ?c = (chunk, c')" by fastforce
  have n: "\<not> LastChunk_Empty (LastChunk_Add d x)" for x by (simp add: LastChunk_Add_def LastChunk_Empty_def Let_def)
  define k where "k = (if LastChunk_Empty ?c then kChunkSizeBytes else 0)"
  note r = r [unfolded AddDeltaSize_def Let_def e, folded k_def]
  let ?fits = "f\<lparr>tf_size_bytes := tf_size_bytes f + k, tf_last_chunk := LastChunk_Add d ?c,
      tf_num_seq_no := tf_num_seq_no f + 1\<rparr>"
    and ?full = "f\<lparr>tf_encoded_chunks := tf_encoded_chunks f @ [chunk], tf_size_bytes := tf_size_bytes f + kChunkSizeBytes,
      tf_last_chunk := LastChunk_Add d c', tf_num_seq_no := tf_num_seq_no f + 1\<rparr>"
  have k: "k \<le> kChunkSizeBytes" by (simp add: k_def)
  consider (no) "b = False" "f' = f" "tf_num_seq_no f = kMaxReportedPackets \<or> tf_size_bytes f + d + kChunkSizeBytes > kMaxSizeBytes"
    | (fits) "CanAdd d ?c" "b" "tf_num_seq_no f \<noteq> kMaxReportedPackets"
        "\<not> tf_size_bytes f + d + k > kMaxSizeBytes" "f' = ?fits"
    | (full) "\<not> CanAdd d ?c" "b" "tf_num_seq_no f \<noteq> kMaxReportedPackets"
        "\<not> tf_size_bytes f + d + kChunkSizeBytes > kMaxSizeBytes" "f' = ?full"
  proof (cases "tf_num_seq_no f = kMaxReportedPackets \<or> tf_size_bytes f + d + k > kMaxSizeBytes")
    case True
    then have "(b, f') = (False, f)" using r
      by (elim disjE) (simp_all only: if_True if_False if_cancel simp_thms prod.inject)
    moreover have "tf_num_seq_no f = kMaxReportedPackets \<or> tf_size_bytes f + d + kChunkSizeBytes > kMaxSizeBytes"
      using True k by linarith
    ultimately show thesis using no by (simp only: prod.inject)
  next
    case False
    show thesis
    proof (cases "CanAdd d ?c")
      case True
      show thesis by (rule fits) (use r True False in \<open>simp_all only: if_True if_False prod.inject de_Morgan_disj simp_thms\<close>)
    next
      case nc: False
      show thesis
      proof (cases "tf_size_bytes f + d + kChunkSizeBytes > kMaxSizeBytes")
        case True
        show thesis by (rule no) (use r True False nc in \<open>simp_all only: if_True if_False prod.inject de_Morgan_disj simp_thms\<close>)
      next
        case F: False
        show thesis by (rule full) (use r F False nc in \<open>simp_all only: if_True if_False prod.inject de_Morgan_disj simp_thms prod.case\<close>)
      qed
    qed
  qed
  then show ?thesis
  proof cases
    case fits
    note a = LastChunk_Add_refines [OF c d fits(1)]
    have "all_delta_sizes f' = all_delta_sizes f @ [d]" using a by (simp add: fits(5) all_delta_sizes_eq)
    moreover have "tf_size_bytes f' + header_bytes f = tf_size_bytes f + header_bytes f'"
      using n [of ?c] by (simp add: fits(5) header_bytes_def k_def)
    moreover have "tf_size_bytes f' + d \<le> kMaxSizeBytes" using fits(4) by (simp add: fits(5))
    moreover have "same_frame f f'" by (simp add: same_frame_def fits(5))
    moreover have "tf_all_packets f' = tf_all_packets f" "tf_encoded_chunks f' = tf_encoded_chunks f" "tf_last_chunk f' = LastChunk_Add d ?c"
      "tf_num_seq_no f' = tf_num_seq_no f + 1" by (simp_all add: fits(5))
    ultimately show ?thesis using a n [of ?c] fits(2,3) by simp
  next
    case full
    have e: "lc_inv c'" "AppendTo ?c = chunk_sizes chunk @ AppendTo c'" "lc_size c' < 7"
      "7 \<le> length (chunk_sizes chunk)"
      using Emit_refines [OF c full(1) e] by auto
    have "CanAdd d c'" using e(3) by (simp add: CanAdd_def chunk_consts)
    note a = LastChunk_Add_refines [OF e(1) d this]
    have "\<not> LastChunk_Empty ?c" using full(1) by (auto simp: LastChunk_Empty_def CanAdd_def chunk_consts)
    with full a n [of c'] e show ?thesis
      by (simp add: all_delta_sizes_eq header_bytes_def same_frame_def)
  qed simp
qed


section \<open>The statuses a packet reports\<close>

text \<open>
  The abstract view: one status for each sequence number from the base on, the arrival time in
  ticks after the previous arrival, or nothing.
\<close>

type_synonym statuses = "int option list"

definition status_size :: "int option \<Rightarrow> nat" where
  "status_size x = (case x of None \<Rightarrow> 0 | Some delta \<Rightarrow> delta_size_of delta)"

definition status_ticks :: "int option \<Rightarrow> int" where
  "status_ticks x = (case x of None \<Rightarrow> 0 | Some delta \<Rightarrow> delta)"

fun packets_of :: "u16 \<Rightarrow> statuses \<Rightarrow> ReceivedPacket list" where
  "packets_of s [] = []"
| "packets_of s (x # xs) = \<lparr>rcv_sequence_number = s, rcv_delta_ticks = x\<rparr> # packets_of (s + 1) xs"

definition arrived :: "ReceivedPacket list \<Rightarrow> ReceivedPacket list" where
  "arrived ps = filter (\<lambda>p. rcv_delta_ticks p \<noteq> None) ps"

definition represents :: "TransportFeedback \<Rightarrow> statuses \<Rightarrow> bool" where
  "represents f st \<longleftrightarrow>
     lc_inv (tf_last_chunk f) \<and> (tf_encoded_chunks f \<noteq> [] \<longrightarrow> \<not> LastChunk_Empty (tf_last_chunk f)) \<and>
     set (tf_encoded_chunks f) \<subseteq> {x. 7 \<le> length (chunk_sizes x)} \<and>
     all_delta_sizes f = map status_size st \<and>
     tf_num_seq_no f = length st \<and> length st \<le> kMaxReportedPackets \<and>
     tf_received_packets f = arrived (packets_of (tf_base_seq_no f) st) \<and>
     (tf_include_lost f \<longrightarrow> tf_all_packets f = packets_of (tf_base_seq_no f) st) \<and>
     tf_last_timestamp_us f = GetBaseTimeUs f + kDeltaScaleFactor * sum_list (map status_ticks st) \<and>
     tf_size_bytes f = header_bytes f + (if tf_include_timestamps f then sum_list (map status_size st) else 0) \<and>
     set st \<subseteq> insert None (Some ` {- (2 ^ 15) ..< 2 ^ 15})"

lemma packets_of_append:
  "packets_of s (xs @ ys) = packets_of s xs @ packets_of (s + of_nat (length xs)) ys"
  by (induction xs arbitrary: s) (simp_all add: add.assoc)

lemma status_size_le: "status_size x \<le> 2"
  by (simp add: status_size_def delta_size_of_def split: option.split)

lemma sum_status_size: "sum_list (map status_size st) \<le> 2 * length st"
proof (induction st)
  case (Cons x st)
  then show ?case using status_size_le [of x] by simp
qed simp

text \<open>A chunk is closed only when it stands for seven statuses, so the packet never outgrows its limit.\<close>

lemma length_concat_ge: "\<forall>x \<in> set xs. k \<le> length (f x) \<Longrightarrow> k * length xs \<le> length (concat (map f xs))"
  by (induction xs) auto

lemma represents_size:
  assumes "represents f st"
  shows "tf_size_bytes f \<le> 149820"
proof -
  have "7 * length (tf_encoded_chunks f) \<le> length (concat (map chunk_sizes (tf_encoded_chunks f)))"
    using assms by (intro length_concat_ge) (auto simp: represents_def)
  also have "\<dots> \<le> length (all_delta_sizes f)" by (simp add: all_delta_sizes_eq)
  also have "\<dots> \<le> 65535" using assms by (simp add: represents_def feedback_consts)
  finally have "header_bytes f \<le> 24 + 9362 * 2 + 2" by (simp add: header_bytes_def feedback_consts)
  then show ?thesis
    using assms sum_status_size [of st] by (auto simp: represents_def feedback_consts split: if_splits)
qed

text \<open>One status more. The arrival of a packet changes the last timestamp and the size, too.\<close>

definition note_status :: "u16 \<Rightarrow> int option \<Rightarrow> TransportFeedback \<Rightarrow> TransportFeedback" where
  "note_status seq_no x f =
     (let p = \<lparr>rcv_sequence_number = seq_no, rcv_delta_ticks = x\<rparr>
      in f\<lparr>tf_received_packets := tf_received_packets f @ arrived [p],
           tf_all_packets := (if tf_include_lost f then tf_all_packets f @ [p] else tf_all_packets f),
           tf_last_timestamp_us := tf_last_timestamp_us f + status_ticks x * kDeltaScaleFactor,
           tf_size_bytes := (if tf_include_timestamps f then tf_size_bytes f + status_size x else tf_size_bytes f)\<rparr>)"

lemma AddDeltaSize_status:
  assumes f: "represents f st" and x: "x \<in> insert None (Some ` {- (2 ^ 15) ..< 2 ^ 15})"
    and r: "AddDeltaSize (status_size x) f = (b, f')"
  shows "b \<longleftrightarrow> length st < kMaxReportedPackets" "\<not> b \<Longrightarrow> f' = f"
    "b \<Longrightarrow> same_frame f f'"
    "b \<Longrightarrow> represents (note_status (tf_base_seq_no f + of_nat (length st)) x f') (st @ [x])"
proof -
  have d: "status_size x \<in> {0, 1, 2}" by (simp add: status_size_def delta_size_of_def split: option.split)
  have c: "lc_inv (tf_last_chunk f)" and n: "tf_num_seq_no f = length st" "length st \<le> kMaxReportedPackets"
    using f by (simp_all add: represents_def)
  note cs = AddDeltaSize_cases [OF c d r]
  have small: "\<not> tf_size_bytes f + status_size x + kChunkSizeBytes > kMaxSizeBytes"
    using represents_size [OF f] status_size_le [of x] by (simp add: feedback_consts)
  show b: "b \<longleftrightarrow> length st < kMaxReportedPackets" using cs small n by (cases b) auto
  show "\<not> b \<Longrightarrow> f' = f" "b \<Longrightarrow> same_frame f f'" using cs by auto
  assume b
  with cs have cs: "same_frame f f'" "tf_all_packets f' = tf_all_packets f" "lc_inv (tf_last_chunk f')"
    "\<not> LastChunk_Empty (tf_last_chunk f')"
    "set (tf_encoded_chunks f') \<subseteq> set (tf_encoded_chunks f) \<union> {x. 7 \<le> length (chunk_sizes x)}"
    "all_delta_sizes f' = all_delta_sizes f @ [status_size x]" "tf_num_seq_no f' = tf_num_seq_no f + 1"
    "tf_size_bytes f' + header_bytes f = tf_size_bytes f + header_bytes f'"
    by simp_all
  let ?g = "note_status (tf_base_seq_no f + of_nat (length st)) x f'"
  have g: "all_delta_sizes ?g = all_delta_sizes f'" "header_bytes ?g = header_bytes f'"
    "tf_last_chunk ?g = tf_last_chunk f'" "tf_encoded_chunks ?g = tf_encoded_chunks f'"
    "tf_num_seq_no ?g = tf_num_seq_no f'" "GetBaseTimeUs ?g = GetBaseTimeUs f'"
    "tf_base_seq_no ?g = tf_base_seq_no f'" "tf_include_lost ?g = tf_include_lost f'"
    "tf_include_timestamps ?g = tf_include_timestamps f'"
    by (simp_all add: note_status_def Let_def all_delta_sizes_def header_bytes_def GetBaseTimeUs_def)
  have "tf_size_bytes ?g = header_bytes ?g + (if tf_include_timestamps ?g then sum_list (map status_size (st @ [x])) else 0)"
    using f cs(1,8) unfolding g by (simp add: note_status_def represents_def same_frame_def Let_def)
  moreover have "tf_received_packets ?g = arrived (packets_of (tf_base_seq_no ?g) (st @ [x]))"
    using f cs(1) unfolding g by (simp add: note_status_def represents_def same_frame_def Let_def packets_of_append arrived_def)
  moreover have "tf_include_lost ?g \<longrightarrow> tf_all_packets ?g = packets_of (tf_base_seq_no ?g) (st @ [x])"
    using f cs(1,2) unfolding g by (simp add: note_status_def represents_def same_frame_def Let_def packets_of_append)
  moreover have "tf_last_timestamp_us ?g = GetBaseTimeUs ?g + kDeltaScaleFactor * sum_list (map status_ticks (st @ [x]))"
    using f cs(1) unfolding g
    by (simp add: note_status_def represents_def same_frame_def Let_def GetBaseTimeUs_def algebra_simps)
  moreover have "set (st @ [x]) \<subseteq> insert None (Some ` {- (2 ^ 15) ..< 2 ^ 15})"
    using f x by (simp add: represents_def)
  ultimately show "represents ?g (st @ [x])"
    using f cs(3-7) b \<open>b\<close> n unfolding represents_def g by auto
qed

lemma note_None:
  "note_status s None f =
     (if tf_include_lost f
      then f\<lparr>tf_all_packets := tf_all_packets f @ [\<lparr>rcv_sequence_number = s, rcv_delta_ticks = None\<rparr>]\<rparr> else f)"
  by (simp add: note_status_def arrived_def status_ticks_def status_size_def Let_def)

lemma unat_gap:
  fixes s n :: u16
  assumes "n \<noteq> s"
  shows "unat (s - n) = Suc (unat (s - (n + 1)))"
proof -
  have "0 < unat (s - n)" using assms by (simp add: unat_gt_0)
  moreover have "unat (s - (n + 1)) = unat (s - n) - 1"
    using calculation unat_minus_one [of "s - n"] by (simp add: unat_gt_0 diff_diff_eq)
  ultimately show ?thesis by simp
qed

lemma add_lost_refines:
  "represents f st \<Longrightarrow> n = tf_base_seq_no f + of_nat (length st) \<Longrightarrow> add_lost s n f = (b, f') \<Longrightarrow>
   (b \<longleftrightarrow> length st + unat (s - n) \<le> kMaxReportedPackets) \<and> same_frame f f' \<and>
   represents f' (st @ replicate (min (unat (s - n)) (kMaxReportedPackets - length st)) None)"
proof (induction s n f arbitrary: st rule: add_lost.induct)
  case (1 s n f)
  have len: "length st \<le> kMaxReportedPackets" using "1.prems"(1) by (simp add: represents_def)
  show ?case
  proof (cases "n = s")
    case True
    then show ?thesis using "1.prems" len by (simp add: add_lost.simps)
  next
    case False
    obtain c g where a: "AddDeltaSize 0 f = (c, g)" by fastforce
    have a': "AddDeltaSize (status_size None) f = (c, g)" using a by (simp add: status_size_def)
    note st = AddDeltaSize_status [OF "1.prems"(1) _ a']
    note gap = unat_gap [OF False]
    let ?h = "note_status n None g"
    show ?thesis
    proof (cases c)
      case True
      then have c: "c = True" by simp
      have r: "represents ?h (st @ [None])" using st(4) True "1.prems"(2) by simp
      have h: "add_lost s (n + 1) ?h = (b, f')"
        using "1.prems"(3) False a True by (simp add: add_lost.simps [of s n f] note_None)
      have fr: "same_frame f ?h" using st(3) True by (simp add: note_None same_frame_def)
      then have "tf_base_seq_no ?h = tf_base_seq_no f" by (simp add: same_frame_def)
      then have "n + 1 = tf_base_seq_no ?h + of_nat (length (st @ [None]))" using "1.prems"(2) by simp
      note ih = "1.IH" [OF False a [symmetric] c, folded note_None, OF r this h]
      have lt: "length st < kMaxReportedPackets" using st(1) True by simp
      have "Suc (min (unat (s - (n + 1))) (kMaxReportedPackets - length (st @ [None]))) =
          min (unat (s - n)) (kMaxReportedPackets - length st)"
        using gap lt by simp
      then have "(st @ [None]) @ replicate (min (unat (s - (n + 1))) (kMaxReportedPackets - length (st @ [None]))) None =
          st @ replicate (min (unat (s - n)) (kMaxReportedPackets - length st)) None"
        by (metis append.assoc append_Cons append_Nil replicate_Suc)
      with ih have "represents f' (st @ replicate (min (unat (s - n)) (kMaxReportedPackets - length st)) None)"
        by metis
      then show ?thesis using ih same_frame_trans [OF fr] gap by auto
    next
      case c: False
      then have "g = f" "\<not> length st < kMaxReportedPackets" using st(1,2) by auto
      moreover have "add_lost s n f = (False, g)" using False a c by (simp add: add_lost.simps [of s n f])
      then have "b = False" "f' = g" using "1.prems"(3) by simp_all
      ultimately show ?thesis using "1.prems"(1) len gap by simp
    qed
  qed
qed

lemma note_Some:
  "note_status s (Some d) f =
     f\<lparr>tf_received_packets := tf_received_packets f @ [\<lparr>rcv_sequence_number = s, rcv_delta_ticks = Some d\<rparr>],
       tf_all_packets := (if tf_include_lost f then tf_all_packets f @ [\<lparr>rcv_sequence_number = s, rcv_delta_ticks = Some d\<rparr>]
                          else tf_all_packets f),
       tf_last_timestamp_us := tf_last_timestamp_us f + d * kDeltaScaleFactor,
       tf_size_bytes := (if tf_include_timestamps f then tf_size_bytes f + delta_size_of d else tf_size_bytes f)\<rparr>"
  by (simp add: note_status_def arrived_def status_ticks_def status_size_def Let_def)

lemma delta_of_range: "delta_of t f = Some d \<Longrightarrow> Some d \<in> insert None (Some ` {- (2 ^ 15) ..< 2 ^ 15})"
proof -
  assume "delta_of t f = Some d"
  then have "d = 0 \<or> signed_take_bit 15 d = d" by (auto simp: delta_of_def Let_def split: if_splits)
  then show ?thesis using signed_take_bit_int_eq_self_iff [of 15 d] by auto
qed

text \<open>How many statuses are missing between what is reported and a packet's number.\<close>

definition missing :: "u16 \<Rightarrow> TransportFeedback \<Rightarrow> nat" where
  "missing s f = unat (s - (tf_base_seq_no f + of_nat (tf_num_seq_no f)))"

definition accepts :: "u16 \<Rightarrow> int \<Rightarrow> TransportFeedback \<Rightarrow> bool" where
  "accepts s t f \<longleftrightarrow>
     delta_of t f \<noteq> None \<and>
     (let next_seq_no = tf_base_seq_no f + of_nat (tf_num_seq_no f)
      in s = next_seq_no \<or> IsNewerSequenceNumber s (next_seq_no - 1)) \<and>
     tf_num_seq_no f + missing s f < kMaxReportedPackets"

lemma AddReceivedPacket_step:
  assumes f: "represents f st" and r: "AddReceivedPacket s t f = (b, f')"
  shows "(b \<longleftrightarrow> accepts s t f) \<and>
    tf_base_seq_no f' = tf_base_seq_no f \<and> GetBaseTimeUs f' = GetBaseTimeUs f \<and>
    tf_include_timestamps f' = tf_include_timestamps f \<and>
    (b \<longrightarrow> represents f' (st @ replicate (missing s f) None @ [delta_of t f])) \<and>
    (\<not> b \<longrightarrow> (\<exists>k \<le> missing s f. represents f' (st @ replicate k None)))"
proof -
  let ?n = "tf_base_seq_no f + of_nat (length st)"
  have num: "tf_num_seq_no f = length st" using f by (simp add: represents_def)
  have none: "\<exists>k \<le> missing s f. represents f (st @ replicate k None)" using f by (intro exI [of _ 0]) simp
  show ?thesis
  proof (cases "delta_of t f = None \<or> s \<noteq> ?n \<and> \<not> IsNewerSequenceNumber s (?n - 1)")
    case True
    then have "b = False \<and> f' = f" using r num by (auto simp: AddReceivedPacket_def Let_def split: option.splits)
    then show ?thesis using none True num by (auto simp: accepts_def)
  next
    case False
    then obtain d where d: "delta_of t f = Some d" by auto
    obtain c g where l: "add_lost s ?n f = (c, g)" by fastforce
    note lost = add_lost_refines [OF f refl l]
    have m: "missing s f = unat (s - ?n)" by (simp add: missing_def num)
    have acc: "accepts s t f \<longleftrightarrow> length st + missing s f < kMaxReportedPackets"
      using False d num by (auto simp: accepts_def Let_def)
    show ?thesis
    proof (cases c)
      case c: False
      then have bf: "b = False" "f' = g" using r d False l num by (auto simp: AddReceivedPacket_def Let_def)
      have "\<exists>k \<le> missing s f. represents f' (st @ replicate k None)"
        using lost bf m by (metis min.cobounded1)
      moreover have "\<not> accepts s t f" using lost acc m c by simp
      ultimately show ?thesis using bf lost by (simp add: same_frame_def GetBaseTimeUs_def)
    next
      case True
      have le: "length st + missing s f \<le> kMaxReportedPackets" using lost True m by simp
      then have rg: "represents g (st @ replicate (missing s f) None)" 
      proof -
        have "min (unat (s - ?n)) (kMaxReportedPackets - length st) = missing s f" using le m by linarith
        then show ?thesis using lost by metis
      qed
      obtain e h where a: "AddDeltaSize (delta_size_of d) g = (e, h)" by fastforce
      have a': "AddDeltaSize (status_size (Some d)) g = (e, h)" using a by (simp add: status_size_def)
      note ar = AddDeltaSize_status [OF rg delta_of_range [OF d] a']
      have sn: "tf_base_seq_no g + of_nat (length (st @ replicate (missing s f) None)) = s"
        using lost by (simp add: same_frame_def m add.assoc)
      have e: "e \<longleftrightarrow> accepts s t f" using ar(1) acc by simp
      have bf: "b = e" "f' = (if e then note_status s (Some d) h else h)"
        using r d False l num True a by (cases e; auto simp: AddReceivedPacket_def Let_def note_Some)+
      have "represents f' (st @ replicate (missing s f) None @ [delta_of t f])" if e
        using ar(4) [OF that] bf that d unfolding sn by simp
      moreover have "\<exists>k \<le> missing s f. represents f' (st @ replicate k None)" if "\<not> e"
        using ar(2) [OF that] bf that rg by auto
      moreover have "tf_base_seq_no f' = tf_base_seq_no f \<and> GetBaseTimeUs f' = GetBaseTimeUs f \<and>
          tf_include_timestamps f' = tf_include_timestamps f"
        using ar(2,3) bf lost by (cases e) (simp_all add: same_frame_def GetBaseTimeUs_def note_Some)
      ultimately show ?thesis using bf(1) e by blast
    qed
  qed
qed

lemma arrived_Cons: "arrived (p # ps) = (if rcv_delta_ticks p = None then arrived ps else p # arrived ps)"
  by (simp add: arrived_def)

lemma status_None_Some [simp]:
  "status_size None = 0" "status_size (Some d) = delta_size_of d"
  "status_ticks None = 0" "status_ticks (Some d) = d"
  by (simp_all add: status_size_def status_ticks_def)

lemma consistent_statuses:
  "consistent_deltas ts (map status_size st) s (arrived (packets_of s st)) t n =
     Some (t + kDeltaScaleFactor * sum_list (map status_ticks st),
           n + (if ts then sum_list (map status_size st) else 0), [])"
proof (induction st arbitrary: s t n)
  case (Cons x st)
  show ?case
  proof (cases x)
    case None
    then show ?thesis by (simp add: arrived_Cons Cons.IH)
  next
    case (Some d)
    then show ?thesis
      using Cons.IH [of "s + 1" "t + d * kDeltaScaleFactor"]
      by (cases ts) (simp_all add: arrived_Cons delta_size_of_def algebra_simps)
  qed
qed (simp add: arrived_def)

lemma represents_consistent:
  assumes "represents f st"
  shows "IsConsistent f = (if int32 (GetBaseTimeUs f) then Some True else None)"
  using assms consistent_statuses [of "tf_include_timestamps f" st "tf_base_seq_no f" "GetBaseTimeUs f" "header_bytes f"]
  by (intro IsConsistent_eq) (simp_all add: represents_def)

text \<open>The packets the receiver's code can build: a base is set once, before the first packet.\<close>

inductive feedback_built :: "TransportFeedback \<Rightarrow> bool" where
  built_new: "length junk = 14 \<Longrightarrow> feedback_built (TransportFeedback_new junk ts lost pathid)"
| built_base: "feedback_built f \<Longrightarrow> tf_num_seq_no f = 0 \<Longrightarrow> 0 \<le> t \<Longrightarrow> feedback_built (SetBase s t f)"
| built_seq: "feedback_built f \<Longrightarrow> feedback_built (SetFeedbackSequenceNumber n f)"
| built_ssrcs: "feedback_built f \<Longrightarrow> feedback_built (SetFeedbackSsrcs sender media f)"
| built_packet: "feedback_built f \<Longrightarrow> AddReceivedPacket s t f = (b, f') \<Longrightarrow> feedback_built f'"

lemma represents_cong:
  "represents f st \<Longrightarrow> all_delta_sizes g = all_delta_sizes f \<Longrightarrow> header_bytes g = header_bytes f \<Longrightarrow>
   tf_last_chunk g = tf_last_chunk f \<Longrightarrow> tf_encoded_chunks g = tf_encoded_chunks f \<Longrightarrow>
   tf_num_seq_no g = tf_num_seq_no f \<Longrightarrow> GetBaseTimeUs g = GetBaseTimeUs f \<Longrightarrow>
   tf_base_seq_no g = tf_base_seq_no f \<Longrightarrow> tf_include_lost g = tf_include_lost f \<Longrightarrow>
   tf_include_timestamps g = tf_include_timestamps f \<Longrightarrow> tf_received_packets g = tf_received_packets f \<Longrightarrow>
   tf_all_packets g = tf_all_packets f \<Longrightarrow> tf_last_timestamp_us g = tf_last_timestamp_us f \<Longrightarrow>
   tf_size_bytes g = tf_size_bytes f \<Longrightarrow> represents g st"
  by (simp add: represents_def)

lemma represents_new:
  "length junk = 14 \<Longrightarrow> represents (TransportFeedback_new junk ts lost pathid) []"
  using lc_inv_Clear [of "LastChunk_new junk"]
  by (simp add: represents_def TransportFeedback_new_def LastChunk_new_def all_delta_sizes_def arrived_def
      header_bytes_def GetBaseTimeUs_def LastChunk_Empty_def LastChunk_Clear_def AppendTo_def)

lemma represents_base:
  assumes "represents f []"
  shows "represents (SetBase s t f) []"
  using assms
  by (simp add: represents_def SetBase_def all_delta_sizes_def header_bytes_def GetBaseTimeUs_def arrived_def Let_def)

lemma base_range: "0 \<le> t \<Longrightarrow> (t smod kTimeWrapPeriodUs) sdiv kBaseScaleFactor \<in> {0 ..< 2 ^ 24}"
proof -
  assume t: "0 \<le> t"
  have w: "kTimeWrapPeriodUs = 1073741824000" "kBaseScaleFactor = 64000"
    by (simp_all add: kTimeWrapPeriodUs_def kBaseScaleFactor_def kDeltaScaleFactor_def)
  have "t smod 1073741824000 = t mod 1073741824000" using t by (simp add: smod_int_alt_def sgn_if)
  moreover have "(t mod 1073741824000) sdiv 64000 = (t mod 1073741824000) div 64000"
    by (simp add: signed_divide_int_def sgn_if abs_if)
  moreover have "0 \<le> x div 64000 \<and> x div 64000 < 2 ^ 24" if "0 \<le> x" "x < 1073741824000" for x :: int
    using that by (simp add: pos_imp_zdiv_nonneg_iff)
  then have "0 \<le> t mod 1073741824000 div 64000 \<and> t mod 1073741824000 div 64000 < 2 ^ 24" by simp
  ultimately show ?thesis unfolding w by simp
qed

lemma feedback_built_represents:
  "feedback_built f \<Longrightarrow> (\<exists>st. represents f st) \<and> tf_base_time_ticks f \<in> {0 ..< 2 ^ 24}"
proof (induction rule: feedback_built.induct)
  case (built_new junk ts lost pathid)
  then show ?case using represents_new [of junk] by (auto simp: TransportFeedback_new_def)
next
  case (built_base f t s)
  then obtain st where "represents f st" by blast
  moreover from this have "st = []" using built_base.hyps(2) by (simp add: represents_def)
  ultimately show ?case using represents_base base_range [OF built_base.hyps(3)]
    by (auto simp: SetBase_def Let_def GetBaseTimeUs_def)
next
  case (built_seq f n)
  then obtain st where "represents f st" by blast
  then have "represents (SetFeedbackSequenceNumber n f) st"
    by (rule represents_cong) (simp_all add: SetFeedbackSequenceNumber_def all_delta_sizes_def header_bytes_def GetBaseTimeUs_def)
  with built_seq.IH show ?case by (auto simp: SetFeedbackSequenceNumber_def)
next
  case (built_ssrcs f sender media)
  then obtain st where "represents f st" by blast
  then have "represents (SetFeedbackSsrcs sender media f) st"
    by (rule represents_cong) (simp_all add: SetFeedbackSsrcs_def all_delta_sizes_def header_bytes_def GetBaseTimeUs_def)
  with built_ssrcs.IH show ?case by (auto simp: SetFeedbackSsrcs_def)
next
  case (built_packet f s t b f')
  then obtain st where "represents f st" by blast
  from AddReceivedPacket_step [OF this built_packet.hyps(2)] built_packet.IH
  show ?case by (cases b) (auto simp: GetBaseTimeUs_def kBaseScaleFactor_def kDeltaScaleFactor_def)
qed

section \<open>Arrival times\<close>

lemma round_tick: "\<bar>kDeltaScaleFactor * ((x + (if x < 0 then - (kDeltaScaleFactor sdiv 2) else kDeltaScaleFactor sdiv 2)) sdiv kDeltaScaleFactor) - x\<bar> \<le> 125"
proof -
  have h: "kDeltaScaleFactor sdiv 2 = 125" by (simp add: kDeltaScaleFactor_def signed_divide_int_def sgn_if)
  have up: "\<bar>250 * ((y + 125) div 250) - y\<bar> \<le> 125" if "0 \<le> y" for y :: int by linarith
  show ?thesis
  proof (cases "x < 0")
    case True
    then have "(x - 125) sdiv 250 = - ((- x + 125) div 250)"
      by (simp add: signed_divide_int_def sgn_if abs_if)
    then show ?thesis using up [of "- x"] True by (simp add: h kDeltaScaleFactor_def)
  next
    case False
    then have "(x + 125) sdiv 250 = (x + 125) div 250" by (simp add: signed_divide_int_def sgn_if abs_if)
    then show ?thesis using up [of x] False by (simp add: h kDeltaScaleFactor_def)
  qed
qed

lemma delta_of_accurate:
  assumes "tf_include_timestamps f" "delta_of t f = Some d"
  shows "\<exists>k. \<bar>tf_last_timestamp_us f + kDeltaScaleFactor * d - t - k * kTimeWrapPeriodUs\<bar> \<le> 125"
proof -
  let ?x = "(t - tf_last_timestamp_us f) smod kTimeWrapPeriodUs"
  define y where "y = (if ?x > kTimeWrapPeriodUs sdiv 2 then ?x - kTimeWrapPeriodUs else ?x)"
  have "d = (y + (if y < 0 then - (kDeltaScaleFactor sdiv 2) else kDeltaScaleFactor sdiv 2)) sdiv kDeltaScaleFactor"
    using assms unfolding delta_of_def Let_def y_def [symmetric] by (simp split: if_splits)
  then have r: "\<bar>kDeltaScaleFactor * d - y\<bar> \<le> 125" using round_tick [of y] by simp
  have "\<exists>k. ?x = t - tf_last_timestamp_us f + k * kTimeWrapPeriodUs"
    by (rule exI [of _ "- ((t - tf_last_timestamp_us f) sdiv kTimeWrapPeriodUs)"]) (simp flip: minus_sdiv_mult_eq_smod)
  then obtain k where "?x = t - tf_last_timestamp_us f + k * kTimeWrapPeriodUs" by blast
  then have "y = t - tf_last_timestamp_us f + (if ?x > kTimeWrapPeriodUs sdiv 2 then k - 1 else k) * kTimeWrapPeriodUs"
    by (simp add: y_def algebra_simps)
  then obtain j where "y = t - tf_last_timestamp_us f + j * kTimeWrapPeriodUs" by blast
  with r show ?thesis by (intro exI [of _ j]) (simp add: algebra_simps)
qed

end
