(* ===== verification/FeedbackParse.thy ===== *)
theory FeedbackParse
  imports FeedbackBuild
begin

text \<open>
  The transport feedback packet on the wire: what \<open>Create\<close> writes, padding included, is read back by
  \<open>ParseFrom\<close> as a packet that reports the same statuses. The properties of the packet class and
  an example close the theory.
\<close>

section \<open>Reading back what was written\<close>

lemma first_byte_padded:
  assumes "c < 32"
  shows "drop_bit 6 (0x80 OR 0x20 OR of_nat c :: u8) = 2" "(0x80 OR 0x20 OR of_nat c :: u8) AND 0x1F = of_nat c"
    "(0x80 OR 0x20 OR of_nat c :: u8) AND 0x20 \<noteq> 0"
proof -
  have "\<forall>c \<in> set [0..<32]. drop_bit 6 (0x80 OR 0x20 OR of_nat c :: u8) = 2 \<and>
      (0x80 OR 0x20 OR of_nat c :: u8) AND 0x1F = of_nat c \<and> (0x80 OR 0x20 OR of_nat c :: u8) AND 0x20 \<noteq> 0"
    by code_simp
  with assms show "drop_bit 6 (0x80 OR 0x20 OR of_nat c :: u8) = 2" "(0x80 OR 0x20 OR of_nat c :: u8) AND 0x1F = of_nat c"
    "(0x80 OR 0x20 OR of_nat c :: u8) AND 0x20 \<noteq> 0"
    by simp_all
qed

text \<open>Padding is removed: the last byte of the padding is its length.\<close>

lemma CommonHeader_Parse_padded:
  assumes "c < 32" "length body + n = 4 * len" "len < 65536" "- (2 ^ 31) \<le> pathid" "pathid < 2 ^ 31"
    "0 < n" "n < 256"
  shows "CommonHeader_Parse (CreateHeader c t len True pathid @ body @ padding_bytes n @ rest) =
    Some (Gives \<lparr>ch_type = t, ch_count = c, ch_pathid = pathid, ch_payload = body, ch_padding_size = n\<rparr>)"
proof -
  have len: "unat (of_nat len :: u16) = len" using assms(3) by (simp add: unat_of_nat)
  have c: "unat (of_nat c :: u8) = c" using assms(1) by (simp add: unat_of_nat)
  have p: "sint (word_of_int pathid :: u32) = pathid"
    using assms(4,5) by (simp add: signed_of_int signed_take_bit_int_eq_self_iff)
  have n: "unat (of_nat n :: u8) = n" using assms(7) by (simp add: unat_of_nat)
  then have n0: "(of_nat n :: u8) \<noteq> 0" using assms(6) by (metis unat_0 not_gr_zero)
  define b where "b = (0x80 OR 0x20 OR of_nat c :: u8)"
  have b: "drop_bit 6 b = 2" "b AND 0x1F = of_nat c" "b AND 0x20 \<noteq> 0"
    using first_byte_padded [OF assms(1)] by (simp_all only: b_def not_False_eq_True)
  have h: "CreateHeader c t len True pathid = [b, t] @ be16 (of_nat len) @ be32 (word_of_int pathid)"
    using length_bytes [OF assms(3)] by (simp add: CreateHeader_def b_def or.assoc)
  let ?buf = "[b, t] @ be16 (of_nat len) @ be32 (word_of_int pathid) @ body @ replicate (n - 1) 0 @ [of_nat n] @ rest"
  have buf: "CreateHeader c t len True pathid @ body @ padding_bytes n @ rest = ?buf"
    unfolding h using assms(6) by (simp add: padding_bytes_def)
  have last: "rd8 ?buf (7 + len * 4) = Some (of_nat n)"
    using assms(2,6) by (simp add: rd8_skip rd8_skip_Cons rd8_head)
  have reads: "rd8 ?buf 0 = Some b" "rd8 ?buf 1 = Some t" "rd16 ?buf 2 = Some (of_nat len)"
    "rd32 ?buf 4 = Some (word_of_int pathid)"
    by (simp_all add: codec_simps)
  have pay: "take (len * 4 - n) (take (len * 4) (drop 8 ?buf)) = body" using assms(2,6) by simp
  have lb: "8 + len * 4 \<le> length ?buf" "len \<noteq> 0" "n \<le> len * 4" using assms(2,6) by simp_all
  show ?thesis
    unfolding buf CommonHeader_Parse_def kHeaderLength_def
    using lb pay last unfolding reads
    by (simp only: reads bind.bind_lunit Let_def len b) (simp add: n n0 c p)
qed


lemma length_Chunk_Decode: "length (lc_delta_sizes c) = 14 \<Longrightarrow> length (lc_delta_sizes (Chunk_Decode chunk n c)) = 14"
  by (auto simp: Chunk_Decode_def DecodeRunLength_def DecodeOneBit_def DecodeTwoBit_def Let_def chunk_consts)

lemma Decode_inv:
  assumes "length (lc_delta_sizes c) = 14" "set (AppendTo (Chunk_Decode chunk n c)) \<subseteq> {0, 1, 2}"
  shows "lc_inv (Chunk_Decode chunk n c)"
proof -
  let ?d = "Chunk_Decode chunk n c"
  have len: "length (lc_delta_sizes ?d) = 14" by (rule length_Chunk_Decode [OF assms(1)])
  have "unat (chunk AND 0x1fff) < 2 ^ 13" unfolding and_1_3
    by (simp only: unsigned_take_bit_eq) (rule take_bit_nat_less_exp)
  then have r: "unat (chunk AND 0x1fff) \<le> 0x1fff" by simp
  consider (run) "chunk AND 0x8000 = 0" "?d = DecodeRunLength chunk n c"
    | (one) "?d = DecodeOneBit chunk n c" | (two) "?d = DecodeTwoBit chunk n c"
    unfolding Chunk_Decode_def by meson
  then show ?thesis
  proof cases
    case run
    let ?v = "unat (drop_bit 13 chunk AND 0x03)" and ?n = "min (unat (chunk AND 0x1fff)) n"
    have a: "take ?n (lc_delta_sizes ?d) = replicate (min ?n 14) ?v"
      using assms(1) by (simp add: run(2) DecodeRunLength_def Let_def chunk_consts) linarith
    show ?thesis
    proof (cases "?n = 0")
      case True
      then show ?thesis using len r by (simp add: run(2) lc_inv_def DecodeRunLength_def Let_def chunk_consts)
    next
      case False
      then have v: "lc_delta_sizes ?d ! 0 = ?v" by (simp add: run(2) DecodeRunLength_def Let_def chunk_consts nth_append)
      moreover have "?v \<in> set (AppendTo ?d)"
        using v False by (simp add: run(2) AppendTo_def DecodeRunLength_def Let_def)
      ultimately show ?thesis
        using len r a assms(2) False unfolding lc_inv_def
        by (simp add: run(2) DecodeRunLength_def Let_def chunk_consts) auto
    qed
  next
    case one
    then have s: "lc_size ?d = min 14 n" "\<not> lc_all_same ?d" "\<not> lc_has_large_delta ?d"
      by (simp_all add: DecodeOneBit_def Let_def chunk_consts)
    have "2 \<notin> set (AppendTo ?d)"
    proof -
      have "unat (x AND 0x01) < 2" for x :: u16
        unfolding and_1_3 using take_bit_nat_less_exp [of 1 "unat x"] by (simp only: unsigned_take_bit_eq power_one_right)
      then have v: "unat (x AND 0x01) \<noteq> 2" for x :: u16 by (metis less_irrefl)
      have "AppendTo ?d = map (\<lambda>i. unat (drop_bit (13 - i) chunk AND 0x01)) [0..<min 14 n]"
        by (simp add: one AppendTo_def DecodeOneBit_def Let_def chunk_consts del: upt_Suc)
      then show ?thesis using v by (metis (no_types, lifting) imageE set_map)
    qed
    then show ?thesis using len assms(2) s by (simp add: lc_inv_def chunk_consts AppendTo_def)
  next
    case two
    then have s: "lc_size ?d = min 7 n" "\<not> lc_all_same ?d" "lc_has_large_delta ?d"
      by (simp_all add: DecodeTwoBit_def Let_def chunk_consts)
    then show ?thesis using len assms(2) by (simp add: lc_inv_def chunk_consts AppendTo_def) linarith
  qed
qed

text \<open>The chunks are read until the statuses are complete.\<close>

lemma parse_chunks_reads:
  "cs \<noteq> [] \<Longrightarrow> payload = pre @ concat (map be16 cs) @ rest \<Longrightarrow> index = length pre \<Longrightarrow>
   length ds + length (concat (map chunk_sizes (butlast cs))) < count \<Longrightarrow>
   count \<le> length ds + length (concat (map chunk_sizes cs)) \<Longrightarrow> length (lc_delta_sizes (tf_last_chunk f)) = 14 \<Longrightarrow>
   \<exists>c. length (lc_delta_sizes c) = 14 \<and>
     parse_chunks payload count index ds f =
       Some (Gives (index + 2 * length cs, ds @ take (count - length ds) (concat (map chunk_sizes cs)),
         f\<lparr>tf_encoded_chunks := tf_encoded_chunks f @ cs,
           tf_last_chunk := Chunk_Decode (last cs)
             (count - length ds - length (concat (map chunk_sizes (butlast cs)))) c\<rparr>))"
proof (induction cs arbitrary: pre index ds f)
  case (Cons x cs)
  let ?c = "Chunk_Decode x (count - length ds) (tf_last_chunk f)"
  let ?f = "f\<lparr>tf_encoded_chunks := tf_encoded_chunks f @ [x], tf_last_chunk := ?c\<rparr>"
  let ?ds = "ds @ take (count - length ds) (chunk_sizes x)"
  have lt: "length ds < count" using Cons.prems by simp
  have rd: "rd16 payload index = Some x"
    using Cons.prems by (simp add: codec_simps)
  have step: "parse_chunks payload count index ds f = parse_chunks payload count (index + 2) ?ds ?f"
  proof -
    have "\<not> index + 2 > length payload" using Cons.prems(2,3) by simp
    then show ?thesis unfolding parse_chunks.simps [of payload count index ds] kChunkSizeBytes_def
      using lt rd by (simp add: AppendTo_Decode)
  qed
  have len: "length (lc_delta_sizes ?c) = 14" using Cons.prems(6) by (rule length_Chunk_Decode)
  show ?case
  proof (cases "cs = []")
    case True
    then have "\<not> length ?ds < count" using Cons.prems by simp
    then have "parse_chunks payload count (index + 2) ?ds ?f = Some (Gives (index + 2, ?ds, ?f))"
      unfolding parse_chunks.simps [of payload count "index + 2" ?ds] by (simp only: if_False)
    then show ?thesis using True step Cons.prems(6) by (intro exI [of _ "tf_last_chunk f"]) simp
  next
    case False
    have short: "length ds + length (chunk_sizes x) < count" using Cons.prems(4) False by simp
    then have ds: "?ds = ds @ chunk_sizes x" by simp
    have pl: "payload = (pre @ be16 x) @ concat (map be16 cs) @ rest" "index + 2 = length (pre @ be16 x)"
      using Cons.prems(2,3) by simp_all
    have l1: "length (ds @ chunk_sizes x) + length (concat (map chunk_sizes (butlast cs))) < count"
      using Cons.prems(4) False by simp
    have l2: "count \<le> length (ds @ chunk_sizes x) + length (concat (map chunk_sizes cs))"
      using Cons.prems(5) by simp
    from Cons.IH [OF False pl l1 l2, of ?f] len
    obtain c where c: "length (lc_delta_sizes c) = 14"
      "parse_chunks payload count (index + 2) (ds @ chunk_sizes x) ?f =
       Some (Gives (index + 2 + 2 * length cs, (ds @ chunk_sizes x) @ take (count - length (ds @ chunk_sizes x)) (concat (map chunk_sizes cs)),
         ?f\<lparr>tf_encoded_chunks := tf_encoded_chunks ?f @ cs,
           tf_last_chunk := Chunk_Decode (last cs)
             (count - length (ds @ chunk_sizes x) - length (concat (map chunk_sizes (butlast cs)))) c\<rparr>))"
      by auto
    have t: "take (count - length ds) (concat (map chunk_sizes (x # cs))) =
        chunk_sizes x @ take (count - length (ds @ chunk_sizes x)) (concat (map chunk_sizes cs))"
      using short by simp
    show ?thesis
      unfolding step ds c(2) t using False c(1) by (intro exI [of _ c]) (simp add: add.assoc)
  qed
qed simp

definition note_all :: "u16 \<Rightarrow> statuses \<Rightarrow> TransportFeedback \<Rightarrow> TransportFeedback" where
  "note_all s st f =
     f\<lparr>tf_received_packets := tf_received_packets f @ arrived (packets_of s st),
       tf_all_packets := (if tf_include_lost f then tf_all_packets f @ packets_of s st else tf_all_packets f),
       tf_last_timestamp_us := tf_last_timestamp_us f + kDeltaScaleFactor * sum_list (map status_ticks st)\<rparr>"

lemma delta_bytes_Some:
  "delta_bytes \<lparr>rcv_sequence_number = s, rcv_delta_ticks = Some d\<rparr> =
     (if d \<ge> 0 \<and> d \<le> 0xff then [word_of_int d] else be16 (word_of_int d))"
  by (simp add: delta_bytes_def)

lemma parse_deltas_reads:
  "payload = pre @ concat (map delta_bytes (arrived (packets_of s st))) @ rest \<Longrightarrow> index = length pre \<Longrightarrow>
   set st \<subseteq> insert None (Some ` {- (2 ^ 15) ..< 2 ^ 15}) \<Longrightarrow>
   parse_deltas payload (map status_size st) s index f =
     Some (Gives (index + sum_list (map status_size st), note_all s st f))"
proof (induction st arbitrary: s pre index f)
  case Nil
  then show ?case by (simp add: note_all_def arrived_def)
next
  case (Cons x st)
  show ?case
  proof (cases x)
    case None
    have "note_all (s + 1) st (add_parsed s None f) = note_all s (x # st) f"
      using None by (simp add: note_all_def add_parsed_def arrived_Cons Let_def)
    then show ?thesis
      using None Cons.IH [of pre "s + 1" index "add_parsed s None f"] Cons.prems by (simp add: arrived_Cons)
  next
    case (Some d)
    let ?f = "(add_parsed s (Some d) f)\<lparr>tf_last_timestamp_us := tf_last_timestamp_us f + d * kDeltaScaleFactor\<rparr>"
    have nt: "note_all (s + 1) st ?f = note_all s (x # st) f"
      using Some by (simp add: note_all_def add_parsed_def arrived_Cons Let_def algebra_simps)
    have pl: "payload = pre @ delta_bytes \<lparr>rcv_sequence_number = s, rcv_delta_ticks = Some d\<rparr> @
        concat (map delta_bytes (arrived (packets_of (s + 1) st))) @ rest"
      using Cons.prems(1) Some by (simp add: arrived_Cons)
    have d: "- (2 ^ 15) \<le> d" "d < 2 ^ 15" using Cons.prems(3) Some by auto
    show ?thesis
    proof (cases "d \<ge> 0 \<and> d \<le> 0xff")
      case True
      then have u: "uint (word_of_int d :: u8) = d" by (simp add: uint_word_of_int_eq take_bit_int_eq_self_iff)
      have "rd8 payload index = Some (word_of_int d)"
        using pl True Cons.prems(2) by (simp add: delta_bytes_Some codec_simps)
      moreover have "delta_size_of d = 1" "\<not> index + 1 > length payload"
        using True pl Cons.prems(2) by (simp_all add: delta_size_of_def delta_bytes_Some)
      moreover have "parse_deltas payload (map status_size st) (s + 1) (index + 1) ?f =
          Some (Gives (index + 1 + sum_list (map status_size st), note_all (s + 1) st ?f))"
        using True pl Cons.prems by (intro Cons.IH [of "pre @ [word_of_int d]"]) (simp_all add: delta_bytes_Some)
      ultimately show ?thesis using u nt unfolding Some by simp
    next
      case False
      then have pl: "payload = pre @ be16 (word_of_int d) @
          concat (map delta_bytes (arrived (packets_of (s + 1) st))) @ rest"
        using pl by (simp only: delta_bytes_Some if_False)
      have u: "sint (word_of_int d :: u16) = d" using d by (simp add: signed_of_int signed_take_bit_int_eq_self_iff)
      have "rd16 payload index = Some (word_of_int d)"
        using pl False Cons.prems(2) by (simp add: codec_simps)
      moreover have "delta_size_of d = 2" "\<not> index + 2 > length payload"
        using False pl Cons.prems(2) by (simp_all add: delta_size_of_def)
      moreover have "parse_deltas payload (map status_size st) (s + 1) (index + 2) ?f =
          Some (Gives (index + 2 + sum_list (map status_size st), note_all (s + 1) st ?f))"
        using False pl Cons.prems by (intro Cons.IH [of "pre @ be16 (word_of_int d)"]) simp_all
      ultimately show ?thesis using u nt unfolding Some by simp
    qed
  qed
qed

lemma rd24s_be24: "rd24s (be24 x @ ys) 0 = Some (signed_take_bit 23 x)"
  by (simp add: rd24s_def rd_head read_be_signed_def SignExtend_take_bit)

lemma sint_signed_take_bit: "sint (signed_take_bit 23 (word_of_int t :: u32)) = signed_take_bit 23 t"
proof (rule bit_eqI)
  fix k
  show "bit (sint (signed_take_bit 23 (word_of_int t :: u32))) k = bit (signed_take_bit 23 t) k"
    by (auto simp: bit_sint_iff bit_signed_take_bit_iff bit_word_of_int_iff min_def possible_bit_word)
qed

lemma represents_open:
  assumes "represents f st" "st \<noteq> []"
  shows "0 < lc_size (tf_last_chunk f)"
    "take (length st) (concat (map chunk_sizes (tf_encoded_chunks f @ [EncodeLast (tf_last_chunk f)]))) = map status_size st"
    "length (concat (map chunk_sizes (tf_encoded_chunks f))) + lc_size (tf_last_chunk f) = length st"
    "take (lc_size (tf_last_chunk f)) (chunk_sizes (EncodeLast (tf_last_chunk f))) = AppendTo (tf_last_chunk f)"
proof -
  let ?c = "tf_last_chunk f"
  have c: "lc_inv ?c" "tf_encoded_chunks f \<noteq> [] \<longrightarrow> \<not> LastChunk_Empty ?c" "all_delta_sizes f = map status_size st"
    using assms(1) by (auto simp: represents_def)
  have "length (all_delta_sizes f) = length st" using c by simp
  then show len: "length (concat (map chunk_sizes (tf_encoded_chunks f))) + lc_size ?c = length st"
    by (simp add: all_delta_sizes_eq length_AppendTo [OF c(1)])
  show n: "0 < lc_size ?c"
  proof (cases "tf_encoded_chunks f = []")
    case True
    then show ?thesis using len assms(2) by simp
  qed (use c in \<open>simp add: LastChunk_Empty_def\<close>)
  show e: "take (lc_size ?c) (chunk_sizes (EncodeLast ?c)) = AppendTo ?c" by (rule EncodeLast_content [OF c(1) n])
  have "take (length st) (concat (map chunk_sizes (tf_encoded_chunks f)) @ chunk_sizes (EncodeLast ?c)) = all_delta_sizes f"
    unfolding len [symmetric] by (simp add: all_delta_sizes_eq e)
  then show "take (length st) (concat (map chunk_sizes (tf_encoded_chunks f @ [EncodeLast ?c]))) = map status_size st"
    using c(3) by simp
qed

text \<open>The body as the receiver sees it: a fixed part, the chunks, the receive deltas.\<close>

lemma feedback_body_eq:
  assumes "represents f st" "st \<noteq> []" "tf_include_timestamps f"
  shows "concat (feedback_body f) =
    (be32 (tf_sender_ssrc f) @ be32 (tf_media_ssrc f) @ be16 (tf_base_seq_no f) @ be16 (of_nat (length st)) @
     be24 (word_of_int (tf_base_time_ticks f)) @ [tf_feedback_seq f]) @
    concat (map be16 (tf_encoded_chunks f @ [EncodeLast (tf_last_chunk f)])) @
    concat (map delta_bytes (arrived (packets_of (tf_base_seq_no f) st))) @ []"
  using assms represents_open(1) [OF assms(1,2)]
  by (simp add: feedback_body_def CreateCommonFeedback_def represents_def LastChunk_Empty_def)

lemma length_delta_bytes:
  "length (concat (map delta_bytes (arrived (packets_of s st)))) = sum_list (map status_size st)"
proof (induction st arbitrary: s)
  case (Cons x st)
  then show ?case
    by (cases x) (simp_all add: arrived_Cons delta_bytes_Some delta_size_of_def)
qed (simp add: arrived_def)

lemma feedback_body_length:
  assumes "represents f st" "st \<noteq> []" "tf_include_timestamps f"
  shows "length (concat (feedback_body f)) + 8 = tf_size_bytes f"
proof -
  have "length (concat (map be16 cs)) = 2 * length cs" for cs by (rule length_concat_const) simp
  then show ?thesis
    using assms represents_open(1) [OF assms(1,2)] unfolding feedback_body_eq [OF assms]
    by (simp add: length_delta_bytes [simplified] represents_def header_bytes_def feedback_consts LastChunk_Empty_def)
qed

lemma Parse_feedback:
  assumes f: "represents f st" "st \<noteq> []" "tf_include_timestamps f"
    and f0: "length (lc_delta_sizes (tf_last_chunk f0)) = 14" "tf_include_timestamps f0"
    and h: "ch_payload h = concat (feedback_body f)"
  shows "\<exists>g. TransportFeedback_Parse h f0 = Some (Gives g) \<and> represents g st \<and>
    tf_sender_ssrc g = tf_sender_ssrc f \<and> tf_media_ssrc g = tf_media_ssrc f \<and>
    tf_pathid g = ch_pathid h \<and> tf_base_seq_no g = tf_base_seq_no f \<and>
    tf_base_time_ticks g = signed_take_bit 23 (tf_base_time_ticks f) \<and>
    tf_feedback_seq g = tf_feedback_seq f \<and> tf_include_timestamps g"
proof -
  let ?c = "tf_last_chunk f" and ?s = "tf_base_seq_no f"
  let ?cs = "tf_encoded_chunks f @ [EncodeLast ?c]"
  let ?pre = "be32 (tf_sender_ssrc f) @ be32 (tf_media_ssrc f) @ be16 ?s @ be16 (of_nat (length st)) @
     be24 (word_of_int (tf_base_time_ticks f)) @ [tf_feedback_seq f]"
  let ?ds = "concat (map delta_bytes (arrived (packets_of ?s st)))"
  define pl where "pl = ch_payload h"
  have pl: "pl = ?pre @ concat (map be16 ?cs) @ ?ds" using h feedback_body_eq [OF f] by (simp add: pl_def)
  have le: "length st \<le> 65535" using f(1) by (simp add: represents_def feedback_consts)
  then have un: "unat (of_nat (length st) :: u16) = length st" by (simp add: unat_of_nat)
  then have n0: "(of_nat (length st) :: u16) \<noteq> 0" using f(2) by (metis length_0_conv unat_0)
  have reads: "ParseCommonFeedback pl = Some (tf_sender_ssrc f, tf_media_ssrc f)" "rd16 pl 8 = Some ?s"
    "rd16 pl 10 = Some (of_nat (length st))" "rd24s pl 12 = Some (signed_take_bit 23 (word_of_int (tf_base_time_ticks f)))"
    "rd8 pl 15 = Some (tf_feedback_seq f)"
    by (simp_all add: pl ParseCommonFeedback_def codec_simps rd24s_be24)
  have big: "\<not> length pl < 18" by (simp add: pl)
  define f1 where "f1 = TransportFeedback_Clear (f0\<lparr>tf_sender_ssrc := tf_sender_ssrc f, tf_media_ssrc := tf_media_ssrc f,
      tf_pathid := ch_pathid h, tf_base_seq_no := ?s,
      tf_base_time_ticks := sint (signed_take_bit 23 (word_of_int (tf_base_time_ticks f)) :: u32),
      tf_feedback_seq := tf_feedback_seq f\<rparr>)"
  note op = represents_open [OF f(1,2)]
  have l14: "length (lc_delta_sizes (tf_last_chunk f1)) = 14"
    using f0(1) by (simp add: f1_def TransportFeedback_Clear_def LastChunk_Clear_def)
  have "length (AppendTo ?c) = lc_size ?c" using f(1) by (intro length_AppendTo) (simp add: represents_def)
  then have lc: "lc_size ?c \<le> length (chunk_sizes (EncodeLast ?c))" using op(4) by (metis length_take min.cobounded1)
  have "\<exists>c. length (lc_delta_sizes c) = 14 \<and>
     parse_chunks pl (length st) 16 [] f1 =
       Some (Gives (16 + 2 * length ?cs, [] @ take (length st - length ([] :: nat list)) (concat (map chunk_sizes ?cs)),
         f1\<lparr>tf_encoded_chunks := tf_encoded_chunks f1 @ ?cs,
           tf_last_chunk := Chunk_Decode (last ?cs)
             (length st - length ([] :: nat list) - length (concat (map chunk_sizes (butlast ?cs)))) c\<rparr>))"
    by (rule parse_chunks_reads [of ?cs pl ?pre ?ds]) (use op lc pl l14 in simp_all)
  then obtain c where c: "length (lc_delta_sizes c) = 14" "parse_chunks pl (length st) 16 [] f1 =
       Some (Gives (16 + 2 * length ?cs, map status_size st,
         f1\<lparr>tf_encoded_chunks := tf_encoded_chunks f1 @ ?cs,
           tf_last_chunk := Chunk_Decode (EncodeLast ?c) (lc_size ?c) c\<rparr>))"
  proof -
    have k: "length st - length ([] :: nat list) - length (concat (map chunk_sizes (butlast ?cs))) = lc_size ?c"
      using op(3) by simp
    have ds: "[] @ take (length st - length ([] :: nat list)) (concat (map chunk_sizes ?cs)) = map status_size st"
      using op(2) by simp
    show thesis using that \<open>\<exists>c. _\<close> unfolding k ds by auto
  qed
  define d where "d = Chunk_Decode (EncodeLast ?c) (lc_size ?c) c"
  have ap: "AppendTo d = AppendTo ?c" by (simp add: d_def AppendTo_Decode op(4))
  have di: "lc_inv d"
    unfolding d_def using c(1) AppendTo_sizes [of ?c] ap f(1) by (intro Decode_inv) (auto simp: d_def represents_def)
  have dn: "\<not> LastChunk_Empty d" using length_AppendTo [OF di] \<open>length (AppendTo ?c) = lc_size ?c\<close> ap op(1)
    by (simp add: LastChunk_Empty_def)
  define f2 where "f2 = f1\<lparr>tf_encoded_chunks := tf_encoded_chunks f, tf_last_chunk := d, tf_num_seq_no := length st\<rparr>"
  have f2: "f1\<lparr>tf_last_chunk := d, tf_encoded_chunks := butlast (tf_encoded_chunks f1 @ ?cs), tf_num_seq_no := length st\<rparr> = f2"
    by (simp add: f2_def un f1_def TransportFeedback_Clear_def butlast_append)
  let ?i = "16 + 2 * length ?cs"
  have "length (concat (map be16 ?cs)) = 2 * length ?cs" by (rule length_concat_const) simp
  then have i: "?i = length (?pre @ concat (map be16 ?cs))" by simp
  have room: "length pl \<ge> ?i + sum_list (map status_size st)"
    unfolding pl using i length_delta_bytes [of ?s st] by (simp only: length_append)
  have pd: "parse_deltas pl (map status_size st) ?s ?i f2 =
      Some (Gives (?i + sum_list (map status_size st), note_all ?s st f2))"
    using f(1) i by (intro parse_deltas_reads [of _ "?pre @ concat (map be16 ?cs)" _ _ "[]"])
      (simp_all add: pl represents_def)
  define g where "g = (note_all ?s st f2)\<lparr>tf_size_bytes := kHeaderLength + (?i + sum_list (map status_size st))\<rparr>"
  have "TransportFeedback_Parse h f0 = Some (Gives g)"
    using big n0 c(2) room pd unfolding TransportFeedback_Parse_def pl_def [symmetric] Let_def kMinPayloadSizeBytes_def
    by (simp add: reads un f1_def [symmetric] d_def [symmetric] f2 g_def del: length_append)
  moreover have "represents g st"
    using f di dn ap f0(2)
    by (simp add: g_def represents_def note_all_def f2_def f1_def TransportFeedback_Clear_def all_delta_sizes_eq
        header_bytes_def GetBaseTimeUs_def feedback_consts kHeaderLength_def)
  ultimately show ?thesis
    using f0(2) by (intro exI [of _ g])
      (simp add: g_def note_all_def f2_def f1_def TransportFeedback_Clear_def sint_signed_take_bit)
qed

section \<open>The contract of the packet\<close>

lemma Build_feedback:
  assumes f: "represents f st" "st \<noteq> []" "tf_include_timestamps f"
    and p: "int32 (tf_pathid f)" and mx: "TransportFeedback_BlockLength f \<le> mx"
  shows "\<exists>wire h. Build (TransportFeedback_Create f) mx = Some (Gives [wire]) \<and>
    length wire = TransportFeedback_BlockLength f \<and> CommonHeader_Parse wire = Some (Gives h) \<and> packet_size h = length wire \<and>
    ch_type h = kRtpfb \<and> ch_count h = 15 \<and> ch_pathid h = tf_pathid f \<and> ch_payload h = concat (feedback_body f)"
proof -
  let ?n = "TransportFeedback_PaddingLength f" and ?b = "concat (feedback_body f)" and ?l = "TransportFeedback_BlockLength f"
  let ?h = "CreateHeader 15 kRtpfb (HeaderLength ?l) (?n > 0) (tf_pathid f)"
  let ?parts = "?h # feedback_body f @ [padding_bytes ?n]"
  define wire where "wire = ?h @ ?b @ padding_bytes ?n @ []"
  have sz: "length ?b + 8 = tf_size_bytes f" by (rule feedback_body_length [OF f])
  have small: "tf_size_bytes f \<le> 149820" by (rule represents_size [OF f(1)])
  have l: "?l = tf_size_bytes f + ?n" "?n < 4" "?l mod 4 = 0"
    by (simp_all add: TransportFeedback_PaddingLength_def TransportFeedback_BlockLength_def)
  have pad: "length (padding_bytes ?n) = ?n" by (simp add: padding_bytes_def)
  have num: "tf_num_seq_no f \<noteq> 0" using f(1,2) by (simp add: represents_def)
  have c: "concat ?parts = wire" by (simp add: wire_def)
  have len: "length wire = ?l" using sz l(1) pad by (simp add: wire_def)
  have hl: "HeaderLength ?l < 65536" "length ?b + ?n = 4 * HeaderLength ?l"
    using sz l small by (auto simp: HeaderLength_def kHeaderLength_def)
  have "Build (TransportFeedback_Create f) mx = Some (Gives [wire])"
  proof -
    have "length (concat ?parts) = ?l" unfolding c by (rule len)
    from create_block_eq [OF this, of mx "\<lparr>ob_data = [], ob_sent = []\<rparr>"]
    have "TransportFeedback_Create f mx \<lparr>ob_data = [], ob_sent = []\<rparr> = Some (Gives \<lparr>ob_data = wire, ob_sent = []\<rparr>)"
      unfolding c using num mx by (simp add: TransportFeedback_Create_def make_room_eq)
    moreover have "wire \<noteq> []" by (simp add: wire_def CreateHeader_def)
    ultimately show ?thesis by (simp add: Build_def OnBufferFull_def)
  qed
  moreover have "CommonHeader_Parse wire = Some (Gives \<lparr>ch_type = kRtpfb, ch_count = 15, ch_pathid = tf_pathid f,
      ch_payload = ?b, ch_padding_size = ?n\<rparr>)"
  proof (cases "?n = 0")
    case True
    then show ?thesis
      using CommonHeader_Parse_Create [of 15 ?b "HeaderLength ?l" "tf_pathid f" kRtpfb "[]"] hl p
      by (simp add: wire_def padding_bytes_def int32_def)
  next
    case False
    then show ?thesis
      using CommonHeader_Parse_padded [of 15 ?b ?n "HeaderLength ?l" "tf_pathid f" kRtpfb "[]"] hl p l(2)
      by (simp add: wire_def int32_def)
  qed
  ultimately show ?thesis using len sz l(1) by (auto simp: packet_size_def kHeaderLength_def)
qed

lemma ParseFrom_Create:
  assumes f: "represents f st" "st \<noteq> []" "tf_include_timestamps f"
    and p: "int32 (tf_pathid f)" and mx: "TransportFeedback_BlockLength f \<le> mx"
    and j: "length junk = 14"
  shows "\<exists>wire g. Build (TransportFeedback_Create f) mx = Some (Gives [wire]) \<and>
    ParseFrom junk wire = Some (Gives g) \<and> represents g st \<and>
    tf_sender_ssrc g = tf_sender_ssrc f \<and> tf_media_ssrc g = tf_media_ssrc f \<and>
    tf_pathid g = tf_pathid f \<and> tf_base_seq_no g = tf_base_seq_no f \<and>
    tf_base_time_ticks g = signed_take_bit 23 (tf_base_time_ticks f) \<and>
    tf_feedback_seq g = tf_feedback_seq f \<and> tf_include_timestamps g"
proof -
  obtain wire h where w: "Build (TransportFeedback_Create f) mx = Some (Gives [wire])"
    "CommonHeader_Parse wire = Some (Gives h)" "ch_type h = kRtpfb" "ch_count h = 15"
    "ch_pathid h = tf_pathid f" "ch_payload h = concat (feedback_body f)"
    using Build_feedback [OF f p mx] by blast
  let ?f0 = "TransportFeedback_new junk True True (- 1)"
  have f0: "length (lc_delta_sizes (tf_last_chunk ?f0)) = 14" "tf_include_timestamps ?f0"
    using j by (simp_all add: TransportFeedback_new_def LastChunk_new_def LastChunk_Clear_def)
  have "ParseFrom junk wire = TransportFeedback_Parse h ?f0" using w(2-4) by (simp add: ParseFrom_def)
  with Parse_feedback [OF f f0 w(6)] w(1,5) show ?thesis by auto
qed

text \<open>
  C23: \<open>AddReceivedPacket\<close> implements, on the chunks and byte counts of the packet, the plain list of
  statuses: it accepts exactly the packets whose arrival time fits, whose number is not older
  than what is reported and that do not make the list longer than 65535, and then appends one
  lost status for each number skipped and the arrival; a packet that is refused adds at most
  lost statuses.
\<close>

theorem AddReceivedPacket_refines:
  assumes "represents f st" "AddReceivedPacket s t f = (ok, f')"
  shows "(ok \<longleftrightarrow> accepts s t f) \<and>
    (ok \<longrightarrow> represents f' (st @ replicate (missing s f) None @ [delta_of t f])) \<and>
    (\<not> ok \<longrightarrow> (\<exists>k \<le> missing s f. represents f' (st @ replicate k None)))"
  using AddReceivedPacket_step [OF assms] by blast

text \<open>
  C31: every packet the receiver of the media builds passes the class's own consistency check, as
  long as its base time is below 33555 units of 64 milliseconds; from there on the check
  overflows a 32-bit integer.
\<close>

theorem feedback_consistent:
  assumes "feedback_built f"
  shows "IsConsistent f = (if tf_base_time_ticks f \<le> 33554 then Some True else None)"
proof -
  obtain st where "represents f st" "tf_base_time_ticks f \<in> {0 ..< 2 ^ 24}"
    using feedback_built_represents [OF assms] by blast
  moreover from this have "int32 (GetBaseTimeUs f) \<longleftrightarrow> tf_base_time_ticks f \<le> 33554"
    by (auto simp: int32_def GetBaseTimeUs_def kBaseScaleFactor_def kDeltaScaleFactor_def)
  ultimately show ?thesis using represents_consistent by metis
qed

text \<open>
  However many packets were added before, the arrival time that the receive deltas add up to
  is off by at most 125 microseconds, half a tick, up to the wrap-around period.
\<close>

lemma arrival_time_accurate:
  assumes "feedback_built f" "tf_include_timestamps f" "AddReceivedPacket s t f = (True, f')"
  shows "\<exists>k. \<bar>GetBaseTimeUs f' + kDeltaScaleFactor *
    (\<Sum>p\<leftarrow>tf_received_packets f'. the (rcv_delta_ticks p)) - t - k * kTimeWrapPeriodUs\<bar> \<le> 125"
proof -
  obtain st where st: "represents f st" using feedback_built_represents [OF assms(1)] by blast
  note step = AddReceivedPacket_step [OF st assms(3)]
  then obtain d where d: "delta_of t f = Some d" by (auto simp: accepts_def)
  have sum: "(\<Sum>p\<leftarrow>arrived (packets_of s xs). the (rcv_delta_ticks p)) = sum_list (map status_ticks xs)" for s xs
    by (induction xs arbitrary: s) (auto simp: arrived_Cons status_ticks_def arrived_def split: option.split)
  have z: "sum_list (map status_ticks (replicate n None)) = 0" for n by (simp add: sum_list_replicate)
  have "GetBaseTimeUs f' + kDeltaScaleFactor * (\<Sum>p\<leftarrow>tf_received_packets f'. the (rcv_delta_ticks p)) =
      tf_last_timestamp_us f + kDeltaScaleFactor * d"
    using step st d by (simp add: represents_def sum z [simplified] algebra_simps)
  then show ?thesis using delta_of_accurate [OF assms(2) d] by simp
qed

text \<open>
  A built packet, sent in one buffer, is parsed to a packet that reports the same statuses and
  has the same sources, path id, numbers and feedback count; the base time comes back as the
  24-bit signed number its bits stand for.
\<close>

lemma feedback_roundtrip:
  assumes "feedback_built f" "tf_include_timestamps f" "0 < tf_num_seq_no f" "int32 (tf_pathid f)"
    "TransportFeedback_BlockLength f \<le> mx" "length junk = 14"
  shows "\<exists>wire g st. Build (TransportFeedback_Create f) mx = Some (Gives [wire]) \<and>
    ParseFrom junk wire = Some (Gives g) \<and> represents f st \<and> represents g st \<and>
    tf_received_packets g = tf_received_packets f \<and>
    tf_sender_ssrc g = tf_sender_ssrc f \<and> tf_media_ssrc g = tf_media_ssrc f \<and>
    tf_pathid g = tf_pathid f \<and> tf_base_seq_no g = tf_base_seq_no f \<and>
    tf_base_time_ticks g = signed_take_bit 23 (tf_base_time_ticks f) \<and>
    tf_feedback_seq g = tf_feedback_seq f"
proof -
  obtain st where st: "represents f st" using feedback_built_represents [OF assms(1)] by blast
  then have "st \<noteq> []" using assms(3) by (auto simp: represents_def)
  from ParseFrom_Create [OF st this assms(2,4,5,6)] obtain wire g where
    "Build (TransportFeedback_Create f) mx = Some (Gives [wire])" "ParseFrom junk wire = Some (Gives g)"
    "represents g st" "tf_sender_ssrc g = tf_sender_ssrc f" "tf_media_ssrc g = tf_media_ssrc f"
    "tf_pathid g = tf_pathid f" "tf_base_seq_no g = tf_base_seq_no f"
    "tf_base_time_ticks g = signed_take_bit 23 (tf_base_time_ticks f)" "tf_feedback_seq g = tf_feedback_seq f"
    by blast
  moreover have "tf_received_packets g = tf_received_packets f"
    using st \<open>represents g st\<close> \<open>tf_base_seq_no g = tf_base_seq_no f\<close> by (simp add: represents_def)
  ultimately show ?thesis using st by blast
qed

section \<open>An example\<close>

text \<open>Packets 65534, 65535 and 2 arrive on path 2; 0 and 1 are lost.\<close>

definition example_feedback_base :: TransportFeedback where
  "example_feedback_base =
     SetFeedbackSequenceNumber 7 (SetBase 65534 (64000 * 5)
       (SetFeedbackSsrcs 1 2 (TransportFeedback_new [0, 0, 0, 0, 0, 0, 0, 0, 0, 0, 0, 0, 0, 0] True True 2)))"

definition example_feedback :: TransportFeedback where
  "example_feedback =
     snd (AddReceivedPacket 65535 330100 (snd (AddReceivedPacket 65534 320200 example_feedback_base)))"

definition example_feedback_full :: TransportFeedback where
  "example_feedback_full = snd (AddReceivedPacket 2 500000 example_feedback)"

lemma example_base_built: "feedback_built example_feedback_base"
  unfolding example_feedback_base_def
  by (intro built_seq built_base built_ssrcs built_new)
    (simp_all add: SetFeedbackSsrcs_def TransportFeedback_new_def)

lemma example_built: "feedback_built example_feedback"
  unfolding example_feedback_def
  by (rule built_packet [OF built_packet [OF example_base_built surjective_pairing] surjective_pairing])

lemma example_full_built: "feedback_built example_feedback_full"
  unfolding example_feedback_full_def by (rule built_packet [OF example_built surjective_pairing])

lemmas feedback_eval = feedback_consts chunk_consts kDeltaScaleFactor_def kBaseScaleFactor_def kTimeWrapPeriodUs_def
  TransportFeedback_new_def LastChunk_new_def LastChunk_Clear_def LastChunk_Empty_def SetBase_def SetFeedbackSsrcs_def
  SetFeedbackSequenceNumber_def GetBaseTimeUs_def AddReceivedPacket_def delta_of_def delta_size_of_def AddDeltaSize_def
  CanAdd_def LastChunk_Add_def IsNewerSequenceNumber_def IsNewer16_def signed_divide_int_def smod_int_alt_def

lemma example_base_eq:
  "example_feedback_base =
     \<lparr>tf_sender_ssrc = 1, tf_media_ssrc = 2, tf_include_lost = True, tf_base_seq_no = 65534, tf_num_seq_no = 0,
      tf_pathid = 2, tf_base_time_ticks = 5, tf_feedback_seq = 7, tf_include_timestamps = True,
      tf_last_timestamp_us = 320000, tf_received_packets = [], tf_all_packets = [], tf_encoded_chunks = [],
      tf_last_chunk = \<lparr>lc_delta_sizes = [0, 0, 0, 0, 0, 0, 0, 0, 0, 0, 0, 0, 0, 0], lc_size = 0, lc_all_same = True, lc_has_large_delta = False\<rparr>,
      tf_size_bytes = 24\<rparr>"
  by (simp add: example_feedback_base_def Let_def feedback_eval)

lemma example_first_eq:
  "AddReceivedPacket 65534 320200 example_feedback_base =
     (True, \<lparr>tf_sender_ssrc = 1, tf_media_ssrc = 2, tf_include_lost = True, tf_base_seq_no = 65534, tf_num_seq_no = 1,
      tf_pathid = 2, tf_base_time_ticks = 5, tf_feedback_seq = 7, tf_include_timestamps = True,
      tf_last_timestamp_us = 320250,
      tf_received_packets = [\<lparr>rcv_sequence_number = 65534, rcv_delta_ticks = Some 1\<rparr>],
      tf_all_packets = [\<lparr>rcv_sequence_number = 65534, rcv_delta_ticks = Some 1\<rparr>],
      tf_encoded_chunks = [],
      tf_last_chunk = \<lparr>lc_delta_sizes = [1, 0, 0, 0, 0, 0, 0, 0, 0, 0, 0, 0, 0, 0], lc_size = 1, lc_all_same = True, lc_has_large_delta = False\<rparr>,
      tf_size_bytes = 27\<rparr>)"
  by (simp add: Let_def example_base_eq feedback_eval add_lost.simps)

lemma example_feedback_eq:
  "example_feedback =
     \<lparr>tf_sender_ssrc = 1, tf_media_ssrc = 2, tf_include_lost = True, tf_base_seq_no = 65534, tf_num_seq_no = 2,
      tf_pathid = 2, tf_base_time_ticks = 5, tf_feedback_seq = 7, tf_include_timestamps = True,
      tf_last_timestamp_us = 330000,
      tf_received_packets = [\<lparr>rcv_sequence_number = 65534, rcv_delta_ticks = Some 1\<rparr>, \<lparr>rcv_sequence_number = 65535, rcv_delta_ticks = Some 39\<rparr>],
      tf_all_packets = [\<lparr>rcv_sequence_number = 65534, rcv_delta_ticks = Some 1\<rparr>, \<lparr>rcv_sequence_number = 65535, rcv_delta_ticks = Some 39\<rparr>],
      tf_encoded_chunks = [],
      tf_last_chunk = \<lparr>lc_delta_sizes = [1, 1, 0, 0, 0, 0, 0, 0, 0, 0, 0, 0, 0, 0], lc_size = 2, lc_all_same = True, lc_has_large_delta = False\<rparr>,
      tf_size_bytes = 28\<rparr>"
  unfolding example_feedback_def example_first_eq snd_conv by (simp add: Let_def feedback_eval add_lost.simps)

lemma example_steps: "missing 2 example_feedback = 2" "delta_of 500000 example_feedback = Some 680"
  by (simp add: example_feedback_eq missing_def)
    (simp add: example_feedback_eq delta_of_def kDeltaScaleFactor_def kBaseScaleFactor_def kTimeWrapPeriodUs_def
      signed_divide_int_def smod_int_alt_def)

lemma example_fst: "fst (AddReceivedPacket 2 500000 example_feedback)"
  by (simp add: Let_def example_feedback_eq feedback_eval add_lost.simps)

lemma example_add: "AddReceivedPacket 2 500000 example_feedback = (True, example_feedback_full)"
  using example_fst by (simp add: example_feedback_full_def prod_eq_iff)

lemma example_values:
  "tf_include_timestamps example_feedback = True"
  "tf_include_timestamps example_feedback_full = True" "tf_num_seq_no example_feedback_full = 5"
  "tf_pathid example_feedback_full = 2" "TransportFeedback_BlockLength example_feedback_full = 32"
  "tf_base_time_ticks example_feedback_full = 5" "tf_media_ssrc example_feedback_full = 2"
  by (simp_all add: example_feedback_full_def TransportFeedback_BlockLength_def Let_def example_feedback_eq feedback_eval add_lost.simps)

theorem feedback_consistent_witness:
  "IsConsistent example_feedback_full = Some True \<and>
   IsConsistent (SetBase 1 3000000000 (TransportFeedback_new (replicate 14 0) True True 2)) = None"
proof -
  have "feedback_built (SetBase 1 3000000000 (TransportFeedback_new (replicate 14 0) True True 2))"
    by (intro built_base built_new) (simp_all add: TransportFeedback_new_def)
  from feedback_consistent [OF this] feedback_consistent [OF example_full_built] example_values(6)
  show ?thesis by (simp add: SetBase_def Let_def feedback_eval)
qed

lemma arrival_time_accurate_witness:
  "\<exists>k. \<bar>GetBaseTimeUs example_feedback_full + kDeltaScaleFactor *
    (\<Sum>p\<leftarrow>tf_received_packets example_feedback_full. the (rcv_delta_ticks p)) - 500000 - k * kTimeWrapPeriodUs\<bar> \<le> 125"
  using arrival_time_accurate [OF example_built _ example_add] example_values(1) by blast

theorem AddReceivedPacket_refines_witness:
  "\<exists>st. represents example_feedback st \<and>
     represents example_feedback_full (st @ replicate 2 None @ [Some 680])"
proof -
  obtain st where st: "represents example_feedback st" using feedback_built_represents [OF example_built] by blast
  then show ?thesis using AddReceivedPacket_refines [OF st example_add] example_steps by auto
qed

end
