(* ===== verification/Delivery.thy ===== *)
theory Delivery
  imports ReceiverPaths NackModule FeedbackParse
begin

text \<open>
  Requests and feedback on their way from one side to the other: the packets that are built for them
  go through the receiver, which hands them to its observers as they were.
\<close>

section \<open>Packets with one block\<close>

lemma IncomingPacket_single:
  assumes "CommonHeader_Parse w = Some (Gives h)" "packet_size h = length w"
    "handle_block c ck junk h (s, PacketInformation_new) = Some (t, i)"
  shows "IncomingPacket fb c ck junk w s = Some (TriggerCallbacksFromRtcpPacket fb c ck i
    (if rc_packet_type_counter_observer c
     then call_back (EvPacketTypes (rc_main_ssrc c) (rv_packet_type_counter t)) t else t))"
proof -
  have "w \<noteq> []" using assms(2) by (auto simp: packet_size_def kHeaderLength_def)
  moreover have "parse_blocks c ck junk False [] (t, i) = Some (Gives (t, i))" by (simp add: parse_blocks.simps)
  ultimately show ?thesis
    using assms by (simp add: IncomingPacket_def ParseCompoundPacket_def parse_blocks.simps [of c ck junk True w])
qed

text \<open>The events a packet adds when it has one flag only.\<close>

definition counter_events :: "receiver_config \<Rightarrow> rtcp_receiver \<Rightarrow> rtcp_event list" where
  "counter_events c t =
     (if rc_packet_type_counter_observer c then [EvPacketTypes (rc_main_ssrc c) (rv_packet_type_counter t)] else [])"

section \<open>Requests for packets\<close>

lemma handle_block_nack:
  assumes "ch_type h = kRtpfb" "ch_count h = 1" "Nack_Parse h = Some (Gives n)"
    "\<not> rc_receiver_only c" "rc_main_ssrc c = nk_media_ssrc n" "nk_packet_ids n \<noteq> []"
  shows "\<exists>t i. handle_block c ck junk h (s, PacketInformation_new) = Some (t, i) \<and> rv_events t = rv_events s \<and>
    i = PacketInformation_new\<lparr>pk_packet_type_flags := kRtcpNack, pk_pathid := ch_pathid h,
          pk_nack_sequence_numbers := nk_packet_ids n\<rparr>"
  using assms
  by (simp add: handle_block_def HandleNack_def with_parsed_def kRtpfb_def Let_def set_flag_def PacketInformation_new_def)

lemma IncomingPacket_nack:
  assumes w: "CommonHeader_Parse w = Some (Gives h)" "packet_size h = length w"
    and h: "ch_type h = kRtpfb" "ch_count h = 1" "Nack_Parse h = Some (Gives n)"
    and c: "\<not> rc_receiver_only c" "rc_main_ssrc c = nk_media_ssrc n" and n: "nk_packet_ids n \<noteq> []"
  shows "\<exists>s' t. IncomingPacket fb c ck junk w s = Some s' \<and>
    rv_events s' = rv_events s @ counter_events c t @ [EvReceivedNack (nk_packet_ids n) (ch_pathid h)]"
proof -
  obtain t i where t: "handle_block c ck junk h (s, PacketInformation_new) = Some (t, i)" "rv_events t = rv_events s"
    and i: "i = PacketInformation_new\<lparr>pk_packet_type_flags := kRtcpNack, pk_pathid := ch_pathid h,
          pk_nack_sequence_numbers := nk_packet_ids n\<rparr>"
    using handle_block_nack [OF h c n] by blast
  have flags: "has_flag kRtcpNack i" "\<not> has_flag kRtcpTmmbr i" "\<not> has_flag kRtcpSrReq i" "\<not> has_flag kRtcpPli i"
    "\<not> has_flag kRtcpFir i" "\<not> has_flag kRtcpLossNotification i" "\<not> has_flag kRtcpRemb i" "\<not> has_flag kRtcpSr i"
    "\<not> has_flag kRtcpRr i" "\<not> has_flag kRtcpTransportFeedback i"
    by (simp_all add: has_flag_def i rtcp_flags)
  have fields: "pk_nack_sequence_numbers i = nk_packet_ids n" "pk_pathid i = ch_pathid h" "pk_report_blocks i = []"
    "pk_report_block_datas i = []" "pk_network_state_estimate i = None" "pk_target_bitrate_allocation i = None"
    by (simp_all add: i PacketInformation_new_def)
  show ?thesis
    unfolding IncomingPacket_single [OF w t(1)]
    using t(2) n c(1)
    by (auto simp: TriggerCallbacksFromRtcpPacket_def Let_def request_events_def report_events_def other_events_def
        flags fields counter_events_def call_back_def)
qed

lemma age_difference:
  assumes "age e b < age e a"
  shows "unat (b - a) = age e a - age e b"
proof -
  have "b - a = (e - a) - (e - b)" by simp
  moreover have "unat ((e - a) - (e - b)) = unat (e - a) - unat (e - b)"
    using assms by (intro unat_sub) (simp add: age_def word_le_nat_alt)
  ultimately show ?thesis unfolding age_def by (simp only:)
qed

lemma batch_in_order:
  assumes "nack_inv m" "GetNackBatch opt now m = (ids, m')"
  shows "successively id_step ids"
proof -
  let ?e = "nm_newest_seq_num m"
  have ok: "nack_ok 10000 ?e (nm_nack_list m)" using assms(1) by (simp add: nack_inv_def)
  define xs where "xs = filter (\<lambda>x. nack_now opt now m (snd x)) (nm_nack_list m)"
  have ids: "ids = map fst xs"
    using batch_loop_result [OF ok, of opt now m] assms(2)
    by (auto simp: xs_def GetNackBatch_def split: prod.splits)
  have "sorted_wrt (\<lambda>x y. age ?e (fst x) > age ?e (fst y)) xs" "\<forall>x \<in> set xs. age ?e (fst x) \<le> 10000"
    using nack_ok_filter [OF ok] by (auto simp: xs_def nack_ok_def)
  moreover have "id_step (fst x) (fst y)" if "age ?e (fst y) < age ?e (fst x)" "age ?e (fst x) \<le> 10000" for x y
    using that age_difference [OF that(1)] by (simp add: id_step_def)
  ultimately have "sorted_wrt (\<lambda>x y. id_step (fst x) (fst y)) xs"
    by (elim sorted_wrt_mono_rel [rotated]) blast
  then have "sorted_wrt id_step ids" by (simp add: ids sorted_wrt_map)
  then show ?thesis by (rule successively_if_sorted_wrt)
qed

text \<open>The packets of a request, received one after the other; what was asked for, with the path.\<close>

fun receive_all ::
  "(TmmbItem list \<Rightarrow> TmmbItem list) \<Rightarrow> receiver_config \<Rightarrow> clock_reading \<Rightarrow> nat list \<Rightarrow> bytes list \<Rightarrow> rtcp_receiver \<Rightarrow>
   rtcp_receiver option" where
  "receive_all fb c ck junk [] s = Some s"
| "receive_all fb c ck junk (w # ws) s =
     Option.bind (IncomingPacket fb c ck junk w s) (receive_all fb c ck junk ws)"

definition requested :: "rtcp_event list \<Rightarrow> (u16 \<times> int) list" where
  "requested es = concat (map (\<lambda>e. case e of EvReceivedNack xs q \<Rightarrow> map (\<lambda>x. (x, q)) xs | _ \<Rightarrow> []) es)"

lemma requested_append [simp]: "requested (es @ fs) = requested es @ requested fs"
  by (simp add: requested_def)

lemma requested_counter [simp]: "requested (counter_events c t) = []"
  by (simp add: requested_def counter_events_def)

lemma delivered_lengths: "delivered p mx wires nacks \<Longrightarrow> list_all (\<lambda>w. length w \<le> mx) wires"
  by (auto simp: delivered_def list_all2_conv_all_nth list_all_length)

lemma receive_delivered:
  assumes "delivered p mx wires nacks" "\<not> rc_receiver_only c" "rc_main_ssrc c = nk_media_ssrc p"
  shows "\<exists>s'. receive_all fb c ck junk wires s = Some s' \<and>
    requested (rv_events s') = requested (rv_events s) @ map (\<lambda>x. (x, nk_pathid p)) (concat (map nk_packet_ids nacks))"
  using assms(1) [unfolded delivered_def]
proof (induction wires nacks arbitrary: s rule: list_all2_induct)
  case (Cons w ws n ns)
  from Cons(1) obtain h where h: "CommonHeader_Parse w = Some (Gives h)" "packet_size h = length w" "ch_type h = kRtpfb"
    "ch_count h = 1" "Nack_Parse h = Some (Gives n)" and p: "ch_pathid h = nk_pathid p" and n: "nk_packet_ids n \<noteq> []"
    "nk_media_ssrc n = nk_media_ssrc p" by blast
  obtain s1 t where s1: "IncomingPacket fb c ck junk w s = Some s1"
    "rv_events s1 = rv_events s @ counter_events c t @ [EvReceivedNack (nk_packet_ids n) (ch_pathid h)]"
    using IncomingPacket_nack [OF h assms(2) _ n(1)] assms(3) n(2) by metis
  from Cons(3) [of s1] s1 show ?case by (auto simp: p requested_def [of "[_]"])
qed simp

section \<open>Transport feedback\<close>

lemma IncomingPacket_feedback:
  assumes w: "CommonHeader_Parse w = Some (Gives h)" "packet_size h = length w"
    and h: "ch_type h = kRtpfb" "ch_count h = 15"
      "TransportFeedback_Parse h (TransportFeedback_new junk True True (ch_pathid h)) = Some (Gives g)"
    and c: "rc_transport_feedback_observer c" "tf_media_ssrc g \<in> set (rc_registered_ssrcs c)"
  shows "\<exists>s' t. IncomingPacket fb c ck junk w s = Some s' \<and>
    rv_events s' = rv_events s @ counter_events c t @ [EvTransportFeedback g] \<and>
    rv_second_feedback s' = (if ch_pathid h = 2 then Some g else rv_second_feedback s)"
proof -
  define i where "i = PacketInformation_new\<lparr>pk_packet_type_flags := kRtcpTransportFeedback, pk_pathid := ch_pathid h,
          pk_transport_feedback := Some g\<rparr>"
  obtain t where t: "handle_block c ck junk h (s, PacketInformation_new) = Some (t, i)" "rv_events t = rv_events s"
    "rv_second_feedback t = (if ch_pathid h = 2 then Some g else rv_second_feedback s)"
    using h by (simp add: i_def handle_block_def HandleTransportFeedback_def with_parsed_def kRtpfb_def Let_def set_flag_def
        PacketInformation_new_def)
  have flags: "has_flag kRtcpTransportFeedback i" "\<not> has_flag kRtcpTmmbr i" "\<not> has_flag kRtcpSrReq i" "\<not> has_flag kRtcpPli i"
    "\<not> has_flag kRtcpFir i" "\<not> has_flag kRtcpLossNotification i" "\<not> has_flag kRtcpRemb i" "\<not> has_flag kRtcpSr i"
    "\<not> has_flag kRtcpRr i" "\<not> has_flag kRtcpNack i"
    by (simp_all add: has_flag_def i_def rtcp_flags)
  have fields: "pk_transport_feedback i = Some g" "pk_report_blocks i = []"
    "pk_report_block_datas i = []" "pk_network_state_estimate i = None" "pk_target_bitrate_allocation i = None"
    by (simp_all add: i_def PacketInformation_new_def)
  show ?thesis
    unfolding IncomingPacket_single [OF w t(1)]
    using t(2,3) c
    by (auto simp: TriggerCallbacksFromRtcpPacket_def Let_def request_events_def report_events_def other_events_def
        flags fields counter_events_def call_back_def)
qed

end
