(* ===== verification/RateStatistics.thy ===== *)
theory RateStatistics
  imports Binary64
begin

text \<open>
  Rates over a sliding window, \<open>rtc_base/rate_statistics.cc\<close>: samples are summed in buckets of one
  millisecond, and buckets that leave the window are subtracted again. The locale \<open>sliding_window\<close>
  states the contract, a list of samples of which those inside the window count; the class
  refines it. The rate is computed in single precision, which is written out.
\<close>

section \<open>Single precision\<close>

text \<open>
  Rounding to 24 significant bits. The values here are far from the limits of the exponent: no
  subnormal numbers and no infinities occur.
\<close>

definition f32 :: "rat \<Rightarrow> rat" where
  "f32 x = (if x = 0 then 0 else let e = flog2 \<bar>x\<bar> - 23 in of_int (rne (x / 2 powi e)) * 2 powi e)"

section \<open>The class\<close>

record Bucket =
  bk_sum :: int
  bk_num_samples :: int
  bk_timestamp :: int

record RateStatistics =
  rs_buckets :: "Bucket list"
  rs_accumulated_count :: int
  rs_first_timestamp :: int
  rs_overflow :: bool
  rs_num_samples :: int
  rs_scale :: rat
  rs_max_window_size_ms :: int
  rs_current_window_size_ms :: int

definition RateStatistics_new :: "int \<Rightarrow> rat \<Rightarrow> RateStatistics" where
  "RateStatistics_new window_size_ms scale =
     \<lparr>rs_buckets = [], rs_accumulated_count = 0, rs_first_timestamp = - 1, rs_overflow = False, rs_num_samples = 0,
      rs_scale = scale, rs_max_window_size_ms = window_size_ms, rs_current_window_size_ms = window_size_ms\<rparr>"

definition RateStatistics_Reset :: "RateStatistics \<Rightarrow> RateStatistics" where
  "RateStatistics_Reset s =
     s\<lparr>rs_accumulated_count := 0, rs_overflow := False, rs_num_samples := 0, rs_first_timestamp := - 1,
       rs_current_window_size_ms := rs_max_window_size_ms s, rs_buckets := []\<rparr>"

fun erase_buckets :: "int \<Rightarrow> Bucket list \<Rightarrow> RateStatistics \<Rightarrow> RateStatistics" where
  "erase_buckets new_oldest_time [] s = s\<lparr>rs_buckets := []\<rparr>"
| "erase_buckets new_oldest_time (b # bs) s =
     (if bk_timestamp b < new_oldest_time
      then erase_buckets new_oldest_time bs
             (s\<lparr>rs_accumulated_count := rs_accumulated_count s - bk_sum b,
                rs_num_samples := rs_num_samples s - bk_num_samples b\<rparr>)
      else s\<lparr>rs_buckets := b # bs\<rparr>)"

definition EraseOld :: "int \<Rightarrow> RateStatistics \<Rightarrow> RateStatistics" where
  "EraseOld now_ms s = erase_buckets (now_ms - rs_current_window_size_ms s + 1) (rs_buckets s) s"

definition add_to_bucket :: "int \<Rightarrow> int \<Rightarrow> Bucket list \<Rightarrow> Bucket list" where
  "add_to_bucket count now_ms bs =
     (let bs = (if bs = [] \<or> now_ms \<noteq> bk_timestamp (last bs)
                then bs @ [\<lparr>bk_sum = 0, bk_num_samples = 0,
                            bk_timestamp = (if bs \<noteq> [] \<and> now_ms < bk_timestamp (last bs)
                                            then bk_timestamp (last bs) else now_ms)\<rparr>]
                else bs);
          b = last bs
      in butlast bs @ [b\<lparr>bk_sum := bk_sum b + count, bk_num_samples := bk_num_samples b + 1\<rparr>])"

definition RateStatistics_Update :: "int \<Rightarrow> int \<Rightarrow> RateStatistics \<Rightarrow> RateStatistics" where
  "RateStatistics_Update count now_ms s =
     (let s = EraseOld now_ms s;
          s = (if rs_first_timestamp s = - 1 then s\<lparr>rs_first_timestamp := now_ms\<rparr> else s);
          s = s\<lparr>rs_buckets := add_to_bucket count now_ms (rs_buckets s)\<rparr>;
          s = (if 2 ^ 63 - 1 - rs_accumulated_count s > count
               then s\<lparr>rs_accumulated_count := rs_accumulated_count s + count\<rparr> else s\<lparr>rs_overflow := True\<rparr>)
      in s\<lparr>rs_num_samples := rs_num_samples s + 1\<rparr>)"

definition active_window :: "int \<Rightarrow> RateStatistics \<Rightarrow> int" where
  "active_window now_ms s =
     (if rs_first_timestamp s = - 1 then 0
      else if rs_first_timestamp s \<le> now_ms - rs_current_window_size_ms s then rs_current_window_size_ms s
      else now_ms - rs_first_timestamp s + 1)"

text \<open>
  The rate in the last step: the count, the quotient, the product and the sum are rounded to
  single precision, the result is cut to an integer. \<open>None\<close> is the conversion of \<open>2 ^ 63\<close>, which is not
  defined; larger results are reported as unavailable.
\<close>

definition scaled_rate :: "rat \<Rightarrow> int \<Rightarrow> int \<Rightarrow> int option option" where
  "scaled_rate scale active_window_size accumulated_count =
     (let scale = f32 (scale / f32 (of_int active_window_size));
          result = f32 (f32 (f32 (of_int accumulated_count) * scale) + 1 / 2)
      in if result > 2 ^ 63 then Some None
         else if result = 2 ^ 63 then None
         else Some (Some \<lfloor>result\<rfloor>))"

definition Rate :: "int \<Rightarrow> RateStatistics \<Rightarrow> (int option \<times> RateStatistics) option" where
  "Rate now_ms s =
     (let s = EraseOld now_ms s; active_window_size = active_window now_ms s
      in if rs_num_samples s = 0 \<or> active_window_size \<le> 1 \<or>
            rs_num_samples s \<le> 1 \<and> active_window_size < rs_current_window_size_ms s \<or> rs_overflow s
         then Some (None, s)
         else do { r \<leftarrow> scaled_rate (rs_scale s) active_window_size (rs_accumulated_count s); Some (r, s) })"

definition SetWindowSize :: "int \<Rightarrow> int \<Rightarrow> RateStatistics \<Rightarrow> bool \<times> RateStatistics" where
  "SetWindowSize window_size_ms now_ms s =
     (if window_size_ms \<le> 0 \<or> window_size_ms > rs_max_window_size_ms s then (False, s)
      else let s = (if rs_first_timestamp s \<noteq> - 1
                    then s\<lparr>rs_first_timestamp := max (rs_first_timestamp s) (now_ms - window_size_ms + 1)\<rparr> else s)
           in (True, EraseOld now_ms (s\<lparr>rs_current_window_size_ms := window_size_ms\<rparr>)))"

section \<open>The contract\<close>

text \<open>A sample is a time and a count; \<open>since b\<close> sums what arrived at \<open>b\<close> or later.\<close>

definition since :: "int \<Rightarrow> (int \<times> int) list \<Rightarrow> int" where
  "since b xs = (\<Sum>(t, c)\<leftarrow>xs. if b \<le> t then c else 0)"

definition samples_since :: "int \<Rightarrow> (int \<times> int) list \<Rightarrow> int" where
  "samples_since b xs = (\<Sum>(t, c)\<leftarrow>xs. if b \<le> t then 1 else 0)"

definition good_samples :: "(int \<times> int) list \<Rightarrow> bool" where
  "good_samples xs \<longleftrightarrow> sorted (map fst xs) \<and> (\<forall>(t, c) \<in> set xs. 0 \<le> t \<and> 0 \<le> c) \<and> (\<Sum>(t, c)\<leftarrow>xs. c) < 2 ^ 63 - 1"

locale sliding_window =
  fixes new :: 's and update :: "int \<Rightarrow> int \<Rightarrow> 's \<Rightarrow> 's" and window :: int
    and total :: "int \<Rightarrow> 's \<Rightarrow> int" and number :: "int \<Rightarrow> 's \<Rightarrow> int" and rep :: "(int \<times> int) list \<Rightarrow> 's \<Rightarrow> bool"
  assumes rep_new: "rep [] new"
    and rep_update: "1 \<le> window \<Longrightarrow> rep xs s \<Longrightarrow> good_samples (xs @ [(t, c)]) \<Longrightarrow> rep (xs @ [(t, c)]) (update c t s)"
    and total_window: "rep xs s \<Longrightarrow> (\<forall>x \<in> set xs. fst x \<le> now) \<Longrightarrow> total now s = since (now - window + 1) xs"
    and number_window: "rep xs s \<Longrightarrow> (\<forall>x \<in> set xs. fst x \<le> now) \<Longrightarrow> number now s = samples_since (now - window + 1) xs"
begin

lemma good_prefix: "good_samples (xs @ ys) \<Longrightarrow> good_samples xs"
proof -
  assume g: "good_samples (xs @ ys)"
  then have "0 \<le> (\<Sum>(t, c)\<leftarrow>ys. c)" by (intro sum_list_nonneg) (auto simp: good_samples_def)
  then show ?thesis using g by (simp add: good_samples_def sorted_append)
qed

lemma rep_run: "1 \<le> window \<Longrightarrow> good_samples xs \<Longrightarrow> rep xs (fold (\<lambda>(t, c). update c t) xs new)"
proof (induction xs rule: rev_induct)
  case (snoc x xs)
  then show ?case using rep_update [OF snoc.prems(1) snoc.IH [OF snoc.prems(1) good_prefix [OF snoc.prems(2)]]] by (cases x) simp
qed (simp add: rep_new)

lemma window_totals:
  assumes "1 \<le> window" "good_samples xs" "\<forall>x \<in> set xs. fst x \<le> now"
  shows "total now (fold (\<lambda>(t, c). update c t) xs new) = since (now - window + 1) xs"
    "number now (fold (\<lambda>(t, c). update c t) xs new) = samples_since (now - window + 1) xs"
  using total_window [OF rep_run] number_window [OF rep_run] assms by blast+

end

section \<open>The class refines it\<close>

definition sum_since :: "int \<Rightarrow> Bucket list \<Rightarrow> int" where
  "sum_since b bs = (\<Sum>x\<leftarrow>bs. if b \<le> bk_timestamp x then bk_sum x else 0)"

definition num_since :: "int \<Rightarrow> Bucket list \<Rightarrow> int" where
  "num_since b bs = (\<Sum>x\<leftarrow>bs. if b \<le> bk_timestamp x then bk_num_samples x else 0)"

lemmas since_defs = since_def samples_since_def sum_since_def num_since_def

lemma since_append [simp]:
  "since b (xs @ ys) = since b xs + since b ys" "samples_since b (xs @ ys) = samples_since b xs + samples_since b ys"
  "sum_since b (bs @ cs) = sum_since b bs + sum_since b cs" "num_since b (bs @ cs) = num_since b bs + num_since b cs"
  by (simp_all add: since_defs)

lemma since_all:
  "\<forall>x \<in> set bs. b \<le> bk_timestamp x \<Longrightarrow> sum_since b bs = (\<Sum>x\<leftarrow>bs. bk_sum x) \<and> num_since b bs = (\<Sum>x\<leftarrow>bs. bk_num_samples x)"
  by (induction bs) (auto simp: since_defs)

lemma since_later: "\<forall>x \<in> set xs. fst x < b \<Longrightarrow> since b xs = 0 \<and> samples_since b xs = 0"
  by (induction xs) (auto simp: since_defs)

lemma sum_since_later: "\<forall>x \<in> set bs. bk_timestamp x < b \<Longrightarrow> sum_since b bs = 0 \<and> num_since b bs = 0"
  by (induction bs) (auto simp: since_defs)

lemma since_filter:
  "e \<le> b \<Longrightarrow> sum_since b (filter (\<lambda>x. e \<le> bk_timestamp x) bs) = sum_since b bs \<and>
    num_since b (filter (\<lambda>x. e \<le> bk_timestamp x) bs) = num_since b bs"
  by (induction bs) (auto simp: since_defs)

lemma erase_buckets_eq:
  assumes "sorted_wrt (<) (map bk_timestamp bs)"
    "rs_accumulated_count s = (\<Sum>x\<leftarrow>bs. bk_sum x)" "rs_num_samples s = (\<Sum>x\<leftarrow>bs. bk_num_samples x)"
  shows "erase_buckets e bs s = s\<lparr>rs_buckets := filter (\<lambda>x. e \<le> bk_timestamp x) bs,
    rs_accumulated_count := sum_since e bs, rs_num_samples := num_since e bs\<rparr>"
  using assms
proof (induction bs arbitrary: s)
  case (Cons b bs)
  show ?case
  proof (cases "bk_timestamp b < e")
    case True
    then show ?thesis using Cons.IH [of "s\<lparr>rs_accumulated_count := rs_accumulated_count s - bk_sum b,
                rs_num_samples := rs_num_samples s - bk_num_samples b\<rparr>"] Cons.prems by (simp add: since_defs)
  next
    case False
    then have later: "\<forall>x \<in> set (b # bs). e \<le> bk_timestamp x" using Cons.prems(1) by fastforce
    then have "filter (\<lambda>x. e \<le> bk_timestamp x) (b # bs) = b # bs" by (simp only: filter_id_conv)
    moreover have "rs_accumulated_count s = sum_since e (b # bs)" "rs_num_samples s = num_since e (b # bs)"
      using since_all [OF later] Cons.prems(2,3) by simp_all
    ultimately show ?thesis using False by simp
  qed
qed (simp add: since_defs)

definition rate_rep :: "int \<Rightarrow> rat \<Rightarrow> (int \<times> int) list \<Rightarrow> RateStatistics \<Rightarrow> bool" where
  "rate_rep W sc xs s \<longleftrightarrow>
     rs_current_window_size_ms s = W \<and> rs_scale s = sc \<and> \<not> rs_overflow s \<and>
     rs_first_timestamp s = (if xs = [] then - 1 else fst (hd xs)) \<and>
     sorted_wrt (<) (map bk_timestamp (rs_buckets s)) \<and>
     rs_accumulated_count s = (\<Sum>x\<leftarrow>rs_buckets s. bk_sum x) \<and>
     rs_num_samples s = (\<Sum>x\<leftarrow>rs_buckets s. bk_num_samples x) \<and>
     (xs = [] \<longrightarrow> rs_buckets s = []) \<and>
     (xs \<noteq> [] \<longrightarrow> (\<forall>x \<in> set (rs_buckets s). bk_timestamp x \<le> fst (last xs)) \<and>
       (\<forall>b > fst (last xs) - W. sum_since b (rs_buckets s) = since b xs \<and> num_since b (rs_buckets s) = samples_since b xs))"

lemma rate_rep_erase:
  assumes "rate_rep W sc xs s" "\<forall>x \<in> set xs. fst x \<le> now"
  defines "e \<equiv> now - W + 1" and "bs \<equiv> filter (\<lambda>x. now - W + 1 \<le> bk_timestamp x) (rs_buckets s)"
  shows "EraseOld now s = s\<lparr>rs_buckets := bs, rs_accumulated_count := since e xs, rs_num_samples := samples_since e xs\<rparr>"
    "(\<Sum>x\<leftarrow>bs. bk_sum x) = since e xs" "(\<Sum>x\<leftarrow>bs. bk_num_samples x) = samples_since e xs"
    "\<forall>b \<ge> e. sum_since b bs = since b xs \<and> num_since b bs = samples_since b xs"
proof -
  have r: "rs_current_window_size_ms s = W" "sorted_wrt (<) (map bk_timestamp (rs_buckets s))"
    "rs_accumulated_count s = (\<Sum>x\<leftarrow>rs_buckets s. bk_sum x)"
    "rs_num_samples s = (\<Sum>x\<leftarrow>rs_buckets s. bk_num_samples x)" using assms(1) by (simp_all add: rate_rep_def)
  have all: "\<forall>b \<ge> e. sum_since b (rs_buckets s) = since b xs \<and> num_since b (rs_buckets s) = samples_since b xs"
  proof (cases "xs = []")
    case True
    then show ?thesis using assms(1) by (simp add: rate_rep_def since_defs)
  next
    case False
    then have "fst (last xs) - W < b" if "e \<le> b" for b using assms(2) that last_in_set [of xs] by (fastforce simp: e_def)
    then show ?thesis using assms(1) False by (simp add: rate_rep_def)
  qed
  then show *: "\<forall>b \<ge> e. sum_since b bs = since b xs \<and> num_since b bs = samples_since b xs"
    using since_filter [of e _ "rs_buckets s"] by (simp add: bs_def e_def)
  show "EraseOld now s = s\<lparr>rs_buckets := bs, rs_accumulated_count := since e xs, rs_num_samples := samples_since e xs\<rparr>"
    using erase_buckets_eq [OF r(2-4), of e] all by (simp add: EraseOld_def r(1) e_def bs_def)
  have "\<forall>x \<in> set bs. e \<le> bk_timestamp x" by (simp add: bs_def e_def)
  from since_all [OF this] * show "(\<Sum>x\<leftarrow>bs. bk_sum x) = since e xs" "(\<Sum>x\<leftarrow>bs. bk_num_samples x) = samples_since e xs" by simp_all
qed

lemma add_to_bucket_sorted:
  assumes "sorted_wrt (<) (map bk_timestamp bs)" "\<forall>x \<in> set bs. bk_timestamp x \<le> t"
  shows "sorted_wrt (<) (map bk_timestamp (add_to_bucket c t bs)) \<and> (\<forall>x \<in> set (add_to_bucket c t bs). bk_timestamp x \<le> t) \<and>
    sum_since b (add_to_bucket c t bs) = sum_since b bs + (if b \<le> t then c else 0) \<and>
    num_since b (add_to_bucket c t bs) = num_since b bs + (if b \<le> t then 1 else 0) \<and>
    (\<Sum>x\<leftarrow>add_to_bucket c t bs. bk_sum x) = (\<Sum>x\<leftarrow>bs. bk_sum x) + c \<and>
    (\<Sum>x\<leftarrow>add_to_bucket c t bs. bk_num_samples x) = (\<Sum>x\<leftarrow>bs. bk_num_samples x) + 1"
proof (cases bs rule: rev_cases)
  case (snoc cs y)
  show ?thesis
  proof (cases "bk_timestamp y = t")
    case True
    then show ?thesis using assms by (auto simp: snoc add_to_bucket_def Let_def sorted_wrt_append since_defs)
  next
    case False
    then have "bk_timestamp y < t" using assms(2) by (simp add: snoc)
    moreover have "\<forall>x \<in> set cs. bk_timestamp x < bk_timestamp y" using assms(1) by (simp add: snoc sorted_wrt_append)
    ultimately show ?thesis using assms
      by (auto simp: snoc add_to_bucket_def Let_def sorted_wrt_append since_defs butlast_append)
  qed
qed (simp add: add_to_bucket_def since_defs)

lemma since_le_all:
  "\<forall>x \<in> set xs. 0 \<le> snd x \<Longrightarrow> since b xs \<le> (\<Sum>(t, c)\<leftarrow>xs. c)"
  by (induction xs) (auto simp: since_defs)

lemma rate_rep_update:
  assumes r: "rate_rep W sc xs s" and g: "good_samples (xs @ [(t, c)])" and W: "1 \<le> W"
  shows "rate_rep W sc (xs @ [(t, c)]) (RateStatistics_Update c t s)"
proof -
  have t: "\<forall>x \<in> set xs. fst x \<le> t" and c: "0 \<le> c" "0 \<le> t" and xs: "\<forall>x \<in> set xs. 0 \<le> fst x \<and> 0 \<le> snd x"
    and total: "(\<Sum>(t, c)\<leftarrow>xs. c) + c < 2 ^ 63 - 1"
    using g by (auto simp: good_samples_def sorted_append)
  define e where "e = t - W + 1"
  define bs where "bs = filter (\<lambda>x. t - W + 1 \<le> bk_timestamp x) (rs_buckets s)"
  note er = rate_rep_erase [OF r t, folded e_def, folded bs_def [unfolded e_def [symmetric]]]
  have bs: "sorted_wrt (<) (map bk_timestamp bs)" "\<forall>x \<in> set bs. bk_timestamp x \<le> t"
  proof -
    show "sorted_wrt (<) (map bk_timestamp bs)"
      using r by (auto simp: rate_rep_def bs_def sorted_wrt_map intro: sorted_wrt_filter)
    show "\<forall>x \<in> set bs. bk_timestamp x \<le> t"
      using r t last_in_set [of xs] by (cases "xs = []") (fastforce simp: rate_rep_def bs_def)+
  qed
  have acc: "2 ^ 63 - 1 - since e xs > c" using since_le_all [of xs e] xs total by force
  have first: "(xs = []) = (rs_first_timestamp s = - 1)" using r xs by (cases xs) (auto simp: rate_rep_def)
  have upd: "RateStatistics_Update c t s =
    s\<lparr>rs_buckets := add_to_bucket c t bs, rs_accumulated_count := since e xs + c, rs_num_samples := samples_since e xs + 1,
      rs_first_timestamp := (if xs = [] then t else rs_first_timestamp s)\<rparr>"
    using acc by (simp add: RateStatistics_Update_def Let_def er(1) first bs_def e_def)
  note a = add_to_bucket_sorted [OF bs, of c]
  have later: "sum_since b (add_to_bucket c t bs) = since b (xs @ [(t, c)]) \<and>
      num_since b (add_to_bucket c t bs) = samples_since b (xs @ [(t, c)])" if "t - W < b" for b
    using a [of b] er(4) that by (simp add: e_def since_defs)
  show ?thesis using r a [of 0] later er(2,3) by (simp add: rate_rep_def upd hd_append)
qed

interpretation rate: sliding_window "RateStatistics_new W sc" RateStatistics_Update W
  "\<lambda>now s. rs_accumulated_count (EraseOld now s)" "\<lambda>now s. rs_num_samples (EraseOld now s)" "rate_rep W sc" for W sc
proof
  show "rate_rep W sc [] (RateStatistics_new W sc)" by (simp add: rate_rep_def RateStatistics_new_def)
qed (simp_all add: rate_rep_update rate_rep_erase(1))

text \<open>
  C35: after any samples in the order of time, whose total stays below the limit of a 64-bit
  counter, \<open>Rate\<close> is computed from the sum and the number of exactly those samples that are not older
  than the window, and from the time since the first sample.
\<close>

theorem rate_of_window:
  assumes "1 \<le> W" "good_samples xs" "\<forall>x \<in> set xs. fst x \<le> now" "xs \<noteq> []"
  shows "map_option fst (Rate now (fold (\<lambda>(t, c). RateStatistics_Update c t) xs (RateStatistics_new W sc))) =
    (let b = now - W + 1; active = (if fst (hd xs) < b then W else now - fst (hd xs) + 1)
     in if samples_since b xs = 0 \<or> active \<le> 1 \<or> samples_since b xs = 1 \<and> active < W then Some None
        else scaled_rate sc active (since b xs))"
proof -
  let ?s = "fold (\<lambda>(t, c). RateStatistics_Update c t) xs (RateStatistics_new W sc)"
  have r: "rate_rep W sc xs ?s" by (rule rate.rep_run [OF assms(1,2)])
  define bs where "bs = filter (\<lambda>x. now - W + 1 \<le> bk_timestamp x) (rs_buckets ?s)"
  have e: "EraseOld now ?s = ?s\<lparr>rs_buckets := bs, rs_accumulated_count := since (now - W + 1) xs,
      rs_num_samples := samples_since (now - W + 1) xs\<rparr>"
    unfolding bs_def by (rule rate_rep_erase(1) [OF r assms(3)])
  have f: "rs_first_timestamp ?s = fst (hd xs)" "rs_current_window_size_ms ?s = W" "rs_scale ?s = sc" "\<not> rs_overflow ?s"
    using r assms(4) by (simp_all add: rate_rep_def)
  have "0 \<le> fst (hd xs)" using assms(2,4) by (cases xs) (auto simp: good_samples_def)
  then have a: "active_window now (EraseOld now ?s) = (if fst (hd xs) < now - W + 1 then W else now - fst (hd xs) + 1)"
    by (simp add: e active_window_def f)
  have "0 \<le> samples_since b xs" for b by (auto simp: samples_since_def intro!: sum_list_nonneg)
  then have n: "samples_since b xs \<noteq> 0 \<Longrightarrow> (samples_since b xs \<le> 1) = (samples_since b xs = 1)" for b by (smt (verit))
  show ?thesis
    unfolding Rate_def Let_def a
    by (simp add: e f) (use n in \<open>auto simp: map_option_case split: bind_splits option.splits\<close>)
qed

theorem rate_of_window_witness:
  "map_option fst (Rate 1500 (fold (\<lambda>(t, c). RateStatistics_Update c t) [(0, 100), (600, 200), (1500, 300)]
    (RateStatistics_new 1000 8000))) = Some (Some 4000)"
proof -
  have "good_samples [(0, 100), (600, 200), (1500, 300)]" by (simp add: good_samples_def)
  from rate_of_window [OF _ this, of 1000 1500 8000]
  have "map_option fst (Rate 1500 (fold (\<lambda>(t, c). RateStatistics_Update c t) [(0, 100), (600, 200), (1500, 300)]
    (RateStatistics_new 1000 8000))) = scaled_rate 8000 1000 500"
    by (simp add: Let_def since_defs)
  moreover have "scaled_rate 8000 1000 500 = Some (Some 4000)" by code_simp
  ultimately show ?thesis by simp
qed

end
