(* ===== verification/ReceiveStatistics.thy ===== *)
theory ReceiveStatistics
  imports RateStatistics SeqNum RtcpReports RtpSender StdMap
begin

text \<open>
  What a receiver knows of a stream, \<open>modules/rtp_rtcp/source/receive_statistics_impl.cc\<close>: losses, highest
  numbers and jitter, once over the stream and once for each path, and the report blocks made
  of them. The members that exist three times (without suffix, \<open>_primary\<close> or \<open>_p\<close>, \<open>_secondary\<close> or \<open>_s\<close>)
  are three records of one type. Losses are 32-bit integers, so sums are reduced to 32 bits. \<open>None\<close>
  is undefined behaviour: a division by a clock rate below 1000, the absolute value of the smallest integer.
\<close>

section \<open>State\<close>

record RtpPacketReceived =
  rx_ssrc :: u32
  rx_sequence_number :: u16
  rx_timestamp :: u32
  rx_subflow_id :: u8
  rx_subflow_seq :: u16
  rx_payload_type_frequency :: int
  rx_headers_size :: nat
  rx_payload_size :: nat
  rx_padding_size :: nat

record RtpPacketCounter =
  ct_header_bytes :: nat
  ct_payload_bytes :: nat
  ct_padding_bytes :: nat
  ct_packets :: u32

definition RtpPacketCounter_AddPacket :: "RtpPacketReceived \<Rightarrow> RtpPacketCounter \<Rightarrow> RtpPacketCounter" where
  "RtpPacketCounter_AddPacket p c =
     c\<lparr>ct_packets := ct_packets c + 1, ct_header_bytes := ct_header_bytes c + rx_headers_size p,
       ct_padding_bytes := ct_padding_bytes c + rx_padding_size p,
       ct_payload_bytes := ct_payload_bytes c + rx_payload_size p\<rparr>"

record StreamDataCounters =
  dc_first_packet_time_ms :: int
  dc_last_packet_received_timestamp_ms :: "int option"
  dc_transmitted :: RtpPacketCounter
  dc_retransmitted :: RtpPacketCounter

record flow_statistics =
  fl_jitter_q4 :: u32
  fl_cumulative_loss :: int
  fl_cumulative_loss_rtcp_offset :: int
  fl_last_receive_time_ms :: int
  fl_last_received_timestamp :: u32
  fl_received_seq_first :: int
  fl_received_seq_max :: int
  fl_received_seq_out_of_order :: "u16 option"
  fl_last_report_cumulative_loss :: int
  fl_last_report_seq_max :: int

record statistician =
  ss_incoming_bitrate :: RateStatistics
  ss_max_reordering_threshold :: int
  ss_enable_retransmit_detection :: bool
  ss_seq_unwrapper :: "int option"
  ss_stream :: flow_statistics
  ss_primary :: flow_statistics
  ss_secondary :: flow_statistics
  ss_receive_counters :: StreamDataCounters

definition flow_statistics_new :: flow_statistics where
  "flow_statistics_new =
     \<lparr>fl_jitter_q4 = 0, fl_cumulative_loss = 0, fl_cumulative_loss_rtcp_offset = 0, fl_last_receive_time_ms = 0,
      fl_last_received_timestamp = 0, fl_received_seq_first = - 1, fl_received_seq_max = - 1,
      fl_received_seq_out_of_order = None, fl_last_report_cumulative_loss = 0, fl_last_report_seq_max = - 1\<rparr>"

definition kStatisticsTimeoutMs :: int where "kStatisticsTimeoutMs = 8000"
definition kStatisticsProcessIntervalMs :: int where "kStatisticsProcessIntervalMs = 1000"

definition RtpPacketCounter_new :: RtpPacketCounter where
  "RtpPacketCounter_new = \<lparr>ct_header_bytes = 0, ct_payload_bytes = 0, ct_padding_bytes = 0, ct_packets = 0\<rparr>"

definition statistician_new :: "int \<Rightarrow> statistician" where
  "statistician_new max_reordering_threshold =
     \<lparr>ss_incoming_bitrate = RateStatistics_new kStatisticsProcessIntervalMs 8000,
      ss_max_reordering_threshold = max_reordering_threshold, ss_enable_retransmit_detection = False,
      ss_seq_unwrapper = None, ss_stream = flow_statistics_new, ss_primary = flow_statistics_new,
      ss_secondary = flow_statistics_new,
      ss_receive_counters = \<lparr>dc_first_packet_time_ms = - 1, dc_last_packet_received_timestamp_ms = None,
        dc_transmitted = RtpPacketCounter_new, dc_retransmitted = RtpPacketCounter_new\<rparr>\<rparr>"

section \<open>Retransmissions of old packets\<close>

text \<open>The square root of an integer, rounded to single precision.\<close>

fun isqrt_bits :: "nat \<Rightarrow> int \<Rightarrow> int \<Rightarrow> int" where
  "isqrt_bits 0 r n = r"
| "isqrt_bits (Suc k) r n = isqrt_bits k (if (r + 2 ^ k)\<^sup>2 \<le> n then r + 2 ^ k else r) n"

definition f32_sqrt :: "int \<Rightarrow> rat" where
  "f32_sqrt n =
     (if n \<le> 0 then 0
      else let e = 23 - (bitlen n - 1) div 2; N = n * 4 ^ nat e; m = isqrt_bits 25 0 N
           in of_int (if N > m * m + m then m + 1 else m) / 2 ^ nat e)"

definition max_delay_ms :: "u32 \<Rightarrow> u32 \<Rightarrow> int" where
  "max_delay_ms jitter_q4 frequency_khz =
     (let jitter_std = f32_sqrt \<lfloor>f32 (of_int (uint (drop_bit 4 jitter_q4)))\<rfloor>;
          d = \<lfloor>f32 (2 * jitter_std / f32 (of_int (uint frequency_khz)))\<rfloor>
      in if d = 0 then 1 else d)"

definition IsRetransmitOfOldPacket :: "RtpPacketReceived \<Rightarrow> int \<Rightarrow> statistician \<Rightarrow> bool option" where
  "IsRetransmitOfOldPacket p now_ms s =
     (let frequency_khz = word_of_int (rx_payload_type_frequency p sdiv 1000) :: u32;
          f = ss_stream s;
          time_diff_ms = now_ms - fl_last_receive_time_ms f;
          timestamp_diff = rx_timestamp p - fl_last_received_timestamp f
      in if frequency_khz = 0 then None
         else Some (time_diff_ms > uint (timestamp_diff div frequency_khz) + max_delay_ms (fl_jitter_q4 f) frequency_khz))"

section \<open>Order\<close>

text \<open>
  The common text of \<open>UpdateOutOfOrder\<close> and its copies for the two paths: \<open>cmp\<close> is the number compared
  with the pending one, \<open>stored\<close> the number kept as pending. The first result tells that the packet is out
  of order, the second that it is old.
\<close>

definition check_order ::
  "int \<Rightarrow> u16 \<Rightarrow> u16 \<Rightarrow> int \<Rightarrow> flow_statistics \<Rightarrow> bool \<times> bool \<times> flow_statistics" where
  "check_order threshold cmp stored sequence_number f =
     (let f1 = (case fl_received_seq_out_of_order f of
                  None \<Rightarrow> f
                | Some q \<Rightarrow> f\<lparr>fl_cumulative_loss := c_int (fl_cumulative_loss f - 1),
                              fl_received_seq_out_of_order := None\<rparr>)
      in if (case fl_received_seq_out_of_order f of None \<Rightarrow> False | Some q \<Rightarrow> cmp = q + 1)
         then (False, False, f1\<lparr>fl_last_report_seq_max := sequence_number - 2, fl_received_seq_max := sequence_number - 2\<rparr>)
         else if \<bar>sequence_number - fl_received_seq_max f1\<bar> > threshold
         then (True, False, f1\<lparr>fl_received_seq_out_of_order := Some stored,
                               fl_cumulative_loss := c_int (fl_cumulative_loss f1 + 1)\<rparr>)
         else if sequence_number > fl_received_seq_max f1 then (False, False, f1)
         else (True, True, f1))"

definition count_retransmit :: "RtpPacketReceived \<Rightarrow> int \<Rightarrow> bool \<Rightarrow> statistician \<Rightarrow> statistician option" where
  "count_retransmit p now_ms old s =
     (if old \<and> ss_enable_retransmit_detection s
      then do { r \<leftarrow> IsRetransmitOfOldPacket p now_ms s;
                let c = ss_receive_counters s;
                Some (if r then s\<lparr>ss_receive_counters := c\<lparr>dc_retransmitted := RtpPacketCounter_AddPacket p (dc_retransmitted c)\<rparr>\<rparr>
                      else s) }
      else Some s)"

definition UpdateOutOfOrder :: "RtpPacketReceived \<Rightarrow> int \<Rightarrow> int \<Rightarrow> statistician \<Rightarrow> (bool \<times> statistician) option" where
  "UpdateOutOfOrder p sequence_number now_ms s =
     (let (r, old, f) = check_order (ss_max_reordering_threshold s) (rx_sequence_number p) (rx_sequence_number p)
                          sequence_number (ss_stream s)
      in do { s \<leftarrow> count_retransmit p now_ms old (s\<lparr>ss_stream := f\<rparr>); Some (r, s) })"

definition MpPrimaryUpdateOutOfOrder ::
  "RtpPacketReceived \<Rightarrow> int \<Rightarrow> int \<Rightarrow> statistician \<Rightarrow> (bool \<times> statistician) option" where
  "MpPrimaryUpdateOutOfOrder p sequence_number now_ms s =
     (let (r, old, f) = check_order (ss_max_reordering_threshold s) (rx_subflow_seq p) (rx_sequence_number p)
                          sequence_number (ss_primary s)
      in do { s \<leftarrow> count_retransmit p now_ms old (s\<lparr>ss_primary := f\<rparr>); Some (r, s) })"

definition MpSecondaryUpdateOutOfOrder ::
  "RtpPacketReceived \<Rightarrow> int \<Rightarrow> int \<Rightarrow> statistician \<Rightarrow> (bool \<times> statistician) option" where
  "MpSecondaryUpdateOutOfOrder p sequence_number now_ms s =
     (let (r, old, f) = check_order (ss_max_reordering_threshold s) (rx_subflow_seq p) (rx_sequence_number p)
                          sequence_number (ss_secondary s)
      in do { s \<leftarrow> count_retransmit p now_ms old (s\<lparr>ss_secondary := f\<rparr>); Some (r, s) })"

section \<open>Jitter\<close>

definition update_jitter :: "RtpPacketReceived \<Rightarrow> int \<Rightarrow> flow_statistics \<Rightarrow> flow_statistics option" where
  "update_jitter p receive_time_ms f =
     (let receive_diff_ms = receive_time_ms - fl_last_receive_time_ms f;
          receive_diff_rtp = word_of_int (receive_diff_ms * rx_payload_type_frequency p sdiv 1000) :: u32;
          time_diff_samples = sint (receive_diff_rtp - (rx_timestamp p - fl_last_received_timestamp f))
      in if time_diff_samples = - (2 ^ 31) then None
         else let time_diff_samples = \<bar>time_diff_samples\<bar>
              in Some (if time_diff_samples < 450000
                       then let jitter_diff_q4 = sint (word_of_int (time_diff_samples * 16) - fl_jitter_q4 f)
                            in f\<lparr>fl_jitter_q4 := fl_jitter_q4 f + word_of_int ((jitter_diff_q4 + 8) div 16)\<rparr>
                       else f))"

definition UpdateJitter :: "RtpPacketReceived \<Rightarrow> int \<Rightarrow> statistician \<Rightarrow> statistician option" where
  "UpdateJitter p t s = do { f \<leftarrow> update_jitter p t (ss_stream s); Some (s\<lparr>ss_stream := f\<rparr>) }"

definition UpdateJitter_p :: "RtpPacketReceived \<Rightarrow> int \<Rightarrow> statistician \<Rightarrow> statistician option" where
  "UpdateJitter_p p t s = do { f \<leftarrow> update_jitter p t (ss_primary s); Some (s\<lparr>ss_primary := f\<rparr>) }"

definition UpdateJitter_s :: "RtpPacketReceived \<Rightarrow> int \<Rightarrow> statistician \<Rightarrow> statistician option" where
  "UpdateJitter_s p t s = do { f \<leftarrow> update_jitter p t (ss_secondary s); Some (s\<lparr>ss_secondary := f\<rparr>) }"

section \<open>Counting a packet\<close>

definition flow_first :: "int \<Rightarrow> flow_statistics \<Rightarrow> flow_statistics" where
  "flow_first sequence_number f =
     f\<lparr>fl_received_seq_first := sequence_number, fl_last_report_seq_max := sequence_number - 1,
       fl_received_seq_max := sequence_number - 1\<rparr>"

definition flow_count :: "flow_statistics \<Rightarrow> flow_statistics" where
  "flow_count f = f\<lparr>fl_cumulative_loss := c_int (fl_cumulative_loss f - 1)\<rparr>"

definition flow_advance :: "int \<Rightarrow> flow_statistics \<Rightarrow> flow_statistics" where
  "flow_advance sequence_number f =
     f\<lparr>fl_cumulative_loss := c_int (fl_cumulative_loss f + (sequence_number - fl_received_seq_max f)),
       fl_received_seq_max := sequence_number\<rparr>"

definition first_packet_time :: "int \<Rightarrow> statistician \<Rightarrow> statistician" where
  "first_packet_time now_ms s =
     s\<lparr>ss_receive_counters := (ss_receive_counters s)\<lparr>dc_first_packet_time_ms := now_ms\<rparr>\<rparr>"

text \<open>The part for the path of the packet; the result tells whether \<open>UpdateCounters\<close> returns early.\<close>

definition count_primary :: "RtpPacketReceived \<Rightarrow> int \<Rightarrow> statistician \<Rightarrow> (bool \<times> statistician) option" where
  "count_primary p now_ms s =
     (let s = s\<lparr>ss_primary := flow_count (ss_primary s)\<rparr>;
          primary_seq = UnwrapWithoutUpdate16 (rx_subflow_seq p) (ss_seq_unwrapper s)
      in do { (r, s) \<leftarrow> (if fl_received_seq_first (ss_primary s) < 0
                        then Some (False, first_packet_time now_ms (s\<lparr>ss_primary := flow_first primary_seq (ss_primary s)\<rparr>))
                        else MpPrimaryUpdateOutOfOrder p primary_seq now_ms s);
              Some (if r then (True, s) else (False, s\<lparr>ss_primary := flow_advance primary_seq (ss_primary s)\<rparr>)) })"

definition count_secondary :: "RtpPacketReceived \<Rightarrow> int \<Rightarrow> statistician \<Rightarrow> (bool \<times> statistician) option" where
  "count_secondary p now_ms s =
     (let s = s\<lparr>ss_secondary := flow_count (ss_secondary s)\<rparr>;
          secondary_seq = UnwrapWithoutUpdate16 (rx_subflow_seq p) (ss_seq_unwrapper s)
      in do { (r, s) \<leftarrow> (if fl_received_seq_first (ss_secondary s) < 0
                        then Some (False, first_packet_time now_ms (s\<lparr>ss_secondary := flow_first secondary_seq (ss_secondary s)\<rparr>))
                        else MpSecondaryUpdateOutOfOrder p secondary_seq now_ms s);
              Some (if r then (True, s) else (False, s\<lparr>ss_secondary := flow_advance secondary_seq (ss_secondary s)\<rparr>)) })"

definition flow_received :: "RtpPacketReceived \<Rightarrow> int \<Rightarrow> flow_statistics \<Rightarrow> flow_statistics" where
  "flow_received p now_ms f = f\<lparr>fl_last_received_timestamp := rx_timestamp p, fl_last_receive_time_ms := now_ms\<rparr>"

definition count_jitter :: "RtpPacketReceived \<Rightarrow> int \<Rightarrow> statistician \<Rightarrow> statistician option" where
  "count_jitter p now_ms s =
     do { s \<leftarrow> (if rx_subflow_id p = 1 \<and> rx_timestamp p \<noteq> fl_last_received_timestamp (ss_primary s)
               then do { s \<leftarrow> UpdateJitter_p p now_ms s; Some (s\<lparr>ss_primary := flow_received p now_ms (ss_primary s)\<rparr>) }
               else Some s);
          s \<leftarrow> (if rx_subflow_id p = 2 \<and> rx_timestamp p \<noteq> fl_last_received_timestamp (ss_secondary s)
               then do { s \<leftarrow> UpdateJitter_s p now_ms s; Some (s\<lparr>ss_secondary := flow_received p now_ms (ss_secondary s)\<rparr>) }
               else Some s);
          let c = ss_receive_counters s;
          s \<leftarrow> (if rx_timestamp p \<noteq> fl_last_received_timestamp (ss_stream s) \<and>
                  ct_packets (dc_transmitted c) - ct_packets (dc_retransmitted c) > 1
               then UpdateJitter p now_ms s else Some s);
          Some (s\<lparr>ss_stream := flow_received p now_ms (ss_stream s)\<rparr>) }"

definition count_received :: "RtpPacketReceived \<Rightarrow> int \<Rightarrow> statistician \<Rightarrow> statistician" where
  "count_received p now_ms s =
     (let c = ss_receive_counters s
      in s\<lparr>ss_incoming_bitrate := RateStatistics_Update
             (int (rx_headers_size p + rx_payload_size p + rx_padding_size p)) now_ms (ss_incoming_bitrate s),
           ss_receive_counters := c\<lparr>dc_last_packet_received_timestamp_ms := Some now_ms,
             dc_transmitted := RtpPacketCounter_AddPacket p (dc_transmitted c)\<rparr>,
           ss_stream := flow_count (ss_stream s)\<rparr>)"

definition count_stream :: "RtpPacketReceived \<Rightarrow> int \<Rightarrow> int \<Rightarrow> statistician \<Rightarrow> statistician option" where
  "count_stream p sequence_number now_ms s =
     (if fl_received_seq_first (ss_stream s) < 0
      then Some (first_packet_time now_ms (s\<lparr>ss_stream := flow_first sequence_number (ss_stream s)\<rparr>))
      else map_option snd (UpdateOutOfOrder p sequence_number now_ms s))"

definition UpdateCounters :: "RtpPacketReceived \<Rightarrow> int \<Rightarrow> statistician \<Rightarrow> statistician option" where
  "UpdateCounters p now_ms s =
     (let s = count_received p now_ms s;
          sequence_number = UnwrapWithoutUpdate16 (rx_sequence_number p) (ss_seq_unwrapper s)
      in do { s \<leftarrow> count_stream p sequence_number now_ms s;
              (early, s) \<leftarrow> (if rx_subflow_id p \<noteq> 2 then count_primary p now_ms s else count_secondary p now_ms s);
              if early then Some s
              else count_jitter p now_ms
                     (s\<lparr>ss_stream := flow_advance sequence_number (ss_stream s), ss_seq_unwrapper := Some sequence_number\<rparr>) })"

definition SetMaxReorderingThreshold :: "int \<Rightarrow> statistician \<Rightarrow> statistician" where
  "SetMaxReorderingThreshold t s = s\<lparr>ss_max_reordering_threshold := t\<rparr>"

definition EnableRetransmitDetection :: "bool \<Rightarrow> statistician \<Rightarrow> statistician" where
  "EnableRetransmitDetection enable s = s\<lparr>ss_enable_retransmit_detection := enable\<rparr>"

section \<open>Reports\<close>

record RtcpStatistics =
  st_fraction_lost :: u8
  st_subflowfractionlost_p :: u8
  st_subflowfractionlost_s :: u8
  st_packets_lost :: int
  st_packets_lost_p :: int
  st_packets_lost_s :: int
  st_extended_highest_sequence_number :: u32
  st_extended_highest_sequence_number_p :: u32
  st_extended_highest_sequence_number_s :: u32
  st_jitter :: u32
  st_jitter_p :: u32
  st_jitter_s :: u32

definition RtcpStatistics_new :: RtcpStatistics where
  "RtcpStatistics_new =
     \<lparr>st_fraction_lost = 0, st_subflowfractionlost_p = 0, st_subflowfractionlost_s = 0, st_packets_lost = 0,
      st_packets_lost_p = 0, st_packets_lost_s = 0, st_extended_highest_sequence_number = 0,
      st_extended_highest_sequence_number_p = 0, st_extended_highest_sequence_number_s = 0,
      st_jitter = 0, st_jitter_p = 0, st_jitter_s = 0\<rparr>"

text \<open>
  The common text of the three calculations: fraction lost, packets lost, highest number, jitter
  and the new state. \<open>255 * lost_since_last\<close> is a product of 32-bit integers.
\<close>

definition calculate :: "flow_statistics \<Rightarrow> (u8 \<times> int \<times> u32 \<times> u32) \<times> flow_statistics" where
  "calculate f =
     (let exp_since_last = fl_received_seq_max f - fl_last_report_seq_max f;
          lost_since_last = c_int (fl_cumulative_loss f - fl_last_report_cumulative_loss f);
          fraction = (if exp_since_last > 0 \<and> lost_since_last > 0
                      then word_of_int (c_int (255 * lost_since_last) sdiv exp_since_last) else 0);
          lost = c_int (fl_cumulative_loss f + fl_cumulative_loss_rtcp_offset f);
          f' = (if lost < 0 then f\<lparr>fl_cumulative_loss_rtcp_offset := c_int (- fl_cumulative_loss f)\<rparr> else f)
      in ((fraction, if lost < 0 then 0 else lost, word_of_int (fl_received_seq_max f), drop_bit 4 (fl_jitter_q4 f)),
          f'\<lparr>fl_last_report_cumulative_loss := fl_cumulative_loss f, fl_last_report_seq_max := fl_received_seq_max f\<rparr>))"

definition MpPrimaryCalculateRtcpStatistics :: "statistician \<Rightarrow> RtcpStatistics \<times> statistician" where
  "MpPrimaryCalculateRtcpStatistics s =
     (let ((fraction, lost, seq, jitter), f) = calculate (ss_primary s)
      in (RtcpStatistics_new\<lparr>st_subflowfractionlost_p := fraction, st_packets_lost_p := lost,
            st_extended_highest_sequence_number_p := seq, st_jitter_p := jitter,
            st_extended_highest_sequence_number := word_of_int (fl_received_seq_max (ss_stream s))\<rparr>,
          s\<lparr>ss_primary := f\<rparr>))"

definition MpSecondaryCalculateRtcpStatistics :: "statistician \<Rightarrow> RtcpStatistics \<times> statistician" where
  "MpSecondaryCalculateRtcpStatistics s =
     (let ((fraction, lost, seq, jitter), f) = calculate (ss_secondary s)
      in (RtcpStatistics_new\<lparr>st_subflowfractionlost_s := fraction, st_packets_lost_s := lost,
            st_extended_highest_sequence_number_s := seq, st_jitter_s := jitter,
            st_extended_highest_sequence_number := word_of_int (fl_received_seq_max (ss_stream s))\<rparr>,
          s\<lparr>ss_secondary := f\<rparr>))"

definition CalculateRtcpStatistics :: "statistician \<Rightarrow> RtcpStatistics \<times> statistician" where
  "CalculateRtcpStatistics s =
     (let ((fraction, lost, seq, jitter), f) = calculate (ss_stream s)
      in (RtcpStatistics_new\<lparr>st_fraction_lost := fraction, st_packets_lost := lost,
            st_extended_highest_sequence_number := seq, st_jitter := jitter\<rparr>, s\<lparr>ss_stream := f\<rparr>))"

definition GetActiveStatisticsAndReset ::
  "mp_collector \<Rightarrow> int \<Rightarrow> int \<Rightarrow> statistician \<Rightarrow> RtcpStatistics option \<times> statistician" where
  "GetActiveStatisticsAndReset m now_ms pathid s =
     (if now_ms - fl_last_receive_time_ms (ss_stream s) \<ge> kStatisticsTimeoutMs then (None, s)
      else if fl_received_seq_first (ss_stream s) < 0 then (None, s)
      else let (r, s) =
             (if pathid = 1 then MpPrimaryCalculateRtcpStatistics s
              else if pathid = 2 \<and> MpISsecondPathOpen m \<and> \<not> str_find ''red'' (mc_scheduler m)
              then MpSecondaryCalculateRtcpStatistics s
              else CalculateRtcpStatistics s)
           in (Some r, s))"

record RtpReceiveStats =
  rr_packets_lost :: int
  rr_jitter :: u32
  rr_last_packet_received_timestamp_ms :: "int option"
  rr_packet_counter :: RtpPacketCounter

definition GetStats :: "statistician \<Rightarrow> RtpReceiveStats" where
  "GetStats s =
     \<lparr>rr_packets_lost = fl_cumulative_loss (ss_stream s), rr_jitter = drop_bit 4 (fl_jitter_q4 (ss_stream s)),
      rr_last_packet_received_timestamp_ms = dc_last_packet_received_timestamp_ms (ss_receive_counters s),
      rr_packet_counter = dc_transmitted (ss_receive_counters s)\<rparr>"

definition GetFractionLostInPercent :: "mp_collector \<Rightarrow> statistician \<Rightarrow> int option" where
  "GetFractionLostInPercent m s =
     (let a = ss_stream s; p = ss_primary s; q = ss_secondary s in
      if fl_received_seq_first a < 0 then None
      else let (expected_packets, cumulative_loss_overall) =
             (if MpISsecondPathOpen m \<and> \<not> str_find ''red'' (mc_scheduler m)
              then ((1 + fl_received_seq_max p - fl_received_seq_first p) + (1 + fl_received_seq_max q - fl_received_seq_first q),
                    c_int (fl_cumulative_loss p + fl_cumulative_loss q))
              else (1 + fl_received_seq_max a - fl_received_seq_first a, fl_cumulative_loss a))
           in if expected_packets \<le> 0 then None
              else if cumulative_loss_overall \<le> 0 then Some 0
              else Some (c_int (100 * cumulative_loss_overall sdiv expected_packets)))"

definition BitrateReceived :: "int \<Rightarrow> statistician \<Rightarrow> (u32 \<times> statistician) option" where
  "BitrateReceived now_ms s =
     do { (r, b) \<leftarrow> Rate now_ms (ss_incoming_bitrate s);
          Some (case r of None \<Rightarrow> 0 | Some v \<Rightarrow> word_of_int v, s\<lparr>ss_incoming_bitrate := b\<rparr>) }"

section \<open>All streams\<close>

record receive_statistics =
  rz_last_returned_ssrc :: u32
  rz_max_reordering_threshold :: int
  rz_statisticians :: "(u32, statistician) smap"
  rz_rtcp_seq_p :: u32
  rz_rtcp_seq_s :: u32

definition kDefaultMaxReorderingThreshold :: int where "kDefaultMaxReorderingThreshold = 50"

text \<open>The two counters of reports are global variables of the file.\<close>

definition receive_statistics_new :: receive_statistics where
  "receive_statistics_new =
     \<lparr>rz_last_returned_ssrc = 0, rz_max_reordering_threshold = kDefaultMaxReorderingThreshold, rz_statisticians = [],
      rz_rtcp_seq_p = 0, rz_rtcp_seq_s = 0\<rparr>"

definition GetOrCreateStatistician :: "u32 \<Rightarrow> receive_statistics \<Rightarrow> statistician" where
  "GetOrCreateStatistician ssrc r =
     (case map_of (rz_statisticians r) ssrc of
        None \<Rightarrow> statistician_new (rz_max_reordering_threshold r) | Some s \<Rightarrow> s)"

definition put_statistician :: "u32 \<Rightarrow> statistician \<Rightarrow> receive_statistics \<Rightarrow> receive_statistics" where
  "put_statistician ssrc s r = r\<lparr>rz_statisticians := sm_put ssrc s (rz_statisticians r)\<rparr>"

definition OnRtpPacket :: "int \<Rightarrow> RtpPacketReceived \<Rightarrow> receive_statistics \<Rightarrow> receive_statistics option" where
  "OnRtpPacket now_ms p r =
     do { s \<leftarrow> UpdateCounters p now_ms (GetOrCreateStatistician (rx_ssrc p) r); Some (put_statistician (rx_ssrc p) s r) }"

definition SetAllReorderingThresholds :: "int \<Rightarrow> receive_statistics \<Rightarrow> receive_statistics" where
  "SetAllReorderingThresholds t r =
     r\<lparr>rz_max_reordering_threshold := t, rz_statisticians := sm_vals (SetMaxReorderingThreshold t) (rz_statisticians r)\<rparr>"

definition SetStreamReorderingThreshold :: "u32 \<Rightarrow> int \<Rightarrow> receive_statistics \<Rightarrow> receive_statistics" where
  "SetStreamReorderingThreshold ssrc t r =
     put_statistician ssrc (SetMaxReorderingThreshold t (GetOrCreateStatistician ssrc r)) r"

definition EnableStreamRetransmitDetection :: "u32 \<Rightarrow> bool \<Rightarrow> receive_statistics \<Rightarrow> receive_statistics" where
  "EnableStreamRetransmitDetection ssrc enable r =
     put_statistician ssrc (EnableRetransmitDetection enable (GetOrCreateStatistician ssrc r)) r"

text \<open>
  \<open>extended_high_seq_num_p_\<close> is not initialised by the constructor of a block; it is written below.
\<close>

definition ReportBlock_new :: ReportBlock where
  "ReportBlock_new =
     \<lparr>rb_source_ssrc = 0, rb_fraction_lost = 0, rb_cumulative_lost = 0, rb_extended_high_seq_num = 0, rb_jitter = 0,
      rb_last_sr = 0, rb_delay_since_last_sr = 0, rb_extended_high_seq_num_p = 0, rb_rtcp_seq = 0\<rparr>"

definition report_block :: "int \<Rightarrow> u32 \<Rightarrow> u32 \<Rightarrow> RtcpStatistics \<Rightarrow> ReportBlock outcome" where
  "report_block pathid media_ssrc rtcp_seq stats =
     (let b = ReportBlock_new\<lparr>rb_source_ssrc := media_ssrc,
            rb_fraction_lost := (if pathid \<noteq> 2 then st_subflowfractionlost_p stats else st_subflowfractionlost_s stats)\<rparr>
      in case SetCumulativeLost (word_of_int (if pathid \<noteq> 2 then st_packets_lost_p stats else st_packets_lost_s stats)) b of
           Fails \<Rightarrow> Fails
         | Gives b \<Rightarrow> Gives (b\<lparr>rb_extended_high_seq_num :=
               (if pathid \<noteq> 2 then st_extended_highest_sequence_number_p stats else st_extended_highest_sequence_number_s stats),
             rb_jitter := (if pathid \<noteq> 2 then st_jitter_p stats else st_jitter_s stats),
             rb_extended_high_seq_num_p := st_extended_highest_sequence_number stats, rb_rtcp_seq := rtcp_seq\<rparr>))"

text \<open>
  The loop: the blocks made so far are \<open>result\<close>, the counter of reports of the path is \<open>n\<close>. The
  statisticians that were asked come back with their new state.
\<close>

fun add_report_blocks ::
  "mp_collector \<Rightarrow> int \<Rightarrow> int \<Rightarrow> nat \<Rightarrow> (u32, statistician) smap \<Rightarrow> ReportBlock list \<Rightarrow> u32 \<Rightarrow>
   (u32, statistician) smap \<times> ReportBlock list \<times> u32" where
  "add_report_blocks m now_ms pathid max_blocks [] result n = ([], result, n)"
| "add_report_blocks m now_ms pathid max_blocks ((ssrc, s) # es) result n =
     (if \<not> length result < max_blocks then ((ssrc, s) # es, result, n)
      else let (stats, s) = GetActiveStatisticsAndReset m now_ms pathid s;
               (result, n) = (case stats of
                                None \<Rightarrow> (result, n)
                              | Some st \<Rightarrow> (case report_block pathid ssrc n st of
                                             Fails \<Rightarrow> (result, n) | Gives b \<Rightarrow> (result @ [b], n + 1)));
               (es, result, n) = add_report_blocks m now_ms pathid max_blocks es result n
           in ((ssrc, s) # es, result, n))"

definition RtcpReportBlocks ::
  "mp_collector \<Rightarrow> int \<Rightarrow> nat \<Rightarrow> int \<Rightarrow> receive_statistics \<Rightarrow> ReportBlock list \<times> receive_statistics" where
  "RtcpReportBlocks m now_ms max_blocks pathid r =
     (let n = (if pathid \<noteq> 2 then rz_rtcp_seq_p r else rz_rtcp_seq_s r);
          before = filter (\<lambda>x. fst x \<le> rz_last_returned_ssrc r) (rz_statisticians r);
          after = filter (\<lambda>x. \<not> fst x \<le> rz_last_returned_ssrc r) (rz_statisticians r);
          (after, result, n) = add_report_blocks m now_ms pathid max_blocks after [] n;
          (before, result, n) = add_report_blocks m now_ms pathid max_blocks before result n;
          r = r\<lparr>rz_statisticians := before @ after\<rparr>;
          r = (if pathid \<noteq> 2 then r\<lparr>rz_rtcp_seq_p := n\<rparr> else r\<lparr>rz_rtcp_seq_s := n\<rparr>)
      in (result, if result \<noteq> [] then r\<lparr>rz_last_returned_ssrc := rb_source_ssrc (last result)\<rparr> else r))"

end
