(* ===== verification/PathStatistics.thy ===== *)
theory PathStatistics
  imports ReceiveStatistics
begin

text \<open>
  What the statistics of a path are worth. The locale \<open>path_flow\<close> states what the two copies of the code
  for a path have in common; interpreted on both, it gives the exact loss of a path whose
  packets come in order, and a state in which a path is never counted again.
\<close>

section \<open>Arithmetic of 32-bit integers\<close>

lemma c_int_word: "c_int x = sint (word_of_int x :: u32)"
  by (simp add: c_int_def signed_of_int)

lemma c_int_add [simp]: "c_int (c_int a + b) = c_int (a + b)" "c_int (a + c_int b) = c_int (a + b)"
  by (simp_all add: c_int_word)

lemma c_int_diff [simp]: "c_int (c_int a - b) = c_int (a - b)"
  using c_int_add(1) [of a "- b"] by simp

lemma c_int_step: "c_int (c_int (l - 1) + (y - m)) = c_int (l + (y - m - 1))"
proof -
  have "c_int (c_int (l - 1) + (y - m)) = c_int (l - 1 + (y - m))" by (rule c_int_add(1))
  then show ?thesis by (simp add: algebra_simps)
qed

section \<open>One path\<close>

definition path_step ::
  "RtpPacketReceived \<Rightarrow> int \<Rightarrow> int \<Rightarrow> flow_statistics \<Rightarrow> bool \<times> bool \<times> flow_statistics" where
  "path_step p threshold y f =
     (let f = flow_count f
      in if fl_received_seq_first f < 0 then (False, False, flow_advance y (flow_first y f))
         else let (r, old, f) = check_order threshold (rx_subflow_seq p) (rx_sequence_number p) y f
              in (r, old, if r then f else flow_advance y f))"

text \<open>What the rest of the statistician has in common with \<open>s\<close>: all but the path, the counters and the stream.\<close>

definition same_settings :: "statistician \<Rightarrow> statistician \<Rightarrow> bool" where
  "same_settings s t \<longleftrightarrow>
     ss_seq_unwrapper t = ss_seq_unwrapper s \<and> ss_max_reordering_threshold t = ss_max_reordering_threshold s \<and>
     ss_enable_retransmit_detection t = ss_enable_retransmit_detection s"

lemma count_retransmit_frame:
  assumes "count_retransmit p now old s = Some t"
  shows "same_settings s t \<and> ss_primary t = ss_primary s \<and> ss_secondary t = ss_secondary s \<and> ss_stream t = ss_stream s"
  using assms by (auto simp: count_retransmit_def same_settings_def Let_def split: if_splits bind_splits)

locale path_flow =
  fixes get :: "statistician \<Rightarrow> flow_statistics" and other :: "statistician \<Rightarrow> flow_statistics"
    and count :: "RtpPacketReceived \<Rightarrow> int \<Rightarrow> statistician \<Rightarrow> (bool \<times> statistician) option"
  assumes count_step: "count p now s = Some (early, t) \<Longrightarrow>
      (\<exists>old. path_step p (ss_max_reordering_threshold s)
         (UnwrapWithoutUpdate16 (rx_subflow_seq p) (ss_seq_unwrapper s)) (get s) = (early, old, get t)) \<and>
      same_settings s t \<and> other t = other s \<and> ss_stream t = ss_stream s"
begin

text \<open>The number that follows, within the threshold: the loss grows by the numbers left out.\<close>

lemma count_next:
  assumes "count p now s = Some (early, t)" "0 \<le> fl_received_seq_first (get s)" "fl_received_seq_out_of_order (get s) = None"
    "y = UnwrapWithoutUpdate16 (rx_subflow_seq p) (ss_seq_unwrapper s)"
    "fl_received_seq_max (get s) < y" "y \<le> fl_received_seq_max (get s) + ss_max_reordering_threshold s"
  shows "\<not> early \<and> fl_cumulative_loss (get t) = c_int (fl_cumulative_loss (get s) + (y - fl_received_seq_max (get s) - 1)) \<and>
    fl_received_seq_first (get t) = fl_received_seq_first (get s) \<and> fl_received_seq_max (get t) = y \<and>
    fl_received_seq_out_of_order (get t) = None \<and>
    fl_cumulative_loss_rtcp_offset (get t) = fl_cumulative_loss_rtcp_offset (get s)"
proof -
  obtain old where "path_step p (ss_max_reordering_threshold s) y (get s) = (early, old, get t)"
    using count_step [OF assms(1)] assms(4) by blast
  moreover have "path_step p (ss_max_reordering_threshold s) y (get s) = (False, False, flow_advance y (flow_count (get s)))"
    using assms(2,3,5,6) by (simp add: path_step_def Let_def flow_count_def check_order_def)
  ultimately have "\<not> early" "get t = flow_advance y (flow_count (get s))" by simp_all
  then show ?thesis using assms(3) by (simp add: flow_advance_def flow_count_def c_int_step del: c_int_add)
qed

lemma count_start:
  assumes "count p now s = Some (early, t)" "fl_received_seq_first (get s) < 0"
    "y = UnwrapWithoutUpdate16 (rx_subflow_seq p) (ss_seq_unwrapper s)"
  shows "\<not> early \<and> fl_cumulative_loss (get t) = c_int (fl_cumulative_loss (get s)) \<and>
    fl_received_seq_first (get t) = y \<and> fl_received_seq_max (get t) = y \<and>
    fl_received_seq_out_of_order (get t) = fl_received_seq_out_of_order (get s) \<and>
    fl_cumulative_loss_rtcp_offset (get t) = fl_cumulative_loss_rtcp_offset (get s)"
proof -
  obtain old where "path_step p (ss_max_reordering_threshold s) y (get s) = (early, old, get t)"
    using count_step [OF assms(1)] assms(3) by blast
  moreover have "path_step p (ss_max_reordering_threshold s) y (get s) =
      (False, False, flow_advance y (flow_first y (flow_count (get s))))"
    using assms(2) by (simp add: path_step_def Let_def flow_count_def)
  ultimately have "\<not> early" "get t = flow_advance y (flow_first y (flow_count (get s)))" by simp_all
  then show ?thesis by (simp add: flow_advance_def flow_count_def flow_first_def)
qed

text \<open>A jump beyond the threshold that is not taken for a restart: the highest number stays.\<close>

lemma count_jump:
  assumes "count p now s = Some (early, t)" "0 \<le> fl_received_seq_first (get s)" "0 \<le> ss_max_reordering_threshold s"
    "\<forall>q. fl_received_seq_out_of_order (get s) = Some q \<longrightarrow> rx_subflow_seq p \<noteq> q + 1"
    "\<bar>UnwrapWithoutUpdate16 (rx_subflow_seq p) (ss_seq_unwrapper s) - fl_received_seq_max (get s)\<bar> > ss_max_reordering_threshold s"
  shows "early \<and> fl_received_seq_max (get t) = fl_received_seq_max (get s) \<and>
    fl_received_seq_first (get t) = fl_received_seq_first (get s) \<and> fl_last_report_seq_max (get t) = fl_last_report_seq_max (get s) \<and>
    fl_received_seq_out_of_order (get t) = Some (rx_sequence_number p)"
proof -
  define g where "g = get t"
  obtain old where "path_step p (ss_max_reordering_threshold s)
      (UnwrapWithoutUpdate16 (rx_subflow_seq p) (ss_seq_unwrapper s)) (get s) = (early, old, g)"
    using count_step [OF assms(1)] unfolding g_def by blast
  then show ?thesis using assms(2-5) unfolding g_def [symmetric]
    by (auto simp: path_step_def Let_def flow_count_def check_order_def split: option.splits)
qed

end

lemma count_path_step:
  "count_primary p now s = Some (early, t) \<Longrightarrow>
    (\<exists>old. path_step p (ss_max_reordering_threshold s)
       (UnwrapWithoutUpdate16 (rx_subflow_seq p) (ss_seq_unwrapper s)) (ss_primary s) = (early, old, ss_primary t)) \<and>
    same_settings s t \<and> ss_secondary t = ss_secondary s \<and> ss_stream t = ss_stream s"
  "count_secondary p now s = Some (early, t) \<Longrightarrow>
    (\<exists>old. path_step p (ss_max_reordering_threshold s)
       (UnwrapWithoutUpdate16 (rx_subflow_seq p) (ss_seq_unwrapper s)) (ss_secondary s) = (early, old, ss_secondary t)) \<and>
    same_settings s t \<and> ss_primary t = ss_primary s \<and> ss_stream t = ss_stream s"
  by (auto simp: count_primary_def count_secondary_def path_step_def first_packet_time_def same_settings_def Let_def
      MpPrimaryUpdateOutOfOrder_def MpSecondaryUpdateOutOfOrder_def bind_eq_Some_conv split: if_splits prod.splits
      dest!: count_retransmit_frame)

interpretation primary: path_flow ss_primary ss_secondary count_primary
  by unfold_locales (rule count_path_step(1))

interpretation secondary: path_flow ss_secondary ss_primary count_secondary
  by unfold_locales (rule count_path_step(2))

section \<open>A packet of the stream\<close>

definition numbers :: "flow_statistics \<Rightarrow> int \<times> int \<times> int \<times> int \<times> u16 option" where
  "numbers f = (fl_cumulative_loss f, fl_cumulative_loss_rtcp_offset f, fl_received_seq_first f, fl_received_seq_max f,
     fl_received_seq_out_of_order f)"

lemma update_jitter_numbers: "update_jitter p t f = Some g \<Longrightarrow> numbers g = numbers f"
  by (auto simp: update_jitter_def numbers_def Let_def split: if_splits)

lemma flow_received_numbers [simp]: "numbers (flow_received p now f) = numbers f"
  by (simp add: flow_received_def numbers_def)

lemma count_jitter_frame:
  assumes "count_jitter p now s = Some t"
  shows "same_settings s t \<and> numbers (ss_primary t) = numbers (ss_primary s) \<and> numbers (ss_secondary t) = numbers (ss_secondary s)"
  using assms
  by (auto simp: count_jitter_def UpdateJitter_def UpdateJitter_p_def UpdateJitter_s_def same_settings_def Let_def
      bind_eq_Some_conv split: if_splits dest!: update_jitter_numbers)

lemma stream_order_frame:
  assumes "count_stream p x now s = Some u"
  shows "same_settings s u \<and> ss_primary u = ss_primary s \<and> ss_secondary u = ss_secondary s \<and>
    fl_last_receive_time_ms (ss_stream u) = fl_last_receive_time_ms (ss_stream s)"
proof (cases "fl_received_seq_first (ss_stream s) < 0")
  case True
  then show ?thesis using assms by (auto simp: count_stream_def first_packet_time_def flow_first_def same_settings_def)
next
  case False
  obtain r old f where o: "check_order (ss_max_reordering_threshold s) (rx_sequence_number p) (rx_sequence_number p) x (ss_stream s) = (r, old, f)"
    by (metis prod_cases3)
  then have "fl_last_receive_time_ms f = fl_last_receive_time_ms (ss_stream s)"
    by (auto simp: check_order_def Let_def split: if_splits option.splits)
  moreover have "count_retransmit p now old (s\<lparr>ss_stream := f\<rparr>) = Some u"
    using assms False by (auto simp: count_stream_def UpdateOutOfOrder_def o bind_eq_Some_conv)
  ultimately show ?thesis using count_retransmit_frame [of p now old "s\<lparr>ss_stream := f\<rparr>" u] by (simp add: same_settings_def)
qed

lemma count_received_frame:
  "same_settings s (count_received p now s)" "ss_primary (count_received p now s) = ss_primary s"
  "ss_secondary (count_received p now s) = ss_secondary s" "ss_seq_unwrapper (count_received p now s) = ss_seq_unwrapper s"
  "fl_last_receive_time_ms (ss_stream (count_received p now s)) = fl_last_receive_time_ms (ss_stream s)"
  by (simp_all add: count_received_def same_settings_def flow_count_def Let_def)

lemma UpdateCounters_path:
  assumes "UpdateCounters p now s = Some s'"
  obtains u early t where "same_settings s u" "ss_primary u = ss_primary s" "ss_secondary u = ss_secondary s"
    "fl_last_receive_time_ms (ss_stream u) = fl_last_receive_time_ms (ss_stream s)"
    "(if rx_subflow_id p \<noteq> 2 then count_primary p now u else count_secondary p now u) = Some (early, t)"
    "early \<Longrightarrow> s' = t"
    "\<not> early \<Longrightarrow> numbers (ss_primary s') = numbers (ss_primary t) \<and> numbers (ss_secondary s') = numbers (ss_secondary t) \<and>
       same_settings (t\<lparr>ss_seq_unwrapper := Some (UnwrapWithoutUpdate16 (rx_sequence_number p) (ss_seq_unwrapper s))\<rparr>) s'"
proof -
  let ?x = "UnwrapWithoutUpdate16 (rx_sequence_number p) (ss_seq_unwrapper s)"
  from assms obtain u early t where u: "count_stream p ?x now (count_received p now s) = Some u"
    and t: "(if rx_subflow_id p \<noteq> 2 then count_primary p now u else count_secondary p now u) = Some (early, t)"
    and r: "(if early then Some t else count_jitter p now
       (t\<lparr>ss_stream := flow_advance ?x (ss_stream t), ss_seq_unwrapper := Some ?x\<rparr>)) = Some s'"
    unfolding UpdateCounters_def Let_def count_received_frame(4) bind_eq_Some_conv by auto
  note f = stream_order_frame [OF u]
  show thesis
  proof (rule that [OF _ _ _ _ t])
    show "same_settings s u" "ss_primary u = ss_primary s" "ss_secondary u = ss_secondary s"
      "fl_last_receive_time_ms (ss_stream u) = fl_last_receive_time_ms (ss_stream s)"
      using f count_received_frame [where s = s and p = p and now = now] by (auto simp: same_settings_def)
    show "s' = t" if early using r that by simp
    show "numbers (ss_primary s') = numbers (ss_primary t) \<and> numbers (ss_secondary s') = numbers (ss_secondary t) \<and>
       same_settings (t\<lparr>ss_seq_unwrapper := Some ?x\<rparr>) s'" if "\<not> early"
      using r that count_jitter_frame by (fastforce simp: same_settings_def)
  qed
qed

text \<open>Without retransmission detection only the jitter of a packet in order can be undefined.\<close>

lemma order_defined:
  assumes "\<not> ss_enable_retransmit_detection s"
  shows "UpdateOutOfOrder p x now s \<noteq> None" "count_primary p now s \<noteq> None" "count_secondary p now s \<noteq> None"
  using assms
  by (auto simp: UpdateOutOfOrder_def count_primary_def count_secondary_def MpPrimaryUpdateOutOfOrder_def
      MpSecondaryUpdateOutOfOrder_def count_retransmit_def Let_def split: prod.splits)

lemma UpdateCounters_defined:
  assumes "\<not> ss_enable_retransmit_detection s" "UpdateCounters p now s = None"
  obtains u t where "same_settings s u" "ss_primary u = ss_primary s" "ss_secondary u = ss_secondary s"
    "(if rx_subflow_id p \<noteq> 2 then count_primary p now u else count_secondary p now u) = Some (False, t)"
proof -
  let ?x = "UnwrapWithoutUpdate16 (rx_sequence_number p) (ss_seq_unwrapper s)" and ?s = "count_received p now s"
  have d: "\<not> ss_enable_retransmit_detection ?s" using assms(1) count_received_frame(1) [where s = s and p = p and now = now] by (simp add: same_settings_def)
  obtain u where u: "count_stream p ?x now ?s = Some u"
    using order_defined(1) [OF d, of p ?x now] by (cases "count_stream p ?x now ?s") (auto simp: count_stream_def split: if_splits)
  note f = stream_order_frame [OF u]
  have "\<not> ss_enable_retransmit_detection u" using f d by (simp add: same_settings_def)
  from order_defined(2,3) [OF this] obtain early t where
    t: "(if rx_subflow_id p \<noteq> 2 then count_primary p now u else count_secondary p now u) = Some (early, t)" by fastforce
  have "\<not> early" using assms(2) u t by (auto simp: UpdateCounters_def Let_def count_received_frame(4))
  then show thesis using that [of u t] f t count_received_frame [where s = s and p = p and now = now] by (simp add: same_settings_def)
qed

section \<open>A path that is never counted again\<close>

fun count_packets :: "(RtpPacketReceived \<times> int) list \<Rightarrow> statistician \<Rightarrow> statistician option" where
  "count_packets [] s = Some s"
| "count_packets ((p, now) # ps) s = do { s \<leftarrow> UpdateCounters p now s; count_packets ps s }"

definition stuck :: "RtpPacketReceived \<Rightarrow> statistician \<Rightarrow> bool" where
  "stuck p s \<longleftrightarrow> rx_subflow_id p \<noteq> 2 \<and> 0 \<le> fl_received_seq_first (ss_primary s) \<and> 0 \<le> ss_max_reordering_threshold s \<and>
     \<not> ss_enable_retransmit_detection s \<and>
     (\<forall>q. fl_received_seq_out_of_order (ss_primary s) = Some q \<longrightarrow> rx_subflow_seq p \<noteq> q + 1) \<and>
     \<bar>UnwrapWithoutUpdate16 (rx_subflow_seq p) (ss_seq_unwrapper s) - fl_received_seq_max (ss_primary s)\<bar> >
       ss_max_reordering_threshold s"

lemma stuck_step:
  assumes "stuck p s"
  shows "\<exists>s'. UpdateCounters p now s = Some s' \<and> same_settings s s' \<and>
    fl_received_seq_max (ss_primary s') = fl_received_seq_max (ss_primary s) \<and>
    fl_received_seq_first (ss_primary s') = fl_received_seq_first (ss_primary s) \<and>
    fl_received_seq_out_of_order (ss_primary s') = Some (rx_sequence_number p) \<and>
    fl_last_receive_time_ms (ss_stream s') = fl_last_receive_time_ms (ss_stream s)"
proof -
  have jump: "early \<and> fl_received_seq_max (ss_primary t) = fl_received_seq_max (ss_primary s) \<and>
      fl_received_seq_first (ss_primary t) = fl_received_seq_first (ss_primary s) \<and>
      fl_received_seq_out_of_order (ss_primary t) = Some (rx_sequence_number p)"
    if "count_primary p now u = Some (early, t)" "same_settings s u" "ss_primary u = ss_primary s" for u early t
    using primary.count_jump [OF that(1)] that(2,3) assms by (simp add: stuck_def same_settings_def)
  have p: "rx_subflow_id p \<noteq> 2" "\<not> ss_enable_retransmit_detection s" using assms by (simp_all add: stuck_def)
  show ?thesis
  proof (cases "UpdateCounters p now s")
    case None
    then show ?thesis using UpdateCounters_defined [OF p(2) None] jump p(1) by (metis (full_types))
  next
    case (Some s')
    then obtain u early t where u: "same_settings s u" "ss_primary u = ss_primary s"
      "fl_last_receive_time_ms (ss_stream u) = fl_last_receive_time_ms (ss_stream s)" "count_primary p now u = Some (early, t)"
      and s': "early \<Longrightarrow> s' = t"
      by (rule UpdateCounters_path) (use p(1) in simp)
    have "same_settings u t" "ss_stream t = ss_stream u" using primary.count_step [OF u(4)] by blast+
    then show ?thesis using jump [OF u(4,1,2)] s' u Some by (auto simp: same_settings_def)
  qed
qed

lemma stuck_run:
  assumes "0 \<le> fl_received_seq_first (ss_primary s)" "0 \<le> ss_max_reordering_threshold s" "\<not> ss_enable_retransmit_detection s"
    "list_all (\<lambda>(p, now). rx_subflow_id p \<noteq> 2 \<and>
       \<bar>UnwrapWithoutUpdate16 (rx_subflow_seq p) (ss_seq_unwrapper s) - fl_received_seq_max (ss_primary s)\<bar> >
         ss_max_reordering_threshold s) ps"
    "successively (\<lambda>x y. rx_subflow_seq (fst y) \<noteq> rx_sequence_number (fst x) + 1) ps"
    "ps \<noteq> [] \<longrightarrow> fl_received_seq_out_of_order (ss_primary s) \<noteq> Some (rx_subflow_seq (fst (hd ps)) - 1)"
  shows "\<exists>s'. count_packets ps s = Some s' \<and> same_settings s s' \<and>
    fl_received_seq_max (ss_primary s') = fl_received_seq_max (ss_primary s) \<and>
    fl_last_receive_time_ms (ss_stream s') = fl_last_receive_time_ms (ss_stream s)"
  using assms
proof (induction ps arbitrary: s)
  case (Cons x ps)
  obtain p now where x: "x = (p, now)" by fastforce
  have "stuck p s" using Cons.prems by (auto simp: x stuck_def)
  from stuck_step [OF this, of now] obtain t where t: "UpdateCounters p now s = Some t" "same_settings s t"
    "fl_received_seq_max (ss_primary t) = fl_received_seq_max (ss_primary s)"
    "fl_received_seq_first (ss_primary t) = fl_received_seq_first (ss_primary s)"
    "fl_received_seq_out_of_order (ss_primary t) = Some (rx_sequence_number p)"
    "fl_last_receive_time_ms (ss_stream t) = fl_last_receive_time_ms (ss_stream s)" by blast
  have "ps \<noteq> [] \<longrightarrow> rx_sequence_number p \<noteq> rx_subflow_seq (fst (hd ps)) - 1"
    using Cons.prems(5) by (cases ps) (auto simp: x successively_Cons)
  then have "\<exists>s'. count_packets ps t = Some s' \<and> same_settings t s' \<and>
    fl_received_seq_max (ss_primary s') = fl_received_seq_max (ss_primary t) \<and>
    fl_last_receive_time_ms (ss_stream s') = fl_last_receive_time_ms (ss_stream t)"
    using Cons.prems t by (intro Cons.IH) (auto simp: same_settings_def x successively_Cons)
  then show ?case using t by (auto simp: x same_settings_def)
qed (simp add: same_settings_def)


definition example_packet :: "u8 \<Rightarrow> u16 \<Rightarrow> u16 \<Rightarrow> RtpPacketReceived" where
  "example_packet path x y =
     \<lparr>rx_ssrc = 7, rx_sequence_number = x, rx_timestamp = 90000, rx_subflow_id = path, rx_subflow_seq = y,
      rx_payload_type_frequency = 90000, rx_headers_size = 12, rx_payload_size = 100, rx_padding_size = 0\<rparr>"

text \<open>Path 1 starts, then the stream moves on by way of path 2; after that path 1 goes on with its next numbers.\<close>

definition example_moved :: "statistician option" where
  "example_moved = count_packets
     [(example_packet 1 0 0, 10), (example_packet 2 20000 0, 20), (example_packet 2 40000 1, 30)]
     (statistician_new kDefaultMaxReorderingThreshold)"

definition example_rest :: "(RtpPacketReceived \<times> int) list" where
  "example_rest = [(example_packet 1 40001 1, 4000), (example_packet 1 40002 2, 8000), (example_packet 1 40003 3, 12000)]"


section \<open>Losses of packets in order\<close>

text \<open>
  Packets with the numbers they stand for: \<open>x\<close> in the stream, \<open>y\<close> on the path. \<open>follows T u a b\<close>: the numbers
  are close to the last one of the stream (\<open>u\<close>), and those of a path increase by at most \<open>T\<close> (\<open>a\<close>, \<open>b\<close>: the
  last numbers of the two paths).
\<close>

type_synonym numbered_packet = "RtpPacketReceived \<times> int \<times> int \<times> int"

definition close_to :: "int option \<Rightarrow> int \<Rightarrow> bool" where
  "close_to u v \<longleftrightarrow> 0 \<le> v \<and> (case u of None \<Rightarrow> v < 65536 | Some l \<Rightarrow> 0 \<le> l \<and> 2 * \<bar>v - l\<bar> < 65536)"

definition next_on_path :: "int \<Rightarrow> int option \<Rightarrow> int \<Rightarrow> bool" where
  "next_on_path T a y \<longleftrightarrow> (case a of None \<Rightarrow> True | Some m \<Rightarrow> m < y \<and> y \<le> m + T)"

fun follows :: "int \<Rightarrow> int option \<Rightarrow> int option \<Rightarrow> int option \<Rightarrow> numbered_packet list \<Rightarrow> bool" where
  "follows T u a b [] = True"
| "follows T u a b ((p, now, x, y) # ps) =
     (rx_sequence_number p = word_of_int x \<and> rx_subflow_seq p = word_of_int y \<and> close_to u x \<and> close_to u y \<and>
      (if rx_subflow_id p \<noteq> 2 then next_on_path T a y \<and> follows T (Some x) (Some y) b ps
       else next_on_path T b y \<and> follows T (Some x) a (Some y) ps))"

definition packets_of :: "numbered_packet list \<Rightarrow> (RtpPacketReceived \<times> int) list" where
  "packets_of ps = map (\<lambda>e. (fst e, fst (snd e))) ps"

definition path_numbers :: "bool \<Rightarrow> numbered_packet list \<Rightarrow> int list" where
  "path_numbers second ps = [y. (p, now, x, y) \<leftarrow> ps, (rx_subflow_id p = 2) = second]"

text \<open>What the statistics of a path have to be after the numbers \<open>ys\<close>.\<close>

definition exact_flow :: "int list \<Rightarrow> flow_statistics \<Rightarrow> bool" where
  "exact_flow ys f \<longleftrightarrow>
     numbers f = (if ys = [] then (0, 0, - 1, - 1, None)
                  else (c_int (last ys - hd ys + 1 - int (length ys)), 0, hd ys, last ys, None)) \<and> (\<forall>y \<in> set ys. 0 \<le> y) \<and> sorted_wrt (<) ys"

lemma sorted_bounds:
  fixes ys :: "int list"
  assumes "sorted_wrt (<) ys" "y \<in> set ys"
  shows "hd ys \<le> y" "y \<le> last ys"
proof -
  show "hd ys \<le> y" using assms by (cases ys) auto
  show "y \<le> last ys" using assms by (cases ys rule: rev_cases) (auto simp: sorted_wrt_append)
qed

lemma sorted_snoc:
  fixes ys :: "int list"
  assumes "sorted_wrt (<) ys" "ys \<noteq> [] \<Longrightarrow> last ys < y"
  shows "sorted_wrt (<) (ys @ [y])"
proof -
  have "z < y" if "z \<in> set ys" for z using sorted_bounds(2) [OF assms(1) that] assms(2) that by (cases ys) auto
  then show ?thesis using assms(1) by (simp add: sorted_wrt_append)
qed

text \<open>How many numbers between the first and the last one are missing.\<close>

definition missing :: "int list \<Rightarrow> int" where
  "missing ys = int (card ({hd ys..last ys} - set ys))"

lemma missing_numbers:
  assumes "sorted_wrt (<) ys" "ys \<noteq> []"
  shows "missing ys = last ys - hd ys + 1 - int (length ys)"
proof -
  have "set ys \<subseteq> {hd ys..last ys}" using sorted_bounds [OF assms(1)] by auto
  then have "card ({hd ys..last ys} - set ys) = card {hd ys..last ys} - card (set ys)" "card (set ys) \<le> card {hd ys..last ys}"
    by (rule card_Diff_subset [OF finite_set], rule card_mono [OF finite_atLeastAtMost_int])
  moreover have "card (set ys) = length ys" using assms(1) strict_sorted_iff distinct_card by metis
  moreover have "hd ys \<le> last ys" using sorted_bounds(1) [OF assms(1)] assms(2) by simp
  ultimately show ?thesis by (simp add: of_nat_diff missing_def)
qed

lemma unwrap_close: "close_to u v \<Longrightarrow> UnwrapWithoutUpdate16 (word_of_int v) u = v"
proof (cases u)
  case None
  then show "close_to u v \<Longrightarrow> ?thesis" by (simp add: close_to_def UnwrapWithoutUpdate16_def uint_word_of_int)
next
  case (Some l)
  then show "close_to u v \<Longrightarrow> ?thesis" by (simp add: close_to_def UnwrapWithoutUpdate16_near)
qed

context path_flow
begin

lemma count_exact:
  assumes "count p now s = Some (early, t)" "exact_flow ys (get s)" "rx_subflow_seq p = word_of_int y"
    "close_to (ss_seq_unwrapper s) y" "next_on_path (ss_max_reordering_threshold s) (if ys = [] then None else Some (last ys)) y"
  shows "\<not> early \<and> exact_flow (ys @ [y]) (get t)"
proof -
  have y: "y = UnwrapWithoutUpdate16 (rx_subflow_seq p) (ss_seq_unwrapper s)" "0 \<le> y"
    using unwrap_close [OF assms(4)] assms(3,4) by (simp_all add: close_to_def)
  show ?thesis
  proof (cases "ys = []")
    case True
    then show ?thesis using count_start [OF assms(1) _ y(1)] assms(2) y(2) by (simp add: exact_flow_def numbers_def c_int_def)
  next
    case False
    then have "0 \<le> hd ys" "fl_received_seq_first (get s) = hd ys" "fl_received_seq_max (get s) = last ys"
      "fl_received_seq_out_of_order (get s) = None" "fl_cumulative_loss (get s) = c_int (last ys - hd ys + 1 - int (length ys))"
      "last ys < y" "y \<le> last ys + ss_max_reordering_threshold s"
      using assms(2,5) by (auto simp: exact_flow_def numbers_def next_on_path_def)
    moreover have "c_int (c_int (last ys - hd ys + 1 - int (length ys)) + (y - last ys - 1)) = c_int (y - hd ys + 1 - (int (length ys) + 1))"
      unfolding c_int_add(1) by (simp add: algebra_simps)
    moreover have "sorted_wrt (<) (ys @ [y])"
      using assms(2) \<open>last ys < y\<close> by (intro sorted_snoc) (simp_all add: exact_flow_def)
    ultimately show ?thesis using count_next [OF assms(1) _ _ y(1)] False assms(2) y(2)
      by (simp add: exact_flow_def numbers_def algebra_simps del: c_int_add c_int_diff)
  qed
qed

end

lemma exact_flow_cong: "numbers f = numbers g \<Longrightarrow> exact_flow ys f = exact_flow ys g"
  by (simp add: exact_flow_def)

lemma UpdateCounters_exact:
  assumes "UpdateCounters p now s = Some s'" "exact_flow ys (ss_primary s)" "exact_flow zs (ss_secondary s)"
    "rx_sequence_number p = word_of_int x" "rx_subflow_seq p = word_of_int y"
    "close_to (ss_seq_unwrapper s) x" "close_to (ss_seq_unwrapper s) y"
    "next_on_path (ss_max_reordering_threshold s)
       (let l = (if rx_subflow_id p \<noteq> 2 then ys else zs) in if l = [] then None else Some (last l)) y"
  shows "ss_seq_unwrapper s' = Some x \<and> ss_max_reordering_threshold s' = ss_max_reordering_threshold s \<and>
    exact_flow (if rx_subflow_id p \<noteq> 2 then ys @ [y] else ys) (ss_primary s') \<and>
    exact_flow (if rx_subflow_id p \<noteq> 2 then zs else zs @ [y]) (ss_secondary s')"
  using assms(1)
proof (rule UpdateCounters_path)
  fix u early t
  assume u: "same_settings s u" "ss_primary u = ss_primary s" "ss_secondary u = ss_secondary s"
    and t: "(if rx_subflow_id p \<noteq> 2 then count_primary p now u else count_secondary p now u) = Some (early, t)"
    and s': "\<not> early \<Longrightarrow> numbers (ss_primary s') = numbers (ss_primary t) \<and> numbers (ss_secondary s') = numbers (ss_secondary t) \<and>
       same_settings (t\<lparr>ss_seq_unwrapper := Some (UnwrapWithoutUpdate16 (rx_sequence_number p) (ss_seq_unwrapper s))\<rparr>) s'"
  have c: "close_to (ss_seq_unwrapper u) y" "ss_max_reordering_threshold u = ss_max_reordering_threshold s"
    using u(1) assms(7) by (simp_all add: same_settings_def)
  have "\<not> early \<and> same_settings u t \<and>
    exact_flow (if rx_subflow_id p \<noteq> 2 then ys @ [y] else ys) (ss_primary t) \<and>
    exact_flow (if rx_subflow_id p \<noteq> 2 then zs else zs @ [y]) (ss_secondary t)"
  proof (cases "rx_subflow_id p = 2")
    case True
    then have k: "count_secondary p now u = Some (early, t)" using t by simp
    show ?thesis using secondary.count_exact [OF k _ assms(5) c(1), of zs] secondary.count_step [OF k] True assms(2,3,8) u c(2)
      by (simp add: Let_def)
  next
    case False
    then have k: "count_primary p now u = Some (early, t)" using t by simp
    show ?thesis using primary.count_exact [OF k _ assms(5) c(1), of ys] primary.count_step [OF k] False assms(2,3,8) u c(2)
      by (simp add: Let_def)
  qed
  then show ?thesis using s' u(1) unwrap_close [OF assms(6)] assms(4) by (simp add: same_settings_def cong: exact_flow_cong)
qed

lemma follows_exact:
  assumes "follows (ss_max_reordering_threshold s) (ss_seq_unwrapper s)
      (if ys = [] then None else Some (last ys)) (if zs = [] then None else Some (last zs)) ps"
    "count_packets (packets_of ps) s = Some s'"
    "exact_flow ys (ss_primary s)" "exact_flow zs (ss_secondary s)"
  shows "exact_flow (ys @ path_numbers False ps) (ss_primary s') \<and> exact_flow (zs @ path_numbers True ps) (ss_secondary s')"
  using assms
proof (induction ps arbitrary: s ys zs)
  case (Cons e ps)
  obtain p now x y where e: "e = (p, now, x, y)" by (metis prod_cases4)
  obtain t where t: "UpdateCounters p now s = Some t" "count_packets (packets_of ps) t = Some s'"
    using Cons.prems(2) by (auto simp: e bind_eq_Some_conv packets_of_def)
  note step = UpdateCounters_exact [OF t(1) Cons.prems(3,4), of x y]
  show ?case
  proof (cases "rx_subflow_id p = 2")
    case True
    then show ?thesis using Cons.IH [of t ys "zs @ [y]"] step Cons.prems(1) t(2) by (simp add: e path_numbers_def)
  next
    case False
    then show ?thesis using Cons.IH [of t "ys @ [y]" zs] step Cons.prems(1) t(2) by (simp add: e path_numbers_def)
  qed
qed (simp add: path_numbers_def packets_of_def)


lemma exact_new: "exact_flow [] flow_statistics_new"
  by (simp add: exact_flow_def numbers_def flow_statistics_new_def)

text \<open>The report on an exact path.\<close>

lemma calculate_exact:
  assumes "exact_flow ys f" "ys \<noteq> []" "missing ys < 2 ^ 31"
  shows "\<exists>fraction jitter f'. calculate f = ((fraction, missing ys, word_of_int (last ys), jitter), f')"
proof -
  have "missing ys = last ys - hd ys + 1 - int (length ys)" using missing_numbers [OF _ assms(2)] assms(1) by (simp add: exact_flow_def)
  moreover have "0 \<le> missing ys" by (simp add: missing_def)
  moreover from this have "c_int (missing ys) = missing ys" using assms(3) by (simp add: c_int_def signed_take_bit_int_eq_self)
  ultimately show ?thesis using assms(1,2) by (simp add: exact_flow_def numbers_def calculate_def Let_def)
qed


definition example_in_order :: "numbered_packet list" where
  "example_in_order =
     [(example_packet 1 65534 65500, 1, 65534, 65500), (example_packet 2 65535 64000, 3, 65535, 64000),
      (example_packet 1 0 65504, 5, 65536, 65504), (example_packet 2 1 64001, 6, 65537, 64001),
      (example_packet 1 2 1, 9, 65538, 65537)]"

definition example_counted :: "statistician option" where
  "example_counted = count_packets (packets_of example_in_order) (statistician_new 50)"


section \<open>Report blocks\<close>

text \<open>Whether a stream has a block in a report.\<close>

definition reported :: "mp_collector \<Rightarrow> int \<Rightarrow> int \<Rightarrow> u32 \<times> statistician \<Rightarrow> bool" where
  "reported m now_ms pathid e =
     (case fst (GetActiveStatisticsAndReset m now_ms pathid (snd e)) of
        None \<Rightarrow> False | Some st \<Rightarrow> report_block pathid (fst e) 0 st \<noteq> Fails)"

lemma report_block_seq:
  "report_block pathid ssrc n st = Fails \<longleftrightarrow> report_block pathid ssrc 0 st = Fails"
  "report_block pathid ssrc n st = Gives b \<Longrightarrow> rb_source_ssrc b = ssrc \<and> rb_rtcp_seq b = n"
  by (auto simp: report_block_def SetCumulativeLost_def Let_def split: outcome.splits if_splits)

lemma consecutive_append:
  fixes n :: "'a::semiring_1"
  shows "map (\<lambda>i. n + of_nat i) [0..<a + b] = map (\<lambda>i. n + of_nat i) [0..<a] @ map (\<lambda>i. n + of_nat a + of_nat i) [0..<b]"
  by (rule nth_equalityI) (auto simp: nth_append add.assoc simp flip: of_nat_add)

lemma add_report_blocks_spec:
  "add_report_blocks m now_ms pathid k es result n = (es', result', n') \<Longrightarrow>
    map fst es' = map fst es \<and> (\<exists>bs. result' = result @ bs \<and>
      map rb_source_ssrc bs = take (k - length result) (map fst (filter (reported m now_ms pathid) es)) \<and>
      map rb_rtcp_seq bs = map (\<lambda>i. n + of_nat i) [0..<length bs] \<and> n' = n + of_nat (length bs))"
proof (induction es arbitrary: result n es')
  case (Cons e es)
  obtain ssrc s where e: "e = (ssrc, s)" by fastforce
  show ?case
  proof (cases "length result < k")
    case False
    then show ?thesis using Cons.prems by (auto simp: e)
  next
    case True
    then obtain d where d: "k - length result = Suc d" "k - Suc (length result) = d" by (metis Suc_diff_Suc)
    obtain stats t where g: "GetActiveStatisticsAndReset m now_ms pathid s = (stats, t)" by fastforce
    consider (skip) "\<not> reported m now_ms pathid e"
        "add_report_blocks m now_ms pathid k ((ssrc, s) # es) result n =
           (let (es, r) = add_report_blocks m now_ms pathid k es result n in ((ssrc, t) # es, r))"
      | (add) b where "reported m now_ms pathid e" "rb_source_ssrc b = ssrc" "rb_rtcp_seq b = n"
        "add_report_blocks m now_ms pathid k ((ssrc, s) # es) result n =
           (let (es, r) = add_report_blocks m now_ms pathid k es (result @ [b]) (n + 1) in ((ssrc, t) # es, r))"
    proof (cases "\<exists>st b. stats = Some st \<and> report_block pathid ssrc n st = Gives b")
      case True
      then obtain st b where b: "stats = Some st" "report_block pathid ssrc n st = Gives b" by blast
      then have "reported m now_ms pathid e" using report_block_seq(1) [of pathid ssrc n st] by (simp add: e g reported_def)
      then show thesis using \<open>length result < k\<close> report_block_seq(2) [OF b(2)] b
        by (intro add [of b]) (simp_all add: g)
    next
      case False
      then have "reported m now_ms pathid e = False"
        by (auto simp: e g reported_def report_block_seq(1) [of pathid ssrc n, symmetric] split: option.splits)
          (metis outcome.exhaust)
      with False show thesis using True
        by (intro skip) (auto simp: e g split: option.splits outcome.splits)
    qed
    then show ?thesis
    proof cases
      case skip
      then show ?thesis using Cons.IH [of result n] Cons.prems by (auto simp: e split: prod.splits)
    next
      case add
      obtain es1 bs where r: "add_report_blocks m now_ms pathid k es (result @ [b]) (n + 1) = (es1, result', n')"
        "es' = (ssrc, t) # es1" using add(4) Cons.prems by (auto simp: e split: prod.splits)
      obtain bs where "map fst es1 = map fst es" "result' = (result @ [b]) @ bs"
        "map rb_source_ssrc bs = take d (map fst (filter (reported m now_ms pathid) es))"
        "map rb_rtcp_seq bs = map (\<lambda>i. n + 1 + of_nat i) [0..<length bs]" "n' = n + 1 + of_nat (length bs)"
        using Cons.IH [OF r(1)] d by auto
      then show ?thesis using add(1-3) r(2) d
        by (intro conjI exI [of _ "b # bs"]) (simp_all add: e map_upt_Suc add.assoc del: upt_Suc)
    qed
  qed
qed auto

text \<open>
  The blocks of a report are those of the next streams that have something to report, in the order of their SSRCs,
  starting after the one reported last and wrapping around once, at most \<open>max_blocks\<close> of them; they carry consecutive numbers of
  the path's counter, which goes on from there; the streams stay the same.
\<close>

lemma report_blocks_rotate:
  "case RtcpReportBlocks m now_ms max_blocks pathid r of (blocks, r') \<Rightarrow>
    (let after = (\<lambda>e. \<not> fst e \<le> rz_last_returned_ssrc r);
         n = (if pathid \<noteq> 2 then rz_rtcp_seq_p r else rz_rtcp_seq_s r)
     in map rb_source_ssrc blocks = take max_blocks (map fst (filter (reported m now_ms pathid)
          (filter after (rz_statisticians r) @ filter (\<lambda>e. \<not> after e) (rz_statisticians r)))) \<and>
        map rb_rtcp_seq blocks = map (\<lambda>i. n + of_nat i) [0..<length blocks] \<and>
        (if pathid \<noteq> 2 then rz_rtcp_seq_p r' = n + of_nat (length blocks) \<and> rz_rtcp_seq_s r' = rz_rtcp_seq_s r
         else rz_rtcp_seq_s r' = n + of_nat (length blocks) \<and> rz_rtcp_seq_p r' = rz_rtcp_seq_p r) \<and>
        set (map fst (rz_statisticians r')) = set (map fst (rz_statisticians r)))"
proof -
  let ?n = "if pathid \<noteq> 2 then rz_rtcp_seq_p r else rz_rtcp_seq_s r"
  let ?ssrcs = "\<lambda>es. map fst (filter (reported m now_ms pathid) es)"
  define after where "after = filter (\<lambda>e. \<not> fst e \<le> rz_last_returned_ssrc r) (rz_statisticians r)"
  define before where "before = filter (\<lambda>e. fst e \<le> rz_last_returned_ssrc r) (rz_statisticians r)"
  obtain es1 bs1 n1 where a: "add_report_blocks m now_ms pathid max_blocks after [] ?n = (es1, bs1, n1)"
    by (metis prod_cases3)
  obtain es2 bs2 n2 where b: "add_report_blocks m now_ms pathid max_blocks before bs1 n1 = (es2, bs2, n2)"
    by (metis prod_cases3)
  from add_report_blocks_spec [OF a] have A: "map fst es1 = map fst after" "map rb_source_ssrc bs1 = take max_blocks (?ssrcs after)"
    "map rb_rtcp_seq bs1 = map (\<lambda>i. ?n + of_nat i) [0..<length bs1]" "n1 = ?n + of_nat (length bs1)" by simp_all
  from add_report_blocks_spec [OF b] obtain bs where B: "map fst es2 = map fst before" "bs2 = bs1 @ bs"
    "map rb_source_ssrc bs = take (max_blocks - length bs1) (?ssrcs before)"
    "map rb_rtcp_seq bs = map (\<lambda>i. n1 + of_nat i) [0..<length bs]" "n2 = n1 + of_nat (length bs)" by blast
  obtain r' where r: "RtcpReportBlocks m now_ms max_blocks pathid r = (bs2, r')" "rz_statisticians r' = es2 @ es1"
    "rz_rtcp_seq_p r' = (if pathid \<noteq> 2 then n2 else rz_rtcp_seq_p r)" "rz_rtcp_seq_s r' = (if pathid \<noteq> 2 then rz_rtcp_seq_s r else n2)"
    using a b by (auto simp: RtcpReportBlocks_def after_def before_def Let_def)
  have l: "max_blocks - length bs1 = max_blocks - length (?ssrcs after)" using arg_cong [OF A(2), of length] by simp
  have "set (map fst (rz_statisticians r')) = set (map fst (before @ after))" using r(2) A(1) B(1) by (metis map_append)
  also have "\<dots> = set (map fst (rz_statisticians r))" by (auto simp: before_def after_def)
  finally have k: "set (map fst (rz_statisticians r')) = set (map fst (rz_statisticians r))" .
  have "map rb_source_ssrc bs2 = take max_blocks (?ssrcs (after @ before))"
    using A(2) B(2,3) by (simp add: l)
  moreover have "map rb_rtcp_seq bs2 = map (\<lambda>i. ?n + of_nat i) [0..<length bs2]"
    using A(3,4) B(2,4) by (simp add: consecutive_append)
  ultimately show ?thesis using r(3,4) A(4) B(5) k
    by (simp add: r(1) Let_def before_def after_def B(2) del: set_map)
qed

text \<open>
  With the redundant scheduler the report on path 2 is made of the statistics of the stream but filled in from the members
  for path 2, which are zero then: it tells of no loss whatever was lost.
\<close>

lemma red_reports_no_loss:
  assumes "str_find ''red'' (mc_scheduler m)" "GetActiveStatisticsAndReset m now_ms 2 s = (Some st, s')"
    "report_block 2 ssrc n st = Gives b"
  shows "rb_fraction_lost b = 0 \<and> rb_cumulative_lost b = 0 \<and> rb_extended_high_seq_num b = 0 \<and> rb_jitter b = 0"
proof -
  have "st_subflowfractionlost_s st = 0 \<and> st_packets_lost_s st = 0 \<and> st_extended_highest_sequence_number_s st = 0 \<and> st_jitter_s st = 0"
    using assms(1,2) by (auto simp: GetActiveStatisticsAndReset_def CalculateRtcpStatistics_def RtcpStatistics_new_def
        split: if_splits prod.splits)
  then show ?thesis using assms(3) by (auto simp: report_block_def SetCumulativeLost_def ReportBlock_new_def Let_def split: if_splits)
qed

end
