(* ===== verification/RtcpSender.thy ===== *)
theory RtcpSender
  imports RtcpReceiver ReceiveStatistics
begin

text \<open>
  The sender of RTCP packets, \<open>modules/rtp_rtcp/source/rtcp_sender.cc\<close>: which packets are due (the report
  flags), when the next report of a path is due, how every packet is built, and how the packets of
  one call are put into compound packets. \<open>None\<close> is undefined behaviour or a failed
  \<open>RTC_CHECK\<close>. The clock does not move during a call. What comes from outside is in the record
  \<open>rtcp_env\<close>: the clock, the shared \<open>MpCollector\<close>, the transport (whether it accepts a packet), the bytes
  that uninitialised memory holds, the configuration of the receiver and the bounding set of
  \<open>tmmbr_help.cc\<close>.
\<close>

section \<open>Random numbers\<close>

definition NextOutput :: "u64 \<Rightarrow> u64 \<times> u64" where
  "NextOutput state =
     (let state = state XOR drop_bit 12 state;
          state = state XOR push_bit 25 state;
          state = state XOR drop_bit 27 state
      in (state * 2685821657736338717, state))"

definition Rand_upto :: "u32 \<Rightarrow> u64 \<Rightarrow> u32 \<times> u64" where
  "Rand_upto t state =
     (let (x, state) = NextOutput state
      in (ucast (drop_bit 32 ((ucast (ucast x :: u32) :: u64) * (ucast t + 1))), state))"

definition Rand_between :: "int \<Rightarrow> int \<Rightarrow> u64 \<Rightarrow> int \<times> u64" where
  "Rand_between low high state =
     (let (r, state) = Rand_upto (word_of_int (high - low)) state in (uint r + low, state))"

section \<open>State\<close>

datatype rtcp_mode = kOff | kCompound | kReducedSize

record FeedbackState =
  fs_packets_sent :: u32
  fs_media_bytes_sent :: nat
  fs_send_bitrate :: u32
  fs_last_rr_ntp_secs :: u32
  fs_last_rr_ntp_frac :: u32
  fs_remote_sr :: u32
  fs_last_xr_rtis :: "ReceiveTimeInfo list"
  fs_receiver :: "rtcp_receiver option"

definition FeedbackState_new :: FeedbackState where
  "FeedbackState_new =
     \<lparr>fs_packets_sent = 0, fs_media_bytes_sent = 0, fs_send_bitrate = 0, fs_last_rr_ntp_secs = 0,
      fs_last_rr_ntp_frac = 0, fs_remote_sr = 0, fs_last_xr_rtis = [], fs_receiver = None\<rparr>"

record LossNotificationState =
  lo_last_decoded_seq_num :: u16
  lo_last_received_seq_num :: u16
  lo_decodability_flag :: bool

text \<open>\<open>std::set<ReportFlag>\<close>, ordered by type, is an ordered map from the type to \<open>is_volatile\<close>.\<close>

type_synonym report_flags = "(u32, bool) smap"

record rtcp_sender =
  tx_audio :: bool
  tx_ssrc :: u32
  tx_random :: u64
  tx_method :: rtcp_mode
  tx_report_interval_ms :: int
  tx_sending :: bool
  tx_next_time_to_send_rtcp_p :: int
  tx_next_time_to_send_rtcp_s :: int
  tx_timestamp_offset :: u32
  tx_last_rtp_timestamp :: u32
  tx_last_frame_capture_time_ms :: int
  tx_remote_ssrc :: u32
  tx_cname :: bytes
  tx_receive_statistics :: "receive_statistics option"
  tx_csrc_cnames :: "(u32, bytes) smap"
  tx_csrcs :: "u32 list"
  tx_sequence_number_fir :: u8
  tx_loss_notification_state :: LossNotificationState
  tx_remb_bitrate :: int
  tx_remb_ssrcs :: "u32 list"
  tx_tmmbn_to_send :: "TmmbItem list"
  tx_tmmbr_send_bps :: u32
  tx_packet_oh_send :: u32
  tx_max_packet_size :: nat
  tx_xr_send_receiver_reference_time_enabled :: bool
  tx_packet_type_counter_observer :: bool
  tx_packet_type_counter :: RtcpPacketTypeCounter
  tx_nack_stats :: RtcpNackStats
  tx_video_bitrate_allocation :: VideoBitrateAllocation
  tx_send_video_bitrate_allocation :: bool
  tx_rtp_clock_rates_khz :: "int \<rightharpoonup> int"
  tx_last_payload_type :: int
  tx_report_flags :: report_flags
  tx_sent :: "(bytes \<times> int) list"
  tx_counter_updates :: "(u32 \<times> RtcpPacketTypeCounter) list"

text \<open>
  The last two are not members: the packets given to the transport with the path id of the call, and the calls
  of the packet type observer.
\<close>

record rtcp_env =
  en_clock :: clock_reading
  en_mp :: mp_collector
  en_transport :: "bytes \<Rightarrow> bool"
  en_heap :: bytes
  en_stale :: bytes
  en_receiver_config :: receiver_config
  en_find_bounding_set :: "TmmbItem list \<Rightarrow> TmmbItem list"

definition IP_PACKET_SIZE :: nat where "IP_PACKET_SIZE = 1500"
definition RTCP_CNAME_SIZE :: nat where "RTCP_CNAME_SIZE = 256"
definition RTCP_MAX_REPORT_BLOCKS :: nat where "RTCP_MAX_REPORT_BLOCKS = 31"
definition RTCP_SEND_BEFORE_KEY_FRAME_MS :: int where "RTCP_SEND_BEFORE_KEY_FRAME_MS = 100"
definition kDefaultVideoReportInterval :: int where "kDefaultVideoReportInterval = 1000"
definition kDefaultAudioReportInterval :: int where "kDefaultAudioReportInterval = 5000"
definition kVideoPayloadTypeFrequency :: int where "kVideoPayloadTypeFrequency = 90000"
definition kBogusRtpRateForAudioRtcp :: int where "kBogusRtpRateForAudioRtcp = 8000"

definition kAppSubtypeMpHalf :: u32 where "kAppSubtypeMpHalf = 0x0000"
definition kRtcpReport :: u32 where "kRtcpReport = 0x0001"
definition kRtcpBye :: u32 where "kRtcpBye = 0x0010"
definition kRtcpXrReceiverReferenceTime :: u32 where "kRtcpXrReceiverReferenceTime = 0x40000"
definition kRtcpXrDlrrReportBlock :: u32 where "kRtcpXrDlrrReportBlock = 0x80000"
definition kRtcpXrTargetBitrate :: u32 where "kRtcpXrTargetBitrate = 0x200000"
definition kAppSubtypeMpFull :: u32 where "kAppSubtypeMpFull = 0x1000000"
definition kAppSubtypeQUIC :: u32 where "kAppSubtypeQUIC = 0x2000000"
definition kAppSubtypeMPFrameRate :: u32 where "kAppSubtypeMPFrameRate = 0x3000000"
definition kAppSubtypeMpAsymmetry :: u32 where "kAppSubtypeMpAsymmetry = 0x4000000"
definition kAppSubtypeMpRR1 :: u32 where "kAppSubtypeMpRR1 = 0x5000000"
definition kAppSubtypeMpRR2 :: u32 where "kAppSubtypeMpRR2 = 0x6000000"

definition kRtcpAnyExtendedReports :: u32 where
  "kRtcpAnyExtendedReports = kRtcpXrReceiverReferenceTime OR kRtcpXrDlrrReportBlock OR kRtcpXrTargetBitrate"

lemmas sender_types = rtcp_flags kAppSubtypeMpHalf_def kRtcpReport_def kRtcpBye_def kRtcpXrReceiverReferenceTime_def
  kRtcpXrDlrrReportBlock_def kRtcpXrTargetBitrate_def kAppSubtypeMpFull_def kAppSubtypeQUIC_def kAppSubtypeMPFrameRate_def
  kAppSubtypeMpAsymmetry_def kAppSubtypeMpRR1_def kAppSubtypeMpRR2_def kRtcpAnyExtendedReports_def

text \<open>\<open>loss_notification_state_\<close> is not initialised by the constructor; it is written before it is read.\<close>

definition rtcp_sender_new ::
  "bool \<Rightarrow> u32 \<Rightarrow> int \<Rightarrow> clock_reading \<Rightarrow> receive_statistics option \<Rightarrow> bool \<Rightarrow> rtcp_sender" where
  "rtcp_sender_new audio ssrc interval ck stats observer =
     \<lparr>tx_audio = audio, tx_ssrc = ssrc, tx_random = word_of_int (ck_us ck), tx_method = kOff,
      tx_report_interval_ms = (if interval > 0 then interval
        else if audio then kDefaultAudioReportInterval else kDefaultVideoReportInterval),
      tx_sending = False, tx_next_time_to_send_rtcp_p = 0, tx_next_time_to_send_rtcp_s = 0, tx_timestamp_offset = 0,
      tx_last_rtp_timestamp = 0, tx_last_frame_capture_time_ms = - 1, tx_remote_ssrc = 0, tx_cname = [],
      tx_receive_statistics = stats, tx_csrc_cnames = [], tx_csrcs = [], tx_sequence_number_fir = 0,
      tx_loss_notification_state = \<lparr>lo_last_decoded_seq_num = 0, lo_last_received_seq_num = 0, lo_decodability_flag = False\<rparr>,
      tx_remb_bitrate = 0, tx_remb_ssrcs = [], tx_tmmbn_to_send = [], tx_tmmbr_send_bps = 0, tx_packet_oh_send = 0,
      tx_max_packet_size = IP_PACKET_SIZE - 28, tx_xr_send_receiver_reference_time_enabled = False,
      tx_packet_type_counter_observer = observer,
      tx_packet_type_counter = \<lparr>pc_first_packet_time_ms = - 1, pc_nack_packets = 0, pc_fir_packets = 0,
        pc_pli_packets = 0, pc_nack_requests = 0, pc_unique_nack_requests = 0\<rparr>,
      tx_nack_stats = \<lparr>ns_max_sequence_number = 0, ns_requests = 0, ns_unique_requests = 0\<rparr>,
      tx_video_bitrate_allocation = \<lparr>va_bitrates = (\<lambda>_. None), va_sum = 0\<rparr>, tx_send_video_bitrate_allocation = False,
      tx_rtp_clock_rates_khz = (\<lambda>_. None), tx_last_payload_type = - 1, tx_report_flags = [], tx_sent = [],
      tx_counter_updates = []\<rparr>"

section \<open>Report flags\<close>

definition SetFlag :: "u32 \<Rightarrow> bool \<Rightarrow> rtcp_sender \<Rightarrow> rtcp_sender" where
  "SetFlag type is_volatile s =
     (let type = (if type AND kRtcpAnyExtendedReports \<noteq> 0 then kRtcpAnyExtendedReports else type)
      in if map_of (tx_report_flags s) type = None
         then s\<lparr>tx_report_flags := sm_put type is_volatile (tx_report_flags s)\<rparr> else s)"

definition SetFlags :: "u32 list \<Rightarrow> bool \<Rightarrow> rtcp_sender \<Rightarrow> rtcp_sender" where
  "SetFlags types is_volatile s = fold (\<lambda>type. SetFlag type is_volatile) types s"

definition IsFlagPresent :: "u32 \<Rightarrow> rtcp_sender \<Rightarrow> bool" where
  "IsFlagPresent type s \<longleftrightarrow> map_of (tx_report_flags s) type \<noteq> None"

definition ConsumeFlag :: "u32 \<Rightarrow> bool \<Rightarrow> rtcp_sender \<Rightarrow> bool \<times> rtcp_sender" where
  "ConsumeFlag type forced s =
     (case map_of (tx_report_flags s) type of
        None \<Rightarrow> (False, s)
      | Some v \<Rightarrow> (True, if v \<or> forced then s\<lparr>tx_report_flags := sm_erase type (tx_report_flags s)\<rparr> else s))"

definition AllVolatileFlagsConsumed :: "rtcp_sender \<Rightarrow> bool" where
  "AllVolatileFlagsConsumed s \<longleftrightarrow> list_all (\<lambda>(_, v). \<not> v) (tx_report_flags s)"

section \<open>Setters\<close>

definition SetRTCPStatus :: "clock_reading \<Rightarrow> rtcp_mode \<Rightarrow> rtcp_sender \<Rightarrow> rtcp_sender" where
  "SetRTCPStatus ck new_method s =
     (let s = (if tx_method s = kOff \<and> new_method \<noteq> kOff
               then s\<lparr>tx_next_time_to_send_rtcp_p := ck_ms ck + tx_report_interval_ms s sdiv 2,
                      tx_next_time_to_send_rtcp_s := ck_ms ck + tx_report_interval_ms s sdiv 2\<rparr> else s)
      in s\<lparr>tx_method := new_method\<rparr>)"

definition SetRemb :: "clock_reading \<Rightarrow> int \<Rightarrow> u32 list \<Rightarrow> rtcp_sender \<Rightarrow> rtcp_sender option" where
  "SetRemb ck bitrate_bps ssrcs s =
     (if bitrate_bps < 0 then None
      else Some ((SetFlag kRtcpRemb False (s\<lparr>tx_remb_bitrate := bitrate_bps, tx_remb_ssrcs := ssrcs\<rparr>))
             \<lparr>tx_next_time_to_send_rtcp_p := ck_ms ck, tx_next_time_to_send_rtcp_s := ck_ms ck\<rparr>))"

definition UnsetRemb :: "rtcp_sender \<Rightarrow> rtcp_sender" where
  "UnsetRemb s = snd (ConsumeFlag kRtcpRemb True s)"

definition TMMBR :: "rtcp_sender \<Rightarrow> bool" where
  "TMMBR s = IsFlagPresent kRtcpTmmbr s"

definition SetTMMBRStatus :: "bool \<Rightarrow> rtcp_sender \<Rightarrow> rtcp_sender" where
  "SetTMMBRStatus enable s = (if enable then SetFlag kRtcpTmmbr False s else snd (ConsumeFlag kRtcpTmmbr True s))"

definition RTCPSender_SetMaxRtpPacketSize :: "nat \<Rightarrow> rtcp_sender \<Rightarrow> rtcp_sender" where
  "RTCPSender_SetMaxRtpPacketSize max_packet_size s = s\<lparr>tx_max_packet_size := max_packet_size\<rparr>"

definition RTCPSender_SetTimestampOffset :: "u32 \<Rightarrow> rtcp_sender \<Rightarrow> rtcp_sender" where
  "RTCPSender_SetTimestampOffset timestamp_offset s = s\<lparr>tx_timestamp_offset := timestamp_offset\<rparr>"

definition SetLastRtpTime :: "clock_reading \<Rightarrow> u32 \<Rightarrow> int \<Rightarrow> int \<Rightarrow> rtcp_sender \<Rightarrow> rtcp_sender" where
  "SetLastRtpTime ck rtp_timestamp capture_time_ms payload_type s =
     (let s = (if payload_type \<noteq> - 1 then s\<lparr>tx_last_payload_type := payload_type\<rparr> else s)
      in s\<lparr>tx_last_rtp_timestamp := rtp_timestamp,
           tx_last_frame_capture_time_ms := (if capture_time_ms \<le> 0 then ck_ms ck else capture_time_ms)\<rparr>)"

definition SetRtpClockRate :: "int \<Rightarrow> int \<Rightarrow> rtcp_sender \<Rightarrow> rtcp_sender" where
  "SetRtpClockRate payload_type rtp_clock_rate_hz s =
     s\<lparr>tx_rtp_clock_rates_khz := (tx_rtp_clock_rates_khz s)(payload_type \<mapsto> rtp_clock_rate_hz sdiv 1000)\<rparr>"

definition RTCPSender_SetRemoteSSRC :: "u32 \<Rightarrow> rtcp_sender \<Rightarrow> rtcp_sender" where
  "RTCPSender_SetRemoteSSRC ssrc s = s\<lparr>tx_remote_ssrc := ssrc\<rparr>"

definition SetCNAME :: "bytes option \<Rightarrow> rtcp_sender \<Rightarrow> int \<times> rtcp_sender" where
  "SetCNAME c_name s = (case c_name of None \<Rightarrow> (- 1, s) | Some c \<Rightarrow> (0, s\<lparr>tx_cname := c\<rparr>))"

definition AddMixedCNAME :: "u32 \<Rightarrow> bytes \<Rightarrow> rtcp_sender \<Rightarrow> int \<times> rtcp_sender" where
  "AddMixedCNAME ssrc c_name s =
     (if length (tx_csrc_cnames s) \<ge> 31 - 1 then (- 1, s)
      else (0, s\<lparr>tx_csrc_cnames := sm_put ssrc c_name (tx_csrc_cnames s)\<rparr>))"

definition RemoveMixedCNAME :: "u32 \<Rightarrow> rtcp_sender \<Rightarrow> int \<times> rtcp_sender" where
  "RemoveMixedCNAME ssrc s =
     (if map_of (tx_csrc_cnames s) ssrc = None then (- 1, s)
      else (0, s\<lparr>tx_csrc_cnames := sm_erase ssrc (tx_csrc_cnames s)\<rparr>))"

definition RTCPSender_SetTargetBitrate :: "u32 \<Rightarrow> rtcp_sender \<Rightarrow> rtcp_sender" where
  "RTCPSender_SetTargetBitrate target_bitrate s = s\<lparr>tx_tmmbr_send_bps := target_bitrate\<rparr>"

definition RTCPSender_SetCsrcs :: "u32 list \<Rightarrow> rtcp_sender \<Rightarrow> rtcp_sender" where
  "RTCPSender_SetCsrcs csrcs s = s\<lparr>tx_csrcs := csrcs\<rparr>"

definition SendRtcpXrReceiverReferenceTime :: "bool \<Rightarrow> rtcp_sender \<Rightarrow> rtcp_sender" where
  "SendRtcpXrReceiverReferenceTime enable s = s\<lparr>tx_xr_send_receiver_reference_time_enabled := enable\<rparr>"

definition SetTmmbn :: "TmmbItem list \<Rightarrow> rtcp_sender \<Rightarrow> rtcp_sender" where
  "SetTmmbn bounding_set s = SetFlag kRtcpTmmbn True (s\<lparr>tx_tmmbn_to_send := bounding_set\<rparr>)"

definition TimeToSendRTCPReport :: "clock_reading \<Rightarrow> bool \<Rightarrow> int \<Rightarrow> rtcp_sender \<Rightarrow> bool" where
  "TimeToSendRTCPReport ck sendKeyframeBeforeRTP pathid s =
     (if tx_method s = kOff then False
      else let now = (if \<not> tx_audio s \<and> sendKeyframeBeforeRTP then ck_ms ck + RTCP_SEND_BEFORE_KEY_FRAME_MS else ck_ms ck);
               next_time = (if pathid \<noteq> 2 then tx_next_time_to_send_rtcp_p s else tx_next_time_to_send_rtcp_s s)
           in if now \<ge> next_time then True
              else now < 0xffff \<and> next_time > 0xffff0000)"

section \<open>Video layers\<close>

definition HasBitrate :: "nat \<Rightarrow> nat \<Rightarrow> VideoBitrateAllocation \<Rightarrow> bool" where
  "HasBitrate spatial_index temporal_index a \<longleftrightarrow> va_bitrates a (spatial_index, temporal_index) \<noteq> None"

definition GetBitrate :: "nat \<Rightarrow> nat \<Rightarrow> VideoBitrateAllocation \<Rightarrow> u32" where
  "GetBitrate spatial_index temporal_index a =
     (case va_bitrates a (spatial_index, temporal_index) of None \<Rightarrow> 0 | Some r \<Rightarrow> r)"

definition video_layers :: "(nat \<times> nat) list" where
  "video_layers = [(si, ti). si \<leftarrow> [0..<5], ti \<leftarrow> [0..<4]]"

text \<open>One layer; \<open>None\<close> is the access to an empty \<open>updated_bitrate\<close>.\<close>

definition check_layer ::
  "VideoBitrateAllocation \<Rightarrow> VideoBitrateAllocation \<Rightarrow> nat \<times> nat \<Rightarrow> VideoBitrateAllocation option \<Rightarrow>
   VideoBitrateAllocation option option" where
  "check_layer bitrate old layer updated =
     (let (si, ti) = layer;
          updated = (if Option.is_none updated \<and> (HasBitrate si ti bitrate \<noteq> HasBitrate si ti old \<or>
                        (GetBitrate si ti bitrate = 0) \<noteq> (GetBitrate si ti old = 0))
                     then Some bitrate else updated)
      in if GetBitrate si ti old > 0 \<and> GetBitrate si ti bitrate = 0
         then map_option (\<lambda>u. Some (SetBitrate si ti 0 u)) updated
         else Some updated)"

fun check_layers ::
  "VideoBitrateAllocation \<Rightarrow> VideoBitrateAllocation \<Rightarrow> (nat \<times> nat) list \<Rightarrow> VideoBitrateAllocation option \<Rightarrow>
   VideoBitrateAllocation option option" where
  "check_layers bitrate old [] updated = Some updated"
| "check_layers bitrate old (l # ls) updated =
     do { updated \<leftarrow> check_layer bitrate old l updated; check_layers bitrate old ls updated }"

definition CheckAndUpdateLayerStructure ::
  "VideoBitrateAllocation \<Rightarrow> rtcp_sender \<Rightarrow> VideoBitrateAllocation option option" where
  "CheckAndUpdateLayerStructure bitrate s = check_layers bitrate (tx_video_bitrate_allocation s) video_layers None"

definition SetVideoBitrateAllocation ::
  "clock_reading \<Rightarrow> VideoBitrateAllocation \<Rightarrow> rtcp_sender \<Rightarrow> rtcp_sender option" where
  "SetVideoBitrateAllocation ck bitrate s =
     do { new_bitrate \<leftarrow> CheckAndUpdateLayerStructure bitrate s;
          let s = (case new_bitrate of
                     Some b \<Rightarrow> s\<lparr>tx_video_bitrate_allocation := b, tx_next_time_to_send_rtcp_p := ck_ms ck,
                                 tx_next_time_to_send_rtcp_s := ck_ms ck\<rparr>
                   | None \<Rightarrow> s\<lparr>tx_video_bitrate_allocation := bitrate\<rparr>);
          Some (SetFlag kRtcpAnyExtendedReports True (s\<lparr>tx_send_video_bitrate_allocation := True\<rparr>)) }"

section \<open>Packets\<close>

datatype rtcp_packet =
    PacketSr SenderReport
  | PacketRr ReceiverReport
  | PacketSdes Sdes
  | PacketPli Pli
  | PacketFir Fir
  | PacketRemb Remb
  | PacketTmmbr Tmmb
  | PacketTmmbn Tmmb
  | PacketApp App
  | PacketLossNotification LossNotification
  | PacketNack Nack
  | PacketBye Bye
  | PacketXr ExtendedReports
  | PacketTransportFeedback TransportFeedback

fun packet_Create :: "bytes \<Rightarrow> rtcp_packet \<Rightarrow> nat \<Rightarrow> out_buffer \<Rightarrow> out_buffer outcome option" where
  "packet_Create stale (PacketSr p) = SenderReport_Create stale p"
| "packet_Create stale (PacketRr p) = ReceiverReport_Create p"
| "packet_Create stale (PacketSdes p) = Sdes_Create p"
| "packet_Create stale (PacketPli p) = Pli_Create p"
| "packet_Create stale (PacketFir p) = Fir_Create p"
| "packet_Create stale (PacketRemb p) = Remb_Create p"
| "packet_Create stale (PacketTmmbr p) = Tmmbr_Create p"
| "packet_Create stale (PacketTmmbn p) = Tmmbn_Create p"
| "packet_Create stale (PacketApp p) = App_Create p"
| "packet_Create stale (PacketLossNotification p) = LossNotification_Create p"
| "packet_Create stale (PacketNack p) = Nack_Create p"
| "packet_Create stale (PacketBye p) = Bye_Create p"
| "packet_Create stale (PacketXr p) = ExtendedReports_Create p"
| "packet_Create stale (PacketTransportFeedback p) = TransportFeedback_Create p"

text \<open>
  What is left of the buffer when a \<open>Create\<close> fails: the block does not fit into an empty buffer, so what was in
  it has been handed over before. An empty transport feedback packet fails before that.
\<close>

definition flush :: "out_buffer \<Rightarrow> out_buffer" where
  "flush ob = (case OnBufferFull ob of Fails \<Rightarrow> ob | Gives ob \<Rightarrow> ob)"

fun failed_buffer :: "rtcp_packet \<Rightarrow> out_buffer \<Rightarrow> out_buffer" where
  "failed_buffer (PacketTransportFeedback f) ob = (if tf_num_seq_no f = 0 then ob else flush ob)"
| "failed_buffer p ob = flush ob"

definition append_packet :: "bytes \<Rightarrow> nat \<Rightarrow> rtcp_packet \<Rightarrow> out_buffer \<Rightarrow> (bool \<times> out_buffer) option" where
  "append_packet stale max_length p ob =
     (case packet_Create stale p max_length ob of
        None \<Rightarrow> None
      | Some Fails \<Rightarrow> Some (False, failed_buffer p ob)
      | Some (Gives ob) \<Rightarrow> Some (True, ob))"

fun CompoundPacket_Create :: "bytes \<Rightarrow> nat \<Rightarrow> rtcp_packet list \<Rightarrow> out_buffer \<Rightarrow> (bool \<times> out_buffer) option" where
  "CompoundPacket_Create stale max_length [] ob = Some (True, ob)"
| "CompoundPacket_Create stale max_length (p # ps) ob =
     do { (ok, ob) \<leftarrow> append_packet stale max_length p ob;
          if ok then CompoundPacket_Create stale max_length ps ob else Some (False, ob) }"

definition transmit :: "rtcp_env \<Rightarrow> int \<Rightarrow> bytes list \<Rightarrow> rtcp_sender \<Rightarrow> nat \<times> rtcp_sender" where
  "transmit E pathid wires s =
     (sum_list (map length (filter (en_transport E) wires)),
      s\<lparr>tx_sent := tx_sent s @ map (\<lambda>w. (w, pathid)) wires\<rparr>)"

definition SendPackets :: "rtcp_env \<Rightarrow> nat \<Rightarrow> int \<Rightarrow> rtcp_packet list \<Rightarrow> rtcp_sender \<Rightarrow> (nat \<times> rtcp_sender) option" where
  "SendPackets E max_payload_length pathid ps s =
     (if max_payload_length > IP_PACKET_SIZE then None
      else do { (ok, ob) \<leftarrow> CompoundPacket_Create (en_stale E) max_payload_length ps \<lparr>ob_data = [], ob_sent = []\<rparr>;
                Some (transmit E pathid (ob_sent (if ok then flush ob else ob)) s) })"

section \<open>Report blocks\<close>

definition set_delays :: "clock_reading \<Rightarrow> FeedbackState \<Rightarrow> ReportBlock list \<Rightarrow> ReportBlock list" where
  "set_delays ck fs blocks =
     (if fs_last_rr_ntp_secs fs \<noteq> 0 \<or> fs_last_rr_ntp_frac fs \<noteq> 0
      then let now = CompactNtp (TimeMicrosToNtp ck);
               receive_time = push_bit 16 (fs_last_rr_ntp_secs fs AND 0xffff) + drop_bit 16 (fs_last_rr_ntp_frac fs AND 0xffff0000)
           in map (\<lambda>b. b\<lparr>rb_last_sr := fs_remote_sr fs, rb_delay_since_last_sr := now - receive_time\<rparr>) blocks
      else blocks)"

definition create_report_blocks ::
  "int \<Rightarrow> rtcp_env \<Rightarrow> FeedbackState \<Rightarrow> rtcp_sender \<Rightarrow> ReportBlock list \<times> rtcp_sender" where
  "create_report_blocks pathid E fs s =
     (case tx_receive_statistics s of
        None \<Rightarrow> ([], s)
      | Some r \<Rightarrow>
          let (blocks, r) = RtcpReportBlocks (en_mp E) (ck_ms (en_clock E)) RTCP_MAX_REPORT_BLOCKS pathid r
          in (set_delays (en_clock E) fs blocks, s\<lparr>tx_receive_statistics := Some r\<rparr>))"

definition MpPrimaryCreateReportBlocks :: "rtcp_env \<Rightarrow> FeedbackState \<Rightarrow> rtcp_sender \<Rightarrow> ReportBlock list \<times> rtcp_sender" where
  "MpPrimaryCreateReportBlocks = create_report_blocks 1"

definition MpSecondaryCreateReportBlocks :: "rtcp_env \<Rightarrow> FeedbackState \<Rightarrow> rtcp_sender \<Rightarrow> ReportBlock list \<times> rtcp_sender" where
  "MpSecondaryCreateReportBlocks = create_report_blocks 2"

definition CreateReportBlocks :: "rtcp_env \<Rightarrow> FeedbackState \<Rightarrow> rtcp_sender \<Rightarrow> ReportBlock list \<times> rtcp_sender" where
  "CreateReportBlocks = create_report_blocks 1"

section \<open>Builders\<close>

record RtcpContext =
  cx_env :: rtcp_env
  cx_feedback_state :: FeedbackState
  cx_nack_list :: "u16 list"

text \<open>A builder returns no packet where the source returns a null pointer.\<close>

type_synonym builder = "RtcpContext \<Rightarrow> int \<Rightarrow> rtcp_sender \<Rightarrow> (rtcp_packet option \<times> rtcp_sender) option"

definition BuildSR :: builder where
  "BuildSR cx pathid s =
     (let E = cx_env cx; fs = cx_feedback_state cx;
          rates = tx_rtp_clock_rates_khz s;
          stored = (case rates (tx_last_payload_type s) of None \<Rightarrow> 0 | Some r \<Rightarrow> r);
          s = s\<lparr>tx_rtp_clock_rates_khz := rates(tx_last_payload_type s \<mapsto> stored)\<rparr>;
          rtp_rate = (if stored \<le> 0
                      then (if tx_audio s then kBogusRtpRateForAudioRtcp else kVideoPayloadTypeFrequency) sdiv 1000 else stored);
          rtp_timestamp = tx_timestamp_offset s + tx_last_rtp_timestamp s +
            word_of_int (((ck_us (en_clock E) + 500) sdiv 1000 - tx_last_frame_capture_time_ms s) * rtp_rate);
          report = \<lparr>sr_sender_ssrc = tx_ssrc s, sr_pathid = pathid, sr_ntp = TimeMicrosToNtp (en_clock E),
            sr_rtp_timestamp = rtp_timestamp, sr_packet_count = fs_packets_sent fs,
            sr_octet_count = of_nat (fs_media_bytes_sent fs), sr_report_blocks = []\<rparr>;
          (blocks, s) = (if pathid \<noteq> 2 then MpPrimaryCreateReportBlocks E fs s else MpSecondaryCreateReportBlocks E fs s)
      in Some (Some (PacketSr (case SenderReport_SetReportBlocks blocks report of Fails \<Rightarrow> report | Gives r \<Rightarrow> r)), s))"

definition BuildRR :: builder where
  "BuildRR cx pathid s =
     (let E = cx_env cx; fs = cx_feedback_state cx;
          report = \<lparr>rr_sender_ssrc = tx_ssrc s, rr_pathid = pathid, rr_report_blocks = []\<rparr>;
          (blocks, s) = (if pathid \<noteq> 2 then MpPrimaryCreateReportBlocks E fs s else MpSecondaryCreateReportBlocks E fs s)
      in Some (Some (PacketRr (case ReceiverReport_SetReportBlocks blocks report of Fails \<Rightarrow> report | Gives r \<Rightarrow> r)), s))"

fun add_cnames :: "(u32, bytes) smap \<Rightarrow> Sdes \<Rightarrow> Sdes option" where
  "add_cnames [] p = Some p"
| "add_cnames ((ssrc, cname) # cs) p =
     (case Sdes_AddCName ssrc cname p of Fails \<Rightarrow> None | Gives p \<Rightarrow> add_cnames cs p)"

definition BuildSDES :: builder where
  "BuildSDES cx pathid s =
     (if \<not> length (tx_cname s) < RTCP_CNAME_SIZE then None
      else let sdes = \<lparr>sd_pathid = pathid, sd_chunks = [], sd_block_length = kHeaderLength\<rparr>;
               sdes = (case Sdes_AddCName (tx_ssrc s) (tx_cname s) sdes of Fails \<Rightarrow> sdes | Gives p \<Rightarrow> p)
           in do { sdes \<leftarrow> add_cnames (tx_csrc_cnames s) sdes; Some (Some (PacketSdes sdes), s) })"

definition BuildPLI :: builder where
  "BuildPLI cx pathid s =
     (let c = tx_packet_type_counter s
      in Some (Some (PacketPli \<lparr>pli_sender_ssrc = tx_ssrc s, pli_media_ssrc = tx_remote_ssrc s, pli_pathid = pathid\<rparr>),
               s\<lparr>tx_packet_type_counter := c\<lparr>pc_pli_packets := pc_pli_packets c + 1\<rparr>\<rparr>))"

definition BuildFIR :: builder where
  "BuildFIR cx pathid s =
     (let s = s\<lparr>tx_sequence_number_fir := tx_sequence_number_fir s + 1\<rparr>; c = tx_packet_type_counter s
      in Some (Some (PacketFir \<lparr>fir_sender_ssrc = tx_ssrc s, fir_media_ssrc = 0, fir_pathid = pathid,
                       fir_items = [\<lparr>fq_ssrc = tx_remote_ssrc s, fq_seq_nr = tx_sequence_number_fir s\<rparr>]\<rparr>),
               s\<lparr>tx_packet_type_counter := c\<lparr>pc_fir_packets := pc_fir_packets c + 1\<rparr>\<rparr>))"

definition BuildREMB :: builder where
  "BuildREMB cx pathid s =
     (let remb = \<lparr>remb_sender_ssrc = tx_ssrc s, remb_media_ssrc = 0, remb_bitrate_bps = word_of_int (tx_remb_bitrate s),
                  remb_ssrcs = []\<rparr>
      in Some (Some (PacketRemb (case Remb_SetSsrcs (tx_remb_ssrcs s) remb of Fails \<Rightarrow> remb | Gives p \<Rightarrow> p)), s))"

definition tmmbr_item :: "u32 \<Rightarrow> rtcp_sender \<Rightarrow> TmmbItem" where
  "tmmbr_item ssrc s =
     \<lparr>ti_ssrc = ssrc, ti_bitrate_bps = ucast (tx_tmmbr_send_bps s), ti_packet_overhead = ucast (tx_packet_oh_send s)\<rparr>"

text \<open>Whether a request for the own bitrate is worth sending, given the bounding set of the receiver.\<close>

definition tmmbr_allowed :: "RtcpContext \<Rightarrow> TmmbItem list \<Rightarrow> bool \<Rightarrow> rtcp_sender \<Rightarrow> bool" where
  "tmmbr_allowed cx candidates tmmbr_owner s =
     (if candidates = [] then True
      else if list_ex (\<lambda>c. ti_bitrate_bps c = ucast (tx_tmmbr_send_bps s) \<and>
                          ucast (ti_packet_overhead c) = tx_packet_oh_send s) candidates then False
      else tmmbr_owner \<or>
           list_ex (\<lambda>i. ti_ssrc i = tx_ssrc s)
             (en_find_bounding_set (cx_env cx) (candidates @ [tmmbr_item (tx_ssrc s) s])))"

definition BuildTMMBR :: builder where
  "BuildTMMBR cx pathid s =
     (case fs_receiver (cx_feedback_state cx) of
        None \<Rightarrow> Some (None, s)
      | Some r \<Rightarrow>
          let (candidates, owner) = BoundingSet (en_receiver_config (cx_env cx)) r;
              tmmbr_owner = (case owner of None \<Rightarrow> False | Some b \<Rightarrow> b)
          in if \<not> tmmbr_allowed cx candidates tmmbr_owner s then Some (None, s)
             else if tx_tmmbr_send_bps s = 0 then Some (None, s)
             else Some (Some (PacketTmmbr (AddTmmbr (tmmbr_item (tx_remote_ssrc s) s)
                    \<lparr>tm_sender_ssrc = tx_ssrc s, tm_media_ssrc = 0, tm_items = []\<rparr>)), s))"

definition BuildTMMBN :: builder where
  "BuildTMMBN cx pathid s =
     Some (Some (PacketTmmbn (fold AddTmmbr (filter (\<lambda>i. ti_bitrate_bps i > 0) (tx_tmmbn_to_send s))
       \<lparr>tm_sender_ssrc = tx_ssrc s, tm_media_ssrc = 0, tm_items = []\<rparr>)), s)"

definition app_packet :: "nat \<Rightarrow> bytes \<Rightarrow> int \<Rightarrow> rtcp_sender \<Rightarrow> rtcp_packet" where
  "app_packet sub_type d pathid s =
     PacketApp \<lparr>app_sender_ssrc = tx_ssrc s, app_pathid = pathid, app_sub_type = sub_type, app_name = 0x73616e64, app_data = d\<rparr>"

definition BuildAPPQUIC :: builder where
  "BuildAPPQUIC cx pathid s = Some (Some (app_packet 1 [99, 99, 99, 99] pathid s), s)"

definition BuildAPPHalf :: builder where
  "BuildAPPHalf cx pathid s = Some (Some (app_packet 1 [98, 98, 98, 98] pathid s), s)"

definition BuildAPPFull :: builder where
  "BuildAPPFull cx pathid s = Some (Some (app_packet 1 [97, 97, 97, 97] pathid s), s)"

definition BuildAPPMPFrameRate :: builder where
  "BuildAPPMPFrameRate cx pathid s =
     Some (Some (app_packet 2 (ucast (mc_fps (en_mp (cx_env cx))) # tl (en_heap (cx_env cx))) pathid s), s)"

text \<open>\<open>std::to_string\<close> of an integer.\<close>

function digits :: "nat \<Rightarrow> bytes" where
  "digits n = (if n < 10 then [48 + of_nat n] else digits (n div 10) @ [48 + of_nat (n mod 10)])"
  by auto
termination by (relation "measure id") auto

declare digits.simps [simp del]

definition to_string :: "int \<Rightarrow> bytes" where
  "to_string n = (if n < 0 then 45 # digits (nat (- n)) else digits (nat n))"

text \<open>A number in four bytes from the heap; a longer text is written past their end.\<close>

definition number_data :: "rtcp_env \<Rightarrow> int \<Rightarrow> bytes option" where
  "number_data E n =
     (let tmp = to_string n in if length tmp > 4 then None else Some (tmp @ drop (length tmp) (en_heap E)))"

definition BuildAPPMpAsymmetry :: builder where
  "BuildAPPMpAsymmetry cx pathid s =
     do { d \<leftarrow> number_data (cx_env cx) (mc_assymetry (en_mp (cx_env cx))); Some (Some (app_packet 3 d pathid s), s) }"

definition BuildAPPMpRR1 :: builder where
  "BuildAPPMpRR1 cx pathid s =
     do { d \<leftarrow> number_data (cx_env cx) (mc_rr1 (en_mp (cx_env cx))); Some (Some (app_packet 4 d pathid s), s) }"

definition BuildAPPMpRR2 :: builder where
  "BuildAPPMpRR2 cx pathid s =
     do { d \<leftarrow> number_data (cx_env cx) (mc_rr2 (en_mp (cx_env cx))); Some (Some (app_packet 5 d pathid s), s) }"

definition BuildLossNotification :: builder where
  "BuildLossNotification cx pathid s =
     (let l = tx_loss_notification_state s
      in Some (Some (PacketLossNotification \<lparr>ln_sender_ssrc = tx_ssrc s, ln_media_ssrc = tx_remote_ssrc s, ln_pathid = pathid,
           ln_last_decoded = lo_last_decoded_seq_num l, ln_last_received = lo_last_received_seq_num l,
           ln_decodability_flag = lo_decodability_flag l\<rparr>), s))"

definition BuildNACK :: builder where
  "BuildNACK cx pathid s =
     (let nack = SetPacketIds (cx_nack_list cx) \<lparr>nk_sender_ssrc = tx_ssrc s, nk_media_ssrc = tx_remote_ssrc s,
            nk_pathid = pathid, nk_packed = [], nk_packet_ids = []\<rparr>;
          st = fold ReportRequest (cx_nack_list cx) (tx_nack_stats s);
          c = tx_packet_type_counter s
      in Some (Some (PacketNack nack), s\<lparr>tx_nack_stats := st,
           tx_packet_type_counter := c\<lparr>pc_nack_requests := ns_requests st, pc_unique_nack_requests := ns_unique_requests st,
             pc_nack_packets := pc_nack_packets c + 1\<rparr>\<rparr>))"

definition BuildBYE :: builder where
  "BuildBYE cx pathid s =
     (let bye = \<lparr>bye_sender_ssrc = tx_ssrc s, bye_csrcs = [], bye_reason = []\<rparr>
      in Some (Some (PacketBye (case Bye_SetCsrcs (tx_csrcs s) bye of Fails \<Rightarrow> bye | Gives p \<Rightarrow> p)), s))"

definition add_dlrr :: "ReceiveTimeInfo \<Rightarrow> ExtendedReports \<Rightarrow> ExtendedReports" where
  "add_dlrr rti xr = (case AddDlrrItem rti xr of Fails \<Rightarrow> xr | Gives xr \<Rightarrow> xr)"

definition target_bitrates :: "VideoBitrateAllocation \<Rightarrow> BitrateItem list" where
  "target_bitrates a =
     [\<lparr>bi_spatial_layer = of_nat si, bi_temporal_layer = of_nat ti, bi_target_bitrate_kbps = GetBitrate si ti a div 1000\<rparr>.
      (si, ti) \<leftarrow> video_layers, HasBitrate si ti a]"

definition BuildExtendedReports :: builder where
  "BuildExtendedReports cx pathid s =
     (let xr = \<lparr>xr_sender_ssrc = tx_ssrc s, xr_rrtr = None, xr_dlrr = [], xr_target_bitrate = None\<rparr>;
          xr = (if \<not> tx_sending s \<and> tx_xr_send_receiver_reference_time_enabled s
                then SetRrtr (TimeMicrosToNtp (en_clock (cx_env cx))) xr else xr);
          xr = fold add_dlrr (fs_last_xr_rtis (cx_feedback_state cx)) xr
      in Some (if tx_send_video_bitrate_allocation s
               then (Some (PacketXr (SetTargetBitrate (target_bitrates (tx_video_bitrate_allocation s)) xr)),
                     s\<lparr>tx_send_video_bitrate_allocation := False\<rparr>)
               else (Some (PacketXr xr), s)))"

definition builders :: "(u32 \<times> builder) list" where
  "builders =
     [(kRtcpSr, BuildSR), (kRtcpRr, BuildRR), (kRtcpSdes, BuildSDES), (kRtcpPli, BuildPLI), (kRtcpFir, BuildFIR),
      (kRtcpRemb, BuildREMB), (kRtcpBye, BuildBYE), (kRtcpLossNotification, BuildLossNotification),
      (kRtcpTmmbr, BuildTMMBR), (kRtcpTmmbn, BuildTMMBN), (kRtcpNack, BuildNACK),
      (kRtcpAnyExtendedReports, BuildExtendedReports), (kAppSubtypeQUIC, BuildAPPQUIC), (kAppSubtypeMpHalf, BuildAPPHalf),
      (kAppSubtypeMpFull, BuildAPPFull), (kAppSubtypeMPFrameRate, BuildAPPMPFrameRate),
      (kAppSubtypeMpAsymmetry, BuildAPPMpAsymmetry), (kAppSubtypeMpRR1, BuildAPPMpRR1), (kAppSubtypeMpRR2, BuildAPPMpRR2)]"

section \<open>Reports and compound packets\<close>

definition report_interval :: "FeedbackState \<Rightarrow> rtcp_sender \<Rightarrow> int" where
  "report_interval fs s =
     (let send_bitrate_kbit = uint (fs_send_bitrate fs div 1000)
      in if \<not> tx_audio s \<and> tx_sending s \<and> send_bitrate_kbit \<noteq> 0
         then min (360000 sdiv send_bitrate_kbit) (tx_report_interval_ms s)
         else tx_report_interval_ms s)"

definition schedule_next :: "clock_reading \<Rightarrow> FeedbackState \<Rightarrow> int \<Rightarrow> rtcp_sender \<Rightarrow> rtcp_sender" where
  "schedule_next ck fs pathid s =
     (let min_interval_ms = report_interval fs s;
          (time_to_next, random) = Rand_between (min_interval_ms * 1 sdiv 2) (min_interval_ms * 3 sdiv 2) (tx_random s);
          s = s\<lparr>tx_random := random\<rparr>
      in if pathid \<noteq> 2 then s\<lparr>tx_next_time_to_send_rtcp_p := ck_ms ck + time_to_next\<rparr>
         else s\<lparr>tx_next_time_to_send_rtcp_s := ck_ms ck + time_to_next\<rparr>)"

definition choose_report :: "rtcp_sender \<Rightarrow> bool \<times> rtcp_sender" where
  "choose_report s =
     (if IsFlagPresent kRtcpSr s \<or> IsFlagPresent kRtcpRr s then (True, s)
      else let (consumed, s) = ConsumeFlag kRtcpReport False s;
               generate_report = (consumed \<and> tx_method s = kReducedSize \<or> tx_method s = kCompound)
           in (generate_report,
               if generate_report then SetFlag (if tx_sending s then kRtcpSr else kRtcpRr) True s else s))"

definition PrepareReport :: "clock_reading \<Rightarrow> FeedbackState \<Rightarrow> int \<Rightarrow> rtcp_sender \<Rightarrow> rtcp_sender" where
  "PrepareReport ck fs pathid s =
     (let (generate_report, s) = choose_report s;
          s = (if IsFlagPresent kRtcpSr s \<or> (IsFlagPresent kRtcpRr s \<and> tx_cname s \<noteq> []) then SetFlag kRtcpSdes True s else s)
      in if generate_report
         then let s = (if \<not> tx_sending s \<and> tx_xr_send_receiver_reference_time_enabled s \<or>
                          fs_last_xr_rtis fs \<noteq> [] \<or> tx_send_video_bitrate_allocation s
                       then SetFlag kRtcpAnyExtendedReports True s else s)
              in schedule_next ck fs pathid s
         else s)"

text \<open>
  The loop over the flags: packets so far, the goodbye packet kept for the end, and whether
  every builder returned a packet. Builders do not change the flags, so the loop runs over the flags as
  they were.
\<close>

fun build_packets ::
  "RtcpContext \<Rightarrow> int \<Rightarrow> report_flags \<Rightarrow> rtcp_packet list \<Rightarrow> rtcp_packet option \<Rightarrow> rtcp_sender \<Rightarrow>
   (bool \<times> rtcp_packet list \<times> rtcp_packet option \<times> rtcp_sender) option" where
  "build_packets cx pathid [] ps bye s = Some (True, ps, bye, s)"
| "build_packets cx pathid ((type, is_volatile) # flags) ps bye s =
     (let s = (if is_volatile then s\<lparr>tx_report_flags := sm_erase type (tx_report_flags s)\<rparr> else s)
      in case map_of builders type of
           None \<Rightarrow> build_packets cx pathid flags ps bye s
         | Some func \<Rightarrow> do {
             (packet, s) \<leftarrow> func cx pathid s;
             case packet of
               None \<Rightarrow> Some (False, ps, bye, s)
             | Some p \<Rightarrow>
                 if type = kRtcpBye then build_packets cx pathid flags ps (Some p) s
                 else build_packets cx pathid flags (ps @ [p]) bye s })"

definition before_media :: "rtcp_sender \<Rightarrow> int option \<times> rtcp_sender" where
  "before_media s =
     (let (consumed_sr_flag, s) = ConsumeFlag kRtcpSr False s;
          (consumed_report_flag, s) = (if tx_sending s then ConsumeFlag kRtcpReport False s else (False, s));
          sender_report = (consumed_report_flag \<or> consumed_sr_flag)
      in if sender_report \<and> AllVolatileFlagsConsumed s then (Some 0, s)
         else if tx_sending s \<and> tx_method s = kCompound then (Some (- 1), s)
         else (None, s))"

text \<open>The part before the report is prepared; a result ends the call.\<close>

definition begin_call :: "clock_reading \<Rightarrow> u32 list \<Rightarrow> rtcp_sender \<Rightarrow> int option \<times> rtcp_sender" where
  "begin_call ck packet_types s =
     (let s = SetFlags packet_types True s;
          (result, s) = (if \<not> tx_last_frame_capture_time_ms s \<ge> 0 then before_media s else (None, s));
          c = tx_packet_type_counter s
      in (result, if result = None \<and> pc_first_packet_time_ms c = - 1
                  then s\<lparr>tx_packet_type_counter := c\<lparr>pc_first_packet_time_ms := ck_ms ck\<rparr>\<rparr> else s))"

definition notify_counter :: "rtcp_sender \<Rightarrow> rtcp_sender" where
  "notify_counter s =
     (if tx_packet_type_counter_observer s
      then s\<lparr>tx_counter_updates := tx_counter_updates s @ [(tx_remote_ssrc s, tx_packet_type_counter s)]\<rparr> else s)"

text \<open>The result of the call, if it ends it, and the packets.\<close>

definition ComputeCompoundRTCPPacket ::
  "rtcp_env \<Rightarrow> FeedbackState \<Rightarrow> u32 list \<Rightarrow> u16 list \<Rightarrow> int \<Rightarrow> rtcp_sender \<Rightarrow>
   (int option \<times> rtcp_packet list \<times> rtcp_sender) option" where
  "ComputeCompoundRTCPPacket E fs packet_types nack_list pathid s =
     (if tx_method s = kOff then Some (Some (- 1), [], s)
      else
        let (result, s) = begin_call (en_clock E) packet_types s
        in if result \<noteq> None then Some (result, [], s)
           else
             let cx = \<lparr>cx_env = E, cx_feedback_state = fs, cx_nack_list = nack_list\<rparr>;
                 s = PrepareReport (en_clock E) fs pathid s
             in do {
               (ok, packets, bye, s) \<leftarrow> build_packets cx pathid (tx_report_flags s) [] None s;
               if \<not> ok then Some (Some (- 1), packets, s)
               else Some (None, packets @ (case bye of None \<Rightarrow> [] | Some p \<Rightarrow> [p]), notify_counter s) })"

definition SendCompoundRTCP ::
  "rtcp_env \<Rightarrow> FeedbackState \<Rightarrow> u32 list \<Rightarrow> u16 list \<Rightarrow> int \<Rightarrow> rtcp_sender \<Rightarrow> (int \<times> rtcp_sender) option" where
  "SendCompoundRTCP E fs packet_types nack_list pathid s =
     do { (result, packets, s) \<leftarrow> ComputeCompoundRTCPPacket E fs packet_types nack_list pathid s;
          case result of
            Some r \<Rightarrow> Some (r, s)
          | None \<Rightarrow> do { (bytes_sent, s) \<leftarrow> SendPackets E (tx_max_packet_size s) pathid packets s;
                         Some (if bytes_sent = 0 then - 1 else 0, s) } }"

definition SendCompoundRTCPLocked ::
  "rtcp_env \<Rightarrow> FeedbackState \<Rightarrow> u32 list \<Rightarrow> u16 list \<Rightarrow> rtcp_sender \<Rightarrow> (int \<times> rtcp_sender) option" where
  "SendCompoundRTCPLocked E fs packet_types nack_list s = SendCompoundRTCP E fs packet_types nack_list 1 s"

definition SendRTCP ::
  "rtcp_env \<Rightarrow> FeedbackState \<Rightarrow> u32 \<Rightarrow> u16 list \<Rightarrow> int \<Rightarrow> rtcp_sender \<Rightarrow> (int \<times> rtcp_sender) option" where
  "SendRTCP E fs packetType nack_list pathid s = SendCompoundRTCP E fs [packetType] nack_list pathid s"

definition RTCPSender_SetSendingStatus ::
  "rtcp_env \<Rightarrow> FeedbackState \<Rightarrow> bool \<Rightarrow> rtcp_sender \<Rightarrow> (int \<times> rtcp_sender) option" where
  "RTCPSender_SetSendingStatus E fs sending s =
     (let sendRTCPBye = (tx_method s \<noteq> kOff \<and> \<not> sending \<and> tx_sending s);
          s = s\<lparr>tx_sending := sending\<rparr>
      in if sendRTCPBye then SendRTCP E fs kRtcpBye [] 1 s else Some (0, s))"

definition SendLossNotification ::
  "rtcp_env \<Rightarrow> FeedbackState \<Rightarrow> u16 \<Rightarrow> u16 \<Rightarrow> bool \<Rightarrow> bool \<Rightarrow> rtcp_sender \<Rightarrow> (int \<times> rtcp_sender) option" where
  "SendLossNotification E fs last_decoded last_received decodability_flag buffering_allowed s =
     (let s = s\<lparr>tx_loss_notification_state := \<lparr>lo_last_decoded_seq_num = last_decoded,
                lo_last_received_seq_num = last_received, lo_decodability_flag = decodability_flag\<rparr>\<rparr>;
          s = SetFlag kRtcpLossNotification True s
      in if buffering_allowed then Some (0, s)
         else SendCompoundRTCPLocked E fs [kRtcpLossNotification] [] s)"

section \<open>Combined packets\<close>

fun set_sender_ssrc :: "u32 \<Rightarrow> rtcp_packet \<Rightarrow> rtcp_packet" where
  "set_sender_ssrc x (PacketSr p) = PacketSr (p\<lparr>sr_sender_ssrc := x\<rparr>)"
| "set_sender_ssrc x (PacketRr p) = PacketRr (p\<lparr>rr_sender_ssrc := x\<rparr>)"
| "set_sender_ssrc x (PacketSdes p) = PacketSdes p"
| "set_sender_ssrc x (PacketPli p) = PacketPli (p\<lparr>pli_sender_ssrc := x\<rparr>)"
| "set_sender_ssrc x (PacketFir p) = PacketFir (p\<lparr>fir_sender_ssrc := x\<rparr>)"
| "set_sender_ssrc x (PacketRemb p) = PacketRemb (p\<lparr>remb_sender_ssrc := x\<rparr>)"
| "set_sender_ssrc x (PacketTmmbr p) = PacketTmmbr (p\<lparr>tm_sender_ssrc := x\<rparr>)"
| "set_sender_ssrc x (PacketTmmbn p) = PacketTmmbn (p\<lparr>tm_sender_ssrc := x\<rparr>)"
| "set_sender_ssrc x (PacketApp p) = PacketApp (p\<lparr>app_sender_ssrc := x\<rparr>)"
| "set_sender_ssrc x (PacketLossNotification p) = PacketLossNotification (p\<lparr>ln_sender_ssrc := x\<rparr>)"
| "set_sender_ssrc x (PacketNack p) = PacketNack (p\<lparr>nk_sender_ssrc := x\<rparr>)"
| "set_sender_ssrc x (PacketBye p) = PacketBye (p\<lparr>bye_sender_ssrc := x\<rparr>)"
| "set_sender_ssrc x (PacketXr p) = PacketXr (p\<lparr>xr_sender_ssrc := x\<rparr>)"
| "set_sender_ssrc x (PacketTransportFeedback p) = PacketTransportFeedback (p\<lparr>tf_sender_ssrc := x\<rparr>)"

text \<open>\<open>AppendPacket\<close> ignores the result of \<open>Create\<close>.\<close>

fun append_packets :: "bytes \<Rightarrow> nat \<Rightarrow> rtcp_packet list \<Rightarrow> out_buffer \<Rightarrow> out_buffer option" where
  "append_packets stale max_length [] ob = Some ob"
| "append_packets stale max_length (p # ps) ob =
     do { (ok, ob) \<leftarrow> append_packet stale max_length p ob; append_packets stale max_length ps ob }"

definition SendCombinedRtcpPacket ::
  "rtcp_env \<Rightarrow> rtcp_packet list \<Rightarrow> int \<Rightarrow> rtcp_sender \<Rightarrow> rtcp_sender option" where
  "SendCombinedRtcpPacket E rtcp_packets pathid s =
     (if tx_method s = kOff then Some s
      else if tx_max_packet_size s > IP_PACKET_SIZE then None
      else do { ob \<leftarrow> append_packets (en_stale E) (tx_max_packet_size s)
                  (map (set_sender_ssrc (tx_ssrc s)) rtcp_packets) \<lparr>ob_data = [], ob_sent = []\<rparr>;
                Some (snd (transmit E pathid (ob_sent (flush ob)) s)) })"

end
