(* ===== verification/RtcpCompound.thy ===== *)
theory RtcpCompound
  imports RtcpSender
begin

text \<open>
  What the sender puts into a compound packet and when: flags that were raised for one call are used up by it,
  the packets come in the order of their types, and the next report of the path falls into the
  interval around the report interval.
\<close>

section \<open>Flags\<close>

definition lasting :: "report_flags \<Rightarrow> report_flags" where
  "lasting fs = filter (\<lambda>(_, v). \<not> v) fs"

lemma lasting_put: "map_of m k = None \<Longrightarrow> lasting (sm_put k True m) = lasting m"
proof (induction m)
  case (Cons x m)
  then show ?case by (cases x) (auto simp: lasting_def split: if_splits)
qed (simp add: lasting_def)

lemma map_of_sm_ok: "sm_ok m \<Longrightarrow> (k, v) \<in> set m \<Longrightarrow> map_of m k = Some v"
  by (simp add: sm_ok_def strict_sorted_iff)

lemma lasting_erase:
  assumes "sm_ok m" "map_of m k = Some True"
  shows "lasting (sm_erase k m) = lasting m"
  unfolding lasting_def sm_erase_def filter_filter
  by (rule filter_cong [OF refl]) (use map_of_sm_ok [OF assms(1)] assms(2) in fastforce)

lemma SetFlag_flags:
  assumes "sm_ok (tx_report_flags s)"
  shows "sm_ok (tx_report_flags (SetFlag t True s)) \<and> lasting (tx_report_flags (SetFlag t True s)) = lasting (tx_report_flags s)"
  using assms by (simp add: SetFlag_def Let_def sm.ok_put lasting_put)

lemma SetFlags_flags:
  "sm_ok (tx_report_flags s) \<Longrightarrow>
    sm_ok (tx_report_flags (SetFlags ts True s)) \<and> lasting (tx_report_flags (SetFlags ts True s)) = lasting (tx_report_flags s)"
  unfolding SetFlags_def using SetFlag_flags by (induction ts arbitrary: s) auto

lemma ConsumeFlag_flags:
  assumes "sm_ok (tx_report_flags s)" "ConsumeFlag t False s = (b, s')"
  shows "sm_ok (tx_report_flags s') \<and> lasting (tx_report_flags s') = lasting (tx_report_flags s)"
  using assms by (auto simp: ConsumeFlag_def sm.ok_erase lasting_erase split: option.splits if_splits)

text \<open>What a step leaves alone besides the flags.\<close>

definition same_but_flags :: "rtcp_sender \<Rightarrow> rtcp_sender \<Rightarrow> bool" where
  "same_but_flags s t \<longleftrightarrow> t = s\<lparr>tx_report_flags := tx_report_flags t\<rparr>"

lemma same_but_flags_refl [simp]: "same_but_flags s s"
  by (simp add: same_but_flags_def)

lemma same_but_flags_trans: "same_but_flags s t \<Longrightarrow> same_but_flags t u \<Longrightarrow> same_but_flags s u"
  unfolding same_but_flags_def by (metis rtcp_sender.update_convs(33) rtcp_sender.surjective)

lemma SetFlag_same: "same_but_flags s (SetFlag t v s)"
  by (simp add: same_but_flags_def SetFlag_def Let_def)

lemma SetFlags_same: "same_but_flags s (SetFlags ts v s)"
  unfolding SetFlags_def using SetFlag_same same_but_flags_trans by (induction ts arbitrary: s) fastforce+

lemma ConsumeFlag_same: "ConsumeFlag t f s = (b, s') \<Longrightarrow> same_but_flags s s'"
  by (auto simp: same_but_flags_def ConsumeFlag_def split: option.splits if_splits)

lemma before_media_flags:
  assumes "sm_ok (tx_report_flags s)" "before_media s = (r, s')"
  shows "sm_ok (tx_report_flags s') \<and> lasting (tx_report_flags s') = lasting (tx_report_flags s) \<and> same_but_flags s s'"
proof -
  obtain b1 t where t: "ConsumeFlag kRtcpSr False s = (b1, t)" by fastforce
  obtain b2 u where u: "(if tx_sending t then ConsumeFlag kRtcpReport False t else (False, t)) = (b2, u)" by fastforce
  have "s' = u" using assms(2) by (auto simp: before_media_def t u split: if_splits)
  then show ?thesis
    using ConsumeFlag_flags [OF assms(1) t] ConsumeFlag_same [OF t] ConsumeFlag_flags ConsumeFlag_same u same_but_flags_trans
    by (fastforce split: if_splits)
qed

lemma schedule_next_frame:
  "tx_report_flags (schedule_next ck fs pathid s) = tx_report_flags s" "tx_method (schedule_next ck fs pathid s) = tx_method s"
  by (simp_all add: schedule_next_def Let_def split: prod.splits)

lemma choose_report_flags:
  assumes "sm_ok (tx_report_flags s)" "choose_report s = (g, t)"
  shows "sm_ok (tx_report_flags t) \<and> lasting (tx_report_flags t) = lasting (tx_report_flags s) \<and> same_but_flags s t"
proof -
  obtain b u where u: "ConsumeFlag kRtcpReport False s = (b, u)" by fastforce
  note f = ConsumeFlag_flags [OF assms(1) u] ConsumeFlag_same [OF u]
  have "t = s \<or> t = u \<or> (\<exists>x. t = SetFlag x True u)"
    using assms(2) by (auto simp: choose_report_def u Let_def split: if_splits)
  then show ?thesis using f assms(1) SetFlag_flags SetFlag_same same_but_flags_trans by auto
qed

lemma PrepareReport_flags:
  assumes "sm_ok (tx_report_flags s)"
  shows "sm_ok (tx_report_flags (PrepareReport ck fs pathid s)) \<and>
    lasting (tx_report_flags (PrepareReport ck fs pathid s)) = lasting (tx_report_flags s)"
proof -
  obtain g t where g: "choose_report s = (g, t)" by fastforce
  note t = choose_report_flags [OF assms g]
  define u where "u = (if IsFlagPresent kRtcpSr t \<or> (IsFlagPresent kRtcpRr t \<and> tx_cname t \<noteq> []) then SetFlag kRtcpSdes True t else t)"
  have u: "sm_ok (tx_report_flags u) \<and> lasting (tx_report_flags u) = lasting (tx_report_flags s)"
    using t SetFlag_flags by (simp add: u_def)
  show ?thesis unfolding PrepareReport_def g using u SetFlag_flags
    by (simp add: u_def [symmetric] Let_def schedule_next_frame)
qed

section \<open>Building\<close>

text \<open>Which packets a type of flag stands for.\<close>

fun kind :: "u32 \<Rightarrow> rtcp_packet \<Rightarrow> bool" where
  "kind t (PacketSr _) = (t = kRtcpSr)"
| "kind t (PacketRr _) = (t = kRtcpRr)"
| "kind t (PacketSdes _) = (t = kRtcpSdes)"
| "kind t (PacketPli _) = (t = kRtcpPli)"
| "kind t (PacketFir _) = (t = kRtcpFir)"
| "kind t (PacketRemb _) = (t = kRtcpRemb)"
| "kind t (PacketTmmbr _) = (t = kRtcpTmmbr)"
| "kind t (PacketTmmbn _) = (t = kRtcpTmmbn)"
| "kind t (PacketApp a) = (t \<in> {kAppSubtypeMpHalf, kAppSubtypeMpFull, kAppSubtypeQUIC, kAppSubtypeMPFrameRate,
     kAppSubtypeMpAsymmetry, kAppSubtypeMpRR1, kAppSubtypeMpRR2})"
| "kind t (PacketLossNotification _) = (t = kRtcpLossNotification)"
| "kind t (PacketNack _) = (t = kRtcpNack)"
| "kind t (PacketBye _) = (t = kRtcpBye)"
| "kind t (PacketXr _) = (t = kRtcpAnyExtendedReports)"
| "kind t (PacketTransportFeedback _) = False"

definition clocks :: "rtcp_sender \<Rightarrow> rtcp_mode \<times> bool \<times> int \<times> int" where
  "clocks s = (tx_method s, tx_audio s, tx_next_time_to_send_rtcp_p s, tx_next_time_to_send_rtcp_s s)"

lemma create_report_blocks_frame:
  "create_report_blocks q E fs s = (bs, t) \<Longrightarrow> tx_report_flags t = tx_report_flags s \<and> clocks t = clocks s"
  by (auto simp: create_report_blocks_def clocks_def split: option.splits prod.splits)

lemmas report_builders = BuildSR_def BuildRR_def MpPrimaryCreateReportBlocks_def MpSecondaryCreateReportBlocks_def
lemmas other_builders = BuildSDES_def BuildPLI_def BuildFIR_def BuildREMB_def BuildTMMBR_def BuildTMMBN_def BuildAPPQUIC_def
  BuildAPPHalf_def BuildAPPFull_def BuildAPPMPFrameRate_def BuildAPPMpAsymmetry_def BuildAPPMpRR1_def BuildAPPMpRR2_def
  BuildLossNotification_def BuildNACK_def BuildBYE_def BuildExtendedReports_def app_packet_def

definition builds :: "u32 \<Rightarrow> builder \<Rightarrow> bool" where
  "builds t f \<longleftrightarrow> (\<forall>cx q s p s'. f cx q s = Some (p, s') \<longrightarrow>
     tx_report_flags s' = tx_report_flags s \<and> clocks s' = clocks s \<and> (case p of None \<Rightarrow> True | Some x \<Rightarrow> kind t x))"

lemma builds_reports: "builds kRtcpSr BuildSR" "builds kRtcpRr BuildRR"
  by (auto simp: builds_def report_builders Let_def dest!: create_report_blocks_frame split: prod.splits)
    (simp_all add: clocks_def)

lemma builds_others:
  "builds kRtcpSdes BuildSDES" "builds kRtcpPli BuildPLI" "builds kRtcpFir BuildFIR" "builds kRtcpRemb BuildREMB"
  "builds kRtcpBye BuildBYE" "builds kRtcpLossNotification BuildLossNotification" "builds kRtcpTmmbr BuildTMMBR"
  "builds kRtcpTmmbn BuildTMMBN" "builds kRtcpNack BuildNACK" "builds kRtcpAnyExtendedReports BuildExtendedReports"
  by (auto simp: builds_def other_builders clocks_def Let_def bind_eq_Some_conv split: prod.splits option.splits if_splits)

lemma builds_app:
  "builds kAppSubtypeQUIC BuildAPPQUIC" "builds kAppSubtypeMpHalf BuildAPPHalf" "builds kAppSubtypeMpFull BuildAPPFull"
  "builds kAppSubtypeMPFrameRate BuildAPPMPFrameRate" "builds kAppSubtypeMpAsymmetry BuildAPPMpAsymmetry"
  "builds kAppSubtypeMpRR1 BuildAPPMpRR1" "builds kAppSubtypeMpRR2 BuildAPPMpRR2"
  by (auto simp: builds_def other_builders bind_eq_Some_conv)

lemma builders_build: "map_of builders t = Some f \<Longrightarrow> builds t f"
proof -
  assume "map_of builders t = Some f"
  then have "(t, f) \<in> set builders" by (rule map_of_SomeD)
  moreover have "list_all (\<lambda>(t, f). builds t f) builders"
    unfolding builders_def by (simp add: builds_reports builds_others builds_app)
  ultimately show ?thesis by (auto simp: list_all_iff)
qed

definition due :: "report_flags \<Rightarrow> u32 list" where
  "due fl = filter (\<lambda>t. t \<noteq> kRtcpBye \<and> map_of builders t \<noteq> None) (map fst fl)"

lemma due_simps [simp]:
  "due [] = []" "due (e # fl) = (if fst e \<noteq> kRtcpBye \<and> map_of builders (fst e) \<noteq> None then fst e # due fl else due fl)"
  by (simp_all add: due_def)

lemma build_packets_spec:
  "build_packets cx q fl ps bye s = Some (True, ps', bye', s') \<Longrightarrow>
    (\<exists>qs. ps' = ps @ qs \<and> list_all2 kind (due fl) qs) \<and>
    tx_report_flags s' = filter (\<lambda>x. (fst x, True) \<notin> set fl) (tx_report_flags s)"
proof (induction cx q fl ps bye s rule: build_packets.induct)
  case (2 cx q t v fl ps bye s)
  define s1 where "s1 = (if v then s\<lparr>tx_report_flags := sm_erase t (tx_report_flags s)\<rparr> else s)"
  have f: "filter (\<lambda>x. (fst x, True) \<notin> set fl) (tx_report_flags s1) =
      filter (\<lambda>x. (fst x, True) \<notin> set ((t, v) # fl)) (tx_report_flags s)"
    by (auto simp: s1_def sm_erase_def intro: filter_cong)
  show ?case
  proof (cases "map_of builders t")
    case None
    then have "build_packets cx q fl ps bye s1 = Some (True, ps', bye', s')" using 2(4) by (simp add: s1_def)
    then show ?thesis using 2(1) [OF s1_def None] None by (simp add: f del: set_simps)
  next
    case (Some func)
    then obtain packet u where u: "func cx q s1 = Some (packet, u)" using 2(4) by (auto simp: s1_def Let_def bind_eq_Some_conv)
    have "packet \<noteq> None" using 2(4) Some u by (cases packet) (simp_all add: s1_def Let_def)
    then obtain p where p: "packet = Some p" by blast
    have b: "tx_report_flags u = tx_report_flags s1" "kind t p"
      using builders_build [OF Some] u p unfolding builds_def by fastforce+
    have r: "(if t = kRtcpBye then build_packets cx q fl ps (Some p) u else build_packets cx q fl (ps @ [p]) bye u) =
      Some (True, ps', bye', s')"
      using 2(4) Some u p by (simp add: s1_def Let_def split: if_splits)
    show ?thesis
    proof (cases "t = kRtcpBye")
      case True
      then show ?thesis using 2(2) [OF s1_def Some u refl p True] r by (simp add: b(1) f del: set_simps)
    next
      case False
      then obtain qs where "ps' = (ps @ [p]) @ qs" "list_all2 kind (due fl) qs"
        "tx_report_flags s' = filter (\<lambda>x. (fst x, True) \<notin> set fl) (tx_report_flags u)"
        using 2(3) [OF s1_def Some u refl p False] r by auto
      then show ?thesis using False Some b by (auto simp: f simp del: set_simps)
    qed
  qed
qed auto

text \<open>A property of the state that every builder keeps, and a property of the packets that it then builds.\<close>

lemma build_packets_rule:
  assumes step: "\<And>t f s p s'. t \<in> T \<Longrightarrow> map_of builders t = Some f \<Longrightarrow> I s \<Longrightarrow> f cx q s = Some (p, s') \<Longrightarrow>
      I s' \<and> (\<forall>x. p = Some x \<longrightarrow> P t x)"
    and erase: "\<And>s fl. I s \<Longrightarrow> I (s\<lparr>tx_report_flags := fl\<rparr>)"
  shows "build_packets cx q fl ps bye s = Some (ok, ps', bye', s') \<Longrightarrow> fst ` set fl \<subseteq> T \<Longrightarrow> I s \<Longrightarrow>
    list_all (\<lambda>x. \<exists>t \<in> T. P t x) ps \<Longrightarrow> pred_option (P kRtcpBye) bye \<Longrightarrow>
    I s' \<and> list_all (\<lambda>x. \<exists>t \<in> T. P t x) ps' \<and> pred_option (P kRtcpBye) bye'"
proof (induction fl arbitrary: ps bye s)
  case (Cons e fl)
  obtain t v where e: "e = (t, v)" by fastforce
  define s1 where "s1 = (if v then s\<lparr>tx_report_flags := sm_erase t (tx_report_flags s)\<rparr> else s)"
  have i: "I s1" using Cons.prems(3) erase by (simp add: s1_def)
  show ?case
  proof (cases "map_of builders t")
    case None
    then have "build_packets cx q fl ps bye s1 = Some (ok, ps', bye', s')" using Cons.prems(1) by (simp add: e s1_def)
    then show ?thesis using Cons.IH i Cons.prems by (simp add: e)
  next
    case (Some f)
    then obtain p u where u: "f cx q s1 = Some (p, u)" using Cons.prems(1) by (auto simp: e s1_def Let_def bind_eq_Some_conv)
    have t: "t \<in> T" using Cons.prems(2) by (simp add: e)
    from step [OF this Some i u] have iu: "I u \<and> (\<forall>x. p = Some x \<longrightarrow> P t x)" .
    have "(case p of None \<Rightarrow> Some (False, ps, bye, u)
       | Some p \<Rightarrow> if t = kRtcpBye then build_packets cx q fl ps (Some p) u else build_packets cx q fl (ps @ [p]) bye u) =
      Some (ok, ps', bye', s')"
      using Cons.prems(1) Some u by (simp add: e s1_def Let_def)
    then show ?thesis
      using iu t Cons.prems Cons.IH [of ps "p" u] Cons.IH [of "ps @ [the p]" bye u] by (cases p) (auto simp: e split: if_splits)
  qed
qed simp

lemma build_packets_clocks:
  assumes "build_packets cx q fl ps bye s = Some (ok, ps', bye', s')"
  shows "clocks s' = clocks s"
proof -
  show ?thesis
    by (rule build_packets_rule [where T = UNIV and I = "\<lambda>t. clocks t = clocks s" and P = "\<lambda>_ _. True", OF _ _ assms, THEN conjunct1])
      (use builders_build in \<open>auto simp: builds_def clocks_def list_all_iff pred_option_def\<close>)
qed

lemma used_up:
  assumes "sm_ok fl"
  shows "filter (\<lambda>x. (fst x, True) \<notin> set fl) fl = lasting fl"
proof -
  have "((k, True) \<notin> set fl) = (\<not> v)" if "(k, v) \<in> set fl" for k v
    using map_of_sm_ok [OF assms that] map_of_sm_ok [OF assms, of k True] that by (cases v) auto
  then show ?thesis unfolding lasting_def by (intro filter_cong [OF refl]) auto
qed

section \<open>One call\<close>

definition keys :: "rtcp_sender \<Rightarrow> u32 set" where
  "keys s = fst ` set (tx_report_flags s)"

lemma IsFlagPresent_keys: "IsFlagPresent t s \<longleftrightarrow> t \<in> keys s"
  by (auto simp: IsFlagPresent_def keys_def map_of_eq_None_iff)

lemma keys_SetFlag:
  "keys (SetFlag t v s) = insert (if t AND kRtcpAnyExtendedReports \<noteq> 0 then kRtcpAnyExtendedReports else t) (keys s)"
  by (auto simp: SetFlag_def keys_def Let_def fst_set_sm_put map_of_eq_None_iff)

lemma keys_ConsumeFlag: "ConsumeFlag t f s = (b, s') \<Longrightarrow> t \<noteq> x \<Longrightarrow> x \<in> keys s' \<longleftrightarrow> x \<in> keys s"
  by (auto simp: ConsumeFlag_def keys_def sm_erase_def split: option.splits if_splits)

lemma plain_types [simp]:
  "kRtcpSr AND kRtcpAnyExtendedReports = 0" "kRtcpRr AND kRtcpAnyExtendedReports = 0"
  "kRtcpSdes AND kRtcpAnyExtendedReports = 0" "kRtcpReport AND kRtcpAnyExtendedReports = 0"
  "kRtcpAnyExtendedReports AND kRtcpAnyExtendedReports = kRtcpAnyExtendedReports"
  "kRtcpSr \<noteq> 0" "kRtcpRr \<noteq> 0" "kRtcpSdes \<noteq> 0" "kRtcpReport \<noteq> 0" "kRtcpAnyExtendedReports \<noteq> 0"
  by (simp_all add: sender_types)

text \<open>Types that are raised by a caller only, never by the sender itself.\<close>

definition caller_type :: "u32 \<Rightarrow> bool" where
  "caller_type x \<longleftrightarrow> x \<notin> {kRtcpSr, kRtcpRr, kRtcpSdes, kRtcpReport} \<and> x AND kRtcpAnyExtendedReports = 0"

lemma caller_typeD:
  assumes "caller_type x"
  shows "kRtcpSr \<noteq> x" "kRtcpRr \<noteq> x" "kRtcpSdes \<noteq> x" "kRtcpReport \<noteq> x" "x \<noteq> kRtcpAnyExtendedReports"
    "x AND kRtcpAnyExtendedReports = 0"
  using assms plain_types(5,10) by (auto simp: caller_type_def)

lemma keys_SetFlag_caller: "caller_type x \<Longrightarrow> x \<in> keys (SetFlag t v s) \<longleftrightarrow> x \<in> keys s \<or> x = t"
  using caller_typeD(5,6) [of x] by (auto simp: keys_SetFlag)

lemma keys_SetFlags: "caller_type x \<Longrightarrow> x \<in> keys (SetFlags ts v s) \<longleftrightarrow> x \<in> keys s \<or> x \<in> set ts"
  using keys_SetFlag_caller by (induction ts arbitrary: s) (auto simp: SetFlags_def)

lemma before_media_keys:
  assumes "before_media s = (r, s')" "caller_type x"
  shows "x \<in> keys s' \<longleftrightarrow> x \<in> keys s"
proof -
  obtain b1 t where t: "ConsumeFlag kRtcpSr False s = (b1, t)" by fastforce
  obtain b2 u where u: "(if tx_sending t then ConsumeFlag kRtcpReport False t else (False, t)) = (b2, u)" by fastforce
  have "x \<in> keys u \<longleftrightarrow> x \<in> keys t"
  proof (cases "tx_sending t")
    case True
    then have "ConsumeFlag kRtcpReport False t = (b2, u)" using u by simp
    then show ?thesis by (rule keys_ConsumeFlag) (rule caller_typeD(4) [OF assms(2)])
  qed (use u in simp)
  moreover have "x \<in> keys t \<longleftrightarrow> x \<in> keys s" using t by (rule keys_ConsumeFlag) (rule caller_typeD(1) [OF assms(2)])
  moreover have "s' = u" using assms(1) by (auto simp: before_media_def t u split: if_splits)
  ultimately show ?thesis by simp
qed

lemma choose_report_keys:
  assumes "choose_report s = (g, t)"
  shows "caller_type x \<Longrightarrow> x \<in> keys t \<longleftrightarrow> x \<in> keys s" "tx_method s = kCompound \<Longrightarrow> kRtcpSr \<in> keys t \<or> kRtcpRr \<in> keys t"
proof -
  obtain b u where u: "ConsumeFlag kRtcpReport False s = (b, u)" by fastforce
  have m: "tx_method u = tx_method s" using u by (auto simp: ConsumeFlag_def split: option.splits if_splits)
  show "x \<in> keys t \<longleftrightarrow> x \<in> keys s" if "caller_type x"
    using assms keys_ConsumeFlag [OF u caller_typeD(4) [OF that]] keys_SetFlag_caller [OF that] caller_typeD [OF that]
    by (auto simp: choose_report_def u Let_def split: if_splits)
  show "tx_method s = kCompound \<Longrightarrow> kRtcpSr \<in> keys t \<or> kRtcpRr \<in> keys t" using assms m
    by (auto simp: choose_report_def u Let_def keys_SetFlag IsFlagPresent_keys split: if_splits)
qed

lemma PrepareReport_keys:
  "caller_type x \<Longrightarrow> x \<in> keys (PrepareReport ck fs q s) \<longleftrightarrow> x \<in> keys s"
  "tx_method s = kCompound \<Longrightarrow> kRtcpSr \<in> keys (PrepareReport ck fs q s) \<or> kRtcpRr \<in> keys (PrepareReport ck fs q s)"
proof -
  obtain g t where g: "choose_report s = (g, t)" by fastforce
  define v where "v = (if IsFlagPresent kRtcpSr t \<or> (IsFlagPresent kRtcpRr t \<and> tx_cname t \<noteq> []) then SetFlag kRtcpSdes True t else t)"
  define w where "w = (if g \<and> (\<not> tx_sending v \<and> tx_xr_send_receiver_reference_time_enabled v \<or>
      fs_last_xr_rtis fs \<noteq> [] \<or> tx_send_video_bitrate_allocation v) then SetFlag kRtcpAnyExtendedReports True v else v)"
  have k: "keys (PrepareReport ck fs q s) = keys w"
    unfolding PrepareReport_def g by (simp add: v_def [symmetric] w_def Let_def schedule_next_frame keys_def)
  have "keys t \<subseteq> keys v" "keys v \<subseteq> keys w" by (auto simp: v_def w_def keys_SetFlag)
  then show "tx_method s = kCompound \<Longrightarrow> kRtcpSr \<in> keys (PrepareReport ck fs q s) \<or> kRtcpRr \<in> keys (PrepareReport ck fs q s)"
    using choose_report_keys(2) [OF g] k by blast
  show "x \<in> keys (PrepareReport ck fs q s) \<longleftrightarrow> x \<in> keys s" if "caller_type x"
    using choose_report_keys(1) [OF g that] caller_typeD [OF that] keys_SetFlag_caller [OF that]
    by (auto simp: k v_def w_def)
qed

lemma same_but_flags_fields:
  assumes "same_but_flags s t"
  shows "tx_method t = tx_method s" "tx_sending t = tx_sending s" "tx_audio t = tx_audio s"
    "tx_report_interval_ms t = tx_report_interval_ms s" "tx_next_time_to_send_rtcp_p t = tx_next_time_to_send_rtcp_p s"
    "tx_next_time_to_send_rtcp_s t = tx_next_time_to_send_rtcp_s s"
  using assms unfolding same_but_flags_def by (metis rtcp_sender.select_convs rtcp_sender.surjective rtcp_sender.update_convs(33))+

lemma begin_call_flags:
  assumes "begin_call ck ts s = (r, u)" "sm_ok (tx_report_flags s)"
  shows "sm_ok (tx_report_flags u)" "lasting (tx_report_flags u) = lasting (tx_report_flags s)"
    "caller_type x \<Longrightarrow> x \<in> keys u \<longleftrightarrow> x \<in> keys s \<or> x \<in> set ts" "\<exists>s2. same_but_flags s s2 \<and> (u = s2 \<or> (\<exists>c. u = s2\<lparr>tx_packet_type_counter := c\<rparr>))"
proof -
  let ?s1 = "SetFlags ts True s"
  obtain r' s2 where s2: "(if \<not> tx_last_frame_capture_time_ms ?s1 \<ge> 0 then before_media ?s1 else (None, ?s1)) = (r', s2)"
    by fastforce
  note f1 = SetFlags_flags [OF assms(2), of ts] SetFlags_same [of s ts True]
  have f2: "sm_ok (tx_report_flags s2) \<and> lasting (tx_report_flags s2) = lasting (tx_report_flags ?s1) \<and> same_but_flags ?s1 s2"
    using s2 f1(1) before_media_flags [of ?s1 r' s2] by (simp split: if_splits)
  have u: "u = s2 \<or> (\<exists>c. u = s2\<lparr>tx_packet_type_counter := c\<rparr>)"
    using assms(1) s2 by (auto simp: begin_call_def Let_def split: if_splits)
  then show "\<exists>s2. same_but_flags s s2 \<and> (u = s2 \<or> (\<exists>c. u = s2\<lparr>tx_packet_type_counter := c\<rparr>))"
    using f1 f2 same_but_flags_trans by blast
  show "sm_ok (tx_report_flags u)" "lasting (tx_report_flags u) = lasting (tx_report_flags s)"
    using f1 f2 u by auto
  show "x \<in> keys u \<longleftrightarrow> x \<in> keys s \<or> x \<in> set ts" if "caller_type x"
  proof -
    have "x \<in> keys s2 \<longleftrightarrow> x \<in> keys ?s1" using s2 before_media_keys [OF _ that] by (auto split: if_splits)
    then show ?thesis using u keys_SetFlags [OF that, of ts True s] by (auto simp: keys_def)
  qed
qed

text \<open>The state before the report is prepared, and what the rest of a call does with it.\<close>

lemma compute_steps:
  assumes "ComputeCompoundRTCPPacket E fs ts ids q s = Some (None, ps, s')" "sm_ok (tx_report_flags s)"
  obtains u ps' bye where "begin_call (en_clock E) ts s = (None, u)" "tx_method s \<noteq> kOff"
    "ps = ps' @ (case bye of None \<Rightarrow> [] | Some p \<Rightarrow> [p])"
    "list_all2 kind (due (tx_report_flags (PrepareReport (en_clock E) fs q u))) ps'"
    "tx_report_flags s' = lasting (tx_report_flags s)"
    "\<exists>t. build_packets \<lparr>cx_env = E, cx_feedback_state = fs, cx_nack_list = ids\<rparr> q
       (tx_report_flags (PrepareReport (en_clock E) fs q u)) [] None (PrepareReport (en_clock E) fs q u) = Some (True, ps', bye, t) \<and>
       s' = notify_counter t"
proof -
  obtain r u where u: "begin_call (en_clock E) ts s = (r, u)" by fastforce
  have on: "tx_method s \<noteq> kOff" "r = None" using assms(1) u
    by (auto simp: ComputeCompoundRTCPPacket_def split: if_splits)
  let ?p = "PrepareReport (en_clock E) fs q u"
  have fu: "sm_ok (tx_report_flags u)" "lasting (tx_report_flags u) = lasting (tx_report_flags s)"
    using begin_call_flags [OF u assms(2)] by blast+
  note fp = PrepareReport_flags [OF fu(1), of "en_clock E" fs q]
  obtain ps' bye t where b: "build_packets \<lparr>cx_env = E, cx_feedback_state = fs, cx_nack_list = ids\<rparr> q
      (tx_report_flags ?p) [] None ?p = Some (True, ps', bye, t)"
    and e: "ps = ps' @ (case bye of None \<Rightarrow> [] | Some p \<Rightarrow> [p])" "s' = notify_counter t"
    using assms(1) u on by (auto simp: ComputeCompoundRTCPPacket_def Let_def bind_eq_Some_conv split: if_splits)
  have "tx_report_flags s' = tx_report_flags t" by (simp add: e(2) notify_counter_def)
  then show thesis
    using that u [unfolded on(2)] on(1) e b build_packets_spec [OF b] used_up [OF fp [THEN conjunct1]] fp fu(2) by simp
qed

lemma sm_ok_due: "sm_ok fl \<Longrightarrow> sorted_wrt (<) (due fl)"
  by (simp add: sm_ok_def due_def sorted_wrt_filter)

text \<open>The smallest types with a builder are the half signal, the sender report and the receiver report.\<close>

lemma small_types:
  assumes "map_of builders t \<noteq> None" "t \<le> kRtcpRr"
  shows "t = 0 \<or> t = kRtcpSr \<or> t = kRtcpRr"
proof -
  have "t \<in> fst ` set builders" using assms(1) by (simp add: map_of_eq_None_iff)
  then show ?thesis using assms(2) by (auto simp: builders_def sender_types)
qed

lemma due_head:
  assumes "sm_ok fl" "kRtcpSr \<in> fst ` set fl \<or> kRtcpRr \<in> fst ` set fl"
  shows "\<exists>h rest. due fl = h # rest \<and> (h = 0 \<and> 0 \<in> fst ` set fl \<or> (h = kRtcpSr \<or> h = kRtcpRr) \<and> 0 \<notin> fst ` set fl)"
proof -
  obtain t where t: "t \<in> fst ` set fl" "t = kRtcpSr \<or> t = kRtcpRr" using assms(2) by blast
  have b: "map_of builders t \<noteq> None" "t \<noteq> kRtcpBye" "t \<le> kRtcpRr" "map_of builders 0 \<noteq> None" "0 \<noteq> kRtcpBye"
    using t(2) by (auto simp: builders_def sender_types)
  have m: "t \<in> set (due fl)" using t b by (auto simp: due_def)
  then obtain h rest where d: "due fl = h # rest" by (cases "due fl") auto
  have least: "h \<le> x" if "x \<in> set (due fl)" for x using sm_ok_due [OF assms(1)] that by (auto simp: d)
  have "h \<in> set (due fl)" by (simp add: d)
  then have h: "map_of builders h \<noteq> None" "h \<in> fst ` set fl" by (auto simp: due_def)
  have "h = 0 \<or> h = kRtcpSr \<or> h = kRtcpRr" using small_types [OF h(1)] least [OF m] b(3) by simp
  moreover have "h = 0" if "0 \<in> fst ` set fl"
    using least [of 0] that b by (auto simp: due_def)
  ultimately show ?thesis using d h(2) by (cases "h = 0") auto
qed

section \<open>An example\<close>

definition example_env :: rtcp_env where
  "example_env =
     \<lparr>en_clock = \<lparr>ck_us = 100000000, ck_ms = 100000, ck_utc_us = 0, ck_ntp_offset_ms = 0\<rparr>,
      en_mp = mp_init (Fin 0) (Fin 0) 0 0, en_transport = (\<lambda>_. True), en_heap = [0, 0, 0, 0], en_stale = [0, 0, 0, 0],
      en_receiver_config = \<lparr>rc_receiver_only = False, rc_main_ssrc = 5, rc_registered_ssrcs = [5],
        rc_report_interval_ms = 1000, rc_bandwidth_observer = False, rc_intra_frame_observer = False,
        rc_loss_notification_observer = False, rc_network_state_estimate_observer = False,
        rc_transport_feedback_observer = False, rc_bitrate_allocation_observer = False, rc_stats_callback = False,
        rc_cname_callback = False, rc_report_block_data_observer = False, rc_packet_type_counter_observer = False\<rparr>,
      en_find_bounding_set = id\<rparr>"

definition example_rtcp_sender :: rtcp_sender where
  "example_rtcp_sender = SetLastRtpTime (en_clock example_env) 900 0 96
     (SetFlag kRtcpRemb False (SetRTCPStatus (en_clock example_env) kCompound
       (rtcp_sender_new False 7 0 (en_clock example_env) None False)))"

text \<open>
  A call that builds its packets uses up every flag that was raised for one call only and keeps exactly the
  lasting ones (REMB and TMMBR while they are switched on), whatever flags were pending.
\<close>

lemma flags_used_up:
  assumes "sm_ok (tx_report_flags s)" "ComputeCompoundRTCPPacket E fs ts ids pathid s = Some (None, ps, s')"
  shows "AllVolatileFlagsConsumed s' \<and> tx_report_flags s' = filter (\<lambda>(_, is_volatile). \<not> is_volatile) (tx_report_flags s)"
proof -
  have "tx_report_flags s' = lasting (tx_report_flags s)" using assms(2,1) by (rule compute_steps)
  then show ?thesis by (auto simp: AllVolatileFlagsConsumed_def lasting_def list_all_iff)
qed

lemma flags_used_up_witness:
  "\<exists>ps s'. ComputeCompoundRTCPPacket example_env FeedbackState_new [kRtcpPli, kRtcpBye] [] 1 example_rtcp_sender = Some (None, ps, s') \<and>
    tx_report_flags s' = [(kRtcpRemb, False)]"
proof -
  let ?r = "ComputeCompoundRTCPPacket example_env FeedbackState_new [kRtcpPli, kRtcpBye] [] 1 example_rtcp_sender"
  have "map_option fst ?r = Some None" by code_simp
  then obtain ps s' where "?r = Some (None, ps, s')" by fastforce
  moreover have "sm_ok (tx_report_flags example_rtcp_sender)" "filter (\<lambda>(_, v). \<not> v) (tx_report_flags example_rtcp_sender) = [(kRtcpRemb, False)]"
    by code_simp+
  ultimately show ?thesis using flags_used_up [of example_rtcp_sender example_env FeedbackState_new "[kRtcpPli, kRtcpBye]" "[]" 1 ps s'] by simp
qed

text \<open>
  C18: in compound mode every compound packet starts with a sender or receiver report, as RFC 3550 demands, except when a
  half signal is due: its type is zero, the smallest of all, so the application packet that carries it comes first.
\<close>

theorem compound_starts_with_report:
  assumes "tx_method s = kCompound" "sm_ok (tx_report_flags s)"
    "ComputeCompoundRTCPPacket E fs ts ids pathid s = Some (None, ps, s')"
  shows "ps \<noteq> [] \<and>
    (if IsFlagPresent kAppSubtypeMpHalf s \<or> kAppSubtypeMpHalf \<in> set ts then \<exists>a. hd ps = PacketApp a
     else (\<exists>r. hd ps = PacketSr r) \<or> (\<exists>r. hd ps = PacketRr r))"
  using assms(3,2)
proof (rule compute_steps)
  fix u ps' bye
  assume u: "begin_call (en_clock E) ts s = (None, u)" and ps: "ps = ps' @ (case bye of None \<Rightarrow> [] | Some p \<Rightarrow> [p])"
    and k: "list_all2 kind (due (tx_report_flags (PrepareReport (en_clock E) fs pathid u))) ps'"
  let ?p = "PrepareReport (en_clock E) fs pathid u"
  note f = begin_call_flags [OF u assms(2)]
  have m: "tx_method u = kCompound" using f(4) assms(1) same_but_flags_fields(1) by fastforce
  have "sm_ok (tx_report_flags ?p)" using PrepareReport_flags [OF f(1)] by blast
  then obtain h rest where d: "due (tx_report_flags ?p) = h # rest"
    "h = 0 \<and> 0 \<in> keys ?p \<or> (h = kRtcpSr \<or> h = kRtcpRr) \<and> 0 \<notin> keys ?p"
    using due_head PrepareReport_keys(2) [OF m] unfolding keys_def by blast
  then obtain p qs where p: "ps' = p # qs" "kind h p" using k by (auto simp: list_all2_Cons1)
  have "0 \<in> keys ?p \<longleftrightarrow> IsFlagPresent kAppSubtypeMpHalf s \<or> kAppSubtypeMpHalf \<in> set ts"
    using f(3) [of 0] PrepareReport_keys(1) [of 0] by (simp add: caller_type_def sender_types IsFlagPresent_keys)
  then show ?thesis using d(2) p ps
    by (cases p) (auto simp: sender_types)
qed

theorem compound_starts_with_report_witness:
  "(\<exists>ps s' r. ComputeCompoundRTCPPacket example_env FeedbackState_new [kRtcpPli] [] 1 example_rtcp_sender = Some (None, ps, s') \<and>
     (hd ps = PacketSr r \<or> (\<exists>r. hd ps = PacketRr r))) \<and>
   (\<exists>ps s' a. ComputeCompoundRTCPPacket example_env FeedbackState_new [kAppSubtypeMpHalf] [] 1 example_rtcp_sender = Some (None, ps, s') \<and>
     hd ps = PacketApp a)"
proof -
  let ?r = "\<lambda>t. ComputeCompoundRTCPPacket example_env FeedbackState_new [t] [] 1 example_rtcp_sender"
  have "map_option fst (?r kRtcpPli) = Some None" "map_option fst (?r kAppSubtypeMpHalf) = Some None" by code_simp+
  then obtain ps1 s1 ps2 s2 where r: "?r kRtcpPli = Some (None, ps1, s1)" "?r kAppSubtypeMpHalf = Some (None, ps2, s2)" by fastforce
  have c: "tx_method example_rtcp_sender = kCompound" "sm_ok (tx_report_flags example_rtcp_sender)"
    "\<not> IsFlagPresent kAppSubtypeMpHalf example_rtcp_sender" "kAppSubtypeMpHalf \<noteq> kRtcpPli" by code_simp+
  show ?thesis using compound_starts_with_report [OF c(1,2) r(1)] compound_starts_with_report [OF c(1,2) r(2)] r c(3,4) by auto
qed

section \<open>Times of reports\<close>

lemma u64_product: "uint ((ucast x :: u64) * (ucast (t :: u32) + 1)) = uint (x :: u32) * (uint t + 1)"
proof -
  have x: "uint x \<le> 2 ^ 32 - 1" "0 \<le> uint x" "uint t \<le> 2 ^ 32 - 1" "0 \<le> uint t"
    using uint_lt2p [of x] uint_lt2p [of t] by simp_all
  have t: "uint (ucast t + 1 :: u64) = uint t + 1"
    using x by (simp add: uint_word_ariths uint_up_ucast is_up mod_pos_pos_trivial)
  have "uint x * (uint t + 1) \<le> (2 ^ 32 - 1) * (uint t + 1)" using x by (intro mult_right_mono) simp_all
  also have "\<dots> \<le> (2 ^ 32 - 1) * 2 ^ 32" using x by (intro mult_left_mono) simp_all
  finally have "uint x * (uint t + 1) < 2 ^ 64" by simp
  moreover have "uint ((ucast x :: u64) * (ucast t + 1)) = uint x * (uint t + 1) mod 2 ^ 64"
    using t by (simp only: uint_word_ariths(3) uint_up_ucast is_up) (simp add: uint_up_ucast is_up)
  ultimately show ?thesis using x by simp
qed

lemma scaled_le:
  fixes x t :: int
  assumes "0 \<le> x" "x < 2 ^ 32" "0 \<le> t"
  shows "x * (t + 1) div 2 ^ 32 \<le> t"
proof -
  have "x * (t+1) < 2^32 * (t+1)" using assms by (intro mult_strict_right_mono) simp_all
  then have "x * (t + 1) div 2^32 < t + 1" by (simp add: int_div_less_self div_less_iff_less_mult mult.commute)
  then show ?thesis by simp
qed

lemma high_half_le:
  fixes y :: u64 and t :: u32
  assumes "uint y div 2 ^ 32 \<le> uint t"
  shows "uint (ucast (drop_bit 32 y) :: u32) \<le> uint t"
proof -
  have "uint (drop_bit 32 y) = uint y div 2^32" by (simp add: drop_bit_eq_div uint_div_distrib)
  moreover have "take_bit 32 (uint y div 2 ^ 32) = uint y div 2 ^ 32"
    using assms uint_lt2p [of t] by (intro take_bit_int_eq_self) (simp_all add: pos_imp_zdiv_nonneg_iff)
  ultimately show ?thesis using assms by (simp add: unsigned_ucast_eq)
qed

lemma Rand_upto_le: "uint (fst (Rand_upto t state)) \<le> uint t"
proof -
  define x :: u32 where "x = ucast (fst (NextOutput state))"
  have "uint x < 2 ^ 32" using uint_lt2p [of x] by simp
  then have "uint (ucast (drop_bit 32 ((ucast x :: u64) * (ucast t + 1))) :: u32) \<le> uint t"
    by (intro high_half_le) (simp only: u64_product, rule scaled_le, simp_all)
  then show ?thesis by (simp add: Rand_upto_def x_def case_prod_beta)
qed

lemma Rand_between_bounds:
  assumes "low \<le> high" "high - low < 2 ^ 32"
  shows "low \<le> fst (Rand_between low high state)" "fst (Rand_between low high state) \<le> high"
proof -
  have "uint (word_of_int (high - low) :: u32) = high - low"
    using assms by (simp only: uint_word_of_int) (simp add: take_bit_int_eq_self)
  then have "uint (fst (Rand_upto (word_of_int (high - low)) state)) \<le> high - low"
    using Rand_upto_le [of "word_of_int (high - low)" state] by (simp only:)
  moreover have "fst (Rand_between low high state) = uint (fst (Rand_upto (word_of_int (high - low)) state)) + low"
    by (simp add: Rand_between_def split: prod.splits)
  ultimately show "low \<le> fst (Rand_between low high state)" "fst (Rand_between low high state) \<le> high" by simp_all
qed

lemma report_interval_bounds:
  assumes "0 \<le> tx_report_interval_ms s"
  shows "0 \<le> report_interval fs s" "report_interval fs s \<le> tx_report_interval_ms s"
proof -
  have "0 \<le> 360000 sdiv b" if "0 \<le> b" for b :: int
    using that by (simp add: signed_divide_int_def sgn_if pos_imp_zdiv_nonneg_iff)
  from this [of "uint (fs_send_bitrate fs div 1000)"] show "0 \<le> report_interval fs s" "report_interval fs s \<le> tx_report_interval_ms s"
    using assms by (auto simp: report_interval_def Let_def)
qed

lemma schedule_next_times:
  assumes "0 \<le> tx_report_interval_ms s" "tx_report_interval_ms s < 2 ^ 31"
  shows "\<exists>t. ck_ms ck + report_interval fs s div 2 \<le> t \<and> t \<le> ck_ms ck + 3 * report_interval fs s div 2 \<and>
    clocks (schedule_next ck fs q s) = (tx_method s, tx_audio s,
      if q \<noteq> 2 then t else tx_next_time_to_send_rtcp_p s, if q \<noteq> 2 then tx_next_time_to_send_rtcp_s s else t)"
proof -
  let ?i = "report_interval fs s"
  have i: "0 \<le> ?i" "?i < 2 ^ 31" using report_interval_bounds [OF assms(1), of fs] assms(2) by auto
  have d: "?i * 1 sdiv 2 = ?i div 2" "?i * 3 sdiv 2 = 3 * ?i div 2"
    using i by (simp_all add: signed_divide_int_def sgn_if mult.commute)
  let ?r = "fst (Rand_between (?i div 2) (3 * ?i div 2) (tx_random s))"
  have "?i div 2 \<le> 3 * ?i div 2" "3 * ?i div 2 - ?i div 2 < 2 ^ 32" using i by (simp_all add: zdiv_mono1)
  note b = Rand_between_bounds [OF this, of "tx_random s"]
  have "clocks (schedule_next ck fs q s) = (tx_method s, tx_audio s,
      if q \<noteq> 2 then ck_ms ck + ?r else tx_next_time_to_send_rtcp_p s, if q \<noteq> 2 then tx_next_time_to_send_rtcp_s s else ck_ms ck + ?r)"
    unfolding schedule_next_def Let_def d by (simp add: clocks_def case_prod_beta)
  then show ?thesis using b by (intro exI [of _ "ck_ms ck + ?r"]) simp
qed

lemma same_but_flags_clocks:
  assumes "same_but_flags s t"
  shows "clocks t = clocks s \<and> report_interval fs t = report_interval fs s"
  using same_but_flags_fields [OF assms] by (simp add: clocks_def report_interval_def Let_def)

lemma PrepareReport_times:
  assumes "kRtcpReport \<in> keys s" "tx_method s \<noteq> kOff" "0 \<le> tx_report_interval_ms s" "tx_report_interval_ms s < 2 ^ 31"
  shows "\<exists>t. ck_ms ck + report_interval fs s div 2 \<le> t \<and> t \<le> ck_ms ck + 3 * report_interval fs s div 2 \<and>
    clocks (PrepareReport ck fs q s) = (tx_method s, tx_audio s,
      if q \<noteq> 2 then t else tx_next_time_to_send_rtcp_p s, if q \<noteq> 2 then tx_next_time_to_send_rtcp_s s else t)"
proof -
  obtain b u where u: "ConsumeFlag kRtcpReport False s = (b, u)" by fastforce
  have "b" "tx_method u = tx_method s"
    using assms(1) u by (auto simp: ConsumeFlag_def keys_def map_of_eq_None_iff split: option.splits if_splits)
  then have "fst (choose_report s)" using assms(2) by (cases "tx_method s") (auto simp: choose_report_def u Let_def)
  then obtain t where t: "choose_report s = (True, t)" by (metis (full_types) prod.collapse)
  have st: "same_but_flags s t"
    using t SetFlag_same same_but_flags_trans ConsumeFlag_same [OF u]
    by (auto simp: choose_report_def u Let_def split: if_splits)
  define v where "v = (if IsFlagPresent kRtcpSr t \<or> (IsFlagPresent kRtcpRr t \<and> tx_cname t \<noteq> []) then SetFlag kRtcpSdes True t else t)"
  define w where "w = (if \<not> tx_sending v \<and> tx_xr_send_receiver_reference_time_enabled v \<or>
      fs_last_xr_rtis fs \<noteq> [] \<or> tx_send_video_bitrate_allocation v then SetFlag kRtcpAnyExtendedReports True v else v)"
  have "same_but_flags t v" "same_but_flags v w" by (simp_all add: v_def w_def SetFlag_same)
  then have sw: "same_but_flags s w" using st same_but_flags_trans by blast
  have "PrepareReport ck fs q s = schedule_next ck fs q w"
    unfolding PrepareReport_def t by (simp add: v_def [symmetric] w_def Let_def)
  then show ?thesis
    using schedule_next_times [of w ck fs q] assms(3,4)
    unfolding same_but_flags_fields [OF sw] same_but_flags_clocks [OF sw, THEN conjunct2] by simp
qed

lemma SendCompoundRTCP_clocks:
  assumes "SendCompoundRTCP E fs ts ids q s = Some (r, s')" "begin_call (en_clock E) ts s = (None, u)" "tx_method s \<noteq> kOff"
  shows "clocks s' = clocks (PrepareReport (en_clock E) fs q u)"
proof -
  obtain result packets t where t: "ComputeCompoundRTCPPacket E fs ts ids q s = Some (result, packets, t)"
    and s': "s' = t \<or> (\<exists>n mx. SendPackets E mx q packets t = Some (n, s'))"
    using assms(1) by (auto simp: SendCompoundRTCP_def bind_eq_Some_conv split: option.splits) blast
  obtain ok ps bye v where "build_packets \<lparr>cx_env = E, cx_feedback_state = fs, cx_nack_list = ids\<rparr> q
      (tx_report_flags (PrepareReport (en_clock E) fs q u)) [] None (PrepareReport (en_clock E) fs q u) = Some (ok, ps, bye, v)"
    "t = v \<or> t = notify_counter v"
    using t assms(2,3) by (auto simp: ComputeCompoundRTCPPacket_def Let_def bind_eq_Some_conv split: if_splits)
  moreover have "clocks s' = clocks t" using s'
    by (auto simp: SendPackets_def transmit_def clocks_def bind_eq_Some_conv split: if_splits)
  moreover have "clocks (notify_counter v) = clocks v" by (simp add: notify_counter_def clocks_def)
  ultimately show ?thesis using build_packets_clocks by metis
qed



end
