(* ===== verification/CompoundWire.thy ===== *)
theory CompoundWire
  imports RtcpCompound ReceiverSafety Delivery
begin

text \<open>
  The packets of one call of the RTCP sender on the wire: the datagrams hold the blocks of the packets, in
  their order, and from each block the receiver parses the packet it came from. Every packet class adds its block by the
  contract of \<open>rtcp_codec\<close>; a request for packets may be cut into several blocks.
\<close>

section \<open>Blocks on the wire\<close>

text \<open>\<open>is_block e h\<close>: the bytes \<open>e\<close> are one block with the header \<open>h\<close>, whatever follows them.\<close>

definition is_block :: "bytes \<Rightarrow> common_header \<Rightarrow> bool" where
  "is_block e h \<longleftrightarrow> (\<forall>rest. CommonHeader_Parse (e @ rest) = Some (Gives h)) \<and> packet_size h = length e"

definition blocks :: "bytes \<Rightarrow> common_header list \<Rightarrow> bool" where
  "blocks w hs \<longleftrightarrow> (\<exists>es. w = concat es \<and> list_all2 is_block es hs)"

definition datagrams :: "nat \<Rightarrow> bytes list \<Rightarrow> common_header list \<Rightarrow> bool" where
  "datagrams mx ws hs \<longleftrightarrow>
     (\<exists>hss. hs = concat hss \<and> list_all2 (\<lambda>w hs. w \<noteq> [] \<and> length w \<le> mx \<and> blocks w hs) ws hss)"

text \<open>A buffer while packets are put in: the datagrams handed over and the one being filled.\<close>

definition holds :: "nat \<Rightarrow> out_buffer \<Rightarrow> common_header list \<Rightarrow> bool" where
  "holds mx ob hs \<longleftrightarrow>
     (\<exists>hs1 hs2. hs = hs1 @ hs2 \<and> datagrams mx (ob_sent ob) hs1 \<and> length (ob_data ob) \<le> mx \<and> blocks (ob_data ob) hs2)"

lemma blocks_Nil: "blocks [] []"
  by (auto simp: blocks_def intro: exI [of _ "[]"])

lemma blocks_append: "blocks w hs \<Longrightarrow> is_block e h \<Longrightarrow> blocks (w @ e) (hs @ [h])"
proof -
  assume "blocks w hs" "is_block e h"
  then obtain es where "w = concat es" "list_all2 is_block (es @ [e]) (hs @ [h])"
    by (auto simp: blocks_def intro: list_all2_appendI)
  then show ?thesis unfolding blocks_def by (intro exI [of _ "es @ [e]"]) simp
qed

lemma datagrams_append:
  "datagrams mx ws hs \<Longrightarrow> w \<noteq> [] \<Longrightarrow> length w \<le> mx \<Longrightarrow> blocks w hs' \<Longrightarrow> datagrams mx (ws @ [w]) (hs @ hs')"
proof -
  assume "datagrams mx ws hs" "w \<noteq> []" "length w \<le> mx" "blocks w hs'"
  then obtain hss where "hs = concat hss"
    "list_all2 (\<lambda>w hs. w \<noteq> [] \<and> length w \<le> mx \<and> blocks w hs) (ws @ [w]) (hss @ [hs'])"
    by (auto simp: datagrams_def intro!: list_all2_appendI)
  then show ?thesis unfolding datagrams_def by (intro exI [of _ "hss @ [hs']"]) simp
qed

lemma holds_empty: "holds mx \<lparr>ob_data = [], ob_sent = []\<rparr> []"
  by (simp add: holds_def datagrams_def blocks_Nil)

lemma holds_flushed:
  assumes "holds mx ob hs" "ob_data ob \<noteq> []"
  shows "holds mx (ob\<lparr>ob_data := [], ob_sent := ob_sent ob @ [ob_data ob]\<rparr>) hs"
proof -
  obtain hs1 hs2 where h: "hs = hs1 @ hs2" "datagrams mx (ob_sent ob) hs1" "length (ob_data ob) \<le> mx" "blocks (ob_data ob) hs2"
    using assms(1) by (auto simp: holds_def)
  then have "datagrams mx (ob_sent ob @ [ob_data ob]) hs" using assms(2) by (simp add: datagrams_append)
  then show ?thesis using blocks_Nil by (auto simp: holds_def)
qed

lemma holds_written:
  assumes "holds mx ob hs" "is_block e h" "length (ob_data ob) + length e \<le> mx"
  shows "holds mx (ob\<lparr>ob_data := ob_data ob @ e\<rparr>) (hs @ [h])"
  using assms unfolding holds_def by (fastforce intro: blocks_append)

lemma blocks_Nil_iff: "blocks [] hs \<longleftrightarrow> hs = []"
proof (cases hs)
  case (Cons h hs')
  then show ?thesis by (auto simp: blocks_def list_all2_Cons2 is_block_def packet_size_def kHeaderLength_def)
qed (simp add: blocks_Nil)

lemma holds_flush: "holds mx ob hs \<Longrightarrow> datagrams mx (ob_sent (flush ob)) hs"
  using holds_flushed [of mx ob hs]
  by (cases "ob_data ob = []") (auto simp: holds_def flush_def OnBufferFull_def blocks_Nil_iff)

text \<open>A packet class that keeps its contract adds one block, from which the receiver parses the packet.\<close>

definition one_block :: "u8 \<Rightarrow> nat \<Rightarrow> int \<Rightarrow> (common_header \<Rightarrow> 'p outcome option) \<Rightarrow> 'p \<Rightarrow> common_header list \<Rightarrow> bool" where
  "one_block ty cnt pathid parse x hs \<longleftrightarrow>
     (\<exists>h. hs = [h] \<and> ch_type h = ty \<and> ch_count h = cnt \<and> ch_pathid h = pathid \<and> parse h = Some (Gives x))"

context rtcp_codec
begin

lemma is_block_enc: "valid x \<Longrightarrow> is_block (enc x) (hdr x)"
  by (simp add: is_block_def header_enc header_size enc_length)

lemma create_holds:
  assumes "valid x" "block_length x \<le> mx" "holds mx ob hs"
  shows "\<exists>ob' H. create x mx ob = Some (Gives ob') \<and> holds mx ob' (hs @ H) \<and>
    one_block (ch_type (hdr x)) (ch_count (hdr x)) (ch_pathid (hdr x)) parse (norm x) H"
proof -
  have "\<exists>ob'. create x mx ob = Some (Gives ob') \<and> holds mx ob' (hs @ [hdr x])"
    using holds_written [OF assms(3) is_block_enc [OF assms(1)]]
      holds_written [OF holds_flushed [OF assms(3)] is_block_enc [OF assms(1)]] assms(1,2) enc_length [OF assms(1)]
    by (auto simp: create_enc make_room_eq)
  moreover have "one_block (ch_type (hdr x)) (ch_count (hdr x)) (ch_pathid (hdr x)) parse (norm x) [hdr x]"
    by (simp add: one_block_def parse_hdr [OF assms(1)])
  ultimately show ?thesis by blast
qed

end

section \<open>What the receiver gets to see of a packet\<close>

text \<open>A request for packets may be cut into several blocks.\<close>

definition nack_blocks :: "Nack \<Rightarrow> common_header list \<Rightarrow> bool" where
  "nack_blocks p hs \<longleftrightarrow>
     (\<exists>ns. list_all2 (\<lambda>h n. ch_type h = kRtpfb \<and> ch_count h = 1 \<and> ch_pathid h = nk_pathid p \<and> Nack_Parse h = Some (Gives n) \<and>
               nk_sender_ssrc n = nk_sender_ssrc p \<and> nk_media_ssrc n = nk_media_ssrc p) hs ns \<and>
           concat (map nk_packed ns) = nk_packed p \<and> list_all (\<lambda>n. nk_packet_ids n = Unpack (nk_packed n)) ns)"

fun seen_as :: "rtcp_packet \<Rightarrow> common_header list \<Rightarrow> bool" where
  "seen_as (PacketSr p) = one_block 200 (length (sr_report_blocks p)) (sr_pathid p) SenderReport_Parse (received_SenderReport p)"
| "seen_as (PacketRr p) = one_block 201 (length (rr_report_blocks p)) (rr_pathid p) ReceiverReport_Parse (received_ReceiverReport p)"
| "seen_as (PacketSdes p) = one_block 202 (length (sd_chunks p)) (sd_pathid p) Sdes_Parse (p\<lparr>sd_pathid := 3\<rparr>)"
| "seen_as (PacketPli p) = one_block kPsfb 1 (pli_pathid p) Pli_Parse (p\<lparr>pli_pathid := 3\<rparr>)"
| "seen_as (PacketFir p) = one_block kPsfb 4 (fir_pathid p) Fir_Parse (p\<lparr>fir_pathid := 3\<rparr>)"
| "seen_as (PacketRemb p) = one_block kPsfb 15 3 Remb_Parse (received_Remb p)"
| "seen_as (PacketTmmbr p) = one_block kRtpfb 3 3 Tmmbr_Parse (received_Tmmb p)"
| "seen_as (PacketTmmbn p) = one_block kRtpfb 4 3 Tmmbn_Parse (received_Tmmb p)"
| "seen_as (PacketApp p) = one_block 204 (app_sub_type p) 1 App_Parse (p\<lparr>app_pathid := 3\<rparr>)"
| "seen_as (PacketLossNotification p) = one_block kPsfb 15 (ln_pathid p) LossNotification_Parse (p\<lparr>ln_pathid := 3\<rparr>)"
| "seen_as (PacketNack p) = nack_blocks p"
| "seen_as (PacketBye p) = one_block 203 (1 + length (bye_csrcs p)) 1 Bye_Parse p"
| "seen_as (PacketXr p) = one_block 207 0 1 ExtendedReports_Parse p"
| "seen_as (PacketTransportFeedback p) = (\<lambda>_. False)"

text \<open>Packets that can be sent, and the room they need; transport feedback packets do not go through this part of the sender.\<close>

fun sendable :: "bytes \<Rightarrow> rtcp_packet \<Rightarrow> bool" where
  "sendable stale (PacketSr p) = SenderReport_valid stale p"
| "sendable stale (PacketRr p) = ReceiverReport_valid p"
| "sendable stale (PacketSdes p) = Sdes_valid p"
| "sendable stale (PacketPli p) = int32 (pli_pathid p)"
| "sendable stale (PacketFir p) = Fir_valid p"
| "sendable stale (PacketRemb p) = Remb_valid p"
| "sendable stale (PacketTmmbr p) = (Tmmb_valid p \<and> tm_items p \<noteq> [])"
| "sendable stale (PacketTmmbn p) = Tmmb_valid p"
| "sendable stale (PacketApp p) = App_valid p"
| "sendable stale (PacketLossNotification p) = LossNotification_valid p"
| "sendable stale (PacketNack p) = int32 (nk_pathid p)"
| "sendable stale (PacketBye p) = Bye_valid p"
| "sendable stale (PacketXr p) = ExtendedReports_valid p"
| "sendable stale (PacketTransportFeedback p) = False"

fun room :: "rtcp_packet \<Rightarrow> nat" where
  "room (PacketSr p) = SenderReport_BlockLength p"
| "room (PacketRr p) = ReceiverReport_BlockLength p"
| "room (PacketSdes p) = sd_block_length p"
| "room (PacketPli p) = Pli_BlockLength p"
| "room (PacketFir p) = Fir_BlockLength p"
| "room (PacketRemb p) = Remb_BlockLength p"
| "room (PacketTmmbr p) = Tmmb_BlockLength p"
| "room (PacketTmmbn p) = Tmmb_BlockLength p"
| "room (PacketApp p) = App_BlockLength p"
| "room (PacketLossNotification p) = LossNotification_BlockLength p"
| "room (PacketNack p) = (if nk_packed p = [] then 0 else 20)"
| "room (PacketBye p) = Bye_BlockLength p"
| "room (PacketXr p) = ExtendedReports_BlockLength p"
| "room (PacketTransportFeedback p) = 0"

lemma nack_item_block:
  assumes "holds mx ob hs" "items \<noteq> []" "length (ob_data ob) + length (nack_wire p items) \<le> mx" "mx \<le> 65535" "int32 (nk_pathid p)"
  shows "\<exists>h. holds mx (ob\<lparr>ob_data := ob_data ob @ nack_wire p items\<rparr>) (hs @ [h]) \<and>
    ch_type h = kRtpfb \<and> ch_count h = 1 \<and> ch_pathid h = nk_pathid p \<and>
    Nack_Parse h = Some (Gives \<lparr>nk_sender_ssrc = nk_sender_ssrc p, nk_media_ssrc = nk_media_ssrc p,
      nk_pathid = 3, nk_packed = items, nk_packet_ids = Unpack items\<rparr>)"
proof -
  let ?n = "\<lparr>nk_sender_ssrc = nk_sender_ssrc p, nk_media_ssrc = nk_media_ssrc p,
      nk_pathid = 3, nk_packed = items, nk_packet_ids = Unpack items\<rparr>"
  have n: "length items < 65534" using assms(3,4) by (simp add: length_nack_wire)
  obtain h where h: "ch_type h = kRtpfb" "ch_count h = 1" "ch_pathid h = nk_pathid p"
    "packet_size h = length (nack_wire p items)" "Nack_Parse h = Some (Gives ?n)"
    and p: "CommonHeader_Parse (nack_wire p items @ []) = Some (Gives h)"
    using nack_wire_parse [OF assms(2) n assms(5), of "[]"] by blast
  let ?body = "CreateCommonFeedback (nk_sender_ssrc p) (nk_media_ssrc p) @ concat (map nack_item_enc items)"
  have "CommonHeader_Parse (nack_wire p items @ r) = CommonHeader_Parse (nack_wire p items @ [])" for r
    using CommonHeader_Parse_Create [of 1 ?body "2 + length items" "nk_pathid p" kRtpfb r]
      CommonHeader_Parse_Create [of 1 ?body "2 + length items" "nk_pathid p" kRtpfb "[]"] n assms(5)
    by (simp add: nack_wire_def int32_def)
  then have "CommonHeader_Parse (nack_wire p items @ rest) = Some (Gives h)" for rest using p by simp
  then have "is_block (nack_wire p items) h" by (simp add: is_block_def h(4))
  from holds_written [OF assms(1) this assms(3)] h show ?thesis by blast
qed

lemma nack_blocks_Nil: "nack_blocks (p\<lparr>nk_packed := []\<rparr>) []"
  by (simp add: nack_blocks_def)

lemma nack_blocks_Cons:
  assumes "ch_type h = kRtpfb" "ch_count h = 1" "ch_pathid h = nk_pathid p"
    "Nack_Parse h = Some (Gives \<lparr>nk_sender_ssrc = nk_sender_ssrc p, nk_media_ssrc = nk_media_ssrc p,
      nk_pathid = 3, nk_packed = xs, nk_packet_ids = Unpack xs\<rparr>)" (is "_ = Some (Gives ?n)")
    "nack_blocks (p\<lparr>nk_packed := ys\<rparr>) hs"
  shows "nack_blocks (p\<lparr>nk_packed := xs @ ys\<rparr>) (h # hs)"
proof -
  from assms(5) obtain ns where
    "list_all2 (\<lambda>h n. ch_type h = kRtpfb \<and> ch_count h = 1 \<and> ch_pathid h = nk_pathid p \<and> Nack_Parse h = Some (Gives n) \<and>
               nk_sender_ssrc n = nk_sender_ssrc p \<and> nk_media_ssrc n = nk_media_ssrc p) hs ns"
    "concat (map nk_packed ns) = ys" "list_all (\<lambda>n. nk_packet_ids n = Unpack (nk_packed n)) ns"
    by (auto simp: nack_blocks_def)
  then show ?thesis unfolding nack_blocks_def using assms(1-4) by (intro exI [of _ "?n # ns"]) simp
qed

lemma nack_loop_holds:
  assumes "20 \<le> mx" "mx \<le> 65535" "int32 (nk_pathid p)" "holds mx ob hs"
  shows "\<exists>ob' H. nack_create_loop p items mx ob = Some (Gives ob') \<and> holds mx ob' (hs @ H) \<and> nack_blocks (p\<lparr>nk_packed := items\<rparr>) H"
  using assms
proof (induction p items mx ob arbitrary: hs rule: nack_create_loop.induct)
  case (1 p items mx ob)
  have le: "length (ob_data ob) \<le> mx" using 1(6) by (auto simp: holds_def)
  let ?left = "mx - length (ob_data ob)"
  let ?n = "min ((?left - 16) div 4) (length items)"
  consider "items = []" | "items \<noteq> []" "?left < 20" | "items \<noteq> []" "20 \<le> ?left" by linarith
  then show ?case
  proof cases
    case 1
    then show ?thesis using \<open>holds mx ob hs\<close>
      by (auto simp: nack_create_loop.simps intro!: exI [of _ "[]"] nack_blocks_Nil)
  next
    case 2
    then have ne: "ob_data ob \<noteq> []" using \<open>20 \<le> mx\<close> by auto
    let ?ob = "ob\<lparr>ob_data := [], ob_sent := ob_sent ob @ [ob_data ob]\<rparr>"
    have "nack_create_loop p items mx ob = nack_create_loop p items mx ?ob"
      using 2 ne le by (subst nack_create_loop.simps) (simp add: Let_def kNackHeaderLength_def fb_lengths kNackItemLength_def)
    moreover have "holds mx ?ob hs" by (rule holds_flushed [OF 1(6) ne])
    ultimately show ?thesis using 1(1) [OF 2(1) _ refl _ ne] 2(2) le 1(3-5)
      by (simp add: kNackHeaderLength_def fb_lengths kNackItemLength_def)
  next
    case 3
    define n where "n = ?n"
    have n: "0 < n" "n \<le> length items" "length (ob_data ob) + (16 + 4 * n) \<le> mx"
      using 3 le by (auto simp: n_def min_def)
    let ?w = "nack_wire p (take n items)"
    let ?ob = "ob\<lparr>ob_data := ob_data ob @ ?w\<rparr>"
    let ?parts = "CreateHeader 1 kRtpfb ((kCommonFeedbackLength + n * kNackItemLength) div 4) False (nk_pathid p) #
       CreateCommonFeedback (nk_sender_ssrc p) (nk_media_ssrc p) # map nack_item_enc (take n items)"
    have parts: "concat ?parts = ?w" using n(2) by (simp add: nack_wire_def fb_lengths kNackItemLength_def add.commute)
    have len: "length (ob_data ob) + length ?w \<le> mx" using n by (simp add: length_nack_wire min_def)
    have e: "emits mx ?parts ob = Some (Gives ?ob)" using emits_eq [of ob ?parts mx] len unfolding parts by simp
    obtain h where h: "holds mx ?ob (hs @ [h])" "ch_type h = kRtpfb" "ch_count h = 1" "ch_pathid h = nk_pathid p"
      "Nack_Parse h = Some (Gives \<lparr>nk_sender_ssrc = nk_sender_ssrc p, nk_media_ssrc = nk_media_ssrc p,
         nk_pathid = 3, nk_packed = take n items, nk_packet_ids = Unpack (take n items)\<rparr>)"
      using nack_item_block [OF 1(6) _ len 1(4,5)] n 3(1) by auto
    have k: "kNackHeaderLength = 16" "kNackItemLength = 4" by (simp_all add: kNackHeaderLength_def fb_lengths kNackItemLength_def)
    have "nack_create_loop p items mx ob = nack_create_loop p (drop n items) mx ?ob"
      unfolding nack_create_loop.simps [of p items mx ob] Let_def k n_def [symmetric] e [unfolded k]
      using 3 le by simp
    moreover have "\<exists>ob' H. nack_create_loop p (drop n items) mx ?ob = Some (Gives ob') \<and> holds mx ob' ((hs @ [h]) @ H) \<and>
        nack_blocks (p\<lparr>nk_packed := drop n items\<rparr>) H"
      by (rule 1(2) [OF 3(1) _ refl _ refl refl, unfolded k n_def [symmetric], OF _ _ e [unfolded k] refl])
        (use h(1) 1(3-5) 3(2) le in simp_all)
    moreover have "nack_blocks (p\<lparr>nk_packed := items\<rparr>) (h # H)" if "nack_blocks (p\<lparr>nk_packed := drop n items\<rparr>) H" for H
      using nack_blocks_Cons [OF h(2-5) that] by simp
    ultimately show ?thesis by fastforce
  qed
qed

lemma packet_Create_holds:
  assumes "sendable stale p" "room p \<le> mx" "mx \<le> 65535" "holds mx ob hs"
  shows "\<exists>ob' H. packet_Create stale p mx ob = Some (Gives ob') \<and> holds mx ob' (hs @ H) \<and> seen_as p H"
proof (cases p)
  case (PacketSr r)
  with sr.create_holds [of stale r mx ob hs] assms show ?thesis by simp
next
  case (PacketRr r)
  with rr.create_holds [of r mx ob hs] assms show ?thesis by simp
next
  case (PacketSdes r)
  with sdes.create_holds [of r mx ob hs] assms show ?thesis by simp
next
  case (PacketPli r)
  with pli.create_holds [of r mx ob hs] assms show ?thesis by simp
next
  case (PacketFir r)
  with fir.create_holds [of r mx ob hs] assms show ?thesis by simp
next
  case (PacketRemb r)
  with remb.create_holds [of r mx ob hs] assms show ?thesis by simp
next
  case (PacketTmmbr r)
  with tmmbr.create_holds [of r mx ob hs] assms show ?thesis by simp
next
  case (PacketTmmbn r)
  with tmmbn.create_holds [of r mx ob hs] assms show ?thesis by simp
next
  case (PacketApp r)
  with app.create_holds [of r mx ob hs] assms show ?thesis by simp
next
  case (PacketLossNotification r)
  with lnt.create_holds [of r mx ob hs] assms show ?thesis by simp
next
  case (PacketNack r)
  show ?thesis
  proof (cases "nk_packed r = []")
    case True
    with PacketNack assms(4) show ?thesis
      by (auto simp: Nack_Create_def nack_create_loop.simps nack_blocks_def intro!: exI [of _ "[]"])
  next
    case False
    with PacketNack assms nack_loop_holds [of mx r ob hs "nk_packed r"] show ?thesis by (auto simp: Nack_Create_def)
  qed
next
  case (PacketBye r)
  with bye.create_holds [of r mx ob hs] assms show ?thesis by simp
next
  case (PacketXr r)
  with xr.create_holds [of r mx ob hs] assms show ?thesis by simp
qed (use assms in simp)

lemma CompoundPacket_holds:
  assumes "list_all (\<lambda>p. sendable stale p \<and> room p \<le> mx) ps" "mx \<le> 65535" "holds mx ob hs"
  shows "\<exists>ob' Hs. CompoundPacket_Create stale mx ps ob = Some (True, ob') \<and> holds mx ob' (hs @ concat Hs) \<and> list_all2 seen_as ps Hs"
  using assms
proof (induction ps arbitrary: ob hs)
  case Nil
  then show ?case by (auto intro!: exI [of _ "[]"])
next
  case (Cons p ps)
  obtain ob1 H where p: "packet_Create stale p mx ob = Some (Gives ob1)" "holds mx ob1 (hs @ H)" "seen_as p H"
    using packet_Create_holds [of stale p mx ob hs] Cons.prems by auto
  then obtain ob' Hs where "CompoundPacket_Create stale mx ps ob1 = Some (True, ob')" "holds mx ob' ((hs @ H) @ concat Hs)"
    "list_all2 seen_as ps Hs"
    using Cons.IH [of ob1 "hs @ H"] Cons.prems by auto
  with p show ?case by (intro exI [of _ ob'] exI [of _ "H # Hs"]) (simp add: append_packet_def)
qed

lemma SendPackets_datagrams:
  assumes "list_all (\<lambda>p. sendable (en_stale E) p \<and> room p \<le> mx) ps" "mx \<le> IP_PACKET_SIZE"
  shows "\<exists>ws Hs. SendPackets E mx pathid ps s = Some (transmit E pathid ws s) \<and> datagrams mx ws (concat Hs) \<and> list_all2 seen_as ps Hs"
proof -
  obtain ob Hs where "CompoundPacket_Create (en_stale E) mx ps \<lparr>ob_data = [], ob_sent = []\<rparr> = Some (True, ob)"
    "holds mx ob (concat Hs)" "list_all2 seen_as ps Hs"
    using CompoundPacket_holds [OF assms(1) _ holds_empty] assms(2) by (auto simp: IP_PACKET_SIZE_def)
  then show ?thesis
    using holds_flush [of mx ob "concat Hs"] assms(2)
    by (intro exI [of _ "ob_sent (flush ob)"] exI [of _ Hs]) (simp add: SendPackets_def)
qed

end
