(* ===== verification/CompoundDelivery.thy ===== *)
theory CompoundDelivery
  imports CompoundWire
begin

text \<open>
  Compound packets from the RTCP sender to the RTCP receiver of the other side: everything the sender builds can be sent and
  is seen by the receiver; signals reach the collector of the other side once; the decimal numbers of the
  asymmetry messages arrive only when they are short enough.
\<close>

section \<open>What is built can be sent\<close>

text \<open>The part of the sender that building does not change.\<close>

definition fixed :: "rtcp_sender \<Rightarrow> (u32, bytes) smap \<times> TmmbItem list \<times> u32 \<times> LossNotificationState \<times> nat \<times> (bytes \<times> int) list" where
  "fixed s = (tx_csrc_cnames s, tx_tmmbn_to_send s, tx_packet_oh_send s, tx_loss_notification_state s, tx_max_packet_size s, tx_sent s)"

text \<open>
  Names of contributing sources fit into their length byte, notified bitrates have an overhead that fits its nine bits,
  and the numbers of a loss notification are at most half of the circle apart.
\<close>

definition sender_ok :: "rtcp_sender \<Rightarrow> bool" where
  "sender_ok s \<longleftrightarrow>
     list_all (\<lambda>(_, c). length c \<le> 255) (tx_csrc_cnames s) \<and>
     list_all TmmbItem_ok (tx_tmmbn_to_send s) \<and> length (tx_tmmbn_to_send s) < 32767 \<and> tx_packet_oh_send s \<le> 0x1ff \<and>
     lo_last_received_seq_num (tx_loss_notification_state s) - lo_last_decoded_seq_num (tx_loss_notification_state s) \<le> 0x7fff"

definition env_ok :: "rtcp_env \<Rightarrow> bool" where
  "env_ok E \<longleftrightarrow> length (en_heap E) = 4 \<and> length (en_stale E) = 4"

lemma sender_ok_fixed: "fixed t = fixed s \<Longrightarrow> sender_ok t = sender_ok s"
  by (simp add: fixed_def sender_ok_def)

lemma add_report_blocks_fits:
  "list_all (\<lambda>b. fits24 (rb_cumulative_lost b)) rs \<Longrightarrow>
    list_all (\<lambda>b. fits24 (rb_cumulative_lost b)) (fst (snd (add_report_blocks m now q mx es rs n)))"
proof (induction m now q mx es rs n rule: add_report_blocks.induct)
  case (2 m now q mx ssrc s es rs n)
  have f: "fits24 (rb_cumulative_lost b)" if "report_block q ssrc n st = Gives b" for st b
    using that by (auto simp: report_block_def SetCumulativeLost_def fits24_def Let_def split: outcome.splits if_splits)
  show ?case using 2 f
    by (auto simp: Let_def split: prod.splits option.splits outcome.splits)
qed simp

lemma RtcpReportBlocks_fits: "list_all (\<lambda>b. fits24 (rb_cumulative_lost b)) (fst (RtcpReportBlocks m now mx q r))"
proof -
  let ?n = "if q \<noteq> 2 then rz_rtcp_seq_p r else rz_rtcp_seq_s r"
  let ?es = "\<lambda>P. filter P (rz_statisticians r)"
  obtain a rs n where a: "add_report_blocks m now q mx (?es (\<lambda>x. \<not> fst x \<le> rz_last_returned_ssrc r)) [] ?n = (a, rs, n)"
    using prod_cases3 by blast
  obtain b rs' n' where b: "add_report_blocks m now q mx (?es (\<lambda>x. fst x \<le> rz_last_returned_ssrc r)) rs n = (b, rs', n')"
    using prod_cases3 by blast
  have "fst (RtcpReportBlocks m now mx q r) = rs'" unfolding RtcpReportBlocks_def Let_def a case_prod_conv b by simp
  then show ?thesis
    using add_report_blocks_fits [of "[]" m now q mx "?es (\<lambda>x. \<not> fst x \<le> rz_last_returned_ssrc r)" ?n]
      add_report_blocks_fits [of rs m now q mx "?es (\<lambda>x. fst x \<le> rz_last_returned_ssrc r)" n] unfolding a b by simp
qed

lemma set_delays_fits:
  "list_all (\<lambda>b. fits24 (rb_cumulative_lost b)) (set_delays ck fs bs) = list_all (\<lambda>b. fits24 (rb_cumulative_lost b)) bs"
  by (simp add: set_delays_def Let_def list_all_iff)

lemma create_report_blocks_fits:
  assumes "create_report_blocks q E fs s = (bs, t)"
  shows "(\<forall>b \<in> set bs. fits24 (rb_cumulative_lost b)) \<and> fixed t = fixed s"
proof (cases "tx_receive_statistics s")
  case None
  then show ?thesis using assms by (auto simp: create_report_blocks_def)
next
  case (Some r)
  obtain blocks r' where b: "RtcpReportBlocks (en_mp E) (ck_ms (en_clock E)) RTCP_MAX_REPORT_BLOCKS q r = (blocks, r')" by fastforce
  have "list_all (\<lambda>b. fits24 (rb_cumulative_lost b)) blocks"
    using RtcpReportBlocks_fits [of "en_mp E" "ck_ms (en_clock E)" RTCP_MAX_REPORT_BLOCKS q r] by (simp add: b)
  then show ?thesis using assms set_delays_fits [of "en_clock E" fs blocks]
    by (auto simp: create_report_blocks_def Some b fixed_def list_all_iff)
qed

text \<open>What a builder does, as far as sending is concerned.\<close>

definition builds_sendable :: "builder \<Rightarrow> bool" where
  "builds_sendable f \<longleftrightarrow> (\<forall>cx q s p s'. env_ok (cx_env cx) \<and> int32 q \<and> sender_ok s \<and> f cx q s = Some (p, s') \<longrightarrow>
     fixed s' = fixed s \<and> (\<forall>x. p = Some x \<longrightarrow> sendable (en_stale (cx_env cx)) x))"

lemma builds_sendable_reports: "builds_sendable BuildSR" "builds_sendable BuildRR"
proof -
  show "builds_sendable BuildSR"
    unfolding builds_sendable_def BuildSR_def MpPrimaryCreateReportBlocks_def MpSecondaryCreateReportBlocks_def
    by (auto simp: Let_def env_ok_def SenderReport_valid_def SenderReport_SetReportBlocks_def list_all_iff fixed_def
        dest!: create_report_blocks_fits split: prod.splits outcome.splits if_splits)
  show "builds_sendable BuildRR"
    unfolding builds_sendable_def BuildRR_def MpPrimaryCreateReportBlocks_def MpSecondaryCreateReportBlocks_def
    by (auto simp: Let_def env_ok_def ReceiverReport_valid_def ReceiverReport_SetReportBlocks_def list_all_iff fixed_def
        dest!: create_report_blocks_fits split: prod.splits outcome.splits if_splits)
qed

lemma add_cnames_valid:
  "Sdes_valid p \<Longrightarrow> list_all (\<lambda>(_, c). length c \<le> 255) cs \<Longrightarrow> add_cnames cs p = Some p' \<Longrightarrow> Sdes_valid p'"
proof (induction cs p rule: add_cnames.induct)
  case (2 ssrc cname cs p)
  then show ?case using Sdes_AddCName_valid [of p cname ssrc] by (auto split: outcome.splits)
qed simp

lemma builds_sendable_sdes: "builds_sendable BuildSDES"
proof -
  have v: "Sdes_valid (case Sdes_AddCName ssrc c p of Fails \<Rightarrow> p | Gives p \<Rightarrow> p)" if "Sdes_valid p" "length c < 256" for ssrc c p
    using Sdes_AddCName_valid [OF that(1), of c ssrc] that by (auto split: outcome.splits)
  have "Sdes_valid \<lparr>sd_pathid = q, sd_chunks = [], sd_block_length = kHeaderLength\<rparr>" if "int32 q" for q
    using that by (simp add: Sdes_valid_def)
  note v [OF this]
  then show ?thesis
    by (auto simp: builds_sendable_def BuildSDES_def RTCP_CNAME_SIZE_def sender_ok_def Let_def bind_eq_Some_conv
        elim!: add_cnames_valid [rotated 2] split: if_splits)
qed

lemma builds_sendable_feedback:
  "builds_sendable BuildPLI" "builds_sendable BuildFIR" "builds_sendable BuildREMB" "builds_sendable BuildLossNotification"
  "builds_sendable BuildNACK" "builds_sendable BuildBYE"
  by (auto simp: builds_sendable_def other_builders fixed_def Fir_valid_def Remb_valid_def LossNotification_valid_def
      sender_ok_def SetPacketIds_def Bye_valid_def Bye_SetCsrcs_def Remb_SetSsrcs_def Let_def split: outcome.splits if_splits)

lemma builds_sendable_tmmb: "builds_sendable BuildTMMBR" "builds_sendable BuildTMMBN"
proof -
  have "TmmbItem_ok (tmmbr_item ssrc s)" if "tx_packet_oh_send s \<le> 0x1ff" for ssrc s
  proof -
    have "uint (tx_packet_oh_send s) \<le> 511" using that by (simp add: word_le_def)
    then have "uint (ucast (tx_packet_oh_send s) :: u16) \<le> 511" by (simp add: unsigned_ucast_eq take_bit_int_eq_self)
    then show ?thesis by (simp add: TmmbItem_ok_def tmmbr_item_def word_le_def)
  qed
  then show "builds_sendable BuildTMMBR"
    by (auto simp: builds_sendable_def BuildTMMBR_def Tmmb_valid_def AddTmmbr_def sender_ok_def Let_def
        split: option.splits prod.splits if_splits)
  have "fold AddTmmbr is p = p\<lparr>tm_items := tm_items p @ is\<rparr>" for "is" p
    by (induction "is" arbitrary: p) (simp_all add: AddTmmbr_def)
  then show "builds_sendable BuildTMMBN"
    by (auto simp: builds_sendable_def BuildTMMBN_def Tmmb_valid_def sender_ok_def list_all_iff
        intro: le_less_trans [OF length_filter_le])
qed

lemma builds_sendable_app:
  "builds_sendable BuildAPPQUIC" "builds_sendable BuildAPPHalf" "builds_sendable BuildAPPFull"
  "builds_sendable BuildAPPMPFrameRate" "builds_sendable BuildAPPMpAsymmetry" "builds_sendable BuildAPPMpRR1"
  "builds_sendable BuildAPPMpRR2"
  by (auto simp: builds_sendable_def other_builders App_valid_def kAppBaseLength_def env_ok_def number_data_def Let_def
      bind_eq_Some_conv split: if_splits)

lemma target_bitrates_ok: "list_all BitrateItem_ok (target_bitrates a)" "length (target_bitrates a) \<le> 20"
proof -
  have k: "GetBitrate si ti a div 1000 \<le> 0xFFFFFF" for si ti
  proof -
    have "uint (GetBitrate si ti a) < 2 ^ 32" using uint_lt2p [of "GetBitrate si ti a"] by simp
    then show ?thesis by (simp add: word_le_def uint_div)
  qed
  have l: "si mod 256 \<le> 15 \<and> ti mod 256 \<le> 15" if "(si, ti) \<in> set video_layers" for si ti
    using that by (auto simp: video_layers_def)
  show "list_all BitrateItem_ok (target_bitrates a)"
    using k l by (auto simp: target_bitrates_def list_all_iff BitrateItem_ok_def word_le_nat_alt unat_of_nat split: if_splits)
  have "length (concat (map (\<lambda>(si, ti). if HasBitrate si ti a then [f si ti] else []) ls)) \<le> length ls" for f :: "nat \<Rightarrow> nat \<Rightarrow> BitrateItem" and ls
    by (induction ls) auto
  then have "length (target_bitrates a) \<le> length video_layers" unfolding target_bitrates_def .
  also have "\<dots> = 20" by code_simp
  finally show "length (target_bitrates a) \<le> 20" .
qed

lemma builds_sendable_xr: "builds_sendable BuildExtendedReports"
proof -
  have d: "length (xr_dlrr (fold add_dlrr rs xr)) \<le> kMaxNumberOfDlrrItems \<and>
      xr_target_bitrate (fold add_dlrr rs xr) = xr_target_bitrate xr" if "length (xr_dlrr xr) \<le> kMaxNumberOfDlrrItems" for rs xr
    using that
  proof (induction rs arbitrary: xr)
    case (Cons r rs)
    then show ?case using Cons.IH [of "add_dlrr r xr"] by (auto simp: add_dlrr_def AddDlrrItem_def split: outcome.splits if_splits)
  qed simp
  have v: "ExtendedReports_valid x" if "length (xr_dlrr x) \<le> kMaxNumberOfDlrrItems"
    "xr_target_bitrate x = None \<or> (\<exists>a. xr_target_bitrate x = Some (target_bitrates a))" for x
  proof -
    from that(2) obtain a where a: "xr_target_bitrate x = None \<or> xr_target_bitrate x = Some (target_bitrates a)" by blast
    then have "ExtendedReports_BlockLength x \<le> 1000"
      using that(1) target_bitrates_ok(2) [of a]
      by (auto simp: ExtendedReports_BlockLength_def Dlrr_BlockLength_def TargetBitrate_BlockLength_def
          kMaxNumberOfDlrrItems_def kHeaderLength_def kXrBaseLength_def)
    then show ?thesis using that(1) a target_bitrates_ok(1) [of a] by (auto simp: ExtendedReports_valid_def)
  qed
  show ?thesis
    unfolding builds_sendable_def
  proof (intro allI impI, elim conjE)
    fix cx :: RtcpContext and q and s :: rtcp_sender and p s'
    define x where "x = fold add_dlrr (fs_last_xr_rtis (cx_feedback_state cx))
      (if \<not> tx_sending s \<and> tx_xr_send_receiver_reference_time_enabled s
       then SetRrtr (TimeMicrosToNtp (en_clock (cx_env cx))) \<lparr>xr_sender_ssrc = tx_ssrc s, xr_rrtr = None, xr_dlrr = [], xr_target_bitrate = None\<rparr>
       else \<lparr>xr_sender_ssrc = tx_ssrc s, xr_rrtr = None, xr_dlrr = [], xr_target_bitrate = None\<rparr>)"
    have x: "length (xr_dlrr x) \<le> kMaxNumberOfDlrrItems" "xr_target_bitrate x = None"
      unfolding x_def by (subst d; simp add: SetRrtr_def)+
    have w: "ExtendedReports_valid x" "ExtendedReports_valid (SetTargetBitrate (target_bitrates (tx_video_bitrate_allocation s)) x)"
      using x by (auto simp: SetTargetBitrate_def intro!: v)
    assume "BuildExtendedReports cx q s = Some (p, s')"
    with w show "fixed s' = fixed s \<and> (\<forall>y. p = Some y \<longrightarrow> sendable (en_stale (cx_env cx)) y)"
      unfolding BuildExtendedReports_def Let_def x_def [symmetric] by (auto simp: fixed_def split: if_splits)
  qed
qed

lemma builders_sendable: "map_of builders t = Some f \<Longrightarrow> builds_sendable f"
proof -
  assume "map_of builders t = Some f"
  then have "(t, f) \<in> set builders" by (rule map_of_SomeD)
  moreover have "list_all (\<lambda>(t, f). builds_sendable f) builders"
    unfolding builders_def
    by (simp add: builds_sendable_reports builds_sendable_sdes builds_sendable_feedback builds_sendable_tmmb builds_sendable_app
        builds_sendable_xr)
  ultimately show ?thesis by (auto simp: list_all_iff)
qed

section \<open>One call\<close>

lemma schedule_next_fixed: "fixed (schedule_next ck fs q s) = fixed s"
  by (simp add: schedule_next_def fixed_def Let_def split: prod.splits)

lemma same_but_flags_fixed: "same_but_flags s t \<Longrightarrow> fixed t = fixed s"
  unfolding same_but_flags_def fixed_def
  by (metis rtcp_sender.select_convs rtcp_sender.surjective rtcp_sender.update_convs(33))

lemma PrepareReport_fixed:
  assumes "sm_ok (tx_report_flags s)"
  shows "fixed (PrepareReport ck fs q s) = fixed s"
proof -
  obtain g t where g: "choose_report s = (g, t)" by fastforce
  have t: "fixed t = fixed s" using choose_report_flags [OF assms g] same_but_flags_fixed by blast
  have f: "fixed (SetFlag x v u) = fixed u" for x v u using same_but_flags_fixed [OF SetFlag_same] .
  show ?thesis unfolding PrepareReport_def g by (simp add: Let_def schedule_next_fixed f t)
qed

lemma compute_sendable:
  assumes "ComputeCompoundRTCPPacket E fs ts ids q s = Some (None, ps, s')" "sm_ok (tx_report_flags s)"
    "sender_ok s" "env_ok E" "int32 q"
  shows "list_all (sendable (en_stale E)) ps \<and> fixed s' = fixed s"
  using assms(1,2)
proof (rule compute_steps)
  fix u ps' bye
  let ?p = "PrepareReport (en_clock E) fs q u" and ?cx = "\<lparr>cx_env = E, cx_feedback_state = fs, cx_nack_list = ids\<rparr>"
  assume u: "begin_call (en_clock E) ts s = (None, u)" and ps: "ps = ps' @ (case bye of None \<Rightarrow> [] | Some p \<Rightarrow> [p])"
    and "\<exists>t. build_packets ?cx q (tx_report_flags ?p) [] None ?p = Some (True, ps', bye, t) \<and> s' = notify_counter t"
  then obtain t where b: "build_packets ?cx q (tx_report_flags ?p) [] None ?p = Some (True, ps', bye, t)" "s' = notify_counter t" by blast
  note fl = begin_call_flags [OF u assms(2)]
  have "fixed u = fixed s" using fl(4) same_but_flags_fixed by (fastforce simp: fixed_def)
  then have p: "fixed ?p = fixed s" using PrepareReport_fixed [OF fl(1)] by simp
  have "fixed t = fixed s \<and> list_all (\<lambda>x. \<exists>t \<in> (UNIV :: u32 set). sendable (en_stale E) x) ps' \<and> pred_option (sendable (en_stale E)) bye"
  proof (rule build_packets_rule [where T = UNIV and I = "\<lambda>t. fixed t = fixed s" and P = "\<lambda>_. sendable (en_stale E)", OF _ _ b(1)])
    fix x f v p v'
    assume "map_of builders x = Some f" "fixed v = fixed s" "f ?cx q v = Some (p, v')"
    with builders_sendable sender_ok_fixed assms(3-5) show "fixed v' = fixed s \<and> (\<forall>x. p = Some x \<longrightarrow> sendable (en_stale E) x)"
      unfolding builds_sendable_def by (metis RtcpContext.select_convs(1))
  qed (use p in \<open>auto simp: fixed_def\<close>)
  then show ?thesis by (auto simp: ps b(2) notify_counter_def fixed_def split: option.splits)
qed

section \<open>At the receiver\<close>

fun handle_all :: "receiver_config \<Rightarrow> clock_reading \<Rightarrow> nat list \<Rightarrow> common_header list \<Rightarrow> handler" where
  "handle_all c ck junk [] x = Some x"
| "handle_all c ck junk (h # hs) x = Option.bind (handle_block c ck junk h x) (handle_all c ck junk hs)"

lemma blocks_Cons:
  assumes "blocks w (h # hs)"
  shows "w \<noteq> []" "CommonHeader_Parse w = Some (Gives h)" "blocks (drop (packet_size h) w) hs"
proof -
  from assms obtain e es where w: "w = e @ concat es" and e: "is_block e h" and es: "list_all2 is_block es hs"
    by (auto simp: blocks_def list_all2_Cons2)
  show "CommonHeader_Parse w = Some (Gives h)" using e by (simp add: is_block_def w)
  show "w \<noteq> []" using e by (auto simp: w is_block_def packet_size_def kHeaderLength_def)
  show "blocks (drop (packet_size h) w) hs" using e es by (auto simp: w is_block_def blocks_def)
qed

lemma blocks_headers: "blocks w hs \<Longrightarrow> block_headers w = hs"
proof (induction hs arbitrary: w)
  case Nil
  then have "w = []" by (auto simp: blocks_def)
  then show ?case by (simp add: block_headers.simps)
next
  case (Cons h hs)
  from Cons.IH [OF blocks_Cons(3) [OF Cons.prems]] blocks_Cons [OF Cons.prems] show ?case
    by (subst block_headers.simps) simp
qed

lemma parse_blocks_all: "blocks w hs \<Longrightarrow> parse_blocks c ck junk first w x = map_option Gives (handle_all c ck junk hs x)"
proof (induction hs arbitrary: w first x)
  case Nil
  then have "w = []" by (auto simp: blocks_def)
  then show ?case by (simp add: parse_blocks.simps)
next
  case (Cons h hs)
  note b = blocks_Cons [OF Cons.prems]
  show ?case using Cons.IH [OF b(3)] b(1,2) by (subst parse_blocks.simps) (cases "handle_block c ck junk h x"; simp)
qed

text \<open>What a block does to the shared collector.\<close>

definition app_effect :: "clock_reading \<Rightarrow> App \<Rightarrow> mp_collector \<Rightarrow> mp_collector" where
  "app_effect ck a m =
     (if app_name a = kRemoteEstimateName \<and> app_sub_type a = 13 then m
      else if app_sub_type a = 1 \<and> app_name a = kMpappname then mp_signal ck (hd (app_data a)) m
      else if app_sub_type a = 2 \<and> app_name a = kMpappname then MpSetRemoteFrameRate (ucast (hd (app_data a))) m
      else case app_number a of
             None \<Rightarrow> m
           | Some n \<Rightarrow> if app_sub_type a = 3 then MpSetRemoteAsymmetryPackets n m
                       else if app_sub_type a = 4 then MpSetRemoteAsymmetryRR1 n m
                       else if app_sub_type a = 5 then MpSetRemoteAsymmetryRR2 n m else m)"

definition block_effect :: "clock_reading \<Rightarrow> common_header \<Rightarrow> mp_collector \<Rightarrow> mp_collector" where
  "block_effect ck h m =
     (if ch_type h = 204 then case App_Parse h of Some (Gives a) \<Rightarrow> app_effect ck a m | _ \<Rightarrow> m else m)"

interpretation collector: block_relation "\<lambda>s s'. rv_mp s' = rv_mp s" "\<lambda>h. ch_type h \<noteq> 204"
proof (unfold_locales, goal_cases)
  case (12 h i c ck b remote s s' i')
  then show ?case by (auto simp: HandleReportBlock_def Let_def split: if_splits option.splits bind_splits)
qed simp_all

lemma rd8_hd: "rd8 d 0 = Some b \<Longrightarrow> hd d = b"
  by (cases d) (auto simp: rd8_def)

lemma HandleApp_mp:
  assumes "HandleApp ck h (s, i) = Some (s', i')"
  shows "rv_mp s' = (case App_Parse h of Some (Gives a) \<Rightarrow> app_effect ck a (rv_mp s) | _ \<Rightarrow> rv_mp s)"
proof (cases "App_Parse h")
  case None
  then show ?thesis using assms by (simp add: HandleApp_def with_parsed_def)
next
  case (Some q)
  show ?thesis
  proof (cases q)
    case Fails
    then show ?thesis using assms Some by (auto simp: HandleApp_def with_parsed_def skip_block_def)
  next
    case (Gives a)
    consider "app_name a = kRemoteEstimateName \<and> app_sub_type a = 13"
      | "app_sub_type a = 1" "app_name a = kMpappname" | "app_sub_type a = 2" "app_name a = kMpappname"
      | "app_sub_type a = 3" | "app_sub_type a = 4" | "app_sub_type a = 5"
      | "\<not> (app_name a = kRemoteEstimateName \<and> app_sub_type a = 13)"
        "\<not> (app_sub_type a = 1 \<and> app_name a = kMpappname)" "\<not> (app_sub_type a = 2 \<and> app_name a = kMpappname)"
        "app_sub_type a \<noteq> 3" "app_sub_type a \<noteq> 4" "app_sub_type a \<noteq> 5" by blast
    then show ?thesis
    proof cases
      case 1
      then show ?thesis using assms Some Gives
        by (cases "RemoteEstimate_ParseData (app_data a)"; cases "the (RemoteEstimate_ParseData (app_data a))")
          (auto simp: HandleApp_def with_parsed_def app_effect_def skip_block_def)
    next
      case 7
      then have "app_effect ck a (rv_mp s) = rv_mp s" unfolding app_effect_def by (simp only: if_False split: option.split) simp
      moreover have "(skip_block s, i) = (s', i')"
        using assms unfolding HandleApp_def with_parsed_def Some Gives by (simp only: 7 if_False option.case outcome.case case_prod_conv bind.bind_lunit option.inject)
      ultimately show ?thesis using Some Gives by (auto simp: skip_block_def)
    qed (use assms Some Gives in \<open>auto simp: HandleApp_def with_parsed_def app_effect_def bind_eq_Some_conv dest!: rd8_hd\<close>)
  qed
qed

lemma handle_block_mp:
  assumes "handle_block c ck junk h (s, i) = Some (s', i')"
  shows "rv_mp s' = block_effect ck h (rv_mp s)"
proof (cases "ch_type h = 204")
  case False
  then show ?thesis using collector.handle_block_R [OF False assms] by (simp add: block_effect_def)
next
  case True
  define t where "t = (if pc_first_packet_time_ms (rv_packet_type_counter s) = - 1
    then s\<lparr>rv_packet_type_counter := (rv_packet_type_counter s)\<lparr>pc_first_packet_time_ms := ck_ms ck\<rparr>\<rparr> else s)"
  have "HandleApp ck h (t, i\<lparr>pk_pathid := ch_pathid h\<rparr>) = Some (s', i')"
    using assms True by (simp add: handle_block_def Let_def t_def)
  note HandleApp_mp [OF this]
  moreover have "rv_mp t = rv_mp s" by (simp add: t_def)
  ultimately show ?thesis using True by (simp only: block_effect_def if_True simp_thms)
qed

lemma handle_all_defined:
  assumes "TimeDelta_ms (ck_us ck) \<noteq> None"
  shows "list_all app_readable hs \<Longrightarrow> \<exists>t j. handle_all c ck junk hs (s, i) = Some (t, j) \<and> rv_mp t = fold (block_effect ck) hs (rv_mp s)"
proof (induction hs arbitrary: s i)
  case (Cons h hs)
  then obtain t j where t: "handle_block c ck junk h (s, i) = Some (t, j)"
    using handle_block_defined [OF assms, of c junk h "(s, i)"] by auto
  from Cons.IH [of t j] Cons.prems handle_block_mp [OF t] show ?case by (simp add: t)
qed simp

lemma receive_datagrams:
  assumes "TimeDelta_ms (ck_us ck) \<noteq> None" "datagrams mx ws hs" "list_all app_readable hs"
  shows "\<exists>v'. receive_all fb c ck junk ws v = Some v' \<and> rv_mp v' = fold (block_effect ck) hs (rv_mp v)"
proof -
  from assms(2) obtain hss where hs: "hs = concat hss"
    and l: "list_all2 (\<lambda>w hs. w \<noteq> [] \<and> length w \<le> mx \<and> blocks w hs) ws hss" by (auto simp: datagrams_def)
  show ?thesis using l assms(3) unfolding hs
  proof (induction ws hss arbitrary: v rule: list_all2_induct)
    case (Cons w ws h hss)
    obtain t j where t: "handle_all c ck junk h (v, PacketInformation_new) = Some (t, j)" "rv_mp t = fold (block_effect ck) h (rv_mp v)"
      using handle_all_defined [OF assms(1)] Cons.prems by fastforce
    let ?v = "TriggerCallbacksFromRtcpPacket fb c ck j
      (if rc_packet_type_counter_observer c then call_back (EvPacketTypes (rc_main_ssrc c) (rv_packet_type_counter t)) t else t)"
    have "IncomingPacket fb c ck junk w v = Some ?v"
      using parse_blocks_all [of w h c ck junk True "(v, PacketInformation_new)"] Cons.hyps(1) t(1)
      by (simp add: IncomingPacket_def ParseCompoundPacket_def)
    moreover have "rv_mp ?v = fold (block_effect ck) h (rv_mp v)"
      using collector.trigger_R t(2) by (simp add: call_back_def)
    ultimately show ?case using Cons.IH [of ?v] Cons.prems by simp
  qed simp
qed

fun apps :: "rtcp_packet list \<Rightarrow> App list" where
  "apps [] = []"
| "apps (p # ps) = (case p of PacketApp a \<Rightarrow> a # apps ps | _ \<Rightarrow> apps ps)"

text \<open>Whether the receiver reads the data of an application packet within its bounds.\<close>

definition app_terminated :: "App \<Rightarrow> bool" where
  "app_terminated a \<longleftrightarrow>
     (if app_name a = kRemoteEstimateName \<and> app_sub_type a = 13 then True
      else if (app_sub_type a = 1 \<or> app_sub_type a = 2) \<and> app_name a = kMpappname then app_data a \<noteq> []
      else if app_sub_type a \<in> {3, 4, 5} then app_number a \<noteq> None else True)"

lemma seen_other:
  assumes "seen_as p H" "\<And>a. p \<noteq> PacketApp a" "h \<in> set H"
  shows "ch_type h \<noteq> 204"
proof (cases "\<exists>n. p = PacketNack n")
  case True
  then show ?thesis using assms by (auto simp: nack_blocks_def list_all2_conv_all_nth in_set_conv_nth kRtpfb_def)
next
  case False
  then show ?thesis using assms by (cases p) (auto simp: one_block_def kRtpfb_def kPsfb_def)
qed

lemma seen_all_effect:
  assumes "list_all2 seen_as ps Hs"
  shows "fold (block_effect ck) (concat Hs) m = fold (app_effect ck) (apps ps) m"
    "list_all app_terminated (apps ps) \<Longrightarrow> list_all app_readable (concat Hs)"
proof -
  have "fold (block_effect ck) (concat Hs) m = fold (app_effect ck) (apps ps) m \<and>
    (list_all app_terminated (apps ps) \<longrightarrow> list_all app_readable (concat Hs))"
    using assms
  proof (induction ps Hs arbitrary: m rule: list_all2_induct)
    case (Cons p ps H Hs)
    show ?case
    proof (cases "\<exists>a. p = PacketApp a")
      case True
      then obtain a where a: "p = PacketApp a" by blast
      with Cons.hyps obtain h where h: "H = [h]" "ch_type h = 204" "App_Parse h = Some (Gives (a\<lparr>app_pathid := 3\<rparr>))"
        by (auto simp: one_block_def)
      have "block_effect ck h m = app_effect ck a m" for m
        by (simp add: block_effect_def h app_effect_def app_number_def split: option.split)
      moreover have "app_readable h" if "app_terminated a"
        using that by (auto simp: app_readable_def h app_terminated_def app_number_def split: if_splits)
      ultimately show ?thesis using Cons.IH by (simp add: a h(1))
    next
      case False
      have o: "ch_type h \<noteq> 204" if "h \<in> set H" for h using seen_other [OF Cons.hyps(1) _ that] False by blast
      then have "fold (block_effect ck) H m = m" for m by (induction H) (auto simp: block_effect_def)
      moreover have "list_all app_readable H" using o by (auto simp: list_all_iff app_readable_def)
      moreover have "apps (p # ps) = apps ps" using False by (cases p) auto
      ultimately show ?thesis using Cons.IH by simp
    qed
  qed simp
  then show "fold (block_effect ck) (concat Hs) m = fold (app_effect ck) (apps ps) m"
    "list_all app_terminated (apps ps) \<Longrightarrow> list_all app_readable (concat Hs)" by blast+
qed

lemma datagrams_headers:
  assumes "datagrams mx ws hs"
  shows "list_all (\<lambda>w. length w \<le> mx) ws \<and> concat (map block_headers ws) = hs"
proof -
  from assms obtain hss where hs: "hs = concat hss"
    and l: "list_all2 (\<lambda>w hs. w \<noteq> [] \<and> length w \<le> mx \<and> blocks w hs) ws hss" by (auto simp: datagrams_def)
  show ?thesis using l unfolding hs by (induction ws hss rule: list_all2_induct) (auto dest: blocks_headers)
qed

lemma send_datagrams:
  assumes "ComputeCompoundRTCPPacket E fs ts ids pathid s = Some (None, ps, t)"
    "sm_ok (tx_report_flags s)" "sender_ok s" "env_ok E" "int32 pathid"
    "tx_max_packet_size s \<le> IP_PACKET_SIZE" "list_all (\<lambda>p. room p \<le> tx_max_packet_size s) ps"
  shows "\<exists>ws Hs r. SendCompoundRTCP E fs ts ids pathid s = Some (r, t\<lparr>tx_sent := tx_sent s @ map (\<lambda>w. (w, pathid)) ws\<rparr>) \<and>
    datagrams (tx_max_packet_size s) ws (concat Hs) \<and> list_all2 seen_as ps Hs"
proof -
  have c: "list_all (sendable (en_stale E)) ps" "tx_max_packet_size t = tx_max_packet_size s" "tx_sent t = tx_sent s"
    using compute_sendable [OF assms(1-5)] by (simp_all add: fixed_def)
  have "list_all (\<lambda>p. sendable (en_stale E) p \<and> room p \<le> tx_max_packet_size s) ps"
    using c(1) assms(7) by (simp add: list_all_iff)
  then obtain ws Hs where "SendPackets E (tx_max_packet_size s) pathid ps t = Some (transmit E pathid ws t)"
    "datagrams (tx_max_packet_size s) ws (concat Hs)" "list_all2 seen_as ps Hs"
    using SendPackets_datagrams assms(6) by blast
  then show ?thesis by (auto simp: SendCompoundRTCP_def assms(1) c transmit_def)
qed

section \<open>Signals\<close>

definition signals :: "(u32 \<times> u8) list" where
  "signals = [(kAppSubtypeMpFull, 97), (kAppSubtypeMpHalf, 98), (kAppSubtypeQUIC, 99)]"

definition app_types :: "u32 list" where
  "app_types = [kAppSubtypeMpHalf, kAppSubtypeMpFull, kAppSubtypeQUIC, kAppSubtypeMPFrameRate, kAppSubtypeMpAsymmetry,
     kAppSubtypeMpRR1, kAppSubtypeMpRR2]"

definition signal_app :: "u8 \<Rightarrow> App \<Rightarrow> bool" where
  "signal_app b a \<longleftrightarrow> app_sub_type a = 1 \<and> app_name a = kMpappname \<and> app_data a = [b, b, b, b]"

lemma app_types_caller: "x \<in> set app_types \<Longrightarrow> caller_type x \<and> map_of builders x \<noteq> None \<and> x \<noteq> kRtcpBye"
  by (auto simp: app_types_def caller_type_def builders_def sender_types)

lemma signal_builder:
  assumes "(type, b) \<in> set signals" "map_of builders type = Some f" "f cx q s = Some (Some x, s')"
  shows "\<exists>a. x = PacketApp a \<and> signal_app b a"
proof -
  have "f = BuildAPPFull \<and> b = 97 \<or> f = BuildAPPHalf \<and> b = 98 \<or> f = BuildAPPQUIC \<and> b = 99"
    using assms(1,2) by (auto simp: signals_def builders_def sender_types)
  then show ?thesis using assms(3)
    by (auto simp: BuildAPPFull_def BuildAPPHalf_def BuildAPPQUIC_def app_packet_def signal_app_def kMpappname_def)
qed

lemma length_apps: "list_all2 kind ts ps \<Longrightarrow> length (apps ps) = length (filter (\<lambda>t. t \<in> set app_types) ts)"
proof (induction ts ps rule: list_all2_induct)
  case (Cons t ts p ps)
  then show ?case by (cases p) (auto simp: app_types_def sender_types)
qed simp

lemma filter_single: "distinct xs \<Longrightarrow> x \<in> set xs \<Longrightarrow> (\<And>y. y \<in> set xs \<Longrightarrow> P y \<longleftrightarrow> y = x) \<Longrightarrow> filter P xs = [x]"
proof (induction xs)
  case (Cons y xs)
  show ?case
  proof (cases "y = x")
    case True
    then have "filter P xs = []" using Cons.prems by (auto simp: filter_empty_conv)
    then show ?thesis using True Cons.prems(3) [of y] by simp
  next
    case False
    then show ?thesis using Cons by simp
  qed
qed simp

lemma in_apps: "a \<in> set (apps ps) \<longleftrightarrow> PacketApp a \<in> set ps"
proof (induction ps)
  case (Cons p ps)
  then show ?case by (cases p) auto
qed simp

lemma apps_append: "apps (ps @ qs) = apps ps @ apps qs"
proof (induction ps)
  case (Cons p ps)
  then show ?case by (cases p) auto
qed simp

lemma compute_apps:
  assumes "ComputeCompoundRTCPPacket E fs [type] ids q s = Some (None, ps, s')" "sm_ok (tx_report_flags s)"
    "(type, b) \<in> set signals" "list_all (\<lambda>x. \<not> IsFlagPresent x s) app_types"
  shows "\<exists>a. apps ps = [a] \<and> signal_app b a"
  using assms(1,2)
proof (rule compute_steps)
  fix u ps' bye
  let ?p = "PrepareReport (en_clock E) fs q u" and ?cx = "\<lparr>cx_env = E, cx_feedback_state = fs, cx_nack_list = ids\<rparr>"
  let ?P = "\<lambda>t x. kind t x \<and> (t = type \<longrightarrow> (\<exists>a. x = PacketApp a \<and> signal_app b a))"
  assume u: "begin_call (en_clock E) [type] s = (None, u)" and ps: "ps = ps' @ (case bye of None \<Rightarrow> [] | Some p \<Rightarrow> [p])"
    and k: "list_all2 kind (due (tx_report_flags ?p)) ps'"
    and "\<exists>t. build_packets ?cx q (tx_report_flags ?p) [] None ?p = Some (True, ps', bye, t) \<and> s' = notify_counter t"
  then obtain t where t: "build_packets ?cx q (tx_report_flags ?p) [] None ?p = Some (True, ps', bye, t)" by blast
  note fl = begin_call_flags [OF u assms(2)]
  have ty: "type \<in> set app_types" using assms(3) by (auto simp: signals_def app_types_def)
  have keys: "x \<in> keys ?p \<longleftrightarrow> x = type" if "x \<in> set app_types" for x
    using PrepareReport_keys(1) fl(3) app_types_caller [OF that] assms(4) that by (simp add: list_all_iff IsFlagPresent_keys)
  have "True \<and> list_all (\<lambda>x. \<exists>t \<in> keys ?p. ?P t x) ps' \<and> pred_option (?P kRtcpBye) bye"
  proof (rule build_packets_rule [where I = "\<lambda>_. True" and P = ?P, OF _ _ t])
    fix y f v p v'
    assume "map_of builders y = Some f" "f ?cx q v = Some (p, v')"
    then show "True \<and> (\<forall>x. p = Some x \<longrightarrow> ?P y x)"
      using builders_build [of y f] signal_builder [OF assms(3)] unfolding builds_def by fastforce
  qed (simp_all add: keys_def)
  then have l: "list_all (\<lambda>x. \<exists>t \<in> keys ?p. ?P t x) ps'" and bye: "pred_option (kind kRtcpBye) bye" by (auto simp: pred_option_def)
  have no_bye: "apps (case bye of None \<Rightarrow> [] | Some p \<Rightarrow> [p]) = []"
  proof (cases bye)
    case (Some p)
    then show ?thesis using bye by (cases p) (auto simp: sender_types)
  qed simp
  have "sm_ok (tx_report_flags ?p)" using PrepareReport_flags [OF fl(1)] by blast
  then have "distinct (due (tx_report_flags ?p))" using sm_ok_due strict_sorted_iff by blast
  moreover have "type \<in> set (due (tx_report_flags ?p))"
    using keys [OF ty] app_types_caller [OF ty] by (auto simp: due_def keys_def)
  moreover have "y \<in> set app_types \<longleftrightarrow> y = type" if "y \<in> set (due (tx_report_flags ?p))" for y
    using that keys [of y] ty by (auto simp: due_def keys_def)
  ultimately have "length (apps ps') = 1" using length_apps [OF k] filter_single [of "due (tx_report_flags ?p)" type] by simp
  then obtain a where a: "apps ps' = [a]" by (auto simp: length_Suc_conv)
  then have "PacketApp a \<in> set ps'" using in_apps [of a ps'] by simp
  then obtain y where y: "y \<in> keys ?p" "?P y (PacketApp a)" using l by (auto simp: list_all_iff)
  then have "y \<in> set app_types" by (auto simp: app_types_def)
  then have "y = type" using keys y(1) by blast
  then show ?thesis using y(2) a no_bye by (auto simp: ps apps_append)
qed

section \<open>Decimal numbers\<close>

lemma digits_step: "digits n = (if n < 10 then [48 + of_nat n] else digits (n div 10) @ [48 + of_nat (n mod 10)])"
  by (rule digits.simps)

lemma digit_byte:
  assumes "n < 10"
  shows "48 \<le> (48 + of_nat n :: u8)" "(48 + of_nat n :: u8) \<le> 57" "uint (of_nat n :: u8) = int n"
proof -
  have "unat (48 + of_nat n :: u8) = 48 + n" using assms by (simp add: unat_word_ariths unat_of_nat)
  then show "48 \<le> (48 + of_nat n :: u8)" "(48 + of_nat n :: u8) \<le> 57" using assms by (simp_all add: word_le_nat_alt)
  show "uint (of_nat n :: u8) = int n" using assms by (simp add: uint_nat unat_of_nat)
qed

lemma length_digits: "n < 10 ^ Suc k \<Longrightarrow> length (digits n) \<le> Suc k"
proof (induction k arbitrary: n)
  case 0
  then show ?case by (subst digits_step) simp
next
  case (Suc k)
  have "n div 10 < 10 ^ Suc k" using Suc.prems by (simp add: div_less_iff_less_mult mult.commute)
  from Suc.IH [OF this] show ?case by (subst digits_step) simp
qed

lemma length_digits_ge: "10 ^ k \<le> n \<Longrightarrow> Suc k \<le> length (digits n)"
proof (induction k arbitrary: n)
  case 0
  then show ?case by (subst digits_step) simp
next
  case (Suc k)
  have "(10::nat) \<le> 10 ^ Suc k" by simp
  then have "10 \<le> n" using Suc.prems by linarith
  moreover have "10 ^ k \<le> n div 10" using Suc.prems by (simp add: less_eq_div_iff_mult_less_eq mult.commute)
  ultimately show ?case using Suc.IH [of "n div 10"] by (subst digits_step) simp
qed

lemma atoi_digits_digits: "atoi_digits (digits n @ rest) k = atoi_digits rest (10 ^ length (digits n) * k + int n)"
proof (induction n arbitrary: rest k rule: digits.induct)
  case (1 n)
  show ?case
  proof (cases "n < 10")
    case True
    then show ?thesis using digit_byte [OF True] by (simp add: digits_step [of n])
  next
    case False
    have "n mod 10 < 10" by simp
    note d = digit_byte [OF this]
    let ?l = "10 ^ length (digits (n div 10))"
    have "atoi_digits (digits n @ rest) k = atoi_digits rest (10 * (?l * k + int (n div 10)) + int (n mod 10))"
      using False d 1 [OF False, of "[48 + of_nat (n mod 10)] @ rest" k] by (simp add: digits_step [of n])
    also have "10 * (?l * k + int (n div 10)) + int (n mod 10) = 10 ^ length (digits n) * k + int n"
      using False by (simp add: digits_step [of n] algebra_simps zdiv_int zmod_int)
    finally show ?thesis .
  qed
qed

lemma length_digits_iff: "length (digits n) \<le> Suc k \<longleftrightarrow> n < 10 ^ Suc k"
  using length_digits [of n k] length_digits_ge [of "Suc k" n] by linarith

lemma digits_first: "\<exists>c ds. digits n = c # ds \<and> 48 \<le> c"
proof (induction n rule: digits.induct)
  case (1 n)
  then show ?case using digit_byte(1) by (cases "n < 10") (auto simp: digits_step [of n])
qed

lemma atoi_to_string:
  "atoi (to_string n @ rest) = (if n < 0 then map_option uminus (atoi_digits rest (- n)) else atoi_digits rest n)"
proof -
  obtain c ds where d: "digits (nat n) = c # ds" "48 \<le> c" using digits_first by blast
  have "\<not> c \<le> 13" using order_trans [OF d(2), of 13] by auto
  moreover have "c \<noteq> 32" "c \<noteq> 45" "c \<noteq> 43" using d(2) by auto
  ultimately show ?thesis
    using atoi_digits_digits [of "nat (- n)" rest 0] atoi_digits_digits [of "nat n" rest 0]
    by (auto simp: atoi_def to_string_def d(1) is_space_def)
qed

section \<open>Properties\<close>

text \<open>
  C5: everything a call of the RTCP sender builds arrives. Whatever flags were pending, if each packet fits into a datagram, the
  call hands datagrams of at most the configured size to the transport of the path, and the blocks the receiver
  finds in them are, in the same order, blocks from which it parses the packets that were built (up to the fields that do not travel).
\<close>

theorem compound_delivered:
  assumes "ComputeCompoundRTCPPacket E fs ts ids pathid s = Some (None, ps, t)"
    "sm_ok (tx_report_flags s)" "sender_ok s" "env_ok E" "int32 pathid"
    "tx_max_packet_size s \<le> IP_PACKET_SIZE" "list_all (\<lambda>p. room p \<le> tx_max_packet_size s) ps"
  shows "\<exists>ws Hs r. SendCompoundRTCP E fs ts ids pathid s = Some (r, t\<lparr>tx_sent := tx_sent s @ map (\<lambda>w. (w, pathid)) ws\<rparr>) \<and>
    list_all (\<lambda>w. length w \<le> tx_max_packet_size s) ws \<and> concat (map block_headers ws) = concat Hs \<and> list_all2 seen_as ps Hs"
proof -
  obtain ws Hs r where "SendCompoundRTCP E fs ts ids pathid s = Some (r, t\<lparr>tx_sent := tx_sent s @ map (\<lambda>w. (w, pathid)) ws\<rparr>)"
    "datagrams (tx_max_packet_size s) ws (concat Hs)" "list_all2 seen_as ps Hs"
    using send_datagrams [OF assms] by blast
  then show ?thesis using datagrams_headers by blast
qed

theorem compound_delivered_witness:
  "\<exists>ps t ws Hs r. ComputeCompoundRTCPPacket example_env FeedbackState_new [kRtcpPli, kRtcpSdes] [] 2 example_rtcp_sender = Some (None, ps, t) \<and>
    length ps = 4 \<and>
    SendCompoundRTCP example_env FeedbackState_new [kRtcpPli, kRtcpSdes] [] 2 example_rtcp_sender = Some (r, t\<lparr>tx_sent := map (\<lambda>w. (w, 2)) ws\<rparr>) \<and>
    concat (map block_headers ws) = concat Hs \<and> list_all2 seen_as ps Hs"
proof -
  let ?r = "ComputeCompoundRTCPPacket example_env FeedbackState_new [kRtcpPli, kRtcpSdes] [] 2 example_rtcp_sender"
  have "case ?r of Some (None, ps, _) \<Rightarrow> length ps = 4 \<and> list_all (\<lambda>p. room p \<le> tx_max_packet_size example_rtcp_sender) ps | _ \<Rightarrow> False" by code_simp
  then obtain ps t where r: "?r = Some (None, ps, t)" "length ps = 4" "list_all (\<lambda>p. room p \<le> tx_max_packet_size example_rtcp_sender) ps"
    by (auto split: option.splits prod.splits)
  have "sm_ok (tx_report_flags example_rtcp_sender)" "sender_ok example_rtcp_sender" "env_ok example_env"
    "tx_max_packet_size example_rtcp_sender \<le> IP_PACKET_SIZE" "tx_sent example_rtcp_sender = []" by code_simp+
  note ok = this
  have "int32 2" by (simp add: int32_def)
  from compound_delivered [OF r(1) ok(1-3) this ok(4) r(3)] obtain ws Hs x where
    "SendCompoundRTCP example_env FeedbackState_new [kRtcpPli, kRtcpSdes] [] 2 example_rtcp_sender =
       Some (x, t\<lparr>tx_sent := tx_sent example_rtcp_sender @ map (\<lambda>w. (w, 2)) ws\<rparr>)"
    "concat (map block_headers ws) = concat Hs" "list_all2 seen_as ps Hs" by blast
  then show ?thesis using r(1,2) ok(5) by (intro exI [of _ ps] exI [of _ t] exI [of _ ws] exI [of _ Hs] exI [of _ x]) simp
qed

text \<open>
  C6: a full, half or QUIC signal reaches the collector of the other side exactly once, whatever else was pending (other
  application packets excepted) and however many datagrams the call needs.
\<close>

theorem signal_delivered:
  assumes "(type, b) \<in> set signals" "ComputeCompoundRTCPPacket E fs [type] ids pathid s = Some (None, ps, t)"
    "list_all (\<lambda>x. \<not> IsFlagPresent x s) app_types"
    "sm_ok (tx_report_flags s)" "sender_ok s" "env_ok E" "int32 pathid"
    "tx_max_packet_size s \<le> IP_PACKET_SIZE" "list_all (\<lambda>p. room p \<le> tx_max_packet_size s) ps"
    "TimeDelta_ms (ck_us ck) \<noteq> None"
  shows "\<exists>ws r v'. SendRTCP E fs type ids pathid s = Some (r, t\<lparr>tx_sent := tx_sent s @ map (\<lambda>w. (w, pathid)) ws\<rparr>) \<and>
    receive_all fb c ck junk ws v = Some v' \<and> rv_mp v' = mp_signal ck b (rv_mp v)"
proof -
  obtain ws Hs r where w: "SendCompoundRTCP E fs [type] ids pathid s = Some (r, t\<lparr>tx_sent := tx_sent s @ map (\<lambda>w. (w, pathid)) ws\<rparr>)"
    "datagrams (tx_max_packet_size s) ws (concat Hs)" "list_all2 seen_as ps Hs"
    using send_datagrams [OF assms(2,4-9)] by blast
  obtain a where a: "apps ps = [a]" "signal_app b a" using compute_apps [OF assms(2,4,1,3)] by blast
  then have "list_all app_readable (concat Hs)" using seen_all_effect(2) [OF w(3)] by (simp add: app_terminated_def signal_app_def)
  from receive_datagrams [OF assms(10) w(2) this] obtain v' where "receive_all fb c ck junk ws v = Some v'"
    "rv_mp v' = fold (block_effect ck) (concat Hs) (rv_mp v)" by blast
  moreover have "app_effect ck a m = mp_signal ck b m" for m
    using a(2) by (simp add: app_effect_def signal_app_def kMpappname_def kRemoteEstimateName_def)
  ultimately show ?thesis using w(1) a(1) seen_all_effect(1) [OF w(3)] by (auto simp: SendRTCP_def)
qed

theorem signal_delivered_witness:
  "\<exists>ws r t v'. SendRTCP example_env FeedbackState_new kAppSubtypeMpHalf [] 1 example_rtcp_sender =
      Some (r, t\<lparr>tx_sent := map (\<lambda>w. (w, 1)) ws\<rparr>) \<and> receive_all id example_config example_clock [] ws example_receiver = Some v' \<and>
    rv_mp v' = MpSetHalfSignal (ck_ms example_clock) (rv_mp example_receiver)"
proof -
  let ?r = "ComputeCompoundRTCPPacket example_env FeedbackState_new [kAppSubtypeMpHalf] [] 1 example_rtcp_sender"
  have "case ?r of Some (None, ps, _) \<Rightarrow> list_all (\<lambda>p. room p \<le> tx_max_packet_size example_rtcp_sender) ps | _ \<Rightarrow> False" by code_simp
  then obtain ps t where r: "?r = Some (None, ps, t)" "list_all (\<lambda>p. room p \<le> tx_max_packet_size example_rtcp_sender) ps"
    by (auto split: option.splits prod.splits)
  have ok: "sm_ok (tx_report_flags example_rtcp_sender)" "sender_ok example_rtcp_sender" "env_ok example_env"
    "tx_max_packet_size example_rtcp_sender \<le> IP_PACKET_SIZE" "tx_sent example_rtcp_sender = []"
    "list_all (\<lambda>x. \<not> IsFlagPresent x example_rtcp_sender) app_types" "TimeDelta_ms (ck_us example_clock) \<noteq> None" by code_simp+
  have s: "(kAppSubtypeMpHalf, 98) \<in> set signals" by (simp add: signals_def)
  have "mp_signal example_clock 98 (rv_mp example_receiver) = MpSetHalfSignal (ck_ms example_clock) (rv_mp example_receiver)"
    by (simp add: mp_signal_def)
  then show ?thesis
    using signal_delivered [OF s r(1) ok(6,1,2,3) _ ok(4) r(2) ok(7), of id example_config "[]" example_receiver] ok(5)
    by (auto simp: int32_def)
qed



end
