(* ===== verification/FeedbackAdapter.thy ===== *)
theory FeedbackAdapter
  imports TransportFeedback StdMap NetworkTypes RtpPacket
begin

text \<open>
  \<open>TransportFeedbackAdapter\<close> (\<open>modules/congestion_controller/rtp/transport_feedback_adapter.cc\<close>) runs
  at the sender, once for each path. It keeps the packets sent on the path by their unwrapped number there,
  counts the bytes in flight on each network route, and turns a transport feedback packet into the
  results the congestion controller reads. \<open>TransportFeedbackDemuxer\<close>
  (\<open>transport_feedback_demuxer.cc\<close>) tells the streams which of their packets arrived. Times are in
  microseconds and sizes in bytes, as in \<open>NetworkTypes\<close>; \<open>None\<close> is a signed overflow.
\<close>

section \<open>Messages\<close>

record PacedPacketInfo =
  ppi_send_bitrate_bps :: int
  ppi_probe_cluster_id :: int
  ppi_probe_cluster_min_probes :: int
  ppi_probe_cluster_min_bytes :: int
  ppi_probe_cluster_bytes_sent :: int

text \<open>\<open>SentPacket\<close> of \<open>network_types.h\<close>, without \<open>pathid\<close>, which is never set nor read.\<close>

record SentPacket =
  sp_send_time :: int
  sp_size :: int
  sp_prior_unacked_data :: int
  sp_pacing_info :: PacedPacketInfo
  sp_audio :: bool
  sp_sequence_number :: int
  sp_mp_sequence_number :: int
  sp_data_in_flight :: int

record PacketResult =
  pr_sent_packet :: SentPacket
  pr_receive_time :: int

record TransportPacketsFeedback =
  fb_feedback_time :: int
  fb_first_unacked_send_time :: int
  fb_data_in_flight :: int
  fb_prior_in_flight :: int
  fb_packet_feedbacks :: "PacketResult list"

definition ReceiveTimeOrder :: "PacketResult \<Rightarrow> PacketResult \<Rightarrow> bool" where
  "ReceiveTimeOrder a b =
     (if pr_receive_time a \<noteq> pr_receive_time b then pr_receive_time a < pr_receive_time b
      else if sp_send_time (pr_sent_packet a) \<noteq> sp_send_time (pr_sent_packet b)
      then sp_send_time (pr_sent_packet a) < sp_send_time (pr_sent_packet b)
      else sp_sequence_number (pr_sent_packet a) < sp_sequence_number (pr_sent_packet b))"

definition ReceivedWithSendInfo :: "TransportPacketsFeedback \<Rightarrow> PacketResult list" where
  "ReceivedWithSendInfo fb = filter (\<lambda>r. IsFinite (pr_receive_time r)) (fb_packet_feedbacks fb)"

definition LostWithSendInfo :: "TransportPacketsFeedback \<Rightarrow> PacketResult list" where
  "LostWithSendInfo fb = filter (\<lambda>r. pr_receive_time r = PlusInfinityVal) (fb_packet_feedbacks fb)"

text \<open>\<open>std::sort\<close> by the comparison, as an insertion sort.\<close>

fun insert_result :: "PacketResult \<Rightarrow> PacketResult list \<Rightarrow> PacketResult list" where
  "insert_result r [] = [r]"
| "insert_result r (x # xs) = (if ReceiveTimeOrder x r then x # insert_result r xs else r # x # xs)"

definition SortedByReceiveTime :: "TransportPacketsFeedback \<Rightarrow> PacketResult list" where
  "SortedByReceiveTime fb = foldr insert_result (ReceivedWithSendInfo fb) []"

text \<open>Routes (\<open>rtc_base/network_route.h\<close>).\<close>

record RouteEndpoint =
  re_adapter_type :: int
  re_adapter_id :: u16
  re_network_id :: u16
  re_uses_turn :: bool

record NetworkRoute =
  nr_connected :: bool
  nr_local :: RouteEndpoint
  nr_remote :: RouteEndpoint
  nr_last_sent_packet_id :: int
  nr_packet_overhead :: int

definition RouteEndpoint_new :: RouteEndpoint where
  "RouteEndpoint_new = \<lparr>re_adapter_type = 0, re_adapter_id = 0, re_network_id = 0, re_uses_turn = False\<rparr>"

definition NetworkRoute_new :: NetworkRoute where
  "NetworkRoute_new = \<lparr>nr_connected = False, nr_local = RouteEndpoint_new, nr_remote = RouteEndpoint_new,
     nr_last_sent_packet_id = - 1, nr_packet_overhead = 0\<rparr>"

text \<open>The members of \<open>RtpPacketSendInfo\<close> and \<open>rtc::SentPacket\<close> that are read.\<close>

record RtpPacketSendInfo =
  si_transport_sequence_number :: u16
  si_ssrc :: u32
  si_rtp_sequence_number :: u16
  si_mp_transport_sequence_number :: u16
  si_mp_rtp_sequence_number :: u16
  si_pathid :: int
  si_length :: nat
  si_packet_type :: "RtpPacketMediaType option"
  si_pacing_info :: PacedPacketInfo

record RtcSentPacket =
  sk_packet_mpid :: int
  sk_send_time_ms :: int
  sk_pathid :: int
  sk_included_in_feedback :: bool
  sk_included_in_allocation :: bool
  sk_packet_size_bytes :: nat

section \<open>Times and sizes\<close>

definition unit_minus :: "int \<Rightarrow> int \<Rightarrow> int option" where
  "unit_minus a b =
     (if a = PlusInfinityVal \<or> b = MinusInfinityVal then Some PlusInfinityVal
      else if a = MinusInfinityVal \<or> b = PlusInfinityVal then Some MinusInfinityVal
      else int64 (a - b))"

definition Millis :: "int \<Rightarrow> int option" where
  "Millis ms = int64 (ms * 1000)"

definition RoundDownTo :: "int \<Rightarrow> int \<Rightarrow> int" where
  "RoundDownTo resolution v = v sdiv resolution * resolution"

section \<open>Bytes in flight\<close>

record PacketFeedback =
  pb_creation_time :: int
  pb_sent :: SentPacket
  pb_receive_time :: int
  pb_network_route :: NetworkRoute

definition NetworkRouteComparator :: "NetworkRoute \<Rightarrow> NetworkRoute \<Rightarrow> bool" where
  "NetworkRouteComparator a b =
     (if re_network_id (nr_local a) \<noteq> re_network_id (nr_local b)
      then re_network_id (nr_local a) < re_network_id (nr_local b)
      else if re_network_id (nr_remote a) \<noteq> re_network_id (nr_remote b)
      then re_network_id (nr_remote a) < re_network_id (nr_remote b)
      else if re_adapter_id (nr_local a) \<noteq> re_adapter_id (nr_local b)
      then re_adapter_id (nr_local a) < re_adapter_id (nr_local b)
      else if re_adapter_id (nr_remote a) \<noteq> re_adapter_id (nr_remote b)
      then re_adapter_id (nr_remote a) < re_adapter_id (nr_remote b)
      else if re_uses_turn (nr_local a) \<noteq> re_uses_turn (nr_local b)
      then re_uses_turn (nr_local a) < re_uses_turn (nr_local b)
      else if re_uses_turn (nr_remote a) \<noteq> re_uses_turn (nr_remote b)
      then re_uses_turn (nr_remote a) < re_uses_turn (nr_remote b)
      else nr_connected a < nr_connected b)"

text \<open>
  \<open>in_flight_data_\<close>, a map that is never iterated over: two routes are one key when the comparison puts
  neither before the other.
\<close>

type_synonym in_flight = "(NetworkRoute \<times> int) list"

definition same_route :: "NetworkRoute \<Rightarrow> NetworkRoute \<Rightarrow> bool" where
  "same_route a b \<longleftrightarrow> \<not> NetworkRouteComparator a b \<and> \<not> NetworkRouteComparator b a"

definition in_flight_find :: "NetworkRoute \<Rightarrow> in_flight \<Rightarrow> int option" where
  "in_flight_find r m = map_option snd (List.find (\<lambda>x. same_route (fst x) r) m)"

definition in_flight_set :: "NetworkRoute \<Rightarrow> int \<Rightarrow> in_flight \<Rightarrow> in_flight" where
  "in_flight_set r v m = map (\<lambda>x. if same_route (fst x) r then (fst x, v) else x) m"

definition in_flight_erase :: "NetworkRoute \<Rightarrow> in_flight \<Rightarrow> in_flight" where
  "in_flight_erase r m = filter (\<lambda>x. \<not> same_route (fst x) r) m"

definition AddInFlightPacketBytes :: "PacketFeedback \<Rightarrow> in_flight \<Rightarrow> in_flight option" where
  "AddInFlightPacketBytes packet m =
     (case in_flight_find (pb_network_route packet) m of
        None \<Rightarrow> Some ((pb_network_route packet, sp_size (pb_sent packet)) # m)
      | Some v \<Rightarrow>
          do { v \<leftarrow> unit_plus v (sp_size (pb_sent packet));
               Some (in_flight_set (pb_network_route packet) v m) })"

definition RemoveInFlightPacketBytes :: "PacketFeedback \<Rightarrow> in_flight \<Rightarrow> in_flight option" where
  "RemoveInFlightPacketBytes packet m =
     (if \<not> IsFinite (sp_send_time (pb_sent packet)) then Some m
      else case in_flight_find (pb_network_route packet) m of
             None \<Rightarrow> Some m
           | Some v \<Rightarrow>
               do { v \<leftarrow> (if v < sp_size (pb_sent packet) then Some 0
                          else unit_minus v (sp_size (pb_sent packet)));
                    Some (if v = 0 then in_flight_erase (pb_network_route packet) m
                          else in_flight_set (pb_network_route packet) v m) })"

definition InFlight_GetOutstandingData :: "NetworkRoute \<Rightarrow> in_flight \<Rightarrow> int" where
  "InFlight_GetOutstandingData r m = (case in_flight_find r m of None \<Rightarrow> 0 | Some v \<Rightarrow> v)"

section \<open>The adapter\<close>

record TransportFeedbackAdapter =
  ta_pending_untracked_size :: int
  ta_last_send_time :: int
  ta_last_untracked_send_time :: int
  ta_seq_num_unwrapper :: "int option"
  ta_history :: "(int, PacketFeedback) smap"
  ta_last_ack_seq_num :: int
  ta_in_flight :: in_flight
  ta_current_offset :: int
  ta_last_timestamp :: int
  ta_network_route :: NetworkRoute

definition kSendTimeHistoryWindow :: int where "kSendTimeHistoryWindow = 240 * 1000000"

definition TransportFeedbackAdapter_new :: TransportFeedbackAdapter where
  "TransportFeedbackAdapter_new =
     \<lparr>ta_pending_untracked_size = 0, ta_last_send_time = MinusInfinityVal,
      ta_last_untracked_send_time = MinusInfinityVal, ta_seq_num_unwrapper = None, ta_history = [],
      ta_last_ack_seq_num = - 1, ta_in_flight = [], ta_current_offset = MinusInfinityVal,
      ta_last_timestamp = MinusInfinityVal, ta_network_route = NetworkRoute_new\<rparr>"

text \<open>The loop that drops the packets that are too old.\<close>

fun drop_old :: "int \<Rightarrow> int \<Rightarrow> (int, PacketFeedback) smap \<Rightarrow> in_flight \<Rightarrow>
  ((int, PacketFeedback) smap \<times> in_flight) option" where
  "drop_old creation_time last_ack [] m = Some ([], m)"
| "drop_old creation_time last_ack ((k, p) # h) m =
     do { age \<leftarrow> unit_minus creation_time (pb_creation_time p);
          if age > kSendTimeHistoryWindow
          then do { m \<leftarrow> (if sp_sequence_number (pb_sent p) > last_ack
                          then RemoveInFlightPacketBytes p m else Some m);
                    drop_old creation_time last_ack h m }
          else Some ((k, p) # h, m) }"

text \<open>\<open>std::map::insert\<close> keeps the entry that is there.\<close>

definition sm_insert :: "'k::linorder \<Rightarrow> 'v \<Rightarrow> ('k, 'v) smap \<Rightarrow> ('k, 'v) smap" where
  "sm_insert k v m = (if map_of m k = None then sm_put k v m else m)"

definition AddPacket :: "RtpPacketSendInfo \<Rightarrow> nat \<Rightarrow> int \<Rightarrow> TransportFeedbackAdapter \<Rightarrow> TransportFeedbackAdapter option" where
  "AddPacket info overhead_bytes creation_time a =
     (let (_, u) = Unwrap16 (si_transport_sequence_number info) (ta_seq_num_unwrapper a);
          (sequence_number, u) = Unwrap16 (si_transport_sequence_number info) u;
          (mp_sequence_number, u) = Unwrap16 (si_mp_transport_sequence_number info) u;
          packet = \<lparr>pb_creation_time = creation_time,
                    pb_sent = \<lparr>sp_send_time = PlusInfinityVal, sp_size = int (si_length info + overhead_bytes),
                               sp_prior_unacked_data = 0, sp_pacing_info = si_pacing_info info,
                               sp_audio = (si_packet_type info = Some kAudio),
                               sp_sequence_number = sequence_number,
                               sp_mp_sequence_number = mp_sequence_number, sp_data_in_flight = 0\<rparr>,
                    pb_receive_time = PlusInfinityVal, pb_network_route = ta_network_route a\<rparr>
      in do { (h, m) \<leftarrow> drop_old creation_time (ta_last_ack_seq_num a) (ta_history a) (ta_in_flight a);
              Some (a\<lparr>ta_seq_num_unwrapper := u, ta_history := sm_insert mp_sequence_number packet h,
                      ta_in_flight := m\<rparr>) })"

definition Adapter_GetOutstandingData :: "TransportFeedbackAdapter \<Rightarrow> int" where
  "Adapter_GetOutstandingData a = InFlight_GetOutstandingData (ta_network_route a) (ta_in_flight a)"

definition SetNetworkRoute :: "NetworkRoute \<Rightarrow> TransportFeedbackAdapter \<Rightarrow> TransportFeedbackAdapter" where
  "SetNetworkRoute r a = a\<lparr>ta_network_route := r\<rparr>"

text \<open>A packet of the history is sent; a number that is not there changes only the unwrapper.\<close>

definition tracked_sent ::
  "int \<Rightarrow> int \<Rightarrow> TransportFeedbackAdapter \<Rightarrow> (SentPacket option \<times> TransportFeedbackAdapter) option" where
  "tracked_sent k send_time a =
     (case map_of (ta_history a) k of
        None \<Rightarrow> Some (None, a)
      | Some p \<Rightarrow>
          let packet_retransmit = IsFinite (sp_send_time (pb_sent p));
              p = p\<lparr>pb_sent := (pb_sent p)\<lparr>sp_send_time := send_time\<rparr>\<rparr>;
              a = a\<lparr>ta_last_send_time := max (ta_last_send_time a) send_time\<rparr>
          in do { (p, a) \<leftarrow> (if ta_pending_untracked_size a \<noteq> 0
                    then do { d \<leftarrow> unit_plus (sp_prior_unacked_data (pb_sent p)) (ta_pending_untracked_size a);
                              Some (p\<lparr>pb_sent := (pb_sent p)\<lparr>sp_prior_unacked_data := d\<rparr>\<rparr>,
                                    a\<lparr>ta_pending_untracked_size := 0\<rparr>) }
                    else Some (p, a));
                  if packet_retransmit then Some (None, a\<lparr>ta_history := sm_put k p (ta_history a)\<rparr>)
                  else do { m \<leftarrow> (if sp_sequence_number (pb_sent p) > ta_last_ack_seq_num a
                                  then AddInFlightPacketBytes p (ta_in_flight a) else Some (ta_in_flight a));
                            let a = a\<lparr>ta_in_flight := m\<rparr>;
                                p = p\<lparr>pb_sent := (pb_sent p)\<lparr>sp_data_in_flight := Adapter_GetOutstandingData a\<rparr>\<rparr>
                            in Some (Some (pb_sent p), a\<lparr>ta_history := sm_put k p (ta_history a)\<rparr>) } })"

definition ProcessSentPacket ::
  "RtcSentPacket \<Rightarrow> TransportFeedbackAdapter \<Rightarrow> (SentPacket option \<times> TransportFeedbackAdapter) option" where
  "ProcessSentPacket s a =
     do { send_time \<leftarrow> Millis (sk_send_time_ms s);
          if sk_included_in_feedback s \<or> sk_packet_mpid s \<noteq> - 1
          then let (k, u) = Unwrap16 (word_of_int (sk_packet_mpid s)) (ta_seq_num_unwrapper a)
               in tracked_sent k send_time (a\<lparr>ta_seq_num_unwrapper := u\<rparr>)
          else if sk_included_in_allocation s
          then do { d \<leftarrow> unit_plus (ta_pending_untracked_size a) (int (sk_packet_size_bytes s));
                    Some (None, a\<lparr>ta_pending_untracked_size := d,
                                  ta_last_untracked_send_time := max (ta_last_untracked_send_time a) send_time\<rparr>) }
          else Some (None, a) }"

section \<open>Feedback\<close>

text \<open>The time base of a feedback packet.\<close>

definition move_offset :: "TransportFeedback \<Rightarrow> int \<Rightarrow> TransportFeedbackAdapter \<Rightarrow> TransportFeedbackAdapter option" where
  "move_offset f feedback_receive_time a =
     do { offset \<leftarrow> (if \<not> IsFinite (ta_last_timestamp a) then Some feedback_receive_time
            else let delta = RoundDownTo 1000 (GetBaseDeltaUs (ta_last_timestamp a) f)
                 in do { low \<leftarrow> unit_minus 0 (ta_current_offset a);
                         if delta < low then Some feedback_receive_time
                         else unit_plus (ta_current_offset a) delta });
          Some (a\<lparr>ta_current_offset := offset, ta_last_timestamp := GetBaseTimeUs f\<rparr>) }"

text \<open>The packets up to a number count as acknowledged.\<close>

fun remove_all :: "PacketFeedback list \<Rightarrow> in_flight \<Rightarrow> in_flight option" where
  "remove_all [] m = Some m"
| "remove_all (p # ps) m = do { m \<leftarrow> RemoveInFlightPacketBytes p m; remove_all ps m }"

definition acknowledge :: "int \<Rightarrow> TransportFeedbackAdapter \<Rightarrow> TransportFeedbackAdapter option" where
  "acknowledge seq_num a =
     (if seq_num > ta_last_ack_seq_num a
      then do { m \<leftarrow> remove_all (map snd (filter (\<lambda>x. ta_last_ack_seq_num a < fst x \<and> fst x \<le> seq_num)
                                            (ta_history a))) (ta_in_flight a);
                Some (a\<lparr>ta_in_flight := m, ta_last_ack_seq_num := seq_num\<rparr>) }
      else Some a)"

text \<open>The loop over the packets: the offset of the last arrival and the results so far.\<close>

fun feedback_results ::
  "ReceivedPacket list \<Rightarrow> int \<Rightarrow> TransportFeedbackAdapter \<Rightarrow> (PacketResult list \<times> TransportFeedbackAdapter) option" where
  "feedback_results [] packet_offset a = Some ([], a)"
| "feedback_results (packet # packets) packet_offset a =
     (let (seq_num, u) = Unwrap16 (rcv_sequence_number packet) (ta_seq_num_unwrapper a)
      in do { a \<leftarrow> acknowledge seq_num (a\<lparr>ta_seq_num_unwrapper := u\<rparr>);
              case map_of (ta_history a) seq_num of
                None \<Rightarrow> feedback_results packets packet_offset a
              | Some p \<Rightarrow>
                  if \<not> IsFinite (sp_send_time (pb_sent p)) then feedback_results packets packet_offset a
                  else case rcv_delta_ticks packet of
                         None \<Rightarrow>
                           do { (rs, a) \<leftarrow> feedback_results packets packet_offset a;
                                Some (\<lparr>pr_sent_packet = pb_sent p, pr_receive_time = pb_receive_time p\<rparr> # rs, a) }
                       | Some d \<Rightarrow>
                           do { packet_offset \<leftarrow> unit_plus packet_offset (d * kDeltaScaleFactor);
                                t \<leftarrow> unit_plus (ta_current_offset a) (RoundDownTo 1000 packet_offset);
                                (rs, a) \<leftarrow> feedback_results packets packet_offset
                                            (a\<lparr>ta_history := sm_erase seq_num (ta_history a)\<rparr>);
                                Some (\<lparr>pr_sent_packet = pb_sent p, pr_receive_time = t\<rparr> # rs, a) } })"

definition ProcessTransportFeedbackInner ::
  "TransportFeedback \<Rightarrow> int \<Rightarrow> TransportFeedbackAdapter \<Rightarrow> (PacketResult list \<times> TransportFeedbackAdapter) option" where
  "ProcessTransportFeedbackInner f feedback_receive_time a =
     do { a \<leftarrow> move_offset f feedback_receive_time a; feedback_results (tf_all_packets f) 0 a }"

definition ProcessTransportFeedback ::
  "TransportFeedback \<Rightarrow> int \<Rightarrow> TransportFeedbackAdapter \<Rightarrow>
   (TransportPacketsFeedback option \<times> TransportFeedbackAdapter) option" where
  "ProcessTransportFeedback f feedback_receive_time a =
     (if tf_num_seq_no f = 0 then Some (None, a)
      else let prior = InFlight_GetOutstandingData (ta_network_route a) (ta_in_flight a)
           in do { (rs, a) \<leftarrow> ProcessTransportFeedbackInner f feedback_receive_time a;
                   if rs = [] then Some (None, a)
                   else Some (Some
                     \<lparr>fb_feedback_time = feedback_receive_time,
                      fb_first_unacked_send_time =
                        (case map_of (ta_history a) (ta_last_ack_seq_num a) of
                           None \<Rightarrow> PlusInfinityVal | Some p \<Rightarrow> sp_send_time (pb_sent p)),
                      fb_data_in_flight = InFlight_GetOutstandingData (ta_network_route a) (ta_in_flight a),
                      fb_prior_in_flight = prior, fb_packet_feedbacks = rs\<rparr>, a) })"

section \<open>The demuxer\<close>

definition kMaxPacketsInHistory :: nat where "kMaxPacketsInHistory = 5000"

record StreamPacketInfo =
  st_ssrc :: u32
  st_rtp_sequence_number :: u16
  st_mp_rtp_sequence_number :: u16
  st_received :: bool
  st_pathid :: "int option"

text \<open>
  The path is not initialised (\<open>None\<close>) until feedback sets it. An observer is the list of its streams; it is named by a number.
\<close>

record TransportFeedbackDemuxer =
  dx_seq_num_unwrapper :: "int option"
  dx_history :: "(int, StreamPacketInfo) smap"
  dx_history_s :: "(int, StreamPacketInfo) smap"
  dx_observers :: "(u32 list \<times> nat) list"

definition RegisterStreamFeedbackObserver :: "u32 list \<Rightarrow> nat \<Rightarrow> TransportFeedbackDemuxer \<Rightarrow> TransportFeedbackDemuxer" where
  "RegisterStreamFeedbackObserver ssrcs observer d = d\<lparr>dx_observers := dx_observers d @ [(ssrcs, observer)]\<rparr>"

fun erase_observer :: "nat \<Rightarrow> (u32 list \<times> nat) list \<Rightarrow> (u32 list \<times> nat) list option" where
  "erase_observer observer [] = None"
| "erase_observer observer (x # xs) =
     (if snd x = observer then Some xs else map_option ((#) x) (erase_observer observer xs))"

text \<open>\<open>None\<close>: the observer is not registered, and the end of the vector is erased.\<close>

definition DeRegisterStreamFeedbackObserver :: "nat \<Rightarrow> TransportFeedbackDemuxer \<Rightarrow> TransportFeedbackDemuxer option" where
  "DeRegisterStreamFeedbackObserver observer d =
     map_option (\<lambda>xs. d\<lparr>dx_observers := xs\<rparr>) (erase_observer observer (dx_observers d))"

definition keep_newest :: "('k, 'v) smap \<Rightarrow> ('k, 'v) smap" where
  "keep_newest m = drop (length m - kMaxPacketsInHistory) m"

definition Demuxer_AddPacket :: "RtpPacketSendInfo \<Rightarrow> TransportFeedbackDemuxer \<Rightarrow> TransportFeedbackDemuxer" where
  "Demuxer_AddPacket info d =
     (let d = (if si_ssrc info \<noteq> 0
               then let packet = \<lparr>st_ssrc = si_ssrc info, st_rtp_sequence_number = si_rtp_sequence_number info,
                          st_mp_rtp_sequence_number = si_mp_rtp_sequence_number info, st_received = False,
                          st_pathid = None\<rparr>;
                        (k, u) = Unwrap16 (si_mp_transport_sequence_number info) (dx_seq_num_unwrapper d);
                        d = d\<lparr>dx_seq_num_unwrapper := u\<rparr>
                    in if si_pathid info \<noteq> 2 then d\<lparr>dx_history := sm_insert k packet (dx_history d)\<rparr>
                       else d\<lparr>dx_history_s := sm_insert k packet (dx_history_s d)\<rparr>
               else d)
      in if si_pathid info \<noteq> 2 then d\<lparr>dx_history := keep_newest (dx_history d)\<rparr>
         else d\<lparr>dx_history_s := keep_newest (dx_history_s d)\<rparr>)"

text \<open>The packets of a feedback packet that are in the history of its path.\<close>

fun stream_feedbacks ::
  "int option \<Rightarrow> int \<Rightarrow> ReceivedPacket list \<Rightarrow> (int, StreamPacketInfo) smap \<Rightarrow>
   StreamPacketInfo list \<times> (int, StreamPacketInfo) smap" where
  "stream_feedbacks u pathid [] h = ([], h)"
| "stream_feedbacks u pathid (packet # packets) h =
     (let seq_num = UnwrapWithoutUpdate16 (rcv_sequence_number packet) u;
          received = (rcv_delta_ticks packet \<noteq> None)
      in case map_of h seq_num of
           None \<Rightarrow> stream_feedbacks u pathid packets h
         | Some info \<Rightarrow>
             let (infos, h) = stream_feedbacks u pathid packets (if received then sm_erase seq_num h else h)
             in (info\<lparr>st_received := received, st_pathid := Some pathid\<rparr> # infos, h))"

text \<open>What each observer is called with, in the order of registration.\<close>

definition selected_feedback :: "StreamPacketInfo list \<Rightarrow> (u32 list \<times> nat) list \<Rightarrow> (nat \<times> StreamPacketInfo list) list" where
  "selected_feedback infos observers =
     filter (\<lambda>x. snd x \<noteq> [])
       (map (\<lambda>(ssrcs, observer). (observer, filter (\<lambda>i. st_ssrc i \<in> set ssrcs) infos)) observers)"

definition Demuxer_OnTransportFeedback ::
  "TransportFeedback \<Rightarrow> int \<Rightarrow> TransportFeedbackDemuxer \<Rightarrow> (nat \<times> StreamPacketInfo list) list \<times> TransportFeedbackDemuxer" where
  "Demuxer_OnTransportFeedback f pathid d =
     (let (infos, h) = stream_feedbacks (dx_seq_num_unwrapper d) pathid (tf_all_packets f)
                         (if pathid \<noteq> 2 then dx_history d else dx_history_s d);
          d = (if pathid \<noteq> 2 then d\<lparr>dx_history := h\<rparr> else d\<lparr>dx_history_s := h\<rparr>)
      in (selected_feedback infos (dx_observers d), d))"

end
