(* ===== verification/RemoteProxy.thy ===== *)
theory RemoteProxy
  imports TransportFeedback StdMap NetworkTypes
begin

text \<open>
  \<open>RemoteEstimatorProxy\<close> (\<open>modules/remote_bitrate_estimator/remote_estimator_proxy.cc\<close>) runs at the
  receiver. It notes when the packets of each path arrive, by the unwrapped number of the path, and
  reports the times to the sender in transport feedback packets: at intervals, or when a packet asks
  for it. The code repeats its statements for the members of the primary path (\<open>_p_\<close>) and of the
  secondary one (\<open>_s_\<close>); here they are one record for each path and one definition for both copies.
  The results are \<open>None\<close> where the code reads past the end of a map or does not return, and
  \<open>Fails\<close> where an \<open>RTC_CHECK\<close> stops the process. The clock stands still during one call.
\<close>

section \<open>State\<close>

definition kMaxNumberOfPackets :: int where "kMaxNumberOfPackets = 2 ^ 15"

definition kMaxTimeMs :: int where "kMaxTimeMs = (2 ^ 63 - 1) div 1000"

text \<open>\<open>TransportWideFeedbackConfig\<close>: the times in milliseconds, as \<open>ms()\<close> gives them.\<close>

record TransportWideFeedbackConfig =
  wf_back_window :: int
  wf_min_interval :: int
  wf_max_interval :: int
  wf_default_interval :: int
  wf_bandwidth_fraction :: double

definition feedback_config_default :: TransportWideFeedbackConfig where
  "feedback_config_default = \<lparr>wf_back_window = 500, wf_min_interval = 50, wf_max_interval = 250,
     wf_default_interval = 100, wf_bandwidth_fraction = dround (1 / 20)\<rparr>"

record PathFeedback =
  pf_last_process_time_ms :: int
  pf_window_start_seq :: "int option"
  pf_arrival_times :: "(int, int) smap"
  pf_packet_count :: u8

text \<open>
  \<open>rp_sent\<close> lists what \<open>SendCombinedRtcpPacket\<close> is called with, \<open>rp_estimator_input\<close> what
  \<open>NetworkStateEstimator::OnReceivedPacket\<close> is called with: receive time and send time in microseconds, size.
\<close>

record RemoteEstimatorProxy =
  rp_config :: TransportWideFeedbackConfig
  rp_has_estimator :: bool
  rp_last_process_time_ms :: int
  rp_media_ssrc :: u32
  rp_unwrapper :: "int \<times> u16 option"
  rp_p :: PathFeedback
  rp_s :: PathFeedback
  rp_send_interval_ms :: int
  rp_send_periodic_feedback :: bool
  rp_previous_abs_send_time :: u32
  rp_abs_send_timestamp :: int
  rp_sent :: "(int \<times> TransportFeedback) list"
  rp_estimator_input :: "(int \<times> int \<times> int) list"

definition path_new :: PathFeedback where
  "path_new = \<lparr>pf_last_process_time_ms = - 1, pf_window_start_seq = None, pf_arrival_times = [],
     pf_packet_count = 0\<rparr>"

definition RemoteEstimatorProxy_new ::
  "TransportWideFeedbackConfig \<Rightarrow> bool \<Rightarrow> int \<Rightarrow> RemoteEstimatorProxy" where
  "RemoteEstimatorProxy_new config estimator now_us =
     \<lparr>rp_config = config, rp_has_estimator = estimator, rp_last_process_time_ms = - 1, rp_media_ssrc = 0,
      rp_unwrapper = (0, None), rp_p = path_new, rp_s = path_new,
      rp_send_interval_ms = wf_default_interval config, rp_send_periodic_feedback = True,
      rp_previous_abs_send_time = 0, rp_abs_send_timestamp = now_us, rp_sent = [], rp_estimator_input = []\<rparr>"

text \<open>The members of \<open>FeedbackRequest\<close> and \<open>RTPHeader\<close> that the class reads.\<close>

record FeedbackRequest =
  fr_include_timestamps :: bool
  fr_sequence_count :: int

record RTPHeader =
  rh_ssrc :: u32
  rh_headerLength :: nat
  rh_hassandy :: bool
  rh_sandy :: u8
  rh_hasMpTransportSequenceNumber :: bool
  rh_mptransportSequenceNumber :: u16
  rh_feedback_request :: "FeedbackRequest option"
  rh_hasAbsoluteSendTime :: bool
  rh_absoluteSendTime :: u32

section \<open>Building a packet\<close>

definition lower_bound :: "int \<Rightarrow> (int, 'v) smap \<Rightarrow> (int, 'v) smap" where
  "lower_bound k m = dropWhile (\<lambda>x. fst x < k) m"

text \<open>The loop over the arrivals; \<open>first\<close> is \<open>it == begin_iterator\<close>.\<close>

fun add_arrivals ::
  "bool \<Rightarrow> int \<Rightarrow> (int \<times> int) list \<Rightarrow> TransportFeedback \<Rightarrow> (int \<times> TransportFeedback) outcome" where
  "add_arrivals first next_sequence_number [] f = Gives (next_sequence_number, f)"
| "add_arrivals first next_sequence_number ((k, t) # rest) f =
     (case AddReceivedPacket (word_of_int k) (t * 1000) f of
        (False, f) \<Rightarrow> if first then Fails else Gives (next_sequence_number, f)
      | (True, f) \<Rightarrow> add_arrivals False (k + 1) rest f)"

text \<open>
  The iterators: \<open>from_begin\<close> are the entries from \<open>begin_iterator\<close> to the end of the map, whose first
  gives the reference time, and \<open>to_report\<close> those before \<open>end_iterator\<close>.
\<close>

definition BuildFeedbackPacket ::
  "u8 \<Rightarrow> u32 \<Rightarrow> int \<Rightarrow> (int, int) smap \<Rightarrow> (int, int) smap \<Rightarrow> TransportFeedback \<Rightarrow>
   (int \<times> TransportFeedback) outcome option" where
  "BuildFeedbackPacket feedback_packet_count media_ssrc base_sequence_number from_begin to_report f =
     (case from_begin of
        [] \<Rightarrow> None
      | (_, t) # _ \<Rightarrow>
          Some (add_arrivals True base_sequence_number to_report
            (SetFeedbackSequenceNumber feedback_packet_count
              (SetBase (word_of_int base_sequence_number) (t * 1000) (f\<lparr>tf_media_ssrc := media_ssrc\<rparr>)))))"

section \<open>Arrival of a packet\<close>

text \<open>The path of a packet and its number there; the unwrapped number is stored in an \<open>int\<close>.\<close>

definition packet_path :: "RTPHeader \<Rightarrow> int" where
  "packet_path h =
     (if rh_hassandy h \<and> rh_hasMpTransportSequenceNumber h
      then if rh_sandy h = 2 then 2
           else if rh_sandy h = 1 then 1
           else if rh_sandy h \<le> 0 \<or> rh_sandy h = 4 \<or> rh_sandy h = 1 then 1
           else 2
      else - 1)"

definition packet_number :: "RTPHeader \<Rightarrow> int \<times> u16 option \<Rightarrow> int \<times> int \<times> u16 option" where
  "packet_number h st =
     (if rh_hassandy h \<and> rh_hasMpTransportSequenceNumber h
      then let (u, st) = SeqNumUnwrap (rh_mptransportSequenceNumber h) st
           in (signed_take_bit 31 u, st)
      else (- 1, st))"

text \<open>
  The entry of an arrival in the map of its path. \<open>False\<close>: the number is there already, and the
  caller returns at once.
\<close>

definition open_window :: "TransportWideFeedbackConfig \<Rightarrow> int \<Rightarrow> int \<Rightarrow> PathFeedback \<Rightarrow> PathFeedback" where
  "open_window config seq arrival_time_ms p =
     (let p = (case pf_window_start_seq p of
                 None \<Rightarrow> p
               | Some w \<Rightarrow>
                   if lower_bound w (pf_arrival_times p) = []
                   then p\<lparr>pf_arrival_times := dropWhile (\<lambda>(k, t). k < seq \<and>
                            arrival_time_ms - t \<ge> wf_back_window config) (pf_arrival_times p)\<rparr>
                   else p)
      in case pf_window_start_seq p of
           None \<Rightarrow> p\<lparr>pf_window_start_seq := Some seq\<rparr>
         | Some w \<Rightarrow> if seq < w then p\<lparr>pf_window_start_seq := Some seq\<rparr> else p)"

definition note_arrival ::
  "TransportWideFeedbackConfig \<Rightarrow> bool \<Rightarrow> int \<Rightarrow> int \<Rightarrow> PathFeedback \<Rightarrow> bool \<times> PathFeedback" where
  "note_arrival config periodic seq arrival_time_ms p =
     (let p = (if periodic then open_window config seq arrival_time_ms p else p)
      in if map_of (pf_arrival_times p) seq \<noteq> None then (False, p)
         else let m = sm_put seq arrival_time_ms (pf_arrival_times p);
                  keep = lower_bound (fst (last m) - kMaxNumberOfPackets) m
              in if keep = m then (True, p\<lparr>pf_arrival_times := m\<rparr>)
                 else (True, p\<lparr>pf_arrival_times := keep,
                               pf_window_start_seq := (if periodic then Some (fst (hd keep))
                                                       else pf_window_start_seq p)\<rparr>))"

text \<open>
  \<open>SendFeedbackOnRequest\<close>. The two arguments the constructor of the feedback packet is given are taken
  for \<open>include_timestamps\<close> and \<open>include_lost\<close>, so that the path of the packet is the default one, -1.
\<close>

definition SendFeedbackOnRequest ::
  "nat list \<Rightarrow> u32 \<Rightarrow> int \<Rightarrow> FeedbackRequest \<Rightarrow> int \<Rightarrow> PathFeedback \<Rightarrow>
   (PathFeedback \<times> (int \<times> TransportFeedback) list) outcome option" where
  "SendFeedbackOnRequest junk media_ssrc sequence_number r pathid p =
     (if fr_sequence_count r = 0 then Some (Gives (p, []))
      else let feedback_packet = TransportFeedback_new junk (fr_include_timestamps r) (pathid \<noteq> 0) (- 1);
               first_sequence_number = sequence_number - fr_sequence_count r + 1;
               begin_iterator = lower_bound first_sequence_number (pf_arrival_times p)
           in case BuildFeedbackPacket (pf_packet_count p) media_ssrc first_sequence_number begin_iterator
                     (takeWhile (\<lambda>x. fst x \<le> sequence_number) begin_iterator) feedback_packet of
                None \<Rightarrow> None
              | Some Fails \<Rightarrow> Some Fails
              | Some (Gives (_, f)) \<Rightarrow>
                  Some (Gives (p\<lparr>pf_packet_count := pf_packet_count p + 1,
                                 pf_arrival_times := begin_iterator\<rparr>,
                               [(if pathid \<noteq> 2 then 1 else 2, f)])))"

text \<open>The work on one path: \<open>None\<close> in the list of packets is the early return.\<close>

definition IncomingOnPath ::
  "nat list \<Rightarrow> TransportWideFeedbackConfig \<Rightarrow> bool \<Rightarrow> u32 \<Rightarrow> int \<Rightarrow> int \<Rightarrow> FeedbackRequest option \<Rightarrow> int \<Rightarrow>
   PathFeedback \<Rightarrow> (PathFeedback \<times> (int \<times> TransportFeedback) list option) outcome option" where
  "IncomingOnPath junk config periodic media_ssrc seq arrival_time_ms request pathid p =
     (case note_arrival config periodic seq arrival_time_ms p of
        (False, p) \<Rightarrow> Some (Gives (p, None))
      | (True, p) \<Rightarrow>
          (case request of
             None \<Rightarrow> Some (Gives (p, Some []))
           | Some r \<Rightarrow>
               (case SendFeedbackOnRequest junk media_ssrc seq r pathid p of
                  None \<Rightarrow> None
                | Some Fails \<Rightarrow> Some Fails
                | Some (Gives (p, fs)) \<Rightarrow> Some (Gives (p, Some fs)))))"

text \<open>\<open>RTPHeaderExtension::GetAbsoluteSendTimeDelta\<close>, in microseconds, and what the estimator is given.\<close>

definition GetAbsoluteSendTimeDelta :: "u32 \<Rightarrow> u32 \<Rightarrow> int" where
  "GetAbsoluteSendTimeDelta absoluteSendTime previous_sendtime =
     ((signed_take_bit 23 (uint (absoluteSendTime - previous_sendtime))) * 1000000) sdiv (2 ^ 18)"

definition estimator_packet :: "int \<Rightarrow> nat \<Rightarrow> RTPHeader \<Rightarrow> RemoteEstimatorProxy \<Rightarrow> RemoteEstimatorProxy" where
  "estimator_packet arrival_time_ms payload_size h s =
     (if rp_has_estimator s \<and> rh_hasAbsoluteSendTime h
      then let ts = rp_abs_send_timestamp s +
                 max (GetAbsoluteSendTimeDelta (rh_absoluteSendTime h) (rp_previous_abs_send_time s)) 0
           in s\<lparr>rp_abs_send_timestamp := ts, rp_previous_abs_send_time := rh_absoluteSendTime h,
                rp_estimator_input := rp_estimator_input s @
                  [(arrival_time_ms * 1000, ts, int (rh_headerLength h + payload_size))]\<rparr>
      else s)"

definition Proxy_IncomingPacket ::
  "nat list \<Rightarrow> int \<Rightarrow> nat \<Rightarrow> RTPHeader \<Rightarrow> RemoteEstimatorProxy \<Rightarrow> RemoteEstimatorProxy outcome option" where
  "Proxy_IncomingPacket junk arrival_time_ms payload_size h s =
     (if arrival_time_ms < 0 \<or> arrival_time_ms > kMaxTimeMs then Some (Gives s)
      else let s = s\<lparr>rp_media_ssrc := rh_ssrc h\<rparr>;
               pathid = packet_path h;
               (seq, st) = packet_number h (rp_unwrapper s);
               s = s\<lparr>rp_unwrapper := st\<rparr>;
               path = (if pathid \<noteq> 2 then 1 else 2)
           in case IncomingOnPath junk (rp_config s) (rp_send_periodic_feedback s) (rp_media_ssrc s) seq
                     arrival_time_ms (rh_feedback_request h) path (if pathid \<noteq> 2 then rp_p s else rp_s s) of
                None \<Rightarrow> None
              | Some Fails \<Rightarrow> Some Fails
              | Some (Gives (p, sent)) \<Rightarrow>
                  let s = (if pathid \<noteq> 2 then s\<lparr>rp_p := p\<rparr> else s\<lparr>rp_s := p\<rparr>)
                  in Some (Gives (case sent of
                       None \<Rightarrow> s
                     | Some fs \<Rightarrow> estimator_packet arrival_time_ms payload_size h
                                   (s\<lparr>rp_sent := rp_sent s @ fs\<rparr>))))"

section \<open>Periodic feedback\<close>

text \<open>The loop of one path: the window's start, the packet count and the packets sent change.\<close>

partial_function (option) feedback_loop ::
  "nat list \<Rightarrow> int \<Rightarrow> u32 \<Rightarrow> (int, int) smap \<Rightarrow> int \<Rightarrow> u8 \<Rightarrow> TransportFeedback list \<Rightarrow>
   (int \<times> u8 \<times> TransportFeedback list) outcome option" where
  [code]: "feedback_loop junk pathid media_ssrc m w n sent =
     (let begin_iterator = lower_bound w m
      in if begin_iterator = [] then Some (Gives (w, n, sent))
         else case BuildFeedbackPacket n media_ssrc w begin_iterator begin_iterator
                     (TransportFeedback_new junk True True pathid) of
                None \<Rightarrow> None
              | Some r \<Rightarrow>
                  (case r of
                     Fails \<Rightarrow> Some Fails
                   | Gives (w', f) \<Rightarrow> feedback_loop junk pathid media_ssrc m w' (n + 1) (sent @ [f])))"

definition SendPathFeedbacks ::
  "nat list \<Rightarrow> int \<Rightarrow> u32 \<Rightarrow> int \<Rightarrow> PathFeedback \<Rightarrow>
   (PathFeedback \<times> (int \<times> TransportFeedback) list) outcome option" where
  "SendPathFeedbacks junk pathid media_ssrc now p =
     (if pf_last_process_time_ms p < 0 then Some (Gives (p\<lparr>pf_last_process_time_ms := now\<rparr>, []))
      else case pf_window_start_seq p of
             None \<Rightarrow> Some (Gives (p, []))
           | Some w \<Rightarrow>
               (case feedback_loop junk pathid media_ssrc (pf_arrival_times p) w (pf_packet_count p) [] of
                  None \<Rightarrow> None
                | Some Fails \<Rightarrow> Some Fails
                | Some (Gives (w, n, fs)) \<Rightarrow>
                    Some (Gives (p\<lparr>pf_window_start_seq := Some w, pf_packet_count := n,
                                   pf_last_process_time_ms := now\<rparr>, map (Pair pathid) fs))))"

text \<open>
  The estimate \<open>network_state_estimator_\<close> gives is put in a packet that is never sent, so that it
  leaves no trace here.
\<close>

definition SendPeriodicFeedbacks ::
  "nat list \<Rightarrow> int \<Rightarrow> RemoteEstimatorProxy \<Rightarrow> RemoteEstimatorProxy outcome option" where
  "SendPeriodicFeedbacks junk now s =
     (if pf_window_start_seq (rp_p s) = None \<and> pf_window_start_seq (rp_s s) = None then Some (Gives s)
      else case SendPathFeedbacks junk 1 (rp_media_ssrc s) now (rp_p s) of
             None \<Rightarrow> None
           | Some Fails \<Rightarrow> Some Fails
           | Some (Gives (p, fs)) \<Rightarrow>
               let s = s\<lparr>rp_p := p, rp_sent := rp_sent s @ fs\<rparr>
               in case SendPathFeedbacks junk 2 (rp_media_ssrc s) now (rp_s s) of
                    None \<Rightarrow> None
                  | Some Fails \<Rightarrow> Some Fails
                  | Some (Gives (p, fs)) \<Rightarrow> Some (Gives (s\<lparr>rp_s := p, rp_sent := rp_sent s @ fs\<rparr>)))"

definition Proxy_TimeUntilNextProcess :: "int \<Rightarrow> RemoteEstimatorProxy \<Rightarrow> int" where
  "Proxy_TimeUntilNextProcess now s =
     (if \<not> rp_send_periodic_feedback s then 24 * 60 * 60 * 1000
      else if rp_last_process_time_ms s \<noteq> - 1 \<and> now - rp_last_process_time_ms s < rp_send_interval_ms s
      then rp_last_process_time_ms s + rp_send_interval_ms s - now
      else 0)"

definition Proxy_Process :: "nat list \<Rightarrow> int \<Rightarrow> RemoteEstimatorProxy \<Rightarrow> RemoteEstimatorProxy outcome option" where
  "Proxy_Process junk now s =
     (if \<not> rp_send_periodic_feedback s then Some (Gives s)
      else SendPeriodicFeedbacks junk now (s\<lparr>rp_last_process_time_ms := now\<rparr>))"

definition SetSendPeriodicFeedback :: "bool \<Rightarrow> RemoteEstimatorProxy \<Rightarrow> RemoteEstimatorProxy" where
  "SetSendPeriodicFeedback b s = s\<lparr>rp_send_periodic_feedback := b\<rparr>"

section \<open>The interval\<close>

definition kTwccReportSize :: int where "kTwccReportSize = 20 + 8 + 10 + 30"

text \<open>\<open>kTwccReportSize * 8.0 * 1000.0\<close>, and \<open>rtc::SafeClamp\<close>.\<close>

definition twcc_report_millibits :: double where
  "twcc_report_millibits = d_mul (d_mul (d_of_int kTwccReportSize) (d_of_int 8)) (d_of_int 1000)"

definition SafeClamp :: "double \<Rightarrow> double \<Rightarrow> double \<Rightarrow> double" where
  "SafeClamp x low high = (if d_le x low then low else if d_le high x then high else x)"

text \<open>\<open>None\<close>: the conversion to \<open>int\<close> is undefined.\<close>

definition Proxy_OnBitrateChanged :: "int \<Rightarrow> RemoteEstimatorProxy \<Rightarrow> RemoteEstimatorProxy option" where
  "Proxy_OnBitrateChanged bitrate_bps s =
     (let kMinTwccRate = d_div twcc_report_millibits (d_of_int (wf_max_interval (rp_config s)));
          kMaxTwccRate = d_div twcc_report_millibits (d_of_int (wf_min_interval (rp_config s)))
      in do { ms \<leftarrow> d_to_int (d_add (dround (1 / 2)) (d_div twcc_report_millibits
                      (SafeClamp (d_mul (wf_bandwidth_fraction (rp_config s)) (d_of_int bitrate_bps))
                         kMinTwccRate kMaxTwccRate)));
              Some (s\<lparr>rp_send_interval_ms := ms\<rparr>) })"

section \<open>Runs\<close>

text \<open>The calls of a run; \<open>Fails\<close> ends it.\<close>

datatype proxy_event = Packet int nat RTPHeader | ProcessAt int | Bitrate int | Periodic bool

definition proxy_step :: "nat list \<Rightarrow> proxy_event \<Rightarrow> RemoteEstimatorProxy \<Rightarrow> RemoteEstimatorProxy outcome option" where
  "proxy_step junk e s =
     (case e of
        Packet t payload_size h \<Rightarrow> Proxy_IncomingPacket junk t payload_size h s
      | ProcessAt now \<Rightarrow> Proxy_Process junk now s
      | Bitrate b \<Rightarrow> map_option Gives (Proxy_OnBitrateChanged b s)
      | Periodic b \<Rightarrow> Some (Gives (SetSendPeriodicFeedback b s)))"

fun proxy_run :: "nat list \<Rightarrow> proxy_event list \<Rightarrow> RemoteEstimatorProxy \<Rightarrow> RemoteEstimatorProxy outcome option" where
  "proxy_run junk [] s = Some (Gives s)"
| "proxy_run junk (e # es) s =
     (case proxy_step junk e s of
        Some (Gives s) \<Rightarrow> proxy_run junk es s
      | r \<Rightarrow> r)"

end
