(* ===== verification/ProxyFeedback.thy ===== *)
theory ProxyFeedback
  imports RemoteProxy FeedbackBuild
begin

text \<open>
  What the feedback packets of \<open>RemoteEstimatorProxy\<close> tell the sender, read off the fields that go on
  the wire: the arrivals, in the order of the packet, each with the time the base and the deltas give.
\<close>

section \<open>The arrivals a packet reports\<close>

fun arrival_list :: "int \<Rightarrow> ReceivedPacket list \<Rightarrow> (u16 \<times> int) list" where
  "arrival_list t [] = []"
| "arrival_list t (p # ps) =
     (let t' = t + kDeltaScaleFactor * status_ticks (rcv_delta_ticks p)
      in (rcv_sequence_number p, t' mod kTimeWrapPeriodUs) # arrival_list t' ps)"

definition reported :: "TransportFeedback \<Rightarrow> (u16 \<times> int) list" where
  "reported f = arrival_list (GetBaseTimeUs f) (tf_received_packets f)"

definition on_wire :: "int \<times> int \<Rightarrow> u16 \<times> int" where
  "on_wire x = (word_of_int (fst x), (snd x * 1000) mod kTimeWrapPeriodUs)"

lemma arrival_list_append:
  "arrival_list t (ps @ qs) =
     arrival_list t ps @ arrival_list (t + kDeltaScaleFactor * sum_list (map (\<lambda>p. status_ticks (rcv_delta_ticks p)) ps)) qs"
  by (induction ps arbitrary: t) (simp_all add: Let_def algebra_simps)

lemma sum_ticks_arrived:
  "sum_list (map (\<lambda>p. status_ticks (rcv_delta_ticks p)) (arrived (packets_of s st))) = sum_list (map status_ticks st)"
proof (induction st arbitrary: s)
  case (Cons x st)
  then show ?case by (cases x) (simp_all add: arrived_Cons)
qed (simp add: arrived_def)

lemma last_timestamp_sum:
  "represents f st \<Longrightarrow> tf_last_timestamp_us f =
     GetBaseTimeUs f + kDeltaScaleFactor * sum_list (map (\<lambda>p. status_ticks (rcv_delta_ticks p)) (tf_received_packets f))"
  by (simp add: represents_def sum_ticks_arrived)

lemma last_timestamp_tick: "represents f st \<Longrightarrow> kDeltaScaleFactor dvd tf_last_timestamp_us f"
  by (simp add: represents_def GetBaseTimeUs_def kBaseScaleFactor_def)

text \<open>A time in milliseconds is a number of ticks, so that a packet reports it without an error.\<close>

lemma delta_exact:
  assumes f: "represents f st" "tf_include_timestamps f" and d: "delta_of (t * 1000) f = Some d"
  shows "(tf_last_timestamp_us f + kDeltaScaleFactor * d) mod kTimeWrapPeriodUs = (t * 1000) mod kTimeWrapPeriodUs"
proof -
  obtain k where k: "\<bar>tf_last_timestamp_us f + kDeltaScaleFactor * d - t * 1000 - k * kTimeWrapPeriodUs\<bar> \<le> 125"
    using delta_of_accurate [OF f(2) d] by blast
  have w: "kTimeWrapPeriodUs = 250 * 4294967296" "kDeltaScaleFactor = 250"
    by (simp_all add: kTimeWrapPeriodUs_def kBaseScaleFactor_def kDeltaScaleFactor_def)
  obtain j where "tf_last_timestamp_us f = 250 * j" using last_timestamp_tick [OF f(1)] by (auto simp: w dvd_def)
  moreover define y where "y = j + d - 4 * t - k * 4294967296"
  ultimately have "tf_last_timestamp_us f + kDeltaScaleFactor * d - t * 1000 - k * kTimeWrapPeriodUs = 250 * y"
    by (simp add: w algebra_simps)
  then have "tf_last_timestamp_us f + kDeltaScaleFactor * d = t * 1000 + k * kTimeWrapPeriodUs"
    using k by (cases "y = 0") linarith+
  then show ?thesis by simp
qed

text \<open>What a packet under construction keeps while arrivals are added.\<close>

definition same_base :: "TransportFeedback \<Rightarrow> TransportFeedback \<Rightarrow> bool" where
  "same_base f g \<longleftrightarrow>
     tf_base_seq_no g = tf_base_seq_no f \<and> tf_base_time_ticks g = tf_base_time_ticks f \<and>
     tf_include_timestamps g = tf_include_timestamps f \<and> tf_pathid g = tf_pathid f \<and>
     tf_feedback_seq g = tf_feedback_seq f \<and> tf_media_ssrc g = tf_media_ssrc f"

lemma same_base_refl [simp]: "same_base f f"
  by (simp add: same_base_def)

lemma same_base_trans: "same_base f g \<Longrightarrow> same_base g h \<Longrightarrow> same_base f h"
  by (simp add: same_base_def)

lemma AddDeltaSize_frame: "AddDeltaSize n f = (b, g) \<Longrightarrow> same_frame f g"
  by (auto simp: AddDeltaSize_def same_frame_def Let_def split: if_splits prod.splits)

lemma add_lost_frame: "add_lost s n f = (b, g) \<Longrightarrow> same_frame f g"
proof (induction s n f rule: add_lost.induct)
  case (1 s n f)
  show ?case
  proof (cases "n = s")
    case True
    then show ?thesis using "1.prems" by (simp add: add_lost.simps [of s s])
  next
    case False
    obtain c h where h: "AddDeltaSize 0 f = (c, h)" by fastforce
    have fh: "same_frame f h" using AddDeltaSize_frame [OF h] .
    show ?thesis
    proof (cases c)
      case True
      let ?h = "if tf_include_lost h then h\<lparr>tf_all_packets := tf_all_packets h @
                  [\<lparr>rcv_sequence_number = n, rcv_delta_ticks = None\<rparr>]\<rparr> else h"
      have "add_lost s (n + 1) ?h = (b, g)" using "1.prems" False h True by (simp add: add_lost.simps [of s n])
      then have "same_frame ?h g" using "1.IH" [OF False h [symmetric]] True by simp
      moreover have "same_frame f ?h" using fh by (simp add: same_frame_def)
      ultimately show ?thesis by (rule same_frame_trans [rotated])
    next
      case c: False
      then show ?thesis using "1.prems" False h fh by (simp add: add_lost.simps [of s n])
    qed
  qed
qed

lemma AddReceivedPacket_frame:
  assumes "AddReceivedPacket s t f = (b, g)"
  shows "same_base f g"
    "tf_received_packets g = tf_received_packets f @
       (if b then [\<lparr>rcv_sequence_number = s, rcv_delta_ticks = delta_of t f\<rparr>] else [])"
    "b \<Longrightarrow> tf_last_timestamp_us g = tf_last_timestamp_us f + the (delta_of t f) * kDeltaScaleFactor"
  using assms
  by (auto simp: AddReceivedPacket_def same_base_def same_frame_def Let_def split: option.splits if_splits prod.splits bool.splits
      dest!: add_lost_frame AddDeltaSize_frame)

lemma GetBaseTimeUs_base: "same_base f g \<Longrightarrow> GetBaseTimeUs g = GetBaseTimeUs f"
  by (simp add: same_base_def GetBaseTimeUs_def)

lemma reported_step:
  assumes f: "represents f st" "tf_include_timestamps f" and r: "AddReceivedPacket (word_of_int k) (t * 1000) f = (b, g)"
  shows "reported g = reported f @ (if b then [on_wire (k, t)] else [])"
proof -
  note fr = AddReceivedPacket_frame [OF r]
  have base: "GetBaseTimeUs g = GetBaseTimeUs f" using fr(1) by (rule GetBaseTimeUs_base)
  show ?thesis
  proof (cases b)
    case False
    then show ?thesis using fr(2) base by (simp add: reported_def)
  next
    case True
    then obtain d where d: "delta_of (t * 1000) f = Some d"
      using AddReceivedPacket_step [OF f(1) r] by (auto simp: accepts_def)
    have "reported g = reported f @
        [(word_of_int k, (tf_last_timestamp_us f + kDeltaScaleFactor * d) mod kTimeWrapPeriodUs)]"
      using fr(2) True d last_timestamp_sum [OF f(1)]
      by (simp add: reported_def base arrival_list_append)
    then show ?thesis using True delta_exact [OF f d] by (simp add: on_wire_def)
  qed
qed

section \<open>One packet\<close>

text \<open>
  A packet takes the number \<open>k\<close> after \<open>prev\<close> when the 16 bits of \<open>k\<close> are the next ones, or newer
  than those of \<open>prev\<close>.
\<close>

definition follows :: "int \<Rightarrow> int \<Rightarrow> bool" where
  "follows prev k \<longleftrightarrow>
     (word_of_int k :: u16) = word_of_int (prev + 1) \<or>
     IsNewerSequenceNumber (word_of_int k) (word_of_int prev)"

fun linked :: "int \<Rightarrow> (int \<times> 'v) list \<Rightarrow> bool" where
  "linked prev [] = True"
| "linked prev ((k, _) # xs) \<longleftrightarrow> follows prev k \<and> linked k xs"

definition last_key :: "int \<Rightarrow> (int \<times> 'v) list \<Rightarrow> int" where
  "last_key prev xs = (if xs = [] then prev else fst (last xs))"

lemma last_key_Cons [simp]: "last_key prev [] = prev" "last_key prev ((k, t) # xs) = last_key k xs"
  by (simp_all add: last_key_def)

lemma linked_append: "linked prev (xs @ ys) \<longleftrightarrow> linked prev xs \<and> linked (last_key prev xs) ys"
  by (induction prev xs rule: linked.induct) auto

definition next_seq :: "TransportFeedback \<Rightarrow> u16" where
  "next_seq f = tf_base_seq_no f + of_nat (tf_num_seq_no f)"

lemma accepts_follows:
  assumes "next_seq f = word_of_int (prev + 1)"
  shows "accepts (word_of_int k) t f \<longleftrightarrow>
    delta_of t f \<noteq> None \<and> follows prev k \<and> tf_num_seq_no f + missing (word_of_int k) f < kMaxReportedPackets"
proof -
  have "tf_base_seq_no f + of_nat (tf_num_seq_no f) = word_of_int (prev + 1)"
    using assms by (simp add: next_seq_def)
  then show ?thesis by (simp add: accepts_def follows_def Let_def)
qed

lemma newer_distance:
  fixes s p :: u16
  assumes "IsNewer16 s p"
  shows "0 < uint (s - p)" "uint (s - p) \<le> 0x8000"
proof -
  have "uint (s - p) = 0x8000" if "uint s - uint p = 0x8000"
    using that uint_diff16 [of s p] by (simp split: if_splits)
  then show "0 < uint (s - p)" "uint (s - p) \<le> 0x8000"
    using assms unfolding IsNewer16_alt by linarith+
qed

lemma newer_gap:
  fixes s p :: u16
  assumes "IsNewer16 s p"
  shows "unat (s - (p + 1)) < 32768"
proof -
  note u = newer_distance [OF assms]
  have "p \<noteq> s" using u(1) by (intro notI) simp
  then have "unat (s - p) = Suc (unat (s - (p + 1)))" by (rule unat_gap)
  moreover have "unat (s - p) \<le> 0x8000" using u(2) unfolding uint_nat by linarith
  ultimately show ?thesis by linarith
qed

lemma missing_of_follows:
  assumes "next_seq f = word_of_int (prev + 1)" "follows prev k"
  shows "missing (word_of_int k) f < 32768"
proof -
  have "missing (word_of_int k) f = unat (word_of_int k - (word_of_int prev + 1 :: u16))"
    using assms(1) by (simp add: missing_def next_seq_def)
  moreover have "(word_of_int k :: u16) = word_of_int prev + 1 \<or> IsNewer16 (word_of_int k) (word_of_int prev)"
    using assms(2) by (simp add: follows_def IsNewerSequenceNumber_def)
  ultimately show ?thesis by (elim disjE) (simp_all only: newer_gap diff_self unat_0 zero_less_numeral)
qed

lemma next_seq_step:
  assumes "represents f st" "AddReceivedPacket s t f = (True, g)"
  shows "next_seq g = s + 1"
proof -
  have r: "represents g (st @ replicate (missing s f) None @ [delta_of t f])" "tf_base_seq_no g = tf_base_seq_no f"
    using AddReceivedPacket_step [OF assms] by simp_all
  have "tf_num_seq_no g = tf_num_seq_no f + missing s f + 1" using r(1) assms(1) by (simp add: represents_def)
  moreover have "of_nat (missing s f) = s - (tf_base_seq_no f + of_nat (tf_num_seq_no f))" by (simp add: missing_def)
  ultimately show ?thesis by (simp add: next_seq_def r(2))
qed

lemma add_arrivals_more:
  assumes "represents f st" "tf_include_timestamps f" "next_seq f = word_of_int (prev + 1)"
  shows "\<exists>ds rest g. its = ds @ rest \<and> add_arrivals False (prev + 1) its f = Gives (last_key prev ds + 1, g) \<and>
    linked prev ds \<and> reported g = reported f @ map on_wire ds \<and> same_base f g \<and> (\<exists>st. represents g st)"
  using assms
proof (induction its arbitrary: prev f st)
  case Nil
  then show ?case by (intro exI [of _ "[]"]) auto
next
  case (Cons x its)
  obtain k t where x: "x = (k, t)" by fastforce
  obtain b g where g: "AddReceivedPacket (word_of_int k) (t * 1000) f = (b, g)" by fastforce
  note step = AddReceivedPacket_step [OF Cons.prems(1) g] and frame = AddReceivedPacket_frame [OF g]
    and rep = reported_step [OF Cons.prems(1,2) g]
  show ?case
  proof (cases b)
    case True
    then obtain st' where st': "represents g st'" using step by blast
    have "tf_include_timestamps g" using frame(1) Cons.prems(2) by (simp add: same_base_def)
    moreover have "next_seq g = word_of_int (k + 1)"
      using next_seq_step [OF Cons.prems(1)] g True by simp
    ultimately obtain ds' rest h where h: "its = ds' @ rest" "linked k ds'" "same_base g h" "\<exists>st. represents h st"
        "add_arrivals False (k + 1) its g = Gives (last_key k ds' + 1, h)" "reported h = reported g @ map on_wire ds'"
      using Cons.IH [OF st'] by blast
    have "follows prev k" using step True accepts_follows [OF Cons.prems(3)] by blast
    then show ?thesis
      using h g True rep same_base_trans [OF frame(1) h(3)]
      by (intro exI [of _ "x # ds'"] exI [of _ rest] exI [of _ h]) (simp add: x)
  next
    case False
    then show ?thesis
      using g rep frame(1) step by (intro exI [of _ "[]"] exI [of _ "x # its"] exI [of _ g]) (auto simp: x)
  qed
qed

text \<open>The first arrival is within one step of the base time, so that only its number can be refused.\<close>

lemma base_delta:
  assumes "0 \<le> t"
  shows "delta_of t (SetFeedbackSequenceNumber n (SetBase s t f)) \<noteq> None"
proof -
  let ?f = "SetFeedbackSequenceNumber n (SetBase s t f)"
  have w: "kTimeWrapPeriodUs = 1073741824000" "kBaseScaleFactor = 64000" "kDeltaScaleFactor = 250"
    by (simp_all add: kTimeWrapPeriodUs_def kBaseScaleFactor_def kDeltaScaleFactor_def)
  define r where "r = t mod 1073741824000"
  have r: "0 \<le> r" "r < 1073741824000" by (simp_all add: r_def)
  have sm: "x smod 1073741824000 = x mod 1073741824000" if "0 \<le> x" for x :: int
    using that by (simp add: smod_int_alt_def sgn_if)
  have "t smod 1073741824000 = r" using sm [OF assms] by (simp add: r_def)
  moreover have "r sdiv 64000 = r div 64000" using r by (simp add: signed_divide_int_def sgn_if)
  ultimately have last: "tf_last_timestamp_us ?f = r div 64000 * 64000"
    by (simp add: SetBase_def SetFeedbackSequenceNumber_def Let_def GetBaseTimeUs_def w)
  have "t - r div 64000 * 64000 = r mod 64000 + t div 1073741824000 * 1073741824000"
    by (simp add: r_def minus_div_mult_eq_mod [symmetric] algebra_simps)
  moreover have "0 \<le> t - r div 64000 * 64000"
    using assms calculation by (simp add: pos_imp_zdiv_nonneg_iff)
  ultimately have e: "(t - tf_last_timestamp_us ?f) smod kTimeWrapPeriodUs = r mod 64000"
    using sm [of "t - r div 64000 * 64000"] by (simp add: last w)
  have "\<exists>y. (t - tf_last_timestamp_us ?f) smod kTimeWrapPeriodUs = y \<and> 0 \<le> y \<and> y < 64000"
    unfolding e by simp
  then obtain y where y: "(t - tf_last_timestamp_us ?f) smod kTimeWrapPeriodUs = y" "0 \<le> y" "y < 64000" by blast
  have q: "0 \<le> (y + 125) div 250 \<and> (y + 125) div 250 \<le> 256" using y(2,3) by linarith
  have "(y + 125) sdiv 250 = (y + 125) div 250" using y(2) by (simp add: signed_divide_int_def sgn_if abs_if)
  moreover have "signed_take_bit 15 ((y + 125) div 250) = (y + 125) div 250"
    using q signed_take_bit_int_eq_self_iff [of 15 "(y + 125) div 250"] by simp
  moreover have "kTimeWrapPeriodUs sdiv 2 = 536870912000" "(250 :: int) sdiv 2 = 125"
    by (simp_all add: w(1) signed_divide_int_def sgn_if)
  ultimately show ?thesis using y(2,3) unfolding delta_of_def Let_def y(1) w(3) by simp
qed

text \<open>The packet before its first arrival.\<close>

definition feedback_start :: "TransportFeedback \<Rightarrow> u8 \<Rightarrow> u32 \<Rightarrow> int \<Rightarrow> int \<Rightarrow> TransportFeedback" where
  "feedback_start f n ssrc w t =
     SetFeedbackSequenceNumber n (SetBase (word_of_int w) (t * 1000) (f\<lparr>tf_media_ssrc := ssrc\<rparr>))"

lemma BuildFeedbackPacket_Cons:
  "BuildFeedbackPacket n ssrc w ((k, t) # xs) ys f = Some (add_arrivals True w ys (feedback_start f n ssrc w t))"
  by (simp add: BuildFeedbackPacket_def feedback_start_def)

lemma start_built:
  assumes "length junk = 14" "0 \<le> t"
  shows "feedback_built (feedback_start (TransportFeedback_new junk ts lost pathid) n ssrc w t)"
proof -
  let ?f = "TransportFeedback_new junk ts lost pathid"
  have "?f\<lparr>tf_media_ssrc := ssrc\<rparr> = SetFeedbackSsrcs 0 ssrc ?f"
    by (simp add: TransportFeedback_new_def SetFeedbackSsrcs_def)
  moreover have "feedback_built (SetFeedbackSsrcs 0 ssrc ?f)" using assms(1) by (intro built_ssrcs built_new)
  ultimately show ?thesis using assms(2)
    by (simp add: feedback_start_def built_seq built_base TransportFeedback_new_def SetFeedbackSsrcs_def)
qed

lemma start_fields:
  fixes junk ts lost pathid n ssrc w t
  defines "f \<equiv> feedback_start (TransportFeedback_new junk ts lost pathid) n ssrc w t"
  shows "tf_num_seq_no f = 0" "next_seq f = word_of_int w" "tf_include_timestamps f = ts" "tf_pathid f = pathid"
    "tf_feedback_seq f = n" "tf_media_ssrc f = ssrc" "tf_base_seq_no f = word_of_int w" "reported f = []"
  by (simp_all add: f_def feedback_start_def TransportFeedback_new_def SetBase_def SetFeedbackSequenceNumber_def
      Let_def next_seq_def reported_def)

text \<open>The base time, a multiple of 64 ms, before it is reduced to 24 bits.\<close>

definition base_time :: "int \<Rightarrow> int" where
  "base_time t = t * 1000 div kBaseScaleFactor * kBaseScaleFactor"

lemma start_base_time:
  assumes "0 \<le> t"
  shows "GetBaseTimeUs (feedback_start f n ssrc w t) = base_time t mod kTimeWrapPeriodUs"
proof -
  have w: "kTimeWrapPeriodUs = 64000 * 16777216" "kBaseScaleFactor = 64000"
    by (simp_all add: kTimeWrapPeriodUs_def kBaseScaleFactor_def kDeltaScaleFactor_def)
  define y where "y = t * 1000"
  have y: "0 \<le> y" using assms by (simp add: y_def)
  have "y smod (64000 * 16777216) = y mod (64000 * 16777216)" using y by (simp add: smod_int_alt_def sgn_if)
  moreover have "(y mod (64000 * 16777216)) sdiv 64000 = (y mod (64000 * 16777216)) div 64000"
    by (simp add: signed_divide_int_def sgn_if)
  moreover have "(y mod (64000 * 16777216)) div 64000 = y div 64000 mod 16777216"
    by (subst zmod_zmult2_eq) simp_all
  moreover have "y div 64000 * 64000 mod (64000 * 16777216) = 64000 * (y div 64000 mod 16777216)"
    by (simp add: mult.commute [of "y div 64000"] mult_mod_right)
  ultimately show ?thesis
    by (simp add: feedback_start_def SetFeedbackSequenceNumber_def SetBase_def Let_def GetBaseTimeUs_def base_time_def w
        y_def [symmetric] mult.commute)
qed

lemma start_represents:
  assumes "length junk = 14" "0 \<le> t"
  shows "represents (feedback_start (TransportFeedback_new junk ts lost pathid) n ssrc w t) []"
proof -
  let ?f = "feedback_start (TransportFeedback_new junk ts lost pathid) n ssrc w t"
  obtain st where "represents ?f st" using feedback_built_represents [OF start_built [OF assms]] by blast
  moreover have "st = []" using calculation start_fields(1) [of junk ts lost pathid n ssrc w t]
    by (simp add: represents_def)
  ultimately show ?thesis by simp
qed

lemma start_accepts:
  assumes "0 \<le> t"
  shows "accepts (word_of_int k) (t * 1000) (feedback_start (TransportFeedback_new junk ts lost pathid) n ssrc w t)
    \<longleftrightarrow> follows (w - 1) k"
proof -
  let ?f = "feedback_start (TransportFeedback_new junk ts lost pathid) n ssrc w t"
  have s: "next_seq ?f = word_of_int (w - 1 + 1)" "tf_num_seq_no ?f = 0" using start_fields by simp_all
  have "missing (word_of_int k) ?f < 32768" if "follows (w - 1) k" using missing_of_follows [OF s(1) that] .
  moreover have "delta_of (t * 1000) ?f \<noteq> None" using base_delta assms by (simp add: feedback_start_def)
  ultimately show ?thesis using accepts_follows [OF s(1)] s(2) by (auto simp: kMaxReportedPackets_def)
qed

lemma add_arrivals_built:
  "feedback_built f \<Longrightarrow> add_arrivals first w its f = Gives (w', g) \<Longrightarrow> feedback_built g"
proof (induction first w its f rule: add_arrivals.induct)
  case (2 first w k t its f)
  obtain b h where h: "AddReceivedPacket (word_of_int k) (t * 1000) f = (b, h)" by fastforce
  then have "feedback_built h" using "2.prems"(1) by (rule built_packet [rotated])
  then show ?case using "2.IH" "2.prems"(2) h by (cases b) (auto split: if_splits)
qed simp

text \<open>A packet is refused only for its first number; otherwise it reports the arrivals up to some point.\<close>

lemma BuildFeedbackPacket_spec:
  assumes "length junk = 14" "0 \<le> t"
    and r_def: "r = BuildFeedbackPacket n ssrc w ((k, t) # xs) ((k, t) # ys) (TransportFeedback_new junk True lost pathid)"
  shows "\<not> follows (w - 1) k \<Longrightarrow> r = Some Fails"
    "follows (w - 1) k \<Longrightarrow> \<exists>ds rest f. ys = ds @ rest \<and> r = Some (Gives (last_key k ds + 1, f)) \<and>
       linked k ds \<and> reported f = map on_wire ((k, t) # ds) \<and>
       feedback_built f \<and> tf_include_timestamps f \<and> tf_pathid f = pathid \<and> tf_feedback_seq f = n \<and>
       tf_media_ssrc f = ssrc \<and> tf_base_seq_no f = word_of_int w \<and>
       GetBaseTimeUs f = base_time t mod kTimeWrapPeriodUs"
proof -
  let ?f = "feedback_start (TransportFeedback_new junk True lost pathid) n ssrc w t"
  have r: "r = Some (add_arrivals True w ((k, t) # ys) ?f)" by (simp add: r_def BuildFeedbackPacket_Cons)
  note f = start_represents [OF assms(1,2), of True lost pathid n ssrc w]
    and fields = start_fields [of junk True lost pathid n ssrc w t]
    and built = start_built [OF assms(1,2), of True lost pathid n ssrc w]
  obtain b g where g: "AddReceivedPacket (word_of_int k) (t * 1000) ?f = (b, g)" by fastforce
  note step = AddReceivedPacket_step [OF f g] and frame = AddReceivedPacket_frame(1) [OF g]
  have b: "b \<longleftrightarrow> follows (w - 1) k" using step start_accepts [OF assms(2)] by simp
  show "r = Some Fails" if "\<not> follows (w - 1) k" using r g b that by simp
  show "\<exists>ds rest f. ys = ds @ rest \<and> r = Some (Gives (last_key k ds + 1, f)) \<and>
       linked k ds \<and> reported f = map on_wire ((k, t) # ds) \<and>
       feedback_built f \<and> tf_include_timestamps f \<and> tf_pathid f = pathid \<and> tf_feedback_seq f = n \<and>
       tf_media_ssrc f = ssrc \<and> tf_base_seq_no f = word_of_int w \<and>
       GetBaseTimeUs f = base_time t mod kTimeWrapPeriodUs" if fol: "follows (w - 1) k"
  proof -
    have gT: "AddReceivedPacket (word_of_int k) (t * 1000) ?f = (True, g)" using g b fol by simp
    obtain st where st: "represents g st" using step b fol by blast
    have ts: "tf_include_timestamps g" using frame fields by (simp add: same_base_def)
    have nx: "next_seq g = word_of_int (k + 1)" using next_seq_step [OF f gT] by simp
    obtain ds rest h where h: "ys = ds @ rest" "add_arrivals False (k + 1) ys g = Gives (last_key k ds + 1, h)"
        "linked k ds" "reported h = reported g @ map on_wire ds" "same_base g h"
      using add_arrivals_more [OF st ts nx, of ys] by blast
    have "r = Some (Gives (last_key k ds + 1, h))" using r gT h(2) by simp
    moreover have "reported h = map on_wire ((k, t) # ds)"
      using h(4) reported_step [OF f _ gT] fields(3) fields(8) by simp
    moreover have "feedback_built h" using add_arrivals_built [OF built_packet [OF built gT] h(2)] .
    moreover have "GetBaseTimeUs h = base_time t mod kTimeWrapPeriodUs"
      using GetBaseTimeUs_base [OF same_base_trans [OF frame h(5)]] start_base_time [OF assms(2)] by simp
    ultimately show ?thesis using h(1,3) same_base_trans [OF frame h(5)] fields by (auto simp: same_base_def)
  qed
qed

section \<open>All packets of a path\<close>

lemma last_key_max:
  "sorted_wrt (<) (k # map fst ds) \<Longrightarrow> x \<in> insert k (fst ` set ds) \<Longrightarrow> x \<le> last_key k ds"
proof (induction ds arbitrary: k x)
  case (Cons d ds)
  obtain k' t where d: "d = (k', t)" by fastforce
  have y: "y \<le> last_key k' ds" if "y \<in> insert k' (fst ` set ds)" for y using Cons that by (simp add: d)
  have "k < k'" using Cons.prems(1) by (simp add: d)
  then show ?case using Cons.prems(2) y [of k'] y [of x] by (auto simp: d)
qed simp

lemma lower_bound_after:
  assumes "sm_ok m" "lower_bound w m = (k, t) # ds @ rest"
  shows "lower_bound (last_key k ds + 1) m = rest"
proof -
  let ?xs = "takeWhile (\<lambda>x. fst x < w) m"
  have m: "m = ?xs @ (k, t) # ds @ rest" using assms(2) by (metis lower_bound_def takeWhile_dropWhile_id)
  then have s: "sorted_wrt (<) (map fst ?xs @ k # map fst ds @ map fst rest)"
    using assms(1) by (metis list.simps(9) map_append sm_ok_def fst_conv)
  have "\<forall>x \<in> set ?xs. fst x < k" using s by (auto simp: sorted_wrt_append)
  moreover have "k \<le> last_key k ds" "\<forall>x \<in> set ds. fst x \<le> last_key k ds"
    using s last_key_max [of k ds] by (simp_all add: sorted_wrt_append)
  moreover have "\<forall>x \<in> set rest. last_key k ds < fst x"
  proof -
    have "last_key k ds \<in> insert k (fst ` set ds)" by (simp add: last_key_def)
    moreover have "\<forall>y \<in> insert k (fst ` set ds). \<forall>x \<in> set rest. y < fst x" using s by (simp add: sorted_wrt_append)
    ultimately show ?thesis by (rule bspec [rotated])
  qed
  ultimately have "dropWhile (\<lambda>x. fst x < last_key k ds + 1) ((?xs @ (k, t) # ds) @ rest) = rest"
    by (subst dropWhile_append2) (auto, cases rest, auto)
  then show ?thesis by (subst m) (simp add: lower_bound_def)
qed

text \<open>
  The loop of a path ends: it stops the process exactly if some arrival does not follow the one before,
  and otherwise every arrival of the window is reported, once and in order, and the window is empty.
\<close>

lemma feedback_loop_spec:
  assumes junk: "length junk = 14" and ok: "sm_ok m" and t: "\<forall>x \<in> set m. 0 \<le> snd x"
  shows "\<exists>fs. feedback_loop junk pathid ssrc m w n sent =
      Some (if linked (w - 1) (lower_bound w m)
            then Gives (last_key (w - 1) (lower_bound w m) + 1, n + of_nat (length fs), sent @ fs) else Fails) \<and>
    (linked (w - 1) (lower_bound w m) \<longrightarrow>
       concat (map reported fs) = map on_wire (lower_bound w m) \<and>
       map tf_feedback_seq fs = map (\<lambda>i. n + of_nat i) [0..<length fs] \<and>
       (\<forall>f \<in> set fs. feedback_built f \<and> tf_include_timestamps f \<and> tf_pathid f = pathid \<and>
                    tf_media_ssrc f = ssrc \<and> reported f \<noteq> []))"
proof (induction "length (lower_bound w m)" arbitrary: w n sent rule: less_induct)
  case less
  note loop = feedback_loop.simps [of junk pathid ssrc m w n sent]
  show ?case
  proof (cases "lower_bound w m")
    case Nil
    then show ?thesis by (intro exI [of _ "[]"]) (simp add: loop)
  next
    case (Cons x xs)
    obtain k u where x: "x = (k, u)" by fastforce
    have "x \<in> set m" using Cons by (metis list.set_intros(1) lower_bound_def set_dropWhileD)
    then have u: "0 \<le> u" using t by (auto simp: x)
    let ?b = "BuildFeedbackPacket n ssrc w ((k, u) # xs) ((k, u) # xs) (TransportFeedback_new junk True True pathid)"
    note build = BuildFeedbackPacket_spec [OF junk u refl, where n = n and ssrc = ssrc and w = w and k = k and xs = xs
        and ys = xs and lost = True and pathid = pathid]
    show ?thesis
    proof (cases "follows (w - 1) k")
      case False
      then show ?thesis using build(1) by (simp add: loop Cons x)
    next
      case True
      then obtain ds rest f where f: "xs = ds @ rest" "?b = Some (Gives (last_key k ds + 1, f))" "linked k ds"
          "reported f = map on_wire ((k, u) # ds)" "feedback_built f" "tf_include_timestamps f"
          "tf_pathid f = pathid" "tf_feedback_seq f = n" "tf_media_ssrc f = ssrc"
        using build(2) by blast
      let ?w = "last_key k ds + 1"
      have rest: "lower_bound ?w m = rest" using lower_bound_after [OF ok] Cons f(1) x by simp
      obtain fs where fs: "feedback_loop junk pathid ssrc m ?w (n + 1) (sent @ [f]) =
          Some (if linked (?w - 1) rest then Gives (last_key (?w - 1) rest + 1, n + 1 + of_nat (length fs), (sent @ [f]) @ fs)
                else Fails)"
        "linked (?w - 1) rest \<longrightarrow> concat (map reported fs) = map on_wire rest \<and>
           map tf_feedback_seq fs = map (\<lambda>i. n + 1 + of_nat i) [0..<length fs] \<and>
           (\<forall>f \<in> set fs. feedback_built f \<and> tf_include_timestamps f \<and> tf_pathid f = pathid \<and>
                        tf_media_ssrc f = ssrc \<and> reported f \<noteq> [])"
        using less [of ?w "n + 1" "sent @ [f]"] unfolding rest Cons f(1) by auto
      have "linked (w - 1) (lower_bound w m) = linked (?w - 1) rest"
        using True f(3) by (simp add: Cons x f(1) linked_append)
      moreover have "last_key (w - 1) (lower_bound w m) = last_key (?w - 1) rest"
        by (simp add: Cons x f(1) last_key_def)
      moreover have "map (\<lambda>i. n + of_nat i) [0..<length (f # fs)] = n # map (\<lambda>i. n + 1 + of_nat i) [0..<length fs]"
        by (simp add: upt_conv_Cons map_Suc_upt [symmetric] o_def add.assoc del: upt_Suc)
      ultimately show ?thesis
        using fs f by (intro exI [of _ "f # fs"]) (simp add: loop Cons x f(2) add.assoc)
    qed
  qed
qed

end
