(* ===== verification/FeedbackTimes.thy ===== *)
theory FeedbackTimes
  imports FeedbackAdapter ProxyFeedback
begin

text \<open>
  What the sender makes of transport feedback: the bytes in flight, the packets that are acknowledged and
  the receive times the congestion controller is given.
\<close>

section \<open>Bytes in flight\<close>

definition route_key :: "NetworkRoute \<Rightarrow> u16 \<times> u16 \<times> u16 \<times> u16 \<times> bool \<times> bool \<times> bool" where
  "route_key r = (re_network_id (nr_local r), re_network_id (nr_remote r), re_adapter_id (nr_local r),
     re_adapter_id (nr_remote r), re_uses_turn (nr_local r), re_uses_turn (nr_remote r), nr_connected r)"

lemma same_route_key: "same_route a b \<longleftrightarrow> route_key a = route_key b"
  unfolding same_route_def NetworkRouteComparator_def route_key_def
  by (auto simp: neq_iff)

lemma same_route_equiv [simp]: "same_route a a" "same_route a b \<Longrightarrow> same_route b a"
  by (simp_all add: same_route_key)

definition flight_ok :: "in_flight \<Rightarrow> bool" where
  "flight_ok m \<longleftrightarrow> (\<forall>x \<in> set m. 0 \<le> snd x \<and> snd x < 2 ^ 63)"

abbreviation outstanding :: "in_flight \<Rightarrow> NetworkRoute \<Rightarrow> int" where
  "outstanding m r \<equiv> InFlight_GetOutstandingData r m"

lemma in_flight_find_Cons [simp]:
  "in_flight_find r [] = None"
  "in_flight_find r (x # m) = (if same_route (fst x) r then Some (snd x) else in_flight_find r m)"
  by (simp_all add: in_flight_find_def)

lemma in_flight_find_set:
  "in_flight_find q (in_flight_set r v m) =
     (if same_route q r then map_option (\<lambda>_. v) (in_flight_find q m) else in_flight_find q m)"
  by (induction m) (auto simp: in_flight_set_def same_route_key)

lemma in_flight_find_erase:
  "in_flight_find q (in_flight_erase r m) = (if same_route q r then None else in_flight_find q m)"
  by (induction m) (auto simp: in_flight_erase_def same_route_key)

lemma in_flight_find_route: "same_route q r \<Longrightarrow> in_flight_find q m = in_flight_find r m"
  by (induction m) (auto simp: same_route_key)

lemma in_flight_find_range: "flight_ok m \<Longrightarrow> in_flight_find r m = Some v \<Longrightarrow> 0 \<le> v \<and> v < 2 ^ 63"
  by (induction m) (auto simp: flight_ok_def split: if_splits)

lemma flight_ok_set: "flight_ok m \<Longrightarrow> 0 \<le> v \<Longrightarrow> v < 2 ^ 63 \<Longrightarrow> flight_ok (in_flight_set r v m)"
  by (auto simp: flight_ok_def in_flight_set_def)

lemma flight_ok_erase: "flight_ok m \<Longrightarrow> flight_ok (in_flight_erase r m)"
  by (auto simp: flight_ok_def in_flight_erase_def)

lemma outstanding_range: "flight_ok m \<Longrightarrow> 0 \<le> outstanding m r"
  using in_flight_find_range by (fastforce simp: InFlight_GetOutstandingData_def split: option.split)

lemma RemoveInFlight_spec:
  assumes "flight_ok m" "0 \<le> sp_size (pb_sent p)"
  shows "\<exists>m'. RemoveInFlightPacketBytes p m = Some m' \<and> flight_ok m' \<and>
    (\<forall>r. outstanding m r < PlusInfinityVal \<longrightarrow> outstanding m' r = (if IsFinite (sp_send_time (pb_sent p)) \<and> same_route r (pb_network_route p)
           then max 0 (outstanding m r - sp_size (pb_sent p)) else outstanding m r))"
proof (cases "IsFinite (sp_send_time (pb_sent p))")
  case True
  let ?r = "pb_network_route p" and ?n = "sp_size (pb_sent p)"
  show ?thesis
  proof (cases "in_flight_find ?r m")
    case None
    then show ?thesis
      using True assms by (auto simp: RemoveInFlightPacketBytes_def InFlight_GetOutstandingData_def dest: in_flight_find_route [of _ _ m])
  next
    case (Some v)
    have v: "0 \<le> v" "v < 2 ^ 63" using in_flight_find_range [OF assms(1) Some] by simp_all
    have "\<exists>w. (if v < ?n then Some 0 else unit_minus v ?n) = Some w \<and> 0 \<le> w \<and> w < 2 ^ 63 \<and>
        (v < PlusInfinityVal \<longrightarrow> w = max 0 (v - ?n))"
      using v assms(2) by (auto simp: unit_minus_def PlusInfinityVal_def MinusInfinityVal_def int64_def is_int64_def)
    then obtain w where w: "(if v < ?n then Some 0 else unit_minus v ?n) = Some w" "0 \<le> w" "w < 2 ^ 63"
        "v < PlusInfinityVal \<longrightarrow> w = max 0 (v - ?n)" by blast
    let ?m = "if w = 0 then in_flight_erase ?r m else in_flight_set ?r w m"
    have "RemoveInFlightPacketBytes p m = Some ?m" using True Some w(1) by (simp add: RemoveInFlightPacketBytes_def)
    moreover have "flight_ok ?m" using assms(1) w by (simp add: flight_ok_set flight_ok_erase)
    moreover have "outstanding ?m r = (if same_route r ?r then w else outstanding m r)" for r
      using Some in_flight_find_route [of r ?r m]
      by (auto simp: InFlight_GetOutstandingData_def in_flight_find_erase in_flight_find_set)
    moreover have "outstanding m r = v" if "same_route r ?r" for r
      using Some in_flight_find_route [OF that, of m] by (simp add: InFlight_GetOutstandingData_def)
    ultimately show ?thesis using True w(4) by auto
  qed
qed (use assms in \<open>simp add: RemoveInFlightPacketBytes_def\<close>)

section \<open>Invariant of the adapter\<close>

definition entry_ok :: "int \<Rightarrow> PacketFeedback \<Rightarrow> bool" where
  "entry_ok k p \<longleftrightarrow> 0 \<le> sp_size (pb_sent p) \<and> pb_receive_time p = PlusInfinityVal \<and> sp_mp_sequence_number (pb_sent p) = k"

definition adapter_ok :: "TransportFeedbackAdapter \<Rightarrow> bool" where
  "adapter_ok a \<longleftrightarrow> sm_ok (ta_history a) \<and> flight_ok (ta_in_flight a) \<and> (\<forall>(k, p) \<in> set (ta_history a). entry_ok k p)"

lemma map_of_entry: "adapter_ok a \<Longrightarrow> map_of (ta_history a) k = Some p \<Longrightarrow> entry_ok k p"
  by (auto simp: adapter_ok_def dest: map_of_SomeD)

lemma remove_all_ok:
  "flight_ok m \<Longrightarrow> \<forall>p \<in> set ps. 0 \<le> sp_size (pb_sent p) \<Longrightarrow> \<exists>m'. remove_all ps m = Some m' \<and> flight_ok m'"
proof (induction ps arbitrary: m)
  case (Cons p ps)
  then show ?case using RemoveInFlight_spec [of m p] by fastforce
qed simp

lemma acknowledge_ok:
  assumes "adapter_ok a"
  shows "\<exists>a'. acknowledge k a = Some a' \<and> adapter_ok a' \<and> ta_history a' = ta_history a \<and>
    ta_current_offset a' = ta_current_offset a \<and> ta_last_timestamp a' = ta_last_timestamp a \<and>
    ta_seq_num_unwrapper a' = ta_seq_num_unwrapper a \<and> ta_network_route a' = ta_network_route a"
proof (cases "k > ta_last_ack_seq_num a")
  case True
  let ?ps = "map snd (filter (\<lambda>x. ta_last_ack_seq_num a < fst x \<and> fst x \<le> k) (ta_history a))"
  have "flight_ok (ta_in_flight a)" "\<forall>p \<in> set ?ps. 0 \<le> sp_size (pb_sent p)"
    using assms by (auto simp: adapter_ok_def entry_ok_def)
  then obtain m where "remove_all ?ps (ta_in_flight a) = Some m" "flight_ok m" using remove_all_ok by blast
  then show ?thesis using True assms by (simp add: acknowledge_def adapter_ok_def)
qed (use assms in \<open>simp add: acknowledge_def\<close>)

lemma Unwrap16_near: "0 \<le> l \<Longrightarrow> 0 \<le> k \<Longrightarrow> \<bar>k - l\<bar> < 32768 \<Longrightarrow> Unwrap16 (word_of_int k) (Some l) = (k, Some k)"
  using unwrapper16.near [of "Some l" l k] by (simp add: prod_eq_iff)

lemma adapter_ok_erase: "adapter_ok a \<Longrightarrow> adapter_ok (a\<lparr>ta_history := sm_erase k (ta_history a)\<rparr>)"
  using sm.ok_erase [of "ta_history a" k] by (auto simp: adapter_ok_def sm_erase_def)

section \<open>Receive times\<close>

text \<open>The statuses of a packet as results: the packet sent under each number and its time.\<close>

fun expected :: "(int \<Rightarrow> PacketFeedback option) \<Rightarrow> int \<Rightarrow> int \<Rightarrow> statuses \<Rightarrow> (SentPacket \<times> int) list" where
  "expected h k t [] = []"
| "expected h k t (None # st) = expected h (k + 1) t st"
| "expected h k t (Some d # st) =
     (pb_sent (the (h k)), t + kDeltaScaleFactor * d) # expected h (k + 1) (t + kDeltaScaleFactor * d) st"

fun received_keys :: "int \<Rightarrow> statuses \<Rightarrow> int set" where
  "received_keys k [] = {}"
| "received_keys k (None # st) = received_keys (k + 1) st"
| "received_keys k (Some d # st) = insert k (received_keys (k + 1) st)"

lemma received_keys_ge: "j \<in> received_keys k st \<Longrightarrow> k \<le> j"
  by (induction k st rule: received_keys.induct) auto

lemma expected_cong: "(\<And>j. k \<le> j \<Longrightarrow> h j = g j) \<Longrightarrow> expected h k t st = expected g k t st"
  by (induction h k t st rule: expected.induct) auto

text \<open>The times stay far from the limits of 64 bits, and each is a number of milliseconds after the offset.\<close>

fun offsets_ok :: "int \<Rightarrow> int \<Rightarrow> statuses \<Rightarrow> bool" where
  "offsets_ok c t [] = True"
| "offsets_ok c t (None # st) = offsets_ok c t st"
| "offsets_ok c t (Some d # st) \<longleftrightarrow>
     (let t' = t + kDeltaScaleFactor * d in \<bar>t'\<bar> < 2 ^ 62 \<and> \<bar>c + t'\<bar> < 2 ^ 62 \<and> 1000 dvd t' \<and> offsets_ok c t' st)"

lemma unit_plus_small: "\<bar>a\<bar> < 2 ^ 62 \<Longrightarrow> \<bar>b\<bar> < 2 ^ 63 - 1 \<Longrightarrow> \<bar>a + b\<bar> < 2 ^ 62 \<Longrightarrow> unit_plus a b = Some (a + b)"
  by (simp add: unit_plus_def PlusInfinityVal_def MinusInfinityVal_def int64_def is_int64_def abs_if split: if_splits)

lemma finite_small: "\<bar>a\<bar> < 2 ^ 62 \<Longrightarrow> IsFinite a"
  by (simp add: IsFinite_def PlusInfinityVal_def MinusInfinityVal_def abs_if split: if_splits)

lemma RoundDownTo_dvd: "1000 dvd v \<Longrightarrow> RoundDownTo 1000 v = v"
  by (auto simp: RoundDownTo_def dvd_def signed_divide_int_def sgn_if abs_mult abs_if split: if_splits)

definition seen :: "PacketResult \<Rightarrow> SentPacket \<times> int" where
  "seen r = (pr_sent_packet r, pr_receive_time r)"

lemma seen_make [simp]: "seen \<lparr>pr_sent_packet = s, pr_receive_time = t\<rparr> = (s, t)"
  by (simp add: seen_def)

lemma feedback_results_times:
  assumes "adapter_ok a" "ta_seq_num_unwrapper a = Some l" "0 \<le> l" "0 \<le> k" "\<bar>k - l\<bar> < 32768"
    "ta_current_offset a = c" "\<bar>c\<bar> < 2 ^ 62" "\<bar>t\<bar> < 2 ^ 62" "offsets_ok c t st"
    "\<forall>j \<in> received_keys k st. \<exists>p. map_of (ta_history a) j = Some p \<and> IsFinite (sp_send_time (pb_sent p))"
    "set st \<subseteq> insert None (Some ` {- (2 ^ 15) ..< 2 ^ 15})"
  shows "\<exists>rs a'. feedback_results (packets_of (word_of_int k) st) t a = Some (rs, a') \<and> adapter_ok a' \<and>
    map seen (filter (\<lambda>r. IsFinite (pr_receive_time r)) rs) = expected (map_of (ta_history a)) k (c + t) st \<and>
    (\<forall>j. map_of (ta_history a') j = (if j \<in> received_keys k st then None else map_of (ta_history a) j)) \<and>
    ta_current_offset a' = c \<and> ta_last_timestamp a' = ta_last_timestamp a \<and>
    ta_seq_num_unwrapper a' = Some (if st = [] then l else k + int (length st) - 1)"
  using assms
proof (induction st arbitrary: k l t a)
  case (Cons x st)
  let ?a = "a\<lparr>ta_seq_num_unwrapper := Some k\<rparr>"
  have "adapter_ok ?a" using Cons.prems(1) by (simp add: adapter_ok_def)
  then obtain b where b: "acknowledge k ?a = Some b" "adapter_ok b" "ta_history b = ta_history a"
      "ta_current_offset b = c" "ta_last_timestamp b = ta_last_timestamp a" "ta_seq_num_unwrapper b = Some k"
    using acknowledge_ok [of ?a k] Cons.prems(6) by auto
  define ps where "ps = packets_of (word_of_int (k + 1)) st"
  have nx: "packets_of (word_of_int k) (x # st) = \<lparr>rcv_sequence_number = word_of_int k, rcv_delta_ticks = x\<rparr> # ps"
    by (simp add: ps_def)
  have step: "feedback_results (packets_of (word_of_int k) (x # st)) t a =
      (case map_of (ta_history a) k of
         None \<Rightarrow> feedback_results ps t b
       | Some p \<Rightarrow>
           if \<not> IsFinite (sp_send_time (pb_sent p)) then feedback_results ps t b
           else case x of
                  None \<Rightarrow> do { (rs, a) \<leftarrow> feedback_results ps t b;
                                Some (\<lparr>pr_sent_packet = pb_sent p, pr_receive_time = pb_receive_time p\<rparr> # rs, a) }
                | Some d \<Rightarrow>
                    do { t \<leftarrow> unit_plus t (d * kDeltaScaleFactor);
                         u \<leftarrow> unit_plus c (RoundDownTo 1000 t);
                         (rs, a) \<leftarrow> feedback_results ps t
                                     (b\<lparr>ta_history := sm_erase k (ta_history b)\<rparr>);
                         Some (\<lparr>pr_sent_packet = pb_sent p, pr_receive_time = u\<rparr> # rs, a) })"
    unfolding nx using Cons.prems(2-5) b by (simp add: Unwrap16_near split: option.split)
  show ?case
  proof (cases x)
    case None
    have "\<exists>rs a'. feedback_results ps t b = Some (rs, a') \<and> adapter_ok a' \<and>
      map seen (filter (\<lambda>r. IsFinite (pr_receive_time r)) rs) = expected (map_of (ta_history b)) (k + 1) (c + t) st \<and>
      (\<forall>j. map_of (ta_history a') j = (if j \<in> received_keys (k + 1) st then None else map_of (ta_history b) j)) \<and>
      ta_current_offset a' = c \<and> ta_last_timestamp a' = ta_last_timestamp b \<and>
      ta_seq_num_unwrapper a' = Some (if st = [] then k else k + 1 + int (length st) - 1)"
      unfolding ps_def using Cons.prems b None by (intro Cons.IH) simp_all
    then obtain rs a' where r: "feedback_results ps t b = Some (rs, a')" "adapter_ok a'"
      "map seen (filter (\<lambda>r. IsFinite (pr_receive_time r)) rs) = expected (map_of (ta_history a)) (k + 1) (c + t) st"
      "\<forall>j. map_of (ta_history a') j = (if j \<in> received_keys (k + 1) st then None else map_of (ta_history a) j)"
      "ta_current_offset a' = c" "ta_last_timestamp a' = ta_last_timestamp a"
      "ta_seq_num_unwrapper a' = Some (k + int (length (x # st)) - 1)"
      using b by auto
    have "\<not> IsFinite (pb_receive_time p)" if "map_of (ta_history a) k = Some p" for p
      using map_of_entry [OF Cons.prems(1) that] by (simp add: entry_ok_def IsFinite_def)
    then show ?thesis
      unfolding step using r None by (cases "map_of (ta_history a) k") auto
  next
    case (Some d)
    let ?t = "t + kDeltaScaleFactor * d"
    let ?b = "b\<lparr>ta_history := sm_erase k (ta_history b)\<rparr>"
    obtain p where p: "map_of (ta_history a) k = Some p" "IsFinite (sp_send_time (pb_sent p))"
      using Cons.prems(10) Some by auto
    have o: "\<bar>?t\<bar> < 2 ^ 62" "\<bar>c + ?t\<bar> < 2 ^ 62" "1000 dvd ?t" "offsets_ok c ?t st"
      using Cons.prems(9) Some by (simp_all add: Let_def)
    have hist: "map_of (ta_history ?b) = (map_of (ta_history a))(k := None)"
      using b(3) by (simp add: sm.get_erase)
    have "\<exists>rs a'. feedback_results ps ?t ?b = Some (rs, a') \<and> adapter_ok a' \<and>
      map seen (filter (\<lambda>r. IsFinite (pr_receive_time r)) rs) = expected (map_of (ta_history ?b)) (k + 1) (c + ?t) st \<and>
      (\<forall>j. map_of (ta_history a') j = (if j \<in> received_keys (k + 1) st then None else map_of (ta_history ?b) j)) \<and>
      ta_current_offset a' = c \<and> ta_last_timestamp a' = ta_last_timestamp ?b \<and>
      ta_seq_num_unwrapper a' = Some (if st = [] then k else k + 1 + int (length st) - 1)"
      unfolding ps_def
    proof (rule Cons.IH)
      show "\<forall>j \<in> received_keys (k + 1) st. \<exists>p. map_of (ta_history ?b) j = Some p \<and> IsFinite (sp_send_time (pb_sent p))"
        using Cons.prems(10) Some hist received_keys_ge [of _ "k + 1" st] by fastforce
      show "adapter_ok ?b" by (rule adapter_ok_erase [OF b(2)])
    qed (use Cons.prems b Some o in simp_all)
    then obtain rs a' where r: "feedback_results ps ?t ?b = Some (rs, a')" "adapter_ok a'"
      "map seen (filter (\<lambda>r. IsFinite (pr_receive_time r)) rs) = expected (map_of (ta_history ?b)) (k + 1) (c + ?t) st"
      "\<forall>j. map_of (ta_history a') j = (if j \<in> received_keys (k + 1) st then None else map_of (ta_history ?b) j)"
      "ta_current_offset a' = c" "ta_last_timestamp a' = ta_last_timestamp a"
      "ta_seq_num_unwrapper a' = Some (k + int (length (x # st)) - 1)"
      using b by auto
    have "expected (map_of (ta_history ?b)) (k + 1) (c + ?t) st = expected (map_of (ta_history a)) (k + 1) (c + ?t) st"
      by (rule expected_cong) (subst hist, simp)
    moreover have "unit_plus t (d * kDeltaScaleFactor) = Some ?t"
    proof -
      have "\<bar>d\<bar> \<le> 2 ^ 15" using Cons.prems(11) Some by auto
      then show ?thesis using unit_plus_small [of t "d * kDeltaScaleFactor"] o(1) Cons.prems(8)
        by (simp add: kDeltaScaleFactor_def mult.commute)
    qed
    moreover have "unit_plus c (RoundDownTo 1000 ?t) = Some (c + ?t)"
      using unit_plus_small [of c ?t] o Cons.prems(7) by (simp add: RoundDownTo_dvd)
    ultimately have "feedback_results (packets_of (word_of_int k) (x # st)) t a =
        Some (\<lparr>pr_sent_packet = pb_sent p, pr_receive_time = c + ?t\<rparr> # rs, a')"
      unfolding step using r(1) p Some by simp
    moreover have "IsFinite (c + ?t)" using o(2) by (rule finite_small)
    ultimately show ?thesis
      using r p Some hist \<open>expected _ _ _ _ = _\<close> by (auto simp: add.assoc)
  qed
qed simp

section \<open>From the arrivals to the receive times\<close>

text \<open>
  The times \<open>xs\<close> of a feedback packet, from a time \<open>u\<close> in microseconds on: no two neighbours are
  half a wrap of the 24-bit base time apart.
\<close>

fun times_close :: "int \<Rightarrow> (int \<times> int) list \<Rightarrow> bool" where
  "times_close u [] = True"
| "times_close u ((k, t) # xs) \<longleftrightarrow> 2 * \<bar>t * 1000 - u\<bar> < kTimeWrapPeriodUs - 2 ^ 24 \<and> times_close (t * 1000) xs"

lemma mod_close:
  fixes x y w :: int
  assumes "x mod w = y mod w" "\<bar>x - y\<bar> < w"
  shows "x = y"
proof -
  have "w dvd x - y" using assms(1) by (simp add: mod_eq_dvd_iff)
  then obtain q where q: "x - y = w * q" by (auto simp: dvd_def)
  have "q = 0"
  proof (rule ccontr)
    assume "q \<noteq> 0"
    then have "\<bar>w\<bar> * 1 \<le> \<bar>w\<bar> * \<bar>q\<bar>" by (intro mult_left_mono) auto
    also have "\<dots> = \<bar>x - y\<bar>" by (simp add: q abs_mult)
    finally show False using assms(2) by simp
  qed
  then show ?thesis using q by simp
qed

lemma word16_close:
  assumes "(word_of_int j :: u16) = word_of_int k" "base \<le> j" "j < base + 65536" "base \<le> k" "k < base + 65536"
  shows "j = k"
proof -
  have "j mod 2 ^ LENGTH(16) = k mod 2 ^ LENGTH(16)"
    using arg_cong [OF assms(1), of uint] unfolding uint_word_of_int .
  then have "j mod 65536 = k mod 65536" by simp
  moreover have "\<bar>j - k\<bar> < 65536" using assms(2-) by linarith
  ultimately show ?thesis by (rule mod_close)
qed

lemma expected_arrivals:
  assumes "arrival_list b (arrived (packets_of (word_of_int k) st)) = map on_wire xs"
    "b mod kTimeWrapPeriodUs = u mod kTimeWrapPeriodUs" "times_close u xs"
    "set st \<subseteq> insert None (Some ` {- (2 ^ 15) ..< 2 ^ 15})"
    "\<forall>x \<in> set xs. base \<le> fst x \<and> fst x < base + 65536" "base \<le> k" "k + int (length st) \<le> base + 65536"
    "\<forall>x \<in> set xs. \<bar>snd x * 1000 - base_us\<bar> < 2 ^ 62 \<and> \<bar>c + snd x * 1000\<bar> < 2 ^ 62" "1000 dvd base_us"
  shows "expected h k (c + u) st = map (\<lambda>(j, t). (pb_sent (the (h j)), c + t * 1000)) xs \<and>
    received_keys k st = fst ` set xs \<and> offsets_ok (c + base_us) (u - base_us) st"
  using assms
proof (induction st arbitrary: b k u xs)
  case (Cons x st)
  have nx: "packets_of (word_of_int k) (x # st) = \<lparr>rcv_sequence_number = word_of_int k, rcv_delta_ticks = x\<rparr> #
      packets_of (word_of_int (k + 1)) st" by simp
  show ?case
  proof (cases x)
    case None
    have "arrival_list b (arrived (packets_of (word_of_int (k + 1)) st)) = map on_wire xs"
      using Cons.prems(1) unfolding nx None by (simp add: arrived_Cons)
    then have "expected h (k + 1) (c + u) st = map (\<lambda>(j, t). (pb_sent (the (h j)), c + t * 1000)) xs \<and>
        received_keys (k + 1) st = fst ` set xs \<and> offsets_ok (c + base_us) (u - base_us) st"
      by (rule Cons.IH [OF _ Cons.prems(2,3)]) (use Cons.prems(4-) in simp_all)
    then show ?thesis by (simp add: None)
  next
    case (Some d)
    let ?b = "b + kDeltaScaleFactor * d"
    have eq: "(word_of_int k, ?b mod kTimeWrapPeriodUs) # arrival_list ?b (arrived (packets_of (word_of_int (k + 1)) st)) =
        map on_wire xs"
      using Cons.prems(1) unfolding nx Some by (simp add: arrived_Cons Let_def)
    then obtain j t ys where xs: "xs = (j, t) # ys" by (cases xs) auto
    have hd: "(word_of_int k, ?b mod kTimeWrapPeriodUs) = on_wire (j, t)"
      and rest: "arrival_list ?b (arrived (packets_of (word_of_int (k + 1)) st)) = map on_wire ys"
      using eq unfolding xs list.map list.inject by blast+
    have j: "(word_of_int j :: u16) = word_of_int k" "?b mod kTimeWrapPeriodUs = (t * 1000) mod kTimeWrapPeriodUs"
      using hd by (simp_all add: on_wire_def)
    have "j = k" using j(1) Cons.prems(5-7) by (intro word16_close [of j k base]) (simp_all add: xs)
    have ut: "u + kDeltaScaleFactor * d = t * 1000"
    proof (rule mod_close)
      show "(u + kDeltaScaleFactor * d) mod kTimeWrapPeriodUs = t * 1000 mod kTimeWrapPeriodUs"
        using j(2) Cons.prems(2) by (metis mod_add_left_eq)
      have "\<bar>d\<bar> \<le> 2 ^ 15" using Cons.prems(4) Some by auto
      moreover have "2 * \<bar>t * 1000 - u\<bar> < kTimeWrapPeriodUs - 2 ^ 24" using Cons.prems(3) by (simp add: xs)
      ultimately show "\<bar>u + kDeltaScaleFactor * d - t * 1000\<bar> < kTimeWrapPeriodUs"
        by (simp add: kDeltaScaleFactor_def kTimeWrapPeriodUs_def kBaseScaleFactor_def)
    qed
    have "expected h (k + 1) (c + t * 1000) st = map (\<lambda>(j, t). (pb_sent (the (h j)), c + t * 1000)) ys \<and>
        received_keys (k + 1) st = fst ` set ys \<and> offsets_ok (c + base_us) (t * 1000 - base_us) st"
      by (rule Cons.IH [OF rest j(2)]) (use Cons.prems(3-) in \<open>simp_all add: xs\<close>)
    moreover have e: "u - base_us + kDeltaScaleFactor * d = t * 1000 - base_us" "c + u + kDeltaScaleFactor * d = c + t * 1000"
      using ut by simp_all
    moreover have "1000 dvd t * 1000 - base_us" using Cons.prems(9) by simp
    moreover have "\<bar>t * 1000 - base_us\<bar> < 2 ^ 62" "\<bar>c + t * 1000\<bar> < 2 ^ 62" using Cons.prems(8) by (simp_all add: xs)
    ultimately show ?thesis using \<open>j = k\<close> unfolding Some xs expected.simps received_keys.simps offsets_ok.simps Let_def e by simp
  qed
qed (simp add: arrived_def)

section \<open>The time base\<close>

lemma nearest_wrap:
  fixes d w :: int
  shows "\<bar>d\<bar> \<le> w \<Longrightarrow> 2 * \<bar>if \<bar>d - w\<bar> < \<bar>d\<bar> then d - w else if \<bar>d + w\<bar> < \<bar>d\<bar> then d + w else d\<bar> \<le> w"
  by (auto simp: abs_if split: if_splits)

lemma abs_diff_half:
  fixes x y w :: int
  shows "2 * \<bar>x\<bar> \<le> w \<Longrightarrow> 2 * \<bar>y\<bar> < w \<Longrightarrow> \<bar>x - y\<bar> < w"
  by arith

lemma GetBaseDeltaUs_close:
  assumes "GetBaseTimeUs f mod kTimeWrapPeriodUs = b mod kTimeWrapPeriodUs"
    "prev mod kTimeWrapPeriodUs = u mod kTimeWrapPeriodUs" "\<bar>GetBaseTimeUs f - prev\<bar> \<le> kTimeWrapPeriodUs"
    "2 * \<bar>b - u\<bar> < kTimeWrapPeriodUs"
  shows "GetBaseDeltaUs prev f = b - u"
proof (rule mod_close)
  let ?d = "GetBaseTimeUs f - prev" and ?w = kTimeWrapPeriodUs
  have "GetBaseDeltaUs prev f = ?d \<or> GetBaseDeltaUs prev f = ?d - ?w \<or> GetBaseDeltaUs prev f = ?d + ?w"
    by (auto simp: GetBaseDeltaUs_def Let_def)
  then have "GetBaseDeltaUs prev f mod ?w = ?d mod ?w" by (elim disjE) simp_all
  also have "\<dots> = (b - u) mod ?w" using assms(1,2) by (rule mod_diff_cong)
  finally show "GetBaseDeltaUs prev f mod ?w = (b - u) mod ?w" .
  have "2 * \<bar>GetBaseDeltaUs prev f\<bar> \<le> ?w"
    using nearest_wrap [OF assms(3)] unfolding GetBaseDeltaUs_def Let_def .
  then show "\<bar>GetBaseDeltaUs prev f - (b - u)\<bar> < ?w" using assms(4) by (rule abs_diff_half)
qed

text \<open>
  The adapter's clock: a time \<open>t\<close> of the receiver is \<open>c + t\<close> here. \<open>u\<close> is the base time of the last feedback
  packet, before the first one there is none.
\<close>

definition clock_offset :: "TransportFeedbackAdapter \<Rightarrow> int \<Rightarrow> int \<Rightarrow> bool" where
  "clock_offset a c u \<longleftrightarrow>
     2 * \<bar>ta_last_timestamp a\<bar> \<le> kTimeWrapPeriodUs \<and>
     ta_last_timestamp a mod kTimeWrapPeriodUs = u mod kTimeWrapPeriodUs \<and> ta_current_offset a = c + u"

lemma move_offset_first:
  "\<not> IsFinite (ta_last_timestamp a) \<Longrightarrow>
   move_offset f now a = Some (a\<lparr>ta_current_offset := now, ta_last_timestamp := GetBaseTimeUs f\<rparr>)"
  by (simp add: move_offset_def)

lemma move_offset_next:
  assumes "clock_offset a c u" "GetBaseTimeUs f mod kTimeWrapPeriodUs = b mod kTimeWrapPeriodUs"
    "2 * \<bar>GetBaseTimeUs f\<bar> \<le> kTimeWrapPeriodUs" "2 * \<bar>b - u\<bar> < kTimeWrapPeriodUs" "1000 dvd b - u"
    "0 \<le> c + u" "c + u < 2 ^ 61" "0 \<le> c + b" "c + b < 2 ^ 62"
  shows "move_offset f now a = Some (a\<lparr>ta_current_offset := c + b, ta_last_timestamp := GetBaseTimeUs f\<rparr>)"
proof -
  have a: "2 * \<bar>ta_last_timestamp a\<bar> \<le> kTimeWrapPeriodUs"
      "ta_last_timestamp a mod kTimeWrapPeriodUs = u mod kTimeWrapPeriodUs" "ta_current_offset a = c + u"
    using assms(1) by (simp_all add: clock_offset_def)
  have w: "kTimeWrapPeriodUs = 1073741824000"
    by (simp add: kTimeWrapPeriodUs_def kBaseScaleFactor_def kDeltaScaleFactor_def)
  have "IsFinite (ta_last_timestamp a)" using a(1) by (intro finite_small) (simp add: w)
  moreover have "GetBaseDeltaUs (ta_last_timestamp a) f = b - u"
    using assms(3) a(1) by (intro GetBaseDeltaUs_close [OF assms(2) a(2) _ assms(4)]) linarith
  moreover have "unit_minus 0 (c + u) = Some (- (c + u))"
    using assms(6,7) by (simp add: unit_minus_def PlusInfinityVal_def MinusInfinityVal_def int64_def is_int64_def)
  moreover have "unit_plus (c + u) (b - u) = Some (c + b)"
    using unit_plus_small [of "c + u" "b - u"] assms(4,6-9) by (simp add: w)
  ultimately show ?thesis
    using a(3) assms(5,8) by (simp add: move_offset_def RoundDownTo_dvd Let_def)
qed

text \<open>What one feedback packet must bring: its arrivals, its base, and the packets in the history.\<close>

definition brings :: "TransportFeedback \<Rightarrow> int \<Rightarrow> int \<Rightarrow> (int \<times> int) list \<Rightarrow> bool" where
  "brings g w b xs \<longleftrightarrow>
     (\<exists>st. represents g st) \<and> tf_include_lost g \<and> tf_base_seq_no g = word_of_int w \<and> xs \<noteq> [] \<and>
     reported g = map on_wire xs \<and> 2 * \<bar>GetBaseTimeUs g\<bar> \<le> kTimeWrapPeriodUs \<and> 1000 dvd b \<and>
     GetBaseTimeUs g mod kTimeWrapPeriodUs = b mod kTimeWrapPeriodUs \<and> times_close b xs \<and>
     (\<forall>x \<in> set xs. w \<le> fst x \<and> fst x < w + 65536)"

definition tracks :: "TransportFeedbackAdapter \<Rightarrow> int \<Rightarrow> (int \<times> int) list \<Rightarrow> bool" where
  "tracks a c xs \<longleftrightarrow>
     (\<forall>x \<in> set xs. (\<exists>p. map_of (ta_history a) (fst x) = Some p \<and> IsFinite (sp_send_time (pb_sent p))) \<and>
        \<bar>snd x * 1000\<bar> < 2 ^ 60 \<and> \<bar>c + snd x * 1000\<bar> < 2 ^ 60)"

lemma ProcessTransportFeedback_times:
  assumes g: "brings g w b xs" and a: "adapter_ok a" "tracks a c xs" "ta_seq_num_unwrapper a = Some l" "0 \<le> l" "0 \<le> w" "\<bar>w - l\<bar> < 32768"
    and move: "move_offset g now a = Some (a\<lparr>ta_current_offset := c + b, ta_last_timestamp := GetBaseTimeUs g\<rparr>)"
    and b: "\<bar>b\<bar> < 2 ^ 60" "\<bar>c + b\<bar> < 2 ^ 60"
  shows "\<exists>msg a' n. ProcessTransportFeedback g now a = Some (Some msg, a') \<and> adapter_ok a' \<and> clock_offset a' c b \<and>
    map seen (ReceivedWithSendInfo msg) = map (\<lambda>(k, t). (pb_sent (the (map_of (ta_history a) k)), c + t * 1000)) xs \<and>
    (\<forall>j. map_of (ta_history a') j = (if j \<in> fst ` set xs then None else map_of (ta_history a) j)) \<and>
    ta_seq_num_unwrapper a' = Some (w + n) \<and> 0 \<le> n \<and> n = int (tf_num_seq_no g) - 1"
proof -
  obtain st where st: "represents g st" using g by (auto simp: brings_def)
  have f: "tf_include_lost g" "tf_base_seq_no g = word_of_int w" "xs \<noteq> []" "reported g = map on_wire xs"
      "2 * \<bar>GetBaseTimeUs g\<bar> \<le> kTimeWrapPeriodUs" "1000 dvd b"
      "GetBaseTimeUs g mod kTimeWrapPeriodUs = b mod kTimeWrapPeriodUs" "times_close b xs"
      "\<forall>x \<in> set xs. w \<le> fst x \<and> fst x < w + 65536"
    using g by (simp_all add: brings_def)
  have rp: "tf_all_packets g = packets_of (word_of_int w) st" "tf_num_seq_no g = length st" "length st \<le> 65535"
      "tf_received_packets g = arrived (packets_of (word_of_int w) st)"
      "set st \<subseteq> insert None (Some ` {- (2 ^ 15) ..< 2 ^ 15})"
    using st f(1,2) by (simp_all add: represents_def kMaxReportedPackets_def)
  let ?a = "a\<lparr>ta_current_offset := c + b, ta_last_timestamp := GetBaseTimeUs g\<rparr>"
  have "\<forall>x \<in> set xs. \<bar>snd x * 1000 - b\<bar> < 2 ^ 62 \<and> \<bar>c + snd x * 1000\<bar> < 2 ^ 62"
    using a(2) b(1) by (fastforce simp: tracks_def)
  then have ex: "expected (map_of (ta_history a)) w (c + b) st =
        map (\<lambda>(j, t). (pb_sent (the (map_of (ta_history a) j)), c + t * 1000)) xs"
      "received_keys w st = fst ` set xs" "offsets_ok (c + b) 0 st"
    using expected_arrivals [where b = "GetBaseTimeUs g" and k = w and st = st and xs = xs and u = b and base = w and c = c
        and base_us = b and h = "map_of (ta_history a)"] f rp
    by (auto simp: reported_def)
  have ne: "st \<noteq> []" using f(3) ex(2) by auto
  have "\<exists>rs a'. feedback_results (packets_of (word_of_int w) st) 0 ?a = Some (rs, a') \<and> adapter_ok a' \<and>
    map seen (filter (\<lambda>r. IsFinite (pr_receive_time r)) rs) = expected (map_of (ta_history ?a)) w (c + b + 0) st \<and>
    (\<forall>j. map_of (ta_history a') j = (if j \<in> received_keys w st then None else map_of (ta_history ?a) j)) \<and>
    ta_current_offset a' = c + b \<and> ta_last_timestamp a' = ta_last_timestamp ?a \<and>
    ta_seq_num_unwrapper a' = Some (if st = [] then l else w + int (length st) - 1)"
  proof (rule feedback_results_times)
    show "\<forall>j \<in> received_keys w st. \<exists>p. map_of (ta_history ?a) j = Some p \<and> IsFinite (sp_send_time (pb_sent p))"
      using a(2) ex(2) by (auto simp: tracks_def)
    show "adapter_ok ?a" using a(1) by (simp add: adapter_ok_def)
  qed (use a b ex rp in simp_all)
  then obtain rs a' where r: "feedback_results (packets_of (word_of_int w) st) 0 ?a = Some (rs, a')" "adapter_ok a'"
    "map seen (filter (\<lambda>r. IsFinite (pr_receive_time r)) rs) =
       map (\<lambda>(j, t). (pb_sent (the (map_of (ta_history a) j)), c + t * 1000)) xs"
    "\<forall>j. map_of (ta_history a') j = (if j \<in> fst ` set xs then None else map_of (ta_history a) j)"
    "ta_current_offset a' = c + b" "ta_last_timestamp a' = GetBaseTimeUs g"
    "ta_seq_num_unwrapper a' = Some (w + int (length st) - 1)"
    using ne ex by auto
  have "rs \<noteq> []" using r(3) f(3) by auto
  moreover have "ProcessTransportFeedbackInner g now a = Some (rs, a')"
    using move r(1) by (simp add: ProcessTransportFeedbackInner_def rp(1))
  moreover have "clock_offset a' c b" using r(5,6) f(5,7) by (simp add: clock_offset_def)
  ultimately show ?thesis
    using r ne rp(2) by (auto simp: ProcessTransportFeedback_def ReceivedWithSendInfo_def Let_def)
qed

end
