(* ===== verification/ProxyRuns.thy ===== *)
theory ProxyRuns
  imports ProxyFeedback "HOL-Library.Sublist"
begin

text \<open>
  Runs of \<open>RemoteEstimatorProxy\<close>: what every sequence of calls keeps, when a run stops the process,
  what one call of \<open>Process\<close> reports, and the bounds of the interval between two calls.
\<close>

section \<open>Invariant\<close>

definition times_ok :: "(int, int) smap \<Rightarrow> bool" where
  "times_ok m \<longleftrightarrow> sm_ok m \<and>
     (\<forall>x \<in> set m. 0 \<le> snd x \<and> snd x \<le> kMaxTimeMs \<and> fst (last m) - fst x \<le> kMaxNumberOfPackets)"

definition path_ok :: "PathFeedback \<Rightarrow> bool" where
  "path_ok p \<longleftrightarrow> times_ok (pf_arrival_times p)"

definition window :: "PathFeedback \<Rightarrow> (int, int) smap" where
  "window p = (case pf_window_start_seq p of None \<Rightarrow> [] | Some w \<Rightarrow> lower_bound w (pf_arrival_times p))"

text \<open>Some arrival of the window does not follow the one before, and the next call reports the window.\<close>

definition window_linked :: "PathFeedback \<Rightarrow> bool" where
  "window_linked p = (case pf_window_start_seq p of None \<Rightarrow> True | Some w \<Rightarrow> linked (w - 1) (window p))"

definition stalled :: "PathFeedback \<Rightarrow> bool" where
  "stalled p \<longleftrightarrow> 0 \<le> pf_last_process_time_ms p \<and> \<not> window_linked p"

lemma suffix_ok:
  assumes "sm_ok m" "suffix n m"
  shows "sm_ok n" "set n \<subseteq> set m" "n \<noteq> [] \<Longrightarrow> last n = last m"
  using assms by (auto simp: sm_ok_def suffix_def sorted_wrt_append)

lemma times_ok_suffix:
  assumes "times_ok m" "suffix n m"
  shows "times_ok n"
proof (cases "n = []")
  case False
  then have "last n = last m" using assms suffix_ok(3) [of m n] by (simp add: times_ok_def)
  then show ?thesis using assms suffix_ok(1,2) [of m n] by (auto simp: times_ok_def subset_iff)
qed (simp add: times_ok_def sm_ok_def)

lemma suffix_lower_bound: "suffix (lower_bound k m) m"
  by (simp add: lower_bound_def suffix_dropWhile)

lemma open_window_suffix: "suffix (pf_arrival_times (open_window config seq t p)) (pf_arrival_times p)"
  by (simp add: open_window_def Let_def suffix_dropWhile split: option.split)

lemma open_window_ok: "path_ok p \<Longrightarrow> path_ok (open_window config seq t p)"
  unfolding path_ok_def by (rule times_ok_suffix [OF _ open_window_suffix])

lemma sm_put_not_Nil [simp]: "sm_put k v m \<noteq> []"
  by (induction k v m rule: sm_put.induct) simp_all

lemma last_sm_put: "sm_ok m \<Longrightarrow> fst (last (sm_put k v m)) = (if m = [] then k else max k (fst (last m)))"
proof (induction m)
  case (Cons x m)
  obtain k' v' where x: "x = (k', v')" by fastforce
  have m: "sm_ok m" "\<forall>y \<in> set m. k' < fst y" using Cons.prems by (auto simp: x sm_ok_def)
  have "k' < fst (last m)" if "m \<noteq> []" using m(2) that by simp
  then show ?case using Cons.IH [OF m(1)] by (auto simp: x max_def split: if_splits)
qed simp

lemma lower_bound_sorted: "sm_ok m \<Longrightarrow> x \<in> set (lower_bound k m) \<longleftrightarrow> x \<in> set m \<and> k \<le> fst x"
proof (induction m)
  case (Cons y m)
  have "\<forall>z \<in> set m. fst y < fst z" "sm_ok m" using Cons.prems by (auto simp: sm_ok_def)
  then show ?case using Cons.IH by (cases "fst y < k") (auto simp: lower_bound_def)
qed (simp add: lower_bound_def)

lemma note_arrival_ok:
  assumes "path_ok p" "0 \<le> t" "t \<le> kMaxTimeMs" "note_arrival config periodic seq t p = (b, q)"
  shows "path_ok q" "b \<Longrightarrow> \<exists>x \<in> set (pf_arrival_times q). seq \<le> fst x"
proof -
  define r where "r = (if periodic then open_window config seq t p else p)"
  have r: "path_ok r" using assms(1) open_window_ok by (simp add: r_def)
  define m where "m = sm_put seq t (pf_arrival_times r)"
  define keep where "keep = lower_bound (fst (last m) - kMaxNumberOfPackets) m"
  have e: "note_arrival config periodic seq t p =
      (if map_of (pf_arrival_times r) seq \<noteq> None then (False, r)
       else if keep = m then (True, r\<lparr>pf_arrival_times := m\<rparr>)
       else (True, r\<lparr>pf_arrival_times := keep, pf_window_start_seq := (if periodic then Some (fst (hd keep))
                                                       else pf_window_start_seq r)\<rparr>))"
    by (simp add: note_arrival_def Let_def r_def m_def keep_def)
  have m: "sm_ok m" "\<forall>x \<in> set m. 0 \<le> snd x \<and> snd x \<le> kMaxTimeMs" "m \<noteq> []"
    using r assms(2,3) set_sm_put [of seq t "pf_arrival_times r"] sm_ok_put [of "pf_arrival_times r"]
    by (auto simp: m_def path_ok_def times_ok_def)
  have lastm: "last m \<in> set keep" "seq \<le> fst (last m)"
    using m last_sm_put [of "pf_arrival_times r" seq t] r lower_bound_sorted [OF m(1), of "last m"]
    by (auto simp: keep_def kMaxNumberOfPackets_def m_def path_ok_def times_ok_def)
  have "last keep = last m" using suffix_ok(3) [OF m(1)] lastm(1) suffix_lower_bound by (metis keep_def empty_iff list.set(1))
  then have "times_ok keep"
    using m suffix_ok(1) [OF m(1) suffix_lower_bound] lower_bound_sorted [OF m(1)] by (auto simp: keep_def times_ok_def)
  then show "path_ok q" using assms(4) r unfolding e by (auto simp: path_ok_def split: if_splits)
  show "\<exists>x \<in> set (pf_arrival_times q). seq \<le> fst x" if b
    using assms(4) that lastm unfolding e by (auto split: if_splits intro!: bexI [of _ "last m"])
qed

section \<open>Feedback on request\<close>

lemma follows_near:
  assumes "0 < k - prev" "k - prev < 32768"
  shows "follows prev k"
proof -
  have "uint (word_of_int k - word_of_int prev :: u16) = (k - prev) mod 65536"
    unfolding wi_hom_sub uint_word_of_int by simp
  also have "\<dots> = k - prev" using assms by (intro mod_pos_pos_trivial) simp_all
  finally have "IsNewer16 (word_of_int k) (word_of_int prev)"
    unfolding IsNewer16_alt using assms by (intro disjI1) simp
  then show ?thesis by (simp only: follows_def IsNewerSequenceNumber_def simp_thms)
qed

text \<open>A packet whose first number is close to its base is never refused, with or without times.\<close>

lemma BuildFeedbackPacket_near:
  assumes "length junk = 14" "xs \<noteq> []" "0 \<le> snd (hd xs)" "ys = [] \<or> hd ys = hd xs" "w \<le> fst (hd xs)"
    "ys \<noteq> [] \<Longrightarrow> fst (hd xs) - w < 32767"
  shows "\<exists>w' f. BuildFeedbackPacket n ssrc w xs ys (TransportFeedback_new junk ts lost pathid) = Some (Gives (w', f))"
proof -
  obtain k t xs' where xs: "xs = (k, t) # xs'" using assms(2) by (cases xs) auto
  let ?f = "feedback_start (TransportFeedback_new junk ts lost pathid) n ssrc w t"
  have more: "\<exists>w' g. add_arrivals False w zs f = Gives (w', g)" for w zs f
    by (induction False w zs f rule: add_arrivals.induct) (auto split: prod.split bool.split)
  show ?thesis
  proof (cases ys)
    case Nil
    then show ?thesis by (simp add: xs BuildFeedbackPacket_Cons)
  next
    case (Cons y ys')
    have "follows (w - 1) k" using assms(5,6) Cons by (intro follows_near) (simp_all add: xs)
    then have "accepts (word_of_int k) (t * 1000) ?f" using assms(3) start_accepts by (simp add: xs)
    moreover obtain b g where g: "AddReceivedPacket (word_of_int k) (t * 1000) ?f = (b, g)" by fastforce
    moreover have "represents ?f []" using assms(1,3) start_represents by (simp add: xs)
    ultimately have "b" using AddReceivedPacket_step by blast
    then show ?thesis using g assms(4) Cons more by (simp add: xs BuildFeedbackPacket_Cons)
  qed
qed

lemma hd_takeWhile: "takeWhile P xs \<noteq> [] \<Longrightarrow> hd (takeWhile P xs) = hd xs \<and> P (hd xs)"
  by (cases xs) (auto split: if_splits)

lemma SendFeedbackOnRequest_returns:
  assumes junk: "length junk = 14" and p: "path_ok p" and x: "x \<in> set (pf_arrival_times p)" "seq \<le> fst x"
    and c: "0 \<le> fr_sequence_count r" "fr_sequence_count r < 2 ^ 15"
  shows "\<exists>q fs. SendFeedbackOnRequest junk ssrc seq r pathid p = Some (Gives (q, fs)) \<and> path_ok q"
proof (cases "fr_sequence_count r = 0")
  case False
  let ?w = "seq - fr_sequence_count r + 1"
  let ?b = "lower_bound ?w (pf_arrival_times p)"
  have ok: "sm_ok (pf_arrival_times p)" using p by (simp add: path_ok_def times_ok_def)
  have "x \<in> set ?b" using lower_bound_sorted [OF ok] x c False by simp
  then have ne: "?b \<noteq> []" by auto
  then have h: "hd ?b \<in> set (pf_arrival_times p)" "?w \<le> fst (hd ?b)"
    using lower_bound_sorted [OF ok, of "hd ?b" ?w] hd_in_set by blast+
  have t: "0 \<le> snd (hd ?b)" using h(1) p by (simp add: path_ok_def times_ok_def)
  let ?y = "takeWhile (\<lambda>x. fst x \<le> seq) ?b"
  have y: "?y = [] \<or> hd ?y = hd ?b" "?y \<noteq> [] \<Longrightarrow> fst (hd ?b) - ?w < 32767"
    using hd_takeWhile [of "\<lambda>x. fst x \<le> seq" ?b] c by auto
  obtain w' f where "BuildFeedbackPacket (pf_packet_count p) ssrc ?w ?b ?y
      (TransportFeedback_new junk (fr_include_timestamps r) (pathid \<noteq> 0) (- 1)) = Some (Gives (w', f))"
    using BuildFeedbackPacket_near [OF junk ne t y(1) h(2) y(2)] by blast
  moreover have "path_ok (p\<lparr>pf_packet_count := pf_packet_count p + 1, pf_arrival_times := ?b\<rparr>)"
    using times_ok_suffix [OF _ suffix_lower_bound] p by (simp add: path_ok_def)
  ultimately show ?thesis using False by (simp add: SendFeedbackOnRequest_def Let_def)
qed (use p in \<open>simp add: SendFeedbackOnRequest_def\<close>)

lemma add_arrivals_base: "add_arrivals first w its f = Gives (w', g) \<Longrightarrow> same_base f g"
proof (induction first w its f rule: add_arrivals.induct)
  case (2 first w k t its f)
  obtain b h where h: "AddReceivedPacket (word_of_int k) (t * 1000) f = (b, h)" by fastforce
  note frame = AddReceivedPacket_frame(1) [OF h]
  then show ?case using "2.IH" "2.prems" h same_base_trans [OF frame] by (cases b) (auto split: if_splits)
qed simp

lemma BuildFeedbackPacket_pathid:
  "BuildFeedbackPacket n ssrc w xs ys f = Some (Gives (w', g)) \<Longrightarrow> tf_pathid g = tf_pathid f"
  by (auto simp: BuildFeedbackPacket_def same_base_def SetFeedbackSequenceNumber_def SetBase_def Let_def
      simp del: add_arrivals.simps split: list.splits dest!: add_arrivals_base)

text \<open>Feedback on request has no path, whichever path asked for it.\<close>

lemma request_feedback_path:
  assumes "SendFeedbackOnRequest junk ssrc seq r pathid p = Some (Gives (q, fs))" "x \<in> set fs"
  shows "tf_pathid (snd x) = - 1"
  using assms
  by (auto simp: SendFeedbackOnRequest_def Let_def TransportFeedback_new_def
      split: if_splits option.splits outcome.splits prod.splits dest!: BuildFeedbackPacket_pathid)

section \<open>Calls\<close>

definition proxy_ok :: "RemoteEstimatorProxy \<Rightarrow> bool" where
  "proxy_ok s \<longleftrightarrow> path_ok (rp_p s) \<and> path_ok (rp_s s)"

text \<open>The count of a request has 15 bits (\<open>TransportSequenceNumberV2::Parse\<close>).\<close>

definition request_ok :: "RTPHeader \<Rightarrow> bool" where
  "request_ok h = (case rh_feedback_request h of
                     None \<Rightarrow> True | Some r \<Rightarrow> 0 \<le> fr_sequence_count r \<and> fr_sequence_count r < 2 ^ 15)"

lemma IncomingOnPath_returns:
  assumes "length junk = 14" "path_ok p" "0 \<le> t" "t \<le> kMaxTimeMs" "request_ok h"
  shows "\<exists>q sent. IncomingOnPath junk config periodic ssrc seq t (rh_feedback_request h) pathid p = Some (Gives (q, sent)) \<and>
    path_ok q"
proof -
  obtain b q where b: "note_arrival config periodic seq t p = (b, q)" by fastforce
  note q = note_arrival_ok [OF assms(2-4) b]
  show ?thesis
  proof (cases "b \<and> rh_feedback_request h \<noteq> None")
    case True
    then obtain r x where r: "rh_feedback_request h = Some r" "x \<in> set (pf_arrival_times q)" "seq \<le> fst x"
      using q(2) by blast
    then show ?thesis
      using SendFeedbackOnRequest_returns [OF assms(1) q(1) r(2,3), of r ssrc pathid] assms(5) b True
      by (auto simp: IncomingOnPath_def request_ok_def)
  next
    case False
    then show ?thesis using b q(1) by (cases b) (auto simp: IncomingOnPath_def)
  qed
qed

lemma IncomingPacket_returns:
  assumes "length junk = 14" "proxy_ok s" "request_ok h"
  shows "\<exists>s'. Proxy_IncomingPacket junk t sz h s = Some (Gives s') \<and> proxy_ok s'"
proof (cases "t < 0 \<or> t > kMaxTimeMs")
  case True
  then show ?thesis using assms(2) by (auto simp: Proxy_IncomingPacket_def)
next
  case False
  let ?pathid = "packet_path h"
  obtain seq u where u: "packet_number h (rp_unwrapper s) = (seq, u)" by (cases "packet_number h (rp_unwrapper s)")
  have keep: "rp_p (estimator_packet t sz h x) = rp_p x" "rp_s (estimator_packet t sz h x) = rp_s x" for x
    by (simp_all add: estimator_packet_def Let_def)
  have "path_ok (if ?pathid \<noteq> 2 then rp_p s else rp_s s)" using assms(2) by (simp add: proxy_ok_def)
  then obtain q sent where q: "IncomingOnPath junk (rp_config s) (rp_send_periodic_feedback s) (rh_ssrc h) seq t
      (rh_feedback_request h) (if ?pathid \<noteq> 2 then 1 else 2) (if ?pathid \<noteq> 2 then rp_p s else rp_s s) =
      Some (Gives (q, sent))" "path_ok q"
    using IncomingOnPath_returns [OF assms(1) _ _ _ assms(3)] False by (metis not_less)
  show ?thesis
    using False q assms(2) unfolding Proxy_IncomingPacket_def Let_def
    by (auto simp: u keep proxy_ok_def split: option.split if_splits)
qed

lemma SendPathFeedbacks_spec:
  assumes "length junk = 14" "path_ok p"
  shows "\<exists>q fs. SendPathFeedbacks junk pathid ssrc now p = Some (if stalled p then Fails else Gives (q, map (Pair pathid) fs)) \<and>
    (\<not> stalled p \<longrightarrow> path_ok q \<and> pf_arrival_times q = pf_arrival_times p \<and>
       (if 0 \<le> pf_last_process_time_ms p
        then concat (map reported fs) = map on_wire (window p) \<and> window q = []
        else fs = [] \<and> window q = window p) \<and>
       (\<forall>f \<in> set fs. feedback_built f \<and> tf_include_timestamps f \<and> tf_pathid f = pathid \<and> reported f \<noteq> []))"
proof (cases "pf_last_process_time_ms p < 0 \<or> pf_window_start_seq p = None")
  case True
  then show ?thesis
    using assms(2) by (intro exI [of _ "if pf_last_process_time_ms p < 0 then p\<lparr>pf_last_process_time_ms := now\<rparr> else p"]
        exI [of _ "[]"]) (auto simp: SendPathFeedbacks_def stalled_def window_linked_def window_def path_ok_def split: option.split)
next
  case False
  then obtain w where w: "pf_window_start_seq p = Some w" by blast
  let ?m = "pf_arrival_times p" and ?n = "pf_packet_count p"
  have m: "sm_ok ?m" "\<forall>x \<in> set ?m. 0 \<le> snd x" using assms(2) by (simp_all add: path_ok_def times_ok_def)
  have win: "window p = lower_bound w ?m" by (simp add: window_def w)
  have st: "stalled p \<longleftrightarrow> \<not> linked (w - 1) (lower_bound w ?m)"
    using False by (simp add: stalled_def window_linked_def w win)
  obtain fs where fs: "feedback_loop junk pathid ssrc ?m w ?n [] =
      Some (if linked (w - 1) (lower_bound w ?m)
            then Gives (last_key (w - 1) (lower_bound w ?m) + 1, ?n + of_nat (length fs), [] @ fs) else Fails)"
      "linked (w - 1) (lower_bound w ?m) \<longrightarrow> concat (map reported fs) = map on_wire (lower_bound w ?m) \<and>
         (\<forall>f \<in> set fs. feedback_built f \<and> tf_include_timestamps f \<and> tf_pathid f = pathid \<and> reported f \<noteq> [])"
    using feedback_loop_spec [OF assms(1) m, of pathid ssrc w ?n "[]"] by blast
  define q where "q = p\<lparr>pf_window_start_seq := Some (last_key (w - 1) (window p) + 1),
    pf_packet_count := ?n + of_nat (length fs), pf_last_process_time_ms := now\<rparr>"
  have "lower_bound (last_key (w - 1) (window p) + 1) ?m = []"
  proof (cases "window p")
    case (Cons x xs)
    then show ?thesis using lower_bound_after [OF m(1), of w "fst x" "snd x" xs "[]"] by (cases x) (simp add: win)
  qed (simp add: win)
  then have "window q = []" by (simp add: window_def q_def)
  then show ?thesis
    using False fs assms(2) st
    by (intro exI [of _ q] exI [of _ fs]) (auto simp: SendPathFeedbacks_def w win q_def path_ok_def)
qed

lemma process_windows:
  assumes "length junk = 14" "proxy_ok s" "rp_send_periodic_feedback s"
    "pf_window_start_seq (rp_p s) \<noteq> None \<or> pf_window_start_seq (rp_s s) \<noteq> None"
  shows "\<exists>s' fs gs. Proxy_Process junk now s = Some (if stalled (rp_p s) \<or> stalled (rp_s s) then Fails else Gives s') \<and>
    (\<not> stalled (rp_p s) \<and> \<not> stalled (rp_s s) \<longrightarrow>
       proxy_ok s' \<and> rp_sent s' = rp_sent s @ map (Pair 1) fs @ map (Pair 2) gs \<and>
       (if 0 \<le> pf_last_process_time_ms (rp_p s)
        then concat (map reported fs) = map on_wire (window (rp_p s)) \<and> window (rp_p s') = []
        else fs = [] \<and> window (rp_p s') = window (rp_p s)) \<and>
       (if 0 \<le> pf_last_process_time_ms (rp_s s)
        then concat (map reported gs) = map on_wire (window (rp_s s)) \<and> window (rp_s s') = []
        else gs = [] \<and> window (rp_s s') = window (rp_s s)))"
proof -
  obtain p fs where p: "SendPathFeedbacks junk 1 (rp_media_ssrc s) now (rp_p s) =
        Some (if stalled (rp_p s) then Fails else Gives (p, map (Pair 1) fs))"
      "\<not> stalled (rp_p s) \<longrightarrow> path_ok p \<and> (if 0 \<le> pf_last_process_time_ms (rp_p s)
        then concat (map reported fs) = map on_wire (window (rp_p s)) \<and> window p = []
        else fs = [] \<and> window p = window (rp_p s))"
    using SendPathFeedbacks_spec [OF assms(1), of "rp_p s" 1 "rp_media_ssrc s" now] assms(2) unfolding proxy_ok_def by blast
  obtain q gs where q: "SendPathFeedbacks junk 2 (rp_media_ssrc s) now (rp_s s) =
        Some (if stalled (rp_s s) then Fails else Gives (q, map (Pair 2) gs))"
      "\<not> stalled (rp_s s) \<longrightarrow> path_ok q \<and> (if 0 \<le> pf_last_process_time_ms (rp_s s)
        then concat (map reported gs) = map on_wire (window (rp_s s)) \<and> window q = []
        else gs = [] \<and> window q = window (rp_s s))"
    using SendPathFeedbacks_spec [OF assms(1), of "rp_s s" 2 "rp_media_ssrc s" now] assms(2) unfolding proxy_ok_def by blast
  let ?s = "s\<lparr>rp_last_process_time_ms := now, rp_p := p, rp_sent := (rp_sent s @ map (Pair 1) fs) @ map (Pair 2) gs, rp_s := q\<rparr>"
  have "Proxy_Process junk now s = Some (if stalled (rp_p s) \<or> stalled (rp_s s) then Fails else Gives ?s)"
    using assms(3,4) p(1) q(1) by (auto simp: Proxy_Process_def SendPeriodicFeedbacks_def Let_def)
  moreover have "proxy_ok ?s" if "\<not> stalled (rp_p s) \<and> \<not> stalled (rp_s s)" using p(2) q(2) that by (simp add: proxy_ok_def)
  ultimately show ?thesis using p(2) q(2) by (intro exI [of _ ?s] exI [of _ fs] exI [of _ gs]) simp
qed


section \<open>The interval between two reports\<close>

lemma twcc_report: "twcc_report_millibits = Fin 544000"
proof -
  have "dround 544 = Fin 544" "dround 544000 = Fin 544000"
    using d_of_int_small [of 544] d_of_int_small [of 544000] by (simp_all add: d_of_int_def)
  then show ?thesis by (simp add: twcc_report_millibits_def kTwccReportSize_def d_of_int_small)
qed

lemma twcc_rates:
  "d_div twcc_report_millibits (d_of_int 250) = Fin 2176" "d_div twcc_report_millibits (d_of_int 50) = Fin 10880"
  using d_of_int_small [of 2176] d_of_int_small [of 10880] d_of_int_small [of 250] d_of_int_small [of 50] by (simp_all add: twcc_report d_of_int_small d_of_int_def)

text \<open>The clamped rate, and the interval for it: rounding is monotone, and so is the interval.\<close>

definition twcc_rate :: "int \<Rightarrow> rat" where
  "twcc_rate b = (let x = rnd (rnd (1 / 20) * of_int b) in if x \<le> 2176 then 2176 else if 10880 \<le> x then 10880 else x)"

definition twcc_interval :: "int \<Rightarrow> int" where
  "twcc_interval b = \<lfloor>rnd (1 / 2 + rnd (544000 / twcc_rate b))\<rfloor>"

lemma twcc_rate_bounds: "2176 \<le> twcc_rate b" "twcc_rate b \<le> 10880"
  by (simp_all add: twcc_rate_def Let_def)

lemma fraction_pos: "0 \<le> rnd (1 / 20)" "rnd (1 / 20) \<le> 1"
  using b64.rnd_between [of 0 1 "1 / 20"] by simp_all

lemma twcc_rate_mono: "b \<le> c \<Longrightarrow> twcc_rate b \<le> twcc_rate c"
proof -
  assume "b \<le> c"
  then have "rnd (rnd (1 / 20) * of_int b) \<le> rnd (rnd (1 / 20) * of_int c)"
    using fraction_pos(1) by (intro rnd_mono mult_left_mono) simp_all
  then show ?thesis by (auto simp: twcc_rate_def Let_def)
qed

lemma twcc_quotient: "50 \<le> rnd (544000 / twcc_rate b)" "rnd (544000 / twcc_rate b) \<le> 250"
proof -
  have "50 \<le> 544000 / twcc_rate b" "544000 / twcc_rate b \<le> 250"
    using twcc_rate_bounds [of b] by (simp_all add: field_simps)
  then show "50 \<le> rnd (544000 / twcc_rate b)" "rnd (544000 / twcc_rate b) \<le> 250"
    using b64.rnd_between [of 50 250 "544000 / twcc_rate b"] by simp_all
qed

lemma twcc_sum: "50 \<le> rnd (1 / 2 + rnd (544000 / twcc_rate b))" "rnd (1 / 2 + rnd (544000 / twcc_rate b)) < 251"
proof -
  let ?x = "1 / 2 + rnd (544000 / twcc_rate b)"
  have "rnd (501 / 2) = 501 / 2" by (rule rnd_fixed [of _ 501 "- 1"]) simp_all
  moreover have "rnd ?x \<le> rnd (501 / 2)" using twcc_quotient [of b] by (intro rnd_mono) simp
  ultimately show "rnd ?x < 251" by simp
  show "50 \<le> rnd ?x" using b64.rnd_between [of 50 251 ?x] twcc_quotient [of b] by simp
qed

lemma OnBitrateChanged_eq:
  assumes "rp_config s = feedback_config_default" "- (2 ^ 31) \<le> b" "b < 2 ^ 31"
  shows "Proxy_OnBitrateChanged b s = Some (s\<lparr>rp_send_interval_ms := twcc_interval b\<rparr>)"
proof -
  have b: "d_of_int b = Fin (of_int b)" using assms(2,3) by (intro d_of_int_small) simp
  have abs: "\<bar>rnd (1 / 20) * of_int b\<bar> \<le> 2 ^ 52"
  proof -
    have "\<bar>rnd (1 / 20) * of_int b\<bar> \<le> 1 * \<bar>of_int b\<bar>"
      using fraction_pos unfolding abs_mult by (intro mult_right_mono) simp_all
    also have "\<dots> = of_int \<bar>b\<bar>" by simp
    also have "\<dots> \<le> of_int (2 ^ 31)" using assms(2,3) unfolding of_int_le_iff by simp
    finally show ?thesis by simp
  qed
  have "d_mul (dround (1 / 20)) (d_of_int b) = Fin (rnd (rnd (1 / 20) * of_int b))"
    using dround_small [OF abs] dround_small [of "1 / 20"] by (simp add: b)
  then have clamp: "SafeClamp (d_mul (dround (1 / 20)) (d_of_int b)) (Fin 2176) (Fin 10880) = Fin (twcc_rate b)"
    by (auto simp: SafeClamp_def d_le_def twcc_rate_def Let_def)
  have "d_div twcc_report_millibits (Fin (twcc_rate b)) = Fin (rnd (544000 / twcc_rate b))"
  proof -
    have "\<bar>544000 / twcc_rate b\<bar> \<le> 2 ^ 52" using twcc_rate_bounds [of b] by (simp add: field_simps)
    then show ?thesis using twcc_rate_bounds [of b] by (simp add: twcc_report dround_small)
  qed
  moreover have "dround (1 / 2) = Fin (1 / 2)"
    using dround_small [of "1 / 2"] rnd_fixed [of "1 / 2" 1 "- 1"] by simp
  moreover have "dround (1 / 2 + rnd (544000 / twcc_rate b)) = Fin (rnd (1 / 2 + rnd (544000 / twcc_rate b)))"
    using twcc_quotient [of b] by (intro dround_small) simp
  moreover have "50 \<le> twcc_interval b" "twcc_interval b \<le> 250"
    using twcc_sum [of b] by (simp_all add: twcc_interval_def le_floor_iff floor_le_iff)
  moreover have "trunc_rat (rnd (1 / 2 + rnd (544000 / twcc_rate b))) = twcc_interval b"
    using twcc_sum(1) [of b] by (simp add: trunc_rat_def twcc_interval_def)
  ultimately show ?thesis
    using clamp assms(1) by (simp add: Proxy_OnBitrateChanged_def feedback_config_default_def twcc_rates Let_def)
qed

text \<open>
  C15: with the default configuration and for every bitrate an \<open>int\<close> can hold, negative ones
  included, the interval between two feedback reports is from 50 to 250 milliseconds, and a higher
  bitrate never makes it longer.
\<close>

theorem feedback_interval_bounds:
  assumes "rp_config s = feedback_config_default" "- (2 ^ 31) \<le> b" "b \<le> c" "c < 2 ^ 31"
  shows "\<exists>s1 s2. Proxy_OnBitrateChanged b s = Some s1 \<and> Proxy_OnBitrateChanged c s = Some s2 \<and>
    50 \<le> rp_send_interval_ms s2 \<and> rp_send_interval_ms s2 \<le> rp_send_interval_ms s1 \<and> rp_send_interval_ms s1 \<le> 250"
proof -
  have "544000 / twcc_rate c \<le> 544000 / twcc_rate b"
    using twcc_rate_mono [OF assms(3)] twcc_rate_bounds [of b] by (intro divide_left_mono) auto
  then have "twcc_interval c \<le> twcc_interval b"
    unfolding twcc_interval_def by (intro floor_mono rnd_mono add_left_mono)
  moreover have "50 \<le> twcc_interval c" "twcc_interval b \<le> 250"
    using twcc_sum [of c] twcc_sum [of b] by (simp_all add: twcc_interval_def le_floor_iff floor_le_iff)
  ultimately show ?thesis
    using OnBitrateChanged_eq [OF assms(1), of b] OnBitrateChanged_eq [OF assms(1), of c] assms by simp
qed

section \<open>A receiver that stops\<close>

text \<open>A packet of a path, by the value of the path extension and the number there.\<close>

definition path_packet :: "u8 \<Rightarrow> u16 \<Rightarrow> RTPHeader" where
  "path_packet path n = \<lparr>rh_ssrc = 1, rh_headerLength = 12, rh_hassandy = True, rh_sandy = path,
     rh_hasMpTransportSequenceNumber = True, rh_mptransportSequenceNumber = n, rh_feedback_request = None,
     rh_hasAbsoluteSendTime = False, rh_absoluteSendTime = 0\<rparr>"

lemma IncomingPacket_plain:
  assumes "path = 1 \<or> path = 2" "0 \<le> t" "t \<le> kMaxTimeMs" "SeqNumUnwrap n (rp_unwrapper s) = (u, st)" "0 \<le> u" "u < 2 ^ 31"
    "note_arrival (rp_config s) (rp_send_periodic_feedback s) u t (if path = 1 then rp_p s else rp_s s) = (True, p)"
  shows "Proxy_IncomingPacket junk t sz (path_packet path n) s =
    Some (Gives (if path = 1 then s\<lparr>rp_media_ssrc := 1, rp_unwrapper := st, rp_p := p\<rparr>
                 else s\<lparr>rp_media_ssrc := 1, rp_unwrapper := st, rp_s := p\<rparr>))"
proof -
  have "signed_take_bit 31 u = u" using assms(5,6) signed_take_bit_int_eq_self_iff [of 31 u] by simp
  then show ?thesis
    using assms by (auto simp: Proxy_IncomingPacket_def packet_path_def packet_number_def path_packet_def
        IncomingOnPath_def estimator_packet_def Let_def)
qed

lemma SendPathFeedbacks_due:
  assumes "length junk = 14" "path_ok p" "0 \<le> pf_last_process_time_ms p" "pf_window_start_seq p = Some w"
    "linked (w - 1) (window p)"
  shows "\<exists>n fs. SendPathFeedbacks junk pathid ssrc now p =
    Some (Gives (p\<lparr>pf_window_start_seq := Some (last_key (w - 1) (window p) + 1), pf_packet_count := n,
                   pf_last_process_time_ms := now\<rparr>, fs))"
proof -
  have "sm_ok (pf_arrival_times p)" "\<forall>x \<in> set (pf_arrival_times p). 0 \<le> snd x"
    using assms(2) by (simp_all add: path_ok_def times_ok_def)
  then show ?thesis
    using feedback_loop_spec [OF assms(1), of "pf_arrival_times p" pathid ssrc w "pf_packet_count p" "[]"] assms(3-5)
    by (auto simp: SendPathFeedbacks_def window_def)
qed

lemma SendPathFeedbacks_stalled:
  "length junk = 14 \<Longrightarrow> path_ok p \<Longrightarrow> stalled p \<Longrightarrow> SendPathFeedbacks junk pathid ssrc now p = Some Fails"
  using SendPathFeedbacks_spec [of junk p pathid ssrc now] by auto

lemma follows_self: "follows (w - 1) w"
  by (rule follows_near) simp_all

lemma not_follows_far:
  assumes "32768 < k - prev" "k - prev < 65536"
  shows "\<not> follows prev k"
proof -
  have "uint (word_of_int k - word_of_int prev :: u16) = (k - prev) mod 65536"
    unfolding wi_hom_sub uint_word_of_int by simp
  also have "\<dots> = k - prev" using assms by (intro mod_pos_pos_trivial) simp_all
  finally have d: "uint (word_of_int k - word_of_int prev :: u16) = k - prev" .
  then have "\<not> IsNewer16 (word_of_int k) (word_of_int prev)"
    using assms newer_distance(2) by fastforce
  moreover have "(word_of_int k :: u16) \<noteq> word_of_int (prev + 1)"
  proof
    assume "(word_of_int k :: u16) = word_of_int (prev + 1)"
    then have "word_of_int k - word_of_int prev = (1 :: u16)" by simp
    then show False using d assms by simp
  qed
  ultimately show ?thesis by (simp only: follows_def IsNewerSequenceNumber_def simp_thms)
qed

text \<open>
  C13: three packets can stop a receiver that counts both paths with one unwrapper. The first, on
  the primary path, is reported; when it has left the window, a packet of the secondary path moves the
  unwrapper forward, and a packet of the primary path then gets a number more than 32768 above the
  last one reported. The next call of \<open>Process\<close> cannot put it in a packet and fails its check.
\<close>

theorem three_packets_stop_receiver:
  assumes junk: "length junk = 14" and t: "0 \<le> t" "t \<le> t1" "t1 \<le> t2" "t2 \<le> t3" "t3 \<le> t4" "t4 \<le> kMaxTimeMs"
    and old: "wf_back_window config \<le> t4 - t"
    and x: "0 \<le> x" "x < 65536" and y: "\<bar>y - x\<bar> < 32768" "0 \<le> y" and z: "\<bar>z - y\<bar> < 32768" "32768 < z - x"
  shows "proxy_run junk
      [Packet t sz (path_packet 1 (word_of_int x)), ProcessAt t1, ProcessAt t2,
       Packet t3 sz (path_packet 2 (word_of_int y)), Packet t4 sz (path_packet 1 (word_of_int z)), ProcessAt t5]
      (RemoteEstimatorProxy_new config False 0) = Some Fails"
proof -
  let ?s0 = "RemoteEstimatorProxy_new config False 0"
  let ?p1 = "path_new\<lparr>pf_window_start_seq := Some x, pf_arrival_times := [(x, t)]\<rparr>"
  let ?s1 = "?s0\<lparr>rp_media_ssrc := 1, rp_unwrapper := (x, Some (word_of_int x)), rp_p := ?p1\<rparr>"
  have "SeqNumUnwrap (word_of_int x) (0, None) = (x, x, Some (word_of_int x))"
    using x by (simp add: SeqNumUnwrap_def Let_def uint_word_of_int)
  then have s1: "Proxy_IncomingPacket junk t sz (path_packet 1 (word_of_int x)) ?s0 = Some (Gives ?s1)"
    using t x by (subst IncomingPacket_plain [where u = x and p = ?p1])
      (simp_all add: RemoteEstimatorProxy_new_def note_arrival_def open_window_def path_new_def lower_bound_def
        kMaxNumberOfPackets_def Let_def)
  let ?s2 = "?s1\<lparr>rp_last_process_time_ms := t1, rp_p := ?p1\<lparr>pf_last_process_time_ms := t1\<rparr>,
    rp_s := path_new\<lparr>pf_last_process_time_ms := t1\<rparr>\<rparr>"
  have s2: "Proxy_Process junk t1 ?s1 = Some (Gives ?s2)"
    by (simp add: Proxy_Process_def SendPeriodicFeedbacks_def SendPathFeedbacks_def RemoteEstimatorProxy_new_def
        path_new_def Let_def)
  have "\<exists>n fs. Proxy_Process junk t2 ?s2 = Some (Gives (?s2\<lparr>rp_last_process_time_ms := t2,
      rp_p := ?p1\<lparr>pf_window_start_seq := Some (x + 1), pf_packet_count := n, pf_last_process_time_ms := t2\<rparr>,
      rp_sent := fs\<rparr>))"
    using SendPathFeedbacks_due [OF junk, of "?p1\<lparr>pf_last_process_time_ms := t1\<rparr>" x 1 1 t2] follows_self [of x] t
    by (auto simp: Proxy_Process_def SendPeriodicFeedbacks_def SendPathFeedbacks_def RemoteEstimatorProxy_new_def
        path_new_def Let_def window_def lower_bound_def path_ok_def times_ok_def sm_ok_def kMaxNumberOfPackets_def)
  then obtain n fs where s3: "Proxy_Process junk t2 ?s2 = Some (Gives (?s2\<lparr>rp_last_process_time_ms := t2,
      rp_p := ?p1\<lparr>pf_window_start_seq := Some (x + 1), pf_packet_count := n, pf_last_process_time_ms := t2\<rparr>,
      rp_sent := fs\<rparr>))" (is "_ = Some (Gives ?s3)") by blast
  let ?q4 = "path_new\<lparr>pf_last_process_time_ms := t1, pf_window_start_seq := Some y, pf_arrival_times := [(y, t3)]\<rparr>"
  let ?s4 = "?s3\<lparr>rp_media_ssrc := 1, rp_unwrapper := (y, Some (word_of_int y)), rp_s := ?q4\<rparr>"
  have s4: "Proxy_IncomingPacket junk t3 sz (path_packet 2 (word_of_int y)) ?s3 = Some (Gives ?s4)"
    using t x y SeqNumUnwrap_near [of y x]
    by (subst IncomingPacket_plain [where u = y and p = ?q4])
      (simp_all add: RemoteEstimatorProxy_new_def note_arrival_def open_window_def path_new_def lower_bound_def
        kMaxNumberOfPackets_def Let_def)
  let ?p5 = "rp_p ?s4\<lparr>pf_arrival_times := [(z, t4)]\<rparr>"
  let ?s5 = "?s4\<lparr>rp_media_ssrc := 1, rp_unwrapper := (z, Some (word_of_int z)), rp_p := ?p5\<rparr>"
  have s5: "Proxy_IncomingPacket junk t4 sz (path_packet 1 (word_of_int z)) ?s4 = Some (Gives ?s5)"
    using t x y z old SeqNumUnwrap_near [of z y]
    by (subst IncomingPacket_plain [where u = z and p = ?p5])
      (simp_all add: RemoteEstimatorProxy_new_def note_arrival_def open_window_def path_new_def lower_bound_def
        kMaxNumberOfPackets_def Let_def)
  have "stalled ?p5"
    using t x y z not_follows_far [of z x]
    by (simp add: stalled_def window_linked_def window_def lower_bound_def path_new_def)
  moreover have "path_ok ?p5" using t by (simp add: path_ok_def times_ok_def sm_ok_def kMaxNumberOfPackets_def)
  ultimately have "SendPathFeedbacks junk 1 (rp_media_ssrc ?s5) t5 ?p5 = Some Fails"
    by (intro SendPathFeedbacks_stalled [OF junk])
  then have s6: "Proxy_Process junk t5 ?s5 = Some Fails"
    by (simp add: Proxy_Process_def SendPeriodicFeedbacks_def RemoteEstimatorProxy_new_def path_new_def)
  show ?thesis
    by (simp only: proxy_run.simps proxy_step_def proxy_event.case option.case outcome.case s1 s2 s3 s4 s5 s6)
qed

theorem three_packets_stop_receiver_witness:
  "proxy_run (replicate 14 0)
     [Packet 1000 100 (path_packet 1 (word_of_int 0)), ProcessAt 1000, ProcessAt 1100,
      Packet 1600 100 (path_packet 2 (word_of_int 20000)), Packet 1601 100 (path_packet 1 (word_of_int 40000)),
      ProcessAt 1700] (RemoteEstimatorProxy_new feedback_config_default False 0) = Some Fails"
  using three_packets_stop_receiver [of "replicate 14 0" 1000 1000 1100 1600 1601 feedback_config_default 0 20000 40000 100 1700]
  by (simp add: kMaxTimeMs_def feedback_config_default_def)

section \<open>Every run\<close>

fun event_ok :: "proxy_event \<Rightarrow> bool" where
  "event_ok (Packet t n h) = request_ok h"
| "event_ok (Bitrate b) \<longleftrightarrow> - (2 ^ 31) \<le> b \<and> b < 2 ^ 31"
| "event_ok _ = True"

lemma IncomingPacket_config: "Proxy_IncomingPacket junk t sz h s = Some (Gives s') \<Longrightarrow> rp_config s' = rp_config s"
  by (auto simp: Proxy_IncomingPacket_def estimator_packet_def Let_def split: if_splits prod.splits option.splits outcome.splits)

lemma Process_config: "Proxy_Process junk now s = Some (Gives s') \<Longrightarrow> rp_config s' = rp_config s"
  by (auto simp: Proxy_Process_def SendPeriodicFeedbacks_def Let_def split: if_splits prod.splits option.splits outcome.splits)

lemma Process_returns:
  assumes "length junk = 14" "proxy_ok s"
  shows "\<exists>s'. Proxy_Process junk now s =
      Some (if rp_send_periodic_feedback s \<and> (stalled (rp_p s) \<or> stalled (rp_s s)) then Fails else Gives s') \<and>
    (\<not> (rp_send_periodic_feedback s \<and> (stalled (rp_p s) \<or> stalled (rp_s s))) \<longrightarrow> proxy_ok s')"
proof (cases "rp_send_periodic_feedback s \<and> (pf_window_start_seq (rp_p s) \<noteq> None \<or> pf_window_start_seq (rp_s s) \<noteq> None)")
  case True
  then show ?thesis using process_windows [OF assms, of now] by auto
next
  case False
  then show ?thesis
    using assms(2) by (auto simp: Proxy_Process_def SendPeriodicFeedbacks_def proxy_ok_def stalled_def window_linked_def)
qed

lemma proxy_step_returns:
  assumes "length junk = 14" "proxy_ok s" "rp_config s = feedback_config_default" "event_ok e"
  shows "\<exists>r. proxy_step junk e s = Some r \<and> (\<forall>s'. r = Gives s' \<longrightarrow> proxy_ok s' \<and> rp_config s' = feedback_config_default) \<and>
    (r = Fails \<longrightarrow> (\<exists>now. e = ProcessAt now) \<and> rp_send_periodic_feedback s \<and> (stalled (rp_p s) \<or> stalled (rp_s s)))"
proof (cases e)
  case (Packet t n h)
  then show ?thesis
    using IncomingPacket_returns [OF assms(1,2), of h t n] IncomingPacket_config [of junk t n h s] assms(3,4)
    by (auto simp: proxy_step_def)
next
  case (ProcessAt now)
  let ?b = "rp_send_periodic_feedback s \<and> (stalled (rp_p s) \<or> stalled (rp_s s))"
  obtain s' where s': "Proxy_Process junk now s = Some (if ?b then Fails else Gives s')" "\<not> ?b \<longrightarrow> proxy_ok s'"
    using Process_returns [OF assms(1,2)] by blast
  have step: "proxy_step junk e s = Proxy_Process junk now s" by (simp add: proxy_step_def ProcessAt)
  show ?thesis
  proof (cases ?b)
    case True
    then show ?thesis using s'(1) ProcessAt unfolding step by auto
  next
    case False
    then have "Proxy_Process junk now s = Some (Gives s')" using s'(1) by auto
    then show ?thesis using s'(2) False Process_config assms(3) unfolding step by simp
  qed
next
  case (Bitrate b)
  then show ?thesis
    using OnBitrateChanged_eq [OF assms(3), of b] assms by (simp add: proxy_step_def proxy_ok_def)
next
  case (Periodic b)
  then show ?thesis using assms by (simp add: proxy_step_def SetSendPeriodicFeedback_def proxy_ok_def)
qed

text \<open>
  C4: every run of the receiver's proxy, with any packets whose feedback requests have 15-bit counts,
  any clock, any switching of the periodic feedback and any \<open>int\<close> bitrates, ends: each loop of it
  terminates, no map is read past its end, and the arrival times of both paths stay sorted, in range
  and within 32768 numbers of the newest; the one thing that can stop it early is the failed check in \<open>Process\<close>.
\<close>


theorem proxy_runs_end:
  assumes "length junk = 14" "proxy_ok s" "rp_config s = feedback_config_default" "list_all event_ok es"
  shows "\<exists>r. proxy_run junk es s = Some r \<and> (\<forall>s'. r = Gives s' \<longrightarrow> proxy_ok s') \<and>
    (r = Fails \<longrightarrow> (\<exists>es1 now es2 s'. es = es1 @ ProcessAt now # es2 \<and> proxy_run junk es1 s = Some (Gives s') \<and>
        rp_send_periodic_feedback s' \<and> (stalled (rp_p s') \<or> stalled (rp_s s'))))"
  using assms(2-)
proof (induction es arbitrary: s)
  case (Cons e es)
  obtain r where r: "proxy_step junk e s = Some r" "\<forall>s'. r = Gives s' \<longrightarrow> proxy_ok s' \<and> rp_config s' = feedback_config_default"
      "r = Fails \<longrightarrow> (\<exists>now. e = ProcessAt now) \<and> rp_send_periodic_feedback s \<and> (stalled (rp_p s) \<or> stalled (rp_s s))"
    using proxy_step_returns [OF assms(1), of s e] Cons.prems by auto
  show ?case
  proof (cases r)
    case Fails
    then show ?thesis using r by (fastforce intro: exI [of _ "[]"])
  next
    case (Gives s1)
    have s1: "proxy_ok s1" "rp_config s1 = feedback_config_default" "list_all event_ok es"
      using Gives r(2) Cons.prems(3) by simp_all
    obtain r' where r': "proxy_run junk es s1 = Some r'" "\<forall>s'. r' = Gives s' \<longrightarrow> proxy_ok s'"
        "r' = Fails \<longrightarrow> (\<exists>es1 now es2 s'. es = es1 @ ProcessAt now # es2 \<and> proxy_run junk es1 s1 = Some (Gives s') \<and>
          rp_send_periodic_feedback s' \<and> (stalled (rp_p s') \<or> stalled (rp_s s')))"
      using Cons.IH [OF s1] by blast
    have "\<exists>es1 now es2 s'. e # es = es1 @ ProcessAt now # es2 \<and> proxy_run junk es1 s = Some (Gives s') \<and>
        rp_send_periodic_feedback s' \<and> (stalled (rp_p s') \<or> stalled (rp_s s'))" if r'_Fails: "r' = Fails"
    proof -
      obtain es1 now es2 s' where "es = es1 @ ProcessAt now # es2" "proxy_run junk es1 s1 = Some (Gives s')"
          "rp_send_periodic_feedback s'" "stalled (rp_p s') \<or> stalled (rp_s s')"
        using r'(3) r'_Fails by blast
      then show ?thesis
        using r(1) Gives by (intro exI [of _ "e # es1"] exI [of _ now] exI [of _ es2] exI [of _ s']) simp
    qed
    then show ?thesis using r' r(1) Gives by simp
  qed
qed (auto intro: exI [of _ "Gives _"])

lemma proxy_new_ok: "proxy_ok (RemoteEstimatorProxy_new config estimator now)"
  by (simp add: proxy_ok_def RemoteEstimatorProxy_new_def path_new_def path_ok_def times_ok_def sm_ok_def)

theorem proxy_runs_end_witness:
  "\<exists>r. proxy_run (replicate 14 0) [Packet 5 100 (path_packet 2 7), ProcessAt 9, Bitrate 1000000, ProcessAt 120]
     (RemoteEstimatorProxy_new feedback_config_default False 0) = Some r"
  using proxy_runs_end [of "replicate 14 0" "RemoteEstimatorProxy_new feedback_config_default False 0"
      "[Packet 5 100 (path_packet 2 7), ProcessAt 9, Bitrate 1000000, ProcessAt 120]"] proxy_new_ok
  by (auto simp: RemoteEstimatorProxy_new_def request_ok_def path_packet_def)

theorem feedback_interval_bounds_witness:
  "\<exists>s1 s2. Proxy_OnBitrateChanged (- 5) (RemoteEstimatorProxy_new feedback_config_default False 0) = Some s1 \<and>
     Proxy_OnBitrateChanged 300000 (RemoteEstimatorProxy_new feedback_config_default False 0) = Some s2 \<and>
     50 \<le> rp_send_interval_ms s2 \<and> rp_send_interval_ms s2 \<le> rp_send_interval_ms s1 \<and> rp_send_interval_ms s1 \<le> 250"
  using feedback_interval_bounds [of "RemoteEstimatorProxy_new feedback_config_default False 0" "- 5" 300000]
  by (simp add: RemoteEstimatorProxy_new_def)

text \<open>A proxy with two packets of the secondary path that wait to be reported.\<close>

definition example_proxy :: RemoteEstimatorProxy where
  "example_proxy = (RemoteEstimatorProxy_new feedback_config_default False 0)\<lparr>rp_s :=
     \<lparr>pf_last_process_time_ms = 100, pf_window_start_seq = Some 7, pf_arrival_times = [(7, 150), (9, 180)],
      pf_packet_count = 3\<rparr>\<rparr>"


end
