(* ===== verification/FeedbackDelay.thy ===== *)
theory FeedbackDelay
  imports FeedbackTimes ProxyRuns Delivery
begin

text \<open>
  The way of an arrival time from the receiver to the congestion controller of the sender: the proxy's
  packet, its bytes, the RTCP receiver, the adapter.
\<close>

section \<open>Delivery of a packet\<close>

lemma parse_chunks_lost: "parse_chunks pl n i ds f = Some (Gives (j, es, g)) \<Longrightarrow> tf_include_lost g = tf_include_lost f"
proof (induction pl n i ds f rule: parse_chunks.induct)
  case (1 pl n i ds f)
  from "1.prems" show ?case
    by (subst (asm) parse_chunks.simps) (auto simp: Let_def bind_eq_Some_conv split: if_splits dest!: "1.IH")
qed

lemma parse_deltas_lost: "parse_deltas pl ds s i f = Some (Gives (j, g)) \<Longrightarrow> tf_include_lost g = tf_include_lost f"
proof (induction ds arbitrary: s i f)
  case (Cons d ds)
  have "tf_include_lost (add_parsed s x f) = tf_include_lost f" for x by (simp add: add_parsed_def Let_def)
  then show ?case using Cons.prems by (auto simp: Let_def bind_eq_Some_conv split: if_splits dest!: Cons.IH)
qed simp

lemma parse_statuses_lost: "tf_include_lost (parse_statuses ds s f) = tf_include_lost f"
  by (induction ds s f rule: parse_statuses.induct) (auto simp: add_parsed_def Let_def)

lemma Parse_include_lost:
  "TransportFeedback_Parse h f = Some (Gives g) \<Longrightarrow> tf_include_lost g = tf_include_lost f"
  by (auto simp: TransportFeedback_Parse_def Let_def TransportFeedback_Clear_def parse_statuses_lost
      split: if_splits outcome.splits prod.splits bind_splits dest!: parse_chunks_lost parse_deltas_lost)

lemma feedback_reaches:
  assumes "feedback_built f" "tf_include_timestamps f" "0 < tf_num_seq_no f" "int32 (tf_pathid f)"
    "TransportFeedback_BlockLength f \<le> mx" "length junk = 14"
    "rc_transport_feedback_observer c" "tf_media_ssrc f \<in> set (rc_registered_ssrcs c)"
  shows "\<exists>wire g st s' t. Build (TransportFeedback_Create f) mx = Some (Gives [wire]) \<and>
    IncomingPacket fb c ck junk wire s = Some s' \<and>
    rv_events s' = rv_events s @ counter_events c t @ [EvTransportFeedback g] \<and>
    rv_second_feedback s' = (if tf_pathid f = 2 then Some g else rv_second_feedback s) \<and>
    represents f st \<and> represents g st \<and> tf_received_packets g = tf_received_packets f \<and>
    tf_sender_ssrc g = tf_sender_ssrc f \<and> tf_media_ssrc g = tf_media_ssrc f \<and>
    tf_pathid g = tf_pathid f \<and> tf_base_seq_no g = tf_base_seq_no f \<and>
    tf_base_time_ticks g = signed_take_bit 23 (tf_base_time_ticks f) \<and>
    tf_feedback_seq g = tf_feedback_seq f \<and> tf_include_lost g"
proof -
  obtain st where st: "represents f st" using feedback_built_represents [OF assms(1)] by blast
  then have "st \<noteq> []" using assms(3) by (auto simp: represents_def)
  note f = st this assms(2)
  obtain wire h where w: "Build (TransportFeedback_Create f) mx = Some (Gives [wire])"
    "CommonHeader_Parse wire = Some (Gives h)" "packet_size h = length wire" "ch_type h = kRtpfb" "ch_count h = 15"
    "ch_pathid h = tf_pathid f" "ch_payload h = concat (feedback_body f)"
    using Build_feedback [OF f assms(4,5)] by blast
  let ?f0 = "TransportFeedback_new junk True True (ch_pathid h)"
  have f0: "length (lc_delta_sizes (tf_last_chunk ?f0)) = 14" "tf_include_timestamps ?f0" "tf_include_lost ?f0"
    using assms(6) by (simp_all add: TransportFeedback_new_def LastChunk_new_def LastChunk_Clear_def)
  obtain g where g: "TransportFeedback_Parse h ?f0 = Some (Gives g)" "represents g st" "tf_sender_ssrc g = tf_sender_ssrc f"
    "tf_media_ssrc g = tf_media_ssrc f" "tf_pathid g = tf_pathid f" "tf_base_seq_no g = tf_base_seq_no f"
    "tf_base_time_ticks g = signed_take_bit 23 (tf_base_time_ticks f)" "tf_feedback_seq g = tf_feedback_seq f"
    using Parse_feedback [OF f f0(1,2) w(7)] w(6) by auto
  have "tf_received_packets g = tf_received_packets f" using st g(2,6) by (simp add: represents_def)
  moreover have "tf_include_lost g" using Parse_include_lost [OF g(1)] f0(3) by simp
  moreover obtain s' t where "IncomingPacket fb c ck junk wire s = Some s'"
    "rv_events s' = rv_events s @ counter_events c t @ [EvTransportFeedback g]"
    "rv_second_feedback s' = (if tf_pathid f = 2 then Some g else rv_second_feedback s)"
    using IncomingPacket_feedback [OF w(2-5) g(1) assms(7)] assms(8) g(4) w(6) by metis
  ultimately show ?thesis using w(1) st g by blast
qed

lemma arrival_list_cong:
  "b mod kTimeWrapPeriodUs = b' mod kTimeWrapPeriodUs \<Longrightarrow> arrival_list b ps = arrival_list b' ps"
proof (induction ps arbitrary: b b')
  case (Cons p ps)
  let ?d = "kDeltaScaleFactor * status_ticks (rcv_delta_ticks p)"
  have "(b + ?d) mod kTimeWrapPeriodUs = (b' + ?d) mod kTimeWrapPeriodUs" using Cons.prems by (rule mod_add_cong) simp
  then show ?case using Cons.IH [of "b + ?d" "b' + ?d"] by (simp add: Let_def)
qed simp

text \<open>The signed base time is the same one modulo its period.\<close>

lemma signed_base:
  assumes "tf_base_time_ticks g = signed_take_bit 23 (tf_base_time_ticks f)"
  shows "GetBaseTimeUs g mod kTimeWrapPeriodUs = GetBaseTimeUs f mod kTimeWrapPeriodUs"
    "2 * \<bar>GetBaseTimeUs g\<bar> \<le> kTimeWrapPeriodUs"
proof -
  let ?x = "tf_base_time_ticks f"
  have w: "kTimeWrapPeriodUs = 16777216 * 64000" "kBaseScaleFactor = 64000"
    by (simp_all add: kTimeWrapPeriodUs_def kBaseScaleFactor_def kDeltaScaleFactor_def)
  have "take_bit 24 (signed_take_bit 23 ?x) = take_bit 24 ?x" by (simp add: take_bit_signed_take_bit)
  then have "signed_take_bit 23 ?x mod 16777216 = ?x mod 16777216" by (simp add: take_bit_eq_mod)
  then show "GetBaseTimeUs g mod kTimeWrapPeriodUs = GetBaseTimeUs f mod kTimeWrapPeriodUs"
    by (simp only: GetBaseTimeUs_def assms w mult_mod_left [symmetric])
  have "- (2 ^ 23) \<le> signed_take_bit 23 ?x" "signed_take_bit 23 ?x < 2 ^ 23"
    by (rule signed_take_bit_int_greater_eq_minus_exp signed_take_bit_int_less_exp)+
  then show "2 * \<bar>GetBaseTimeUs g\<bar> \<le> kTimeWrapPeriodUs" by (simp add: GetBaseTimeUs_def assms w)
qed

lemma reported_delivered:
  assumes "represents f st" "represents g st" "tf_base_seq_no g = tf_base_seq_no f"
    "tf_base_time_ticks g = signed_take_bit 23 (tf_base_time_ticks f)"
  shows "reported g = reported f"
proof -
  have "tf_received_packets g = tf_received_packets f" using assms(1-3) by (simp add: represents_def)
  then show ?thesis unfolding reported_def using arrival_list_cong [OF signed_base(1) [OF assms(4)]] by simp
qed

section \<open>Arrival times\<close>

text \<open>The arrivals are within three days of the base time of the last feedback packet.\<close>

definition near_times :: "int \<Rightarrow> (int \<times> int) list \<Rightarrow> bool" where
  "near_times u xs \<longleftrightarrow> (\<forall>x \<in> set xs. 4 * \<bar>snd x * 1000 - u\<bar> < kTimeWrapPeriodUs - 2 ^ 26)"

lemma base_time_bounds: "base_time t \<le> t * 1000" "t * 1000 < base_time t + 64000" "1000 dvd base_time t"
proof -
  have w: "kBaseScaleFactor = 64000" by (simp add: kBaseScaleFactor_def kDeltaScaleFactor_def)
  have "y div 64000 * 64000 \<le> y" "y < y div 64000 * 64000 + 64000" for y :: int by linarith+
  then show "base_time t \<le> t * 1000" "t * 1000 < base_time t + 64000" by (simp_all add: base_time_def w)
  show "1000 dvd base_time t" unfolding base_time_def w by (intro dvd_mult) simp
qed

lemma near_times_close: "near_times u xs \<Longrightarrow> 4 * \<bar>v - u\<bar> < kTimeWrapPeriodUs - 2 ^ 25 \<Longrightarrow> times_close v xs"
proof (induction xs arbitrary: v)
  case (Cons x xs)
  obtain k t where x: "x = (k, t)" by fastforce
  have t: "4 * \<bar>t * 1000 - u\<bar> < kTimeWrapPeriodUs - 2 ^ 26" "near_times u xs"
    using Cons.prems(1) by (simp_all add: near_times_def x)
  have "2 * \<bar>t * 1000 - v\<bar> < kTimeWrapPeriodUs - 2 ^ 24" using t(1) Cons.prems(2) by (simp add: abs_if split: if_splits)
  moreover have "times_close (t * 1000) xs" using t by (intro Cons.IH) simp_all
  ultimately show ?case by (simp add: x)
qed simp

lemma times_close_prefix: "times_close u (xs @ ys) \<Longrightarrow> times_close u xs"
  by (induction u xs rule: times_close.induct) auto

lemma delivered_brings:
  assumes f: "reported f = map on_wire ((k, t) # ds)" "tf_base_seq_no f = word_of_int w"
      "GetBaseTimeUs f = base_time t mod kTimeWrapPeriodUs"
    and g: "represents f st" "represents g st" "tf_base_seq_no g = tf_base_seq_no f"
      "tf_base_time_ticks g = signed_take_bit 23 (tf_base_time_ticks f)" "tf_include_lost g"
    and x: "near_times u ((k, t) # ds)" "\<forall>x \<in> set ((k, t) # ds). w \<le> fst x \<and> fst x < w + 65536"
  shows "brings g w (base_time t) ((k, t) # ds)" "2 * \<bar>base_time t - u\<bar> < kTimeWrapPeriodUs"
proof -
  have "4 * \<bar>t * 1000 - u\<bar> < kTimeWrapPeriodUs - 2 ^ 26" using x(1) by (simp add: near_times_def)
  then have "4 * \<bar>base_time t - u\<bar> < kTimeWrapPeriodUs - 2 ^ 25"
    using base_time_bounds(1,2) [of t] by (simp add: abs_if split: if_splits)
  then show "2 * \<bar>base_time t - u\<bar> < kTimeWrapPeriodUs" "brings g w (base_time t) ((k, t) # ds)"
    using near_times_close [OF x(1)] signed_base [OF g(4)] base_time_bounds(3) reported_delivered [OF g(1-4)] f g x(2)
    by (auto simp: brings_def simp del: times_close.simps)
qed


text \<open>Packets 7 and 9 of the second path were sent, and arrived 30 ms apart.\<close>

definition example_sent :: "int \<Rightarrow> PacketFeedback" where
  "example_sent k =
     \<lparr>pb_creation_time = 1000000,
      pb_sent = \<lparr>sp_send_time = 1000000 + k, sp_size = 1200, sp_prior_unacked_data = 0,
        sp_pacing_info = \<lparr>ppi_send_bitrate_bps = - 1, ppi_probe_cluster_id = - 1, ppi_probe_cluster_min_probes = - 1,
          ppi_probe_cluster_min_bytes = - 1, ppi_probe_cluster_bytes_sent = 0\<rparr>,
        sp_audio = False, sp_sequence_number = k, sp_mp_sequence_number = k, sp_data_in_flight = 0\<rparr>,
      pb_receive_time = PlusInfinityVal, pb_network_route = NetworkRoute_new\<rparr>"

definition example_adapter :: TransportFeedbackAdapter where
  "example_adapter = TransportFeedbackAdapter_new\<lparr>ta_seq_num_unwrapper := Some 9,
     ta_history := [(7, example_sent 7), (9, example_sent 9)], ta_current_offset := 1500000, ta_last_timestamp := 0\<rparr>"

lemma example_adapter_ok:
  "adapter_ok example_adapter" "tracks example_adapter 1500000 [(7, 150), (9, 180)]" "clock_offset example_adapter 1500000 0"
  by (simp_all add: adapter_ok_def example_adapter_def TransportFeedbackAdapter_new_def sm_ok_def flight_ok_def entry_ok_def
      example_sent_def tracks_def IsFinite_def PlusInfinityVal_def MinusInfinityVal_def clock_offset_def kTimeWrapPeriodUs_def
      kBaseScaleFactor_def kDeltaScaleFactor_def)


end
