(* ===== verification/AdapterRuns.thy ===== *)
theory AdapterRuns
  imports FeedbackTimes "HOL-Library.Sublist" "HOL-Library.Multiset"
begin

text \<open>
  Runs of the feedback adapter and of the demuxer: what the count of the bytes in flight is worth, the
  order of the results, and what the streams are told.
\<close>

section \<open>Comparisons\<close>

text \<open>
  What \<open>std::sort\<close> and \<open>std::map\<close> ask of a comparison: a strict weak order. Insertion with one gives a sorted
  permutation, and the elements neither of which is before the other are the classes of an equivalence.
\<close>

locale strict_weak_order =
  fixes before :: "'a \<Rightarrow> 'a \<Rightarrow> bool"
  assumes irrefl: "\<not> before a a"
    and trans: "before a b \<Longrightarrow> before b c \<Longrightarrow> before a c"
    and not_before_trans: "\<not> before a b \<Longrightarrow> \<not> before b c \<Longrightarrow> \<not> before a c"
begin

primrec ins :: "'a \<Rightarrow> 'a list \<Rightarrow> 'a list" where
  "ins x [] = [x]"
| "ins x (y # ys) = (if before y x then y # ins x ys else x # y # ys)"

definition in_order :: "'a list \<Rightarrow> bool" where
  "in_order xs \<longleftrightarrow> sorted_wrt (\<lambda>a b. \<not> before b a) xs"

lemma mset_ins: "mset (ins x ys) = add_mset x (mset ys)"
  by (induction ys) auto

lemma set_ins: "set (ins x ys) = insert x (set ys)"
  by (induction ys) auto

lemma in_order_ins: "in_order ys \<Longrightarrow> in_order (ins x ys)"
proof (induction ys)
  case (Cons y ys)
  have "before y x \<Longrightarrow> \<not> before x y" using trans irrefl by blast
  moreover have "\<not> before z x" if "\<not> before y x" "z \<in> set ys" for z
    using that Cons.prems not_before_trans by (auto simp: in_order_def)
  ultimately show ?case using Cons by (auto simp: in_order_def set_ins)
qed (simp add: in_order_def)

lemma isort_spec: "in_order (foldr ins xs []) \<and> mset (foldr ins xs []) = mset xs"
  by (induction xs) (auto simp: in_order_ins mset_ins in_order_def [of "[]"])

lemma class_trans: "\<not> before a b \<Longrightarrow> \<not> before b a \<Longrightarrow> \<not> before b c \<Longrightarrow> \<not> before c b \<Longrightarrow> \<not> before a c \<and> \<not> before c a"
  using not_before_trans by blast

end

interpretation results: strict_weak_order ReceiveTimeOrder
  by unfold_locales (auto simp: ReceiveTimeOrder_def split: if_splits)

interpretation routes: strict_weak_order NetworkRouteComparator
proof
  show "\<not> NetworkRouteComparator a a" for a by (simp add: NetworkRouteComparator_def)
  show "NetworkRouteComparator a c" if "NetworkRouteComparator a b" "NetworkRouteComparator b c" for a b c
    using that unfolding NetworkRouteComparator_def by (auto split: if_splits)
  show "\<not> NetworkRouteComparator a c" if "\<not> NetworkRouteComparator a b" "\<not> NetworkRouteComparator b c" for a b c
    using that unfolding NetworkRouteComparator_def by (auto split: if_splits)
qed

lemma insert_result_ins: "insert_result = results.ins"
proof (intro ext)
  show "insert_result r xs = results.ins r xs" for r xs by (induction xs) auto
qed

text \<open>
  The results of a feedback packet that the controllers read in the order of the receive times are the received ones,
  each as often as in the message, ordered by receive time, then by send time and number.
\<close>

lemma results_sorted:
  "sorted_wrt (\<lambda>a b. \<not> ReceiveTimeOrder b a) (SortedByReceiveTime fb) \<and>
   mset (SortedByReceiveTime fb) = mset (ReceivedWithSendInfo fb)"
  using results.isort_spec [of "ReceivedWithSendInfo fb"]
  by (simp add: SortedByReceiveTime_def insert_result_ins results.in_order_def)

text \<open>The map of the bytes in flight has one entry for each class of equal routes.\<close>

lemma same_route_trans: "same_route a b \<Longrightarrow> same_route b c \<Longrightarrow> same_route a c"
  using routes.class_trans [of a b c] by (simp add: same_route_def)

section \<open>Runs of the adapter\<close>

datatype adapter_event =
  PacketAdded RtpPacketSendInfo nat int | PacketSent RtcSentPacket | FeedbackAt TransportFeedback int | RouteSet NetworkRoute

definition adapter_step :: "adapter_event \<Rightarrow> TransportFeedbackAdapter \<Rightarrow> TransportFeedbackAdapter option" where
  "adapter_step e a =
     (case e of
        PacketAdded info overhead now \<Rightarrow> AddPacket info overhead now a
      | PacketSent s \<Rightarrow> map_option snd (ProcessSentPacket s a)
      | FeedbackAt f now \<Rightarrow> map_option snd (ProcessTransportFeedback f now a)
      | RouteSet r \<Rightarrow> Some (SetNetworkRoute r a))"

fun adapter_run :: "adapter_event list \<Rightarrow> TransportFeedbackAdapter \<Rightarrow> TransportFeedbackAdapter option" where
  "adapter_run [] a = Some a"
| "adapter_run (e # es) a = Option.bind (adapter_step e a) (adapter_run es)"

definition sent_size :: "NetworkRoute \<Rightarrow> PacketFeedback \<Rightarrow> int" where
  "sent_size r p = (if IsFinite (sp_send_time (pb_sent p)) \<and> same_route r (pb_network_route p) then sp_size (pb_sent p) else 0)"

text \<open>The bytes of the packets that were sent on a route and have a number above the last acknowledged one.\<close>

definition unacked :: "int \<Rightarrow> NetworkRoute \<Rightarrow> (int, PacketFeedback) smap \<Rightarrow> int" where
  "unacked ack r h = (\<Sum>(k, p)\<leftarrow>h. if ack < k then sent_size r p else 0)"

definition total_size :: "(int, PacketFeedback) smap \<Rightarrow> int" where
  "total_size h = (\<Sum>(k, p)\<leftarrow>h. sp_size (pb_sent p))"

lemma unacked_Cons [simp]:
  "unacked ack r [] = 0" "unacked ack r ((k, p) # h) = (if ack < k then sent_size r p else 0) + unacked ack r h"
  by (simp_all add: unacked_def)

lemma total_size_Cons [simp]: "total_size [] = 0" "total_size ((k, p) # h) = sp_size (pb_sent p) + total_size h"
  by (simp_all add: total_size_def)

lemma sent_size_range: "0 \<le> sp_size (pb_sent p) \<Longrightarrow> 0 \<le> sent_size r p \<and> sent_size r p \<le> sp_size (pb_sent p)"
  by (simp add: sent_size_def)

definition entries_ok :: "(int, PacketFeedback) smap \<Rightarrow> bool" where
  "entries_ok h \<longleftrightarrow> sm_ok h \<and> (\<forall>(k, p) \<in> set h. entry_ok k p \<and> sp_sequence_number (pb_sent p) = k)"

lemma entries_ok_Cons:
  assumes "entries_ok ((k, p) # h)"
  shows "entries_ok h" "0 \<le> sp_size (pb_sent p)" "sp_sequence_number (pb_sent p) = k" "k \<notin> fst ` set h"
  using assms by (auto simp: entries_ok_def sm_ok_def entry_ok_def)

lemma unacked_range: "entries_ok h \<Longrightarrow> 0 \<le> unacked ack r h \<and> unacked ack r h \<le> total_size h"
proof (induction h)
  case (Cons x h)
  obtain k p where x: "x = (k, p)" by fastforce
  show ?case
    using Cons.IH entries_ok_Cons(1,2) [OF Cons.prems [unfolded x]] sent_size_range [of p r] by (auto simp: x)
qed simp

text \<open>The count is exact when it is the number of bytes that are not acknowledged, on every route.\<close>

definition count_exact :: "int \<Rightarrow> (int, PacketFeedback) smap \<Rightarrow> in_flight \<Rightarrow> bool" where
  "count_exact ack h m \<longleftrightarrow> flight_ok m \<and> (\<forall>r. outstanding m r = unacked ack r h)"

lemma Remove_exact:
  assumes "flight_ok m" "0 \<le> sp_size (pb_sent p)" "\<forall>r. outstanding m r = sent_size r p + rest r" "\<forall>r. 0 \<le> rest r"
    "\<forall>r. outstanding m r < PlusInfinityVal"
  shows "\<exists>m'. RemoveInFlightPacketBytes p m = Some m' \<and> flight_ok m' \<and> (\<forall>r. outstanding m' r = rest r)"
  using RemoveInFlight_spec [OF assms(1,2)] assms(3-5) by (fastforce simp: sent_size_def)

lemma drop_old_exact:
  assumes "entries_ok h" "count_exact ack h m" "total_size h < 2 ^ 62" "drop_old now ack h m = Some (h', m')"
  shows "entries_ok h' \<and> count_exact ack h' m' \<and> total_size h' \<le> total_size h \<and> suffix h' h"
  using assms
proof (induction now ack h m rule: drop_old.induct)
  case (2 now ack k p h m)
  note h = entries_ok_Cons [OF "2.prems"(1)]
  obtain age where age: "unit_minus now (pb_creation_time p) = Some age"
    using "2.prems"(4) by (auto simp: bind_eq_Some_conv)
  show ?case
  proof (cases "age > kSendTimeHistoryWindow")
    case False
    then have "h' = (k, p) # h" "m' = m" using "2.prems"(4) age by simp_all
    then show ?thesis using "2.prems"(1,2) by simp
  next
    case True
    have ex: "flight_ok m" "\<forall>r. outstanding m r = (if ack < k then sent_size r p else 0) + unacked ack r h"
      using "2.prems"(2) by (simp_all add: count_exact_def)
    have b: "\<forall>r. outstanding m r < PlusInfinityVal"
    proof
      fix r
      have "outstanding m r \<le> total_size ((k, p) # h)"
        using unacked_range [OF "2.prems"(1), of ack r] ex(2) by simp
      then show "outstanding m r < PlusInfinityVal" using "2.prems"(3) by (simp add: PlusInfinityVal_def)
    qed
    have "\<exists>n. (if ack < k then RemoveInFlightPacketBytes p m else Some m) = Some n \<and> count_exact ack h n"
    proof (cases "ack < k")
      case True
      then show ?thesis
        using Remove_exact [OF ex(1) h(2), of "\<lambda>r. unacked ack r h"] ex b unacked_range [OF h(1)]
        by (auto simp: count_exact_def)
    next
      case False
      then show ?thesis using ex by (simp add: count_exact_def)
    qed
    then obtain n where n: "(if ack < k then RemoveInFlightPacketBytes p m else Some m) = Some n" "count_exact ack h n" by blast
    have "drop_old now ack h n = Some (h', m')" using "2.prems"(4) age True n(1) h(3) by simp
    moreover have "total_size h < 2 ^ 62" using "2.prems"(3) h(2) by simp
    ultimately have "entries_ok h' \<and> count_exact ack h' m' \<and> total_size h' \<le> total_size h \<and> suffix h' h"
      using "2.IH" [OF age True] n h(1,3) by auto
    then show ?thesis using h(2) by (auto intro: suffix_ConsI)
  qed
qed (auto simp: count_exact_def)

text \<open>Sums over a map after an update.\<close>

lemma sum_sm_put_new:
  fixes f :: "int \<times> PacketFeedback \<Rightarrow> int"
  shows "k \<notin> fst ` set h \<Longrightarrow> sum_list (map f (sm_put k p h)) = f (k, p) + sum_list (map f h)"
  by (induction k p h rule: sm_put.induct) auto

lemma sum_sm_put_old:
  fixes f :: "int \<times> PacketFeedback \<Rightarrow> int"
  assumes "sm_ok h" "map_of h k = Some q"
  shows "sum_list (map f (sm_put k p h)) = f (k, p) - f (k, q) + sum_list (map f h)"
  using assms
proof (induction h)
  case (Cons x h)
  obtain j v where x: "x = (j, v)" by fastforce
  have ok: "sm_ok h" "\<forall>y \<in> fst ` set h. j < y" using Cons.prems(1) by (auto simp: sm_ok_def x)
  show ?case
  proof (cases "j = k")
    case True
    then show ?thesis using Cons.prems(2) by (simp add: x)
  next
    case False
    then have "map_of h k = Some q" using Cons.prems(2) by (simp add: x)
    moreover from this have "j < k" using ok(2) by (metis imageI fst_conv map_of_SomeD)
    ultimately show ?thesis using Cons.IH [OF ok(1)] False by (simp add: x)
  qed
qed simp

lemma entries_ok_put:
  assumes "entries_ok h" "entry_ok k p" "sp_sequence_number (pb_sent p) = k"
  shows "entries_ok (sm_put k p h)"
proof -
  have "set (sm_put k p h) \<subseteq> insert (k, p) (set h)" by (induction k p h rule: sm_put.induct) auto
  then show ?thesis using assms sm_ok_put [of h k p] by (fastforce simp: entries_ok_def)
qed

lemma map_of_entries: "entries_ok h \<Longrightarrow> map_of h k = Some p \<Longrightarrow> entry_ok k p \<and> sp_sequence_number (pb_sent p) = k"
  by (auto simp: entries_ok_def dest: map_of_SomeD)

lemma AddInFlight_exact:
  assumes "flight_ok m" "0 \<le> sp_size (pb_sent p)" "outstanding m (pb_network_route p) + sp_size (pb_sent p) < 2 ^ 62"
  shows "\<exists>m'. AddInFlightPacketBytes p m = Some m' \<and> flight_ok m' \<and>
    (\<forall>r. outstanding m' r = outstanding m r + (if same_route r (pb_network_route p) then sp_size (pb_sent p) else 0))"
proof -
  let ?r = "pb_network_route p" and ?n = "sp_size (pb_sent p)"
  show ?thesis
  proof (cases "in_flight_find ?r m")
    case None
    then have "outstanding m r = 0" if "same_route r ?r" for r
      using in_flight_find_route [OF that, of m] by (simp add: InFlight_GetOutstandingData_def)
    moreover have "0 \<le> ?n \<and> ?n < 2 ^ 63" using assms(2,3) outstanding_range [OF assms(1), of ?r] by simp
    ultimately show ?thesis
      using None assms(1)
      by (auto simp: AddInFlightPacketBytes_def flight_ok_def InFlight_GetOutstandingData_def same_route_key)
  next
    case (Some v)
    have v: "0 \<le> v" "outstanding m ?r = v"
      using in_flight_find_range [OF assms(1) Some] Some by (simp_all add: InFlight_GetOutstandingData_def)
    have "unit_plus v ?n = Some (v + ?n)" using v assms(2,3) by (intro unit_plus_small) simp_all
    then have "AddInFlightPacketBytes p m = Some (in_flight_set ?r (v + ?n) m)"
      using Some by (simp add: AddInFlightPacketBytes_def)
    moreover have "flight_ok (in_flight_set ?r (v + ?n) m)" using assms v by (intro flight_ok_set) simp_all
    moreover have "outstanding (in_flight_set ?r (v + ?n) m) r = outstanding m r + (if same_route r ?r then ?n else 0)" for r
      using Some in_flight_find_route [of r ?r m]
      by (auto simp: InFlight_GetOutstandingData_def in_flight_find_set split: option.split)
    ultimately show ?thesis by blast
  qed
qed

text \<open>The invariant: \<open>n\<close> bounds the bytes of the packets that were added.\<close>

definition exact :: "int \<Rightarrow> TransportFeedbackAdapter \<Rightarrow> bool" where
  "exact n a \<longleftrightarrow> entries_ok (ta_history a) \<and> count_exact (ta_last_ack_seq_num a) (ta_history a) (ta_in_flight a) \<and>
     total_size (ta_history a) \<le> n"

lemma AddPacket_exact:
  assumes "exact n a" "n < 2 ^ 62" "si_transport_sequence_number info = si_mp_transport_sequence_number info"
    "AddPacket info overhead now a = Some a'"
  shows "exact (n + int (si_length info + overhead)) a'"
proof -
  obtain x u where x: "Unwrap16 (si_mp_transport_sequence_number info) (ta_seq_num_unwrapper a) = (x, u)" by fastforce
  obtain y v where y: "Unwrap16 (si_mp_transport_sequence_number info) u = (y, v)" by fastforce
  obtain z w where z: "Unwrap16 (si_mp_transport_sequence_number info) v = (z, w)" by fastforce
  have same: "UnwrapWithoutUpdate16 q (Some j) = j" if "word_of_int j = q" for q j
    using that by (auto simp: UnwrapWithoutUpdate16_def Let_def)
  have word: "(word_of_int (UnwrapWithoutUpdate16 q l) :: u16) = q" for q l
    by (auto simp: UnwrapWithoutUpdate16_def Let_def split: option.split)
  have "v = Some y" "word_of_int y = si_mp_transport_sequence_number info"
    using y word [of "si_mp_transport_sequence_number info" u] by (auto simp: Unwrap16_def Let_def)
  then have "z = y" using z same [of y] by (simp add: Unwrap16_def Let_def)
  let ?p = "\<lparr>pb_creation_time = now,
     pb_sent = \<lparr>sp_send_time = PlusInfinityVal, sp_size = int (si_length info + overhead), sp_prior_unacked_data = 0,
       sp_pacing_info = si_pacing_info info, sp_audio = (si_packet_type info = Some kAudio), sp_sequence_number = y,
       sp_mp_sequence_number = z, sp_data_in_flight = 0\<rparr>,
     pb_receive_time = PlusInfinityVal, pb_network_route = ta_network_route a\<rparr>"
  define p where "p = ?p"
  obtain h m where h: "drop_old now (ta_last_ack_seq_num a) (ta_history a) (ta_in_flight a) = Some (h, m)"
      "a' = a\<lparr>ta_seq_num_unwrapper := w, ta_history := sm_insert z p h, ta_in_flight := m\<rparr>"
    using assms(4) x y z by (auto simp: AddPacket_def assms(3) Let_def bind_eq_Some_conv p_def)
  have a: "entries_ok (ta_history a)" "count_exact (ta_last_ack_seq_num a) (ta_history a) (ta_in_flight a)"
      "total_size (ta_history a) < 2 ^ 62" "total_size (ta_history a) \<le> n"
    using assms(1,2) by (simp_all add: exact_def)
  note d = drop_old_exact [OF a(1-3) h(1)]
  have p: "entry_ok z p" "sp_sequence_number (pb_sent p) = z" "\<And>r. sent_size r p = 0"
      "sp_size (pb_sent p) = int (si_length info + overhead)"
    using \<open>z = y\<close> by (simp_all add: p_def entry_ok_def sent_size_def IsFinite_def)
  show ?thesis
  proof (cases "map_of h z")
    case None
    then have z: "z \<notin> fst ` set h" by (simp add: map_of_eq_None_iff)
    have "unacked k r (sm_put z p h) = unacked k r h" for k r
      unfolding unacked_def by (subst sum_sm_put_new [OF z]) (simp add: p(3))
    moreover have "total_size (sm_put z p h) = int (si_length info + overhead) + total_size h"
      unfolding total_size_def by (subst sum_sm_put_new [OF z]) (simp add: p(4))
    ultimately show ?thesis
      using None d a(4) entries_ok_put [OF _ p(1,2)] by (simp add: h(2) exact_def sm_insert_def count_exact_def)
  next
    case (Some q)
    then show ?thesis using d a(4) by (simp add: h(2) exact_def sm_insert_def)
  qed
qed

lemma tracked_sent_exact:
  assumes "exact n a" "n < 2 ^ 62" "IsFinite send_time" "tracked_sent k send_time a = Some (res, a')"
  shows "exact n a'"
proof (cases "map_of (ta_history a) k")
  case None
  then show ?thesis using assms(1,4) by (simp add: tracked_sent_def)
next
  case (Some p)
  let ?h = "ta_history a" and ?ack = "ta_last_ack_seq_num a"
  have a: "entries_ok ?h" "count_exact ?ack ?h (ta_in_flight a)" "total_size ?h \<le> n" using assms(1) by (simp_all add: exact_def)
  have p: "entry_ok k p" "sp_sequence_number (pb_sent p) = k" using map_of_entries [OF a(1) Some] by simp_all
  have ok: "sm_ok ?h" using a(1) by (simp add: entries_ok_def)
  obtain q m where q: "ta_history a' = sm_put k q ?h" "ta_in_flight a' = m" "ta_last_ack_seq_num a' = ?ack"
      "sp_size (pb_sent q) = sp_size (pb_sent p)" "sp_send_time (pb_sent q) = send_time" "pb_network_route q = pb_network_route p"
      "entry_ok k q" "sp_sequence_number (pb_sent q) = k"
      "if IsFinite (sp_send_time (pb_sent p)) \<or> k \<le> ?ack then m = ta_in_flight a
       else \<exists>q'. AddInFlightPacketBytes q' (ta_in_flight a) = Some m \<and> pb_network_route q' = pb_network_route p \<and>
              sp_size (pb_sent q') = sp_size (pb_sent p)"
    using assms(4) Some p
    by (cases "IsFinite (sp_send_time (pb_sent p))"; cases "k \<le> ?ack"; cases "ta_pending_untracked_size a = 0")
      (fastforce simp: tracked_sent_def Let_def bind_eq_Some_conv entry_ok_def)+
  have total: "total_size (sm_put k q ?h) = total_size ?h"
    unfolding total_size_def by (subst sum_sm_put_old [OF ok Some]) (simp add: q(4))
  have un: "unacked ?ack r (sm_put k q ?h) = unacked ?ack r ?h +
      (if \<not> IsFinite (sp_send_time (pb_sent p)) \<and> ?ack < k \<and> same_route r (pb_network_route p) then sp_size (pb_sent p) else 0)" for r
    unfolding unacked_def by (subst sum_sm_put_old [OF ok Some]) (auto simp: sent_size_def q(4-6) assms(3))
  have "entries_ok (sm_put k q ?h)" by (rule entries_ok_put [OF a(1) q(7,8)])
  moreover have "count_exact ?ack (sm_put k q ?h) m"
  proof (cases "IsFinite (sp_send_time (pb_sent p)) \<or> k \<le> ?ack")
    case True
    then show ?thesis using q(9) a(2) by (auto simp: count_exact_def un)
  next
    case False
    then obtain q' where q': "AddInFlightPacketBytes q' (ta_in_flight a) = Some m" "pb_network_route q' = pb_network_route p"
        "sp_size (pb_sent q') = sp_size (pb_sent p)" using q(9) by auto
    have "0 \<le> sp_size (pb_sent p)" using p(1) by (simp add: entry_ok_def)
    moreover have "unacked ?ack (pb_network_route p) ?h + sp_size (pb_sent p) \<le> total_size (sm_put k q ?h)"
      using unacked_range [OF \<open>entries_ok (sm_put k q ?h)\<close>, of ?ack "pb_network_route p"] False by (simp add: un)
    ultimately show ?thesis
      using AddInFlight_exact [of "ta_in_flight a" q'] q' a False assms(2) by (auto simp: count_exact_def un total)
  qed
  ultimately show ?thesis using q(1-3) a(3) total by (simp add: exact_def)
qed

lemma Millis_finite: "Millis t = Some u \<Longrightarrow> IsFinite u"
proof -
  assume "Millis t = Some u"
  then have "u = t * 1000" by (auto simp: Millis_def int64_def split: if_splits)
  then have "u mod 1000 = 0" by simp
  moreover have "PlusInfinityVal mod 1000 = 807" "MinusInfinityVal mod 1000 = 192"
    by (simp_all add: PlusInfinityVal_def MinusInfinityVal_def)
  ultimately show ?thesis by (auto simp: IsFinite_def)
qed

lemma exact_cong: "ta_history b = ta_history a \<Longrightarrow> ta_in_flight b = ta_in_flight a \<Longrightarrow>
    ta_last_ack_seq_num b = ta_last_ack_seq_num a \<Longrightarrow> exact n b = exact n a"
  by (simp add: exact_def)

lemma ProcessSentPacket_exact:
  assumes "exact n a" "n < 2 ^ 62" "ProcessSentPacket s a = Some (res, a')"
  shows "exact n a'"
proof -
  obtain t where t: "Millis (sk_send_time_ms s) = Some t" using assms(3) by (auto simp: ProcessSentPacket_def bind_eq_Some_conv)
  have ex: "exact n (a\<lparr>ta_seq_num_unwrapper := u\<rparr>)" for u using assms(1) exact_cong [of "a\<lparr>ta_seq_num_unwrapper := u\<rparr>" a] by simp
  show ?thesis
  proof (cases "sk_included_in_feedback s \<or> sk_packet_mpid s \<noteq> - 1")
    case True
    then show ?thesis
      using assms(3) t tracked_sent_exact [OF ex assms(2) Millis_finite [OF t]]
      by (auto simp: ProcessSentPacket_def split: prod.splits)
  next
    case False
    then have "ta_history a' = ta_history a \<and> ta_in_flight a' = ta_in_flight a \<and> ta_last_ack_seq_num a' = ta_last_ack_seq_num a"
      using assms(3) t by (auto simp: ProcessSentPacket_def bind_eq_Some_conv split: if_splits)
    then show ?thesis using assms(1) exact_cong [of a' a] by blast
  qed
qed

section \<open>Acknowledged packets leave the count\<close>

lemma remove_all_exact:
  assumes "flight_ok m" "\<forall>p \<in> set ps. 0 \<le> sp_size (pb_sent p)" "\<forall>r. 0 \<le> rest r"
    "\<forall>r. outstanding m r = (\<Sum>p\<leftarrow>ps. sent_size r p) + rest r" "\<forall>r. outstanding m r < PlusInfinityVal"
  shows "\<exists>m'. remove_all ps m = Some m' \<and> flight_ok m' \<and> (\<forall>r. outstanding m' r = rest r)"
  using assms
proof (induction ps arbitrary: m)
  case (Cons p ps)
  let ?rest = "\<lambda>r. (\<Sum>p\<leftarrow>ps. sent_size r p) + rest r"
  have nn: "0 \<le> ?rest r" for r
    using Cons.prems(2,3) sent_size_range by (intro add_nonneg_nonneg sum_list_nonneg) auto
  obtain m' where m': "RemoveInFlightPacketBytes p m = Some m'" "flight_ok m'" "\<forall>r. outstanding m' r = ?rest r"
    using Remove_exact [of m p ?rest] Cons.prems nn by (auto simp: add.assoc)
  have "outstanding m' r < PlusInfinityVal" for r
  proof -
    have "outstanding m' r \<le> outstanding m r" using m'(3) Cons.prems(2,4) sent_size_range [of p r] by simp
    then show ?thesis using Cons.prems(5) by (metis le_less_trans)
  qed
  then show ?case using Cons.IH [OF m'(2)] Cons.prems(2,3) m'(1,3) by auto
qed simp

lemma unacked_split:
  "ack \<le> k \<Longrightarrow> unacked ack r h =
     (\<Sum>p\<leftarrow>map snd (filter (\<lambda>x. ack < fst x \<and> fst x \<le> k) h). sent_size r p) + unacked k r h"
  by (induction h) auto

lemma acknowledge_exact:
  assumes "exact n a" "n < 2 ^ 62" "acknowledge k a = Some b"
  shows "exact n b \<and> ta_history b = ta_history a \<and> k \<le> ta_last_ack_seq_num b"
proof (cases "k > ta_last_ack_seq_num a")
  case True
  let ?h = "ta_history a" and ?ack = "ta_last_ack_seq_num a"
  let ?ps = "map snd (filter (\<lambda>x. ?ack < fst x \<and> fst x \<le> k) ?h)"
  have a: "entries_ok ?h" "flight_ok (ta_in_flight a)" "\<forall>r. outstanding (ta_in_flight a) r = unacked ?ack r ?h" "total_size ?h \<le> n"
    using assms(1) by (simp_all add: exact_def count_exact_def)
  have "outstanding (ta_in_flight a) r < PlusInfinityVal" for r
    using unacked_range [OF a(1), of ?ack r] a(3,4) assms(2) by (simp add: PlusInfinityVal_def)
  moreover have "\<forall>p \<in> set ?ps. 0 \<le> sp_size (pb_sent p)" using a(1) by (auto simp: entries_ok_def entry_ok_def)
  ultimately obtain m where "remove_all ?ps (ta_in_flight a) = Some m" "flight_ok m" "\<forall>r. outstanding m r = unacked k r ?h"
    using remove_all_exact [OF a(2), of ?ps "\<lambda>r. unacked k r ?h"] unacked_split [of ?ack k _ ?h] a(3) True unacked_range [OF a(1)]
    by auto
  then show ?thesis using True assms(3) a(1,4) by (auto simp: acknowledge_def exact_def count_exact_def)
next
  case False
  then show ?thesis using assms by (simp add: acknowledge_def)
qed

lemma erase_exact:
  assumes "exact n a" "k \<le> ta_last_ack_seq_num a"
  shows "exact n (a\<lparr>ta_history := sm_erase k (ta_history a)\<rparr>)"
proof -
  have "entries_ok h \<Longrightarrow> entries_ok (sm_erase k h) \<and> total_size (sm_erase k h) \<le> total_size h \<and>
      (\<forall>r. unacked (ta_last_ack_seq_num a) r (sm_erase k h) = unacked (ta_last_ack_seq_num a) r h)" for h
  proof (induction h)
    case (Cons x h)
    obtain j p where x: "x = (j, p)" by fastforce
    note h = entries_ok_Cons [OF Cons.prems [unfolded x]]
    have "entries_ok (sm_erase k (x # h))"
      using Cons.prems sm.ok_erase [of "x # h" k] by (auto simp: entries_ok_def sm_erase_def)
    then show ?case using Cons.IH [OF h(1)] h(2) assms(2) by (auto simp: x sm_erase_def)
  qed (simp add: sm_erase_def)
  then show ?thesis using assms(1) by (fastforce simp: exact_def count_exact_def)
qed

lemma feedback_results_exact:
  "exact n a \<Longrightarrow> n < 2 ^ 62 \<Longrightarrow> feedback_results ps t a = Some (rs, a') \<Longrightarrow> exact n a'"
proof (induction ps arbitrary: t a rs)
  case (Cons p ps)
  obtain k u where u: "Unwrap16 (rcv_sequence_number p) (ta_seq_num_unwrapper a) = (k, u)" by fastforce
  have "exact n (a\<lparr>ta_seq_num_unwrapper := u\<rparr>)" using Cons.prems(1) exact_cong [of "a\<lparr>ta_seq_num_unwrapper := u\<rparr>" a] by simp
  moreover obtain b where b: "acknowledge k (a\<lparr>ta_seq_num_unwrapper := u\<rparr>) = Some b"
    using Cons.prems(3) u by (auto simp: bind_eq_Some_conv)
  ultimately have ex: "exact n b" "k \<le> ta_last_ack_seq_num b" using acknowledge_exact Cons.prems(2) by blast+
  note er = erase_exact [OF ex]
  show ?case
    using Cons.prems(3) u b Cons.IH [OF ex(1) Cons.prems(2)] Cons.IH [OF er Cons.prems(2)]
    by (auto simp: bind_eq_Some_conv split: option.splits if_splits)
qed simp

lemma Feedback_exact:
  assumes "exact n a" "n < 2 ^ 62" "ProcessTransportFeedback f now a = Some (res, a')"
  shows "exact n a'"
proof (cases "tf_num_seq_no f = 0")
  case False
  obtain rs where "ProcessTransportFeedbackInner f now a = Some (rs, a')"
    using assms(3) False by (auto simp: ProcessTransportFeedback_def Let_def bind_eq_Some_conv split: if_splits)
  then obtain b where b: "move_offset f now a = Some b" "feedback_results (tf_all_packets f) 0 b = Some (rs, a')"
    by (auto simp: ProcessTransportFeedbackInner_def bind_eq_Some_conv)
  have "exact n b" using b(1) assms(1) by (auto simp: move_offset_def bind_eq_Some_conv exact_def)
  then show ?thesis using feedback_results_exact [OF _ assms(2) b(2)] by blast
qed (use assms in \<open>simp add: ProcessTransportFeedback_def\<close>)

section \<open>The count of the bytes in flight\<close>

text \<open>What a run adds: both numbers of a packet, and its bytes.\<close>

fun same_numbers :: "adapter_event \<Rightarrow> bool" where
  "same_numbers (PacketAdded info overhead now) \<longleftrightarrow> si_transport_sequence_number info = si_mp_transport_sequence_number info"
| "same_numbers _ = True"

fun added_bytes :: "adapter_event list \<Rightarrow> int" where
  "added_bytes [] = 0"
| "added_bytes (PacketAdded info overhead now # es) = int (si_length info + overhead) + added_bytes es"
| "added_bytes (_ # es) = added_bytes es"

lemma added_bytes_nonneg: "0 \<le> added_bytes es"
  by (induction es rule: added_bytes.induct) auto

lemma adapter_run_exact:
  "exact n a \<Longrightarrow> list_all same_numbers es \<Longrightarrow> n + added_bytes es < 2 ^ 62 \<Longrightarrow> adapter_run es a = Some a' \<Longrightarrow>
   exact (n + added_bytes es) a'"
proof (induction es arbitrary: n a)
  case (Cons e es)
  obtain b where b: "adapter_step e a = Some b" "adapter_run es b = Some a'"
    using Cons.prems(4) by (auto simp: bind_eq_Some_conv)
  have es: "list_all same_numbers es" "same_numbers e" using Cons.prems(2) by simp_all
  show ?case
  proof (cases e)
    case (PacketAdded info overhead now)
    have "exact (n + int (si_length info + overhead)) b"
      using AddPacket_exact [OF Cons.prems(1), of info overhead now b] b(1) es(2) Cons.prems(3) added_bytes_nonneg [of es]
      by (simp add: PacketAdded adapter_step_def)
    from Cons.IH [OF this es(1) _ b(2)] Cons.prems(3) show ?thesis by (simp add: PacketAdded add.assoc)
  next
    case (PacketSent s)
    have "exact n b"
      using ProcessSentPacket_exact [OF Cons.prems(1), of s _ b] b(1) Cons.prems(3) added_bytes_nonneg [of es]
      by (auto simp: PacketSent adapter_step_def)
    then show ?thesis using Cons.IH [OF _ es(1) _ b(2)] Cons.prems(3) by (simp add: PacketSent)
  next
    case (FeedbackAt f now)
    have "exact n b"
      using Feedback_exact [OF Cons.prems(1), of f now _ b] b(1) Cons.prems(3) added_bytes_nonneg [of es]
      by (auto simp: FeedbackAt adapter_step_def)
    then show ?thesis using Cons.IH [OF _ es(1) _ b(2)] Cons.prems(3) by (simp add: FeedbackAt)
  next
    case (RouteSet r)
    then have "exact n b" using Cons.prems(1) b(1) exact_cong [of b a] by (auto simp: adapter_step_def SetNetworkRoute_def)
    then show ?thesis using Cons.IH [OF _ es(1) _ b(2)] Cons.prems(3) by (simp add: RouteSet)
  qed
qed simp

text \<open>
  C11: on every run of the adapter in which the transport-wide number of each packet is also its number on
  the path, as with one path, the bytes in flight on every route are exactly the sizes of the packets
  of the route that were sent, are still in the history and have a number above the last acknowledged one.
\<close>

theorem in_flight_exact:
  assumes "adapter_run es TransportFeedbackAdapter_new = Some a" "list_all same_numbers es" "added_bytes es < 2 ^ 62"
  shows "InFlight_GetOutstandingData r (ta_in_flight a) = unacked (ta_last_ack_seq_num a) r (ta_history a)"
proof -
  have "exact 0 TransportFeedbackAdapter_new"
    by (simp add: exact_def TransportFeedbackAdapter_new_def entries_ok_def sm_ok_def count_exact_def flight_ok_def
        InFlight_GetOutstandingData_def)
  from adapter_run_exact [OF this assms(2) _ assms(1)] assms(3) show ?thesis by (simp add: exact_def count_exact_def)
qed

text \<open>A packet of 1000 bytes, by its two numbers.\<close>

definition example_info :: "u16 \<Rightarrow> u16 \<Rightarrow> RtpPacketSendInfo" where
  "example_info n k = \<lparr>si_transport_sequence_number = n, si_ssrc = 5, si_rtp_sequence_number = n,
     si_mp_transport_sequence_number = k, si_mp_rtp_sequence_number = k, si_pathid = 2, si_length = 1000,
     si_packet_type = Some kVideo, si_pacing_info = \<lparr>ppi_send_bitrate_bps = - 1, ppi_probe_cluster_id = - 1,
       ppi_probe_cluster_min_probes = - 1, ppi_probe_cluster_min_bytes = - 1, ppi_probe_cluster_bytes_sent = 0\<rparr>\<rparr>"

definition example_sending :: "int \<Rightarrow> int \<Rightarrow> RtcSentPacket" where
  "example_sending k ms = \<lparr>sk_packet_mpid = k, sk_send_time_ms = ms, sk_pathid = 2, sk_included_in_feedback = True,
     sk_included_in_allocation = True, sk_packet_size_bytes = 1000\<rparr>"

text \<open>Number 0 is lost and number 1 arrives.\<close>

definition example_loss :: TransportFeedback where
  "example_loss = (TransportFeedback_new (replicate 14 0) True True 2)\<lparr>tf_num_seq_no := 2,
     tf_received_packets := [\<lparr>rcv_sequence_number = 1, rcv_delta_ticks = Some 0\<rparr>],
     tf_all_packets := [\<lparr>rcv_sequence_number = 0, rcv_delta_ticks = None\<rparr>, \<lparr>rcv_sequence_number = 1, rcv_delta_ticks = Some 0\<rparr>]\<rparr>"

definition lossy_run :: "u16 \<Rightarrow> adapter_event list" where
  "lossy_run n =
     [PacketAdded (example_info n 0) 0 1000000, PacketSent (example_sending 0 1000),
      PacketAdded (example_info (n + 1) 1) 0 1000000, PacketSent (example_sending 1 1000),
      FeedbackAt example_loss 1100000,
      PacketAdded (example_info (n + 2) 2) 0 241000000, PacketSent (example_sending 2 241000),
      PacketAdded (example_info (n + 3) 3) 0 241000001]"

theorem in_flight_exact_witness:
  "\<exists>a. adapter_run (lossy_run 0) TransportFeedbackAdapter_new = Some a \<and>
     InFlight_GetOutstandingData NetworkRoute_new (ta_in_flight a) =
       unacked (ta_last_ack_seq_num a) NetworkRoute_new (ta_history a)"
proof -
  have "adapter_run (lossy_run 0) TransportFeedbackAdapter_new \<noteq> None" by code_simp
  then obtain a where a: "adapter_run (lossy_run 0) TransportFeedbackAdapter_new = Some a" by blast
  from in_flight_exact [OF a, of NetworkRoute_new] a show ?thesis by (simp add: lossy_run_def example_info_def)
qed


section \<open>The demuxer\<close>

text \<open>Both histories stay within their bound.\<close>

definition demuxer_ok :: "TransportFeedbackDemuxer \<Rightarrow> bool" where
  "demuxer_ok d \<longleftrightarrow> sm_ok (dx_history d) \<and> sm_ok (dx_history_s d) \<and>
     length (dx_history d) \<le> kMaxPacketsInHistory \<and> length (dx_history_s d) \<le> kMaxPacketsInHistory"

lemma sm_ok_insert: "sm_ok m \<Longrightarrow> sm_ok (sm_insert k v m)"
  by (simp add: sm_insert_def sm_ok_put)

lemma keep_newest_ok: "sm_ok m \<Longrightarrow> sm_ok (keep_newest m) \<and> length (keep_newest m) \<le> kMaxPacketsInHistory"
  by (simp add: keep_newest_def sm_ok_def sorted_wrt_drop drop_map [symmetric])

lemma Demuxer_AddPacket_ok: "demuxer_ok d \<Longrightarrow> demuxer_ok (Demuxer_AddPacket info d)"
  by (auto simp: demuxer_ok_def Demuxer_AddPacket_def Let_def keep_newest_ok sm_ok_insert split: prod.split)

lemma stream_feedbacks_ok:
  "sm_ok h \<Longrightarrow> stream_feedbacks u pathid ps h = (infos, h') \<Longrightarrow> sm_ok h' \<and> length h' \<le> length h"
proof (induction ps arbitrary: h infos)
  case (Cons p ps)
  let ?k = "UnwrapWithoutUpdate16 (rcv_sequence_number p) u"
  have e: "sm_ok (sm_erase ?k h)" "length (sm_erase ?k h) \<le> length h"
    using sm.ok_erase Cons.prems(1) by (simp_all add: sm_erase_def)
  show ?case
    using Cons.prems Cons.IH [OF Cons.prems(1)] Cons.IH [OF e(1)] e(2)
    by (fastforce simp: Let_def split: option.splits prod.splits if_splits)
qed simp

lemma Demuxer_OnTransportFeedback_ok:
  assumes "demuxer_ok d" "Demuxer_OnTransportFeedback f pathid d = (calls, d')"
  shows "demuxer_ok d'"
proof -
  let ?h = "if pathid \<noteq> 2 then dx_history d else dx_history_s d"
  obtain infos h where h: "stream_feedbacks (dx_seq_num_unwrapper d) pathid (tf_all_packets f) ?h = (infos, h)" by fastforce
  have "sm_ok ?h" using assms(1) by (simp add: demuxer_ok_def)
  then have "sm_ok h" "length h \<le> length ?h" using stream_feedbacks_ok h by blast+
  then show ?thesis
    using assms h by (auto simp: demuxer_ok_def Demuxer_OnTransportFeedback_def Let_def split: if_splits)
qed

text \<open>
  One unwrapper counts the numbers of both paths: a packet of the primary path whose arrival is reported after the
  secondary path is 40000 numbers ahead is looked up under another number, and its stream is not told.
\<close>

definition example_demuxer :: "u16 \<Rightarrow> TransportFeedbackDemuxer" where
  "example_demuxer n =
     Demuxer_AddPacket ((example_info 2 n)\<lparr>si_pathid := 2\<rparr>)
       (Demuxer_AddPacket ((example_info 1 1)\<lparr>si_pathid := 1\<rparr>)
         \<lparr>dx_seq_num_unwrapper = None, dx_history = [], dx_history_s = [], dx_observers = [([5], 0)]\<rparr>)"

lemma demuxer_forgets:
  "fst (Demuxer_OnTransportFeedback example_loss 1 (example_demuxer 40000)) = [] \<and>
   map fst (fst (Demuxer_OnTransportFeedback example_loss 1 (example_demuxer 2))) = [0]"
  by code_simp

end
