(* ===== verification/ControllerFeedback.thy ===== *)
theory ControllerFeedback
  imports FeedbackDelay AdapterRuns PathControl
begin

text \<open>
  The feedback side of \<open>RtpTransportControllerSend\<close> (\<open>call/rtp_transport_controller_send.cc\<close>): it has one adapter for each path
  and hands every packet, every send time and every feedback packet to the adapter of its path, and the
  result to the congestion controller of the path. The tasks of its queue run in the order in which they are
  posted. The congestion controllers are functions from messages to updates, as in \<open>PathControl\<close>; a result
  \<open>None\<close> is a signed overflow.
\<close>

record feedback_control =
  fc_control :: path_control
  fc_feedback_demuxer :: TransportFeedbackDemuxer
  fc_adapter :: TransportFeedbackAdapter
  fc_adapter_s :: TransportFeedbackAdapter
  fc_send_side_bwe_with_overhead :: bool
  fc_transport_overhead_bytes_per_packet :: nat
  fc_outstanding_data :: int
  fc_stream_calls :: "(nat \<times> StreamPacketInfo list) list"

definition Control_OnAddPacket :: "int \<Rightarrow> RtpPacketSendInfo \<Rightarrow> feedback_control \<Rightarrow> feedback_control option" where
  "Control_OnAddPacket now_ms info c =
     (let c = c\<lparr>fc_feedback_demuxer := Demuxer_AddPacket info (fc_feedback_demuxer c)\<rparr>;
          overhead = (if fc_send_side_bwe_with_overhead c then fc_transport_overhead_bytes_per_packet c else 0)
      in do { creation_time \<leftarrow> Millis now_ms;
              if si_pathid info \<noteq> 2
              then do { a \<leftarrow> AddPacket info overhead creation_time (fc_adapter c); Some (c\<lparr>fc_adapter := a\<rparr>) }
              else do { a \<leftarrow> AddPacket info overhead creation_time (fc_adapter_s c); Some (c\<lparr>fc_adapter_s := a\<rparr>) } })"

text \<open>\<open>pacer()->UpdateOutstandingData\<close> with the sum over both paths.\<close>

definition update_outstanding :: "feedback_control \<Rightarrow> feedback_control option" where
  "update_outstanding c =
     do { n \<leftarrow> unit_plus (Adapter_GetOutstandingData (fc_adapter c)) (Adapter_GetOutstandingData (fc_adapter_s c));
          Some (c\<lparr>fc_outstanding_data := n\<rparr>) }"

text \<open>The message of a path goes to its controller, and both updates, one of them empty, are posted.\<close>

definition post_message ::
  "('m \<Rightarrow> NetworkControlUpdate) option \<Rightarrow> ('m \<Rightarrow> NetworkControlUpdate) option \<Rightarrow> int \<Rightarrow> 'm option \<Rightarrow>
   feedback_control \<Rightarrow> feedback_control option" where
  "post_message controller controller_s pathid msg c =
     (let run = (\<lambda>f. case (msg, f) of (Some m, Some f) \<Rightarrow> f m | _ \<Rightarrow> no_update);
          update1 = (if pathid \<noteq> 2 then run controller else no_update);
          update2 = (if pathid = 2 then run controller_s else no_update)
      in do { p \<leftarrow> PostUpdates update1 update2 (fc_control c); Some (c\<lparr>fc_control := p\<rparr>) })"

definition Control_OnSentPacket ::
  "(SentPacket \<Rightarrow> NetworkControlUpdate) option \<Rightarrow> (SentPacket \<Rightarrow> NetworkControlUpdate) option \<Rightarrow> RtcSentPacket \<Rightarrow>
   feedback_control \<Rightarrow> feedback_control option" where
  "Control_OnSentPacket controller controller_s s c =
     do { (msg, c) \<leftarrow> (if sk_pathid s \<noteq> 2
            then do { (msg, a) \<leftarrow> ProcessSentPacket s (fc_adapter c); Some (msg, c\<lparr>fc_adapter := a\<rparr>) }
            else do { (msg, a) \<leftarrow> ProcessSentPacket s (fc_adapter_s c); Some (msg, c\<lparr>fc_adapter_s := a\<rparr>) });
          c \<leftarrow> update_outstanding c;
          post_message controller controller_s (sk_pathid s) msg c }"

definition Control_OnTransportFeedback ::
  "(TransportPacketsFeedback \<Rightarrow> NetworkControlUpdate) option \<Rightarrow> (TransportPacketsFeedback \<Rightarrow> NetworkControlUpdate) option \<Rightarrow>
   int \<Rightarrow> TransportFeedback \<Rightarrow> feedback_control \<Rightarrow> feedback_control option" where
  "Control_OnTransportFeedback controller controller_s now_ms f c =
     (let pathid = tf_pathid f;
          (calls, d) = Demuxer_OnTransportFeedback f pathid (fc_feedback_demuxer c);
          c = c\<lparr>fc_feedback_demuxer := d, fc_stream_calls := fc_stream_calls c @ calls\<rparr>
      in do { feedback_time \<leftarrow> Millis now_ms;
              (msg, c) \<leftarrow> (if pathid \<noteq> 2
                 then do { (msg, a) \<leftarrow> ProcessTransportFeedback f feedback_time (fc_adapter c);
                           Some (msg, c\<lparr>fc_adapter := a\<rparr>) }
                 else do { (msg, a) \<leftarrow> ProcessTransportFeedback f feedback_time (fc_adapter_s c);
                           Some (msg, c\<lparr>fc_adapter_s := a\<rparr>) });
              c \<leftarrow> post_message controller controller_s pathid msg c;
              update_outstanding c })"

section \<open>The paths do not mix\<close>

definition feedback_paths :: "feedback_control \<Rightarrow> TransportFeedbackAdapter \<times> (int, StreamPacketInfo) smap" where
  "feedback_paths c = (fc_adapter c, dx_history (fc_feedback_demuxer c))"

definition feedback_paths_s :: "feedback_control \<Rightarrow> TransportFeedbackAdapter \<times> (int, StreamPacketInfo) smap" where
  "feedback_paths_s c = (fc_adapter_s c, dx_history_s (fc_feedback_demuxer c))"

lemma update_outstanding_paths:
  "update_outstanding c = Some c' \<Longrightarrow> feedback_paths c' = feedback_paths c \<and> feedback_paths_s c' = feedback_paths_s c"
  by (auto simp: update_outstanding_def feedback_paths_def feedback_paths_s_def bind_eq_Some_conv)

lemma post_message_paths:
  "post_message f g pathid msg c = Some c' \<Longrightarrow> feedback_paths c' = feedback_paths c \<and> feedback_paths_s c' = feedback_paths_s c"
  by (auto simp: post_message_def feedback_paths_def feedback_paths_s_def Let_def bind_eq_Some_conv)

lemma OnTransportFeedback_paths:
  assumes "Control_OnTransportFeedback f g now fb c = Some c'"
  shows "if tf_pathid fb = 2 then feedback_paths c' = feedback_paths c else feedback_paths_s c' = feedback_paths_s c"
proof -
  obtain calls d where d: "Demuxer_OnTransportFeedback fb (tf_pathid fb) (fc_feedback_demuxer c) = (calls, d)" by fastforce
  have "if tf_pathid fb = 2 then dx_history d = dx_history (fc_feedback_demuxer c)
        else dx_history_s d = dx_history_s (fc_feedback_demuxer c)"
    using d by (auto simp: Demuxer_OnTransportFeedback_def Let_def split: prod.splits)
  then show ?thesis
    using assms d
    by (auto simp: Control_OnTransportFeedback_def Let_def bind_eq_Some_conv feedback_paths_def feedback_paths_s_def
        split: if_splits prod.splits dest!: update_outstanding_paths post_message_paths)
qed

lemma OnSentPacket_paths:
  assumes "Control_OnSentPacket f g s c = Some c'"
  shows "if sk_pathid s = 2 then feedback_paths c' = feedback_paths c else feedback_paths_s c' = feedback_paths_s c"
  using assms
  by (auto simp: Control_OnSentPacket_def bind_eq_Some_conv feedback_paths_def feedback_paths_s_def
      split: if_splits prod.splits dest!: update_outstanding_paths post_message_paths)

lemma OnAddPacket_paths:
  assumes "Control_OnAddPacket now info c = Some c'"
  shows "if si_pathid info = 2 then feedback_paths c' = feedback_paths c else feedback_paths_s c' = feedback_paths_s c"
  using assms
  by (auto simp: Control_OnAddPacket_def Demuxer_AddPacket_def Let_def bind_eq_Some_conv feedback_paths_def feedback_paths_s_def
      split: if_splits prod.splits)

text \<open>
  C14: feedback that a packet of the second path asked for never reaches the second path at the sender. The receiver gives it no
  path (-1), so that the sender hands it to the first path: the adapter and the stream history of the second path stay
  as they were, whatever the packet reports.
\<close>

theorem request_feedback_misses_path:
  assumes "SendFeedbackOnRequest junk ssrc seq r 2 p = Some (Gives (q, fs))" "fs = [(2, f)]"
    "Control_OnTransportFeedback ctl ctl_s now f c = Some c'"
  shows "tf_pathid f = - 1 \<and> fc_adapter_s c' = fc_adapter_s c \<and>
    dx_history_s (fc_feedback_demuxer c') = dx_history_s (fc_feedback_demuxer c)"
proof -
  have "tf_pathid f = - 1" using request_feedback_path [OF assms(1), of "(2, f)"] assms(2) by simp
  then show ?thesis using OnTransportFeedback_paths [OF assms(3)] by (simp add: feedback_paths_s_def)
qed

text \<open>An adapter that knows no packet takes any feedback packet.\<close>

lemma feedback_results_unknown:
  "ta_history a = [] \<Longrightarrow> \<exists>a'. feedback_results ps off a = Some ([], a') \<and> ta_in_flight a' = ta_in_flight a \<and>
     ta_network_route a' = ta_network_route a"
proof (induction ps arbitrary: a)
  case (Cons p ps)
  obtain k u where k: "Unwrap16 (rcv_sequence_number p) (ta_seq_num_unwrapper a) = (k, u)" by fastforce
  let ?a = "a\<lparr>ta_seq_num_unwrapper := u\<rparr>"
  have "\<exists>b. acknowledge k ?a = Some b \<and> ta_history b = [] \<and> ta_in_flight b = ta_in_flight a \<and>
      ta_network_route b = ta_network_route a"
    using Cons.prems by (simp add: acknowledge_def)
  with Cons.IH k show ?case by fastforce
qed simp

definition example_feedback_control :: feedback_control where
  "example_feedback_control =
     \<lparr>fc_control = example_control,
      fc_feedback_demuxer = \<lparr>dx_seq_num_unwrapper = None, dx_history = [], dx_history_s = [], dx_observers = []\<rparr>,
      fc_adapter = TransportFeedbackAdapter_new, fc_adapter_s = example_adapter, fc_send_side_bwe_with_overhead = False,
      fc_transport_overhead_bytes_per_packet = 0, fc_outstanding_data = 0, fc_stream_calls = []\<rparr>"

lemma PostUpdates_nothing: "PostUpdates no_update no_update c = Some c"
  by (simp add: PostUpdates_def post_primary_def post_secondary_def post_window_def post_pacing_def post_rate_def
      post_probes_def no_update_def)

lemma example_feedback_processed:
  assumes "tf_pathid f = - 1"
  shows "\<exists>c'. Control_OnTransportFeedback None None 1000 f example_feedback_control = Some c'"
proof -
  obtain calls d where d: "Demuxer_OnTransportFeedback f (- 1) (fc_feedback_demuxer example_feedback_control) = (calls, d)" by fastforce
  have t: "Millis 1000 = Some 1000000" by code_simp
  have "\<exists>b. move_offset f 1000000 TransportFeedbackAdapter_new = Some b \<and> ta_history b = [] \<and> ta_in_flight b = []"
    by (simp add: move_offset_def TransportFeedbackAdapter_new_def IsFinite_def)
  then obtain b where b: "move_offset f 1000000 TransportFeedbackAdapter_new = Some b" "ta_history b = []" "ta_in_flight b = []"
    by blast
  have "\<exists>m a. ProcessTransportFeedback f 1000000 TransportFeedbackAdapter_new = Some (m, a) \<and> ta_in_flight a = []"
    using feedback_results_unknown [OF b(2), of "tf_all_packets f" 0] b(1,3)
    by (auto simp: ProcessTransportFeedback_def ProcessTransportFeedbackInner_def TransportFeedbackAdapter_new_def)
  then obtain m a where "ProcessTransportFeedback f 1000000 TransportFeedbackAdapter_new = Some (m, a)" "ta_in_flight a = []"
    by blast
  then show ?thesis
    using assms d t
    by (simp add: Control_OnTransportFeedback_def Let_def post_message_def PostUpdates_nothing update_outstanding_def
        Adapter_GetOutstandingData_def InFlight_GetOutstandingData_def in_flight_find_def example_adapter_def
        example_feedback_control_def TransportFeedbackAdapter_new_def unit_plus_def PlusInfinityVal_def MinusInfinityVal_def int64_def is_int64_def
        split: option.split)
qed

theorem request_feedback_misses_path_witness:
  "\<exists>q f c'. SendFeedbackOnRequest (replicate 14 0) 5 7 \<lparr>fr_include_timestamps = True, fr_sequence_count = 1\<rparr> 2
       (path_new\<lparr>pf_arrival_times := [(7, 150)]\<rparr>) = Some (Gives (q, [(2, f)])) \<and>
     Control_OnTransportFeedback None None 1000 f example_feedback_control = Some c' \<and> fc_adapter_s c' = example_adapter"
proof -
  have fol: "follows (7 - 1) 7" by (rule follows_near) simp_all
  obtain w f where f: "BuildFeedbackPacket 0 5 7 [(7, 150)] [(7, 150)] (TransportFeedback_new (replicate 14 0) True True (- 1)) =
      Some (Gives (w, f))" "tf_pathid f = - 1"
    using BuildFeedbackPacket_spec(2) [OF _ _ refl fol, where junk = "replicate 14 0" and t = 150 and n = 0 and ssrc = 5
        and xs = "[]" and ys = "[]" and lost = True and pathid = "- 1"] by auto
  then have r: "SendFeedbackOnRequest (replicate 14 0) 5 7 \<lparr>fr_include_timestamps = True, fr_sequence_count = 1\<rparr> 2
      (path_new\<lparr>pf_arrival_times := [(7, 150)]\<rparr>) =
      Some (Gives (path_new\<lparr>pf_packet_count := 1, pf_arrival_times := [(7, 150)]\<rparr>, [(2, f)]))"
    by (simp add: SendFeedbackOnRequest_def Let_def path_new_def lower_bound_def)
  obtain c' where c: "Control_OnTransportFeedback None None 1000 f example_feedback_control = Some c'"
    using example_feedback_processed [OF f(2)] by blast
  have "fc_adapter_s c' = example_adapter"
    using request_feedback_misses_path [OF r refl c] by (simp add: example_feedback_control_def)
  with r c show ?thesis by blast
qed

end
