(* ===== verification/Spec2Isabelle.thy ===== *)
theory Spec2Isabelle
  imports PathControl TrafficSplit Retransmit RtcpReports ReceiverSafety Delivery PathStatistics CompoundDelivery
    ControllerFeedback
begin

text \<open>
  A verification development for the sender side of a multipath WebRTC: a WebRTC tree in which each
  video frame is split over two network paths. All sources named below are under \<open>src/src/\<close>.

  The program. The shared object \<open>MpCollector\<close> holds what is known of the two paths: rates, round trip
  times, losses, windows, the best path and the full and half signals by which the receiver asks for
  less traffic on a path. \<open>RtpTransportControllerSend\<close> feeds it: each path has a congestion controller of
  its own, and \<open>PostUpdates\<close> merges the two results, picks the best path and the split ratio and hands the sum
  of the rates on. \<open>RTPSender\<close> reads it for each frame and stamps every packet with a path id and a path
  sequence number; sent packets stay in \<open>RtpPacketHistory\<close> until the receiver's NACKs no longer need them. The
  receiver keeps one \<open>NackModule2\<close> per path, asks for missing packets in RTCP NACK packets, and reports
  arrivals, which \<open>RemoteEstimatorProxy\<close> notes, in transport feedback packets, from which \<open>TransportFeedbackAdapter\<close> at the sender
  makes the messages of the path's congestion controller; every RTCP packet carries the path id in a header
  that is four bytes longer than the standard one.

  The theories, in the order of the data flow:

  \<^item> \<open>Prelude\<close>: machine integers, results (\<open>Fails\<close> is a C++ \<open>false\<close>, \<open>None\<close> is undefined behaviour), shared
    lemmas. \<open>ByteIO\<close>: \<open>byte_io.h\<close>. \<open>Binary64\<close>: the \<open>double\<close> of the C++ code, values and rounding written
    out. \<open>SeqNum\<close>: sequence number comparison and unwrapping (\<open>module_common_types_public.h\<close>,
    \<open>sequence_number_util.h\<close>).
  \<^item> \<open>MpCollector\<close>: \<open>api/mp_collector.cc\<close>, the record of its members and its setters. Reachable states are an
    inductive predicate; the invariant relates the signals.
  \<^item> \<open>NetworkTypes\<close> and \<open>PathControl\<close>: \<open>api/transport/network_types.h\<close>, the units, the control handler and
    \<open>call/rtp_transport_controller_send.cc\<close> (\<open>MpFindBestPath\<close>, \<open>MpFindRatio\<close>, \<open>PostUpdates\<close>, the handling of
    report blocks). The two congestion controllers are not modelled: their updates are arguments.
    The lemmas show what rate leaves the controller, that the best path is not dominated,
    and that the scheduler below is then defined on every frame.
  \<^item> \<open>RtpPacket\<close>, \<open>RtpSender\<close>, \<open>TrafficSplit\<close>: \<open>modules/rtp_rtcp/source/rtp_sender.cc\<close>, the split of a frame
    (\<open>MPTrafficSplitImplementation\<close> and the schedulers). Numbers on a path are consecutive, the window
    of the worse path bounds its share, every branch is covered, closed paths included.
  \<^item> \<open>PacketHistory\<close> and \<open>Retransmit\<close>: \<open>rtp_packet_history.cc\<close> and the retransmission side of
    \<open>rtp_sender.cc\<close>. The history is a deque of slots with a priority set; the invariant gives memory safety,
    the lookup lemmas relate it to the packets that were put in.
  \<^item> \<open>RtcpCommon\<close> to \<open>RtcpNack\<close>: the packet classes of \<open>rtcp_packet/\<close>. The locale \<open>rtcp_codec\<close> is the contract
    between \<open>BlockLength\<close>, \<open>Create\<close> and \<open>Parse\<close>; every packet class interprets it (mostly through \<open>rtcp_block\<close>),
    and the round trips rest on the interpretations. Parsers are shown never to read out of bounds,
    on any input.
  \<^item> \<open>TransportFeedback\<close>, \<open>FeedbackBuild\<close>, \<open>FeedbackParse\<close>: \<open>transport_feedback.cc\<close>. \<open>represents\<close> is the abstract
    specification, a list of statuses; \<open>AddReceivedPacket\<close> refines it, a parsed packet represents what
    the built one did.
  \<^item> \<open>RtcpXr\<close>, \<open>StdMap\<close>, \<open>RtcpReceiver\<close>: \<open>extended_reports.cc\<close> with its blocks, ordered maps, and
    \<open>rtcp_receiver.cc\<close>: the handlers of all blocks, the state kept for each path, the callbacks. \<open>ReceiverPaths\<close>
    and \<open>ReceiverSafety\<close> show that a packet of one path leaves the other path's state alone, that
    round trip times stay in bounds, and on which packets a handler reads out of bounds. The locale
    \<open>block_relation\<close> carries a relation between states from what is stored for a path to whole packets.
  \<^item> \<open>NackModule\<close>: \<open>modules/video_coding/nack_module2.cc\<close>, a state machine over received packets and timer
    events, with reachability and an invariant; \<open>Delivery\<close> and this theory compose it with the NACK
    packets and the RTCP receiver and show that a request, and a feedback packet, arrive on the other side.
  \<^item> \<open>RateStatistics\<close>, \<open>ReceiveStatistics\<close>, \<open>PathStatistics\<close>: \<open>rtc_base/rate_statistics.cc\<close> and
    \<open>receive_statistics_impl.cc\<close>: what the receiver counts for the stream and for each path, and the report blocks.
    A window of buckets refines the sum of the samples; losses of a path are exact while its packets are in
    order; a state is shown in which a path is never counted again.
  \<^item> \<open>RtcpSender\<close>, \<open>RtcpCompound\<close>: \<open>rtcp_sender.cc\<close> and \<open>compound_packet.cc\<close>: the flags that say which packets are
    due, the time of the next report of each path, the builders of all packets and their transmission. The lemmas show
    that flags are used up, what a compound packet starts with, and when the next report of a path is due.
  \<^item> \<open>CompoundWire\<close>, \<open>CompoundDelivery\<close>: the sender and the receiver of RTCP packets together. Everything a call builds is
    found by the receiver, in order and over as many datagrams as it takes; full and half signals change the collector of the other
    side once; which numbers the asymmetry messages can carry.
  \<^item> \<open>RemoteProxy\<close>, \<open>ProxyFeedback\<close>, \<open>ProxyRuns\<close>: \<open>remote_estimator_proxy.cc\<close>, which notes the arrival times of each path at the
    receiver and reports them. Every run ends; what is reported is the window of arrivals, or the check of \<open>BuildFeedbackPacket\<close>
    stops the process, and the condition for that is exact. The interval between reports is bounded.
  \<^item> \<open>FeedbackAdapter\<close>, \<open>FeedbackTimes\<close>, \<open>FeedbackDelay\<close>, \<open>AdapterRuns\<close>: \<open>transport_feedback_adapter.cc\<close> and
    \<open>transport_feedback_demuxer.cc\<close> with the results of \<open>network_types.cc\<close>. Arrival times go from the proxy through the bytes of a
    feedback packet and the RTCP receiver to the adapter and differ there by one constant; the bytes in flight
    are exact while a packet has one number, and wrong with two. The locale \<open>strict_weak_order\<close> is the contract of the C++ comparators.
  \<^item> \<open>ControllerFeedback\<close>: the feedback side of \<open>rtp_transport_controller_send.cc\<close>, one adapter for each path, and which
    feedback reaches which path.

  Conventions. Signed overflow, reads outside of an array and conversions of unrepresentable
  floating point numbers are \<open>None\<close>; a theorem that a result is \<open>Some\<close> is a theorem of definedness. Locks,
  logging and statistics callbacks are left out; callbacks with an effect are lists of events in
  the state. Time is an argument. No definition uses fuel: loops are structural or come with a
  termination measure, so the functions are total. The one exception is \<open>feedback_loop\<close> in \<open>RemoteProxy\<close>, a partial function whose value
  \<open>None\<close> includes not returning; it is shown to return. Numbers as large as 65535 statuses in a
  feedback packet, 10000 numbers in a NACK list or 32 items in an RTCP packet are the sources' own limits.

  Not modelled: the congestion controllers (\<open>modules/congestion_controller/goog_cc\<close>, functions from messages to updates here) and
  the pacer (\<open>modules/pacing\<close>), threads and timers, the route changes and periodic tasks of the transport controller, the byte layout of RTP header extensions,
  the bounding set of \<open>tmmbr_help.cc\<close> (a parameter of the receiver and the sender), the ICE transport (\<open>p2p/\<close>), and the media engine. The files \<open>v1_rtp_sender.cc\<close>,
  \<open>mprtp_rtp_sender.cc\<close> and their like are not part of the build.
\<close>

section \<open>Requests and feedback between the two sides\<close>

text \<open>
  C29: whatever packets the receiver of a path has seen, the numbers it asks for travel in RTCP packets
  of at most \<open>mx\<close> bytes, and the RTCP receiver at the sender, in whatever state, hands exactly these
  numbers on, in the same order and with the path id of the request.
\<close>

theorem nack_request_delivered:
  assumes "nack_reachable m" "GetNackBatch opt now m = (ids, m')" "ids \<noteq> []"
    "20 \<le> mx" "mx \<le> 65535" "int32 (nk_pathid p)" "\<not> rc_receiver_only c" "rc_main_ssrc c = nk_media_ssrc p"
  shows "\<exists>wires s'. Build (Nack_Create (SetPacketIds ids p)) mx = Some (Gives wires) \<and> list_all (\<lambda>w. length w \<le> mx) wires \<and>
    receive_all fb c ck junk wires s = Some s' \<and>
    requested (rv_events s') = requested (rv_events s) @ map (\<lambda>x. (x, nk_pathid p)) ids"
proof -
  obtain wires nacks where b: "Build (Nack_Create (SetPacketIds ids p)) mx = Some (Gives wires)"
    and d: "delivered p mx wires nacks" and u: "concat (map nk_packet_ids nacks) = Unpack (Pack ids)"
    using nack_build_delivered [OF assms(4,5,3,6)] by blast
  have "Unpack (Pack ids) = ids"
    by (rule Unpack_Pack_ordered [OF batch_in_order [OF nack_reachable_inv [OF assms(1)] assms(2)]])
  with b u receive_delivered [OF d assms(7,8), of fb ck junk s] delivered_lengths [OF d] show ?thesis by auto
qed

theorem nack_request_delivered_witness:
  "let p = \<lparr>nk_sender_ssrc = 7, nk_media_ssrc = 5, nk_pathid = 2, nk_packed = [], nk_packet_ids = []\<rparr>;
       ids = [65534, 65535, 0]
   in \<exists>wires s'. Build (Nack_Create (SetPacketIds ids p)) 24 = Some (Gives wires) \<and>
     receive_all id example_config example_clock [] wires example_receiver = Some s' \<and>
     requested (rv_events s') = requested (rv_events example_receiver) @ [(65534, 2), (65535, 2), (0, 2)]"
proof -
  let ?p = "\<lparr>nk_sender_ssrc = 7, nk_media_ssrc = 5, nk_pathid = 2, nk_packed = [], nk_packet_ids = []\<rparr>"
  have "fst (GetNackBatch kTimeOnly 500 example_nack) = [65534, 65535, 0]" by code_simp
  then have "GetNackBatch kTimeOnly 500 example_nack = ([65534, 65535, 0], snd (GetNackBatch kTimeOnly 500 example_nack))"
    by (simp add: prod_eq_iff)
  from nack_request_delivered [OF example_nack_reachable this, of 24 ?p example_config id example_clock "[]" example_receiver]
  show ?thesis unfolding Let_def by (auto simp: int32_def example_config_def)
qed



end
